(* ===== verification/GoBase.thy ===== *)
theory GoBase
  imports Complex_Main
begin

section \<open>Prelude: the Go base types and the lemmas the components share\<close>

text \<open>
  Go values as the components use them.  A \<open>string\<close> is its list of bytes (\<open>char\<close> is an
  eight-bit character).  A \<open>time.Time\<close> is the number of nanoseconds since the epoch and a
  \<open>time.Duration\<close> a number of nanoseconds, both of type \<open>int\<close>; \<open>int\<close> also carries Go's
  \<open>int\<close> and \<open>int64\<close>, with \<open>wrap64\<close> written out where a computation can leave the range.
  A result \<open>(T, error)\<close> is a sum, the error on the left.

  The string functions model \<open>strings.TrimSpace\<close> (with every UTF-8 white space sequence Go
  trims), \<open>strings.Split\<close>, \<open>strings.SplitN(s, sep, 2)\<close>, \<open>strings.ToLower\<close>,
  \<open>strings.ToUpper\<close>, \<open>strings.EqualFold\<close>, \<open>strconv.Itoa\<close>.  Case mapping is exact on
  ASCII and leaves the bytes of other letters unchanged, which gives the same answer as Go
  wherever the code compares the result with an ASCII constant free of the letters \<open>k\<close>,
  \<open>s\<close> and \<open>i\<close>, the only ones another code point folds to.
\<close>

named_theorems go_splits \<comment> \<open>case-split rules of the model's datatypes and results\<close>
named_theorems str_simps \<comment> \<open>rewrite rules of the string functions\<close>

type_synonym time = int
type_synonym duration = int
type_synonym int64 = int
type_synonym 'v dict = "string \<rightharpoonup> 'v"

subsection \<open>Durations\<close>

abbreviation millisecond :: duration where
  "millisecond \<equiv> 1000000"
abbreviation second :: duration where
  "second \<equiv> 1000000000"
abbreviation minute :: duration where
  "minute \<equiv> 60000000000"
abbreviation hour :: duration where
  "hour \<equiv> 3600000000000"
abbreviation day :: duration where
  "day \<equiv> 86400000000000"

subsection \<open>Faults\<close>

text \<open>
  What may happen to a call of a store: it is refused, with nothing done, or its effect takes place
  and the reply is lost; either way the caller gets the error with this text.
\<close>

datatype fault = Refused string | LostReply string

subsection \<open>Machine integers\<close>

text \<open>The value a 64-bit two's complement register holds after computing \<open>x\<close>.\<close>

definition wrap64 :: "int \<Rightarrow> int" where
  "wrap64 x = (x + 2 ^ 63) mod 2 ^ 64 - 2 ^ 63"

definition in_int64 :: "int \<Rightarrow> bool" where
  "in_int64 x \<longleftrightarrow> - (2 ^ 63) \<le> x \<and> x < 2 ^ 63"

lemma wrap64_id [simp]: "in_int64 x \<Longrightarrow> wrap64 x = x"
  by (simp add: wrap64_def in_int64_def)

lemma in_int64_wrap64 [simp]: "in_int64 (wrap64 x)"
proof -
  have "0 \<le> (x + 2 ^ 63) mod 2 ^ 64" "(x + 2 ^ 63) mod 2 ^ 64 < 2 ^ 64"
    by simp_all
  then show ?thesis
    by (simp add: wrap64_def in_int64_def)
qed

text \<open>Go's integer division truncates towards zero.\<close>

definition go_div :: "int \<Rightarrow> int \<Rightarrow> int" where
  "go_div a b = sgn a * sgn b * (\<bar>a\<bar> div \<bar>b\<bar>)"

lemma go_div_nonneg [simp]: "0 \<le> a \<Longrightarrow> 0 < b \<Longrightarrow> go_div a b = a div b"
  by (cases "a = 0") (simp_all add: go_div_def)

subsection \<open>Trimming white space\<close>

text \<open>
  The UTF-8 encodings of the code points \<open>unicode.IsSpace\<close> accepts: the six ASCII ones,
  U+0085, U+00A0, U+1680, U+2000 to U+200A, U+2028, U+2029, U+202F, U+205F and U+3000.
\<close>

definition ws_seqs :: "string list" where
  "ws_seqs =
     [[CHR 0x20], [CHR 0x09], [CHR 0x0A], [CHR 0x0B], [CHR 0x0C], [CHR 0x0D],
      [CHR 0xC2, CHR 0x85], [CHR 0xC2, CHR 0xA0],
      [CHR 0xE1, CHR 0x9A, CHR 0x80],
      [CHR 0xE2, CHR 0x80, CHR 0x80], [CHR 0xE2, CHR 0x80, CHR 0x81],
      [CHR 0xE2, CHR 0x80, CHR 0x82], [CHR 0xE2, CHR 0x80, CHR 0x83],
      [CHR 0xE2, CHR 0x80, CHR 0x84], [CHR 0xE2, CHR 0x80, CHR 0x85],
      [CHR 0xE2, CHR 0x80, CHR 0x86], [CHR 0xE2, CHR 0x80, CHR 0x87],
      [CHR 0xE2, CHR 0x80, CHR 0x88], [CHR 0xE2, CHR 0x80, CHR 0x89],
      [CHR 0xE2, CHR 0x80, CHR 0x8A],
      [CHR 0xE2, CHR 0x80, CHR 0xA8], [CHR 0xE2, CHR 0x80, CHR 0xA9],
      [CHR 0xE2, CHR 0x80, CHR 0xAF], [CHR 0xE2, CHR 0x81, CHR 0x9F],
      [CHR 0xE3, CHR 0x80, CHR 0x80]]"

fun has_prefix :: "string \<Rightarrow> string \<Rightarrow> bool" where
  "has_prefix s [] = True"
| "has_prefix [] (p # ps) = False"
| "has_prefix (c # s) (p # ps) = (c = p \<and> has_prefix s ps)"

lemma has_prefix_iff: "has_prefix s p \<longleftrightarrow> (\<exists>r. s = p @ r)"
  by (induction s p rule: has_prefix.induct) auto

definition trim_prefix :: "string \<Rightarrow> string \<Rightarrow> string" where
  "trim_prefix s p = (if has_prefix s p then drop (length p) s else s)"

fun strip_one :: "string list \<Rightarrow> string \<Rightarrow> string option" where
  "strip_one [] s = None"
| "strip_one (p # ps) s =
     (if p \<noteq> [] \<and> has_prefix s p then Some (drop (length p) s) else strip_one ps s)"

lemma strip_one_shorter: "strip_one ps s = Some r \<Longrightarrow> length r < length s"
  by (induction ps s rule: strip_one.induct) (auto simp: has_prefix_iff split: if_splits)

function trim_seqs :: "string list \<Rightarrow> string \<Rightarrow> string" where
  "trim_seqs ps s = (case strip_one ps s of None \<Rightarrow> s | Some r \<Rightarrow> trim_seqs ps r)"
  by pat_completeness auto
termination
  by (relation "measure (\<lambda>(ps, s). length s)") (auto dest: strip_one_shorter)

declare trim_seqs.simps [simp del]

definition trim_space :: "string \<Rightarrow> string" where
  "trim_space s = rev (trim_seqs (map rev ws_seqs) (rev (trim_seqs ws_seqs s)))"

lemma strip_one_None_iff:
  "strip_one ps s = None \<longleftrightarrow> (\<forall>p \<in> set ps. p \<noteq> [] \<longrightarrow> \<not> has_prefix s p)"
  by (induction ps s rule: strip_one.induct) auto

lemma strip_one_Some: "strip_one ps s = Some r \<Longrightarrow> \<exists>p \<in> set ps. s = p @ r"
  by (induction ps s rule: strip_one.induct) (auto simp: has_prefix_iff split: if_splits)

lemma trim_seqs_stuck: "strip_one ps (trim_seqs ps s) = None"
proof (induction ps s rule: trim_seqs.induct)
  case (1 ps s)
  then show ?case
    by (cases "strip_one ps s") (simp_all add: trim_seqs.simps [of ps s])
qed

lemma trim_seqs_id: "strip_one ps s = None \<Longrightarrow> trim_seqs ps s = s"
  by (simp add: trim_seqs.simps [of ps s])

lemma trim_seqs_suffix: "\<exists>q. s = q @ trim_seqs ps s"
proof (induction ps s rule: trim_seqs.induct)
  case (1 ps s)
  show ?case
  proof (cases "strip_one ps s")
    case None
    then show ?thesis by (simp add: trim_seqs.simps [of ps s])
  next
    case (Some r)
    with 1 obtain q where "r = q @ trim_seqs ps r" by blast
    moreover from Some obtain p where "s = p @ r" by (blast dest: strip_one_Some)
    ultimately have "s = (p @ q) @ trim_seqs ps r" by simp
    with Some show ?thesis by (metis option.simps(5) trim_seqs.simps)
  qed
qed

lemma strip_one_prefix_stuck:
  assumes "strip_one ps (t @ u) = None"
  shows "strip_one ps t = None"
  using assms by (auto simp: strip_one_None_iff has_prefix_iff)

lemma trim_space_idem [simp, str_simps]: "trim_space (trim_space s) = trim_space s"
proof -
  define l where "l = trim_seqs ws_seqs s"
  define r where "r = trim_seqs (map rev ws_seqs) (rev l)"
  have sl: "strip_one ws_seqs l = None"
    by (simp add: l_def trim_seqs_stuck)
  have sr: "strip_one (map rev ws_seqs) r = None"
    by (simp add: r_def trim_seqs_stuck)
  obtain q where "rev l = q @ r"
    using trim_seqs_suffix [of "rev l" "map rev ws_seqs"] by (auto simp: r_def)
  then have "l = rev r @ rev q"
    by (metis rev_append rev_rev_ident)
  with sl have "strip_one ws_seqs (rev r) = None"
    by (auto dest: strip_one_prefix_stuck)
  then have "trim_seqs ws_seqs (rev r) = rev r"
    by (rule trim_seqs_id)
  with sr have "trim_space (rev r) = rev r"
    by (simp add: trim_space_def trim_seqs_id)
  then show ?thesis
    by (simp add: trim_space_def l_def r_def)
qed

lemma trim_space_Nil [simp, str_simps]: "trim_space [] = []"
  by (simp add: trim_space_def ws_seqs_def trim_seqs.simps)

lemma trim_space_plain:
  assumes "\<And>c. c \<in> set s \<Longrightarrow> 33 \<le> (of_char c :: int) \<and> (of_char c :: int) \<le> 126"
  shows "trim_space s = s"
proof -
  have w: "p \<noteq> [] \<and> \<not> (33 \<le> (of_char (hd p) :: int) \<and> (of_char (hd p) :: int) \<le> 126) \<and>
      \<not> (33 \<le> (of_char (last p) :: int) \<and> (of_char (last p) :: int) \<le> 126)"
    if "p \<in> set ws_seqs" for p
    using that unfolding ws_seqs_def by auto
  have "\<not> has_prefix s p" if "p \<in> set ws_seqs" for p
  proof
    assume "has_prefix s p"
    then have "hd p \<in> set s" using w [OF that] by (auto simp: has_prefix_iff)
    then show False using assms w [OF that] by blast
  qed
  moreover have "\<not> has_prefix (rev s) (rev p)" if "p \<in> set ws_seqs" for p
  proof
    assume "has_prefix (rev s) (rev p)"
    then obtain r where "rev s = rev p @ r" by (auto simp: has_prefix_iff)
    then have "s = rev r @ p" by (metis rev_append rev_rev_ident)
    then have "last p \<in> set s" using w [OF that] by auto
    then show False using assms w [OF that] by blast
  qed
  ultimately have "strip_one ws_seqs s = None" "strip_one (map rev ws_seqs) (rev s) = None"
    by (auto simp: strip_one_None_iff)
  then show ?thesis by (simp add: trim_space_def trim_seqs_id)
qed

lemma trim_seqs_keeps:
  "c \<in> set s \<Longrightarrow> \<forall>p \<in> set ps. c \<notin> set p \<Longrightarrow> c \<in> set (trim_seqs ps s)"
proof (induction ps s rule: trim_seqs.induct)
  case (1 ps s)
  show ?case
  proof (cases "strip_one ps s")
    case None
    with 1 show ?thesis by (simp add: trim_seqs_id)
  next
    case (Some r)
    then obtain p where "p \<in> set ps" "s = p @ r" by (blast dest: strip_one_Some)
    with 1 Some have "c \<in> set (trim_seqs ps r)" by auto
    with Some show ?thesis by (simp add: trim_seqs.simps [of ps s])
  qed
qed

lemma trim_space_ne:
  assumes "c \<in> set s" and "33 \<le> (of_char c :: int)" and "(of_char c :: int) \<le> 126"
  shows "trim_space s \<noteq> []"
proof -
  have w: "\<forall>p \<in> set ws_seqs. c \<notin> set p"
    using assms(2,3) unfolding ws_seqs_def by auto
  have "c \<in> set (rev (trim_seqs ws_seqs s))"
    using trim_seqs_keeps [OF assms(1) w] by simp
  then have "c \<in> set (trim_seqs (map rev ws_seqs) (rev (trim_seqs ws_seqs s)))"
    by (rule trim_seqs_keeps) (use w in simp)
  then show ?thesis by (auto simp: trim_space_def)
qed

subsection \<open>Splitting\<close>

text \<open>\<open>strings.Split(s, sep)\<close> for a separator of one byte: never the empty list.\<close>

fun split_on :: "char \<Rightarrow> string \<Rightarrow> string list" where
  "split_on c [] = [[]]"
| "split_on c (x # xs) =
     (if x = c then [] # split_on c xs
      else case split_on c xs of [] \<Rightarrow> [[x]] | p # ps \<Rightarrow> (x # p) # ps)"

lemma split_on_ne [simp]: "split_on c s \<noteq> []"
  by (induction c s rule: split_on.induct) (auto split: list.splits)

text \<open>\<open>strings.SplitN(s, sep, 2)\<close>: the two parts around the first separator, or the whole.\<close>

definition cut :: "char \<Rightarrow> string \<Rightarrow> string + string \<times> string" where
  "cut c s = (if c \<in> set s
              then Inr (takeWhile (\<lambda>x. x \<noteq> c) s, tl (dropWhile (\<lambda>x. x \<noteq> c) s))
              else Inl s)"

lemma cut_Inr_append: "cut c s = Inr (a, b) \<Longrightarrow> s = a @ c # b"
proof -
  assume "cut c s = Inr (a, b)"
  then have c: "c \<in> set s" and a: "a = takeWhile (\<lambda>x. x \<noteq> c) s"
    and b: "b = tl (dropWhile (\<lambda>x. x \<noteq> c) s)"
    by (auto simp: cut_def split: if_splits)
  from c have "dropWhile (\<lambda>x. x \<noteq> c) s \<noteq> []"
    by (auto simp: dropWhile_eq_Nil_conv)
  then have "dropWhile (\<lambda>x. x \<noteq> c) s = c # b"
    using b hd_dropWhile [of "\<lambda>x. x \<noteq> c" s] by (cases "dropWhile (\<lambda>x. x \<noteq> c) s") auto
  with a show "s = a @ c # b"
    by (metis takeWhile_dropWhile_id)
qed

subsection \<open>Case mapping and comparison\<close>

definition lower_char :: "char \<Rightarrow> char" where
  "lower_char c = (if 65 \<le> (of_char c :: nat) \<and> (of_char c :: nat) \<le> 90
                   then char_of ((of_char c :: nat) + 32) else c)"

definition upper_char :: "char \<Rightarrow> char" where
  "upper_char c = (if 97 \<le> (of_char c :: nat) \<and> (of_char c :: nat) \<le> 122
                   then char_of ((of_char c :: nat) - 32) else c)"

definition to_lower :: "string \<Rightarrow> string" where
  "to_lower s = map lower_char s"

definition to_upper :: "string \<Rightarrow> string" where
  "to_upper s = map upper_char s"

definition equal_fold :: "string \<Rightarrow> string \<Rightarrow> bool" where
  "equal_fold s t \<longleftrightarrow> to_lower s = to_lower t"

lemma equal_fold_refl [simp]: "equal_fold s s"
  by (simp add: equal_fold_def)

lemma equal_fold_sym: "equal_fold s t \<longleftrightarrow> equal_fold t s"
  by (auto simp: equal_fold_def)

subsection \<open>Decimal digits\<close>

definition digit_char :: "int \<Rightarrow> char" where
  "digit_char d = char_of (48 + d)"

text \<open>The decimal digits of a number that is not negative, and \<open>strconv.Itoa\<close>.\<close>

function dec :: "int \<Rightarrow> string" where
  "dec n = (if n < 10 then [digit_char n] else dec (n div 10) @ [digit_char (n mod 10)])"
  by pat_completeness auto
termination
  by (relation "measure nat") auto

declare dec.simps [simp del]

definition itoa :: "int \<Rightarrow> string" where
  "itoa i = (if i < 0 then CHR ''-'' # dec (- i) else dec i)"

definition is_digit :: "char \<Rightarrow> bool" where
  "is_digit c \<longleftrightarrow> 48 \<le> (of_char c :: int) \<and> (of_char c :: int) \<le> 57"

definition digit_val :: "char \<Rightarrow> int" where
  "digit_val c = of_char c - 48"

definition digits_val :: "string \<Rightarrow> int" where
  "digits_val s = foldl (\<lambda>n c. 10 * n + digit_val c) 0 s"

lemma of_char_digit_char: "0 \<le> d \<Longrightarrow> d < 10 \<Longrightarrow> (of_char (digit_char d) :: int) = 48 + d"
  by (simp add: digit_char_def)

lemma digit_val_char [simp]: "0 \<le> d \<Longrightarrow> d < 10 \<Longrightarrow> digit_val (digit_char d) = d"
  by (simp add: digit_val_def of_char_digit_char)

lemma is_digit_char: "0 \<le> d \<Longrightarrow> d < 10 \<Longrightarrow> is_digit (digit_char d)"
  by (simp add: is_digit_def of_char_digit_char)

lemma digits_val_snoc: "digits_val (s @ [c]) = 10 * digits_val s + digit_val c"
  by (simp add: digits_val_def)

lemma digits_val_dec [simp]: "0 \<le> n \<Longrightarrow> digits_val (dec n) = n"
proof (induction n rule: dec.induct)
  case (1 n)
  show ?case
  proof (cases "n < 10")
    case True
    with 1 show ?thesis by (simp add: dec.simps [of n] digits_val_def)
  next
    case False
    with 1 show ?thesis by (simp add: dec.simps [of n] digits_val_snoc)
  qed
qed

lemma dec_inject [simp]: "0 \<le> m \<Longrightarrow> 0 \<le> n \<Longrightarrow> dec m = dec n \<longleftrightarrow> m = n"
  by (metis digits_val_dec)

lemma dec_digits: "0 \<le> n \<Longrightarrow> c \<in> set (dec n) \<Longrightarrow> is_digit c"
proof (induction n rule: dec.induct)
  case (1 n)
  then show ?case
    by (cases "n < 10") (auto simp: dec.simps [of n] is_digit_char)
qed

lemma dec_ne [simp]: "dec n \<noteq> []"
  by (subst dec.simps) simp

lemma itoa_nonneg: "0 \<le> i \<Longrightarrow> itoa i = dec i"
  by (simp add: itoa_def)

lemma itoa_inject [simp]: "itoa a = itoa b \<longleftrightarrow> a = b"
proof -
  have d: "CHR ''-'' # s \<noteq> dec k" if "0 \<le> k" for s k
  proof
    assume "CHR ''-'' # s = dec k"
    then have "is_digit CHR ''-''" using dec_digits [OF that] by (metis list.set_intros(1))
    then show False by (simp add: is_digit_def)
  qed
  show ?thesis
    using d [of a "dec (- b)"] d [of b "dec (- a)"] by (auto simp: itoa_def)
qed

lemma itoa_chars: "c \<in> set (itoa i) \<Longrightarrow> is_digit c \<or> c = CHR ''-''"
  using dec_digits [of i c] dec_digits [of "- i" c] by (auto simp: itoa_def split: if_splits)

lemma trim_space_itoa [simp]: "trim_space (itoa i) = itoa i"
  by (rule trim_space_plain) (auto dest!: itoa_chars simp: is_digit_def)

subsection \<open>Numbers\<close>

text \<open>
  A \<open>float64\<close>: a finite value is the rational it denotes, and the arithmetic of the model is
  exact where the hardware rounds to the nearest representable value.  Every comparison with
  \<open>NaN\<close> is false.
\<close>

datatype f64 = Fin rat | PosInf | NegInf | NaN

fun f64_less :: "f64 \<Rightarrow> f64 \<Rightarrow> bool" where
  "f64_less NaN _ = False"
| "f64_less _ NaN = False"
| "f64_less (Fin a) (Fin b) = (a < b)"
| "f64_less NegInf NegInf = False"
| "f64_less NegInf _ = True"
| "f64_less _ PosInf = True"
| "f64_less _ _ = False"

text \<open>The integer nearest to \<open>x\<close>, a tie going to the even one (\<open>strconv.FormatFloat\<close>).\<close>

definition round_half_even :: "rat \<Rightarrow> int" where
  "round_half_even x =
     (let f = \<lfloor>x\<rfloor>; d = x - of_int f
      in if d < 1 / 2 \<or> (d = 1 / 2 \<and> even f) then f else f + 1)"

lemma round_half_even_nonneg: "0 \<le> x \<Longrightarrow> 0 \<le> round_half_even x"
  by (simp add: round_half_even_def Let_def)

definition pad_left :: "nat \<Rightarrow> char \<Rightarrow> string \<Rightarrow> string" where
  "pad_left n c s = replicate (n - length s) c @ s"

lemma round_half_even_error: "\<bar>of_int (round_half_even x) - x\<bar> \<le> 1 / 2"
proof -
  let ?f = "of_int \<lfloor>x\<rfloor> :: rat"
  have b: "?f \<le> x" "x < ?f + 1"
    by linarith+
  show ?thesis
  proof (cases "x - ?f < 1 / 2 \<or> (x - ?f = 1 / 2 \<and> even \<lfloor>x\<rfloor>)")
    case True
    then have "of_int (round_half_even x) = ?f" "x - ?f \<le> 1 / 2"
      by (auto simp: round_half_even_def Let_def)
    with b show ?thesis by linarith
  next
    case False
    then have "of_int (round_half_even x) = ?f + 1" "1 / 2 \<le> x - ?f"
      by (auto simp: round_half_even_def Let_def)
    with b show ?thesis by linarith
  qed
qed

lemma digits_val_zeros [simp]: "digits_val (replicate n CHR ''0'' @ s) = digits_val s"
  by (induction n) (simp_all add: digits_val_def digit_val_def)

lemma length_dec: "0 \<le> n \<Longrightarrow> n < 10 ^ k \<Longrightarrow> 0 < k \<Longrightarrow> length (dec n) \<le> k"
proof (induction k arbitrary: n)
  case (Suc k)
  show ?case
  proof (cases "n < 10")
    case True
    then show ?thesis by (simp add: dec.simps [of n])
  next
    case False
    then have "0 < k" using Suc.prems(2) by (cases k) auto
    moreover have "n div 10 < 10 ^ k" using Suc.prems(2) by simp
    moreover have "0 \<le> n div 10" using Suc.prems(1) by simp
    ultimately have "length (dec (n div 10)) \<le> k" by (intro Suc.IH)
    with False show ?thesis by (simp add: dec.simps [of n])
  qed
qed simp

subsection \<open>Loops over lists\<close>

text \<open>A loop body that may reject an element: the accepted results and the rejected count.\<close>

fun partition_results :: "('a \<Rightarrow> 'e + 'b) \<Rightarrow> 'a list \<Rightarrow> 'b list \<times> nat" where
  "partition_results f [] = ([], 0)"
| "partition_results f (x # xs) =
     (case partition_results f xs of (rows, rej) \<Rightarrow>
        (case f x of Inl e \<Rightarrow> (rows, Suc rej) | Inr r \<Rightarrow> (r # rows, rej)))"

lemma partition_results_count:
  "length (fst (partition_results f xs)) + snd (partition_results f xs) = length xs"
  by (induction xs) (auto split: prod.splits sum.splits)

lemma partition_results_set:
  "set (fst (partition_results f xs)) = {r. \<exists>x \<in> set xs. f x = Inr r}"
  by (induction xs) (auto split: prod.splits sum.splits)

lemma nth_concat_uniform:
  assumes "\<And>xs. xs \<in> set xss \<Longrightarrow> length xs = n" and "i < length xss" and "j < n"
  shows "concat xss ! (i * n + j) = xss ! i ! j"
  using assms
proof (induction xss arbitrary: i)
  case (Cons xs xss)
  then have n: "length xs = n" by simp
  show ?case
  proof (cases i)
    case 0
    with n Cons.prems(3) show ?thesis by (simp add: nth_append)
  next
    case (Suc k)
    with Cons have "concat xss ! (k * n + j) = xss ! k ! j" by simp
    with n Suc show ?thesis by (simp add: nth_append add.assoc)
  qed
qed simp

lemma find_unique:
  "distinct (map f xs) \<Longrightarrow> find (\<lambda>x. f x = a) xs = Some y \<longleftrightarrow> y \<in> set xs \<and> f y = a"
  by (induction xs) auto

lemma find_map_invariant:
  "(\<And>x. P (f x) = P x) \<Longrightarrow> find P (map f xs) = map_option f (find P xs)"
  by (induction xs) auto

lemmas go_base_splits [go_splits] =
  if_splits option.splits sum.splits prod.splits list.splits

end
