(* ===== verification/IdemRepo.thy ===== *)
theory IdemRepo
  imports GoBase
begin

section \<open>The idempotency records and their repository\<close>

text \<open>
  \<open>service/idempotency.go\<close> declares the record and the interface \<open>IdempotencyRepository\<close>;
  \<open>repository/idempotency_repo.go\<close> implements it over the table \<open>idempotency_records\<close>.  The
  interface is the record type \<open>'s idem_repo\<close> of functions over a store state \<open>'s\<close>, its contract
  the locale \<open>idem_repository\<close>, and the SQL statements are the implementation \<open>sql_repo\<close>, which
  the locale is interpreted on.

  A call may fail: the next entry of \<open>idem_faults\<close> says whether the statement is refused (an error
  and no effect) or executed with its reply lost (an error and the effect).
\<close>

subsection \<open>Data\<close>

abbreviation status_processing :: string where
  "status_processing \<equiv> ''processing''"
abbreviation status_succeeded :: string where
  "status_succeeded \<equiv> ''succeeded''"
abbreviation status_failed_retryable :: string where
  "status_failed_retryable \<equiv> ''failed_retryable''"

record idem_record =
  ir_id :: int64
  ir_scope :: string
  ir_key_hash :: string
  ir_fingerprint :: string
  ir_status :: string
  ir_response_status :: "int option"
  ir_response_body :: "string option"
  ir_error_reason :: "string option"
  ir_locked_until :: "time option"
  ir_expires_at :: time
  ir_created_at :: time
  ir_updated_at :: time

text \<open>The interface: every method takes the store and returns it, with its result or its error.\<close>

record 's idem_repo =
  repo_create :: "'s \<Rightarrow> idem_record \<Rightarrow> 's \<times> (string + bool \<times> idem_record)"
  repo_get :: "'s \<Rightarrow> string \<Rightarrow> string \<Rightarrow> 's \<times> (string + idem_record option)"
  repo_reclaim :: "'s \<Rightarrow> int64 \<Rightarrow> string \<Rightarrow> time \<Rightarrow> time \<Rightarrow> time \<Rightarrow> 's \<times> (string + bool)"
  repo_extend :: "'s \<Rightarrow> int64 \<Rightarrow> string \<Rightarrow> time \<Rightarrow> time \<Rightarrow> 's \<times> (string + bool)"
  repo_succeed :: "'s \<Rightarrow> int64 \<Rightarrow> int \<Rightarrow> string \<Rightarrow> time \<Rightarrow> 's \<times> (string + unit)"
  repo_fail :: "'s \<Rightarrow> int64 \<Rightarrow> string \<Rightarrow> time \<Rightarrow> time \<Rightarrow> 's \<times> (string + unit)"
  repo_delete_expired :: "'s \<Rightarrow> time \<Rightarrow> int \<Rightarrow> 's \<times> (string + nat)"

subsection \<open>The SQL implementation\<close>

record idem_db =
  idem_rows :: "idem_record list"
  idem_next_id :: int64
  idem_clock :: time
  idem_faults :: "fault option list"

text \<open>One statement, under the next fault.\<close>

definition next_fault :: "idem_db \<Rightarrow> fault option" where
  "next_fault db = (case idem_faults db of [] \<Rightarrow> None | f # _ \<Rightarrow> f)"

definition sql_call :: "idem_db \<Rightarrow> (idem_db \<Rightarrow> idem_db \<times> 'r) \<Rightarrow> idem_db \<times> (string + 'r)" where
  "sql_call db stmt =
     (let d = db\<lparr>idem_faults := tl (idem_faults db)\<rparr> in
      case next_fault db of
        None \<Rightarrow> (case stmt d of (db', r) \<Rightarrow> (db', Inr r))
      | Some (Refused e) \<Rightarrow> (d, Inl e)
      | Some (LostReply e) \<Rightarrow> (fst (stmt d), Inl e))"

text \<open>\<open>UPDATE ... WHERE cond\<close>: the rows and the number affected.\<close>

definition update_where ::
  "(idem_record \<Rightarrow> bool) \<Rightarrow> (idem_record \<Rightarrow> idem_record) \<Rightarrow> idem_db \<Rightarrow> idem_db \<times> nat" where
  "update_where cond upd db =
     (db\<lparr>idem_rows := map (\<lambda>r. if cond r then upd r else r) (idem_rows db)\<rparr>,
      length (filter cond (idem_rows db)))"

definition has_key :: "string \<Rightarrow> string \<Rightarrow> idem_record \<Rightarrow> bool" where
  "has_key scope hash r \<longleftrightarrow> ir_scope r = scope \<and> ir_key_hash r = hash"

definition sql_create :: "idem_db \<Rightarrow> idem_record \<Rightarrow> idem_db \<times> (string + bool \<times> idem_record)" where
  "sql_create db rec =
     sql_call db (\<lambda>d.
       if list_ex (has_key (ir_scope rec) (ir_key_hash rec)) (idem_rows d) then (d, (False, rec))
       else let row = rec\<lparr>ir_id := idem_next_id d, ir_response_status := None,
                          ir_response_body := None, ir_error_reason := None,
                          ir_created_at := idem_clock d, ir_updated_at := idem_clock d\<rparr>
            in (d\<lparr>idem_rows := idem_rows d @ [row], idem_next_id := idem_next_id d + 1\<rparr>,
                (True, rec\<lparr>ir_id := idem_next_id d, ir_created_at := idem_clock d,
                           ir_updated_at := idem_clock d\<rparr>)))"

definition sql_get :: "idem_db \<Rightarrow> string \<Rightarrow> string \<Rightarrow> idem_db \<times> (string + idem_record option)" where
  "sql_get db scope hash =
     sql_call db (\<lambda>d. (d, find (has_key scope hash) (idem_rows d)))"

definition lock_free :: "time \<Rightarrow> idem_record \<Rightarrow> bool" where
  "lock_free now r \<longleftrightarrow> (case ir_locked_until r of None \<Rightarrow> True | Some l \<Rightarrow> l \<le> now)"

definition sql_reclaim ::
  "idem_db \<Rightarrow> int64 \<Rightarrow> string \<Rightarrow> time \<Rightarrow> time \<Rightarrow> time \<Rightarrow> idem_db \<times> (string + bool)" where
  "sql_reclaim db rid from_status now new_locked_until new_expires_at =
     sql_call db (\<lambda>d.
       case update_where (\<lambda>r. ir_id r = rid \<and> ir_status r = from_status \<and> lock_free now r)
              (\<lambda>r. r\<lparr>ir_status := status_processing, ir_locked_until := Some new_locked_until,
                     ir_error_reason := None, ir_updated_at := idem_clock d,
                     ir_expires_at := new_expires_at\<rparr>) d of
         (d', n) \<Rightarrow> (d', 0 < n))"

definition sql_extend ::
  "idem_db \<Rightarrow> int64 \<Rightarrow> string \<Rightarrow> time \<Rightarrow> time \<Rightarrow> idem_db \<times> (string + bool)" where
  "sql_extend db rid fingerprint new_locked_until new_expires_at =
     sql_call db (\<lambda>d.
       case update_where
              (\<lambda>r. ir_id r = rid \<and> ir_status r = status_processing \<and> ir_fingerprint r = fingerprint)
              (\<lambda>r. r\<lparr>ir_locked_until := Some new_locked_until, ir_expires_at := new_expires_at,
                     ir_updated_at := idem_clock d\<rparr>) d of
         (d', n) \<Rightarrow> (d', 0 < n))"

definition sql_succeed ::
  "idem_db \<Rightarrow> int64 \<Rightarrow> int \<Rightarrow> string \<Rightarrow> time \<Rightarrow> idem_db \<times> (string + unit)" where
  "sql_succeed db rid response_status response_body expires_at =
     sql_call db (\<lambda>d.
       (fst (update_where (\<lambda>r. ir_id r = rid)
          (\<lambda>r. r\<lparr>ir_status := status_succeeded, ir_response_status := Some response_status,
                 ir_response_body := Some response_body, ir_error_reason := None,
                 ir_locked_until := None, ir_expires_at := expires_at,
                 ir_updated_at := idem_clock d\<rparr>) d), ()))"

definition sql_fail ::
  "idem_db \<Rightarrow> int64 \<Rightarrow> string \<Rightarrow> time \<Rightarrow> time \<Rightarrow> idem_db \<times> (string + unit)" where
  "sql_fail db rid error_reason locked_until expires_at =
     sql_call db (\<lambda>d.
       (fst (update_where (\<lambda>r. ir_id r = rid)
          (\<lambda>r. r\<lparr>ir_status := status_failed_retryable, ir_error_reason := Some error_reason,
                 ir_locked_until := Some locked_until, ir_expires_at := expires_at,
                 ir_updated_at := idem_clock d\<rparr>) d), ()))"

text \<open>\<open>DeleteExpired\<close>: the oldest expired records, at most \<open>limit\<close> of them.\<close>

definition expired_victims :: "time \<Rightarrow> int \<Rightarrow> idem_record list \<Rightarrow> int64 set" where
  "expired_victims now limit rows =
     set (map ir_id (take (nat (if limit \<le> 0 then 500 else limit))
       (sort_key ir_expires_at (filter (\<lambda>r. ir_expires_at r \<le> now) rows))))"

definition sql_delete_expired :: "idem_db \<Rightarrow> time \<Rightarrow> int \<Rightarrow> idem_db \<times> (string + nat)" where
  "sql_delete_expired db now limit =
     sql_call db (\<lambda>d.
       let victims = expired_victims now limit (idem_rows d) in
       (d\<lparr>idem_rows := filter (\<lambda>r. ir_id r \<notin> victims) (idem_rows d)\<rparr>,
        length (filter (\<lambda>r. ir_id r \<in> victims) (idem_rows d))))"

definition sql_repo :: "idem_db idem_repo" where
  "sql_repo =
     \<lparr>repo_create = sql_create, repo_get = sql_get, repo_reclaim = sql_reclaim,
      repo_extend = sql_extend, repo_succeed = sql_succeed, repo_fail = sql_fail,
      repo_delete_expired = sql_delete_expired\<rparr>"

lemma sql_repo_sel [simp]:
  "repo_create sql_repo = sql_create" "repo_get sql_repo = sql_get"
  "repo_reclaim sql_repo = sql_reclaim" "repo_extend sql_repo = sql_extend"
  "repo_succeed sql_repo = sql_succeed" "repo_fail sql_repo = sql_fail"
  "repo_delete_expired sql_repo = sql_delete_expired"
  by (simp_all add: sql_repo_def)

subsection \<open>The contract of the interface\<close>

text \<open>
  \<open>look s (scope, hash)\<close> is the record of the store \<open>s\<close> under a key.  Each law says what a call
  does to \<open>look\<close> when it returns, and that a call that returns an error did it or did nothing.
\<close>

type_synonym key_map = "string \<times> string \<rightharpoonup> idem_record"

definition key_of :: "idem_record \<Rightarrow> string \<times> string" where
  "key_of r = (ir_scope r, ir_key_hash r)"

definition amap ::
  "(idem_record \<Rightarrow> bool) \<Rightarrow> (idem_record \<Rightarrow> idem_record) \<Rightarrow> key_map \<Rightarrow> key_map" where
  "amap cond upd m = (\<lambda>k. map_option (\<lambda>r. if cond r then upd r else r) (m k))"

definition stored_as :: "idem_record \<Rightarrow> idem_record \<Rightarrow> bool" where
  "stored_as rec row \<longleftrightarrow>
     0 < ir_id row \<and> key_of row = key_of rec \<and> ir_fingerprint row = ir_fingerprint rec \<and>
     ir_status row = ir_status rec \<and> ir_locked_until row = ir_locked_until rec \<and>
     ir_expires_at row = ir_expires_at rec \<and> ir_response_body row = None"

definition reclaim_cond :: "int64 \<Rightarrow> string \<Rightarrow> time \<Rightarrow> idem_record \<Rightarrow> bool" where
  "reclaim_cond rid from_status now r \<longleftrightarrow> ir_id r = rid \<and> ir_status r = from_status \<and> lock_free now r"

definition reclaim_upd :: "time \<Rightarrow> time \<Rightarrow> time \<Rightarrow> idem_record \<Rightarrow> idem_record" where
  "reclaim_upd l e t r =
     r\<lparr>ir_status := status_processing, ir_locked_until := Some l, ir_error_reason := None,
       ir_updated_at := t, ir_expires_at := e\<rparr>"

definition extend_cond :: "int64 \<Rightarrow> string \<Rightarrow> idem_record \<Rightarrow> bool" where
  "extend_cond rid fp r \<longleftrightarrow> ir_id r = rid \<and> ir_status r = status_processing \<and> ir_fingerprint r = fp"

definition extend_upd :: "time \<Rightarrow> time \<Rightarrow> time \<Rightarrow> idem_record \<Rightarrow> idem_record" where
  "extend_upd l e t r = r\<lparr>ir_locked_until := Some l, ir_expires_at := e, ir_updated_at := t\<rparr>"

definition succeed_upd :: "int \<Rightarrow> string \<Rightarrow> time \<Rightarrow> time \<Rightarrow> idem_record \<Rightarrow> idem_record" where
  "succeed_upd st body e t r =
     r\<lparr>ir_status := status_succeeded, ir_response_status := Some st, ir_response_body := Some body,
       ir_error_reason := None, ir_locked_until := None, ir_expires_at := e, ir_updated_at := t\<rparr>"

definition fail_upd :: "string \<Rightarrow> time \<Rightarrow> time \<Rightarrow> time \<Rightarrow> idem_record \<Rightarrow> idem_record" where
  "fail_upd reason l e t r =
     r\<lparr>ir_status := status_failed_retryable, ir_error_reason := Some reason,
       ir_locked_until := Some l, ir_expires_at := e, ir_updated_at := t\<rparr>"

text \<open>What an update that returned \<open>res\<close> did: \<open>hit\<close> reads the result's claim to have matched.\<close>

definition update_effect ::
  "('r \<Rightarrow> bool \<Rightarrow> bool) \<Rightarrow> (idem_record \<Rightarrow> bool) \<Rightarrow> (time \<Rightarrow> idem_record \<Rightarrow> idem_record) \<Rightarrow>
   key_map \<Rightarrow> key_map \<Rightarrow> string + 'r \<Rightarrow> bool" where
  "update_effect hit cond upd m m' res \<longleftrightarrow>
     (case res of
        Inr x \<Rightarrow> (\<exists>t. m' = amap cond (upd t) m) \<and> hit x (\<exists>k r. m k = Some r \<and> cond r)
      | Inl e \<Rightarrow> m' = m \<or> (\<exists>t. m' = amap cond (upd t) m))"

locale idem_repository =
  fixes R :: "'s idem_repo"
    and look :: "'s \<Rightarrow> key_map"
    and inv :: "'s \<Rightarrow> bool"
  assumes keyed: "inv s \<Longrightarrow> look s k = Some r \<Longrightarrow> key_of r = k \<and> 0 < ir_id r"
    and unique: "inv s \<Longrightarrow> look s k = Some r \<Longrightarrow> look s k' = Some r' \<Longrightarrow> ir_id r = ir_id r' \<Longrightarrow> k = k'"
    and create: "inv s \<Longrightarrow> repo_create R s rec = (s', res) \<Longrightarrow> inv s' \<and>
      (case res of
         Inr (True, rec') \<Rightarrow> look s (key_of rec) = None \<and>
           (\<exists>row. stored_as rec row \<and> ir_id rec' = ir_id row \<and> look s' = (look s)(key_of rec \<mapsto> row))
       | Inr (False, rec') \<Rightarrow> rec' = rec \<and> look s (key_of rec) \<noteq> None \<and> look s' = look s
       | Inl e \<Rightarrow> look s' = look s \<or> (look s (key_of rec) = None \<and>
           (\<exists>row. stored_as rec row \<and> look s' = (look s)(key_of rec \<mapsto> row))))"
    and get: "inv s \<Longrightarrow> repo_get R s scope hash = (s', res0) \<Longrightarrow> inv s' \<and> look s' = look s \<and>
      (case res0 of Inr r \<Rightarrow> r = look s (scope, hash) | Inl e \<Rightarrow> True)"
    and reclaim: "inv s \<Longrightarrow> repo_reclaim R s rid fs now l e = (s', res1) \<Longrightarrow> inv s' \<and>
      update_effect (=) (reclaim_cond rid fs now) (reclaim_upd l e) (look s) (look s') res1"
    and extend: "inv s \<Longrightarrow> repo_extend R s rid fp l e = (s', res2) \<Longrightarrow> inv s' \<and>
      update_effect (=) (extend_cond rid fp) (extend_upd l e) (look s) (look s') res2"
    and succeed: "inv s \<Longrightarrow> repo_succeed R s rid st body e = (s', res3) \<Longrightarrow> inv s' \<and>
      update_effect (\<lambda>_ _. True) (\<lambda>r. ir_id r = rid) (succeed_upd st body e) (look s) (look s') res3"
    and fail: "inv s \<Longrightarrow> repo_fail R s rid reason l e = (s', res4) \<Longrightarrow> inv s' \<and>
      update_effect (\<lambda>_ _. True) (\<lambda>r. ir_id r = rid) (fail_upd reason l e) (look s) (look s') res4"
    and delete_expired: "inv s \<Longrightarrow> repo_delete_expired R s now limit = (s', res5) \<Longrightarrow> inv s' \<and>
      (\<forall>k. look s' k = look s k \<or>
        (look s' k = None \<and> (\<exists>r. look s k = Some r \<and> ir_expires_at r \<le> now)))"
begin

text \<open>An update that names the identifier of one key leaves the others alone.\<close>

lemma amap_other:
  assumes "inv s" and "look s k = Some r" and "k' \<noteq> k" and "\<And>q. cond q \<Longrightarrow> ir_id q = ir_id r"
  shows "amap cond upd (look s) k' = look s k'"
  using assms by (cases "look s k'") (auto simp: amap_def dest: unique)

end

subsection \<open>The table satisfies the contract\<close>

definition sql_look :: "idem_db \<Rightarrow> key_map" where
  "sql_look db = (\<lambda>(scope, hash). find (has_key scope hash) (idem_rows db))"

definition sql_inv :: "idem_db \<Rightarrow> bool" where
  "sql_inv db \<longleftrightarrow>
     distinct (map ir_id (idem_rows db)) \<and> distinct (map key_of (idem_rows db)) \<and>
     0 < idem_next_id db \<and> (\<forall>r \<in> set (idem_rows db). 0 < ir_id r \<and> ir_id r < idem_next_id db)"

lemma sql_inv_faults [simp]: "sql_inv (db\<lparr>idem_faults := fs\<rparr>) = sql_inv db"
  by (simp add: sql_inv_def)

lemma sql_look_faults [simp]: "sql_look (db\<lparr>idem_faults := fs\<rparr>) = sql_look db"
  by (simp add: sql_look_def)

lemma has_key_eq: "has_key s h = (\<lambda>r. key_of r = (s, h))"
  by (auto simp: has_key_def key_of_def)

lemma sql_look_Some_iff:
  "sql_inv db \<Longrightarrow> sql_look db k = Some r \<longleftrightarrow> r \<in> set (idem_rows db) \<and> key_of r = k"
  by (cases k) (simp add: sql_look_def sql_inv_def has_key_eq find_unique)

lemma sql_look_None_iff:
  "sql_look db k = None \<longleftrightarrow> (\<forall>r \<in> set (idem_rows db). key_of r \<noteq> k)"
  by (cases k) (auto simp: sql_look_def has_key_eq find_None_iff)

text \<open>A call under its fault does what the statement does, or nothing.\<close>

lemma sql_call_cases:
  assumes "sql_call db stmt = (db', res)"
  obtains (ok) d where "d = db\<lparr>idem_faults := tl (idem_faults db)\<rparr>"
      and "res = Inr (snd (stmt d))" and "db' = fst (stmt d)"
    | (failed) d e where "d = db\<lparr>idem_faults := tl (idem_faults db)\<rparr>"
      and "res = Inl e" and "db' = d \<or> db' = fst (stmt d)"
proof -
  let ?d = "db\<lparr>idem_faults := tl (idem_faults db)\<rparr>"
  have "(res = Inr (snd (stmt ?d)) \<and> db' = fst (stmt ?d)) \<or>
        (\<exists>e. res = Inl e \<and> (db' = ?d \<or> db' = fst (stmt ?d)))"
    using assms by (cases "stmt ?d") (auto simp: sql_call_def Let_def split: option.splits fault.splits)
  with ok failed show thesis by blast
qed

lemma sql_update:
  assumes inv: "sql_inv db"
    and upd: "\<And>r. ir_id (upd r) = ir_id r \<and> key_of (upd r) = key_of r"
    and eq: "update_where cond upd db = (db', n)"
  shows "sql_inv db' \<and> sql_look db' = amap cond upd (sql_look db) \<and>
    (0 < n \<longleftrightarrow> (\<exists>k r. sql_look db k = Some r \<and> cond r))"
proof -
  let ?f = "\<lambda>r. if cond r then upd r else r"
  have db': "db' = db\<lparr>idem_rows := map ?f (idem_rows db)\<rparr>"
    and n: "n = length (filter cond (idem_rows db))"
    using eq by (auto simp: update_where_def)
  have k: "key_of (?f r) = key_of r" and i: "ir_id (?f r) = ir_id r" for r
    using upd by auto
  have "map key_of (map ?f (idem_rows db)) = map key_of (idem_rows db)"
    and "map ir_id (map ?f (idem_rows db)) = map ir_id (idem_rows db)"
    using upd by auto
  then have "sql_inv db'"
    using inv upd by (auto simp: sql_inv_def db' simp del: map_map)
  moreover have "sql_look db' = amap cond upd (sql_look db)"
    using k by (auto simp: sql_look_def db' amap_def has_key_eq fun_eq_iff find_map_invariant)
  moreover have "0 < n \<longleftrightarrow> (\<exists>r \<in> set (idem_rows db). cond r)"
    by (auto simp: n filter_empty_conv)
  then have "0 < n \<longleftrightarrow> (\<exists>k r. sql_look db k = Some r \<and> cond r)"
    using sql_look_Some_iff [OF inv] by blast
  ultimately show ?thesis by blast
qed

lemma sql_call_update:
  assumes inv: "sql_inv db"
    and upd: "\<And>t r. ir_id (upd t r) = ir_id r \<and> key_of (upd t r) = key_of r"
    and eq: "sql_call db (\<lambda>d. case update_where cond (upd (idem_clock d)) d of (d', n) \<Rightarrow> (d', f n))
               = (db', res)"
    and hit: "\<And>n. hit (f n) (0 < n)"
  shows "sql_inv db' \<and> update_effect hit cond upd (sql_look db) (sql_look db') res"
  using eq
proof (cases rule: sql_call_cases)
  case (ok d)
  obtain d' n where u: "update_where cond (upd (idem_clock d)) d = (d', n)"
    by fastforce
  have d: "sql_inv d" "sql_look d = sql_look db"
    using inv by (simp_all add: ok(1))
  from sql_update [OF d(1) upd u] d(2) show ?thesis
    using ok u hit [of n] by (auto simp: update_effect_def)
next
  case (failed d e)
  obtain d' n where u: "update_where cond (upd (idem_clock d)) d = (d', n)"
    by fastforce
  have d: "sql_inv d" "sql_look d = sql_look db"
    using inv by (simp_all add: failed(1))
  from sql_update [OF d(1) upd u] d show ?thesis
    using failed u by (auto simp: update_effect_def)
qed

lemma upd_keys [simp]:
  "ir_id (reclaim_upd l e t r) = ir_id r" "key_of (reclaim_upd l e t r) = key_of r"
  "ir_id (extend_upd l e t r) = ir_id r" "key_of (extend_upd l e t r) = key_of r"
  "ir_id (succeed_upd st body e t r) = ir_id r" "key_of (succeed_upd st body e t r) = key_of r"
  "ir_id (fail_upd reason l e t r) = ir_id r" "key_of (fail_upd reason l e t r) = key_of r"
  by (simp_all add: reclaim_upd_def extend_upd_def succeed_upd_def fail_upd_def key_of_def)

lemma sql_reclaim_eq:
  "sql_reclaim db rid fs now l e =
     sql_call db (\<lambda>d. case update_where (reclaim_cond rid fs now) (reclaim_upd l e (idem_clock d)) d of
                        (d', n) \<Rightarrow> (d', 0 < n))"
  by (simp add: sql_reclaim_def reclaim_cond_def [abs_def] reclaim_upd_def [abs_def])

lemma sql_extend_eq:
  "sql_extend db rid fp l e =
     sql_call db (\<lambda>d. case update_where (extend_cond rid fp) (extend_upd l e (idem_clock d)) d of
                        (d', n) \<Rightarrow> (d', 0 < n))"
  by (simp add: sql_extend_def extend_cond_def [abs_def] extend_upd_def [abs_def])

lemma sql_succeed_eq:
  "sql_succeed db rid st body e =
     sql_call db (\<lambda>d. case update_where (\<lambda>r. ir_id r = rid) (succeed_upd st body e (idem_clock d)) d of
                        (d', n) \<Rightarrow> (d', ()))"
  by (simp add: sql_succeed_def succeed_upd_def [abs_def] case_prod_beta)

lemma sql_fail_eq:
  "sql_fail db rid reason l e =
     sql_call db (\<lambda>d. case update_where (\<lambda>r. ir_id r = rid) (fail_upd reason l e (idem_clock d)) d of
                        (d', n) \<Rightarrow> (d', ()))"
  by (simp add: sql_fail_def fail_upd_def [abs_def] case_prod_beta)

lemma sql_get_effect:
  assumes "sql_inv db" and "sql_get db scope hash = (db', res)"
  shows "sql_inv db' \<and> sql_look db' = sql_look db \<and>
    (case res of Inr r \<Rightarrow> r = sql_look db (scope, hash) | Inl e \<Rightarrow> True)"
  using assms(2) unfolding sql_get_def
  by (cases rule: sql_call_cases) (use assms(1) in \<open>auto simp: sql_look_def\<close>)

lemma sql_insert_look:
  assumes inv: "sql_inv d" and new: "sql_look d (key_of row) = None"
    and i: "ir_id row = idem_next_id d"
  shows "sql_inv (d\<lparr>idem_rows := idem_rows d @ [row], idem_next_id := idem_next_id d + 1\<rparr>)"
    and "sql_look (d\<lparr>idem_rows := idem_rows d @ [row], idem_next_id := idem_next_id d + 1\<rparr>)
           = (sql_look d)(key_of row \<mapsto> row)"
proof -
  let ?d = "d\<lparr>idem_rows := idem_rows d @ [row], idem_next_id := idem_next_id d + 1\<rparr>"
  have fresh: "\<forall>r \<in> set (idem_rows d). key_of r \<noteq> key_of row"
    using new by (simp add: sql_look_None_iff)
  show I: "sql_inv ?d"
    using inv i fresh by (force simp: sql_inv_def)
  show "sql_look ?d = (sql_look d)(key_of row \<mapsto> row)"
  proof
    fix k
    have "sql_look ?d k = Some r \<longleftrightarrow> ((sql_look d)(key_of row \<mapsto> row)) k = Some r" for r
      using fresh by (auto simp: sql_look_Some_iff [OF I] sql_look_Some_iff [OF inv])
    then show "sql_look ?d k = ((sql_look d)(key_of row \<mapsto> row)) k"
      by (metis not_None_eq)
  qed
qed

lemma sql_create_effect:
  assumes inv: "sql_inv db" and eq: "sql_create db rec = (db', res)"
  shows "sql_inv db' \<and>
    (case res of
       Inr (True, rec') \<Rightarrow> sql_look db (key_of rec) = None \<and>
         (\<exists>row. stored_as rec row \<and> ir_id rec' = ir_id row \<and>
                sql_look db' = (sql_look db)(key_of rec \<mapsto> row))
     | Inr (False, rec') \<Rightarrow> rec' = rec \<and> sql_look db (key_of rec) \<noteq> None \<and> sql_look db' = sql_look db
     | Inl e \<Rightarrow> sql_look db' = sql_look db \<or> (sql_look db (key_of rec) = None \<and>
         (\<exists>row. stored_as rec row \<and> sql_look db' = (sql_look db)(key_of rec \<mapsto> row))))"
proof -
  define d where "d = db\<lparr>idem_faults := tl (idem_faults db)\<rparr>"
  define row where "row = rec\<lparr>ir_id := idem_next_id d, ir_response_status := None,
    ir_response_body := None, ir_error_reason := None, ir_created_at := idem_clock d,
    ir_updated_at := idem_clock d\<rparr>"
  have d: "sql_inv d" "sql_look d = sql_look db"
    using inv by (simp_all add: d_def)
  have key: "key_of row = key_of rec" and st: "0 < idem_next_id d \<Longrightarrow> stored_as rec row"
    and i: "ir_id row = idem_next_id d"
    by (simp_all add: row_def key_of_def stored_as_def)
  have pos: "0 < idem_next_id d"
    using d(1) by (simp add: sql_inv_def)
  have taken: "list_ex (has_key (ir_scope rec) (ir_key_hash rec)) (idem_rows d) \<longleftrightarrow>
      sql_look db (key_of rec) \<noteq> None"
    by (auto simp: list_ex_iff has_key_eq key_of_def sql_look_None_iff simp flip: d(2))
  note ins = sql_insert_look [OF d(1) _ i, unfolded key d(2)]
  show ?thesis
  proof (cases "sql_look db (key_of rec) = None")
    case True
    with eq taken ins st [OF pos] i d show ?thesis
      unfolding sql_create_def
      by (elim sql_call_cases) (auto simp: Let_def row_def [symmetric] simp flip: d_def)
  next
    case False
    with eq taken d show ?thesis
      unfolding sql_create_def by (elim sql_call_cases) (auto simp flip: d_def)
  qed
qed

lemma sql_delete_expired_effect:
  assumes inv: "sql_inv db" and eq: "sql_delete_expired db now limit = (db', res)"
  shows "sql_inv db' \<and> (\<forall>k. sql_look db' k = sql_look db k \<or>
    (sql_look db' k = None \<and> (\<exists>r. sql_look db k = Some r \<and> ir_expires_at r \<le> now)))"
proof -
  define d where "d = db\<lparr>idem_faults := tl (idem_faults db)\<rparr>"
  define V where "V = expired_victims now limit (idem_rows d)"
  define d' where "d' = d\<lparr>idem_rows := filter (\<lambda>r. ir_id r \<notin> V) (idem_rows d)\<rparr>"
  have d: "sql_inv d" "sql_look d = sql_look db"
    using inv by (simp_all add: d_def)
  have d': "sql_inv d'"
    using d(1) by (auto simp: sql_inv_def d'_def distinct_map_filter)
  have old: "ir_expires_at r \<le> now" if "r \<in> set (idem_rows d)" "ir_id r \<in> V" for r
  proof -
    from that(2) obtain q where q: "q \<in> set (idem_rows d)" "ir_id q = ir_id r" "ir_expires_at q \<le> now"
      by (auto simp: V_def expired_victims_def dest!: in_set_takeD)
    with that(1) d(1) have "q = r"
      by (auto simp: sql_inv_def distinct_map inj_on_def)
    with q(3) show ?thesis by simp
  qed
  have "sql_look d' k = sql_look d k \<or>
      (sql_look d' k = None \<and> (\<exists>r. sql_look d k = Some r \<and> ir_expires_at r \<le> now))" for k
  proof (cases "sql_look d k")
    case None
    then have "sql_look d' k = None"
      by (auto simp: sql_look_None_iff d'_def)
    with None show ?thesis by simp
  next
    case (Some r)
    then have r: "r \<in> set (idem_rows d)" "key_of r = k"
      using sql_look_Some_iff [OF d(1)] by auto
    show ?thesis
    proof (cases "ir_id r \<in> V")
      case True
      have "\<forall>q \<in> set (idem_rows d'). key_of q \<noteq> k"
        using r True d(1) by (auto simp: d'_def sql_inv_def distinct_map inj_on_def)
      then have "sql_look d' k = None"
        by (simp add: sql_look_None_iff)
      with True Some old r(1) show ?thesis by simp
    next
      case False
      then have "sql_look d' k = Some r"
        using r unfolding sql_look_Some_iff [OF d'] by (simp add: d'_def)
      with Some show ?thesis by simp
    qed
  qed
  with eq d d' show ?thesis
    unfolding sql_delete_expired_def
    by (elim sql_call_cases)
      (auto simp: Let_def d'_def [symmetric] V_def [symmetric] simp flip: d_def)
qed

lemma sql_reclaim_effect:
  "sql_inv s \<Longrightarrow> sql_reclaim s rid fs now l e = (s', res) \<Longrightarrow> sql_inv s' \<and>
   update_effect (=) (reclaim_cond rid fs now) (reclaim_upd l e) (sql_look s) (sql_look s') res"
  unfolding sql_reclaim_eq by (rule sql_call_update) simp_all

lemma sql_extend_effect:
  "sql_inv s \<Longrightarrow> sql_extend s rid fp l e = (s', res) \<Longrightarrow> sql_inv s' \<and>
   update_effect (=) (extend_cond rid fp) (extend_upd l e) (sql_look s) (sql_look s') res"
  unfolding sql_extend_eq by (rule sql_call_update) simp_all

lemma sql_succeed_effect:
  "sql_inv s \<Longrightarrow> sql_succeed s rid st body e = (s', res) \<Longrightarrow> sql_inv s' \<and>
   update_effect (\<lambda>_ _. True) (\<lambda>r. ir_id r = rid) (succeed_upd st body e) (sql_look s) (sql_look s') res"
  unfolding sql_succeed_eq by (rule sql_call_update) simp_all

lemma sql_fail_effect:
  "sql_inv s \<Longrightarrow> sql_fail s rid reason l e = (s', res) \<Longrightarrow> sql_inv s' \<and>
   update_effect (\<lambda>_ _. True) (\<lambda>r. ir_id r = rid) (fail_upd reason l e) (sql_look s) (sql_look s') res"
  unfolding sql_fail_eq by (rule sql_call_update) simp_all

lemmas sql_effects =
  sql_create_effect sql_get_effect sql_reclaim_effect sql_extend_effect sql_succeed_effect
  sql_fail_effect sql_delete_expired_effect

interpretation sql: idem_repository sql_repo sql_look sql_inv
proof unfold_locales
  fix s k r assume "sql_inv s" "sql_look s k = Some r"
  then show "key_of r = k \<and> 0 < ir_id r"
    by (auto simp: sql_look_Some_iff sql_inv_def)
next
  fix s k r k' r'
  assume "sql_inv s" "sql_look s k = Some r" "sql_look s k' = Some r'" "ir_id r = ir_id r'"
  then show "k = k'"
    by (auto simp: sql_look_Some_iff sql_inv_def distinct_map inj_on_def)
qed (unfold sql_repo_sel, (rule sql_effects; assumption)+)

end
