(* ===== verification/AppError.thy ===== *)
theory AppError
  imports GoBase
begin

section \<open>Application errors\<close>

text \<open>
  \<open>pkg/errors/errors.go\<close>: the structured error every service returns and the helpers that read
  it out of a chain of wrapped errors.  A Go \<open>error\<close> is a chain: a plain error, a wrapper around
  another error (\<open>fmt.Errorf\<close> with \<open>%w\<close>), or an application error with an optional cause.  The
  metadata map is a list of entries without repeated keys; \<open>nil\<close> and the empty map are the same
  to every reader and share the empty list.
\<close>

record app_error =
  ae_code :: int
  ae_reason :: string
  ae_message :: string
  ae_metadata :: "(string \<times> string) list"

datatype go_error =
    Plain string
  | Wrapped string go_error
  | App app_error
  | AppCause app_error go_error

definition new_error :: "int \<Rightarrow> string \<Rightarrow> string \<Rightarrow> app_error" where
  "new_error code reason message =
     \<lparr>ae_code = code, ae_reason = reason, ae_message = message, ae_metadata = []\<rparr>"

abbreviation bad_request :: "string \<Rightarrow> string \<Rightarrow> app_error" where
  "bad_request \<equiv> new_error 400"
abbreviation forbidden :: "string \<Rightarrow> string \<Rightarrow> app_error" where
  "forbidden \<equiv> new_error 403"
abbreviation not_found :: "string \<Rightarrow> string \<Rightarrow> app_error" where
  "not_found \<equiv> new_error 404"
abbreviation conflict_error :: "string \<Rightarrow> string \<Rightarrow> app_error" where
  "conflict_error \<equiv> new_error 409"
abbreviation too_many_requests :: "string \<Rightarrow> string \<Rightarrow> app_error" where
  "too_many_requests \<equiv> new_error 429"
abbreviation internal_server :: "string \<Rightarrow> string \<Rightarrow> app_error" where
  "internal_server \<equiv> new_error 500"
abbreviation service_unavailable :: "string \<Rightarrow> string \<Rightarrow> app_error" where
  "service_unavailable \<equiv> new_error 503"

definition with_metadata :: "app_error \<Rightarrow> (string \<times> string) list \<Rightarrow> app_error" where
  "with_metadata e md = e\<lparr>ae_metadata := md\<rparr>"

definition with_cause :: "app_error \<Rightarrow> string \<Rightarrow> go_error" where
  "with_cause e cause = AppCause e (Plain cause)"

text \<open>\<open>errors.As\<close> for an application error: the first one of the chain.\<close>

fun as_app :: "go_error \<Rightarrow> app_error option" where
  "as_app (Plain _) = None"
| "as_app (Wrapped _ e) = as_app e"
| "as_app (App a) = Some a"
| "as_app (AppCause a _) = Some a"

definition from_error :: "go_error \<Rightarrow> app_error" where
  "from_error e = (case as_app e of Some a \<Rightarrow> a | None \<Rightarrow> new_error 500 '''' ''internal error'')"

definition error_code :: "go_error \<Rightarrow> int" where
  "error_code e = ae_code (from_error e)"

definition error_reason :: "go_error \<Rightarrow> string" where
  "error_reason e = ae_reason (from_error e)"

definition error_is :: "go_error \<Rightarrow> app_error \<Rightarrow> bool" where
  "error_is e target \<longleftrightarrow>
     (case as_app e of
        Some a \<Rightarrow> ae_code a = ae_code target \<and> ae_reason a = ae_reason target
      | None \<Rightarrow> False)"

text \<open>\<open>ToHTTP\<close>: the status and the body a handler answers with; no error is a bare 200.\<close>

definition to_http :: "go_error option \<Rightarrow> int \<times> app_error" where
  "to_http err =
     (case err of
        None \<Rightarrow> (200, new_error 200 '''' '''')
      | Some e \<Rightarrow> let a = from_error e in (ae_code a, a))"

text \<open>\<open>strconv.Atoi\<close>: an optional sign and decimal digits, within 64 bits.\<close>

definition atoi :: "string \<Rightarrow> int option" where
  "atoi s =
     (let neg = (s \<noteq> [] \<and> hd s = CHR ''-'');
          ds = (if s \<noteq> [] \<and> hd s \<in> {CHR ''-'', CHR ''+''} then tl s else s);
          v = (if neg then - digits_val ds else digits_val ds)
      in if ds \<noteq> [] \<and> list_all is_digit ds \<and> in_int64 v then Some v else None)"

lemma from_error_simps [simp]:
  "from_error (App a) = a" "from_error (AppCause a c) = a"
  "from_error (Wrapped m e) = from_error e"
  by (simp_all add: from_error_def)

lemma error_reason_simps [simp]:
  "error_reason (App a) = ae_reason a" "error_reason (with_cause a c) = ae_reason a"
  "error_code (App a) = ae_code a" "error_code (with_cause a c) = ae_code a"
  by (simp_all add: error_reason_def error_code_def with_cause_def)

lemma new_error_sel [simp]:
  "ae_code (new_error c r m) = c" "ae_reason (new_error c r m) = r"
  "ae_message (new_error c r m) = m" "ae_metadata (new_error c r m) = []"
  by (simp_all add: new_error_def)

lemma with_metadata_sel [simp]:
  "ae_code (with_metadata e md) = ae_code e" "ae_reason (with_metadata e md) = ae_reason e"
  "ae_message (with_metadata e md) = ae_message e" "ae_metadata (with_metadata e md) = md"
  by (simp_all add: with_metadata_def)

lemma atoi_itoa: "0 \<le> i \<Longrightarrow> in_int64 i \<Longrightarrow> atoi (itoa i) = Some i"
proof -
  assume i: "0 \<le> i" "in_int64 i"
  have "hd (dec i) \<in> set (dec i)" by simp
  then have "is_digit (hd (dec i))" using dec_digits [OF i(1)] by blast
  then have "hd (dec i) \<noteq> CHR ''-''" "hd (dec i) \<noteq> CHR ''+''"
    by (auto simp: is_digit_def)
  moreover have "list_all is_digit (dec i)" using dec_digits [OF i(1)] by (simp add: list_all_iff)
  ultimately show ?thesis using i by (simp add: atoi_def itoa_nonneg)
qed

end
