(* ===== verification/Utf8.thy ===== *)
theory Utf8
  imports GoBase
begin

section \<open>UTF-8\<close>

text \<open>The parts of Go's \<open>unicode/utf8\<close> the components use, on strings that are lists of bytes.\<close>

text \<open>\<open>utf8.ValidString\<close>: the width of the first encoded code point, 0 when there is none.\<close>

definition byte :: "char \<Rightarrow> int" where
  "byte c = of_char c"

definition tail_byte :: "char \<Rightarrow> bool" where
  "tail_byte c \<longleftrightarrow> 0x80 \<le> byte c \<and> byte c \<le> 0xBF"

text \<open>The range the second byte must lie in, given the first.\<close>

definition second_ok :: "char \<Rightarrow> char \<Rightarrow> bool" where
  "second_ok c d \<longleftrightarrow> tail_byte d \<and> (byte c = 0xE0 \<longrightarrow> 0xA0 \<le> byte d) \<and>
     (byte c = 0xED \<longrightarrow> byte d \<le> 0x9F) \<and> (byte c = 0xF0 \<longrightarrow> 0x90 \<le> byte d) \<and>
     (byte c = 0xF4 \<longrightarrow> byte d \<le> 0x8F)"

definition lead :: "char \<Rightarrow> int \<Rightarrow> int \<Rightarrow> bool" where
  "lead c l h \<longleftrightarrow> l \<le> byte c \<and> byte c \<le> h"

fun utf8_width :: "string \<Rightarrow> nat" where
  "utf8_width [] = 0"
| "utf8_width (c # cs) =
     (if lead c 0 0x7F then 1
      else case cs of
        [] \<Rightarrow> 0
      | d # ds \<Rightarrow>
          if \<not> second_ok c d then 0
          else if lead c 0xC2 0xDF then 2
          else case ds of
            [] \<Rightarrow> 0
          | e # es \<Rightarrow>
              if \<not> tail_byte e then 0
              else if lead c 0xE0 0xEF then 3
              else case es of
                [] \<Rightarrow> 0
              | f # _ \<Rightarrow> if tail_byte f \<and> lead c 0xF0 0xF4 then 4 else 0)"

lemma utf8_width_pos: "0 < utf8_width s \<Longrightarrow> s \<noteq> []"
  by auto

function utf8_valid :: "string \<Rightarrow> bool" where
  "utf8_valid s =
     (s = [] \<or> (if utf8_width s = 0 then False else utf8_valid (drop (utf8_width s) s)))"
  by pat_completeness auto
termination
  by (relation "measure length") (auto intro!: diff_less dest: utf8_width_pos)

declare utf8_valid.simps [simp del]

text \<open>The replacement character, and a string with every invalid byte replaced by it.\<close>

definition rune_error :: string where
  "rune_error = [CHR 0xEF, CHR 0xBF, CHR 0xBD]"

function to_valid_utf8 :: "string \<Rightarrow> string" where
  "to_valid_utf8 s =
     (if s = [] then []
      else if utf8_width s = 0 then rune_error @ to_valid_utf8 (tl s)
      else take (utf8_width s) s @ to_valid_utf8 (drop (utf8_width s) s))"
  by pat_completeness auto
termination
  by (relation "measure length") (auto intro!: diff_less)

declare to_valid_utf8.simps [simp del]

text \<open>The encoding of a code point below 0x110000.\<close>

definition encode_rune :: "int \<Rightarrow> string" where
  "encode_rune n =
     map char_of
       (if n < 0x80 then [n]
        else if n < 0x800 then [0xC0 + n div 64, 0x80 + n mod 64]
        else if n < 0x10000 then [0xE0 + n div 4096, 0x80 + n div 64 mod 64, 0x80 + n mod 64]
        else [0xF0 + n div 262144, 0x80 + n div 4096 mod 64, 0x80 + n div 64 mod 64, 0x80 + n mod 64])"

end
