(* ===== verification/Idempotency.thy ===== *)
theory Idempotency
  imports IdemRepo AppError Utf8 "HOL-Library.Word" "HOL-Library.Char_ord" "HOL-Library.List_Lexorder"
begin

section \<open>The idempotency coordinator\<close>

text \<open>
  \<open>service/idempotency.go\<close> (keys, fingerprints, \<open>Execute\<close>, the stored response) with the
  counters and log lines of \<open>service/idempotency_observability.go\<close> and the sweep of
  \<open>service/idempotency_cleanup_service.go\<close>.

  \<open>Execute\<close> is split at the point where the record is owned: \<open>claim_phase\<close> decides who runs
  (every call of the repository, every early return), \<open>run_phase\<close> runs the operation and stores
  its outcome, and \<open>execute\<close> composes the two after the checks of the request.  All three thread
  one state: the repository's store, the world the operation acts on, the counters and the log.

  Not under \<open>src/\<close>, and parameters here: \<open>encoding/json\<close> and SHA-256 (fields of \<open>codec\<close>), and the
  operation the caller passes in.  The redaction of \<open>util/logredact\<close> is a parameter too: nothing
  below depends on what it removes.  Seconds are read off a duration exactly.
\<close>

subsection \<open>Errors\<close>

definition ErrKeyRequired :: app_error where
  "ErrKeyRequired = bad_request ''IDEMPOTENCY_KEY_REQUIRED'' ''idempotency key is required''"
definition ErrKeyInvalid :: app_error where
  "ErrKeyInvalid = bad_request ''IDEMPOTENCY_KEY_INVALID'' ''idempotency key is invalid''"
definition ErrKeyConflict :: app_error where
  "ErrKeyConflict = conflict_error ''IDEMPOTENCY_KEY_CONFLICT''
     ''idempotency key reused with different payload''"
definition ErrInProgress :: app_error where
  "ErrInProgress = conflict_error ''IDEMPOTENCY_IN_PROGRESS''
     ''idempotent request is still processing''"
definition ErrRetryBackoff :: app_error where
  "ErrRetryBackoff = conflict_error ''IDEMPOTENCY_RETRY_BACKOFF''
     ''idempotent request is in retry backoff window''"
definition ErrStoreUnavail :: app_error where
  "ErrStoreUnavail = service_unavailable ''IDEMPOTENCY_STORE_UNAVAILABLE''
     ''idempotency store unavailable''"
definition ErrInvalidPayload :: app_error where
  "ErrInvalidPayload = bad_request ''IDEMPOTENCY_PAYLOAD_INVALID''
     ''failed to normalize request payload''"
definition ErrScopeRequired :: app_error where
  "ErrScopeRequired = bad_request ''IDEMPOTENCY_SCOPE_REQUIRED'' ''idempotency scope is required''"
definition ErrExecutorNil :: app_error where
  "ErrExecutorNil = internal_server ''IDEMPOTENCY_EXECUTOR_NIL'' ''idempotency executor is nil''"

lemmas idem_errors =
  ErrKeyRequired_def ErrKeyInvalid_def ErrKeyConflict_def ErrInProgress_def ErrRetryBackoff_def ErrStoreUnavail_def ErrInvalidPayload_def ErrScopeRequired_def ErrExecutorNil_def

subsection \<open>Configuration, options and state\<close>

record idem_config =
  ic_default_ttl :: duration
  ic_system_operation_ttl :: duration
  ic_processing_timeout :: duration
  ic_failed_retry_backoff :: duration
  ic_max_stored_response_len :: int
  ic_observe_only :: bool

definition default_idem_config :: idem_config where
  "default_idem_config =
     \<lparr>ic_default_ttl = 24 * hour, ic_system_operation_ttl = hour,
      ic_processing_timeout = 30 * second, ic_failed_retry_backoff = 5 * second,
      ic_max_stored_response_len = 64 * 1024, ic_observe_only = True\<rparr>"

record 'd exec_options =
  eo_scope :: string
  eo_actor_scope :: string
  eo_method :: string
  eo_route :: string
  eo_key :: string
  eo_payload :: 'd
  eo_ttl :: duration
  eo_require_key :: bool

text \<open>JSON values of type \<open>'d\<close>, the empty object, the redaction of texts, and the hash.\<close>

record 'd codec =
  cd_marshal :: "'d \<Rightarrow> string + string"
  cd_unmarshal :: "string \<Rightarrow> string + 'd"
  cd_empty :: 'd
  cd_redact :: "string \<Rightarrow> string"
  cd_sha256hex :: "string \<Rightarrow> string"

record idem_metrics =
  im_claim :: "64 word"
  im_replay :: "64 word"
  im_conflict :: "64 word"
  im_retry_backoff :: "64 word"
  im_duration_count :: "64 word"
  im_duration_micros :: "64 word"
  im_store_unavailable :: "64 word"

record ('s, 'w) idem_state =
  st_store :: 's
  st_world :: 'w
  st_metrics :: idem_metrics
  st_log :: "string list"

text \<open>The instants \<open>time.Now\<close> answers at the four places \<open>Execute\<close> asks.\<close>

record exec_clock =
  ck_claim :: time
  ck_start :: time
  ck_failed :: time
  ck_end :: time

record 'd exec_result =
  er_data :: 'd
  er_replayed :: bool

type_synonym ('w, 'd) operation = "'w \<Rightarrow> 'w \<times> (go_error + 'd)"

subsection \<open>Keys and fingerprints\<close>

definition normalize_key :: "string \<Rightarrow> go_error + string" where
  "normalize_key raw =
     (let key = trim_space raw in
      if key = [] then Inr []
      else if 128 < length key then Inl (App ErrKeyInvalid)
      else if \<exists>c \<in> set key. (of_char c :: int) < 33 \<or> 126 < (of_char c :: int)
        then Inl (App ErrKeyInvalid)
      else Inr key)"

definition build_fingerprint ::
  "'d codec \<Rightarrow> string \<Rightarrow> string \<Rightarrow> string \<Rightarrow> 'd \<Rightarrow> go_error + string" where
  "build_fingerprint cd mtd route actor payload =
     (let mtd = (if mtd = [] then ''POST'' else mtd);
          route = (if route = [] then ''/'' else route);
          actor = (if actor = [] then ''anonymous'' else actor)
      in case cd_marshal cd payload of
           Inl e \<Rightarrow> Inl (with_cause ErrInvalidPayload e)
         | Inr raw \<Rightarrow> Inr (cd_sha256hex cd
             (to_upper mtd @ [CHR 0x0A] @ route @ [CHR 0x0A] @ actor @ [CHR 0x0A] @ raw)))"

definition retry_after_seconds :: "go_error \<Rightarrow> int" where
  "retry_after_seconds err =
     (case as_app err of
        None \<Rightarrow> 0
      | Some a \<Rightarrow>
          (case map_of (ae_metadata a) ''retry_after'' of
             None \<Rightarrow> 0
           | Some v \<Rightarrow> (case atoi (trim_space v) of
                          None \<Rightarrow> 0
                        | Some n \<Rightarrow> if n \<le> 0 then 0 else n)))"

definition retry_seconds :: "time \<Rightarrow> time \<Rightarrow> int" where
  "retry_seconds locked_until now =
     (let sec = go_div (locked_until - now) second in if sec \<le> 0 then 1 else sec)"

definition conflict_with_retry_after :: "app_error \<Rightarrow> time option \<Rightarrow> time \<Rightarrow> go_error" where
  "conflict_with_retry_after base locked_until now =
     (case locked_until of
        None \<Rightarrow> App base
      | Some l \<Rightarrow> App (with_metadata base [(''retry_after'', itoa (retry_seconds l now))]))"

subsection \<open>Counters and log lines\<close>

definition safe_audit_field :: "string \<Rightarrow> string" where
  "safe_audit_field v =
     (let value = trim_space v in
      if value = [] then ''-''
      else map (\<lambda>c. if c \<in> {CHR 0x0A, CHR 0x0D, CHR 0x09, CHR '' ''} then CHR ''_'' else c) value)"

definition append_sorted_attrs :: "(string \<times> string) list \<Rightarrow> string" where
  "append_sorted_attrs attrs =
     concat (map (\<lambda>(k, v). '' '' @ k @ ''='' @ safe_audit_field v) (sort_key fst attrs))"

definition audit_line ::
  "string \<Rightarrow> string \<Rightarrow> string \<Rightarrow> string \<Rightarrow> bool \<Rightarrow> (string \<times> string) list \<Rightarrow> string" where
  "audit_line endpoint scope key_hash transition replayed attrs =
     ''[IdempotencyAudit]'' @ '' endpoint='' @ safe_audit_field endpoint @
     '' scope='' @ safe_audit_field scope @ '' key_hash='' @ safe_audit_field key_hash @
     '' state_transition='' @ safe_audit_field transition @
     '' replayed='' @ (if replayed then ''true'' else ''false'') @ append_sorted_attrs attrs"

definition metric_line ::
  "string \<Rightarrow> string \<Rightarrow> string \<Rightarrow> string \<Rightarrow> (string \<times> string) list \<Rightarrow> string" where
  "metric_line name endpoint scope value attrs =
     ''[IdempotencyMetric]'' @ '' name='' @ safe_audit_field name @
     '' endpoint='' @ safe_audit_field endpoint @ '' scope='' @ safe_audit_field scope @
     '' value='' @ safe_audit_field value @ append_sorted_attrs attrs"

type_synonym ('s, 'w) idem_upd = "('s, 'w) idem_state \<Rightarrow> ('s, 'w) idem_state"

definition emit :: "string \<Rightarrow> ('s, 'w) idem_upd" where
  "emit line st = st\<lparr>st_log := st_log st @ [line]\<rparr>"

definition record_claim :: "string \<Rightarrow> string \<Rightarrow> (string \<times> string) list \<Rightarrow> ('s, 'w) idem_upd" where
  "record_claim ep sc attrs st =
     emit (metric_line ''idempotency_claim_total'' ep sc ''1'' attrs)
       (st\<lparr>st_metrics := (st_metrics st)\<lparr>im_claim := im_claim (st_metrics st) + 1\<rparr>\<rparr>)"

definition record_replay :: "string \<Rightarrow> string \<Rightarrow> (string \<times> string) list \<Rightarrow> ('s, 'w) idem_upd" where
  "record_replay ep sc attrs st =
     emit (metric_line ''idempotency_replay_total'' ep sc ''1'' attrs)
       (st\<lparr>st_metrics := (st_metrics st)\<lparr>im_replay := im_replay (st_metrics st) + 1\<rparr>\<rparr>)"

definition record_conflict :: "string \<Rightarrow> string \<Rightarrow> (string \<times> string) list \<Rightarrow> ('s, 'w) idem_upd" where
  "record_conflict ep sc attrs st =
     emit (metric_line ''idempotency_conflict_total'' ep sc ''1'' attrs)
       (st\<lparr>st_metrics := (st_metrics st)\<lparr>im_conflict := im_conflict (st_metrics st) + 1\<rparr>\<rparr>)"

definition record_retry_backoff ::
  "string \<Rightarrow> string \<Rightarrow> (string \<times> string) list \<Rightarrow> ('s, 'w) idem_upd" where
  "record_retry_backoff ep sc attrs st =
     emit (metric_line ''idempotency_retry_backoff_total'' ep sc ''1'' attrs)
       (st\<lparr>st_metrics := (st_metrics st)\<lparr>im_retry_backoff := im_retry_backoff (st_metrics st) + 1\<rparr>\<rparr>)"

definition record_store_unavailable :: "string \<Rightarrow> string \<Rightarrow> string \<Rightarrow> ('s, 'w) idem_upd" where
  "record_store_unavailable ep sc strategy st =
     emit (metric_line ''idempotency_store_unavailable_total'' ep sc ''1''
             (if strategy = [] then [] else [(''strategy'', strategy)]))
       (st\<lparr>st_metrics := (st_metrics st)
              \<lparr>im_store_unavailable := im_store_unavailable (st_metrics st) + 1\<rparr>\<rparr>)"

text \<open>A duration in milliseconds with three decimals.\<close>

definition format_ms :: "duration \<Rightarrow> string" where
  "format_ms d =
     (let n = round_half_even (of_int d / 1000) in
      itoa (n div 1000) @ ''.'' @ pad_left 3 CHR ''0'' (itoa (n mod 1000)))"

definition record_duration :: "string \<Rightarrow> string \<Rightarrow> duration \<Rightarrow> ('s, 'w) idem_upd" where
  "record_duration ep sc d st =
     (let d = (if d < 0 then 0 else d) in
      emit (metric_line ''idempotency_processing_duration_ms'' ep sc (format_ms d) [])
        (st\<lparr>st_metrics := (st_metrics st)
               \<lparr>im_duration_count := im_duration_count (st_metrics st) + 1,
                im_duration_micros := im_duration_micros (st_metrics st) + word_of_int (d div 1000)\<rparr>\<rparr>))"

definition log_audit ::
  "string \<Rightarrow> string \<Rightarrow> string \<Rightarrow> string \<Rightarrow> bool \<Rightarrow> (string \<times> string) list \<Rightarrow> ('s, 'w) idem_upd" where
  "log_audit ep sc kh transition replayed attrs st =
     emit (audit_line ep sc kh transition replayed attrs) st"

subsection \<open>The stored response\<close>

fun back_off :: "string \<Rightarrow> nat \<Rightarrow> nat" where
  "back_off s 0 = 0"
| "back_off s (Suc n) = (if utf8_valid (take (Suc n) s) then Suc n else back_off s n)"

definition truncate_utf8 :: "string \<Rightarrow> int \<Rightarrow> string" where
  "truncate_utf8 s max_bytes =
     (if max_bytes \<le> 0 \<or> int (length s) \<le> max_bytes then s
      else take (back_off s (nat max_bytes)) s)"

definition marshal_stored_response :: "'d codec \<Rightarrow> idem_config \<Rightarrow> 'd \<Rightarrow> string + string" where
  "marshal_stored_response cd cfg data =
     (case cd_marshal cd data of
        Inl e \<Rightarrow> Inl e
      | Inr raw \<Rightarrow>
          let redacted = cd_redact cd raw; m = ic_max_stored_response_len cfg in
          Inr (if 0 < m \<and> m < int (length redacted)
               then truncate_utf8 redacted m @ ''...(truncated)'' else redacted))"

definition decode_stored_response :: "'d codec \<Rightarrow> string option \<Rightarrow> string + 'd" where
  "decode_stored_response cd stored =
     (case stored of
        None \<Rightarrow> Inr (cd_empty cd)
      | Some s \<Rightarrow>
          if trim_space s = [] then Inr (cd_empty cd)
          else (case cd_unmarshal cd s of
                  Inl e \<Rightarrow> Inl (''decode stored response: '' @ e)
                | Inr d \<Rightarrow> Inr d))"

subsection \<open>Execute\<close>

text \<open>What every step of one request knows about it.\<close>

record request =
  rq_endpoint :: string
  rq_scope :: string
  rq_key_hash :: string
  rq_fingerprint :: string
  rq_now :: time
  rq_locked_until :: time
  rq_expires_at :: time

datatype 'd claim = Claimed int64 | Replay 'd | Refuse go_error

definition on_store :: "('s \<Rightarrow> 's \<times> 'r) \<Rightarrow> ('s, 'w) idem_state \<Rightarrow> ('s, 'w) idem_state \<times> 'r" where
  "on_store call st = (case call (st_store st) of (s, r) \<Rightarrow> (st\<lparr>st_store := s\<rparr>, r))"

definition audit :: "request \<Rightarrow> string \<Rightarrow> bool \<Rightarrow> (string \<times> string) list \<Rightarrow> ('s, 'w) idem_upd" where
  "audit q = log_audit (rq_endpoint q) (rq_scope q) (rq_key_hash q)"

text \<open>The early return of a failed step: the counter, the audit line, and the error.\<close>

definition unavailable :: "request \<Rightarrow> string \<Rightarrow> string \<Rightarrow> string \<Rightarrow> ('s, 'w) idem_upd" where
  "unavailable q strategy from_status operation st =
     audit q (from_status @ ''->store_unavailable'') False [(''operation'', operation)]
       (record_store_unavailable (rq_endpoint q) (rq_scope q) strategy st)"

definition note_claim :: "request \<Rightarrow> string \<Rightarrow> string \<Rightarrow> string \<Rightarrow> ('s, 'w) idem_upd" where
  "note_claim q mode transition claim_mode st =
     audit q transition False [(''claim_mode'', claim_mode)]
       (record_claim (rq_endpoint q) (rq_scope q) [(''mode'', mode)] st)"

definition note_conflict ::
  "request \<Rightarrow> string \<Rightarrow> string \<Rightarrow> (string \<times> string) list \<Rightarrow> ('s, 'w) idem_upd" where
  "note_conflict q reason transition attrs st =
     audit q transition False attrs
       (record_conflict (rq_endpoint q) (rq_scope q) [(''reason'', reason)] st)"

text \<open>The switch over the status of a record that is not reclaimed by expiry.\<close>

definition settle_existing ::
  "'s idem_repo \<Rightarrow> 'd codec \<Rightarrow> request \<Rightarrow> idem_record \<Rightarrow> ('s, 'w) idem_state \<Rightarrow>
   ('s, 'w) idem_state \<times> 'd claim" where
  "settle_existing R cd q existing st =
     (if ir_status existing = status_succeeded then
        (case decode_stored_response cd (ir_response_body existing) of
           Inl e \<Rightarrow> (unavailable q ''decode_stored_response_error'' ''succeeded'' ''decode_stored_response'' st,
                      Refuse (with_cause ErrStoreUnavail e))
         | Inr data \<Rightarrow>
             (audit q ''succeeded->replayed'' True []
                (record_replay (rq_endpoint q) (rq_scope q) [] st), Replay data))
      else if ir_status existing = status_processing then
        (note_conflict q ''in_progress'' ''processing->conflict'' [] st,
         Refuse (conflict_with_retry_after ErrInProgress (ir_locked_until existing) (rq_now q)))
      else if ir_status existing = status_failed_retryable then
        (if \<not> lock_free (rq_now q) existing then
           (audit q ''failed_retryable->retry_backoff_conflict'' False []
              (record_retry_backoff (rq_endpoint q) (rq_scope q) []
                (record_conflict (rq_endpoint q) (rq_scope q) [(''reason'', ''retry_backoff'')] st)),
            Refuse (conflict_with_retry_after ErrRetryBackoff (ir_locked_until existing) (rq_now q)))
         else
           (case on_store (\<lambda>s. repo_reclaim R s (ir_id existing) status_failed_retryable (rq_now q)
                              (rq_locked_until q) (rq_expires_at q)) st of
              (st, Inl e) \<Rightarrow>
                (unavailable q ''try_reclaim_error'' ''failed_retryable'' ''try_reclaim'' st,
                 Refuse (with_cause ErrStoreUnavail e))
            | (st, Inr False) \<Rightarrow>
                (note_conflict q ''reclaim_race'' ''failed_retryable->conflict''
                   [(''conflict'', ''reclaim_race'')] st,
                 Refuse (conflict_with_retry_after ErrInProgress (ir_locked_until existing) (rq_now q)))
            | (st, Inr True) \<Rightarrow>
                (note_claim q ''reclaim'' ''failed_retryable->processing'' ''reclaim'' st,
                 Claimed (ir_id existing))))
      else
        (note_conflict q ''unexpected_status'' ''existing->conflict''
           [(''status'', ir_status existing)] st, Refuse (App ErrKeyConflict)))"

text \<open>
  A record read back from the store: unreadable, missing, or of another request it ends the call;
  otherwise \<open>k\<close> goes on with it.  \<open>suffix\<close> tells the two places apart that do this.
\<close>

definition with_existing ::
  "'s idem_repo \<Rightarrow> request \<Rightarrow> string \<Rightarrow>
   (idem_record \<Rightarrow> ('s, 'w) idem_state \<Rightarrow> ('s, 'w) idem_state \<times> 'd claim) \<Rightarrow>
   ('s, 'w) idem_state \<Rightarrow> ('s, 'w) idem_state \<times> 'd claim" where
  "with_existing R q suffix k st =
     (case on_store (\<lambda>s. repo_get R s (rq_scope q) (rq_key_hash q)) st of
        (st, Inl e) \<Rightarrow>
          (unavailable q (''get_existing'' @ suffix @ ''_error'') ''unknown'' (''get_existing'' @ suffix) st,
           Refuse (with_cause ErrStoreUnavail e))
      | (st, Inr None) \<Rightarrow>
          (unavailable q (''missing_existing'' @ suffix) ''unknown'' (''missing_existing'' @ suffix) st,
           Refuse (App ErrStoreUnavail))
      | (st, Inr (Some existing)) \<Rightarrow>
          if ir_fingerprint existing \<noteq> rq_fingerprint q then
            (note_conflict q ''fingerprint_mismatch'' ''existing->fingerprint_mismatch'' [] st,
             Refuse (App ErrKeyConflict))
          else k existing st)"

definition claim_existing ::
  "'s idem_repo \<Rightarrow> 'd codec \<Rightarrow> request \<Rightarrow> ('s, 'w) idem_state \<Rightarrow> ('s, 'w) idem_state \<times> 'd claim" where
  "claim_existing R cd q =
     with_existing R q '''' (\<lambda>existing st.
       if ir_expires_at existing \<le> rq_now q then
         (case on_store (\<lambda>s. repo_reclaim R s (ir_id existing) (ir_status existing) (rq_now q)
                            (rq_locked_until q) (rq_expires_at q)) st of
            (st, Inl e) \<Rightarrow>
              (unavailable q ''try_reclaim_expired_error'' (ir_status existing) ''try_reclaim_expired'' st,
               Refuse (with_cause ErrStoreUnavail e))
          | (st, Inr True) \<Rightarrow>
              (note_claim q ''expired_reclaim'' (ir_status existing @ ''->processing'')
                 ''expired_reclaim'' st, Claimed (ir_id existing))
          | (st, Inr False) \<Rightarrow>
              with_existing R q ''_after_expired_reclaim'' (settle_existing R cd q) st)
       else settle_existing R cd q existing st)"

definition processing_record :: "request \<Rightarrow> idem_record" where
  "processing_record q =
     \<lparr>ir_id = 0, ir_scope = rq_scope q, ir_key_hash = rq_key_hash q,
      ir_fingerprint = rq_fingerprint q, ir_status = status_processing,
      ir_response_status = None, ir_response_body = None, ir_error_reason = None,
      ir_locked_until = Some (rq_locked_until q), ir_expires_at = rq_expires_at q,
      ir_created_at = 0, ir_updated_at = 0\<rparr>"

definition claim_phase ::
  "'s idem_repo \<Rightarrow> 'd codec \<Rightarrow> request \<Rightarrow> ('s, 'w) idem_state \<Rightarrow> ('s, 'w) idem_state \<times> 'd claim" where
  "claim_phase R cd q st =
     (case on_store (\<lambda>s. repo_create R s (processing_record q)) st of
        (st, Inl e) \<Rightarrow>
          (unavailable q ''create_processing_error'' ''unknown'' ''create_processing'' st,
           Refuse (with_cause ErrStoreUnavail e))
      | (st, Inr (True, rec)) \<Rightarrow>
          (note_claim q ''new_claim'' ''none->processing'' ''new'' st, Claimed (ir_id rec))
      | (st, Inr (False, rec)) \<Rightarrow> claim_existing R cd q st)"

text \<open>The operation and the record of its outcome.\<close>

definition run_phase ::
  "'s idem_repo \<Rightarrow> idem_config \<Rightarrow> 'd codec \<Rightarrow> exec_clock \<Rightarrow> request \<Rightarrow> ('w, 'd) operation \<Rightarrow> int64 \<Rightarrow>
   ('s, 'w) idem_state \<Rightarrow> ('s, 'w) idem_state \<times> (go_error + 'd exec_result)" where
  "run_phase R cfg cd ck q op rid st =
     (let (w, outcome) = op (st_world st); st = st\<lparr>st_world := w\<rparr>;
          (st, res) =
            (case outcome of
               Inl err \<Rightarrow>
                 let reason = (if error_reason err = [] then ''EXECUTION_FAILED'' else error_reason err);
                     st = audit q ''processing->failed_retryable'' False [(''reason'', reason)]
                            (record_retry_backoff (rq_endpoint q) (rq_scope q) [] st)
                 in (case on_store (\<lambda>s. repo_fail R s rid reason
                              (ck_failed ck + ic_failed_retry_backoff cfg) (rq_expires_at q)) st of
                       (st, Inl e) \<Rightarrow>
                         (unavailable q ''mark_failed_retryable_error'' ''processing''
                            ''mark_failed_retryable'' st, Inl err)
                     | (st, Inr _) \<Rightarrow> (st, Inl err))
             | Inr data \<Rightarrow>
                 (case marshal_stored_response cd cfg data of
                    Inl e \<Rightarrow>
                      (unavailable q ''marshal_response_error'' ''processing'' ''marshal_response'' st,
                       Inl (with_cause ErrStoreUnavail e))
                  | Inr body \<Rightarrow>
                      (case on_store (\<lambda>s. repo_succeed R s rid 200 body (rq_expires_at q)) st of
                         (st, Inl e) \<Rightarrow>
                           (unavailable q ''mark_succeeded_error'' ''processing'' ''mark_succeeded'' st,
                            Inl (with_cause ErrStoreUnavail e))
                       | (st, Inr _) \<Rightarrow>
                           (audit q ''processing->succeeded'' False [] st,
                            Inr \<lparr>er_data = data, er_replayed = False\<rparr>))))
      in (record_duration (rq_endpoint q) (rq_scope q) (ck_end ck - ck_start ck) st, res))"

definition make_request ::
  "idem_config \<Rightarrow> 'd codec \<Rightarrow> exec_clock \<Rightarrow> 'd exec_options \<Rightarrow> string \<Rightarrow> string \<Rightarrow> request" where
  "make_request cfg cd ck opts key fingerprint =
     (let ttl = (if eo_ttl opts \<le> 0 then ic_default_ttl cfg else eo_ttl opts)
      in \<lparr>rq_endpoint = eo_route opts, rq_scope = eo_scope opts,
          rq_key_hash = cd_sha256hex cd key, rq_fingerprint = fingerprint,
          rq_now = ck_claim ck, rq_locked_until = ck_claim ck + ic_processing_timeout cfg,
          rq_expires_at = ck_claim ck + ttl\<rparr>)"

text \<open>\<open>Execute\<close>; a missing repository and a missing executor are \<open>None\<close>.\<close>

definition execute ::
  "'s idem_repo option \<Rightarrow> idem_config \<Rightarrow> 'd codec \<Rightarrow> exec_clock \<Rightarrow> 'd exec_options \<Rightarrow>
   ('w, 'd) operation option \<Rightarrow> ('s, 'w) idem_state \<Rightarrow>
   ('s, 'w) idem_state \<times> (go_error + 'd exec_result)" where
  "execute repo cfg cd ck opts executor st =
     (case executor of
        None \<Rightarrow> (st, Inl (App ErrExecutorNil))
      | Some op \<Rightarrow>
          (case normalize_key (eo_key opts) of
             Inl e \<Rightarrow> (st, Inl e)
           | Inr [] \<Rightarrow>
               if eo_require_key opts \<and> \<not> ic_observe_only cfg then (st, Inl (App ErrKeyRequired))
               else (case op (st_world st) of
                       (w, Inl e) \<Rightarrow> (st\<lparr>st_world := w\<rparr>, Inl e)
                     | (w, Inr data) \<Rightarrow> (st\<lparr>st_world := w\<rparr>, Inr \<lparr>er_data = data, er_replayed = False\<rparr>))
           | Inr key \<Rightarrow>
               (case repo of
                  None \<Rightarrow> (record_store_unavailable (eo_route opts) (eo_scope opts) ''repo_nil'' st,
                            Inl (App ErrStoreUnavail))
                | Some R \<Rightarrow>
                    if eo_scope opts = [] then (st, Inl (App ErrScopeRequired))
                    else
                      (case build_fingerprint cd (eo_method opts) (eo_route opts) (eo_actor_scope opts)
                              (eo_payload opts) of
                         Inl e \<Rightarrow> (st, Inl e)
                       | Inr fp \<Rightarrow>
                           let q = make_request cfg cd ck opts key fp in
                           (case claim_phase R cd q st of
                              (st, Refuse e) \<Rightarrow> (st, Inl e)
                            | (st, Replay data) \<Rightarrow> (st, Inr \<lparr>er_data = data, er_replayed = True\<rparr>)
                            | (st, Claimed rid) \<Rightarrow>
                                if rid = 0 then
                                  (unavailable q ''record_id_missing'' ''processing'' ''record_id_missing'' st,
                                   Inl (App ErrStoreUnavail))
                                else run_phase R cfg cd ck q op rid st)))))"

text \<open>\<open>cleanupOnce\<close>: one sweep; a failure is only logged.\<close>

definition cleanup_once :: "'s idem_repo \<Rightarrow> int \<Rightarrow> time \<Rightarrow> 's \<Rightarrow> 's" where
  "cleanup_once R batch now s = fst (repo_delete_expired R s now batch)"

subsection \<open>Bookkeeping leaves the store and the world alone\<close>

lemmas book_defs =
  record_claim_def record_replay_def record_conflict_def record_retry_backoff_def
  record_store_unavailable_def record_duration_def log_audit_def audit_def unavailable_def
  note_claim_def note_conflict_def emit_def Let_def

lemma book_store [simp]:
  "st_store (record_replay ep sc attrs st) = st_store st"
  "st_store (record_conflict ep sc attrs st) = st_store st"
  "st_store (record_retry_backoff ep sc attrs st) = st_store st"
  "st_store (record_store_unavailable ep sc strat st) = st_store st"
  "st_store (record_duration ep sc d st) = st_store st"
  "st_store (audit q tr rep attrs st) = st_store st"
  "st_store (unavailable q strat from op st) = st_store st"
  "st_store (note_claim q mode tr cm st) = st_store st"
  "st_store (note_conflict q reason tr attrs st) = st_store st"
  by (simp_all add: book_defs)

lemma book_world [simp]:
  "st_world (record_replay ep sc attrs st) = st_world st"
  "st_world (record_conflict ep sc attrs st) = st_world st"
  "st_world (record_retry_backoff ep sc attrs st) = st_world st"
  "st_world (record_store_unavailable ep sc strat st) = st_world st"
  "st_world (record_duration ep sc d st) = st_world st"
  "st_world (audit q tr rep attrs st) = st_world st"
  "st_world (unavailable q strat from op st) = st_world st"
  "st_world (note_claim q mode tr cm st) = st_world st"
  "st_world (note_conflict q reason tr attrs st) = st_world st"
  by (simp_all add: book_defs)

lemma on_store_cases:
  assumes "on_store call st = (st', r)"
  obtains s where "call (st_store st) = (s, r)" "st_store st' = s" "st_world st' = st_world st"
  using assms by (auto simp: on_store_def split: prod.splits)

subsection \<open>Who may run\<close>

text \<open>
  \<open>claimable\<close>: the request may take the record, as the code means it: there is none, or it is of
  the same request, its lock has passed, and it has expired or failed.  \<open>owned_by\<close>: the record as
  a claim of the request leaves it.
\<close>

definition rq_key :: "request \<Rightarrow> string \<times> string" where
  "rq_key q = (rq_scope q, rq_key_hash q)"

definition claimable :: "request \<Rightarrow> idem_record option \<Rightarrow> bool" where
  "claimable q entry \<longleftrightarrow>
     (case entry of
        None \<Rightarrow> True
      | Some r \<Rightarrow> ir_fingerprint r = rq_fingerprint q \<and> lock_free (rq_now q) r \<and>
          (ir_expires_at r \<le> rq_now q \<or> ir_status r = status_failed_retryable))"

definition owned_by :: "request \<Rightarrow> idem_record \<Rightarrow> bool" where
  "owned_by q r \<longleftrightarrow> ir_status r = status_processing \<and> ir_locked_until r = Some (rq_locked_until q) \<and>
     ir_expires_at r = rq_expires_at q \<and> ir_fingerprint r = rq_fingerprint q"

text \<open>The refusals that are not failures of the store, by the record found.\<close>

definition refusal :: "request \<Rightarrow> idem_record \<Rightarrow> go_error \<Rightarrow> bool" where
  "refusal q r e \<longleftrightarrow>
     (if ir_fingerprint r \<noteq> rq_fingerprint q then e = App ErrKeyConflict
      else if ir_status r = status_succeeded then False
      else if ir_status r = status_processing then
        e = conflict_with_retry_after ErrInProgress (ir_locked_until r) (rq_now q)
      else if ir_status r = status_failed_retryable then
        \<not> lock_free (rq_now q) r \<and>
        e = conflict_with_retry_after ErrRetryBackoff (ir_locked_until r) (rq_now q)
      else e = App ErrKeyConflict)"

definition refused_with :: "request \<Rightarrow> idem_record option \<Rightarrow> go_error \<Rightarrow> bool" where
  "refused_with q entry e \<longleftrightarrow>
     error_reason e = ae_reason ErrStoreUnavail \<or> (\<exists>r. entry = Some r \<and> refusal q r e)"

definition claim_result :: "'d codec \<Rightarrow> request \<Rightarrow> key_map \<Rightarrow> key_map \<Rightarrow> 'd claim \<Rightarrow> bool" where
  "claim_result cd q m m' c \<longleftrightarrow>
     (\<not> claimable q (m (rq_key q)) \<longrightarrow> m' = m) \<and>
     (\<forall>k. k \<noteq> rq_key q \<longrightarrow> m' k = m k) \<and>
     (case c of
        Claimed rid \<Rightarrow> claimable q (m (rq_key q)) \<and> rid \<noteq> 0 \<and>
          (\<exists>r. m' (rq_key q) = Some r \<and> ir_id r = rid \<and> owned_by q r)
      | Replay d \<Rightarrow> (\<exists>r. m (rq_key q) = Some r \<and> ir_status r = status_succeeded \<and>
          ir_fingerprint r = rq_fingerprint q \<and> decode_stored_response cd (ir_response_body r) = Inr d)
      | Refuse e \<Rightarrow> refused_with q (m (rq_key q)) e)"

lemma claim_resultI [intro]:
  assumes "\<not> claimable q (m (rq_key q)) \<Longrightarrow> m' = m" and "\<And>k. k \<noteq> rq_key q \<Longrightarrow> m' k = m k"
    and "refused_with q (m (rq_key q)) e"
  shows "claim_result cd q m m' (Refuse e)"
  using assms by (simp add: claim_result_def)

lemma amap_unchanged:
  assumes "\<And>k r. m k = Some r \<Longrightarrow> \<not> cond r"
  shows "amap cond upd m = m"
proof
  fix k
  show "amap cond upd m k = m k"
    using assms by (cases "m k") (simp_all add: amap_def)
qed

text \<open>What each step does to the store, for any store that keeps the contract.\<close>

context idem_repository
begin

lemma reclaim_step:
  assumes inv: "inv s" and r: "look s (rq_key q) = Some r" and fp: "ir_fingerprint r = rq_fingerprint q"
    and eq: "repo_reclaim R s (ir_id r) (ir_status r) (rq_now q) (rq_locked_until q) (rq_expires_at q)
             = (s', res)"
  shows "inv s'" and "\<And>k. k \<noteq> rq_key q \<Longrightarrow> look s' k = look s k"
    and "\<not> lock_free (rq_now q) r \<Longrightarrow> look s' = look s \<and> res \<noteq> Inr True"
    and "res = Inr True \<Longrightarrow> \<exists>r'. look s' (rq_key q) = Some r' \<and> ir_id r' = ir_id r \<and> owned_by q r'"
    and "res = Inr False \<Longrightarrow> look s' = look s \<and> \<not> lock_free (rq_now q) r"
proof -
  let ?C = "reclaim_cond (ir_id r) (ir_status r) (rq_now q)"
  let ?U = "reclaim_upd (rq_locked_until q) (rq_expires_at q)"
  have eff: "inv s' \<and> update_effect (=) ?C ?U (look s) (look s') res"
    using reclaim [OF inv eq] .
  then show "inv s'" by simp
  have only: "?C x \<longleftrightarrow> x = r \<and> lock_free (rq_now q) r" if "look s k = Some x" for k x
  proof -
    have "x = r" if "ir_id x = ir_id r"
      using unique [OF inv \<open>look s k = Some x\<close> r that] \<open>look s k = Some x\<close> r by simp
    then show ?thesis by (auto simp: reclaim_cond_def)
  qed
  have other: "amap ?C (?U t) (look s) k = look s k" if "k \<noteq> rq_key q" for k t
    by (rule amap_other [OF inv r that]) (simp add: reclaim_cond_def)
  have either: "look s' = look s \<or> (\<exists>t. look s' = amap ?C (?U t) (look s))"
    using eff by (cases res) (auto simp: update_effect_def)
  show "look s' k = look s k" if "k \<noteq> rq_key q" for k
    using either other [OF that] by metis
  have same: "amap ?C (?U t) (look s) = look s" if "\<not> (\<exists>k x. look s k = Some x \<and> ?C x)" for t
    using that by (intro amap_unchanged) blast
  show "look s' = look s \<and> res \<noteq> Inr True" if "\<not> lock_free (rq_now q) r"
  proof -
    have "\<not> (\<exists>k x. look s k = Some x \<and> ?C x)" using only that by blast
    then show ?thesis
      using either same eff by (cases res) (auto simp: update_effect_def)
  qed
  show "look s' = look s \<and> \<not> lock_free (rq_now q) r" if "res = Inr False"
  proof -
    have none: "\<not> (\<exists>k x. look s k = Some x \<and> ?C x)"
      using eff that by (auto simp: update_effect_def)
    moreover have "\<not> lock_free (rq_now q) r"
      using none only [OF r] r by blast
    ultimately show ?thesis using either same by metis
  qed
  show "\<exists>r'. look s' (rq_key q) = Some r' \<and> ir_id r' = ir_id r \<and> owned_by q r'" if "res = Inr True"
  proof -
    from eff that obtain t k x where l: "look s' = amap ?C (?U t) (look s)" "look s k = Some x" "?C x"
      by (auto simp: update_effect_def)
    then have "?C r" using only r by blast
    then show ?thesis
      using l(1) r fp by (auto simp: amap_def owned_by_def reclaim_upd_def)
  qed
qed


lemma settle_claim:
  assumes inv: "inv (st_store st)" and r: "look (st_store st) (rq_key q) = Some r"
    and fp: "ir_fingerprint r = rq_fingerprint q" and eq: "settle_existing R cd q r st = (st', c)"
  shows "inv (st_store st') \<and> st_world st' = st_world st \<and>
    claim_result cd q (look (st_store st)) (look (st_store st')) c"
proof (cases "ir_status r = status_failed_retryable \<and> lock_free (rq_now q) r")
  case False
  then show ?thesis
    using eq inv r fp unfolding settle_existing_def
    by (auto simp: claim_result_def refused_with_def refusal_def split: if_splits sum.splits)
next
  case True
  obtain st1 res where call: "on_store (\<lambda>s. repo_reclaim R s (ir_id r) (ir_status r) (rq_now q)
      (rq_locked_until q) (rq_expires_at q)) st = (st1, res)"
    by (cases "on_store (\<lambda>s. repo_reclaim R s (ir_id r) (ir_status r) (rq_now q)
      (rq_locked_until q) (rq_expires_at q)) st")
  from on_store_cases [OF call] have
    st1: "repo_reclaim R (st_store st) (ir_id r) (ir_status r) (rq_now q) (rq_locked_until q)
      (rq_expires_at q) = (st_store st1, res)" "st_world st1 = st_world st"
    by metis+
  note step = reclaim_step [OF inv r fp st1(1)]
  have pos: "ir_id r \<noteq> 0" using keyed [OF inv r] by simp
  have cl: "claimable q (look (st_store st) (rq_key q))"
    using True r fp by (simp add: claimable_def)
  have "(\<exists>e. c = Refuse (with_cause ErrStoreUnavail e)) \<or> res = Inr False \<or>
      c = Claimed (ir_id r) \<and> res = Inr True"
    and "st_store st' = st_store st1" "st_world st' = st_world st1"
    using eq True call unfolding settle_existing_def
    by (auto split: sum.splits bool.splits)
  then show ?thesis
    using step st1(2) cl pos True by (auto simp: claim_result_def refused_with_def)
qed

lemma with_existing_cases:
  assumes eq: "with_existing R q suffix k st = (st', c)" and inv: "inv (st_store st)"
  obtains (refused) e where "c = Refuse e" "refused_with q (look (st_store st) (rq_key q)) e"
      "inv (st_store st')"
      "look (st_store st') = look (st_store st)" "st_world st' = st_world st"
    | (found) r st1 where "k r st1 = (st', c)" "look (st_store st) (rq_key q) = Some r"
      "ir_fingerprint r = rq_fingerprint q" "inv (st_store st1)"
      "look (st_store st1) = look (st_store st)" "st_world st1 = st_world st"
proof -
  obtain st1 res where call: "on_store (\<lambda>s. repo_get R s (rq_scope q) (rq_key_hash q)) st = (st1, res)"
    by (cases "on_store (\<lambda>s. repo_get R s (rq_scope q) (rq_key_hash q)) st")
  from on_store_cases [OF call] have
    st1: "repo_get R (st_store st) (rq_scope q) (rq_key_hash q) = (st_store st1, res)"
      "st_world st1 = st_world st"
    by metis+
  note g = get [OF inv st1(1)]
  show thesis
  proof (cases res)
    case (Inl e)
    with eq call g st1 refused show thesis by (auto simp: with_existing_def refused_with_def)
  next
    case (Inr o')
    show thesis
    proof (cases o')
      case None
      with Inr eq call g st1 refused show thesis by (auto simp: with_existing_def refused_with_def)
    next
      case (Some r)
      show thesis
      proof (cases "ir_fingerprint r = rq_fingerprint q")
        case True
        with Some Inr eq call g st1 found show thesis
          by (auto simp: with_existing_def rq_key_def)
      next
        case False
        have "look (st_store st) (rq_key q) = Some r"
          using Some Inr g by (simp add: rq_key_def)
        with False have "refused_with q (look (st_store st) (rq_key q)) (App ErrKeyConflict)"
          by (simp add: refused_with_def refusal_def)
        with False Some Inr eq call g st1 refused show thesis
          by (auto simp: with_existing_def)
      qed
    qed
  qed
qed

lemma claim_existing_result:
  assumes inv: "inv (st_store st)" and eq: "claim_existing R cd q st = (st', c)"
  shows "inv (st_store st') \<and> st_world st' = st_world st \<and>
    claim_result cd q (look (st_store st)) (look (st_store st')) c"
  using eq [unfolded claim_existing_def] inv
proof (cases rule: with_existing_cases)
  case (refused e)
  then show ?thesis by auto
next
  case (found r st1)
  show ?thesis
  proof (cases "ir_expires_at r \<le> rq_now q")
    case False
    with found have "settle_existing R cd q r st1 = (st', c)" by simp
    from settle_claim [OF found(4) _ found(3) this] found show ?thesis by simp
  next
    case True
    let ?call = "\<lambda>s. repo_reclaim R s (ir_id r) (ir_status r) (rq_now q) (rq_locked_until q)
      (rq_expires_at q)"
    obtain st2 res where call: "on_store ?call st1 = (st2, res)"
      by (cases "on_store ?call st1")
    from on_store_cases [OF call] have
      st2: "?call (st_store st1) = (st_store st2, res)" "st_world st2 = st_world st1"
      by metis+
    have r1: "look (st_store st1) (rq_key q) = Some r" using found by simp
    note step = reclaim_step [OF found(4) r1 found(3) st2(1)]
    have pos: "ir_id r \<noteq> 0" using keyed [OF found(4) r1] by simp
    have cl: "claimable q (look (st_store st) (rq_key q)) \<longleftrightarrow> lock_free (rq_now q) r"
      using True found by (simp add: claimable_def)
    show ?thesis
    proof (cases "res = Inr False")
      case False
      then have "(\<exists>e. c = Refuse (with_cause ErrStoreUnavail e)) \<or> c = Claimed (ir_id r) \<and> res = Inr True"
        and "st_store st' = st_store st2" "st_world st' = st_world st2"
        using found(1) True call by (auto split: sum.splits bool.splits)
      then show ?thesis
        using step st2(2) cl pos found(5,6) by (auto simp: claim_result_def refused_with_def)
    next
      case again: True
      with found(1) True call have eq2:
        "with_existing R q ''_after_expired_reclaim'' (settle_existing R cd q) st2 = (st', c)"
        by simp
      have same: "look (st_store st2) = look (st_store st)" "st_world st2 = st_world st"
        using step(5) [OF again] found(5,6) st2(2) by simp_all
      from eq2 step(1) show ?thesis
      proof (cases rule: with_existing_cases)
        case (refused e)
        with same show ?thesis by auto
      next
        case (found r' st3)
        from settle_claim [OF found(4) _ found(3) found(1)] found same show ?thesis by simp
      qed
    qed
  qed
qed

lemma claim_phase_result:
  assumes inv: "inv (st_store st)" and eq: "claim_phase R cd q st = (st', c)"
  shows "inv (st_store st') \<and> st_world st' = st_world st \<and>
    claim_result cd q (look (st_store st)) (look (st_store st')) c"
proof -
  let ?call = "\<lambda>s. repo_create R s (processing_record q)"
  obtain st1 res where call: "on_store ?call st = (st1, res)"
    by (cases "on_store ?call st")
  from on_store_cases [OF call] have
    st1: "?call (st_store st) = (st_store st1, res)" "st_world st1 = st_world st"
    by metis+
  have key: "key_of (processing_record q) = rq_key q"
    by (simp add: key_of_def processing_record_def rq_key_def)
  have own: "owned_by q row \<and> ir_id row \<noteq> 0" if "stored_as (processing_record q) row" for row
    using that by (auto simp: stored_as_def owned_by_def processing_record_def)
  note cr = create [OF inv st1(1), unfolded key]
  show ?thesis
  proof (cases res)
    case (Inl e)
    with eq call have "c = Refuse (with_cause ErrStoreUnavail e)" "st_store st' = st_store st1"
      "st_world st' = st_world st1"
      by (auto simp: claim_phase_def)
    with Inl cr st1(2) show ?thesis
      by (auto simp: claimable_def refused_with_def)
  next
    case (Inr x)
    obtain owner rec where x: "x = (owner, rec)" by (cases x)
    show ?thesis
    proof (cases owner)
      case True
      with Inr x eq call have c: "c = Claimed (ir_id rec)" "st_store st' = st_store st1"
        "st_world st' = st_world st1"
        by (auto simp: claim_phase_def)
      from cr True Inr x obtain row where "look (st_store st) (rq_key q) = None"
        "stored_as (processing_record q) row" "ir_id rec = ir_id row"
        "look (st_store st1) = (look (st_store st))(rq_key q \<mapsto> row)" "inv (st_store st1)"
        by auto
      with c st1(2) own show ?thesis
        by (simp add: claim_result_def claimable_def)
    next
      case False
      with Inr x eq call have "claim_existing R cd q st1 = (st', c)"
        by (auto simp: claim_phase_def)
      from claim_existing_result [OF _ this] cr False Inr x st1(2) show ?thesis by simp
    qed
  qed
qed

end

subsection \<open>What a run leaves behind\<close>

definition stored_success :: "request \<Rightarrow> string \<Rightarrow> idem_record \<Rightarrow> bool" where
  "stored_success q body r \<longleftrightarrow> ir_status r = status_succeeded \<and> ir_response_body r = Some body \<and>
     ir_expires_at r = rq_expires_at q \<and> ir_locked_until r = None"

definition stored_failure :: "request \<Rightarrow> go_error \<Rightarrow> time \<Rightarrow> idem_record \<Rightarrow> bool" where
  "stored_failure q err backoff_until r \<longleftrightarrow> ir_status r = status_failed_retryable \<and>
     ir_error_reason r = Some (if error_reason err = [] then ''EXECUTION_FAILED'' else error_reason err) \<and>
     ir_locked_until r = Some backoff_until \<and> ir_expires_at r = rq_expires_at q"

definition ran ::
  "idem_config \<Rightarrow> 'd codec \<Rightarrow> exec_clock \<Rightarrow> request \<Rightarrow> go_error + 'd \<Rightarrow> idem_record \<Rightarrow>
   go_error + 'd exec_result \<Rightarrow> bool" where
  "ran cfg cd ck q outcome r res \<longleftrightarrow>
     ir_fingerprint r = rq_fingerprint q \<and>
     (case outcome of
        Inl err \<Rightarrow> res = Inl err \<and>
          (owned_by q r \<or> stored_failure q err (ck_failed ck + ic_failed_retry_backoff cfg) r)
      | Inr data \<Rightarrow>
          (case res of
             Inr x \<Rightarrow> er_data x = data \<and> \<not> er_replayed x \<and>
               (\<exists>body. marshal_stored_response cd cfg data = Inr body \<and> stored_success q body r)
           | Inl e \<Rightarrow> error_reason e = ae_reason ErrStoreUnavail \<and>
               (owned_by q r \<or>
                (\<exists>body. marshal_stored_response cd cfg data = Inr body \<and> stored_success q body r))))"

definition execute_result ::
  "idem_config \<Rightarrow> 'd codec \<Rightarrow> exec_clock \<Rightarrow> request \<Rightarrow> ('w, 'd) operation \<Rightarrow> 'w \<Rightarrow> 'w \<Rightarrow>
   key_map \<Rightarrow> key_map \<Rightarrow> go_error + 'd exec_result \<Rightarrow> bool" where
  "execute_result cfg cd ck q op w w' m m' res \<longleftrightarrow>
     (\<forall>k. k \<noteq> rq_key q \<longrightarrow> m' k = m k) \<and> (\<not> claimable q (m (rq_key q)) \<longrightarrow> m' = m) \<and>
     (w' = w \<and>
        (case res of
           Inr x \<Rightarrow> er_replayed x \<and> (\<exists>r. m (rq_key q) = Some r \<and> ir_status r = status_succeeded \<and>
             ir_fingerprint r = rq_fingerprint q \<and>
             decode_stored_response cd (ir_response_body r) = Inr (er_data x))
         | Inl e \<Rightarrow> refused_with q (m (rq_key q)) e) \<or>
      claimable q (m (rq_key q)) \<and> w' = fst (op w) \<and>
        (\<exists>r. m' (rq_key q) = Some r \<and> ran cfg cd ck q (snd (op w)) r res))"

context idem_repository
begin

lemma update_one:
  assumes inv: "inv s" and r: "look s k = Some r"
    and eff: "update_effect (\<lambda>_ _. True) (\<lambda>x. ir_id x = ir_id r) upd (look s) m' res"
  shows "\<And>k'. k' \<noteq> k \<Longrightarrow> m' k' = look s k'"
    and "m' k = Some r \<and> isl res \<or> (\<exists>t. m' k = Some (upd t r))"
proof -
  let ?C = "\<lambda>x. ir_id x = ir_id r"
  have either: "m' = look s \<and> isl res \<or> (\<exists>t. m' = amap ?C (upd t) (look s))"
    using eff by (cases res) (auto simp: update_effect_def)
  have "amap ?C (upd t) (look s) k' = look s k'" if "k' \<noteq> k" for t k'
    by (rule amap_other [OF inv r that])
  with either show "m' k' = look s k'" if "k' \<noteq> k" for k'
    using that by metis
  have "amap ?C (upd t) (look s) k = Some (upd t r)" for t
    using r by (simp add: amap_def)
  with either r show "m' k = Some r \<and> isl res \<or> (\<exists>t. m' k = Some (upd t r))"
    by metis
qed

lemma run_phase_result:
  assumes inv: "inv (st_store st)" and r: "look (st_store st) (rq_key q) = Some r" "ir_id r = rid"
    and own: "owned_by q r" and eq: "run_phase R cfg cd ck q op rid st = (st', res)"
  shows "inv (st_store st') \<and> st_world st' = fst (op (st_world st)) \<and>
    (\<forall>k. k \<noteq> rq_key q \<longrightarrow> look (st_store st') k = look (st_store st) k) \<and>
    (\<exists>r'. look (st_store st') (rq_key q) = Some r' \<and> ran cfg cd ck q (snd (op (st_world st))) r' res)"
proof -
  obtain w outcome where op: "op (st_world st) = (w, outcome)"
    by (cases "op (st_world st)")
  have fp: "ir_fingerprint r = rq_fingerprint q" using own by (simp add: owned_by_def)
  show ?thesis
  proof (cases outcome)
    case (Inl err)
    let ?reason = "if error_reason err = [] then ''EXECUTION_FAILED'' else error_reason err"
    obtain s x where call: "repo_fail R (st_store st) rid ?reason
        (ck_failed ck + ic_failed_retry_backoff cfg) (rq_expires_at q) = (s, x)"
      by (cases "repo_fail R (st_store st) rid ?reason
        (ck_failed ck + ic_failed_retry_backoff cfg) (rq_expires_at q)")
    note f = fail [OF inv call, folded r(2)]
    note one = update_one [OF inv r(1) f [THEN conjunct2]]
    have "st_store st' = s" "st_world st' = w" "res = Inl err"
      using eq op Inl call by (auto simp: run_phase_def on_store_def Let_def split: sum.splits)
    moreover have "stored_failure q err (ck_failed ck + ic_failed_retry_backoff cfg)
        (fail_upd ?reason (ck_failed ck + ic_failed_retry_backoff cfg) (rq_expires_at q) t r)" for t
      by (simp add: stored_failure_def fail_upd_def)
    ultimately show ?thesis
      using f one op Inl own fp by (auto simp: ran_def fail_upd_def)
  next
    case (Inr data)
    show ?thesis
    proof (cases "marshal_stored_response cd cfg data")
      case (Inl e)
      have "st_store st' = st_store st" "st_world st' = w" "res = Inl (with_cause ErrStoreUnavail e)"
        using eq op Inl Inr by (auto simp: run_phase_def Let_def)
      then show ?thesis
        using op Inr inv own fp r by (auto simp: ran_def)
    next
      case body: (Inr body)
      obtain s x where call: "repo_succeed R (st_store st) rid 200 body (rq_expires_at q) = (s, x)"
        by (cases "repo_succeed R (st_store st) rid 200 body (rq_expires_at q)")
      note f = succeed [OF inv call, folded r(2)]
      note one = update_one [OF inv r(1) f [THEN conjunct2]]
      have "stored_success q body (succeed_upd 200 body (rq_expires_at q) t r)" for t
        by (simp add: stored_success_def succeed_upd_def)
      moreover have "st_store st' = s" "st_world st' = w"
        "res = (case x of Inl e \<Rightarrow> Inl (with_cause ErrStoreUnavail e)
                | Inr _ \<Rightarrow> Inr \<lparr>er_data = data, er_replayed = False\<rparr>)"
        using eq op Inr body call
        by (auto simp: run_phase_def on_store_def Let_def split: sum.splits)
      ultimately show ?thesis
        using f one op Inr body own fp
        by (cases x) (auto simp: ran_def succeed_upd_def)
    qed
  qed
qed

lemma execute_sound:
  assumes inv: "inv (st_store st)"
    and eq: "execute (Some R) cfg cd ck opts (Some op) st = (st', res)"
    and key: "normalize_key (eo_key opts) = Inr key" "key \<noteq> []" "eo_scope opts \<noteq> []"
    and fp: "build_fingerprint cd (eo_method opts) (eo_route opts) (eo_actor_scope opts)
               (eo_payload opts) = Inr fp"
    and q: "q = make_request cfg cd ck opts key fp"
  shows "inv (st_store st') \<and>
    execute_result cfg cd ck q op (st_world st) (st_world st') (look (st_store st)) (look (st_store st')) res"
proof -
  obtain st1 c where cl: "claim_phase R cd q st = (st1, c)"
    by (cases "claim_phase R cd q st")
  note res1 = claim_phase_result [OF inv cl]
  from key obtain a b where "normalize_key (eo_key opts) = Inr (a # b)" "key = a # b"
    by (cases key) auto
  with eq key fp q cl have go: "(case c of Refuse e \<Rightarrow> (st1, Inl e)
      | Replay data \<Rightarrow> (st1, Inr \<lparr>er_data = data, er_replayed = True\<rparr>)
      | Claimed rid \<Rightarrow> if rid = 0 then
          (unavailable q ''record_id_missing'' ''processing'' ''record_id_missing'' st1,
           Inl (App ErrStoreUnavail)) else run_phase R cfg cd ck q op rid st1) = (st', res)"
    by (cases c) (simp_all add: execute_def Let_def split: if_splits)
  show ?thesis
  proof (cases c)
    case (Claimed rid)
    with res1 obtain r where r: "look (st_store st1) (rq_key q) = Some r" "ir_id r = rid"
      "owned_by q r" and c: "claimable q (look (st_store st) (rq_key q))" "rid \<noteq> 0"
      by (auto simp: claim_result_def)
    with go Claimed have "run_phase R cfg cd ck q op rid st1 = (st', res)" by simp
    from run_phase_result [OF _ r this] res1 c Claimed show ?thesis
      by (auto simp: execute_result_def claim_result_def)
  next
    case (Replay d)
    with go res1 show ?thesis by (auto simp: execute_result_def claim_result_def)
  next
    case (Refuse e)
    with go res1 show ?thesis by (auto simp: execute_result_def claim_result_def)
  qed
qed

end

subsection \<open>The retry hint\<close>

lemma retry_seconds_pos: "0 < retry_seconds l now"
  by (simp add: retry_seconds_def Let_def)

lemma retry_after_roundtrip:
  "in_int64 (retry_seconds l now) \<Longrightarrow>
   retry_after_seconds (conflict_with_retry_after base (Some l) now) = retry_seconds l now"
  using retry_seconds_pos [of l now]
  by (simp add: retry_after_seconds_def conflict_with_retry_after_def atoi_itoa)

subsection \<open>Truncation\<close>

lemma utf8_valid_Nil [simp]: "utf8_valid []"
  by (simp add: utf8_valid.simps)

lemma utf8_width_le: "utf8_width s \<le> length s \<and> utf8_width s \<le> 4"
  by (cases s) (auto split: list.splits)

lemma utf8_width_append: "0 < utf8_width p \<Longrightarrow> utf8_width (p @ r) = utf8_width p"
  by (cases p; cases "tl p"; cases "tl (tl p)"; cases "tl (tl (tl p))") (auto split: if_splits)

lemma utf8_width_self: "utf8_width (take (utf8_width s) s) = utf8_width s"
  by (cases s) (auto simp: take_Cons' split: list.splits if_splits)

lemma utf8_width_take:
  assumes "utf8_width s \<le> n" and "0 < utf8_width s"
  shows "utf8_width (take n s) = utf8_width s"
proof -
  have "take n s = take (utf8_width s) s @ take (n - utf8_width s) (drop (utf8_width s) s)"
    using assms by (metis append_take_drop_id le_add_diff_inverse take_add)
  then show ?thesis
    using utf8_width_append [of "take (utf8_width s) s"] utf8_width_self [of s] assms(2) by simp
qed

lemma utf8_valid_step: "0 < utf8_width s \<Longrightarrow> utf8_valid s \<longleftrightarrow> utf8_valid (drop (utf8_width s) s)"
  by (subst utf8_valid.simps) (auto dest: utf8_width_pos)

lemma utf8_boundary_near:
  "utf8_valid s \<Longrightarrow> n \<le> length s \<Longrightarrow> \<exists>k \<le> n. n \<le> k + 3 \<and> utf8_valid (take k s)"
proof (induction s arbitrary: n rule: utf8_valid.induct)
  case (1 s)
  let ?w = "utf8_width s"
  show ?case
  proof (cases "s = [] \<or> n < ?w")
    case True
    then have "n \<le> 3" using 1(3) utf8_width_le [of s] by auto
    then show ?thesis by (intro exI [of _ 0]) simp
  next
    case False
    then have w: "0 < ?w" "s \<noteq> []" "?w \<le> n" using 1(2) by (auto simp: utf8_valid.simps [of s] split: if_splits)
    have "utf8_valid (drop ?w s)" "n - ?w \<le> length (drop ?w s)"
      using w 1(2,3) utf8_valid_step by auto
    then obtain k where k: "k \<le> n - ?w" "n - ?w \<le> k + 3" "utf8_valid (take k (drop ?w s))"
      using 1(1) [of "n - ?w"] w by auto
    have "utf8_valid (take (?w + k) s)"
      using k(3) w utf8_width_take [of s "?w + k"] utf8_valid_step [of "take (?w + k) s"]
      by (simp add: drop_take)
    then show ?thesis using k w by (intro exI [of _ "?w + k"]) auto
  qed
qed

lemma back_off_props:
  "back_off s n \<le> n \<and> utf8_valid (take (back_off s n) s) \<and>
   (\<forall>k \<le> n. utf8_valid (take k s) \<longrightarrow> k \<le> back_off s n)"
  by (induction n) (auto simp: le_Suc_eq)

subsection \<open>Properties of the coordinator\<close>

definition accepted_request ::
  "idem_config \<Rightarrow> 'd codec \<Rightarrow> exec_clock \<Rightarrow> 'd exec_options \<Rightarrow> request option" where
  "accepted_request cfg cd ck opts =
     (case normalize_key (eo_key opts) of
        Inl e \<Rightarrow> None
      | Inr key \<Rightarrow>
          if key = [] \<or> eo_scope opts = [] then None
          else (case build_fingerprint cd (eo_method opts) (eo_route opts) (eo_actor_scope opts)
                   (eo_payload opts) of
                  Inl e \<Rightarrow> None
                | Inr fp \<Rightarrow> Some (make_request cfg cd ck opts key fp)))"

lemma accepted_cases:
  assumes "accepted_request cfg cd ck opts = Some q"
  obtains key fp where "normalize_key (eo_key opts) = Inr key" "key \<noteq> []" "eo_scope opts \<noteq> []"
    "build_fingerprint cd (eo_method opts) (eo_route opts) (eo_actor_scope opts)
       (eo_payload opts) = Inr fp" "q = make_request cfg cd ck opts key fp"
  using assms by (auto simp: accepted_request_def split: sum.splits if_splits)

lemma accepted_same:
  assumes "accepted_request cfg cd ck opts = Some q" and "accepted_request cfg cd ck2 opts = Some q2"
  shows "rq_key q2 = rq_key q" and "rq_fingerprint q2 = rq_fingerprint q"
  using assms
  by (auto elim!: accepted_cases simp: make_request_def rq_key_def Let_def)

lemma sql_execute_sound:
  assumes "sql_inv (st_store st)" and "accepted_request cfg cd ck opts = Some q"
    and "execute (Some sql_repo) cfg cd ck opts (Some op) st = (st', res)"
  shows "sql_inv (st_store st') \<and>
    execute_result cfg cd ck q op (st_world st) (st_world st')
      (sql_look (st_store st)) (sql_look (st_store st')) res"
  using assms(2)
proof (cases rule: accepted_cases)
  case (1 key fp)
  from sql.execute_sound [OF assms(1,3) 1] show ?thesis .
qed

lemma first_run_stores:
  assumes "sql_inv (st_store st)" and "accepted_request cfg cd ck opts = Some q"
    and "execute (Some sql_repo) cfg cd ck opts (Some op) st = (st1, Inr x)" and "\<not> er_replayed x"
  obtains r body where "sql_look (st_store st1) (rq_key q) = Some r"
    "ir_fingerprint r = rq_fingerprint q"
    "marshal_stored_response cd cfg (er_data x) = Inr body" "stored_success q body r"
  using sql_execute_sound [OF assms(1-3)] assms(4)
  by (cases "snd (op (st_world st))") (auto simp: execute_result_def ran_def)

lemma stored_success_replays:
  assumes inv: "sql_inv (st_store st)" and acc: "accepted_request cfg cd ck opts = Some q2"
    and r: "sql_look (st_store st) (rq_key q2) = Some r" "ir_fingerprint r = rq_fingerprint q2"
      "stored_success q body r"
    and live: "rq_now q2 < rq_expires_at q"
    and again: "execute (Some sql_repo) cfg cd ck opts (Some op) st = (st', res)"
  shows "st_world st' = st_world st \<and> sql_look (st_store st') = sql_look (st_store st) \<and>
    (case res of
       Inr y \<Rightarrow> er_replayed y \<and> decode_stored_response cd (Some body) = Inr (er_data y)
     | Inl e \<Rightarrow> error_reason e = ae_reason ErrStoreUnavail)"
proof -
  have "\<not> claimable q2 (Some r)"
    using r(3) live by (simp add: claimable_def stored_success_def)
  then show ?thesis
    using sql_execute_sound [OF inv acc again] r
    by (auto simp: execute_result_def stored_success_def refused_with_def refusal_def split: sum.splits)
qed

subsection \<open>Without faults every statement answers\<close>

lemma sql_call_clean:
  assumes "idem_faults db = []"
  shows "sql_call db stmt = (fst (stmt db), Inr (snd (stmt db)))"
  using assms by (cases db; cases "stmt db") (simp add: sql_call_def next_fault_def)

lemma update_where_faults [simp]: "idem_faults (fst (update_where c u db)) = idem_faults db"
  by (simp add: update_where_def)

lemma clean_create: "idem_faults db = [] \<Longrightarrow> sql_create db rec = (db', res) \<Longrightarrow>
    idem_faults db' = [] \<and> \<not> isl res"
  by (auto simp: sql_create_def sql_call_clean Let_def)

lemma clean_get: "idem_faults db = [] \<Longrightarrow> sql_get db s h = (db', res) \<Longrightarrow>
    idem_faults db' = [] \<and> \<not> isl res"
  by (auto simp: sql_get_def sql_call_clean)

lemma clean_reclaim: "idem_faults db = [] \<Longrightarrow> sql_reclaim db i fs n l e = (db', res) \<Longrightarrow>
    idem_faults db' = [] \<and> \<not> isl res"
  by (auto simp: sql_reclaim_def sql_call_clean update_where_def)

lemma clean_succeed: "idem_faults db = [] \<Longrightarrow> sql_succeed db i st b e = (db', res) \<Longrightarrow>
    idem_faults db' = [] \<and> \<not> isl res"
  by (auto simp: sql_succeed_def sql_call_clean)

lemma clean_fail: "idem_faults db = [] \<Longrightarrow> sql_fail db i r l e = (db', res) \<Longrightarrow>
    idem_faults db' = [] \<and> \<not> isl res"
  by (auto simp: sql_fail_def sql_call_clean)

lemma clean_reclaim_taken:
  assumes inv: "sql_inv s" and clean: "idem_faults s = []" and r: "sql_look s k = Some r"
    and free: "lock_free now r" and eq: "sql_reclaim s (ir_id r) (ir_status r) now l e = (s', res)"
  shows "res = Inr True \<and> idem_faults s' = []"
proof -
  obtain b where b: "res = Inr b" using clean_reclaim [OF clean eq] by (cases res) auto
  have "b = (\<exists>k r'. sql_look s k = Some r' \<and> reclaim_cond (ir_id r) (ir_status r) now r')"
    using sql_reclaim_effect [OF inv eq] b by (simp add: update_effect_def)
  moreover have "reclaim_cond (ir_id r) (ir_status r) now r"
    using free by (simp add: reclaim_cond_def)
  ultimately show ?thesis using b r clean_reclaim [OF clean eq] by blast
qed

lemma clean_claim:
  assumes inv: "sql_inv (st_store st)" and clean: "idem_faults (st_store st) = []"
    and can: "claimable q (sql_look (st_store st) (rq_key q))"
    and eq: "claim_phase sql_repo cd q st = (st1, c)"
  shows "idem_faults (st_store st1) = [] \<and> (\<exists>rid. c = Claimed rid)"
proof -
  let ?s = "st_store st"
  have key: "key_of (processing_record q) = rq_key q"
    by (simp add: key_of_def processing_record_def rq_key_def)
  obtain s1 res where cr: "sql_create ?s (processing_record q) = (s1, res)" by fastforce
  obtain owner rec where res: "res = Inr (owner, rec)" and f1: "idem_faults s1 = []"
    using clean_create [OF clean cr] by (cases res) auto
  note eff = sql.create [OF inv, of "processing_record q", simplified, OF cr, unfolded key]
  show ?thesis
  proof (cases owner)
    case True
    with eq cr res f1 show ?thesis by (auto simp: claim_phase_def on_store_def)
  next
    case False
    then obtain r where r: "sql_look ?s (rq_key q) = Some r" and s1: "sql_inv s1"
        "sql_look s1 = sql_look ?s"
      using eff res by auto
    with can have fr: "lock_free (rq_now q) r" "ir_fingerprint r = rq_fingerprint q"
        "ir_expires_at r \<le> rq_now q \<or> ir_status r = status_failed_retryable"
      by (simp_all add: claimable_def)
    obtain s2 res2 where g: "sql_get s1 (rq_scope q) (rq_key_hash q) = (s2, res2)" by fastforce
    have res2: "res2 = Inr (Some r)" and s2: "sql_inv s2" "sql_look s2 (rq_key q) = Some r"
        "idem_faults s2 = []"
      using sql.get [OF s1(1), simplified, OF g] clean_get [OF f1 g] s1(2) r
      by (auto simp: rq_key_def split: sum.splits)
    obtain s3 res3 where rc: "sql_reclaim s2 (ir_id r) (ir_status r) (rq_now q) (rq_locked_until q)
        (rq_expires_at q) = (s3, res3)" by fastforce
    have "res3 = Inr True \<and> idem_faults s3 = []"
      using clean_reclaim_taken [OF s2(1,3,2) fr(1) rc] .
    with eq cr res False g res2 rc fr show ?thesis
      by (cases "ir_expires_at r \<le> rq_now q")
        (auto simp: claim_phase_def on_store_def claim_existing_def with_existing_def
          settle_existing_def)
  qed
qed

lemma clean_run:
  assumes inv: "sql_inv (st_store st)" and clean: "idem_faults (st_store st) = []"
    and r: "sql_look (st_store st) (rq_key q) = Some r"
    and eq: "run_phase sql_repo cfg cd ck q op (ir_id r) st = (st', res)"
  shows "case snd (op (st_world st)) of
      Inl err \<Rightarrow> \<exists>r'. sql_look (st_store st') (rq_key q) = Some r' \<and>
        stored_failure q err (ck_failed ck + ic_failed_retry_backoff cfg) r'
    | Inr data \<Rightarrow> \<forall>body. marshal_stored_response cd cfg data = Inr body \<longrightarrow>
        res = Inr \<lparr>er_data = data, er_replayed = False\<rparr>"
proof -
  obtain w outcome where op: "op (st_world st) = (w, outcome)" by fastforce
  show ?thesis
  proof (cases outcome)
    case (Inl err)
    let ?reason = "if error_reason err = [] then ''EXECUTION_FAILED'' else error_reason err"
    let ?until = "ck_failed ck + ic_failed_retry_backoff cfg"
    obtain s x where call: "sql_fail (st_store st) (ir_id r) ?reason ?until (rq_expires_at q) = (s, x)"
      by fastforce
    have "\<not> isl x" using clean_fail [OF clean call] by simp
    with sql.update_one [OF inv r sql_fail_effect [OF inv call, THEN conjunct2]] obtain t
      where "sql_look s (rq_key q) = Some (fail_upd ?reason ?until (rq_expires_at q) t r)" by blast
    moreover have "st_store st' = s"
      using eq op Inl call by (auto simp: run_phase_def on_store_def Let_def split: sum.splits)
    ultimately show ?thesis
      using op Inl by (simp add: stored_failure_def fail_upd_def)
  next
    case (Inr data)
    have "res = Inr \<lparr>er_data = data, er_replayed = False\<rparr>"
      if body: "marshal_stored_response cd cfg data = Inr body" for body
    proof -
      obtain s x where call: "sql_succeed (st_store st) (ir_id r) 200 body (rq_expires_at q) = (s, x)"
        by fastforce
      with clean_succeed [OF clean call] obtain u where "x = Inr u" by (cases x) auto
      with eq op Inr body call show ?thesis by (simp add: run_phase_def on_store_def Let_def)
    qed
    with op Inr show ?thesis by simp
  qed
qed

text \<open>
  C6.  The operation runs at most once per call, and only for the owner of the key: whatever faults the
  store has, a call changes the world only by running the operation once, and only when no record
  stood under its key or the record was of the same request, unlocked, and expired or failed.  The
  record then says how the run ended, and records under other keys are untouched.
\<close>

theorem execute_runs_only_when_claimed:
  assumes "sql_inv (st_store st)" and "accepted_request cfg cd ck opts = Some q"
    and "execute (Some sql_repo) cfg cd ck opts (Some op) st = (st', res)"
  shows "sql_inv (st_store st') \<and>
    (\<forall>k. k \<noteq> rq_key q \<longrightarrow> sql_look (st_store st') k = sql_look (st_store st) k) \<and>
    (st_world st' = st_world st \<or>
     claimable q (sql_look (st_store st) (rq_key q)) \<and> st_world st' = fst (op (st_world st)) \<and>
     (\<exists>r. sql_look (st_store st') (rq_key q) = Some r \<and>
          ran cfg cd ck q (snd (op (st_world st))) r res))"
  using sql_execute_sound [OF assms] by (auto simp: execute_result_def)



text \<open>
  C12.  A claimable request is not lost: without faults a call whose record is absent, expired or failed
  with its back-off passed runs the operation, returns its data, and a failure is recorded with
  its back-off.
\<close>

theorem execute_runs_when_claimable:
  assumes inv: "sql_inv (st_store st)" and clean: "idem_faults (st_store st) = []"
    and acc: "accepted_request cfg cd ck opts = Some q"
    and can: "claimable q (sql_look (st_store st) (rq_key q))"
    and eq: "execute (Some sql_repo) cfg cd ck opts (Some op) st = (st', res)"
  shows "st_world st' = fst (op (st_world st)) \<and>
    (case snd (op (st_world st)) of
       Inl err \<Rightarrow> res = Inl err \<and> (\<exists>r. sql_look (st_store st') (rq_key q) = Some r \<and>
         stored_failure q err (ck_failed ck + ic_failed_retry_backoff cfg) r)
     | Inr data \<Rightarrow> \<forall>body. marshal_stored_response cd cfg data = Inr body \<longrightarrow>
         res = Inr \<lparr>er_data = data, er_replayed = False\<rparr>)"
proof -
  obtain st1 c where cl: "claim_phase sql_repo cd q st = (st1, c)" by fastforce
  obtain rid where c: "c = Claimed rid" and f1: "idem_faults (st_store st1) = []"
    using clean_claim [OF inv clean can cl] by blast
  obtain r where r: "sql_look (st_store st1) (rq_key q) = Some r" "ir_id r = rid" "owned_by q r"
      "rid \<noteq> 0" and s1: "sql_inv (st_store st1)" "st_world st1 = st_world st"
    using sql.claim_phase_result [OF inv cl] c by (auto simp: claim_result_def)
  from acc have run: "run_phase sql_repo cfg cd ck q op (ir_id r) st1 = (st', res)"
  proof (cases rule: accepted_cases)
    case (1 key fp)
    then show ?thesis using eq cl c r(2,4) by (cases key) (simp_all add: execute_def Let_def)
  qed
  from clean_run [OF s1(1) f1 r(1) run] sql.run_phase_result [OF s1(1) r(1) refl r(3) run] s1(2)
  show ?thesis by (auto simp: ran_def split: sum.splits)
qed

text \<open>
  An over-long response cannot be replayed: the stored text is cut and marked, which is no longer
  JSON, so a call repeated before the record expires answers that the store is unavailable,
  although the first call succeeded.
\<close>

theorem truncated_response_not_replayable:
  assumes inv: "sql_inv (st_store st)" and acc: "accepted_request cfg cd ck opts = Some q"
    and first: "execute (Some sql_repo) cfg cd ck opts (Some op) st = (st1, Inr x)" "\<not> er_replayed x"
    and raw: "cd_marshal cd (er_data x) = Inr raw" "0 < ic_max_stored_response_len cfg"
      "ic_max_stored_response_len cfg < int (length (cd_redact cd raw))"
    and bad: "cd_unmarshal cd (truncate_utf8 (cd_redact cd raw) (ic_max_stored_response_len cfg) @
      ''...(truncated)'') = Inl perr"
    and acc2: "accepted_request cfg cd ck2 opts = Some q2" and live: "rq_now q2 < rq_expires_at q"
    and again: "execute (Some sql_repo) cfg cd ck2 opts (Some op2) st1 = (st2, res)"
  shows "st_world st2 = st_world st1 \<and>
    (\<exists>e. res = Inl e \<and> error_reason e = ae_reason ErrStoreUnavail)"
proof -
  let ?body = "truncate_utf8 (cd_redact cd raw) (ic_max_stored_response_len cfg) @ ''...(truncated)''"
  have inv1: "sql_inv (st_store st1)" using sql_execute_sound [OF inv acc first(1)] by simp
  have body: "marshal_stored_response cd cfg (er_data x) = Inr ?body"
    using raw by (simp add: marshal_stored_response_def Let_def)
  have "trim_space ?body \<noteq> []"
    by (rule trim_space_ne [of "CHR '')''"]) simp_all
  then have undecodable: "\<nexists>d. decode_stored_response cd (Some ?body) = Inr d"
    using bad by (simp add: decode_stored_response_def)
  show ?thesis
    by (rule first_run_stores [OF inv acc first])
      (use stored_success_replays [OF inv1 acc2 _ _ _ live again] accepted_same [OF acc acc2] body
        undecodable in \<open>cases res; auto\<close>)
qed

text \<open>
  Truncating a stored response: the result of cutting valid UTF-8 is the longest prefix within
  the limit that is valid UTF-8, and it loses at most three bytes to the last code point.
\<close>

theorem truncate_utf8_longest:
  assumes "utf8_valid s" and "0 < m" and "t = truncate_utf8 s m"
  shows "utf8_valid t \<and> t = take (length t) s \<and> int (length t) \<le> m \<and>
    (t = s \<or> m - 3 \<le> int (length t)) \<and>
    (\<forall>k. int k \<le> m \<and> k \<le> length s \<and> utf8_valid (take k s) \<longrightarrow> k \<le> length t)"
proof (cases "int (length s) \<le> m")
  case True
  then show ?thesis using assms by (simp add: truncate_utf8_def)
next
  case False
  let ?n = "nat m"
  have n: "?n < length s" "int ?n = m" using False assms(2) by auto
  have t: "t = take (back_off s ?n) s" using False assms by (simp add: truncate_utf8_def)
  have l: "length t = back_off s ?n" using back_off_props [of s ?n] n by (simp add: t)
  obtain k where "k \<le> ?n" "?n \<le> k + 3" "utf8_valid (take k s)"
    using utf8_boundary_near [OF assms(1), of ?n] n by auto
  with back_off_props [of s ?n] have "?n \<le> back_off s ?n + 3" by fastforce
  moreover have "k \<le> back_off s ?n" if "int k \<le> m" "utf8_valid (take k s)" for k
    using back_off_props [of s ?n] that n(2) by auto
  ultimately show ?thesis
    using back_off_props [of s ?n] l n t by (auto simp: le_nat_iff)
qed

subsection \<open>The properties at work\<close>

definition demo_codec :: "string codec" where
  "demo_codec =
     \<lparr>cd_marshal = (\<lambda>d. Inr (''<'' @ d @ ''>'')),
      cd_unmarshal = (\<lambda>s. if s \<noteq> [] \<and> last s = CHR ''>'' then Inr (butlast (tl s)) else Inl ''syntax''),
      cd_empty = [], cd_redact = (\<lambda>s. s), cd_sha256hex = (\<lambda>s. s)\<rparr>"

definition demo_config :: "int \<Rightarrow> idem_config" where
  "demo_config m = default_idem_config\<lparr>ic_max_stored_response_len := m\<rparr>"

definition demo_clock :: "time \<Rightarrow> exec_clock" where
  "demo_clock t = \<lparr>ck_claim = t, ck_start = t, ck_failed = t, ck_end = t\<rparr>"

definition demo_options :: "string exec_options" where
  "demo_options = \<lparr>eo_scope = ''pay'', eo_actor_scope = ''user:7'', eo_method = ''post'',
     eo_route = ''/orders'', eo_key = ''k1'', eo_payload = ''10'', eo_ttl = 0, eo_require_key = True\<rparr>"

definition demo_op :: "(nat, string) operation" where
  "demo_op w = (Suc w, Inr ''order-1'')"

definition demo_state :: "(idem_db, nat) idem_state" where
  "demo_state =
     \<lparr>st_store = \<lparr>idem_rows = [], idem_next_id = 1, idem_clock = 0, idem_faults = []\<rparr>, st_world = 0,
      st_metrics = \<lparr>im_claim = 0, im_replay = 0, im_conflict = 0, im_retry_backoff = 0,
        im_duration_count = 0, im_duration_micros = 0, im_store_unavailable = 0\<rparr>, st_log = []\<rparr>"

definition demo_request :: "int \<Rightarrow> time \<Rightarrow> request" where
  "demo_request m t = the (accepted_request (demo_config m) demo_codec (demo_clock t) demo_options)"

abbreviation demo_run ::
  "int \<Rightarrow> time \<Rightarrow> (idem_db, nat) idem_state \<Rightarrow> (idem_db, nat) idem_state \<times> (go_error + string exec_result)" where
  "demo_run m t st \<equiv>
     execute (Some sql_repo) (demo_config m) demo_codec (demo_clock t) demo_options (Some demo_op) st"

lemma demo_accepted:
  "accepted_request (demo_config m) demo_codec (demo_clock t) demo_options = Some (demo_request m t)"
  and demo_times: "rq_now (demo_request m t) = t" "rq_expires_at (demo_request m t) = t + 24 * hour"
    "rq_locked_until (demo_request m t) = t + 30 * second"
proof -
  have "normalize_key ''k1'' = Inr ''k1''" by code_simp
  then show "accepted_request (demo_config m) demo_codec (demo_clock t) demo_options = Some (demo_request m t)"
    and "rq_now (demo_request m t) = t" "rq_expires_at (demo_request m t) = t + 24 * hour"
    "rq_locked_until (demo_request m t) = t + 30 * second"
    by (simp_all add: demo_request_def accepted_request_def demo_options_def demo_codec_def
        build_fingerprint_def make_request_def demo_config_def demo_clock_def default_idem_config_def)
qed

lemma demo_inv: "sql_inv (st_store demo_state)"
  by code_simp

lemma demo_snd:
  "snd (demo_run 64 5 demo_state) = Inr \<lparr>er_data = ''order-1'', er_replayed = False\<rparr>"
  "snd (demo_run 8 5 demo_state) = Inr \<lparr>er_data = ''order-1'', er_replayed = False\<rparr>"
  by code_simp+

lemma demo_run_inv: "sql_inv (st_store (fst (demo_run m t demo_state)))"
  using sql_execute_sound [OF demo_inv demo_accepted prod.collapse [symmetric]] by simp

lemma pair_of_snd: "snd p = r \<Longrightarrow> p = (fst p, r)"
  by auto

lemmas demo_first = demo_snd [THEN pair_of_snd]

theorem execute_runs_only_when_claimed_witness:
  "st_world (fst (demo_run 64 5 demo_state)) = st_world demo_state \<or>
   claimable (demo_request 64 5) (sql_look (st_store demo_state) (rq_key (demo_request 64 5)))"
  using execute_runs_only_when_claimed [OF demo_inv demo_accepted prod.collapse [symmetric],
      of 64 5 demo_op]
  by blast



theorem execute_runs_when_claimable_witness:
  "st_world (fst (demo_run 64 5 demo_state)) = 1"
proof -
  have clean: "idem_faults (st_store demo_state) = []"
    and can: "claimable (demo_request 64 5) (sql_look (st_store demo_state) (rq_key (demo_request 64 5)))"
    and "fst (demo_op (st_world demo_state)) = 1"
    by (simp_all add: demo_state_def demo_op_def claimable_def sql_look_def split: prod.splits)
  then show ?thesis
    using execute_runs_when_claimable [OF demo_inv clean demo_accepted can prod.collapse [symmetric],
        of demo_op] by simp
qed

theorem truncated_response_not_replayable_witness:
  "isl (snd (demo_run 8 6 (fst (demo_run 8 5 demo_state))))"
proof -
  have raw: "cd_marshal demo_codec (er_data \<lparr>er_data = ''order-1'', er_replayed = False\<rparr>) = Inr ''<order-1>''"
    and m: "0 < ic_max_stored_response_len (demo_config 8)"
      "ic_max_stored_response_len (demo_config 8) < int (length (cd_redact demo_codec ''<order-1>''))"
    and bad: "cd_unmarshal demo_codec (truncate_utf8 (cd_redact demo_codec ''<order-1>'')
        (ic_max_stored_response_len (demo_config 8)) @ ''...(truncated)'') = Inl ''syntax''"
    by code_simp+
  have live: "rq_now (demo_request 8 6) < rq_expires_at (demo_request 8 5)"
    by (simp add: demo_times)
  have replayed: "\<not> er_replayed \<lparr>er_data = ''order-1'', er_replayed = False\<rparr>" by simp
  from truncated_response_not_replayable [OF demo_inv demo_accepted demo_first(2) replayed raw m bad
      demo_accepted live prod.collapse [symmetric]]
  show ?thesis by (auto simp: isl_def)
qed

theorem truncate_utf8_longest_witness: "utf8_valid ''ab'' \<and> int (length ''ab'') \<le> 4"
proof -
  have v: "utf8_valid (''ab'' @ [CHR 0xE4, CHR 0xBD, CHR 0xA0])"
    and t: "''ab'' = truncate_utf8 (''ab'' @ [CHR 0xE4, CHR 0xBD, CHR 0xA0]) 4"
    by code_simp+
  from truncate_utf8_longest [OF v _ t] show ?thesis by simp
qed

end
