(* ===== verification/SysLock.thy ===== *)
theory SysLock
  imports Idempotency
begin

section \<open>The lock of system operations\<close>

text \<open>
  \<open>service/system_operation_lock_service.go\<close>: one global lock (update, rollback, restart) kept as
  a record of the idempotency repository.  \<open>acquire\<close>, \<open>release\<close> and one tick of the renewal
  goroutine are operations on the store; \<open>renew_loop\<close> is the goroutine over the instants its
  ticker fires at, until it gives up.
\<close>

subsection \<open>Operations\<close>

abbreviation lock_scope :: string where
  "lock_scope \<equiv> ''admin.system.operations.global_lock''"
abbreviation lock_key :: string where
  "lock_key \<equiv> ''global-system-operation-lock''"

definition ErrSystemOperationBusy :: app_error where
  "ErrSystemOperationBusy =
     conflict_error ''SYSTEM_OPERATION_BUSY'' ''another system operation is in progress''"

record op_lock =
  ol_record_id :: int64
  ol_operation_id :: string

record lock_service =
  ls_lease :: duration
  ls_renew_interval :: duration
  ls_ttl :: duration

definition new_lock_service :: "idem_config \<Rightarrow> lock_service" where
  "new_lock_service cfg =
     (let lease = (if ic_processing_timeout cfg \<le> 0 then 30 * second else ic_processing_timeout cfg);
          renew = go_div lease 3;
          renew = (if renew < second then second else renew);
          ttl = (if ic_system_operation_ttl cfg \<le> 0 then hour else ic_system_operation_ttl cfg)
      in \<lparr>ls_lease = lease, ls_renew_interval = renew, ls_ttl = ttl\<rparr>)"

definition busy_error :: "string \<Rightarrow> time option \<Rightarrow> time \<Rightarrow> go_error" where
  "busy_error operation_id locked_until now =
     (let md = (if operation_id = [] then [] else [(''operation_id'', operation_id)]) @
               (case locked_until of
                  None \<Rightarrow> []
                | Some l \<Rightarrow> [(''retry_after'', itoa (retry_seconds l now))])
      in if md = [] then App ErrSystemOperationBusy
         else App (with_metadata ErrSystemOperationBusy md))"

definition lock_record :: "lock_service \<Rightarrow> string \<Rightarrow> string \<Rightarrow> time \<Rightarrow> idem_record" where
  "lock_record svc kh operation_id now =
     \<lparr>ir_id = 0, ir_scope = lock_scope, ir_key_hash = kh, ir_fingerprint = operation_id,
      ir_status = status_processing, ir_response_status = None, ir_response_body = None,
      ir_error_reason = None, ir_locked_until = Some (now + ls_lease svc),
      ir_expires_at = now + ls_ttl svc, ir_created_at = 0, ir_updated_at = 0\<rparr>"

text \<open>\<open>Acquire\<close>; \<open>kh\<close> is the hash of \<open>lock_key\<close>.\<close>

definition acquire ::
  "'s idem_repo \<Rightarrow> lock_service \<Rightarrow> string \<Rightarrow> string \<Rightarrow> time \<Rightarrow> 's \<Rightarrow> 's \<times> (go_error + op_lock)" where
  "acquire R svc kh operation_id now s =
     (if operation_id = [] then
        (s, Inl (App (bad_request ''SYSTEM_OPERATION_ID_REQUIRED'' ''operation id is required'')))
      else
        let issue = (\<lambda>s rid. if rid = 0 then (s, Inl (App ErrStoreUnavail))
               else (s, Inr \<lparr>ol_record_id = rid, ol_operation_id = operation_id\<rparr>)) in
        case repo_create R s (lock_record svc kh operation_id now) of
          (s, Inl e) \<Rightarrow> (s, Inl (with_cause ErrStoreUnavail e))
        | (s, Inr (True, rec)) \<Rightarrow> issue s (ir_id rec)
        | (s, Inr (False, rec)) \<Rightarrow>
            (case repo_get R s lock_scope kh of
               (s, Inl e) \<Rightarrow> (s, Inl (with_cause ErrStoreUnavail e))
             | (s, Inr None) \<Rightarrow> (s, Inl (App ErrStoreUnavail))
             | (s, Inr (Some existing)) \<Rightarrow>
                 if ir_status existing = status_processing \<and> \<not> lock_free now existing then
                   (s, Inl (busy_error (ir_fingerprint existing) (ir_locked_until existing) now))
                 else
                   (case repo_reclaim R s (ir_id existing) (ir_status existing) now
                           (now + ls_lease svc) (now + ls_ttl svc) of
                      (s, Inl e) \<Rightarrow> (s, Inl (with_cause ErrStoreUnavail e))
                    | (s, Inr True) \<Rightarrow> issue s (ir_id existing)
                    | (s, Inr False) \<Rightarrow>
                        (case repo_get R s lock_scope kh of
                           (s, Inr (Some latest)) \<Rightarrow>
                             (s, Inl (busy_error (ir_fingerprint latest) (ir_locked_until latest) now))
                         | (s, _) \<Rightarrow> (s, Inl (App ErrSystemOperationBusy))))))"

text \<open>\<open>Release\<close>, at the two instants it reads the clock.\<close>

definition release ::
  "'s idem_repo \<Rightarrow> lock_service \<Rightarrow> op_lock \<Rightarrow> bool \<Rightarrow> string \<Rightarrow> time \<Rightarrow> time \<Rightarrow> 's \<Rightarrow>
   's \<times> (string + unit)" where
  "release R svc lock succeeded failure_reason now now2 s =
     (if succeeded then
        repo_succeed R s (ol_record_id lock) 200
          ([CHR ''{'', CHR 0x22] @ ''operation_id'' @ [CHR 0x22, CHR '':'', CHR 0x22] @
           ol_operation_id lock @ [CHR 0x22, CHR '','', CHR 0x22] @ ''released'' @
           [CHR 0x22, CHR '':''] @ ''true}'')
          (now + ls_ttl svc)
      else
        repo_fail R s (ol_record_id lock)
          (if failure_reason = [] then ''SYSTEM_OPERATION_FAILED'' else failure_reason)
          now2 (now + ls_ttl svc))"

text \<open>One tick of the renewal: the store, and whether the goroutine goes on.\<close>

definition renew_tick :: "'s idem_repo \<Rightarrow> lock_service \<Rightarrow> op_lock \<Rightarrow> time \<Rightarrow> 's \<Rightarrow> 's \<times> bool" where
  "renew_tick R svc lock now s =
     (case repo_extend R s (ol_record_id lock) (ol_operation_id lock)
             (now + ls_lease svc) (now + ls_ttl svc) of
        (s, Inl e) \<Rightarrow> (s, True)
      | (s, Inr ok) \<Rightarrow> (s, ok))"

fun renew_loop :: "'s idem_repo \<Rightarrow> lock_service \<Rightarrow> op_lock \<Rightarrow> time list \<Rightarrow> 's \<Rightarrow> 's" where
  "renew_loop R svc lock [] s = s"
| "renew_loop R svc lock (t # ts) s =
     (case renew_tick R svc lock t s of
        (s, True) \<Rightarrow> renew_loop R svc lock ts s
      | (s, False) \<Rightarrow> s)"

subsection \<open>What the operations do to the store\<close>

definition held :: "time \<Rightarrow> idem_record option \<Rightarrow> bool" where
  "held now entry \<longleftrightarrow> (\<exists>r. entry = Some r \<and> ir_status r = status_processing \<and> \<not> lock_free now r)"

definition lock_entry :: "lock_service \<Rightarrow> time \<Rightarrow> string \<Rightarrow> idem_record \<Rightarrow> bool" where
  "lock_entry svc now fp r \<longleftrightarrow> ir_status r = status_processing \<and>
     ir_locked_until r = Some (now + ls_lease svc) \<and> ir_expires_at r = now + ls_ttl svc \<and>
     ir_fingerprint r = fp"

definition entry_owner :: "string \<Rightarrow> idem_record option \<Rightarrow> string" where
  "entry_owner operation_id entry =
     (case entry of None \<Rightarrow> operation_id | Some r \<Rightarrow> ir_fingerprint r)"

context idem_repository
begin

lemma acquire_result:
  assumes inv: "inv s" and eq: "acquire R svc kh opid now s = (s', res)"
  shows "inv s' \<and> (held now (look s (lock_scope, kh)) \<longrightarrow> look s' = look s \<and> isl res) \<and>
    (\<forall>lock. res = Inr lock \<longrightarrow> ol_operation_id lock = opid \<and>
       (\<exists>r. look s' (lock_scope, kh) = Some r \<and> ir_id r = ol_record_id lock \<and>
            lock_entry svc now (entry_owner opid (look s (lock_scope, kh))) r))"
proof (cases "opid = []")
  case True
  with eq inv show ?thesis by (auto simp: acquire_def)
next
  case ne: False
  let ?k = "(lock_scope, kh)"
  let ?rec = "lock_record svc kh opid now"
  have key: "key_of ?rec = ?k" by (simp add: key_of_def lock_record_def)
  obtain s1 res1 where cr: "repo_create R s ?rec = (s1, res1)" by fastforce
  note c = create [OF inv cr, unfolded key]
  show ?thesis
  proof (cases res1)
    case (Inl e)
    with eq ne cr have "s' = s1" "isl res" by (auto simp: acquire_def Let_def)
    with c Inl show ?thesis by (auto simp: held_def)
  next
    case (Inr x)
    obtain owner rec where x: "x = (owner, rec)" by (cases x)
    show ?thesis
    proof (cases owner)
      case True
      from c True Inr x obtain row where row: "look s ?k = None" "stored_as ?rec row"
        "ir_id rec = ir_id row" "look s1 = (look s)(?k \<mapsto> row)" "inv s1"
        by auto
      then have "lock_entry svc now opid row" "ir_id row \<noteq> 0"
        by (auto simp: stored_as_def lock_entry_def lock_record_def)
      with eq ne cr Inr x True row show ?thesis
        by (auto simp: acquire_def Let_def held_def entry_owner_def)
    next
      case False
      have s1: "inv s1" "look s1 = look s" using c False Inr x by auto
      obtain s2 res2 where g: "repo_get R s1 lock_scope kh = (s2, res2)" by fastforce
      note g' = get [OF s1(1) g]
      have s2: "inv s2" "look s2 = look s" using g' s1 by auto
      show ?thesis
      proof (cases "\<exists>r. res2 = Inr (Some r)")
        case False
        then have "s' = s2" "isl res"
          using eq ne cr Inr x \<open>\<not> owner\<close> g
          by (auto simp: acquire_def Let_def split: sum.splits option.splits)
        with s2 show ?thesis by auto
      next
        case True
        then obtain r where r: "res2 = Inr (Some r)" "look s2 ?k = Some r"
          using g' s1 by auto
        show ?thesis
        proof (cases "ir_status r = status_processing \<and> \<not> lock_free now r")
          case True
          then have "s' = s2" "isl res"
            using eq ne cr Inr x \<open>\<not> owner\<close> g r by (auto simp: acquire_def Let_def)
          with s2 show ?thesis by auto
        next
          case free: False
          define q where "q = \<lparr>rq_endpoint = [], rq_scope = lock_scope, rq_key_hash = kh,
            rq_fingerprint = ir_fingerprint r, rq_now = now, rq_locked_until = now + ls_lease svc,
            rq_expires_at = now + ls_ttl svc\<rparr>"
          have q: "rq_key q = ?k" "rq_fingerprint q = ir_fingerprint r"
            by (simp_all add: q_def rq_key_def)
          obtain s3 res3 where rc: "repo_reclaim R s2 (ir_id r) (ir_status r) now
              (now + ls_lease svc) (now + ls_ttl svc) = (s3, res3)" by fastforce
          then have rc': "repo_reclaim R s2 (ir_id r) (ir_status r) (rq_now q) (rq_locked_until q)
              (rq_expires_at q) = (s3, res3)" by (simp add: q_def)
          note step = reclaim_step [OF s2(1) r(2) [folded q(1)] q(2) [symmetric] rc', unfolded q]
          have nh: "\<not> held now (look s ?k)" using free r s2 by (auto simp: held_def)
          have pos: "ir_id r \<noteq> 0" using keyed [OF s2(1) r(2)] by simp
          show ?thesis
          proof (cases "res3 = Inr True")
            case True
            then have "s' = s3" "res = Inr \<lparr>ol_record_id = ir_id r, ol_operation_id = opid\<rparr>"
              using eq ne cr Inr x \<open>\<not> owner\<close> g r free rc pos by (auto simp: acquire_def Let_def)
            moreover obtain r' where "look s3 ?k = Some r'" "ir_id r' = ir_id r" "owned_by q r'"
              using step(4) [OF True] by auto
            moreover have "entry_owner opid (look s ?k) = ir_fingerprint r"
              using r s2 by (simp add: entry_owner_def)
            ultimately show ?thesis
              using step(1) nh by (auto simp: owned_by_def lock_entry_def q_def)
          next
            case False
            obtain s4 res4 where g4: "repo_get R s3 lock_scope kh = (s4, res4)" by fastforce
            have "inv s4" using get [OF step(1) g4] by simp
            moreover have "(s' = s3 \<or> s' = s4) \<and> isl res"
              using eq ne cr Inr x \<open>\<not> owner\<close> g r free rc False g4
              by (auto simp: acquire_def Let_def split: sum.splits option.splits bool.splits)
            ultimately show ?thesis using step(1) nh by auto
          qed
        qed
      qed
    qed
  qed
qed

end

subsection \<open>Renewal\<close>

context idem_repository
begin

lemma renew_tick_other:
  assumes inv: "inv s" and r: "look s k = Some r" "ir_id r = ol_record_id lock"
    and fp: "ir_fingerprint r \<noteq> ol_operation_id lock"
    and eq: "renew_tick R svc lock t s = (s', go)"
  shows "inv s' \<and> look s' = look s"
proof -
  obtain s1 res where e: "repo_extend R s (ol_record_id lock) (ol_operation_id lock)
      (t + ls_lease svc) (t + ls_ttl svc) = (s1, res)" by fastforce
  have no: "\<not> extend_cond (ol_record_id lock) (ol_operation_id lock) x" if "look s k' = Some x" for k' x
  proof
    assume c: "extend_cond (ol_record_id lock) (ol_operation_id lock) x"
    then have "ir_id x = ir_id r" using r by (simp add: extend_cond_def)
    then have "k' = k" using unique [OF inv that r(1)] by simp
    with that r(1) have "x = r" by simp
    with c fp show False by (simp add: extend_cond_def)
  qed
  have "s' = s1" using eq e by (auto simp: renew_tick_def split: sum.splits)
  moreover have "look s1 = look s \<or>
      (\<exists>u. look s1 = amap (extend_cond (ol_record_id lock) (ol_operation_id lock)) u (look s))"
    using extend [OF inv e] by (cases res) (auto simp: update_effect_def)
  moreover have "amap (extend_cond (ol_record_id lock) (ol_operation_id lock)) u (look s) = look s" for u
    by (rule amap_unchanged) (use no in blast)
  ultimately show ?thesis
    using extend [OF inv e] by auto
qed

lemma renew_loop_other:
  "inv s \<Longrightarrow> look s k = Some r \<Longrightarrow> ir_id r = ol_record_id lock \<Longrightarrow>
   ir_fingerprint r \<noteq> ol_operation_id lock \<Longrightarrow>
   inv (renew_loop R svc lock ts s) \<and> look (renew_loop R svc lock ts s) = look s"
proof (induction ts arbitrary: s)
  case (Cons t ts)
  obtain s1 go where e: "renew_tick R svc lock t s = (s1, go)" by fastforce
  with renew_tick_other [OF Cons.prems e] Cons show ?case by (cases go) auto
qed simp

lemma renew_tick_own:
  assumes inv: "inv s" and r: "look s k = Some r" "ir_id r = ol_record_id lock"
    and own: "ir_fingerprint r = ol_operation_id lock" "ir_status r = status_processing"
    and eq: "renew_tick R svc lock t s = (s', go)" and ok: "\<not> isl (snd (repo_extend R s (ol_record_id lock)
      (ol_operation_id lock) (t + ls_lease svc) (t + ls_ttl svc)))"
  shows "inv s' \<and> go \<and> (\<exists>r'. look s' k = Some r' \<and> ir_id r' = ir_id r \<and>
    lock_entry svc t (ol_operation_id lock) r')"
proof -
  obtain s1 res where e: "repo_extend R s (ol_record_id lock) (ol_operation_id lock)
      (t + ls_lease svc) (t + ls_ttl svc) = (s1, res)" by fastforce
  with ok obtain b where b: "res = Inr b" by (cases res) auto
  have c: "extend_cond (ol_record_id lock) (ol_operation_id lock) r"
    using r own by (simp add: extend_cond_def)
  have hit: "\<exists>k r. look s k = Some r \<and> extend_cond (ol_record_id lock) (ol_operation_id lock) r"
    using r(1) c by blast
  have eff: "\<exists>u. look s1 = amap (extend_cond (ol_record_id lock) (ol_operation_id lock))
      (extend_upd (t + ls_lease svc) (t + ls_ttl svc) u) (look s)" "inv s1" "b"
    using extend [OF inv e] b hit by (auto simp: update_effect_def)
  then have "\<exists>r'. look s1 k = Some r' \<and> ir_id r' = ir_id r \<and> lock_entry svc t (ol_operation_id lock) r'"
    using r c own by (auto simp: amap_def extend_upd_def lock_entry_def)
  then show ?thesis using eq e b eff by (auto simp: renew_tick_def)
qed

end

lemma clean_extend: "idem_faults db = [] \<Longrightarrow> sql_extend db i fp l e = (db', res) \<Longrightarrow>
    idem_faults db' = [] \<and> \<not> isl res"
  by (auto simp: sql_extend_def sql_call_clean update_where_def)

lemma clean_renewals:
  assumes "sql_inv s" and "idem_faults s = []" and "sql_look s k = Some r"
    and "ir_id r = ol_record_id lock" and "ir_fingerprint r = ol_operation_id lock"
    and "ir_status r = status_processing" and "ts \<noteq> []"
  shows "\<exists>r'. sql_look (renew_loop sql_repo svc lock ts s) k = Some r' \<and>
    lock_entry svc (last ts) (ol_operation_id lock) r'"
  using assms
proof (induction ts arbitrary: s r)
  case (Cons t ts)
  obtain s1 go where e: "renew_tick sql_repo svc lock t s = (s1, go)" by fastforce
  obtain s2 res where x: "sql_extend s (ol_record_id lock) (ol_operation_id lock)
      (t + ls_lease svc) (t + ls_ttl svc) = (s2, res)" by fastforce
  note cl = clean_extend [OF Cons.prems(2) x]
  have "s1 = s2" using e x by (auto simp: renew_tick_def split: sum.splits)
  then have f: "idem_faults s1 = []" using cl by simp
  have ok: "\<not> isl (snd (repo_extend sql_repo s (ol_record_id lock) (ol_operation_id lock)
      (t + ls_lease svc) (t + ls_ttl svc)))" using cl x by simp
  from sql.renew_tick_own [OF Cons.prems(1,3,4,5,6) e ok] obtain r' where
    r': "sql_inv s1" "go" "sql_look s1 k = Some r'" "ir_id r' = ir_id r"
      "lock_entry svc t (ol_operation_id lock) r'" by blast
  show ?case
  proof (cases "ts = []")
    case True
    with e r' show ?thesis by auto
  next
    case False
    with Cons.IH [OF r'(1) f r'(3)] r' Cons.prems(4) e show ?thesis by (auto simp: lock_entry_def)
  qed
qed simp

lemma clean_acquire:
  assumes inv: "sql_inv s" and clean: "idem_faults s = []" and r: "sql_look s (lock_scope, kh) = Some r"
    and free: "lock_free now r" and ne: "opid \<noteq> []"
  shows "snd (acquire sql_repo svc kh opid now s) =
    Inr \<lparr>ol_record_id = ir_id r, ol_operation_id = opid\<rparr>"
proof -
  let ?rec = "lock_record svc kh opid now"
  have key: "key_of ?rec = (lock_scope, kh)" by (simp add: key_of_def lock_record_def)
  obtain s1 res where cr: "sql_create s ?rec = (s1, res)" by fastforce
  obtain owner rec where res: "res = Inr (owner, rec)" and f1: "idem_faults s1 = []"
    using clean_create [OF clean cr] by (cases res) auto
  have s1: "\<not> owner" "sql_inv s1" "sql_look s1 = sql_look s"
    using sql_create_effect [OF inv cr, unfolded key] res r by (cases owner; auto)+
  obtain s2 res2 where g: "sql_get s1 lock_scope kh = (s2, res2)" by fastforce
  have s2: "res2 = Inr (Some r)" "sql_inv s2" "sql_look s2 (lock_scope, kh) = Some r" "idem_faults s2 = []"
    using sql_get_effect [OF s1(2) g] clean_get [OF f1 g] s1(3) r by (auto split: sum.splits)
  obtain s3 res3 where rc: "sql_reclaim s2 (ir_id r) (ir_status r) now (now + ls_lease svc)
      (now + ls_ttl svc) = (s3, res3)" by fastforce
  have "res3 = Inr True" using clean_reclaim_taken [OF s2(2,4,3) free rc] by simp
  moreover have "ir_id r \<noteq> 0" using sql.keyed [OF inv r] by simp
  ultimately show ?thesis
    using ne cr res s1(1) g s2(1) rc free by (simp add: acquire_def Let_def)
qed

subsection \<open>Properties of the lock\<close>


text \<open>
  A lock that was acquired on a fresh record is renewed: after any number of ticks without faults
  the record is still being processed and locked until a lease after the last tick.
\<close>

theorem fresh_lock_renewed:
  assumes inv: "sql_inv s" and fresh: "sql_look s (lock_scope, kh) = None"
    and got: "acquire sql_repo svc kh opid now s = (s1, Inr lock)" and clean: "idem_faults s1 = []"
    and ticks: "ts \<noteq> []"
  shows "\<exists>r. sql_look (renew_loop sql_repo svc lock ts s1) (lock_scope, kh) = Some r \<and>
    ir_locked_until r = Some (last ts + ls_lease svc) \<and> ir_status r = status_processing"
proof -
  obtain r where r: "sql_inv s1" "sql_look s1 (lock_scope, kh) = Some r" "ir_id r = ol_record_id lock"
      "lock_entry svc now opid r" "ol_operation_id lock = opid"
    using sql.acquire_result [OF inv got] fresh by (auto simp: entry_owner_def)
  with clean_renewals [OF r(1) clean r(2,3) _ _ ticks] show ?thesis
    by (auto simp: lock_entry_def)
qed

text \<open>
  C31.  A lock that was acquired by reclaiming the record of another operation is never renewed, under any
  faults: reclaiming keeps the fingerprint of the previous operation, and renewal asks for its own.
  Once the lease has passed, another operation acquires the same record although the first one
  has not released it and its renewal has been ticking.
\<close>

theorem reclaimed_lock_lapses:
  assumes inv: "sql_inv s" and old: "sql_look s (lock_scope, kh) = Some r0" "ir_fingerprint r0 \<noteq> opid"
    and got: "acquire sql_repo svc kh opid now s = (s1, Inr lock)"
    and late: "now + ls_lease svc \<le> now2" and other: "opid2 \<noteq> []"
    and clean: "idem_faults (renew_loop sql_repo svc lock ts s1) = []"
  shows "sql_look (renew_loop sql_repo svc lock ts s1) = sql_look s1 \<and>
    snd (acquire sql_repo svc kh opid2 now2 (renew_loop sql_repo svc lock ts s1)) =
      Inr \<lparr>ol_record_id = ol_record_id lock, ol_operation_id = opid2\<rparr>"
proof -
  obtain r where r: "sql_inv s1" "sql_look s1 (lock_scope, kh) = Some r" "ir_id r = ol_record_id lock"
      "lock_entry svc now (ir_fingerprint r0) r" "ol_operation_id lock = opid"
    using sql.acquire_result [OF inv got] old by (auto simp: entry_owner_def)
  then have fp: "ir_fingerprint r \<noteq> ol_operation_id lock"
    using old by (simp add: lock_entry_def)
  note loop = sql.renew_loop_other [OF r(1,2,3) fp, of svc ts]
  have "lock_free now2 r" using r(4) late by (simp add: lock_entry_def lock_free_def)
  with clean_acquire [OF _ clean _ _ other, of kh r now2 svc] loop r show ?thesis by simp
qed

subsection \<open>The properties at work\<close>

definition demo_service :: lock_service where
  "demo_service = new_lock_service default_idem_config"

definition demo_db :: idem_db where
  "demo_db = \<lparr>idem_rows = [], idem_next_id = 1, idem_clock = 0, idem_faults = []\<rparr>"

abbreviation demo_acquire ::
  "string \<Rightarrow> time \<Rightarrow> idem_db \<Rightarrow> idem_db \<times> (go_error + op_lock)" where
  "demo_acquire \<equiv> acquire sql_repo demo_service ''hash''"

definition demo_released :: idem_db where
  "demo_released = fst (release sql_repo demo_service \<lparr>ol_record_id = 1, ol_operation_id = ''a''\<rparr> True
     [] second second (fst (demo_acquire ''a'' 0 demo_db)))"

lemma demo_db_inv: "sql_inv demo_db" "sql_inv demo_released"
  by code_simp+

lemma demo_locks:
  "demo_acquire ''a'' 0 demo_db =
     (fst (demo_acquire ''a'' 0 demo_db), Inr \<lparr>ol_record_id = 1, ol_operation_id = ''a''\<rparr>)"
  "demo_acquire ''b'' 5 demo_released =
     (fst (demo_acquire ''b'' 5 demo_released), Inr \<lparr>ol_record_id = 1, ol_operation_id = ''b''\<rparr>)"
  by (rule pair_of_snd, code_simp)+


theorem fresh_lock_renewed_witness:
  "\<exists>r. sql_look (renew_loop sql_repo demo_service \<lparr>ol_record_id = 1, ol_operation_id = ''a''\<rparr>
      [10 * second, 20 * second] (fst (demo_acquire ''a'' 0 demo_db))) (lock_scope, ''hash'') = Some r \<and>
    ir_locked_until r = Some (50 * second)"
proof -
  have fresh: "sql_look demo_db (lock_scope, ''hash'') = None"
    and clean: "idem_faults (fst (demo_acquire ''a'' 0 demo_db)) = []"
    and lease: "20 * second + ls_lease demo_service = 50 * second"
    by code_simp+
  show ?thesis
    using fresh_lock_renewed [OF demo_db_inv(1) fresh demo_locks(1) clean, of "[10 * second, 20 * second]"]
      lease by auto
qed

theorem reclaimed_lock_lapses_witness:
  "snd (demo_acquire ''c'' (31 * second)
     (renew_loop sql_repo demo_service \<lparr>ol_record_id = 1, ol_operation_id = ''b''\<rparr>
        [10 * second, 20 * second] (fst (demo_acquire ''b'' 5 demo_released)))) =
   Inr \<lparr>ol_record_id = 1, ol_operation_id = ''c''\<rparr>"
proof -
  obtain r0 where r0: "sql_look demo_released (lock_scope, ''hash'') = Some r0"
      "ir_fingerprint r0 \<noteq> ''b''"
  proof -
    have "case sql_look demo_released (lock_scope, ''hash'') of
        Some r0 \<Rightarrow> ir_fingerprint r0 = ''a'' | None \<Rightarrow> False"
      by code_simp
    then show thesis using that by (auto split: option.splits)
  qed
  have late: "5 + ls_lease demo_service \<le> 31 * second" and other: "''c'' \<noteq> ([] :: string)"
    and clean: "idem_faults (renew_loop sql_repo demo_service \<lparr>ol_record_id = 1, ol_operation_id = ''b''\<rparr>
      [10 * second, 20 * second] (fst (demo_acquire ''b'' 5 demo_released))) = []"
    by code_simp+
  show ?thesis
    using reclaimed_lock_lapses [OF demo_db_inv(2) r0 demo_locks(2) late other clean] by simp
qed

end
