(* ===== verification/Failover.thy ===== *)
theory Failover
  imports GoBase
begin

section \<open>Failover between upstream accounts\<close>

text \<open>
  \<open>handler/failover_loop.go\<close> (the state of one request's failover and its two decisions) and the
  account loop of \<open>handler/gateway_handler_chat_completions.go\<close> that drives it.

  The gateway service is a parameter: how an account is selected given the excluded ones, what
  forwarding a request to it gives, and the temporary ban of an account; \<open>'g\<close> is the state these
  act on.  A context is the current instant and the instant it is cancelled at, when it is; a sleep
  that ends exactly at the cancellation counts as cancelled.
\<close>

subsection \<open>State\<close>

record upstream_error =
  ue_status_code :: int
  ue_force_cache_billing :: bool
  ue_retryable_on_same_account :: bool

datatype failover_action = FailoverContinue | FailoverExhausted | FailoverCanceled

record failover_state =
  fs_switch_count :: int
  fs_max_switches :: int
  fs_failed_account_ids :: "int64 set"
  fs_same_account_retry_count :: "int64 \<Rightarrow> nat"
  fs_last_failover_err :: "upstream_error option"
  fs_force_cache_billing :: bool
  fs_has_bound_session :: bool

record ctx =
  cx_now :: time
  cx_cancel :: "time option"

abbreviation max_same_account_retries :: nat where
  "max_same_account_retries \<equiv> 3"
abbreviation same_account_retry_delay :: duration where
  "same_account_retry_delay \<equiv> 500 * millisecond"
abbreviation single_account_backoff_delay :: duration where
  "single_account_backoff_delay \<equiv> 2 * second"
abbreviation platform_antigravity :: string where
  "platform_antigravity \<equiv> ''antigravity''"
abbreviation platform_gemini :: string where
  "platform_gemini \<equiv> ''gemini''"

definition new_failover_state :: "int \<Rightarrow> bool \<Rightarrow> failover_state" where
  "new_failover_state max_switches bound =
     \<lparr>fs_switch_count = 0, fs_max_switches = max_switches, fs_failed_account_ids = {},
      fs_same_account_retry_count = (\<lambda>_. 0), fs_last_failover_err = None,
      fs_force_cache_billing = False, fs_has_bound_session = bound\<rparr>"

definition need_force_cache_billing :: "bool \<Rightarrow> upstream_error \<Rightarrow> bool" where
  "need_force_cache_billing bound e \<longleftrightarrow> bound \<or> ue_force_cache_billing e"

definition sleep_with_context :: "duration \<Rightarrow> ctx \<Rightarrow> ctx \<times> bool" where
  "sleep_with_context d cx =
     (if d \<le> 0 then (cx, True)
      else case cx_cancel cx of
        None \<Rightarrow> (cx\<lparr>cx_now := cx_now cx + d\<rparr>, True)
      | Some c \<Rightarrow>
          if c \<le> cx_now cx + d then (cx\<lparr>cx_now := max (cx_now cx) c\<rparr>, False)
          else (cx\<lparr>cx_now := cx_now cx + d\<rparr>, True))"

text \<open>What is threaded through the loop: the failover state, the context, the gateway.\<close>

type_synonym 'g loop_state = "failover_state \<times> ctx \<times> 'g"

subsection \<open>The two decisions\<close>

definition handle_failover_error ::
  "(int64 \<Rightarrow> upstream_error \<Rightarrow> 'g \<Rightarrow> 'g) \<Rightarrow> int64 \<Rightarrow> string \<Rightarrow> upstream_error \<Rightarrow>
   'g loop_state \<Rightarrow> 'g loop_state \<times> failover_action" where
  "handle_failover_error ban aid platform err = (\<lambda>(s, cx, g).
     let s = s\<lparr>fs_last_failover_err := Some err\<rparr>;
         s = (if need_force_cache_billing (fs_has_bound_session s) err
              then s\<lparr>fs_force_cache_billing := True\<rparr> else s);
         n = fs_same_account_retry_count s aid
     in if ue_retryable_on_same_account err \<and> n < max_same_account_retries then
          let s = s\<lparr>fs_same_account_retry_count := (fs_same_account_retry_count s)(aid := n + 1)\<rparr>;
              (cx, slept) = sleep_with_context same_account_retry_delay cx
          in ((s, cx, g), if slept then FailoverContinue else FailoverCanceled)
        else
          let g = (if ue_retryable_on_same_account err then ban aid err g else g);
              s = s\<lparr>fs_failed_account_ids := insert aid (fs_failed_account_ids s)\<rparr>
          in if fs_max_switches s \<le> fs_switch_count s then ((s, cx, g), FailoverExhausted)
             else
               let s = s\<lparr>fs_switch_count := fs_switch_count s + 1\<rparr> in
               if platform = platform_antigravity then
                 let (cx, slept) = sleep_with_context ((fs_switch_count s - 1) * second) cx
                 in ((s, cx, g), if slept then FailoverContinue else FailoverCanceled)
               else ((s, cx, g), FailoverContinue))"

definition handle_selection_exhausted :: "'g loop_state \<Rightarrow> 'g loop_state \<times> failover_action" where
  "handle_selection_exhausted = (\<lambda>(s, cx, g).
     if (case fs_last_failover_err s of None \<Rightarrow> False | Some e \<Rightarrow> ue_status_code e = 503) \<and>
        fs_switch_count s \<le> fs_max_switches s then
       let (cx, slept) = sleep_with_context single_account_backoff_delay cx in
       if slept then ((s\<lparr>fs_failed_account_ids := {}\<rparr>, cx, g), FailoverContinue)
       else ((s, cx, g), FailoverCanceled)
     else ((s, cx, g), FailoverExhausted))"

subsection \<open>The account loop\<close>

record account =
  ac_id :: int64
  ac_platform :: string

text \<open>
  What forwarding to an account gives: an upstream error that allows failover, with the note
  whether a part of the answer was already written, another error, or success.
\<close>

datatype forward_outcome =
    FailoverError upstream_error bool
  | ForwardError
  | Forwarded

datatype reply =
    NoAvailableAccounts
  | AllExhausted "upstream_error option"
  | RequestCanceled
  | SlotError
  | UpstreamFailed
  | Served

record 'g gateway =
  gw_select :: "'g \<Rightarrow> int64 set \<Rightarrow> 'g \<times> account option"
  gw_acquire_slot :: "'g \<Rightarrow> account \<Rightarrow> 'g \<times> bool"
  gw_forward :: "'g \<Rightarrow> account \<Rightarrow> 'g \<times> forward_outcome"
  gw_ban :: "int64 \<Rightarrow> upstream_error \<Rightarrow> 'g \<Rightarrow> 'g"

text \<open>One iteration: the next state, or the end of the request.\<close>

definition serve_step :: "'g gateway \<Rightarrow> string \<Rightarrow> 'g loop_state \<Rightarrow> 'g loop_state + reply" where
  "serve_step gw group_platform = (\<lambda>(s, cx, g).
     case gw_select gw g (fs_failed_account_ids s) of
       (g, None) \<Rightarrow>
         if fs_failed_account_ids s = {} then Inr NoAvailableAccounts
         else (case handle_selection_exhausted (s, cx, g) of
                 (st, FailoverContinue) \<Rightarrow> Inl st
               | (_, FailoverCanceled) \<Rightarrow> Inr RequestCanceled
               | ((s, _, _), FailoverExhausted) \<Rightarrow> Inr (AllExhausted (fs_last_failover_err s)))
     | (g, Some account) \<Rightarrow>
         let (g, slot) = gw_acquire_slot gw g account in
         if \<not> slot then Inr SlotError
         else if group_platform = platform_gemini \<and> ac_platform account \<noteq> platform_gemini then
           Inl (s\<lparr>fs_failed_account_ids := insert (ac_id account) (fs_failed_account_ids s)\<rparr>, cx, g)
         else (case gw_forward gw g account of
                 (g, Forwarded) \<Rightarrow> Inr Served
               | (g, ForwardError) \<Rightarrow> Inr UpstreamFailed
               | (g, FailoverError err written) \<Rightarrow>
                   if written then Inr (AllExhausted (Some err))
                   else (case handle_failover_error (gw_ban gw) (ac_id account) (ac_platform account)
                                err (s, cx, g) of
                           (st, FailoverContinue) \<Rightarrow> Inl st
                         | ((s, _, _), FailoverExhausted) \<Rightarrow> Inr (AllExhausted (fs_last_failover_err s))
                         | (_, FailoverCanceled) \<Rightarrow> Inr RequestCanceled)))"

text \<open>The loop, \<open>None\<close> when it has not ended after the given number of iterations.\<close>

fun serve :: "'g gateway \<Rightarrow> string \<Rightarrow> nat \<Rightarrow> 'g loop_state \<Rightarrow> reply option" where
  "serve gw p 0 st = None"
| "serve gw p (Suc n) st =
     (case serve_step gw p st of Inr r \<Rightarrow> Some r | Inl st \<Rightarrow> serve gw p n st)"

subsection \<open>What a decision changes\<close>

lemmas failover_defs = handle_failover_error_def handle_selection_exhausted_def Let_def

lemma handle_failover_error_cases:
  assumes "handle_failover_error ban aid platform err (s, cx, g) = ((s', cx', g'), act)"
  obtains (retry) "ue_retryable_on_same_account err" "fs_same_account_retry_count s aid < 3"
      "fs_same_account_retry_count s' = (fs_same_account_retry_count s)
         (aid := fs_same_account_retry_count s aid + 1)"
      "fs_switch_count s' = fs_switch_count s" "fs_max_switches s' = fs_max_switches s"
      "fs_failed_account_ids s' = fs_failed_account_ids s" "act \<noteq> FailoverExhausted" "g' = g"
      "fs_last_failover_err s' = Some err"
    | (switch) "fs_switch_count s < fs_max_switches s" "fs_switch_count s' = fs_switch_count s + 1"
      "fs_max_switches s' = fs_max_switches s"
      "fs_same_account_retry_count s' = fs_same_account_retry_count s"
      "fs_failed_account_ids s' = insert aid (fs_failed_account_ids s)" "act \<noteq> FailoverExhausted"
      "fs_last_failover_err s' = Some err"
      "\<not> (ue_retryable_on_same_account err \<and> fs_same_account_retry_count s aid < 3)"
    | (exhausted) "fs_max_switches s \<le> fs_switch_count s" "act = FailoverExhausted"
      "\<not> (ue_retryable_on_same_account err \<and> fs_same_account_retry_count s aid < 3)"
      "fs_switch_count s' = fs_switch_count s" "fs_max_switches s' = fs_max_switches s"
      "fs_same_account_retry_count s' = fs_same_account_retry_count s"
      "fs_failed_account_ids s' = insert aid (fs_failed_account_ids s)"
      "fs_last_failover_err s' = Some err"
  using assms
  by (auto simp: failover_defs split: prod.splits if_splits)

lemma failover_not_canceled:
  "cx_cancel cx = None \<Longrightarrow>
   snd (handle_failover_error ban aid platform err (s, cx, g)) \<noteq> FailoverCanceled"
  by (simp add: failover_defs sleep_with_context_def)

lemma handle_selection_exhausted_cases:
  assumes "handle_selection_exhausted (s, cx, g) = ((s', cx', g'), act)"
  obtains (again) "act = FailoverContinue" "s' = s\<lparr>fs_failed_account_ids := {}\<rparr>" "g' = g"
      "\<exists>e. fs_last_failover_err s = Some e \<and> ue_status_code e = 503"
    | (stop) "act \<noteq> FailoverContinue" "s' = s" "g' = g"
  using assms
  by (auto simp: failover_defs split: prod.splits if_splits option.splits)

subsection \<open>Termination\<close>

lemma serve_step_cases:
  assumes "serve_step gw p (s, cx, g) = Inl (s', cx', g')"
  obtains (cleared) "fs_failed_account_ids s \<noteq> {}" "s' = s\<lparr>fs_failed_account_ids := {}\<rparr>"
    | (skipped) a g1 where "p = platform_gemini" "gw_select gw g (fs_failed_account_ids s) = (g1, Some a)"
      "s' = s\<lparr>fs_failed_account_ids := insert (ac_id a) (fs_failed_account_ids s)\<rparr>"
    | (failed) a g1 g3 err where "gw_select gw g (fs_failed_account_ids s) = (g1, Some a)"
      "handle_failover_error (gw_ban gw) (ac_id a) (ac_platform a) err (s, cx, g3) =
         ((s', cx', g'), FailoverContinue)"
proof (cases "gw_select gw g (fs_failed_account_ids s)")
  case (Pair g1 sel)
  show thesis
  proof (cases sel)
    case None
    then obtain st where st: "handle_selection_exhausted (s, cx, g1) = (st, FailoverContinue)"
        "st = (s', cx', g')" "fs_failed_account_ids s \<noteq> {}"
      using assms Pair
      by (auto simp: serve_step_def split: if_splits prod.splits failover_action.splits)
    with cleared show thesis
      by (auto elim: handle_selection_exhausted_cases)
  next
    case (Some a)
    obtain g2 slot where slot: "gw_acquire_slot gw g1 a = (g2, slot)" by fastforce
    show thesis
    proof (cases "p = platform_gemini \<and> ac_platform a \<noteq> platform_gemini")
      case True
      with assms Pair Some slot skipped show thesis
        by (auto simp: serve_step_def split: if_splits)
    next
      case False
      obtain g3 out where f: "gw_forward gw g2 a = (g3, out)" by fastforce
      from False assms Pair Some slot f obtain err where "out = FailoverError err False"
        by (auto simp: serve_step_def split: if_splits forward_outcome.splits)
      with False assms Pair Some slot f
      have "handle_failover_error (gw_ban gw) (ac_id a) (ac_platform a) err (s, cx, g3) =
          ((s', cx', g'), FailoverContinue)"
        by (auto simp: serve_step_def split: if_splits prod.splits failover_action.splits)
      with failed Pair Some show thesis by blast
    qed
  qed
qed

definition loop_measure :: "int64 set \<Rightarrow> failover_state \<Rightarrow> nat" where
  "loop_measure A s =
     2 * (\<Sum>a \<in> A. 3 - fs_same_account_retry_count s a) +
     2 * nat (fs_max_switches s - fs_switch_count s) +
     (if fs_failed_account_ids s = {} then 0 else 1)"

lemma retries_left_decrease:
  fixes c :: "int64 \<Rightarrow> nat"
  assumes "finite A" and "a \<in> A" and "c a < 3"
  shows "(\<Sum>x \<in> A. 3 - (c(a := c a + 1)) x) < (\<Sum>x \<in> A. 3 - c x)"
  by (rule sum_strict_mono_ex1) (use assms in auto)

lemma serve_step_decreases:
  assumes fin: "finite A" and p: "p \<noteq> platform_gemini"
    and sel: "\<And>g F g' a. gw_select gw g F = (g', Some a) \<Longrightarrow> ac_id a \<in> A"
    and eq: "serve_step gw p (s, cx, g) = Inl (s', cx', g')"
  shows "loop_measure A s' < loop_measure A s"
  using eq
proof (cases rule: serve_step_cases)
  case cleared
  then show ?thesis by (simp add: loop_measure_def)
next
  case (skipped a g1)
  with p show ?thesis by simp
next
  case (failed a g1 g3 err)
  from failed(2) show ?thesis
  proof (cases rule: handle_failover_error_cases)
    case retry
    with retries_left_decrease [OF fin sel [OF failed(1)], of "fs_same_account_retry_count s"]
    show ?thesis by (simp add: loop_measure_def)
  next
    case switch
    then show ?thesis by (auto simp: loop_measure_def)
  qed simp
qed

lemma serve_ends:
  assumes fin: "finite A" and p: "p \<noteq> platform_gemini"
    and sel: "\<And>g F g' a. gw_select gw g F = (g', Some a) \<Longrightarrow> ac_id a \<in> A"
  shows "loop_measure A s < n \<Longrightarrow> \<exists>r. serve gw p n (s, cx, g) = Some r"
proof (induction n arbitrary: s cx g)
  case (Suc n)
  show ?case
  proof (cases "serve_step gw p (s, cx, g)")
    case (Inr r)
    then show ?thesis by simp
  next
    case (Inl st)
    obtain s' cx' g' where st: "st = (s', cx', g')" by (cases st)
    have "loop_measure A s' < loop_measure A s"
      using serve_step_decreases [OF fin p sel Inl [unfolded st]] by simp
    with Suc Inl st show ?thesis by simp
  qed
qed simp

text \<open>
  C28.  The account loop ends: when the selection only returns accounts of a finite set, a group that is
  not a Gemini group is answered after at most six iterations per account and two per allowed
  switch, whatever the accounts answer and even if the context is never cancelled.
\<close>

theorem serve_terminates:
  assumes "finite A" and "p \<noteq> platform_gemini"
    and "\<And>g F g' a. gw_select gw g F = (g', Some a) \<Longrightarrow> ac_id a \<in> A"
  shows "\<exists>r. serve gw p (6 * card A + 2 * nat max_switches + 1)
      (new_failover_state max_switches bound, cx, g) = Some r"
  by (rule serve_ends [OF assms(1,2)], erule assms(3))
    (simp add: loop_measure_def new_failover_state_def)

text \<open>
  In a Gemini group the loop can go on for ever: when the only selectable account is of another
  platform and the last upstream error was a 503, the account is excluded without counting a
  switch, the exhausted selection clears the exclusions, and the loop never answers.
\<close>

theorem gemini_group_never_ends:
  assumes sel: "\<And>F. gw_select gw g F = (g, if ac_id b \<in> F then None else Some b)"
    and slot: "gw_acquire_slot gw g b = (g, True)" and b: "ac_platform b \<noteq> platform_gemini"
    and st: "fs_last_failover_err s = Some e" "ue_status_code e = 503"
      "fs_switch_count s \<le> fs_max_switches s" "cx_cancel cx = None"
  shows "serve gw platform_gemini n (s, cx, g) = None"
  using st
proof (induction n arbitrary: s cx)
  case (Suc n)
  show ?case
  proof (cases "ac_id b \<in> fs_failed_account_ids s")
    case True
    then have "serve_step gw platform_gemini (s, cx, g) =
        Inl (s\<lparr>fs_failed_account_ids := {}\<rparr>, cx\<lparr>cx_now := cx_now cx + single_account_backoff_delay\<rparr>, g)"
      using Suc.prems by (auto simp: serve_step_def sel handle_selection_exhausted_def sleep_with_context_def)
    with Suc show ?thesis by simp
  next
    case False
    then have "serve_step gw platform_gemini (s, cx, g) =
        Inl (s\<lparr>fs_failed_account_ids := insert (ac_id b) (fs_failed_account_ids s)\<rparr>, cx, g)"
      using b by (simp add: serve_step_def sel slot)
    with Suc show ?thesis by simp
  qed
qed simp

definition retry_inv :: "failover_state \<Rightarrow> bool" where
  "retry_inv s \<longleftrightarrow> (\<forall>a. fs_same_account_retry_count s a \<le> 3) \<and>
     (fs_switch_count s = 0 \<or> fs_switch_count s \<le> fs_max_switches s) \<and> 0 \<le> fs_switch_count s"

text \<open>
  The decision on an upstream error: an account is retried while the error allows it and at most
  three times, then it is excluded and, when switches are left, exactly one is used up; the request
  is exhausted only when none is left, and cancelled only when its context is.  The bounds on
  retries and switches are kept.
\<close>

theorem failover_decision:
  assumes inv: "retry_inv s"
    and eq: "handle_failover_error ban aid platform err (s, cx, g) = ((s', cx', g'), act)"
  shows "retry_inv s' \<and> fs_last_failover_err s' = Some err \<and>
    (cx_cancel cx = None \<longrightarrow> act \<noteq> FailoverCanceled) \<and>
    (if ue_retryable_on_same_account err \<and> fs_same_account_retry_count s aid < 3 then
       act \<noteq> FailoverExhausted \<and> g' = g \<and>
       fs_same_account_retry_count s' aid = fs_same_account_retry_count s aid + 1 \<and>
       fs_failed_account_ids s' = fs_failed_account_ids s \<and> fs_switch_count s' = fs_switch_count s
     else
       fs_failed_account_ids s' = insert aid (fs_failed_account_ids s) \<and>
       (act = FailoverExhausted \<longleftrightarrow> fs_max_switches s \<le> fs_switch_count s) \<and>
       fs_switch_count s' = (if act = FailoverExhausted then fs_switch_count s else fs_switch_count s + 1))"
proof -
  have nc: "cx_cancel cx = None \<longrightarrow> act \<noteq> FailoverCanceled"
    using failover_not_canceled [of cx ban aid platform err s g] eq by auto
  from eq show ?thesis
    by (cases rule: handle_failover_error_cases) (use nc inv in \<open>auto simp: retry_inv_def\<close>)
qed


subsection \<open>The properties at work\<close>

definition demo_error :: "bool \<Rightarrow> int \<Rightarrow> upstream_error" where
  "demo_error retryable code =
     \<lparr>ue_status_code = code, ue_force_cache_billing = False, ue_retryable_on_same_account = retryable\<rparr>"

text \<open>One account that always fails, and one account of another platform.\<close>

definition failing_gateway :: "unit gateway" where
  "failing_gateway =
     \<lparr>gw_select = (\<lambda>g F. (g, if 7 \<in> F then None else Some \<lparr>ac_id = 7, ac_platform = ''antigravity''\<rparr>)),
      gw_acquire_slot = (\<lambda>g a. (g, True)),
      gw_forward = (\<lambda>g a. (g, FailoverError (demo_error True 503) False)),
      gw_ban = (\<lambda>a e g. g)\<rparr>"

definition demo_ctx :: ctx where
  "demo_ctx = \<lparr>cx_now = 0, cx_cancel = None\<rparr>"

theorem failover_decision_witness:
  "fs_failed_account_ids (fst (fst (handle_failover_error (\<lambda>a e g. g) 7 ''openai'' (demo_error False 500)
     (new_failover_state 2 False, demo_ctx, ())))) = {7}"
proof -
  have inv: "retry_inv (new_failover_state 2 False)"
    by (simp add: retry_inv_def new_failover_state_def)
  obtain s' cx' g' act where eq: "handle_failover_error (\<lambda>a e g. g) 7 ''openai'' (demo_error False 500)
     (new_failover_state 2 False, demo_ctx, ()) = ((s', cx', g'), act)"
    by (metis prod.collapse)
  show ?thesis
    using failover_decision [OF inv eq] eq by (simp add: demo_error_def new_failover_state_def)
qed

theorem serve_terminates_witness:
  "\<exists>r. serve failing_gateway ''antigravity'' (6 * card {7 :: int64} + 2 * nat 3 + 1)
     (new_failover_state 3 False, demo_ctx, ()) = Some r"
  by (rule serve_terminates) (auto simp: failing_gateway_def split: if_splits)

theorem gemini_group_never_ends_witness:
  "\<forall>n. serve failing_gateway platform_gemini n
     ((new_failover_state 3 False)\<lparr>fs_last_failover_err := Some (demo_error False 503)\<rparr>, demo_ctx, ()) = None"
  by (rule allI, rule gemini_group_never_ends [where b = "\<lparr>ac_id = 7, ac_platform = ''antigravity''\<rparr>"
        and e = "demo_error False 503"])
    (simp_all add: failing_gateway_def demo_error_def demo_ctx_def new_failover_state_def)

end
