(* ===== verification/Stateful.thy ===== *)
theory Stateful
  imports AppError "HOL-Library.State_Monad"
begin

section \<open>Stateful code\<close>

text \<open>
  The services that make many calls on one store are written in the state monad of the library, a
  result being a sum with the error on the left.  \<open>tryM\<close> is the Go idiom
  \<open>if err != nil { return wrap(err) }\<close>.

  Two judgements carry their proofs.  \<open>steps P m\<close>, the library's \<open>state_io_rel\<close> for a preorder \<open>P\<close>:
  every run of \<open>m\<close> relates the state before to the state after.  \<open>hoare I m Q\<close>: from a state of \<open>I\<close> the result and the state
  after satisfy \<open>Q\<close>.  Both come with one rule per construct, collected in \<open>steps_rules\<close> and
  \<open>hoare_rules\<close>, so that the proof about a service is the application of its statements' lemmas.
\<close>

type_synonym ('s, 'a) fallible = "('s, go_error + 'a) state"

definition tryM ::
  "(go_error \<Rightarrow> go_error) \<Rightarrow> ('s, 'a) fallible \<Rightarrow> ('a \<Rightarrow> ('s, 'b) fallible) \<Rightarrow> ('s, 'b) fallible" where
  "tryM wrap m k =
     do { r \<leftarrow> m; case r of Inl e \<Rightarrow> State_Monad.return (Inl (wrap e)) | Inr a \<Rightarrow> k a }"

abbreviation okM :: "'a \<Rightarrow> ('s, 'a) fallible" where
  "okM a \<equiv> State_Monad.return (Inr a)"

abbreviation failM :: "go_error \<Rightarrow> ('s, 'a) fallible" where
  "failM e \<equiv> State_Monad.return (Inl e)"

fun each :: "('a \<Rightarrow> ('s, 'b) state) \<Rightarrow> 'a list \<Rightarrow> ('s, unit) state" where
  "each f [] = State_Monad.return ()"
| "each f (x # xs) = do { _ \<leftarrow> f x; each f xs }"

lemma run_tryM: "run_state (tryM w m k) s =
    (case run_state m s of (Inl e, s') \<Rightarrow> (Inl (w e), s') | (Inr a, s') \<Rightarrow> run_state (k a) s')"
  by (simp add: tryM_def split: prod.splits sum.splits)

subsection \<open>Relations between the state before and after\<close>

named_theorems steps_rules

abbreviation steps :: "('s \<Rightarrow> 's \<Rightarrow> bool) \<Rightarrow> ('s, 'a) state \<Rightarrow> bool" where
  "steps \<equiv> state_io_rel"

lemmas steps_def = state_io_rel_def

definition preorder_rel :: "('s \<Rightarrow> 's \<Rightarrow> bool) \<Rightarrow> bool" where
  "preorder_rel P \<longleftrightarrow> (\<forall>s. P s s) \<and> (\<forall>s t u. P s t \<longrightarrow> P t u \<longrightarrow> P s u)"

lemma steps_return [steps_rules]: "preorder_rel P \<Longrightarrow> steps P (State_Monad.return a)"
  by (simp add: steps_def preorder_rel_def)

lemma steps_bind [steps_rules]:
  "preorder_rel P \<Longrightarrow> steps P m \<Longrightarrow> (\<And>a. steps P (k a)) \<Longrightarrow> steps P (State_Monad.bind m k)"
  unfolding steps_def preorder_rel_def by (simp add: split_def) blast

lemma steps_tryM [steps_rules]:
  "preorder_rel P \<Longrightarrow> steps P m \<Longrightarrow> (\<And>a. steps P (k a)) \<Longrightarrow> steps P (tryM w m k)"
  unfolding tryM_def by (intro steps_bind) (auto split: sum.split intro: steps_return)

lemma steps_if [steps_rules]: "(b \<Longrightarrow> steps P m) \<Longrightarrow> (\<not> b \<Longrightarrow> steps P n) \<Longrightarrow> steps P (if b then m else n)"
  by simp

lemma steps_option [steps_rules]:
  "(x = None \<Longrightarrow> steps P m) \<Longrightarrow> (\<And>a. x = Some a \<Longrightarrow> steps P (f a)) \<Longrightarrow>
   steps P (case x of None \<Rightarrow> m | Some a \<Rightarrow> f a)"
  by (cases x) simp_all

lemma steps_sum [steps_rules]:
  "(\<And>e. x = Inl e \<Longrightarrow> steps P (f e)) \<Longrightarrow> (\<And>a. x = Inr a \<Longrightarrow> steps P (g a)) \<Longrightarrow>
   steps P (case x of Inl e \<Rightarrow> f e | Inr a \<Rightarrow> g a)"
  by (cases x) simp_all

lemma steps_prod [steps_rules]:
  "(\<And>a b. x = (a, b) \<Longrightarrow> steps P (f a b)) \<Longrightarrow> steps P (case x of (a, b) \<Rightarrow> f a b)"
  by (cases x) simp_all

lemma steps_Let [steps_rules]: "steps P (f x) \<Longrightarrow> steps P (let y = x in f y)"
  by simp

lemma steps_each [steps_rules]: "preorder_rel P \<Longrightarrow> (\<And>x. steps P (f x)) \<Longrightarrow> steps P (each f xs)"
  by (induction xs) (simp_all add: steps_return steps_bind)

lemma stepsD: "steps P m \<Longrightarrow> run_state m s = (a, s') \<Longrightarrow> P s s'"
  by (rule state_io_relD)

subsection \<open>Triples\<close>

named_theorems hoare_rules

definition hoare :: "('s \<Rightarrow> bool) \<Rightarrow> ('s, 'a) state \<Rightarrow> ('a \<Rightarrow> 's \<Rightarrow> bool) \<Rightarrow> bool" where
  "hoare I m Q \<longleftrightarrow> (\<forall>s. I s \<longrightarrow> (case run_state m s of (a, s') \<Rightarrow> Q a s'))"

lemma hoareI: "(\<And>s a s'. I s \<Longrightarrow> run_state m s = (a, s') \<Longrightarrow> Q a s') \<Longrightarrow> hoare I m Q"
  by (auto simp: hoare_def)

lemma hoareD: "hoare I m Q \<Longrightarrow> I s \<Longrightarrow> run_state m s = (a, s') \<Longrightarrow> Q a s'"
  by (fastforce simp: hoare_def)

lemma hoare_return [hoare_rules]: "(\<And>s. I s \<Longrightarrow> Q a s) \<Longrightarrow> hoare I (State_Monad.return a) Q"
  by (simp add: hoare_def)

lemma hoare_bind:
  "hoare I m R \<Longrightarrow> (\<And>a. hoare (R a) (k a) Q) \<Longrightarrow> hoare I (State_Monad.bind m k) Q"
  by (simp add: hoare_def split_def)

lemma hoare_tryM:
  "hoare I m (\<lambda>r s. case r of Inl e \<Rightarrow> Q (Inl (w e)) s | Inr a \<Rightarrow> R a s) \<Longrightarrow>
   (\<And>a. hoare (R a) (k a) Q) \<Longrightarrow> hoare I (tryM w m k) Q"
  unfolding tryM_def
  by (rule hoare_bind [where R = "\<lambda>r s. case r of Inl e \<Rightarrow> Q (Inl (w e)) s | Inr a \<Rightarrow> R a s"])
    (auto split: sum.split intro: hoare_return)

lemma hoare_if [hoare_rules]:
  "(b \<Longrightarrow> hoare I m Q) \<Longrightarrow> (\<not> b \<Longrightarrow> hoare I n Q) \<Longrightarrow> hoare I (if b then m else n) Q"
  by simp

lemma hoare_option [hoare_rules]:
  "(x = None \<Longrightarrow> hoare I m Q) \<Longrightarrow> (\<And>a. x = Some a \<Longrightarrow> hoare I (f a) Q) \<Longrightarrow>
   hoare I (case x of None \<Rightarrow> m | Some a \<Rightarrow> f a) Q"
  by (cases x) simp_all

lemma hoare_sum [hoare_rules]:
  "(\<And>e. x = Inl e \<Longrightarrow> hoare I (f e) Q) \<Longrightarrow> (\<And>a. x = Inr a \<Longrightarrow> hoare I (g a) Q) \<Longrightarrow>
   hoare I (case x of Inl e \<Rightarrow> f e | Inr a \<Rightarrow> g a) Q"
  by (cases x) simp_all

lemma hoare_conseq: "hoare J m R \<Longrightarrow> (\<And>s. I s \<Longrightarrow> J s) \<Longrightarrow> (\<And>a s. R a s \<Longrightarrow> Q a s) \<Longrightarrow> hoare I m Q"
  by (fastforce simp: hoare_def)

lemma hoare_conj: "hoare I m Q \<Longrightarrow> hoare I m R \<Longrightarrow> hoare I m (\<lambda>a s. Q a s \<and> R a s)"
  by (auto simp: hoare_def)

text \<open>A relation that preserves a predicate gives a triple.\<close>

lemma steps_hoare: "steps P m \<Longrightarrow> (\<And>s t. P s t \<Longrightarrow> I s \<Longrightarrow> J t) \<Longrightarrow> hoare I m (\<lambda>_. J)"
  unfolding hoare_def steps_def by (simp add: split_def) blast

end
