(* ===== verification/Store.thy ===== *)
theory Store
  imports Stateful
begin

section \<open>A shared store: statements, faults, interference, transactions\<close>

text \<open>
  The payment services share one database.  A handler is a sequence of statements on its tables
  (of type \<open>'t\<close>), written in the state monad over \<open>'t store\<close>.  What the handler does not control
  is the list \<open>st_world\<close>, from which each statement takes one event: what the other handlers did to
  the tables since the last statement (a function on the tables), and whether the statement fails,
  before reaching the database (\<open>Refused\<close>) or after taking effect (\<open>LostReply\<close>).  A process that
  dies is a handler all of whose later statements are refused.  When the list is used up the
  handler runs alone and nothing fails.

  A transaction keeps the tables as a rollback restores them in \<open>st_base\<close>.  Other handlers do not
  interfere inside one: the ones of this program update a row before they read what depends on it.
  A statement that does not take the transaction of its context from it runs on another connection
  of the pool and is not undone by a rollback (\<open>auto_stmt\<close>, \<open>auto_tx\<close>).

  The judgement \<open>rg R P m Q\<close> is a rely-guarantee triple: if the others change the tables only along
  \<open>R\<close> and \<open>P\<close> holds, then every step of \<open>m\<close> is along \<open>R\<close> as well and its result satisfies \<open>Q\<close>.
\<close>

record 't store =
  st_tabs :: 't
  st_base :: "'t option"
  st_world :: "(('t \<Rightarrow> 't) \<times> fault option) list"

definition fault_error :: "fault option \<Rightarrow> go_error" where
  "fault_error f = (case f of Some (Refused e) \<Rightarrow> Plain e | Some (LostReply e) \<Rightarrow> Plain e | None \<Rightarrow> Plain [])"

definition tick :: "('t store, fault option) state" where
  "tick = State (\<lambda>s. case st_world s of
     [] \<Rightarrow> (None, s)
   | e # w \<Rightarrow> (snd e, s\<lparr>st_world := w,
       st_tabs := (if st_base s = None then fst e (st_tabs s) else st_tabs s)\<rparr>))"

definition effect :: "('t \<Rightarrow> (go_error + 'a) \<times> 't) \<Rightarrow> ('t store, 'a) fallible" where
  "effect f = State (\<lambda>s. case f (st_tabs s) of (r, t) \<Rightarrow> (r, s\<lparr>st_tabs := t\<rparr>))"

definition auto_effect :: "('t \<Rightarrow> (go_error + 'a) \<times> 't) \<Rightarrow> ('t store, 'a) fallible" where
  "auto_effect f = State (\<lambda>s. case f (st_tabs s) of (r, t) \<Rightarrow>
     (r, s\<lparr>st_tabs := t, st_base := map_option (\<lambda>b. snd (f b)) (st_base s)\<rparr>))"

definition under_fault :: "('t store, 'a) fallible \<Rightarrow> ('t store, 'a) fallible" where
  "under_fault m = do { f \<leftarrow> tick;
     case f of
       None \<Rightarrow> m
     | Some (Refused e) \<Rightarrow> failM (Plain e)
     | Some (LostReply e) \<Rightarrow> do { _ \<leftarrow> m; failM (Plain e) } }"

definition stmt :: "('t \<Rightarrow> (go_error + 'a) \<times> 't) \<Rightarrow> ('t store, 'a) fallible" where
  "stmt f = under_fault (effect f)"

definition auto_stmt :: "('t \<Rightarrow> (go_error + 'a) \<times> 't) \<Rightarrow> ('t store, 'a) fallible" where
  "auto_stmt f = under_fault (auto_effect f)"

definition peek :: "('t \<Rightarrow> 'a) \<Rightarrow> ('t store, 'a) state" where
  "peek f = State (\<lambda>s. (f (st_tabs s), s))"

definition restore :: "'t store \<Rightarrow> ('t store, unit) state" where
  "restore s0 = State (\<lambda>s. ((), s\<lparr>st_tabs := st_tabs s0, st_base := st_base s0\<rparr>))"

definition tx_begin :: "('t store, 't store) state" where
  "tx_begin = State (\<lambda>s. (s, s\<lparr>st_base := Some (st_tabs s)\<rparr>))"

definition tx_rollback :: "('t store, unit) state" where
  "tx_rollback = State (\<lambda>s. ((), s\<lparr>st_tabs := the (st_base s), st_base := None\<rparr>))"

definition tx_commit :: "('t store, unit) state" where
  "tx_commit = State (\<lambda>s. ((), s\<lparr>st_base := None\<rparr>))"

text \<open>A transaction: begin, the body, a rollback if it fails, else a commit.\<close>

definition in_tx :: "(go_error \<Rightarrow> go_error) \<Rightarrow> (go_error \<Rightarrow> go_error) \<Rightarrow>
    ('t store, 'a) fallible \<Rightarrow> ('t store, 'a) fallible" where
  "in_tx wrap_begin wrap_commit body = do { f \<leftarrow> tick;
     if f \<noteq> None then failM (wrap_begin (fault_error f))
     else do { _ \<leftarrow> tx_begin; r \<leftarrow> body;
       case r of
         Inl e \<Rightarrow> do { _ \<leftarrow> tx_rollback; failM e }
       | Inr a \<Rightarrow> do { f \<leftarrow> tick;
           case f of
             None \<Rightarrow> do { _ \<leftarrow> tx_commit; okM a }
           | Some (Refused e) \<Rightarrow> do { _ \<leftarrow> tx_rollback; failM (wrap_commit (Plain e)) }
           | Some (LostReply e) \<Rightarrow> do { _ \<leftarrow> tx_commit; failM (wrap_commit (Plain e)) } } } }"

text \<open>A transaction on a connection of its own, possibly while another one is open.\<close>

definition opened :: "'t store \<Rightarrow> 't store" where
  "opened s = s\<lparr>st_base := Some (case st_base s of None \<Rightarrow> st_tabs s | Some b \<Rightarrow> b)\<rparr>"

definition auto_begin :: "('t store, 't store) state" where
  "auto_begin = State (\<lambda>s. (s, opened s))"

definition auto_commit :: "'t store \<Rightarrow> ('t store, unit) state" where
  "auto_commit s0 = State (\<lambda>s. ((), s\<lparr>st_base := (if st_base s0 = None then None else st_base s)\<rparr>))"

definition auto_tx :: "(go_error \<Rightarrow> go_error) \<Rightarrow> (go_error \<Rightarrow> go_error) \<Rightarrow>
    ('t store, 'a) fallible \<Rightarrow> ('t store, 'a) fallible" where
  "auto_tx wrap_begin wrap_commit body = do { f \<leftarrow> tick;
     if f \<noteq> None then failM (wrap_begin (fault_error f))
     else do { s0 \<leftarrow> auto_begin; r \<leftarrow> body;
       case r of
         Inl e \<Rightarrow> do { _ \<leftarrow> restore s0; failM e }
       | Inr a \<Rightarrow> do { f \<leftarrow> tick;
           case f of
             None \<Rightarrow> do { _ \<leftarrow> auto_commit s0; okM a }
           | Some (Refused e) \<Rightarrow> do { _ \<leftarrow> restore s0; failM (wrap_commit (Plain e)) }
           | Some (LostReply e) \<Rightarrow> do { _ \<leftarrow> auto_commit s0; failM (wrap_commit (Plain e)) } } } }"

subsection \<open>Rely-guarantee triples\<close>

definition calm :: "('t \<Rightarrow> 't \<Rightarrow> bool) \<Rightarrow> 't store \<Rightarrow> bool" where
  "calm R s \<longleftrightarrow> st_base s = None \<and> (\<forall>e \<in> set (st_world s). \<forall>t. R t (fst e t))"

definition stable :: "('t \<Rightarrow> 't \<Rightarrow> bool) \<Rightarrow> ('t \<Rightarrow> bool) \<Rightarrow> bool" where
  "stable R P \<longleftrightarrow> (\<forall>t t'. R t t' \<longrightarrow> P t \<longrightarrow> P t')"

definition rg :: "('t \<Rightarrow> 't \<Rightarrow> bool) \<Rightarrow> ('t \<Rightarrow> bool) \<Rightarrow> ('t store, 'a) state \<Rightarrow>
    ('a \<Rightarrow> 't \<Rightarrow> bool) \<Rightarrow> bool" where
  "rg R P m Q \<longleftrightarrow> (\<forall>s. calm R s \<longrightarrow> P (st_tabs s) \<longrightarrow> (case run_state m s of (a, s') \<Rightarrow>
     calm R s' \<and> R (st_tabs s) (st_tabs s') \<and> Q a (st_tabs s')))"

text \<open>Inside a transaction: a triple over the tables it sees and those a rollback restores.\<close>

definition txr :: "('t \<Rightarrow> 't \<Rightarrow> bool) \<Rightarrow> ('t store, 'a) state \<Rightarrow> ('a \<Rightarrow> 't \<Rightarrow> 't \<Rightarrow> bool) \<Rightarrow> bool" where
  "txr P m Q \<longleftrightarrow> (\<forall>s b. st_base s = Some b \<longrightarrow> P (st_tabs s) b \<longrightarrow> (case run_state m s of (a, s') \<Rightarrow>
     (\<exists>b'. st_base s' = Some b' \<and> set (st_world s') \<subseteq> set (st_world s) \<and> Q a (st_tabs s') b')))"

named_theorems rg_rules
named_theorems tx_rules

lemma stable_const [simp]: "stable R (\<lambda>_. b)"
  by (simp add: stable_def)

lemma stable_conj: "stable R P \<Longrightarrow> stable R Q \<Longrightarrow> stable R (\<lambda>t. P t \<and> Q t)"
  unfolding stable_def by blast

lemma rgD: "rg R P m Q \<Longrightarrow> calm R s \<Longrightarrow> P (st_tabs s) \<Longrightarrow> run_state m s = (a, s') \<Longrightarrow>
    calm R s' \<and> R (st_tabs s) (st_tabs s') \<and> Q a (st_tabs s')"
  by (fastforce simp: rg_def)

lemma rgI: "(\<And>s a s'. calm R s \<Longrightarrow> P (st_tabs s) \<Longrightarrow> run_state m s = (a, s') \<Longrightarrow>
    calm R s' \<and> R (st_tabs s) (st_tabs s') \<and> Q a (st_tabs s')) \<Longrightarrow> rg R P m Q"
  by (auto simp: rg_def)

lemma rg_conseq: "rg R P m Q \<Longrightarrow> (\<And>t. P' t \<Longrightarrow> P t) \<Longrightarrow> (\<And>a t. Q a t \<Longrightarrow> Q' a t) \<Longrightarrow> rg R P' m Q'"
  by (fastforce simp: rg_def)

lemma rg_frame: "stable R F \<Longrightarrow> rg R P m Q \<Longrightarrow> rg R (\<lambda>t. P t \<and> F t) m (\<lambda>a t. Q a t \<and> F t)"
  by (fastforce simp: rg_def stable_def)

lemma rg_conj: "rg R P m Q \<Longrightarrow> rg R P m Q' \<Longrightarrow> rg R P m (\<lambda>a t. Q a t \<and> Q' a t)"
  by (fastforce simp: rg_def)

lemma rg_pre: "(\<And>t. P t \<Longrightarrow> b) \<Longrightarrow> (b \<Longrightarrow> rg R P m Q) \<Longrightarrow> rg R P m Q"
  by (auto simp: rg_def)

lemma txrD: "txr P m Q \<Longrightarrow> st_base s = Some b \<Longrightarrow> P (st_tabs s) b \<Longrightarrow> run_state m s = (a, s') \<Longrightarrow>
    \<exists>b'. st_base s' = Some b' \<and> set (st_world s') \<subseteq> set (st_world s) \<and> Q a (st_tabs s') b'"
  by (fastforce simp: txr_def)

lemma txr_conseq: "txr P m Q \<Longrightarrow> (\<And>t b. P' t b \<Longrightarrow> P t b) \<Longrightarrow> (\<And>a t b. Q a t b \<Longrightarrow> Q' a t b) \<Longrightarrow> txr P' m Q'"
  by (fastforce simp: txr_def)

subsection \<open>The rules of the constructs\<close>

lemma run_stmt: "run_state (stmt f) s = (case run_state tick s of (flt, s1) \<Rightarrow>
    (case flt of
       None \<Rightarrow> (fst (f (st_tabs s1)), s1\<lparr>st_tabs := snd (f (st_tabs s1))\<rparr>)
     | Some (Refused e) \<Rightarrow> (Inl (Plain e), s1)
     | Some (LostReply e) \<Rightarrow> (Inl (Plain e), s1\<lparr>st_tabs := snd (f (st_tabs s1))\<rparr>)))"
  by (simp add: stmt_def under_fault_def effect_def split_def split: option.splits fault.splits)

lemma run_tick: "run_state tick s = (flt, s') \<Longrightarrow>
    st_base s' = st_base s \<and> set (st_world s') \<subseteq> set (st_world s) \<and>
    (st_tabs s' = st_tabs s \<or>
      (st_base s = None \<and> (\<exists>e \<in> set (st_world s). st_tabs s' = fst e (st_tabs s))))"
  by (auto simp: tick_def split: list.splits if_splits)

lemma calm_shrink: "calm R s \<Longrightarrow> set (st_world s') \<subseteq> set (st_world s) \<Longrightarrow> st_base s' = None \<Longrightarrow> calm R s'"
  by (auto simp: calm_def)

lemma calm_update [simp]: "calm R (s\<lparr>st_tabs := t\<rparr>) = calm R s"
  by (simp add: calm_def)

lemma rg_if [rg_rules]: "(b \<Longrightarrow> rg R P m Q) \<Longrightarrow> (\<not> b \<Longrightarrow> rg R P n Q) \<Longrightarrow> rg R P (if b then m else n) Q"
  by simp

lemma rg_option [rg_rules]:
  "(x = None \<Longrightarrow> rg R P m Q) \<Longrightarrow> (\<And>a. x = Some a \<Longrightarrow> rg R P (f a) Q) \<Longrightarrow>
   rg R P (case x of None \<Rightarrow> m | Some a \<Rightarrow> f a) Q"
  by (cases x) simp_all

lemma rg_sum [rg_rules]:
  "(\<And>e. x = Inl e \<Longrightarrow> rg R P (f e) Q) \<Longrightarrow> (\<And>a. x = Inr a \<Longrightarrow> rg R P (g a) Q) \<Longrightarrow>
   rg R P (case x of Inl e \<Rightarrow> f e | Inr a \<Rightarrow> g a) Q"
  by (cases x) simp_all

lemma rg_prod [rg_rules]:
  "(\<And>a b. x = (a, b) \<Longrightarrow> rg R P (f a b) Q) \<Longrightarrow> rg R P (case x of (a, b) \<Rightarrow> f a b) Q"
  by (cases x) simp_all

locale rely_guarantee =
  fixes R :: "'t \<Rightarrow> 't \<Rightarrow> bool"
  assumes reflexive: "R t t"
    and transitive: "R t u \<Longrightarrow> R u v \<Longrightarrow> R t v"
begin

lemma return_rule: "(\<And>t. P t \<Longrightarrow> Q a t) \<Longrightarrow> rg R P (State_Monad.return a) Q"
  by (simp add: rg_def reflexive)

lemma peek_rule: "(\<And>t. P t \<Longrightarrow> Q (f t) t) \<Longrightarrow> rg R P (peek f) Q"
  by (simp add: rg_def peek_def reflexive)

lemma bind_rule:
  assumes "rg R P m S" and "\<And>a. rg R (S a) (k a) Q"
  shows "rg R P (State_Monad.bind m k) Q"
proof (rule rgI)
  fix s a s' assume s: "calm R s" "P (st_tabs s)" and r: "run_state (State_Monad.bind m k) s = (a, s')"
  obtain b s1 where 1: "run_state m s = (b, s1)" by fastforce
  then have 2: "run_state (k b) s1 = (a, s')" using r by simp
  note m = rgD [OF assms(1) s 1]
  then have "calm R s1" "S b (st_tabs s1)" by blast+
  note k = rgD [OF assms(2) this 2]
  show "calm R s' \<and> R (st_tabs s) (st_tabs s') \<and> Q a (st_tabs s')"
    using m k transitive by blast
qed

lemma try_rule:
  assumes "rg R P m (\<lambda>r t. case r of Inl e \<Rightarrow> Q (Inl (w e)) t | Inr a \<Rightarrow> S a t)"
    and "\<And>a. rg R (S a) (k a) Q"
  shows "rg R P (tryM w m k) Q"
  unfolding tryM_def
  by (rule bind_rule [OF assms(1)]) (auto split: sum.split intro: assms(2) return_rule)

lemma tick_rule:
  assumes "stable R P"
  shows "rg R P tick (\<lambda>_. P)"
proof (rule rgI)
  fix s a s' assume s: "calm R s" "P (st_tabs s)" and r: "run_state tick s = (a, s')"
  have "calm R s'" using run_tick [OF r] s(1) calm_shrink by (auto simp: calm_def)
  moreover have "R (st_tabs s) (st_tabs s')"
    using run_tick [OF r] s(1) reflexive by (auto simp: calm_def)
  ultimately show "calm R s' \<and> R (st_tabs s) (st_tabs s') \<and> P (st_tabs s')"
    using assms s(2) by (auto simp: stable_def)
qed

lemma effect_rule:
  "(\<And>t. P t \<Longrightarrow> R t (snd (f t)) \<and> Q (fst (f t)) (snd (f t))) \<Longrightarrow> rg R P (effect f) Q"
  by (simp add: rg_def effect_def split_def)

lemma stmt_rule:
  assumes "stable R P"
    and "\<And>t. P t \<Longrightarrow> R t (snd (f t)) \<and> Q (fst (f t)) (snd (f t))"
    and "\<And>t e. P t \<Longrightarrow> Q (Inl (Plain e)) t \<and> Q (Inl (Plain e)) (snd (f t))"
  shows "rg R P (stmt f) Q"
  unfolding stmt_def under_fault_def
  apply (rule bind_rule [OF tick_rule [OF assms(1)]])
  subgoal for flt
    apply (cases flt)
     apply (simp add: effect_rule [OF assms(2)])
    subgoal for x
      apply (cases x; simp)
       apply (rule return_rule, simp add: assms(3))
      apply (rule bind_rule [where S = "\<lambda>_ t. \<forall>e. Q (Inl (Plain e)) t"])
       apply (rule effect_rule, simp add: assms)
      apply (rule return_rule, simp)
      done
    done
  done

lemma each_rule: "(\<And>x. rg R P (f x) (\<lambda>_. P)) \<Longrightarrow> rg R P (each f xs) (\<lambda>_. P)"
  by (induction xs) (auto intro: return_rule bind_rule)

lemma in_tx_rule:
  assumes st: "stable R P"
    and body: "\<And>t0. P t0 \<Longrightarrow> txr (\<lambda>t b. t = t0 \<and> b = t0) body
      (\<lambda>r t b. R t0 b \<and> (case r of Inl e \<Rightarrow> Q (Inl e) b
        | Inr a \<Rightarrow> R t0 t \<and> Q (Inr a) t \<and> (\<forall>e. Q (Inl (wc (Plain e))) t \<and> Q (Inl (wc (Plain e))) b)))"
    and start: "\<And>t e. P t \<Longrightarrow> Q (Inl (wb (Plain e))) t"
  shows "rg R P (in_tx wb wc body) Q"
  unfolding in_tx_def
proof (rule bind_rule [OF tick_rule [OF st]], rule rg_if)
  fix flt :: "fault option" assume "flt \<noteq> None"
  then show "rg R P (failM (wb (fault_error flt))) Q"
    by (intro return_rule) (auto simp: fault_error_def start split: option.splits fault.splits)
next
  let ?m = "do { _ \<leftarrow> tx_begin; r \<leftarrow> body;
       case r of
         Inl e \<Rightarrow> do { _ \<leftarrow> tx_rollback; failM e }
       | Inr a \<Rightarrow> do { f \<leftarrow> tick;
           case f of
             None \<Rightarrow> do { _ \<leftarrow> tx_commit; okM a }
           | Some (Refused e) \<Rightarrow> do { _ \<leftarrow> tx_rollback; failM (wc (Plain e)) }
           | Some (LostReply e) \<Rightarrow> do { _ \<leftarrow> tx_commit; failM (wc (Plain e)) } } }"
  show "rg R P ?m Q"
  proof (rule rgI)
    fix s a s' assume s: "calm R s" "P (st_tabs s)" and r: "run_state ?m s = (a, s')"
    let ?s0 = "s\<lparr>st_base := Some (st_tabs s)\<rparr>"
    obtain x s1 where 1: "run_state body ?s0 = (x, s1)" by fastforce
    obtain b where b: "st_base s1 = Some b" "set (st_world s1) \<subseteq> set (st_world s)"
      and q: "R (st_tabs s) b \<and> (case x of Inl e \<Rightarrow> Q (Inl e) b
        | Inr a \<Rightarrow> R (st_tabs s) (st_tabs s1) \<and> Q (Inr a) (st_tabs s1) \<and>
            (\<forall>e. Q (Inl (wc (Plain e))) (st_tabs s1) \<and> Q (Inl (wc (Plain e))) b))"
      using txrD [OF body [OF s(2)] _ _ 1, of "st_tabs s"] by auto
    show "calm R s' \<and> R (st_tabs s) (st_tabs s') \<and> Q a (st_tabs s')"
    proof (cases x)
      case (Inl e)
      then have "a = Inl e" "s' = s1\<lparr>st_tabs := b, st_base := None\<rparr>"
        using r 1 b(1) by (simp_all add: tx_begin_def tx_rollback_def)
      then show ?thesis using calm_shrink [OF s(1)] b q Inl by simp
    next
      case (Inr v)
      obtain flt s2 where 2: "run_state tick s1 = (flt, s2)" by fastforce
      have t: "st_base s2 = Some b" "st_tabs s2 = st_tabs s1" "set (st_world s2) \<subseteq> set (st_world s)"
        using run_tick [OF 2] b by auto
      have "(flt = None \<and> a = Inr v \<and> s' = s2\<lparr>st_base := None\<rparr>) \<or>
        (\<exists>e. a = Inl (wc (Plain e)) \<and> (s' = s2\<lparr>st_base := None\<rparr> \<or> s' = s2\<lparr>st_tabs := b, st_base := None\<rparr>))"
        using r 1 2 Inr t
        by (cases flt) (auto simp: tx_begin_def tx_rollback_def tx_commit_def split: fault.splits)
      then show ?thesis using calm_shrink [OF s(1), of s'] q Inr t by auto
    qed
  qed
qed

end

subsection \<open>Triples inside a transaction\<close>

lemma txr_return [tx_rules]: "(\<And>t b. P t b \<Longrightarrow> Q a t b) \<Longrightarrow> txr P (State_Monad.return a) Q"
  by (simp add: txr_def)

lemma txr_peek [tx_rules]: "(\<And>t b. P t b \<Longrightarrow> Q (f t) t b) \<Longrightarrow> txr P (peek f) Q"
  by (simp add: txr_def peek_def)

lemma txr_bind:
  fixes P :: "'t \<Rightarrow> 't \<Rightarrow> bool"
  assumes "txr P m S" and "\<And>a. txr (S a) (k a) Q"
  shows "txr P (State_Monad.bind m k) Q"
  unfolding txr_def
proof (intro allI impI)
  fix s :: "'t store" and b assume s: "st_base s = Some b" "P (st_tabs s) b"
  obtain a s1 where 1: "run_state m s = (a, s1)" by fastforce
  obtain b1 where b1: "st_base s1 = Some b1" "set (st_world s1) \<subseteq> set (st_world s)" "S a (st_tabs s1) b1"
    using txrD [OF assms(1) s 1] by blast
  obtain c s2 where 2: "run_state (k a) s1 = (c, s2)" by fastforce
  show "case run_state (State_Monad.bind m k) s of (a, s') \<Rightarrow>
      \<exists>b'. st_base s' = Some b' \<and> set (st_world s') \<subseteq> set (st_world s) \<and> Q a (st_tabs s') b'"
    using txrD [OF assms(2) b1(1,3) 2] b1(2) 1 2 by auto
qed

lemma txr_try:
  assumes "txr P m (\<lambda>r t b. case r of Inl e \<Rightarrow> Q (Inl (w e)) t b | Inr a \<Rightarrow> S a t b)"
    and "\<And>a. txr (S a) (k a) Q"
  shows "txr P (tryM w m k) Q"
  unfolding tryM_def
  by (rule txr_bind [OF assms(1)]) (auto split: sum.split intro: assms(2) txr_return)

lemma txr_tick: "txr P tick (\<lambda>_. P)"
  by (auto simp: txr_def split: prod.splits dest!: run_tick)

lemma txr_under_fault:
  assumes "txr P m (\<lambda>r t b. Q r t b \<and> (\<forall>e. Q (Inl (Plain e)) t b))"
    and "\<And>t b e. P t b \<Longrightarrow> Q (Inl (Plain e)) t b"
  shows "txr P (under_fault m) Q"
  unfolding under_fault_def
  apply (rule txr_bind [OF txr_tick])
  subgoal for flt
    apply (cases flt)
     apply simp
     apply (rule txr_conseq [OF assms(1)], simp, simp)
    subgoal for x
      apply (cases x; simp)
       apply (rule txr_return, simp add: assms(2))
      apply (rule txr_bind [OF assms(1)])
      apply (rule txr_return, simp)
      done
    done
  done

lemma txr_stmt:
  assumes "\<And>t b. P t b \<Longrightarrow> Q (fst (f t)) (snd (f t)) b"
    and "\<And>t b e. P t b \<Longrightarrow> Q (Inl (Plain e)) t b \<and> Q (Inl (Plain e)) (snd (f t)) b"
  shows "txr P (stmt f) Q"
  unfolding stmt_def
  by (rule txr_under_fault) (auto simp: txr_def effect_def split_def assms)

lemma txr_auto_stmt:
  assumes "\<And>t b. P t b \<Longrightarrow> Q (fst (f t)) (snd (f t)) (snd (f b))"
    and "\<And>t b e. P t b \<Longrightarrow> Q (Inl (Plain e)) t b \<and> Q (Inl (Plain e)) (snd (f t)) (snd (f b))"
  shows "txr P (auto_stmt f) Q"
  unfolding auto_stmt_def
  by (rule txr_under_fault) (auto simp: txr_def auto_effect_def split_def assms)

lemma txr_if [tx_rules]: "(c \<Longrightarrow> txr P m Q) \<Longrightarrow> (\<not> c \<Longrightarrow> txr P n Q) \<Longrightarrow> txr P (if c then m else n) Q"
  by simp

text \<open>A transaction of its own: from tables that satisfy \<open>P\<close>, its body alone decides.\<close>

lemma auto_tx_cases:
  assumes run: "run_state (auto_tx wb wc body) s = (r, s')"
  obtains (begin_failed) flt s1 where "run_state tick s = (flt, s1)" "flt \<noteq> None"
      "r = Inl (wb (fault_error flt))" "s' = s1"
    | (aborted) s1 s2 e where "run_state tick s = (None, s1)"
      "run_state body (opened s1) = (Inl e, s2)"
      "r = Inl e" "s' = s2\<lparr>st_tabs := st_tabs s1, st_base := st_base s1\<rparr>"
    | (undone) s1 s2 s3 a e where "run_state tick s = (None, s1)"
      "run_state body (opened s1) = (Inr a, s2)" "run_state tick s2 = (Some (Refused e), s3)"
      "r = Inl (wc (Plain e))" "s' = s3\<lparr>st_tabs := st_tabs s1, st_base := st_base s1\<rparr>"
    | (committed) s1 s2 s3 a flt where "run_state tick s = (None, s1)"
      "run_state body (opened s1) = (Inr a, s2)" "run_state tick s2 = (flt, s3)"
      "r = Inr a \<or> (\<exists>e. r = Inl (wc (Plain e)))"
      "s' = s3\<lparr>st_base := (if st_base s1 = None then None else st_base s3)\<rparr>"
proof -
  obtain flt s1 where 1: "run_state tick s = (flt, s1)" by fastforce
  show thesis
  proof (cases flt)
    case (Some x)
    then show thesis using run 1 by (intro begin_failed [OF 1]) (simp_all add: auto_tx_def)
  next
    case None
    obtain y s2 where 2: "run_state body (opened s1) = (y, s2)" by fastforce
    have st: "run_state auto_begin s1 = (s1, opened s1)" by (simp add: auto_begin_def)
    show thesis
    proof (cases y)
      case (Inl e)
      then show thesis using run 1 2 None st
        by (intro aborted [of s1 e s2]) (simp_all add: auto_tx_def restore_def)
    next
      case (Inr a)
      obtain flt2 s3 where 3: "run_state tick s2 = (flt2, s3)" by fastforce
      show thesis
      proof (cases "\<exists>e. flt2 = Some (Refused e)")
        case True
        then obtain e where e: "flt2 = Some (Refused e)" ..
        then show thesis using run 1 2 3 None st Inr
          by (intro undone [of s1 a s2 e s3]) (simp_all add: auto_tx_def restore_def)
      next
        case False
        then show thesis using run 1 2 3 None st Inr
          by (intro committed [of s1 a s2 flt2 s3])
            (auto simp: auto_tx_def auto_commit_def split: option.splits fault.splits)
      qed
    qed
  qed
qed

lemma txr_auto_tx:
  fixes P :: "'t \<Rightarrow> 't \<Rightarrow> bool"
  assumes body: "\<And>t0 b0. P t0 b0 \<Longrightarrow> txr (\<lambda>t b. t = t0 \<and> b = b0) body
      (\<lambda>r t b. case r of Inl e \<Rightarrow> Q (Inl e) t0 b0
        | Inr a \<Rightarrow> Q (Inr a) t b \<and> (\<forall>e. Q (Inl (wc (Plain e))) t b \<and> Q (Inl (wc (Plain e))) t0 b0))"
    and start: "\<And>t b e. P t b \<Longrightarrow> Q (Inl (wb (Plain e))) t b"
  shows "txr P (auto_tx wb wc body) Q"
  unfolding txr_def
proof (intro allI impI, clarify)
  fix s :: "'t store" and b r s' assume s: "st_base s = Some b" "P (st_tabs s) b"
    and run: "run_state (auto_tx wb wc body) s = (r, s')"
  have tx: "\<exists>b'. st_base s2 = Some b' \<and> set (st_world s2) \<subseteq> set (st_world s) \<and>
      (case y of Inl e \<Rightarrow> Q (Inl e) (st_tabs s) b
        | Inr a \<Rightarrow> Q (Inr a) (st_tabs s2) b' \<and>
            (\<forall>e. Q (Inl (wc (Plain e))) (st_tabs s2) b' \<and> Q (Inl (wc (Plain e))) (st_tabs s) b))"
    if "run_state tick s = (flt, s1)" "run_state body (opened s1) = (y, s2)" for flt s1 s2 y
    using run_tick [OF that(1)] s that(2) txrD [OF body [OF s(2)], of "opened s1" b y s2]
    by (auto simp: opened_def)
  from run show "\<exists>b'. st_base s' = Some b' \<and> set (st_world s') \<subseteq> set (st_world s) \<and> Q r (st_tabs s') b'"
  proof (cases rule: auto_tx_cases)
    case (begin_failed flt s1)
    then show ?thesis using run_tick [of s flt s1] s start
      by (auto simp: fault_error_def split: option.splits fault.splits)
  next
    case (aborted s1 s2 e)
    then show ?thesis using tx [of None s1 "Inl e" s2] run_tick [of s None s1] s by auto
  next
    case (undone s1 s2 s3 a e)
    then show ?thesis using tx [of None s1 "Inr a" s2] run_tick [of s None s1] run_tick [of s2 _ s3] s by auto
  next
    case (committed s1 s2 s3 a flt)
    then show ?thesis using tx [of None s1 "Inr a" s2] run_tick [of s None s1] run_tick [of s2 _ s3] s by auto
  qed
qed

lemma txr_option [tx_rules]:
  "(x = None \<Longrightarrow> txr P m Q) \<Longrightarrow> (\<And>a. x = Some a \<Longrightarrow> txr P (f a) Q) \<Longrightarrow>
   txr P (case x of None \<Rightarrow> m | Some a \<Rightarrow> f a) Q"
  by (cases x) simp_all

lemma txr_sum [tx_rules]:
  "(\<And>e. x = Inl e \<Longrightarrow> txr P (f e) Q) \<Longrightarrow> (\<And>a. x = Inr a \<Longrightarrow> txr P (g a) Q) \<Longrightarrow>
   txr P (case x of Inl e \<Rightarrow> f e | Inr a \<Rightarrow> g a) Q"
  by (cases x) simp_all

context rely_guarantee
begin

lemma auto_tx_rule:
  assumes st: "stable R P"
    and body: "\<And>t0. P t0 \<Longrightarrow> txr (\<lambda>t b. t = t0 \<and> b = t0) body
      (\<lambda>r t b. case r of Inl e \<Rightarrow> Q (Inl e) t0
        | Inr a \<Rightarrow> R t0 t \<and> Q (Inr a) t \<and> (\<forall>e. Q (Inl (wc (Plain e))) t \<and> Q (Inl (wc (Plain e))) t0))"
    and start: "\<And>t e. P t \<Longrightarrow> Q (Inl (wb (Plain e))) t"
  shows "rg R P (auto_tx wb wc body) Q"
proof (rule rgI)
  fix s r s' assume s: "calm R s" "P (st_tabs s)" and run: "run_state (auto_tx wb wc body) s = (r, s')"
  have tick: "calm R s1 \<and> P (st_tabs s1) \<and> R (st_tabs s) (st_tabs s1)"
    if "run_state tick s = (flt, s1)" for flt s1
    using rgD [OF tick_rule [OF st] s that] by blast
  have tx: "st_base s2 \<noteq> None \<and> set (st_world s2) \<subseteq> set (st_world s1) \<and>
      (case y of Inl e \<Rightarrow> Q (Inl e) (st_tabs s1)
        | Inr a \<Rightarrow> R (st_tabs s1) (st_tabs s2) \<and> Q (Inr a) (st_tabs s2) \<and>
            (\<forall>e. Q (Inl (wc (Plain e))) (st_tabs s2) \<and> Q (Inl (wc (Plain e))) (st_tabs s1)))"
    if "run_state tick s = (flt, s1)" "run_state body (opened s1) = (y, s2)" for flt s1 s2 y
    using tick [OF that(1)] that(2) txrD [OF body [of "st_tabs s1"], of "opened s1" "st_tabs s1" y s2]
    by (auto simp: opened_def calm_def)
  from run show "calm R s' \<and> R (st_tabs s) (st_tabs s') \<and> Q r (st_tabs s')"
  proof (cases rule: auto_tx_cases)
    case (begin_failed flt s1)
    then show ?thesis using tick [of flt s1] start
      by (auto simp: fault_error_def split: option.splits fault.splits)
  next
    case (aborted s1 s2 e)
    then show ?thesis
      using tick [of None s1] tx [of None s1 "Inl e" s2] calm_shrink [of R s1 s'] by (auto simp: calm_def)
  next
    case (undone s1 s2 s3 a e)
    then show ?thesis
      using tick [of None s1] tx [of None s1 "Inr a" s2] run_tick [of s2 _ s3] calm_shrink [of R s1 s']
      by (auto simp: calm_def)
  next
    case (committed s1 s2 s3 a flt)
    then have k: "calm R s1 \<and> P (st_tabs s1) \<and> R (st_tabs s) (st_tabs s1)" using tick by blast
    then have "st_base s1 = None" by (simp add: calm_def)
    then have "calm R s'" "st_tabs s' = st_tabs s2"
      using committed k tx [of None s1 "Inr a" s2] run_tick [of s2 _ s3] calm_shrink [of R s1 s'] by auto
    then show ?thesis
      using committed k tx [of None s1 "Inr a" s2] transitive by auto
  qed
qed

end

subsection \<open>Code that keeps the relation whatever holds\<close>

text \<open>
  \<open>keeps R m\<close>: every statement of \<open>m\<close> is along \<open>R\<close>, so \<open>m\<close> may run anywhere, inside a transaction
  too, without disturbing what the others rely on.  Its proofs follow the syntax of \<open>m\<close>.
\<close>

definition keeps :: "('t \<Rightarrow> 't \<Rightarrow> bool) \<Rightarrow> ('t store, 'a) state \<Rightarrow> bool" where
  "keeps R m \<longleftrightarrow> rg R (\<lambda>_. True) m (\<lambda>_ _. True) \<and>
     (\<forall>t0 b0. txr (\<lambda>t b. R t0 t \<and> R b0 b) m (\<lambda>_ t b. R t0 t \<and> R b0 b))"

named_theorems keeps_rules

lemma keeps_if [keeps_rules]: "(b \<Longrightarrow> keeps R m) \<Longrightarrow> (\<not> b \<Longrightarrow> keeps R n) \<Longrightarrow> keeps R (if b then m else n)"
  by simp

lemma keeps_option [keeps_rules]:
  "(x = None \<Longrightarrow> keeps R m) \<Longrightarrow> (\<And>a. x = Some a \<Longrightarrow> keeps R (f a)) \<Longrightarrow>
   keeps R (case x of None \<Rightarrow> m | Some a \<Rightarrow> f a)"
  by (cases x) simp_all

lemma keeps_sum [keeps_rules]:
  "(\<And>e. x = Inl e \<Longrightarrow> keeps R (f e)) \<Longrightarrow> (\<And>a. x = Inr a \<Longrightarrow> keeps R (g a)) \<Longrightarrow>
   keeps R (case x of Inl e \<Rightarrow> f e | Inr a \<Rightarrow> g a)"
  by (cases x) simp_all

lemma keeps_Let [keeps_rules]: "(\<And>y. keeps R (f y)) \<Longrightarrow> keeps R (let y = x in f y)"
  by simp

lemma keeps_rg: "keeps R m \<Longrightarrow> stable R P \<Longrightarrow> rg R P m (\<lambda>_. P)"
  unfolding keeps_def using rg_frame [of R P "\<lambda>_. True" m "\<lambda>_ _. True"] by simp

lemma keeps_txr: "keeps R m \<Longrightarrow> txr (\<lambda>t b. R t0 t \<and> R b0 b) m (\<lambda>_ t b. R t0 t \<and> R b0 b)"
  by (simp add: keeps_def)

lemma keepsI: "rg R (\<lambda>_. True) m (\<lambda>_ _. True) \<Longrightarrow>
    (\<And>t0 b0. txr (\<lambda>t b. R t0 t \<and> R b0 b) m (\<lambda>_ t b. R t0 t \<and> R b0 b)) \<Longrightarrow> keeps R m"
  by (simp add: keeps_def)

context rely_guarantee
begin

lemma keeps_return [keeps_rules]: "keeps R (State_Monad.return a)"
  by (rule keepsI) (auto intro: return_rule txr_return)

lemma keeps_peek [keeps_rules]: "keeps R (peek f)"
  by (rule keepsI) (auto intro: peek_rule txr_peek)

lemma keeps_tick [keeps_rules]: "keeps R tick"
  by (rule keepsI) (auto intro: tick_rule [of "\<lambda>_. True", simplified] txr_tick)

lemma keeps_bind [keeps_rules]:
  "keeps R m \<Longrightarrow> (\<And>a. keeps R (k a)) \<Longrightarrow> keeps R (State_Monad.bind m k)"
  unfolding keeps_def by (blast intro: bind_rule txr_bind)

lemma keeps_try [keeps_rules]:
  "keeps R m \<Longrightarrow> (\<And>a. keeps R (k a)) \<Longrightarrow> keeps R (tryM w m k)"
  unfolding tryM_def by (intro keeps_bind) (auto split: sum.split intro: keeps_return)

lemma keeps_each [keeps_rules]: "(\<And>x. keeps R (f x)) \<Longrightarrow> keeps R (each f xs)"
  by (induction xs) (auto intro: keeps_return keeps_bind)

lemma keeps_effect: "(\<And>t. R t (snd (f t))) \<Longrightarrow> keeps R (effect f)"
  by (rule keepsI) (auto simp: rg_def txr_def effect_def split_def intro: transitive)

lemma keeps_auto_effect: "(\<And>t. R t (snd (f t))) \<Longrightarrow> keeps R (auto_effect f)"
  by (rule keepsI) (auto simp: rg_def calm_def txr_def auto_effect_def split_def intro: transitive)

lemma keeps_under_fault: "keeps R m \<Longrightarrow> keeps R (under_fault m)"
  unfolding under_fault_def
  by (intro keeps_bind keeps_tick) (auto split: option.split fault.split intro: keeps_return keeps_bind)

lemma keeps_stmt [keeps_rules]: "(\<And>t. R t (snd (f t))) \<Longrightarrow> keeps R (stmt f)"
  unfolding stmt_def by (intro keeps_under_fault keeps_effect)

lemma keeps_auto_stmt [keeps_rules]: "(\<And>t. R t (snd (f t))) \<Longrightarrow> keeps R (auto_stmt f)"
  unfolding auto_stmt_def by (intro keeps_under_fault keeps_auto_effect)

lemma keeps_body:
  assumes "keeps R body"
  shows "txr (\<lambda>t b. t = t0 \<and> b = b0) body (\<lambda>_ t b. R t0 t \<and> R b0 b)"
  by (rule txr_conseq [OF keeps_txr [OF assms, of t0 b0]]) (auto intro: reflexive)

lemma keeps_auto_tx [keeps_rules]:
  assumes "keeps R body"
  shows "keeps R (auto_tx wb wc body)"
proof (rule keepsI)
  show "rg R (\<lambda>_. True) (auto_tx wb wc body) (\<lambda>_ _. True)"
    by (rule auto_tx_rule) (auto intro!: txr_conseq [OF keeps_body [OF assms]] split: sum.split)
  fix t0 b0
  show "txr (\<lambda>t b. R t0 t \<and> R b0 b) (auto_tx wb wc body) (\<lambda>_ t b. R t0 t \<and> R b0 b)"
    by (rule txr_auto_tx)
      (auto intro!: txr_conseq [OF keeps_body [OF assms]] split: sum.split intro: transitive)
qed

lemma keeps_in_tx:
  assumes "keeps R body" and "stable R P"
  shows "rg R P (in_tx wb wc body) (\<lambda>_. P)"
  by (rule in_tx_rule [OF assms(2)])
    (auto intro!: txr_conseq [OF keeps_body [OF assms(1)]] split: sum.split
       simp: assms(2) [unfolded stable_def, rule_format])

end

subsection \<open>Code that runs along the relation\<close>

text \<open>\<open>runs R m\<close> is the half of \<open>keeps\<close> outside a transaction; the code may open transactions.\<close>

definition runs :: "('t \<Rightarrow> 't \<Rightarrow> bool) \<Rightarrow> ('t store, 'a) state \<Rightarrow> bool" where
  "runs R m \<longleftrightarrow> rg R (\<lambda>_. True) m (\<lambda>_ _. True)"

named_theorems runs_rules

lemma runs_keeps: "keeps R m \<Longrightarrow> runs R m"
  by (simp add: runs_def keeps_def)

lemma runs_rg: "runs R m \<Longrightarrow> stable R P \<Longrightarrow> rg R P m (\<lambda>_. P)"
  unfolding runs_def using rg_frame [of R P "\<lambda>_. True" m "\<lambda>_ _. True"] by simp

lemma runs_of_rg: "rg R P m Q \<Longrightarrow> (\<And>t. P t) \<Longrightarrow> runs R m"
  unfolding runs_def by (erule rg_conseq) auto

lemma runs_if [runs_rules]: "(b \<Longrightarrow> runs R m) \<Longrightarrow> (\<not> b \<Longrightarrow> runs R n) \<Longrightarrow> runs R (if b then m else n)"
  by simp

lemma runs_option [runs_rules]:
  "(x = None \<Longrightarrow> runs R m) \<Longrightarrow> (\<And>a. x = Some a \<Longrightarrow> runs R (f a)) \<Longrightarrow>
   runs R (case x of None \<Rightarrow> m | Some a \<Rightarrow> f a)"
  by (cases x) simp_all

lemma runs_sum [runs_rules]:
  "(\<And>e. x = Inl e \<Longrightarrow> runs R (f e)) \<Longrightarrow> (\<And>a. x = Inr a \<Longrightarrow> runs R (g a)) \<Longrightarrow>
   runs R (case x of Inl e \<Rightarrow> f e | Inr a \<Rightarrow> g a)"
  by (cases x) simp_all

lemma runs_Let [runs_rules]: "(\<And>y. runs R (f y)) \<Longrightarrow> runs R (let y = x in f y)"
  by simp

context rely_guarantee
begin

lemma runs_return [runs_rules]: "runs R (State_Monad.return a)"
  by (rule runs_keeps [OF keeps_return])

lemma runs_peek [runs_rules]: "runs R (peek f)"
  by (rule runs_keeps [OF keeps_peek])

lemma runs_stmt [runs_rules]: "(\<And>t. R t (snd (f t))) \<Longrightarrow> runs R (stmt f)"
  by (rule runs_keeps [OF keeps_stmt])

lemma runs_bind [runs_rules]:
  "runs R m \<Longrightarrow> (\<And>a. runs R (k a)) \<Longrightarrow> runs R (State_Monad.bind m k)"
  unfolding runs_def by (blast intro: bind_rule)

lemma runs_try [runs_rules]:
  "runs R m \<Longrightarrow> (\<And>a. runs R (k a)) \<Longrightarrow> runs R (tryM w m k)"
  unfolding tryM_def by (intro runs_bind) (auto split: sum.split intro: runs_return)

lemma runs_each [runs_rules]: "(\<And>x. runs R (f x)) \<Longrightarrow> runs R (each f xs)"
  by (induction xs) (auto intro: runs_return runs_bind)

lemma runs_in_tx [runs_rules]: "keeps R body \<Longrightarrow> runs R (in_tx wb wc body)"
  unfolding runs_def by (rule keeps_in_tx) simp_all

end

end
