(* ===== verification/Money.thy ===== *)
theory Money
  imports AppError
begin

section \<open>Currencies, fees and amounts\<close>

text \<open>
  \<open>payment/currency.go\<close>, \<open>payment/fee.go\<close>, \<open>payment/amount.go\<close> and
  \<open>service/payment_amounts.go\<close>.  The code computes in decimals of the library
  \<open>shopspring/decimal\<close>, which is not part of the repository: its parser, its formatter, its
  division and its two roundings are the fields of \<open>decimal_ops\<close>, and \<open>decimal_ok\<close> is what its
  documentation promises of the numeric ones.  Its exact operations (product, sum, power of ten,
  truncation) are those of the rationals.
\<close>

subsection \<open>The decimal library\<close>

record decimal_ops =
  dc_parse :: "string \<Rightarrow> rat option"
  dc_fixed :: "int \<Rightarrow> rat \<Rightarrow> string"
  dc_div :: "rat \<Rightarrow> rat \<Rightarrow> rat"
  dc_round :: "int \<Rightarrow> rat \<Rightarrow> rat"
  dc_round_up :: "int \<Rightarrow> rat \<Rightarrow> rat"

definition pow10 :: "int \<Rightarrow> rat" where
  "pow10 n = 10 ^ nat n"

definition places :: "int \<Rightarrow> rat \<Rightarrow> bool" where
  "places n x \<longleftrightarrow> of_int \<lfloor>x * pow10 n\<rfloor> = x * pow10 n"

definition rat_truncate :: "rat \<Rightarrow> int" where
  "rat_truncate x = (if x < 0 then \<lceil>x\<rceil> else \<lfloor>x\<rfloor>)"

text \<open>
  A quotient that is not exact is rounded to sixteen places; \<open>Round\<close> goes to the nearest value
  with the given places, \<open>RoundUp\<close> away from zero.
\<close>

definition decimal_ok :: "decimal_ops \<Rightarrow> bool" where
  "decimal_ok dc \<longleftrightarrow>
     (\<forall>a b. 0 < b \<longrightarrow> places 16 (a / b) \<longrightarrow> dc_div dc a b = a / b) \<and>
     (\<forall>a b c. 0 < b \<longrightarrow> places 16 c \<longrightarrow> a / b \<le> c \<longrightarrow> dc_div dc a b \<le> c) \<and>
     (\<forall>a b c. 0 < b \<longrightarrow> places 16 c \<longrightarrow> c \<le> a / b \<longrightarrow> c \<le> dc_div dc a b) \<and>
     (\<forall>n x. 0 \<le> n \<longrightarrow> places n (dc_round dc n x) \<and> \<bar>dc_round dc n x - x\<bar> \<le> 1 / (2 * pow10 n)) \<and>
     (\<forall>n x y. x \<le> y \<longrightarrow> dc_round dc n x \<le> dc_round dc n y) \<and>
     (\<forall>n x. 0 \<le> n \<longrightarrow> places n x \<longrightarrow> dc_round dc n x = x) \<and>
     (\<forall>n x. 0 \<le> n \<longrightarrow> 0 \<le> x \<longrightarrow> places n (dc_round_up dc n x) \<and> x \<le> dc_round_up dc n x \<and>
        dc_round_up dc n x < x + 1 / pow10 n)"

subsection \<open>Currencies\<close>

abbreviation default_currency :: string where
  "default_currency \<equiv> ''CNY''"

record amount_unit =
  au_api_minor_unit :: int
  au_max_fraction_digits :: int

definition amount_units :: "(string \<times> amount_unit) list" where
  "amount_units =
     (let zero = \<lparr>au_api_minor_unit = 0, au_max_fraction_digits = 0\<rparr>;
          legacy = \<lparr>au_api_minor_unit = 2, au_max_fraction_digits = 0\<rparr>;
          three = \<lparr>au_api_minor_unit = 3, au_max_fraction_digits = 3\<rparr>
      in map (\<lambda>c. (c, zero))
           [''BIF'', ''CLP'', ''DJF'', ''GNF'', ''JPY'', ''KMF'', ''KRW'', ''MGA'', ''PYG'', ''RWF'',
            ''VND'', ''VUV'', ''XAF'', ''XOF'', ''XPF''] @
         map (\<lambda>c. (c, legacy)) [''ISK'', ''UGX''] @
         map (\<lambda>c. (c, three)) [''BHD'', ''IQD'', ''JOD'', ''KWD'', ''LYD'', ''OMR'', ''TND''])"

definition normalize_currency :: "string \<Rightarrow> string + string" where
  "normalize_currency raw =
     (let currency = to_upper (trim_space raw) in
      if currency = [] then Inr default_currency
      else if length currency \<noteq> 3 \<or> (\<exists>c \<in> set currency. (of_char c :: int) < 65 \<or> 90 < (of_char c :: int))
        then Inl ''payment currency must be a 3-letter ISO currency code''
      else Inr currency)"

definition amount_unit_for :: "string \<Rightarrow> amount_unit" where
  "amount_unit_for currency =
     (let two = \<lparr>au_api_minor_unit = 2, au_max_fraction_digits = 2\<rparr> in
      case normalize_currency currency of
        Inl _ \<Rightarrow> two
      | Inr c \<Rightarrow> (case map_of amount_units c of Some u \<Rightarrow> u | None \<Rightarrow> two))"

definition currency_minor_unit :: "string \<Rightarrow> int" where
  "currency_minor_unit currency = au_api_minor_unit (amount_unit_for currency)"

definition currency_max_fraction_digits :: "string \<Rightarrow> int" where
  "currency_max_fraction_digits currency = au_max_fraction_digits (amount_unit_for currency)"

definition format_amount_for_currency :: "decimal_ops \<Rightarrow> rat \<Rightarrow> string \<Rightarrow> string" where
  "format_amount_for_currency dc amount currency =
     dc_fixed dc (currency_max_fraction_digits currency) amount"

definition amount_to_minor_unit :: "decimal_ops \<Rightarrow> string \<Rightarrow> string \<Rightarrow> string + int64" where
  "amount_to_minor_unit dc amount_str currency =
     (case dc_parse dc (trim_space amount_str) of
        None \<Rightarrow> Inl (''invalid amount: '' @ amount_str)
      | Some d \<Rightarrow>
          (case normalize_currency currency of
             Inl e \<Rightarrow> Inl e
           | Inr c \<Rightarrow>
               let u = amount_unit_for c; scaled = d * pow10 (au_max_fraction_digits u) in
               if scaled \<noteq> of_int (rat_truncate scaled) then
                 Inl (''payment amount for '' @ c @
                   (if au_max_fraction_digits u = 0 then '' must be a whole number''
                    else '' must not have more than '' @ itoa (au_max_fraction_digits u) @ '' decimal places''))
               else Inr (wrap64 (rat_truncate (d * pow10 (au_api_minor_unit u))))))"

definition minor_unit_to_amount :: "decimal_ops \<Rightarrow> int64 \<Rightarrow> string \<Rightarrow> rat" where
  "minor_unit_to_amount dc v currency = dc_div dc (of_int v) (pow10 (currency_minor_unit currency))"

definition yuan_to_fen :: "decimal_ops \<Rightarrow> string \<Rightarrow> string + int64" where
  "yuan_to_fen dc yuan = amount_to_minor_unit dc yuan default_currency"

definition fen_to_yuan :: "decimal_ops \<Rightarrow> int64 \<Rightarrow> rat" where
  "fen_to_yuan dc fen = minor_unit_to_amount dc fen default_currency"

subsection \<open>Fees, credited balance and gateway refunds\<close>

definition pay_amount_value :: "decimal_ops \<Rightarrow> rat \<Rightarrow> rat \<Rightarrow> string \<Rightarrow> rat" where
  "pay_amount_value dc amount fee_rate currency =
     (if fee_rate \<le> 0 then amount
      else amount + dc_round_up dc (currency_max_fraction_digits currency)
                      (dc_div dc (amount * fee_rate) 100))"

definition calculate_pay_amount_for_currency :: "decimal_ops \<Rightarrow> rat \<Rightarrow> rat \<Rightarrow> string \<Rightarrow> string" where
  "calculate_pay_amount_for_currency dc amount fee_rate currency =
     dc_fixed dc (currency_max_fraction_digits currency) (pay_amount_value dc amount fee_rate currency)"

definition calculate_pay_amount :: "decimal_ops \<Rightarrow> rat \<Rightarrow> rat \<Rightarrow> string" where
  "calculate_pay_amount dc amount fee_rate =
     calculate_pay_amount_for_currency dc amount fee_rate default_currency"

definition normalize_multiplier :: "f64 \<Rightarrow> rat" where
  "normalize_multiplier m = (case m of Fin x \<Rightarrow> if x \<le> 0 then 1 else x | _ \<Rightarrow> 1)"

definition calculate_credited_balance :: "decimal_ops \<Rightarrow> rat \<Rightarrow> f64 \<Rightarrow> rat" where
  "calculate_credited_balance dc amount multiplier =
     dc_round dc 2 (amount * normalize_multiplier multiplier)"

text \<open>The tolerance of a comparison with a paid amount: a cent, or half the minor unit if smaller.\<close>

definition amount_tolerance :: "string \<Rightarrow> rat" where
  "amount_tolerance currency =
     (let u = currency_minor_unit currency in if u \<le> 2 then 1 / 100 else 1 / pow10 u / 2)"

definition calculate_gateway_refund_amount ::
  "decimal_ops \<Rightarrow> rat \<Rightarrow> rat \<Rightarrow> rat \<Rightarrow> string \<Rightarrow> rat" where
  "calculate_gateway_refund_amount dc order_amount pay_amount refund_amount currency =
     (if order_amount \<le> 0 \<or> pay_amount \<le> 0 \<or> refund_amount \<le> 0 then 0
      else
        let digits = currency_max_fraction_digits currency in
        if \<bar>refund_amount - order_amount\<bar> \<le> amount_tolerance currency then dc_round dc digits pay_amount
        else dc_round dc digits (dc_div dc (pay_amount * refund_amount) order_amount))"

subsection \<open>Exactness\<close>

lemma pow10_pos [simp]: "0 < pow10 n"
  by (simp add: pow10_def)

lemma pow10_nz [simp]: "pow10 n \<noteq> 0"
  using pow10_pos [of n] by linarith

lemma pow10_add: "0 \<le> m \<Longrightarrow> 0 \<le> n \<Longrightarrow> pow10 (m + n) = pow10 m * pow10 n"
  by (simp add: pow10_def nat_add_distrib power_add)

lemma placesI: "x * pow10 n = of_int k \<Longrightarrow> places n x"
  by (simp add: places_def)

lemma placesE: "places n x \<Longrightarrow> (\<And>k. x * pow10 n = of_int k \<Longrightarrow> thesis) \<Longrightarrow> thesis"
  by (metis places_def)

lemma places_add: "places n x \<Longrightarrow> places n y \<Longrightarrow> places n (x + y)"
  by (elim placesE, rule placesI [where k = "k + ka" for k ka]) (simp add: distrib_right)

lemma places_mono: "places m x \<Longrightarrow> 0 \<le> m \<Longrightarrow> m \<le> n \<Longrightarrow> places n x"
proof (elim placesE)
  fix k assume k: "x * pow10 m = of_int k" and mn: "0 \<le> m" "m \<le> n"
  have "pow10 n = pow10 m * pow10 (n - m)" using mn pow10_add [of m "n - m"] by simp
  then have "x * pow10 n = of_int (k * 10 ^ nat (n - m))" using k by (simp add: pow10_def)
  then show "places n x" by (rule placesI)
qed

lemma places_0 [simp]: "places n 0"
  by (simp add: places_def)

lemma rat_truncate_exact: "of_int (rat_truncate x) = x \<Longrightarrow> places 0 x"
  by (rule placesI [where k = "rat_truncate x"]) (simp add: pow10_def)

lemma rat_truncate_of_int: "rat_truncate (of_int k) = k"
  by (simp add: rat_truncate_def)

lemma unit_digits: "0 \<le> au_max_fraction_digits (amount_unit_for c) \<and>
    au_max_fraction_digits (amount_unit_for c) \<le> au_api_minor_unit (amount_unit_for c) \<and>
    au_api_minor_unit (amount_unit_for c) \<le> 3"
proof -
  have "\<forall>p \<in> set amount_units. 0 \<le> au_max_fraction_digits (snd p) \<and>
      au_max_fraction_digits (snd p) \<le> au_api_minor_unit (snd p) \<and> au_api_minor_unit (snd p) \<le> 3"
    by (simp add: amount_units_def Let_def)
  then show ?thesis
    by (fastforce simp: amount_unit_for_def Let_def split: sum.splits option.splits dest!: map_of_SomeD)
qed

lemma upper_fixed: "65 \<le> (of_char c :: int) \<Longrightarrow> (of_char c :: int) \<le> 90 \<Longrightarrow> upper_char c = c"
  by (auto simp: upper_char_def simp flip: of_nat_of_char [where 'a = int])

lemma normalize_currency_idem:
  assumes "normalize_currency raw = Inr c"
  shows "normalize_currency c = Inr c"
proof (cases "to_upper (trim_space raw) = []")
  case True
  then have "c = default_currency" using assms by (simp add: normalize_currency_def Let_def)
  moreover have "normalize_currency default_currency = Inr default_currency" by code_simp
  ultimately show ?thesis by simp
next
  case False
  with assms have c: "length c = 3" "\<forall>x \<in> set c. 65 \<le> (of_char x :: int) \<and> (of_char x :: int) \<le> 90"
    by (auto simp: normalize_currency_def Let_def split: if_splits)
  have "trim_space c = c" by (rule trim_space_plain) (use c(2) in force)
  moreover have "to_upper c = c"
    using c(2) by (auto simp: to_upper_def upper_fixed intro: map_idI)
  ultimately show ?thesis
    using c by (auto simp: normalize_currency_def Let_def)
qed

lemma amount_unit_for_normalized:
  "normalize_currency raw = Inr c \<Longrightarrow> amount_unit_for c = amount_unit_for raw"
  using normalize_currency_idem [of raw c] by (simp add: amount_unit_for_def)


text \<open>
  C21.  The amount to pay is the amount with its fee, rounded up to the currency's digits: never
  less than the exact price, less than one unit in the last place above it, and itself
  representable in the currency when the amount is.
\<close>

theorem fee_rounds_up:
  assumes dc: "decimal_ok dc" and a: "0 \<le> amount" and rate: "0 < fee_rate"
    and pl: "places 14 (amount * fee_rate)" and n: "n = currency_max_fraction_digits currency"
  shows "calculate_pay_amount_for_currency dc amount fee_rate currency =
      dc_fixed dc n (pay_amount_value dc amount fee_rate currency) \<and>
    amount * (1 + fee_rate / 100) \<le> pay_amount_value dc amount fee_rate currency \<and>
    pay_amount_value dc amount fee_rate currency < amount * (1 + fee_rate / 100) + 1 / pow10 n \<and>
    (places n amount \<longrightarrow> places n (pay_amount_value dc amount fee_rate currency))"
proof -
  obtain k where k: "amount * fee_rate * pow10 14 = of_int k" using pl by (elim placesE)
  have "pow10 16 = pow10 14 * 100" by (simp add: pow10_def)
  then have "places 16 (amount * fee_rate / 100)" using k by (intro placesI [where k = k]) simp
  then have div: "dc_div dc (amount * fee_rate) 100 = amount * fee_rate / 100"
    using dc by (simp add: decimal_ok_def)
  define x where "x = amount * fee_rate / 100"
  have x: "0 \<le> x" "0 \<le> n" using a rate unit_digits [of currency]
    by (simp_all add: x_def n currency_max_fraction_digits_def)
  with dc have up: "places n (dc_round_up dc n x) \<and> x \<le> dc_round_up dc n x \<and> dc_round_up dc n x < x + 1 / pow10 n"
    unfolding decimal_ok_def by blast
  have "pay_amount_value dc amount fee_rate currency = amount + dc_round_up dc n x"
    unfolding pay_amount_value_def div x_def n using rate by simp
  moreover have "amount * (1 + fee_rate / 100) = amount + x" by (simp add: x_def distrib_left)
  ultimately show ?thesis
    using up places_add by (simp add: n calculate_pay_amount_for_currency_def)
qed

lemma amount_tolerance_pos: "0 < amount_tolerance currency"
  by (simp add: amount_tolerance_def Let_def)

text \<open>
  C22.  The amount sent back through the gateway never exceeds what was paid and is never
  negative; a refund of the whole order returns exactly the amount paid, and a refund of nothing
  returns nothing.
\<close>

theorem gateway_refund_bounded:
  assumes dc: "decimal_ok dc" and pos: "0 < order_amount" "0 < pay_amount"
    and pl: "places (currency_max_fraction_digits currency) pay_amount"
    and le: "refund_amount \<le> order_amount"
    and g: "g = calculate_gateway_refund_amount dc order_amount pay_amount refund_amount currency"
  shows "0 \<le> g \<and> g \<le> pay_amount \<and>
    (refund_amount = order_amount \<longrightarrow> g = pay_amount) \<and> (refund_amount \<le> 0 \<longrightarrow> g = 0)"
proof (cases "refund_amount \<le> 0")
  case True
  then show ?thesis using pos by (simp add: g calculate_gateway_refund_amount_def)
next
  case False
  let ?n = "currency_max_fraction_digits currency"
  have n: "0 \<le> ?n" "?n \<le> 16" using unit_digits [of currency]
    by (simp_all add: currency_max_fraction_digits_def)
  have r: "dc_round dc ?n pay_amount = pay_amount" "dc_round dc ?n 0 = 0"
    using dc n pl by (simp_all add: decimal_ok_def)
  have mono: "x \<le> y \<Longrightarrow> dc_round dc ?n x \<le> dc_round dc ?n y" for x y
    using dc by (simp add: decimal_ok_def)
  have q: "pay_amount * refund_amount / order_amount \<le> pay_amount"
    using pos le by (simp add: divide_le_eq)
  have q0: "0 \<le> pay_amount * refund_amount / order_amount" using pos False by simp
  have "places 16 pay_amount" using places_mono [OF pl n] .
  then have "dc_div dc (pay_amount * refund_amount) order_amount \<le> pay_amount"
    "0 \<le> dc_div dc (pay_amount * refund_amount) order_amount"
    using dc pos q q0 by (simp_all add: decimal_ok_def)
  from mono [OF this(1)] mono [OF this(2)] r
  show ?thesis using False pos
    using less_imp_le [OF amount_tolerance_pos [of currency]]
    by (auto simp: g calculate_gateway_refund_amount_def Let_def)
qed


subsection \<open>An instance of the library\<close>

text \<open>School arithmetic: a quotient and \<open>Round\<close> to the nearest, \<open>RoundUp\<close> by the ceiling.\<close>

definition half_up :: "int \<Rightarrow> rat \<Rightarrow> rat" where
  "half_up n x = of_int \<lfloor>x * pow10 n + 1 / 2\<rfloor> / pow10 n"

definition schoolbook :: decimal_ops where
  "schoolbook = \<lparr>
     dc_parse = (\<lambda>s. let w = takeWhile (\<lambda>c. c \<noteq> CHR ''.'') s; f = drop (length w + 1) s in
       (case atoi (w @ f) of None \<Rightarrow> None | Some k \<Rightarrow> Some (of_int k / pow10 (int (length f))))),
     dc_fixed = (\<lambda>n x. let k = \<lfloor>x * pow10 n + 1 / 2\<rfloor> in
       if n \<le> 0 then itoa k else itoa (k div 10 ^ nat n) @ ''.'' @ itoa (k mod 10 ^ nat n)),
     dc_div = (\<lambda>a b. half_up 16 (a / b)),
     dc_round = half_up,
     dc_round_up = (\<lambda>n x. of_int \<lceil>x * pow10 n\<rceil> / pow10 n)\<rparr>"

lemma half_up_places: "places n (half_up n x)"
  by (rule placesI [where k = "\<lfloor>x * pow10 n + 1 / 2\<rfloor>"]) (simp add: half_up_def)

lemma half_up_mono: "x \<le> y \<Longrightarrow> half_up n x \<le> half_up n y"
  using pow10_pos [of n]
  by (simp add: half_up_def divide_right_mono less_imp_le floor_mono mult_right_mono)

lemma half_up_fixed: "places n x \<Longrightarrow> half_up n x = x"
proof (elim placesE)
  fix k assume k: "x * pow10 n = of_int k"
  then have "\<lfloor>x * pow10 n + 1 / 2\<rfloor> = k" by (simp add: floor_eq_iff)
  then show "half_up n x = x" unfolding half_up_def using k by (simp add: divide_eq_eq)
qed

lemma half_up_near: "\<bar>half_up n x - x\<bar> \<le> 1 / (2 * pow10 n)"
proof -
  have "\<bar>of_int \<lfloor>x * pow10 n + 1 / 2\<rfloor> - x * pow10 n\<bar> \<le> 1 / 2" by linarith
  then have "\<bar>half_up n x * pow10 n - x * pow10 n\<bar> \<le> 1 / 2" by (simp add: half_up_def)
  then have "\<bar>half_up n x - x\<bar> * pow10 n \<le> 1 / 2"
    using pow10_pos [of n] by (simp add: abs_mult flip: left_diff_distrib)
  then show ?thesis by (simp add: le_divide_eq)
qed

lemma ceil_places: "places n (of_int \<lceil>x * pow10 n\<rceil> / pow10 n)"
  by (rule placesI [where k = "\<lceil>x * pow10 n\<rceil>"]) simp

lemma ceil_near: "x \<le> of_int \<lceil>x * pow10 n\<rceil> / pow10 n \<and> of_int \<lceil>x * pow10 n\<rceil> / pow10 n < x + 1 / pow10 n"
proof -
  have "x * pow10 n \<le> of_int \<lceil>x * pow10 n\<rceil>" "of_int \<lceil>x * pow10 n\<rceil> < x * pow10 n + 1" by linarith+
  moreover have "x + 1 / pow10 n = (x * pow10 n + 1) / pow10 n" by (simp add: add_divide_distrib)
  ultimately show ?thesis by (simp add: le_divide_eq divide_strict_right_mono)
qed

lemma schoolbook_ok: "decimal_ok schoolbook"
  using half_up_mono half_up_fixed
  by (auto simp: decimal_ok_def schoolbook_def half_up_places half_up_near ceil_places ceil_near)
    (metis half_up_mono half_up_fixed)+


theorem fee_rounds_up_witness:
  "pay_amount_value schoolbook 10 3 ''JPY'' = 11 \<and> 10 * (1 + 3 / 100) \<le> (11 :: rat)"
proof -
  have v: "pay_amount_value schoolbook 10 3 ''JPY'' = 11" by code_simp
  have p: "places 14 (10 * 3)" by code_simp
  show ?thesis
    using v fee_rounds_up [OF schoolbook_ok _ _ p refl, of "''JPY''"] by simp
qed

theorem gateway_refund_bounded_witness:
  "calculate_gateway_refund_amount schoolbook 30 31 10 ''USD'' = 1033 / 100 \<and>
   calculate_gateway_refund_amount schoolbook 30 31 10 ''USD'' \<le> 31"
proof -
  have v: "calculate_gateway_refund_amount schoolbook 30 31 10 ''USD'' = 1033 / 100" by code_simp
  have p: "places (currency_max_fraction_digits ''USD'') 31" by code_simp
  show ?thesis
    using v gateway_refund_bounded [OF schoolbook_ok _ _ p _ refl, of 30 10] by simp
qed

end
