(* ===== verification/BillingTables.thy ===== *)
theory BillingTables
  imports Store Money
begin

section \<open>The billing tables\<close>

text \<open>
  The rows the payment, redemption, subscription and affiliate services share, and the statements
  of their repositories (\<open>repository/redeem_code_repo.go\<close>, \<open>user_repo.go\<close>,
  \<open>user_subscription_repo.go\<close>, and the queries the services build themselves).  A statement is a
  function from the tables to its result and the tables; \<open>Inl\<close> is the error the driver or the
  repository reports.  An amount is the rational its decimal column holds; a computed value is
  rounded to the column's places where it enters the table (\<open>numeric\<close>).  The two Redis structures
  of redemption, the failure counter and the lock, are columns of the same record.

  \<open>bl_now\<close> is the clock: \<open>time.Now()\<close> of the service and \<open>NOW()\<close> of the database are read from it.
\<close>

subsection \<open>Rows\<close>

datatype jval = JStr string | JNum rat | JBool bool

datatype order_status =
    PENDING | PAID | RECHARGING | COMPLETED | EXPIRED | CANCELLED | FAILED
  | REFUND_REQUESTED | REFUNDING | REFUND_PENDING | PARTIALLY_REFUNDED | REFUNDED | REFUND_FAILED

fun status_text :: "order_status \<Rightarrow> string" where
  "status_text PENDING = ''PENDING''"
| "status_text PAID = ''PAID''"
| "status_text RECHARGING = ''RECHARGING''"
| "status_text COMPLETED = ''COMPLETED''"
| "status_text EXPIRED = ''EXPIRED''"
| "status_text CANCELLED = ''CANCELLED''"
| "status_text FAILED = ''FAILED''"
| "status_text REFUND_REQUESTED = ''REFUND_REQUESTED''"
| "status_text REFUNDING = ''REFUNDING''"
| "status_text REFUND_PENDING = ''REFUND_PENDING''"
| "status_text PARTIALLY_REFUNDED = ''PARTIALLY_REFUNDED''"
| "status_text REFUNDED = ''REFUNDED''"
| "status_text REFUND_FAILED = ''REFUND_FAILED''"

record redeem_code =
  rc_id :: int64
  rc_code :: string
  rc_type :: string
  rc_value :: rat
  rc_status :: string
  rc_used_by :: "int64 option"
  rc_used_at :: "time option"
  rc_notes :: string
  rc_expires_at :: "time option"
  rc_group_id :: "int64 option"
  rc_validity_days :: int

record user_row =
  us_id :: int64
  us_balance :: rat
  us_total_recharged :: rat
  us_concurrency :: int

record group_row =
  gr_status :: string
  gr_subscription_type :: string
  gr_daily_limit :: "rat option"
  gr_weekly_limit :: "rat option"
  gr_monthly_limit :: "rat option"

record user_subscription =
  sb_id :: int64
  sb_user_id :: int64
  sb_group_id :: int64
  sb_starts_at :: time
  sb_expires_at :: time
  sb_status :: string
  sb_daily_start :: "time option"
  sb_weekly_start :: "time option"
  sb_monthly_start :: "time option"
  sb_daily_usage :: rat
  sb_weekly_usage :: rat
  sb_monthly_usage :: rat
  sb_assigned_by :: "int64 option"
  sb_assigned_at :: time
  sb_notes :: string
  sb_deleted :: bool

record payment_order =
  po_id :: int64
  po_user_id :: int64
  po_amount :: rat
  po_pay_amount :: rat
  po_recharge_code :: string
  po_out_trade_no :: string
  po_payment_type :: string
  po_payment_trade_no :: string
  po_order_type :: string
  po_subscription_group_id :: "int64 option"
  po_subscription_days :: "int option"
  po_provider_instance_id :: "string option"
  po_provider_key :: "string option"
  po_provider_snapshot :: "(string \<times> jval) list"
  po_status :: order_status
  po_refund_amount :: rat
  po_refund_reason :: "string option"
  po_refund_at :: "time option"
  po_force_refund :: bool
  po_refund_requested_at :: "time option"
  po_refund_request_reason :: "string option"
  po_refund_requested_by :: "string option"
  po_expires_at :: time
  po_paid_at :: "time option"
  po_completed_at :: "time option"
  po_failed_at :: "time option"
  po_failed_reason :: "string option"
  po_created_at :: time
  po_updated_at :: time

record audit_row =
  al_order_id :: int64
  al_action :: string
  al_detail :: "(string \<times> jval) list"
  al_operator :: string
  al_created_at :: time

record provider_instance =
  pi_id :: int64
  pi_provider_key :: string
  pi_supported_types :: string
  pi_payment_mode :: string
  pi_enabled :: bool
  pi_sort_order :: int
  pi_refund_enabled :: bool
  pi_allow_user_refund :: bool

record affiliate_row =
  af_inviter_id :: "int64 option"
  af_rate_percent :: "rat option"
  af_count :: int
  af_quota :: rat
  af_frozen_quota :: rat
  af_history_quota :: rat
  af_created_at :: time

record affiliate_ledger_row =
  ll_user_id :: int64
  ll_action :: string
  ll_amount :: rat
  ll_source_user_id :: "int64 option"
  ll_source_order_id :: "int64 option"
  ll_frozen_until :: "time option"

record bill =
  bl_now :: time
  bl_users :: "int64 \<rightharpoonup> user_row"
  bl_codes :: "redeem_code list"
  bl_next_code :: int64
  bl_groups :: "int64 \<rightharpoonup> group_row"
  bl_subs :: "user_subscription list"
  bl_next_sub :: int64
  bl_orders :: "payment_order list"
  bl_audit :: "audit_row list"
  bl_instances :: "provider_instance list"
  bl_affiliates :: "int64 \<rightharpoonup> affiliate_row"
  bl_aff_ledger :: "affiliate_ledger_row list"
  bl_attempts :: "int64 \<rightharpoonup> int \<times> time"
  bl_locks :: "string \<rightharpoonup> time"

type_synonym billing = "bill store"

subsection \<open>Generic statements\<close>

text \<open>Rounding to the places of a \<open>numeric\<close> column: half away from zero.\<close>

definition numeric :: "int \<Rightarrow> rat \<Rightarrow> rat" where
  "numeric n x = (if x < 0 then - (of_int \<lfloor>- x * pow10 n + 1 / 2\<rfloor> / pow10 n)
     else of_int \<lfloor>x * pow10 n + 1 / 2\<rfloor> / pow10 n)"

definition upd_where :: "('r \<Rightarrow> bool) \<Rightarrow> ('r \<Rightarrow> 'r) \<Rightarrow> 'r list \<Rightarrow> 'r list" where
  "upd_where p g rows = map (\<lambda>r. if p r then g r else r) rows"

definition count_where :: "('r \<Rightarrow> bool) \<Rightarrow> 'r list \<Rightarrow> int" where
  "count_where p rows = int (length (filter p rows))"

definition read :: "(bill \<Rightarrow> 'a) \<Rightarrow> (billing, 'a) fallible" where
  "read f = stmt (\<lambda>t. (Inr (f t), t))"

abbreviation now :: "(billing, time) state" where
  "now \<equiv> peek bl_now"

text \<open>The error text of a store that answers \<open>not found\<close>, and of a violated unique index.\<close>

definition ent_not_found :: go_error where
  "ent_not_found = Plain ''ent: not found''"

definition unique_violation :: go_error where
  "unique_violation = Plain ''duplicate key value violates unique constraint''"

subsection \<open>Orders and the audit log\<close>

definition find_order :: "int64 \<Rightarrow> bill \<Rightarrow> payment_order option" where
  "find_order oid t = find (\<lambda>o'. po_id o' = oid) (bl_orders t)"

definition get_order :: "int64 \<Rightarrow> (billing, payment_order) fallible" where
  "get_order oid = stmt (\<lambda>t. (case find_order oid t of None \<Rightarrow> Inl ent_not_found | Some o' \<Rightarrow> Inr o', t))"

definition touch :: "time \<Rightarrow> (payment_order \<Rightarrow> payment_order) \<Rightarrow> payment_order \<Rightarrow> payment_order" where
  "touch n g o' = (g o')\<lparr>po_updated_at := n\<rparr>"

text \<open>\<open>UPDATE payment_orders SET .. WHERE id = oid AND p\<close>, with the number of rows changed.\<close>

definition update_order ::
  "int64 \<Rightarrow> (payment_order \<Rightarrow> bool) \<Rightarrow> (payment_order \<Rightarrow> payment_order) \<Rightarrow> bill \<Rightarrow> (go_error + int) \<times> bill" where
  "update_order oid p g t =
     (let q = (\<lambda>o'. po_id o' = oid \<and> p o') in
      (Inr (count_where q (bl_orders t)),
       t\<lparr>bl_orders := upd_where q (touch (bl_now t) g) (bl_orders t)\<rparr>))"

definition update_one_order ::
  "int64 \<Rightarrow> (payment_order \<Rightarrow> payment_order) \<Rightarrow> bill \<Rightarrow> (go_error + unit) \<times> bill" where
  "update_one_order oid g t =
     (case find_order oid t of
        None \<Rightarrow> (Inl ent_not_found, t)
      | Some _ \<Rightarrow> (Inr (), snd (update_order oid (\<lambda>_. True) g t)))"

definition audited :: "int64 \<Rightarrow> string \<Rightarrow> bill \<Rightarrow> bool" where
  "audited oid action t \<longleftrightarrow> (\<exists>a \<in> set (bl_audit t). al_order_id a = oid \<and> al_action a = action)"

definition insert_audit ::
  "int64 \<Rightarrow> string \<Rightarrow> string \<Rightarrow> (string \<times> jval) list \<Rightarrow> bill \<Rightarrow> (go_error + unit) \<times> bill" where
  "insert_audit oid action op detail t =
     (if audited oid action t then (Inl unique_violation, t)
      else (Inr (), t\<lparr>bl_audit := bl_audit t @
        [\<lparr>al_order_id = oid, al_action = action, al_detail = detail, al_operator = op,
          al_created_at = bl_now t\<rparr>]\<rparr>))"

text \<open>\<open>writeAuditLog\<close>: an error is logged and dropped.\<close>

definition write_audit_log ::
  "int64 \<Rightarrow> string \<Rightarrow> string \<Rightarrow> (string \<times> jval) list \<Rightarrow> (billing, unit) state" where
  "write_audit_log oid action op detail =
     do { _ \<leftarrow> stmt (insert_audit oid action op detail); State_Monad.return () }"

definition has_audit_log :: "int64 \<Rightarrow> string \<Rightarrow> (billing, bool) state" where
  "has_audit_log oid action =
     do { r \<leftarrow> read (audited oid action);
          State_Monad.return (case r of Inl _ \<Rightarrow> False | Inr b \<Rightarrow> b) }"

subsection \<open>Users\<close>

definition err_user_not_found :: app_error where
  "err_user_not_found = not_found ''USER_NOT_FOUND'' ''user not found''"

definition get_user :: "int64 \<Rightarrow> (billing, user_row) fallible" where
  "get_user uid = stmt (\<lambda>t. (case bl_users t uid of
     None \<Rightarrow> Inl (with_cause err_user_not_found ''ent: not found'') | Some u \<Rightarrow> Inr u, t))"

definition update_user :: "int64 \<Rightarrow> (user_row \<Rightarrow> user_row) \<Rightarrow> bill \<Rightarrow> (go_error + unit) \<times> bill" where
  "update_user uid g t =
     (case bl_users t uid of
        None \<Rightarrow> (Inl (App err_user_not_found), t)
      | Some u \<Rightarrow> (Inr (), t\<lparr>bl_users := (bl_users t)(uid \<mapsto> g u)\<rparr>))"

definition add_balance :: "rat \<Rightarrow> user_row \<Rightarrow> user_row" where
  "add_balance amount u = u\<lparr>us_balance := us_balance u + amount,
     us_total_recharged := us_total_recharged u + (if 0 < amount then amount else 0)\<rparr>"

definition update_balance :: "int64 \<Rightarrow> rat \<Rightarrow> bill \<Rightarrow> (go_error + unit) \<times> bill" where
  "update_balance uid amount = update_user uid (add_balance amount)"

text \<open>
  \<open>DeductBalance\<close>: the guarded update first, then the unguarded one that lets the balance go below
  zero.  Each is a statement.
\<close>

definition deduct_balance :: "int64 \<Rightarrow> rat \<Rightarrow> (billing, unit) fallible" where
  "deduct_balance uid amount =
     (let take = (\<lambda>u. u\<lparr>us_balance := us_balance u - amount\<rparr>) in
      tryM (\<lambda>e. e)
        (stmt (\<lambda>t. (case bl_users t uid of
           None \<Rightarrow> (Inr False, t)
         | Some u \<Rightarrow> if amount \<le> us_balance u then (Inr True, snd (update_user uid take t)) else (Inr False, t))))
        (\<lambda>done. if done then okM () else stmt (update_user uid take)))"

definition update_concurrency :: "int64 \<Rightarrow> int \<Rightarrow> bill \<Rightarrow> (go_error + unit) \<times> bill" where
  "update_concurrency uid delta = update_user uid (\<lambda>u. u\<lparr>us_concurrency := us_concurrency u + delta\<rparr>)"

subsection \<open>Groups\<close>

definition err_group_not_found :: app_error where
  "err_group_not_found = not_found ''GROUP_NOT_FOUND'' ''group not found''"

definition get_group :: "int64 \<Rightarrow> (billing, group_row) fallible" where
  "get_group gid = stmt (\<lambda>t. (case bl_groups t gid of
     None \<Rightarrow> Inl (with_cause err_group_not_found ''ent: not found'') | Some g \<Rightarrow> Inr g, t))"

definition is_subscription_type :: "group_row \<Rightarrow> bool" where
  "is_subscription_type g \<longleftrightarrow> gr_subscription_type g = ''subscription''"

end
