(* ===== verification/Subscriptions.thy ===== *)
theory Subscriptions
  imports BillingTables
begin

section \<open>Subscriptions\<close>

text \<open>
  \<open>service/user_subscription.go\<close>, \<open>service/subscription_service.go\<close> and
  \<open>repository/user_subscription_repo.go\<close>: the windows and limits of a subscription, granting and
  extending its term, and the maintenance of its usage windows.  The model runs without the two
  caches of the service (the in-process one is a configuration option, the other holds no state
  that a decision here reads); \<open>AddDate(0, 0, n)\<close> and the start of the day are those of a location
  at a fixed offset \<open>tz\<close> from UTC.
\<close>

subsection \<open>Windows and limits\<close>

definition zero_time :: time where
  "zero_time = - 62135596800 * second"

definition max_expires_at :: time where
  "max_expires_at = 4102444799 * second"

definition max_validity_days :: int where
  "max_validity_days = 36500"

definition add_days :: "time \<Rightarrow> int \<Rightarrow> time" where
  "add_days t n = t + n * day"

definition start_of_day :: "duration \<Rightarrow> time \<Rightarrow> time" where
  "start_of_day tz t = t - (t + tz) mod day"

definition sub_is_active :: "time \<Rightarrow> user_subscription \<Rightarrow> bool" where
  "sub_is_active n s \<longleftrightarrow> sb_status s = ''active'' \<and> n < sb_expires_at s"

definition sub_is_expired :: "time \<Rightarrow> user_subscription \<Rightarrow> bool" where
  "sub_is_expired n s \<longleftrightarrow> sb_expires_at s < n"

definition days_remaining :: "time \<Rightarrow> user_subscription \<Rightarrow> int" where
  "days_remaining n s = (if sub_is_expired n s then 0 else go_div (sb_expires_at s - n) day)"

definition is_window_activated :: "user_subscription \<Rightarrow> bool" where
  "is_window_activated s \<longleftrightarrow> sb_daily_start s \<noteq> None \<or> sb_weekly_start s \<noteq> None \<or> sb_monthly_start s \<noteq> None"

definition has_one_time_daily_quota :: "user_subscription \<Rightarrow> bool" where
  "has_one_time_daily_quota s \<longleftrightarrow>
     sb_starts_at s \<noteq> zero_time \<and> sb_expires_at s \<noteq> zero_time \<and>
     sb_expires_at s \<le> add_days (sb_starts_at s) 1"

definition needs_daily_reset :: "time \<Rightarrow> user_subscription \<Rightarrow> bool" where
  "needs_daily_reset n s \<longleftrightarrow>
     (case sb_daily_start s of None \<Rightarrow> False
      | Some w \<Rightarrow> \<not> has_one_time_daily_quota s \<and> w + 24 * hour \<le> n)"

definition needs_weekly_reset :: "time \<Rightarrow> user_subscription \<Rightarrow> bool" where
  "needs_weekly_reset n s \<longleftrightarrow>
     (case sb_weekly_start s of None \<Rightarrow> False | Some w \<Rightarrow> 7 * 24 * hour \<le> n - w)"

definition needs_monthly_reset :: "time \<Rightarrow> user_subscription \<Rightarrow> bool" where
  "needs_monthly_reset n s \<longleftrightarrow>
     (case sb_monthly_start s of None \<Rightarrow> False | Some w \<Rightarrow> 30 * 24 * hour \<le> n - w)"

definition daily_reset_time :: "user_subscription \<Rightarrow> time option" where
  "daily_reset_time s = (case sb_daily_start s of None \<Rightarrow> None
     | Some w \<Rightarrow> Some (if has_one_time_daily_quota s then sb_expires_at s else w + 24 * hour))"

definition weekly_reset_time :: "user_subscription \<Rightarrow> time option" where
  "weekly_reset_time s = map_option (\<lambda>w. w + 7 * 24 * hour) (sb_weekly_start s)"

definition monthly_reset_time :: "user_subscription \<Rightarrow> time option" where
  "monthly_reset_time s = map_option (\<lambda>w. w + 30 * 24 * hour) (sb_monthly_start s)"

definition has_limit :: "rat option \<Rightarrow> bool" where
  "has_limit l \<longleftrightarrow> (case l of None \<Rightarrow> False | Some x \<Rightarrow> 0 < x)"

definition within_limit :: "rat option \<Rightarrow> rat \<Rightarrow> rat \<Rightarrow> bool" where
  "within_limit l used cost \<longleftrightarrow> \<not> has_limit l \<or> used + cost \<le> the l"

definition check_daily_limit :: "user_subscription \<Rightarrow> group_row \<Rightarrow> rat \<Rightarrow> bool" where
  "check_daily_limit s g cost = within_limit (gr_daily_limit g) (sb_daily_usage s) cost"

definition check_weekly_limit :: "user_subscription \<Rightarrow> group_row \<Rightarrow> rat \<Rightarrow> bool" where
  "check_weekly_limit s g cost = within_limit (gr_weekly_limit g) (sb_weekly_usage s) cost"

definition check_monthly_limit :: "user_subscription \<Rightarrow> group_row \<Rightarrow> rat \<Rightarrow> bool" where
  "check_monthly_limit s g cost = within_limit (gr_monthly_limit g) (sb_monthly_usage s) cost"

definition check_all_limits :: "user_subscription \<Rightarrow> group_row \<Rightarrow> rat \<Rightarrow> bool \<times> bool \<times> bool" where
  "check_all_limits s g cost = (check_daily_limit s g cost, check_weekly_limit s g cost, check_monthly_limit s g cost)"

definition err_subscription_not_found :: app_error where
  "err_subscription_not_found = not_found ''SUBSCRIPTION_NOT_FOUND'' ''subscription not found''"
definition err_subscription_expired :: app_error where
  "err_subscription_expired = forbidden ''SUBSCRIPTION_EXPIRED'' ''subscription has expired''"
definition err_subscription_suspended :: app_error where
  "err_subscription_suspended = forbidden ''SUBSCRIPTION_SUSPENDED'' ''subscription is suspended''"
definition err_subscription_exists :: app_error where
  "err_subscription_exists = conflict_error ''SUBSCRIPTION_ALREADY_EXISTS'' ''subscription already exists for this user and group''"
definition err_assign_conflict :: app_error where
  "err_assign_conflict = conflict_error ''SUBSCRIPTION_ASSIGN_CONFLICT'' ''subscription exists but request conflicts with existing assignment semantics''"
definition err_group_type :: app_error where
  "err_group_type = bad_request ''GROUP_NOT_SUBSCRIPTION_TYPE'' ''group is not a subscription type''"
definition err_reset_input :: app_error where
  "err_reset_input = bad_request ''INVALID_INPUT'' ''at least one of resetDaily, resetWeekly, or resetMonthly must be true''"
definition err_daily_limit :: app_error where
  "err_daily_limit = too_many_requests ''DAILY_LIMIT_EXCEEDED'' ''daily usage limit exceeded''"
definition err_weekly_limit :: app_error where
  "err_weekly_limit = too_many_requests ''WEEKLY_LIMIT_EXCEEDED'' ''weekly usage limit exceeded''"
definition err_monthly_limit :: app_error where
  "err_monthly_limit = too_many_requests ''MONTHLY_LIMIT_EXCEEDED'' ''monthly usage limit exceeded''"
definition err_adjust_would_expire :: app_error where
  "err_adjust_would_expire = bad_request ''ADJUST_WOULD_EXPIRE'' ''adjustment would result in expired subscription (remaining days must be > 0)''"
definition err_shorten_expired :: app_error where
  "err_shorten_expired = bad_request ''CANNOT_SHORTEN_EXPIRED'' ''cannot shorten an expired subscription''"

definition check_usage_limits :: "user_subscription \<Rightarrow> group_row \<Rightarrow> rat \<Rightarrow> app_error option" where
  "check_usage_limits s g cost =
     (if \<not> check_daily_limit s g cost then Some err_daily_limit
      else if \<not> check_weekly_limit s g cost then Some err_weekly_limit
      else if \<not> check_monthly_limit s g cost then Some err_monthly_limit
      else None)"

text \<open>
  \<open>ValidateAndCheckLimits\<close> clears in the caller's copy the usage of every window that is over,
  then checks the limits; the result is the copy, whether maintenance is due, and the error.
\<close>

definition corrected :: "time \<Rightarrow> user_subscription \<Rightarrow> user_subscription" where
  "corrected n s =
     (let s1 = (if needs_daily_reset n s then s\<lparr>sb_daily_usage := 0\<rparr> else s);
          s2 = (if needs_weekly_reset n s1 then s1\<lparr>sb_weekly_usage := 0\<rparr> else s1)
      in if needs_monthly_reset n s2 then s2\<lparr>sb_monthly_usage := 0\<rparr> else s2)"

definition validate_and_check_limits ::
  "time \<Rightarrow> user_subscription \<Rightarrow> group_row \<Rightarrow> user_subscription \<times> bool \<times> app_error option" where
  "validate_and_check_limits n s g =
     (if sb_status s = ''expired'' then (s, False, Some err_subscription_expired)
      else if sb_status s = ''suspended'' then (s, False, Some err_subscription_suspended)
      else if sub_is_expired n s then (s, False, Some err_subscription_expired)
      else
        (corrected n s,
         needs_daily_reset n s \<or> needs_weekly_reset n s \<or> needs_monthly_reset n s \<or> \<not> is_window_activated s,
         check_usage_limits (corrected n s) g 0))"

definition normalize_expired_window :: "time \<Rightarrow> user_subscription \<Rightarrow> user_subscription" where
  "normalize_expired_window n s =
     (let s1 = (if needs_daily_reset n s then s\<lparr>sb_daily_start := None, sb_daily_usage := 0\<rparr> else s);
          s2 = (if needs_weekly_reset n s1 then s1\<lparr>sb_weekly_start := None, sb_weekly_usage := 0\<rparr> else s1)
      in if needs_monthly_reset n s2 then s2\<lparr>sb_monthly_start := None, sb_monthly_usage := 0\<rparr> else s2)"

definition normalize_subscription_status :: "time \<Rightarrow> user_subscription \<Rightarrow> user_subscription" where
  "normalize_subscription_status n s =
     (if sb_status s = ''active'' \<and> sb_expires_at s \<le> n then s\<lparr>sb_status := ''expired''\<rparr> else s)"

subsection \<open>The repository\<close>

definition sub_by_id :: "int64 \<Rightarrow> bill \<Rightarrow> user_subscription option" where
  "sub_by_id i t = find (\<lambda>s. \<not> sb_deleted s \<and> sb_id s = i) (bl_subs t)"

definition sub_by_pair :: "int64 \<Rightarrow> int64 \<Rightarrow> bill \<Rightarrow> user_subscription option" where
  "sub_by_pair uid gid t = find (\<lambda>s. \<not> sb_deleted s \<and> sb_user_id s = uid \<and> sb_group_id s = gid) (bl_subs t)"

abbreviation sub_missing :: go_error where
  "sub_missing \<equiv> with_cause err_subscription_not_found ''ent: not found''"

definition get_sub :: "int64 \<Rightarrow> (billing, user_subscription) fallible" where
  "get_sub i = stmt (\<lambda>t. (case sub_by_id i t of None \<Rightarrow> Inl sub_missing | Some s \<Rightarrow> Inr s, t))"

definition get_sub_by_pair :: "int64 \<Rightarrow> int64 \<Rightarrow> (billing, user_subscription) fallible" where
  "get_sub_by_pair uid gid = stmt (\<lambda>t. (case sub_by_pair uid gid t of None \<Rightarrow> Inl sub_missing | Some s \<Rightarrow> Inr s, t))"

definition get_active_subscription :: "int64 \<Rightarrow> int64 \<Rightarrow> (billing, user_subscription) fallible" where
  "get_active_subscription uid gid = stmt (\<lambda>t.
     (case find (\<lambda>s. \<not> sb_deleted s \<and> sb_user_id s = uid \<and> sb_group_id s = gid \<and>
          sb_status s = ''active'' \<and> bl_now t < sb_expires_at s) (bl_subs t) of
        None \<Rightarrow> Inl sub_missing | Some s \<Rightarrow> Inr s, t))"

text \<open>The partial unique index admits one row per user and group that is not deleted.\<close>

definition insert_sub :: "user_subscription \<Rightarrow> bill \<Rightarrow> (go_error + user_subscription) \<times> bill" where
  "insert_sub s t =
     (if sub_by_pair (sb_user_id s) (sb_group_id s) t \<noteq> None
      then (Inl (with_cause err_subscription_exists ''duplicate key value violates unique constraint''), t)
      else let r = s\<lparr>sb_id := bl_next_sub t, sb_deleted := False\<rparr>
        in (Inr r, t\<lparr>bl_subs := bl_subs t @ [r], bl_next_sub := bl_next_sub t + 1\<rparr>))"

definition update_sub :: "int64 \<Rightarrow> (user_subscription \<Rightarrow> user_subscription) \<Rightarrow> bill \<Rightarrow> (go_error + unit) \<times> bill" where
  "update_sub i g t =
     (if find (\<lambda>s. sb_id s = i) (bl_subs t) = None then (Inl sub_missing, t)
      else (Inr (), t\<lparr>bl_subs := upd_where (\<lambda>s. sb_id s = i) g (bl_subs t)\<rparr>))"

definition extend_expiry :: "int64 \<Rightarrow> time \<Rightarrow> bill \<Rightarrow> (go_error + unit) \<times> bill" where
  "extend_expiry i x = update_sub i (\<lambda>s. s\<lparr>sb_expires_at := x\<rparr>)"

definition update_sub_status :: "int64 \<Rightarrow> string \<Rightarrow> bill \<Rightarrow> (go_error + unit) \<times> bill" where
  "update_sub_status i st = update_sub i (\<lambda>s. s\<lparr>sb_status := st\<rparr>)"

definition update_sub_notes :: "int64 \<Rightarrow> string \<Rightarrow> bill \<Rightarrow> (go_error + unit) \<times> bill" where
  "update_sub_notes i notes = update_sub i (\<lambda>s. s\<lparr>sb_notes := notes\<rparr>)"

text \<open>A nil pointer leaves its column alone (\<open>SetNillable..\<close>).\<close>

definition replace_sub :: "user_subscription \<Rightarrow> bill \<Rightarrow> (go_error + unit) \<times> bill" where
  "replace_sub r = update_sub (sb_id r) (\<lambda>s. r\<lparr>
     sb_daily_start := (case sb_daily_start r of None \<Rightarrow> sb_daily_start s | x \<Rightarrow> x),
     sb_weekly_start := (case sb_weekly_start r of None \<Rightarrow> sb_weekly_start s | x \<Rightarrow> x),
     sb_monthly_start := (case sb_monthly_start r of None \<Rightarrow> sb_monthly_start s | x \<Rightarrow> x),
     sb_assigned_by := (case sb_assigned_by r of None \<Rightarrow> sb_assigned_by s | x \<Rightarrow> x),
     sb_deleted := sb_deleted s\<rparr>)"

definition delete_sub :: "int64 \<Rightarrow> bill \<Rightarrow> (go_error + unit) \<times> bill" where
  "delete_sub i t = (Inr (), t\<lparr>bl_subs := upd_where (\<lambda>s. sb_id s = i) (\<lambda>s. s\<lparr>sb_deleted := True\<rparr>) (bl_subs t)\<rparr>)"

definition activate_windows :: "int64 \<Rightarrow> time \<Rightarrow> bill \<Rightarrow> (go_error + unit) \<times> bill" where
  "activate_windows i w = update_sub i (\<lambda>s. s\<lparr>sb_daily_start := Some w, sb_weekly_start := Some w, sb_monthly_start := Some w\<rparr>)"

definition reset_daily_usage :: "int64 \<Rightarrow> time \<Rightarrow> bill \<Rightarrow> (go_error + unit) \<times> bill" where
  "reset_daily_usage i w = update_sub i (\<lambda>s. s\<lparr>sb_daily_usage := 0, sb_daily_start := Some w\<rparr>)"

definition reset_weekly_usage :: "int64 \<Rightarrow> time \<Rightarrow> bill \<Rightarrow> (go_error + unit) \<times> bill" where
  "reset_weekly_usage i w = update_sub i (\<lambda>s. s\<lparr>sb_weekly_usage := 0, sb_weekly_start := Some w\<rparr>)"

definition reset_monthly_usage :: "int64 \<Rightarrow> time \<Rightarrow> bill \<Rightarrow> (go_error + unit) \<times> bill" where
  "reset_monthly_usage i w = update_sub i (\<lambda>s. s\<lparr>sb_monthly_usage := 0, sb_monthly_start := Some w\<rparr>)"

definition increment_usage :: "int64 \<Rightarrow> rat \<Rightarrow> bill \<Rightarrow> (go_error + unit) \<times> bill" where
  "increment_usage i cost t =
     (let p = (\<lambda>s. sb_id s = i \<and> \<not> sb_deleted s \<and> bl_groups t (sb_group_id s) \<noteq> None) in
      (if count_where p (bl_subs t) = 0 then Inl (App err_subscription_not_found) else Inr (),
       t\<lparr>bl_subs := upd_where p (\<lambda>s. s\<lparr>sb_daily_usage := sb_daily_usage s + cost,
          sb_weekly_usage := sb_weekly_usage s + cost, sb_monthly_usage := sb_monthly_usage s + cost\<rparr>) (bl_subs t)\<rparr>))"

definition batch_update_expired_status :: "bill \<Rightarrow> (go_error + int) \<times> bill" where
  "batch_update_expired_status t =
     (let p = (\<lambda>s. sb_status s = ''active'' \<and> sb_expires_at s \<le> bl_now t) in
      (Inr (count_where p (bl_subs t)),
       t\<lparr>bl_subs := upd_where p (\<lambda>s. s\<lparr>sb_status := ''expired''\<rparr>) (bl_subs t)\<rparr>))"

subsection \<open>The service\<close>

record assign_input =
  as_user_id :: int64
  as_group_id :: int64
  as_validity_days :: int
  as_assigned_by :: int64
  as_notes :: string

definition wrap :: "string \<Rightarrow> go_error \<Rightarrow> go_error" where
  "wrap = Wrapped"

definition normalize_assign_days :: "int \<Rightarrow> int" where
  "normalize_assign_days days =
     (let d = (if days \<le> 0 then 30 else days) in if max_validity_days < d then max_validity_days else d)"

definition append_subscription_notes :: "string \<Rightarrow> string \<Rightarrow> string" where
  "append_subscription_notes old new =
     (if new = [] then old else if old = [] then new else old @ [CHR 0x0A] @ new)"

definition renewed_subscription_term ::
  "duration \<Rightarrow> user_subscription \<Rightarrow> string \<Rightarrow> time \<Rightarrow> time \<Rightarrow> user_subscription" where
  "renewed_subscription_term tz s notes starts expires =
     (let w = start_of_day tz starts in
      s\<lparr>sb_starts_at := starts, sb_expires_at := expires, sb_status := ''active'',
        sb_daily_start := Some w, sb_weekly_start := Some w, sb_monthly_start := Some w,
        sb_daily_usage := 0, sb_weekly_usage := 0, sb_monthly_usage := 0,
        sb_notes := append_subscription_notes (sb_notes s) notes\<rparr>)"

text \<open>
  The term is changed in a transaction begun on the service's own client: on a connection of its
  own, whatever transaction the caller's context carries.
\<close>

definition update_existing_term ::
  "duration \<Rightarrow> user_subscription \<Rightarrow> string \<Rightarrow> time \<Rightarrow> time \<Rightarrow> bool \<Rightarrow> (billing, unit) fallible" where
  "update_existing_term tz s notes starts expires expired =
     auto_tx (wrap ''begin transaction'') (wrap ''commit transaction'')
       (if expired then
          tryM (wrap ''renew expired subscription'')
            (auto_stmt (replace_sub (renewed_subscription_term tz s notes starts expires))) okM
        else
          tryM (wrap ''extend subscription'') (auto_stmt (extend_expiry (sb_id s) expires)) (\<lambda>_.
          tryM (wrap ''update subscription status'')
            (if sb_status s = ''active'' then okM () else auto_stmt (update_sub_status (sb_id s) ''active'')) (\<lambda>_.
          tryM (wrap ''update subscription notes'')
            (if notes = [] then okM ()
             else auto_stmt (update_sub_notes (sb_id s) (append_subscription_notes (sb_notes s) notes))) okM)))"

definition new_subscription :: "assign_input \<Rightarrow> time \<Rightarrow> user_subscription" where
  "new_subscription inp n =
     \<lparr>sb_id = 0, sb_user_id = as_user_id inp, sb_group_id = as_group_id inp, sb_starts_at = n,
      sb_expires_at = min (add_days n (normalize_assign_days (as_validity_days inp))) max_expires_at,
      sb_status = ''active'', sb_daily_start = None, sb_weekly_start = None, sb_monthly_start = None,
      sb_daily_usage = 0, sb_weekly_usage = 0, sb_monthly_usage = 0,
      sb_assigned_by = (if 0 < as_assigned_by inp then Some (as_assigned_by inp) else None),
      sb_assigned_at = n, sb_notes = as_notes inp, sb_deleted = False\<rparr>"

definition create_subscription :: "assign_input \<Rightarrow> (billing, user_subscription) fallible" where
  "create_subscription inp =
     do { n \<leftarrow> now;
       tryM (\<lambda>e. e) (stmt (insert_sub (new_subscription inp n))) (\<lambda>s. get_sub (sb_id s)) }"

definition extended_expiry :: "time \<Rightarrow> user_subscription \<Rightarrow> int \<Rightarrow> time" where
  "extended_expiry n s days =
     min (add_days (if sb_expires_at s \<le> n then n else sb_expires_at s) days) max_expires_at"

definition assign_or_extend_subscription ::
  "duration \<Rightarrow> assign_input \<Rightarrow> (billing, user_subscription \<times> bool) fallible" where
  "assign_or_extend_subscription tz inp =
     tryM (wrap ''group not found'') (get_group (as_group_id inp)) (\<lambda>g.
       if \<not> is_subscription_type g then failM (App err_group_type)
       else do {
         existing \<leftarrow> get_sub_by_pair (as_user_id inp) (as_group_id inp);
         case existing of
           Inr s \<Rightarrow> do {
             n \<leftarrow> now;
             tryM (\<lambda>e. e)
               (update_existing_term tz s (as_notes inp) n
                  (extended_expiry n s (normalize_assign_days (as_validity_days inp))) (sb_expires_at s \<le> n))
               (\<lambda>_. tryM (\<lambda>e. e) (get_sub (sb_id s)) (\<lambda>s'. okM (s', True))) }
         | Inl _ \<Rightarrow> tryM (\<lambda>e. e) (create_subscription inp) (\<lambda>s. okM (s, False)) })"

definition detect_assign_conflict :: "user_subscription \<Rightarrow> assign_input \<Rightarrow> string option" where
  "detect_assign_conflict s inp =
     (if sb_starts_at s \<noteq> zero_time \<and>
         sb_expires_at s \<noteq> min (add_days (sb_starts_at s) (normalize_assign_days (as_validity_days inp))) max_expires_at
      then Some ''validity_days_mismatch''
      else if trim_space (sb_notes s) \<noteq> trim_space (as_notes inp) then Some ''notes_mismatch''
      else None)"

definition assign_with_reuse :: "assign_input \<Rightarrow> (billing, user_subscription \<times> bool) fallible" where
  "assign_with_reuse inp =
     tryM (wrap ''group not found'') (get_group (as_group_id inp)) (\<lambda>g.
       if \<not> is_subscription_type g then failM (App err_group_type)
       else tryM (\<lambda>e. e) (read (\<lambda>t. sub_by_pair (as_user_id inp) (as_group_id inp) t \<noteq> None)) (\<lambda>exists.
         if exists then
           tryM (\<lambda>e. e) (get_sub_by_pair (as_user_id inp) (as_group_id inp)) (\<lambda>s.
             case detect_assign_conflict s inp of
               Some reason \<Rightarrow> failM (App (with_metadata err_assign_conflict [(''conflict_reason'', reason)]))
             | None \<Rightarrow> okM (s, True))
         else tryM (\<lambda>e. e) (create_subscription inp) (\<lambda>s. okM (s, False))))"

definition assign_subscription :: "assign_input \<Rightarrow> (billing, user_subscription) fallible" where
  "assign_subscription inp = tryM (\<lambda>e. e) (assign_with_reuse inp) (\<lambda>r. okM (fst r))"

text \<open>The outcome of each user in turn; an error does not stop the loop.\<close>

fun bulk_assign_subscription ::
  "int64 list \<Rightarrow> assign_input \<Rightarrow> (billing, (int64 \<times> (go_error + user_subscription \<times> bool)) list) state" where
  "bulk_assign_subscription [] inp = State_Monad.return []"
| "bulk_assign_subscription (uid # uids) inp =
     do { r \<leftarrow> assign_with_reuse (inp\<lparr>as_user_id := uid\<rparr>);
          rest \<leftarrow> bulk_assign_subscription uids inp;
          State_Monad.return ((uid, r) # rest) }"

definition revoke_subscription :: "int64 \<Rightarrow> (billing, unit) fallible" where
  "revoke_subscription i = tryM (\<lambda>e. e) (get_sub i) (\<lambda>_. stmt (delete_sub i))"

definition extend_subscription :: "int64 \<Rightarrow> int \<Rightarrow> (billing, user_subscription) fallible" where
  "extend_subscription i days0 =
     tryM (\<lambda>_. App err_subscription_not_found) (get_sub i) (\<lambda>s.
       let days = max (min days0 max_validity_days) (- max_validity_days) in do {
         n \<leftarrow> now;
         if sb_expires_at s \<le> n \<and> days < 0 then failM (App err_shorten_expired)
         else let x = extended_expiry n s days in
           if x \<le> n then failM (App err_adjust_would_expire)
           else tryM (\<lambda>e. e) (stmt (extend_expiry i x)) (\<lambda>_.
             tryM (\<lambda>e. e)
               (if sb_status s = ''expired'' then stmt (update_sub_status i ''active'') else okM ())
               (\<lambda>_. get_sub i)) })"

definition check_and_activate_window :: "duration \<Rightarrow> user_subscription \<Rightarrow> (billing, unit) fallible" where
  "check_and_activate_window tz s =
     (if is_window_activated s then okM ()
      else do { n \<leftarrow> now; stmt (activate_windows (sb_id s) (start_of_day tz n)) })"

definition admin_reset_quota ::
  "duration \<Rightarrow> int64 \<Rightarrow> bool \<Rightarrow> bool \<Rightarrow> bool \<Rightarrow> (billing, user_subscription) fallible" where
  "admin_reset_quota tz i daily weekly monthly =
     (if \<not> daily \<and> \<not> weekly \<and> \<not> monthly then failM (App err_reset_input)
      else tryM (\<lambda>e. e) (get_sub i) (\<lambda>s. do {
        n \<leftarrow> now;
        let w = start_of_day tz n in
        tryM (\<lambda>e. e) (if daily then stmt (reset_daily_usage (sb_id s) w) else okM ()) (\<lambda>_.
        tryM (\<lambda>e. e) (if weekly then stmt (reset_weekly_usage (sb_id s) w) else okM ()) (\<lambda>_.
        tryM (\<lambda>e. e) (if monthly then stmt (reset_monthly_usage (sb_id s) w) else okM ()) (\<lambda>_.
        get_sub i))) }))"

text \<open>
  \<open>CheckAndResetWindows\<close> on the caller's copy, which it updates as it goes; the copy is the result.
\<close>

definition check_and_reset_windows ::
  "duration \<Rightarrow> user_subscription \<Rightarrow> (billing, user_subscription) fallible" where
  "check_and_reset_windows tz s = do {
     n \<leftarrow> now;
     let w = start_of_day tz n in
     tryM (\<lambda>e. e) (if needs_daily_reset n s
       then tryM (\<lambda>e. e) (stmt (reset_daily_usage (sb_id s) w)) (\<lambda>_. okM (s\<lparr>sb_daily_start := Some w, sb_daily_usage := 0\<rparr>))
       else okM s) (\<lambda>s1.
     tryM (\<lambda>e. e) (if needs_weekly_reset n s1
       then tryM (\<lambda>e. e) (stmt (reset_weekly_usage (sb_id s) w)) (\<lambda>_. okM (s1\<lparr>sb_weekly_start := Some w, sb_weekly_usage := 0\<rparr>))
       else okM s1) (\<lambda>s2.
     if needs_monthly_reset n s2
       then tryM (\<lambda>e. e) (stmt (reset_monthly_usage (sb_id s) w)) (\<lambda>_. okM (s2\<lparr>sb_monthly_start := Some w, sb_monthly_usage := 0\<rparr>))
       else okM s2)) }"

definition do_window_maintenance :: "duration \<Rightarrow> user_subscription \<Rightarrow> (billing, unit) state" where
  "do_window_maintenance tz s = do {
     _ \<leftarrow> (if is_window_activated s then okM () else check_and_activate_window tz s);
     _ \<leftarrow> check_and_reset_windows tz s;
     State_Monad.return () }"

definition record_usage :: "int64 \<Rightarrow> rat \<Rightarrow> (billing, unit) fallible" where
  "record_usage i cost = stmt (increment_usage i cost)"

definition validate_subscription :: "user_subscription \<Rightarrow> (billing, unit) fallible" where
  "validate_subscription s =
     (if sb_status s = ''expired'' then failM (App err_subscription_expired)
      else if sb_status s = ''suspended'' then failM (App err_subscription_suspended)
      else do { n \<leftarrow> now;
        if sub_is_expired n s then do {
          _ \<leftarrow> stmt (update_sub_status (sb_id s) ''expired'');
          failM (App err_subscription_expired) }
        else okM () })"

end
