(* ===== verification/Affiliate.thy ===== *)
theory Affiliate
  imports Subscriptions
begin

section \<open>Affiliate rebates\<close>

text \<open>
  The money part of \<open>service/affiliate_service.go\<close> and \<open>repository/affiliate_repo.go\<close>: profiles,
  binding an inviter, accruing a rebate, thawing frozen quota and transferring quota to the
  balance.  What the settings service answers is a parameter (\<open>affiliate_settings\<close>).  Referral codes
  are left out: a profile is created with a fresh one.
\<close>

record affiliate_settings =
  an_enabled :: bool
  an_rate_percent :: rat
  an_duration_days :: int
  an_per_invitee_cap :: rat
  an_freeze_hours :: int

definition err_affiliate_quota_empty :: app_error where
  "err_affiliate_quota_empty = bad_request ''AFFILIATE_QUOTA_EMPTY'' ''no affiliate quota available to transfer''"

definition new_affiliate :: "time \<Rightarrow> affiliate_row" where
  "new_affiliate n = \<lparr>af_inviter_id = None, af_rate_percent = None, af_count = 0, af_quota = 0, af_frozen_quota = 0,
     af_history_quota = 0, af_created_at = n\<rparr>"

definition err_affiliate_profile_not_found :: app_error where
  "err_affiliate_profile_not_found = not_found ''AFFILIATE_PROFILE_NOT_FOUND'' ''affiliate profile not found''"

definition query_affiliate :: "int64 \<Rightarrow> (billing, affiliate_row) fallible" where
  "query_affiliate uid = stmt (\<lambda>t. (case bl_affiliates t uid of
     None \<Rightarrow> Inl (App err_affiliate_profile_not_found) | Some a \<Rightarrow> Inr a, t))"

definition ensure_user_affiliate_with_client :: "int64 \<Rightarrow> (billing, affiliate_row) fallible" where
  "ensure_user_affiliate_with_client uid = do {
     r \<leftarrow> query_affiliate uid;
     case r of
       Inr a \<Rightarrow> okM a
     | Inl e \<Rightarrow>
         if \<not> error_is e err_affiliate_profile_not_found then failM e
         else tryM (\<lambda>e. e) (stmt (\<lambda>t. (Inr (), case bl_affiliates t uid of
             None \<Rightarrow> t\<lparr>bl_affiliates := (bl_affiliates t)(uid \<mapsto> new_affiliate (bl_now t))\<rparr>
           | Some _ \<Rightarrow> t))) (\<lambda>_. query_affiliate uid) }"

definition ensure_user_affiliate :: "int64 \<Rightarrow> (billing, affiliate_row) fallible" where
  "ensure_user_affiliate uid =
     (if uid \<le> 0 then failM (App err_user_not_found) else ensure_user_affiliate_with_client uid)"

text \<open>\<open>withTx\<close>: the transaction of the context if it carries one, else a new one.\<close>

definition aff_with_tx :: "bool \<Rightarrow> (billing, 'a) fallible \<Rightarrow> (billing, 'a) fallible" where
  "aff_with_tx in_ctx body =
     (if in_ctx then body
      else in_tx (wrap ''begin affiliate transaction'') (wrap ''commit affiliate transaction'') body)"

definition update_affiliate :: "int64 \<Rightarrow> (affiliate_row \<Rightarrow> affiliate_row) \<Rightarrow> bill \<Rightarrow> (go_error + bool) \<times> bill" where
  "update_affiliate uid g t =
     (case bl_affiliates t uid of
        None \<Rightarrow> (Inr False, t)
      | Some a \<Rightarrow> (Inr True, t\<lparr>bl_affiliates := (bl_affiliates t)(uid \<mapsto> g a)\<rparr>))"

definition insert_ledger :: "affiliate_ledger_row \<Rightarrow> bill \<Rightarrow> (go_error + unit) \<times> bill" where
  "insert_ledger r t = (Inr (), t\<lparr>bl_aff_ledger := bl_aff_ledger t @ [r]\<rparr>)"

definition credit_quota :: "rat \<Rightarrow> int \<Rightarrow> affiliate_row \<Rightarrow> affiliate_row" where
  "credit_quota amount freeze_hours a =
     (if 0 < freeze_hours
      then a\<lparr>af_frozen_quota := af_frozen_quota a + amount, af_history_quota := af_history_quota a + amount\<rparr>
      else a\<lparr>af_quota := af_quota a + amount, af_history_quota := af_history_quota a + amount\<rparr>)"

definition accrue_quota ::
  "bool \<Rightarrow> int64 \<Rightarrow> int64 \<Rightarrow> rat \<Rightarrow> int \<Rightarrow> int64 option \<Rightarrow> (billing, bool) fallible" where
  "accrue_quota in_ctx inviter invitee amount freeze_hours source_order =
     (if amount \<le> 0 then okM False
      else aff_with_tx in_ctx
        (tryM (\<lambda>e. e) (stmt (update_affiliate inviter (credit_quota amount freeze_hours))) (\<lambda>changed.
           if \<not> changed then okM False
           else tryM (wrap ''insert affiliate accrue ledger'')
             (stmt (\<lambda>t. insert_ledger \<lparr>ll_user_id = inviter, ll_action = ''accrue'', ll_amount = amount,
                ll_source_user_id = Some invitee, ll_source_order_id = source_order,
                ll_frozen_until = (if 0 < freeze_hours then Some (bl_now t + freeze_hours * hour) else None)\<rparr> t))
             (\<lambda>_. okM True))))"

definition is_accrual :: "affiliate_ledger_row \<Rightarrow> bool" where
  "is_accrual r \<longleftrightarrow> ll_action r = ''accrue''"

definition ledger_sum :: "(affiliate_ledger_row \<Rightarrow> bool) \<Rightarrow> bill \<Rightarrow> rat" where
  "ledger_sum p t = sum_list (map ll_amount (filter p (bl_aff_ledger t)))"

definition accrued_rebate_from_invitee :: "int64 \<Rightarrow> int64 \<Rightarrow> (billing, rat) fallible" where
  "accrued_rebate_from_invitee inviter invitee =
     read (ledger_sum (\<lambda>r. ll_user_id r = inviter \<and> ll_source_user_id r = Some invitee \<and> is_accrual r))"

definition clamp_rate :: "rat \<Rightarrow> rat" where
  "clamp_rate v = (if v < 0 then 0 else if 100 < v then 100 else v)"

definition resolve_rebate_rate :: "affiliate_settings \<Rightarrow> affiliate_row \<Rightarrow> rat" where
  "resolve_rebate_rate cfg inviter =
     (case af_rate_percent inviter of Some v \<Rightarrow> clamp_rate v | None \<Rightarrow> an_rate_percent cfg)"

definition capped_rebate :: "rat \<Rightarrow> rat \<Rightarrow> rat \<Rightarrow> rat" where
  "capped_rebate cap existing rebate =
     (if cap - existing < rebate then numeric 8 (cap - existing) else rebate)"

definition accrue_invite_rebate_for_order ::
  "affiliate_settings \<Rightarrow> bool \<Rightarrow> int64 \<Rightarrow> rat \<Rightarrow> int64 option \<Rightarrow> (billing, rat) fallible" where
  "accrue_invite_rebate_for_order cfg in_ctx invitee base source_order =
     (if invitee \<le> 0 \<or> base \<le> 0 \<or> \<not> an_enabled cfg then okM 0
      else tryM (\<lambda>e. e) (ensure_user_affiliate invitee) (\<lambda>me.
        case af_inviter_id me of
          None \<Rightarrow> okM 0
        | Some inviter \<Rightarrow>
            if inviter \<le> 0 then okM 0
            else tryM (\<lambda>e. e) (ensure_user_affiliate inviter) (\<lambda>inv. do {
              n \<leftarrow> now;
              if 0 < an_duration_days cfg \<and> add_days (af_created_at me) (an_duration_days cfg) < n then okM 0
              else
                let rebate = numeric 8 (base * (resolve_rebate_rate cfg inv / 100)) in
                if rebate \<le> 0 then okM 0
                else tryM (\<lambda>e. e)
                  (if 0 < an_per_invitee_cap cfg then
                     tryM (\<lambda>e. e) (accrued_rebate_from_invitee inviter invitee) (\<lambda>existing.
                       okM (if an_per_invitee_cap cfg \<le> existing then None
                            else Some (capped_rebate (an_per_invitee_cap cfg) existing rebate)))
                   else okM (Some rebate))
                  (\<lambda>granted. case granted of
                     None \<Rightarrow> okM 0
                   | Some amount \<Rightarrow>
                       tryM (\<lambda>e. e)
                         (accrue_quota in_ctx inviter invitee amount (an_freeze_hours cfg) source_order)
                         (\<lambda>applied. okM (if applied then amount else 0))) })))"

abbreviation accrue_invite_rebate ::
  "affiliate_settings \<Rightarrow> bool \<Rightarrow> int64 \<Rightarrow> rat \<Rightarrow> (billing, rat) fallible" where
  "accrue_invite_rebate cfg in_ctx invitee base \<equiv> accrue_invite_rebate_for_order cfg in_ctx invitee base None"

subsection \<open>Binding, thawing, transferring\<close>

definition bind_inviter :: "int64 \<Rightarrow> int64 \<Rightarrow> (billing, bool) fallible" where
  "bind_inviter uid inviter = aff_with_tx False
     (tryM (\<lambda>e. e) (ensure_user_affiliate_with_client uid) (\<lambda>_.
      tryM (\<lambda>e. e) (ensure_user_affiliate_with_client inviter) (\<lambda>_.
      tryM (wrap ''bind inviter'') (stmt (\<lambda>t. case bl_affiliates t uid of
          Some a \<Rightarrow> if af_inviter_id a = None
            then (Inr True, t\<lparr>bl_affiliates := (bl_affiliates t)(uid \<mapsto> a\<lparr>af_inviter_id := Some inviter\<rparr>)\<rparr>)
            else (Inr False, t)
        | None \<Rightarrow> (Inr False, t))) (\<lambda>bound.
      if \<not> bound then okM False
      else tryM (wrap ''increment inviter aff_count'')
        (stmt (update_affiliate inviter (\<lambda>a. a\<lparr>af_count := af_count a + 1\<rparr>))) (\<lambda>_. okM True)))))"

definition matured :: "int64 \<Rightarrow> time \<Rightarrow> affiliate_ledger_row \<Rightarrow> bool" where
  "matured uid n r \<longleftrightarrow> ll_user_id r = uid \<and> (case ll_frozen_until r of None \<Rightarrow> False | Some f \<Rightarrow> f \<le> n)"

definition thaw_frozen_quota_tx :: "int64 \<Rightarrow> (billing, rat) fallible" where
  "thaw_frozen_quota_tx uid =
     tryM (wrap ''thaw frozen quota'')
       (stmt (\<lambda>t. (Inr (ledger_sum (matured uid (bl_now t)) t),
          t\<lparr>bl_aff_ledger := upd_where (matured uid (bl_now t)) (\<lambda>r. r\<lparr>ll_frozen_until := None\<rparr>) (bl_aff_ledger t)\<rparr>)))
       (\<lambda>thawed.
          if thawed \<le> 0 then okM 0
          else tryM (wrap ''move thawed quota'')
            (stmt (update_affiliate uid (\<lambda>a. a\<lparr>af_quota := af_quota a + thawed,
               af_frozen_quota := max (af_frozen_quota a - thawed) 0\<rparr>)))
            (\<lambda>_. okM thawed))"

definition thaw_frozen_quota :: "int64 \<Rightarrow> (billing, rat) fallible" where
  "thaw_frozen_quota uid = aff_with_tx False (thaw_frozen_quota_tx uid)"

text \<open>The claim clears the quota it returns in one statement.\<close>

definition claim_quota :: "int64 \<Rightarrow> bill \<Rightarrow> (go_error + rat) \<times> bill" where
  "claim_quota uid t =
     (case bl_affiliates t uid of
        Some a \<Rightarrow> if 0 < af_quota a
          then (Inr (af_quota a), t\<lparr>bl_affiliates := (bl_affiliates t)(uid \<mapsto> a\<lparr>af_quota := 0\<rparr>)\<rparr>)
          else (Inl (App err_affiliate_quota_empty), t)
      | None \<Rightarrow> (Inl (App err_affiliate_quota_empty), t))"

definition transfer_quota_to_balance :: "int64 \<Rightarrow> (billing, rat \<times> rat) fallible" where
  "transfer_quota_to_balance uid = aff_with_tx False
     (tryM (\<lambda>e. e) (ensure_user_affiliate_with_client uid) (\<lambda>_.
      tryM (wrap ''thaw before transfer'') (thaw_frozen_quota_tx uid) (\<lambda>_.
      tryM (\<lambda>e. e) (stmt (claim_quota uid)) (\<lambda>transferred.
      tryM (\<lambda>e. e) (stmt (update_balance uid transferred)) (\<lambda>_.
      tryM (\<lambda>e. e) (get_user uid) (\<lambda>u.
      tryM (wrap ''insert affiliate transfer ledger'')
        (stmt (insert_ledger \<lparr>ll_user_id = uid, ll_action = ''transfer'', ll_amount = transferred,
           ll_source_user_id = None, ll_source_order_id = None, ll_frozen_until = None\<rparr>))
        (\<lambda>_. okM (transferred, us_balance u))))))))"

end
