(* ===== verification/Redeem.thy ===== *)
theory Redeem
  imports Affiliate
begin

section \<open>Redeem codes\<close>

text \<open>
  \<open>service/redeem_code.go\<close>, \<open>service/redeem_service.go\<close>, \<open>repository/redeem_code_repo.go\<close> and
  \<open>repository/redeem_cache.go\<close>: creating, editing and redeeming codes.  The codes generated at
  random are a parameter of \<open>generate_codes\<close>.  Cache invalidations, which change no table, and the
  listings are left out.  \<open>redeem_env\<close> is the configuration of the service: whether it has a Redis
  cache, the affiliate service (if any) and the offset of the server's time zone.
\<close>

record redeem_env =
  re_cache :: bool
  re_affiliate :: "affiliate_settings option"
  re_tz :: duration

definition redeem_max_errors :: int where
  "redeem_max_errors = 20"

definition redeem_rate_limit_duration :: duration where
  "redeem_rate_limit_duration = 24 * hour"

definition redeem_lock_duration :: duration where
  "redeem_lock_duration = 10 * second"

definition err_redeem_code_not_found :: app_error where
  "err_redeem_code_not_found = not_found ''REDEEM_CODE_NOT_FOUND'' ''redeem code not found''"
definition err_redeem_code_used :: app_error where
  "err_redeem_code_used = conflict_error ''REDEEM_CODE_USED'' ''redeem code already used''"
definition err_redeem_code_expired :: app_error where
  "err_redeem_code_expired = conflict_error ''REDEEM_CODE_EXPIRED'' ''redeem code expired''"
definition err_redeem_rate_limited :: app_error where
  "err_redeem_rate_limited = too_many_requests ''REDEEM_RATE_LIMITED'' ''too many failed attempts, please try again later''"
definition err_redeem_code_locked :: app_error where
  "err_redeem_code_locked = conflict_error ''REDEEM_CODE_LOCKED'' ''redeem code is being processed, please try again''"
definition err_redeem_invalid :: app_error where
  "err_redeem_invalid = bad_request ''REDEEM_CODE_INVALID'' ''invalid subscription redeem code: missing group_id''"

subsection \<open>Codes\<close>

definition code_is_used :: "redeem_code \<Rightarrow> bool" where
  "code_is_used c \<longleftrightarrow> rc_status c = ''used''"

definition code_is_expired_at :: "time \<Rightarrow> redeem_code \<Rightarrow> bool" where
  "code_is_expired_at n c \<longleftrightarrow> rc_status c = ''expired'' \<or>
     (rc_status c = ''unused'' \<and> (case rc_expires_at c of None \<Rightarrow> False | Some x \<Rightarrow> x \<le> n))"

definition code_can_use :: "time \<Rightarrow> redeem_code \<Rightarrow> bool" where
  "code_can_use n c \<longleftrightarrow> rc_status c = ''unused'' \<and> \<not> code_is_expired_at n c"

definition find_code :: "string \<Rightarrow> bill \<Rightarrow> redeem_code option" where
  "find_code code t = find (\<lambda>c. rc_code c = code) (bl_codes t)"

definition insert_code :: "redeem_code \<Rightarrow> bill \<Rightarrow> (go_error + redeem_code) \<times> bill" where
  "insert_code c t =
     (if find_code (rc_code c) t \<noteq> None then (Inl unique_violation, t)
      else let r = c\<lparr>rc_id := bl_next_code t, rc_value := numeric 8 (rc_value c)\<rparr>
        in (Inr r, t\<lparr>bl_codes := bl_codes t @ [r], bl_next_code := bl_next_code t + 1\<rparr>))"

definition get_code :: "string \<Rightarrow> (billing, redeem_code) fallible" where
  "get_code code = stmt (\<lambda>t. (case find_code code t of
     None \<Rightarrow> Inl (App err_redeem_code_not_found) | Some c \<Rightarrow> Inr c, t))"

definition get_code_by_id :: "int64 \<Rightarrow> (billing, redeem_code) fallible" where
  "get_code_by_id i = stmt (\<lambda>t. (case find (\<lambda>c. rc_id c = i) (bl_codes t) of
     None \<Rightarrow> Inl (App err_redeem_code_not_found) | Some c \<Rightarrow> Inr c, t))"

definition delete_code_row :: "int64 \<Rightarrow> bill \<Rightarrow> (go_error + unit) \<times> bill" where
  "delete_code_row i t = (Inr (), t\<lparr>bl_codes := filter (\<lambda>c. rc_id c \<noteq> i) (bl_codes t)\<rparr>)"

definition mark_used :: "int64 \<Rightarrow> time \<Rightarrow> redeem_code \<Rightarrow> redeem_code" where
  "mark_used uid n c = c\<lparr>rc_status := ''used'', rc_used_by := Some uid, rc_used_at := Some n\<rparr>"

text \<open>\<open>Use\<close>: the optimistic lock, \<open>WHERE status = 'unused'\<close>.\<close>

definition use_code :: "int64 \<Rightarrow> int64 \<Rightarrow> bill \<Rightarrow> (go_error + unit) \<times> bill" where
  "use_code i uid t =
     (let p = (\<lambda>c. rc_id c = i \<and> rc_status c = ''unused'') in
      if count_where p (bl_codes t) = 0 then (Inl (App err_redeem_code_used), t)
      else (Inr (), t\<lparr>bl_codes := upd_where p (mark_used uid (bl_now t)) (bl_codes t)\<rparr>))"

subsection \<open>Creating and editing codes\<close>

text \<open>A code with an empty type, status or unset fields, as the callers pass it.\<close>

definition default_code :: "string \<Rightarrow> redeem_code" where
  "default_code code = \<lparr>rc_id = 0, rc_code = code, rc_type = '''', rc_value = 0, rc_status = '''',
     rc_used_by = None, rc_used_at = None, rc_notes = '''', rc_expires_at = None, rc_group_id = None,
     rc_validity_days = 0\<rparr>"

definition create_code :: "redeem_code \<Rightarrow> (billing, redeem_code) fallible" where
  "create_code c0 =
     (let code = trim_space (rc_code c0);
          typ = (if rc_type c0 = [] then ''balance'' else rc_type c0);
          c = c0\<lparr>rc_code := code, rc_type := typ,
            rc_status := (if rc_status c0 = [] then ''unused'' else rc_status c0)\<rparr> in
      if code = [] then failM (Plain ''code is required'')
      else if typ \<noteq> ''invitation'' \<and> rc_value c0 = 0 then failM (Plain ''value must not be zero'')
      else do { n \<leftarrow> now;
        if code_is_expired_at n c then failM (App err_redeem_code_expired)
        else tryM (wrap ''create redeem code'') (stmt (insert_code c)) okM })"

fun insert_codes :: "redeem_code list \<Rightarrow> bill \<Rightarrow> (go_error + unit) \<times> bill" where
  "insert_codes [] t = (Inr (), t)"
| "insert_codes (c # cs) t =
     (case insert_code c t of
        (Inl e, _) \<Rightarrow> (Inl e, t)
      | (Inr _, t') \<Rightarrow> (case insert_codes cs t' of (Inl e, _) \<Rightarrow> (Inl e, t) | (Inr _, t'') \<Rightarrow> (Inr (), t'')))"

definition generate_codes ::
  "int \<Rightarrow> rat \<Rightarrow> string \<Rightarrow> string list \<Rightarrow> (billing, redeem_code list) fallible" where
  "generate_codes cnt value typ random =
     (if cnt \<le> 0 then failM (Plain ''count must be greater than 0'')
      else if typ \<noteq> ''invitation'' \<and> value = 0 then failM (Plain ''value must not be zero'')
      else if 1000 < cnt then failM (Plain ''cannot generate more than 1000 codes at once'')
      else
        let code_type = (if typ = [] then ''balance'' else typ);
            v = (if code_type = ''invitation'' then 0 else value);
            codes = map (\<lambda>s. (default_code s)\<lparr>rc_type := code_type, rc_value := v, rc_status := ''unused''\<rparr>)
              (take (nat cnt) random)
        in tryM (wrap ''create batch codes'') (stmt (insert_codes codes)) (\<lambda>_. okM codes))"

definition delete_code :: "int64 \<Rightarrow> (billing, unit) fallible" where
  "delete_code i =
     tryM (wrap ''get redeem code'') (get_code_by_id i) (\<lambda>c.
       if code_is_used c then failM (App (conflict_error ''REDEEM_CODE_DELETE_USED'' ''cannot delete used redeem code''))
       else tryM (wrap ''delete redeem code'') (stmt (delete_code_row i)) okM)"

text \<open>The fields of a batch update: \<open>None\<close> is a field that is not set.\<close>

record batch_fields =
  bf_status :: "string option"
  bf_expires_at :: "time option option"
  bf_notes :: "string option"
  bf_group_id :: "int64 option option"
  bf_type :: "string option"
  bf_value :: "rat option"

definition has_changes :: "batch_fields \<Rightarrow> bool" where
  "has_changes f \<longleftrightarrow> bf_status f \<noteq> None \<or> bf_expires_at f \<noteq> None \<or> bf_notes f \<noteq> None \<or>
     bf_group_id f \<noteq> None \<or> bf_type f \<noteq> None \<or> bf_value f \<noteq> None"

definition has_core_field_changes :: "batch_fields \<Rightarrow> bool" where
  "has_core_field_changes f \<longleftrightarrow> bf_type f \<noteq> None \<or> bf_value f \<noteq> None"

definition touches_used_sensitive :: "batch_fields \<Rightarrow> bool" where
  "touches_used_sensitive f \<longleftrightarrow> bf_status f \<noteq> None \<or> bf_expires_at f \<noteq> None \<or> bf_group_id f \<noteq> None"

definition apply_batch :: "batch_fields \<Rightarrow> redeem_code \<Rightarrow> redeem_code" where
  "apply_batch f c = c\<lparr>
     rc_status := (case bf_status f of None \<Rightarrow> rc_status c | Some x \<Rightarrow> x),
     rc_notes := (case bf_notes f of None \<Rightarrow> rc_notes c | Some x \<Rightarrow> x),
     rc_expires_at := (case bf_expires_at f of None \<Rightarrow> rc_expires_at c | Some x \<Rightarrow> x),
     rc_group_id := (case bf_group_id f of None \<Rightarrow> rc_group_id c | Some x \<Rightarrow> x)\<rparr>"

text \<open>
  The transaction of \<open>batchUpdate\<close> reads the rows, rejects used codes, then updates without a
  condition on the status.  Nothing is locked until the update, so the others may interfere between
  the two: the read stands before the transaction of the model, which holds the update.
\<close>

definition batch_write :: "int64 list \<Rightarrow> batch_fields \<Rightarrow> (billing, int) fallible" where
  "batch_write ids f =
     tryM (\<lambda>e. e) (stmt (\<lambda>t. (Inr (count_where (\<lambda>c. rc_id c \<in> set ids) (bl_codes t)),
         t\<lparr>bl_codes := upd_where (\<lambda>c. rc_id c \<in> set ids) (apply_batch f) (bl_codes t)\<rparr>))) (\<lambda>affected.
       if affected \<noteq> int (length ids) then failM (App err_redeem_code_not_found)
       else okM affected)"

definition batch_update_rows :: "int64 list \<Rightarrow> batch_fields \<Rightarrow> (billing, int) fallible" where
  "batch_update_rows ids f =
     tryM (\<lambda>e. e) (read (\<lambda>t. filter (\<lambda>c. rc_id c \<in> set ids) (bl_codes t))) (\<lambda>existing.
       if length existing \<noteq> length ids then failM (App err_redeem_code_not_found)
       else if touches_used_sensitive f \<and> (\<exists>c \<in> set existing. code_is_used c) then failM (App err_redeem_code_used)
       else in_tx (\<lambda>e. e) (\<lambda>e. e) (batch_write ids f))"

definition batch_update :: "int64 list \<Rightarrow> batch_fields \<Rightarrow> (billing, int) fallible" where
  "batch_update ids0 f =
     (if ids0 = [] then failM (App (bad_request ''REDEEM_CODE_BATCH_UPDATE_IDS_REQUIRED'' ''ids are required''))
      else if \<not> has_changes f then failM (App (bad_request ''REDEEM_CODE_BATCH_UPDATE_EMPTY'' ''at least one field must be selected''))
      else if has_core_field_changes f then failM (App (bad_request ''REDEEM_CODE_CORE_FIELDS_IMMUTABLE'' ''type and value cannot be batch updated''))
      else if \<exists>i \<in> set ids0. i \<le> 0 then failM (App (bad_request ''REDEEM_CODE_BATCH_UPDATE_INVALID_ID'' ''ids must be positive''))
      else if bf_status f \<notin> {None, Some ''unused'', Some ''disabled''} then
        failM (App (bad_request ''REDEEM_CODE_STATUS_INVALID'' ''status must be unused or disabled''))
      else do { n \<leftarrow> now;
        if (case bf_expires_at f of Some (Some x) \<Rightarrow> x \<le> n | _ \<Rightarrow> False) then
          failM (App (bad_request ''REDEEM_CODE_EXPIRES_AT_INVALID'' ''expires_at must be in the future''))
        else if (case bf_group_id f of Some (Some g) \<Rightarrow> g \<le> 0 | _ \<Rightarrow> False) then
          failM (App (bad_request ''REDEEM_CODE_GROUP_ID_INVALID'' ''group_id must be positive''))
        else batch_update_rows (remdups ids0) f })"

subsection \<open>Redeeming\<close>

definition get_attempts :: "int64 \<Rightarrow> (billing, int) fallible" where
  "get_attempts uid = read (\<lambda>t. case bl_attempts t uid of
     Some (k, expires) \<Rightarrow> if bl_now t < expires then k else 0 | None \<Rightarrow> 0)"

definition increment_attempts :: "int64 \<Rightarrow> (billing, unit) fallible" where
  "increment_attempts uid = stmt (\<lambda>t.
     let k = (case bl_attempts t uid of Some (k, expires) \<Rightarrow> if bl_now t < expires then k else 0 | None \<Rightarrow> 0) in
     (Inr (), t\<lparr>bl_attempts := (bl_attempts t)(uid \<mapsto> (k + 1, bl_now t + redeem_rate_limit_duration))\<rparr>))"

definition lock_set_nx :: "string \<Rightarrow> (billing, bool) fallible" where
  "lock_set_nx code = stmt (\<lambda>t.
     if (case bl_locks t code of Some expires \<Rightarrow> bl_now t < expires | None \<Rightarrow> False) then (Inr False, t)
     else (Inr True, t\<lparr>bl_locks := (bl_locks t)(code \<mapsto> bl_now t + redeem_lock_duration)\<rparr>))"

definition lock_del :: "string \<Rightarrow> (billing, unit) fallible" where
  "lock_del code = stmt (\<lambda>t. (Inr (), t\<lparr>bl_locks := (bl_locks t)(code := None)\<rparr>))"

definition check_redeem_rate_limit :: "redeem_env \<Rightarrow> int64 \<Rightarrow> (billing, unit) fallible" where
  "check_redeem_rate_limit env uid =
     (if \<not> re_cache env then okM ()
      else do { r \<leftarrow> get_attempts uid;
        case r of
          Inl _ \<Rightarrow> okM ()
        | Inr k \<Rightarrow> if redeem_max_errors \<le> k then failM (App err_redeem_rate_limited) else okM () })"

definition increment_redeem_error_count :: "redeem_env \<Rightarrow> int64 \<Rightarrow> (billing, unit) state" where
  "increment_redeem_error_count env uid =
     (if \<not> re_cache env then State_Monad.return ()
      else do { _ \<leftarrow> increment_attempts uid; State_Monad.return () })"

text \<open>An error of Redis does not stop the redemption: the database decides.\<close>

definition acquire_redeem_lock :: "redeem_env \<Rightarrow> string \<Rightarrow> (billing, bool) state" where
  "acquire_redeem_lock env code =
     (if \<not> re_cache env then State_Monad.return True
      else do { r \<leftarrow> lock_set_nx code;
        State_Monad.return (case r of Inl _ \<Rightarrow> True | Inr ok \<Rightarrow> ok) })"

definition release_redeem_lock :: "redeem_env \<Rightarrow> string \<Rightarrow> (billing, unit) state" where
  "release_redeem_lock env code =
     (if \<not> re_cache env then State_Monad.return ()
      else do { _ \<leftarrow> lock_del code; State_Monad.return () })"

text \<open>The UTF-8 text of the notes a redemption leaves on the subscription.\<close>

definition note_code :: string where
  "note_code = [CHR 0xE9, CHR 0x80, CHR 0x9A, CHR 0xE8, CHR 0xBF, CHR 0x87, CHR 0xE5, CHR 0x85, CHR 0x91, CHR 0xE6, CHR 0x8D, CHR 0xA2, CHR 0xE7, CHR 0xA0, CHR 0x81, CHR 0x20]"
definition note_redeemed :: string where
  "note_redeemed = [CHR 0x20, CHR 0xE5, CHR 0x85, CHR 0x91, CHR 0xE6, CHR 0x8D, CHR 0xA2]"
definition note_refund :: string where
  "note_refund = [CHR 0x20, CHR 0xE9, CHR 0x80, CHR 0x80, CHR 0xE6, CHR 0xAC, CHR 0xBE, CHR 0xE6, CHR 0x89, CHR 0xA3, CHR 0xE5, CHR 0x87, CHR 0x8F, CHR 0x20]"
definition note_days :: string where
  "note_days = [CHR 0x20, CHR 0xE5, CHR 0xA4, CHR 0xA9]"

definition reduce_or_cancel_subscription ::
  "int64 \<Rightarrow> int64 \<Rightarrow> int \<Rightarrow> string \<Rightarrow> (billing, unit) fallible" where
  "reduce_or_cancel_subscription uid gid reduce_days code =
     tryM (\<lambda>_. App err_subscription_not_found) (get_sub_by_pair uid gid) (\<lambda>s. do {
       n \<leftarrow> now;
       let remaining = max (go_div (sb_expires_at s - n) day) 0;
           notes = note_code @ code @ note_refund @ itoa reduce_days @ note_days in
       tryM (\<lambda>e. e)
         (if remaining \<le> reduce_days then
            tryM (wrap ''cancel subscription'') (stmt (update_sub_status (sb_id s) ''expired'')) (\<lambda>_.
            tryM (wrap ''set subscription expiry'') (stmt (extend_expiry (sb_id s) n)) okM)
          else
            tryM (wrap ''reduce subscription'')
              (stmt (extend_expiry (sb_id s) (add_days (sb_expires_at s) (- reduce_days)))) okM)
         (\<lambda>_. tryM (wrap ''update subscription notes'')
            (stmt (update_sub_notes (sb_id s) (append_subscription_notes (sb_notes s) notes))) okM) })"

text \<open>What the code grants, in the transaction that marked it used.\<close>

definition clamped :: "rat \<Rightarrow> rat \<Rightarrow> rat" where
  "clamped have_now amount = (if amount < 0 \<and> have_now + amount < 0 then - have_now else amount)"

definition clamped_int :: "int \<Rightarrow> int \<Rightarrow> int" where
  "clamped_int have_now delta = (if delta < 0 \<and> have_now + delta < 0 then - have_now else delta)"

definition grant :: "redeem_env \<Rightarrow> user_row \<Rightarrow> int64 \<Rightarrow> redeem_code \<Rightarrow> (billing, unit) fallible" where
  "grant env user uid c =
     (if rc_type c = ''balance'' then
        tryM (wrap ''update user balance'') (stmt (update_balance uid (clamped (us_balance user) (rc_value c)))) okM
      else if rc_type c = ''concurrency'' then
        tryM (wrap ''update user concurrency'')
          (stmt (update_concurrency uid (clamped_int (us_concurrency user) (rat_truncate (rc_value c))))) okM
      else if rc_type c = ''subscription'' then
        if rc_validity_days c < 0 then
          tryM (wrap ''reduce or cancel subscription'')
            (reduce_or_cancel_subscription uid (the (rc_group_id c)) (- rc_validity_days c) (rc_code c)) okM
        else
          tryM (wrap ''assign or extend subscription'')
            (assign_or_extend_subscription (re_tz env)
               \<lparr>as_user_id = uid, as_group_id = the (rc_group_id c),
                as_validity_days = (if rc_validity_days c = 0 then 30 else rc_validity_days c),
                as_assigned_by = 0, as_notes = note_code @ rc_code c @ note_redeemed\<rparr>) (\<lambda>_. okM ())
      else failM (Plain (''unsupported redeem type: '' @ rc_type c)))"

definition redeem_error :: "go_error \<Rightarrow> go_error" where
  "redeem_error e =
     (if error_is e err_redeem_code_not_found \<or> error_is e err_redeem_code_used
      then App err_redeem_code_used else Wrapped ''mark code as used'' e)"

definition redeem_tx :: "redeem_env \<Rightarrow> user_row \<Rightarrow> int64 \<Rightarrow> redeem_code \<Rightarrow> (billing, unit) fallible" where
  "redeem_tx env user uid c =
     in_tx (wrap ''begin transaction'') (wrap ''commit transaction'')
       (tryM redeem_error (stmt (use_code (rc_id c) uid)) (\<lambda>_. grant env user uid c))"

definition accrue_for_redeem :: "redeem_env \<Rightarrow> bool \<Rightarrow> int64 \<Rightarrow> redeem_code \<Rightarrow> (billing, unit) state" where
  "accrue_for_redeem env skip uid c =
     (case re_affiliate env of
        Some cfg \<Rightarrow>
          if rc_type c = ''balance'' \<and> 0 < rc_value c \<and> \<not> skip \<and> an_enabled cfg then
            do { _ \<leftarrow> accrue_invite_rebate cfg False uid (rc_value c); State_Monad.return () }
          else State_Monad.return ()
      | None \<Rightarrow> State_Monad.return ())"

definition redeem_use :: "redeem_env \<Rightarrow> bool \<Rightarrow> int64 \<Rightarrow> redeem_code \<Rightarrow> (billing, redeem_code) fallible" where
  "redeem_use env skip uid c =
     tryM (wrap ''get user'') (get_user uid) (\<lambda>user.
     tryM (\<lambda>e. e) (redeem_tx env user uid c) (\<lambda>_. do {
       _ \<leftarrow> accrue_for_redeem env skip uid c;
       tryM (wrap ''get updated redeem code'') (get_code_by_id (rc_id c)) okM }))"

definition redeem_found :: "redeem_env \<Rightarrow> bool \<Rightarrow> int64 \<Rightarrow> redeem_code \<Rightarrow> (billing, redeem_code) fallible" where
  "redeem_found env skip uid c = do {
     n \<leftarrow> now;
     if code_is_expired_at n c then do {
       _ \<leftarrow> increment_redeem_error_count env uid; failM (App err_redeem_code_expired) }
     else if \<not> code_can_use n c then do {
       _ \<leftarrow> increment_redeem_error_count env uid; failM (App err_redeem_code_used) }
     else if rc_type c = ''subscription'' \<and> rc_group_id c = None then failM (App err_redeem_invalid)
     else redeem_use env skip uid c }"

definition redeem_locked :: "redeem_env \<Rightarrow> bool \<Rightarrow> int64 \<Rightarrow> string \<Rightarrow> (billing, redeem_code) fallible" where
  "redeem_locked env skip uid code = do {
     found \<leftarrow> get_code code;
     case found of
       Inl e \<Rightarrow>
         if error_is e err_redeem_code_not_found then do {
           _ \<leftarrow> increment_redeem_error_count env uid;
           failM (App err_redeem_code_not_found) }
         else failM (Wrapped ''get redeem code'' e)
     | Inr c \<Rightarrow> redeem_found env skip uid c }"

definition redeem :: "redeem_env \<Rightarrow> bool \<Rightarrow> int64 \<Rightarrow> string \<Rightarrow> (billing, redeem_code) fallible" where
  "redeem env skip uid code =
     tryM (\<lambda>e. e) (check_redeem_rate_limit env uid) (\<lambda>_. do {
       locked \<leftarrow> acquire_redeem_lock env code;
       if \<not> locked then failM (App err_redeem_code_locked)
       else do {
         r \<leftarrow> redeem_locked env skip uid code;
         _ \<leftarrow> release_redeem_lock env code;
         State_Monad.return r } })"

end
