(* ===== verification/Accounts.thy ===== *)
theory Accounts
  imports Redeem
begin

section \<open>The books\<close>

text \<open>
  What every handler of the billing tables keeps, whoever runs beside it: the relation \<open>fair\<close>
  between the tables before and after a step.  A used code never changes again, the terms of a code
  never change, an order keeps its deal and moves along \<open>order_flow\<close>, and the recharged total of a
  user changes only by the codes that become used and the quota that is transferred.  The invariant
  \<open>bill_inv\<close> says, above all, that a settled recharge order has a used code of its own.

  The invariant excludes two things the code would let in, both shown to break it elsewhere: a
  balance code with a negative value, and the redemption of an order's code by another user.
\<close>

subsection \<open>What the accounts of a user say\<close>

definition credit_of :: "int64 \<Rightarrow> redeem_code \<Rightarrow> rat" where
  "credit_of uid c = (if code_is_used c \<and> rc_used_by c = Some uid \<and> rc_type c = ''balance'' \<and> 0 < rc_value c
     then rc_value c else 0)"

definition code_credit :: "int64 \<Rightarrow> bill \<Rightarrow> rat" where
  "code_credit uid t = sum_list (map (credit_of uid) (bl_codes t))"

definition is_transfer_of :: "int64 \<Rightarrow> affiliate_ledger_row \<Rightarrow> bool" where
  "is_transfer_of uid r \<longleftrightarrow> ll_action r = ''transfer'' \<and> ll_user_id r = uid"

definition transfer_credit :: "int64 \<Rightarrow> bill \<Rightarrow> rat" where
  "transfer_credit uid t = ledger_sum (is_transfer_of uid) t"

definition recharged :: "int64 \<Rightarrow> bill \<Rightarrow> rat" where
  "recharged uid t = (case bl_users t uid of None \<Rightarrow> 0 | Some u \<Rightarrow> us_total_recharged u)"

text \<open>The part of the recharged total that neither a used code nor a transfer of quota explains.\<close>

definition unexplained :: "bill \<Rightarrow> int64 \<Rightarrow> rat" where
  "unexplained t uid = recharged uid t - code_credit uid t - transfer_credit uid t"

subsection \<open>The life of an order\<close>

text \<open>
  An order is settled once it was completed.  What a refund does with it stays among the settled
  statuses; as its updates do not name the status they expect, nothing finer holds when two of them
  meet.
\<close>

definition settled :: "order_status \<Rightarrow> bool" where
  "settled s \<longleftrightarrow> s \<in> {COMPLETED, REFUND_REQUESTED, REFUNDING, REFUND_PENDING, PARTIALLY_REFUNDED, REFUNDED, REFUND_FAILED}"

inductive order_flow :: "order_status \<Rightarrow> order_status \<Rightarrow> bool" where
  pay: "s \<in> {PENDING, CANCELLED, EXPIRED, FAILED, PAID} \<Longrightarrow> order_flow s PAID"
| cancel: "order_flow PENDING CANCELLED"
| expire: "order_flow PENDING EXPIRED"
| reject: "order_flow PENDING FAILED"
| claim: "s \<in> {PAID, FAILED} \<Longrightarrow> order_flow s RECHARGING"
| fail: "order_flow RECHARGING FAILED"
| complete: "order_flow RECHARGING COMPLETED"
| rework: "settled s \<Longrightarrow> settled s' \<Longrightarrow> order_flow s s'"

inductive_cases order_flowE: "order_flow s s'"

abbreviation order_flows :: "order_status \<Rightarrow> order_status \<Rightarrow> bool" where
  "order_flows \<equiv> order_flow\<^sup>*\<^sup>*"

lemma settled_flow: "order_flow s s' \<Longrightarrow> settled s \<Longrightarrow> settled s'"
  by (auto simp: settled_def elim: order_flowE)

lemma settled_flows: "order_flows s s' \<Longrightarrow> settled s \<Longrightarrow> settled s'"
  by (induction rule: rtranclp_induct) (auto intro: settled_flow)

definition deal :: "payment_order \<Rightarrow> int64 \<times> int64 \<times> rat \<times> string \<times> string" where
  "deal o' = (po_id o', po_user_id o', po_amount o', po_recharge_code o', po_order_type o')"

definition is_recharge :: "payment_order \<Rightarrow> bool" where
  "is_recharge o' \<longleftrightarrow> po_order_type o' \<noteq> ''subscription''"

subsection \<open>The invariant\<close>

definition distinct_rows :: "bill \<Rightarrow> bool" where
  "distinct_rows t \<longleftrightarrow> distinct (map rc_id (bl_codes t)) \<and> distinct (map rc_code (bl_codes t)) \<and>
     (\<forall>c \<in> set (bl_codes t). rc_id c < bl_next_code t) \<and>
     distinct (map po_id (bl_orders t)) \<and> distinct (map po_recharge_code (bl_orders t))"

text \<open>The recharge code of an order is recognisable, and no code takes balance away.\<close>

definition named_codes :: "bill \<Rightarrow> bool" where
  "named_codes t \<longleftrightarrow> (\<forall>o' \<in> set (bl_orders t). is_recharge o' \<longrightarrow>
       has_prefix (po_recharge_code o') ''PAY-'' \<and> trim_space (po_recharge_code o') = po_recharge_code o' \<and>
       0 \<le> po_amount o') \<and>
     (\<forall>c \<in> set (bl_codes t). rc_type c = ''balance'' \<longrightarrow> 0 \<le> rc_value c)"

text \<open>A code with the recharge code of an order is that order's: its amount, its user.\<close>

definition belongs :: "payment_order \<Rightarrow> redeem_code \<Rightarrow> bool" where
  "belongs o' c \<longleftrightarrow> rc_type c = ''balance'' \<and> rc_value c = numeric 8 (po_amount o') \<and>
     (code_is_used c \<longrightarrow> rc_used_by c = Some (po_user_id o'))"

definition own_codes :: "bill \<Rightarrow> bool" where
  "own_codes t \<longleftrightarrow> (\<forall>o' \<in> set (bl_orders t). \<forall>c \<in> set (bl_codes t).
     is_recharge o' \<longrightarrow> rc_code c = po_recharge_code o' \<longrightarrow> belongs o' c)"

definition backed :: "bill \<Rightarrow> string \<Rightarrow> bool" where
  "backed t code \<longleftrightarrow> (\<exists>c \<in> set (bl_codes t). rc_code c = code \<and> code_is_used c)"

definition settled_backed :: "bill \<Rightarrow> bool" where
  "settled_backed t \<longleftrightarrow> (\<forall>o' \<in> set (bl_orders t).
     is_recharge o' \<longrightarrow> settled (po_status o') \<longrightarrow> backed t (po_recharge_code o'))"

definition bill_inv :: "bill \<Rightarrow> bool" where
  "bill_inv t \<longleftrightarrow> distinct_rows t \<and> named_codes t \<and> own_codes t \<and> settled_backed t"

definition code_terms :: "redeem_code \<Rightarrow> string \<times> string \<times> rat \<times> int" where
  "code_terms c = (rc_code c, rc_type c, rc_value c, rc_validity_days c)"

definition codes_kept :: "bill \<Rightarrow> bill \<Rightarrow> bool" where
  "codes_kept t t' \<longleftrightarrow> bl_next_code t \<le> bl_next_code t' \<and>
     (\<forall>c \<in> set (bl_codes t). code_is_used c \<longrightarrow> c \<in> set (bl_codes t')) \<and>
     (\<forall>c' \<in> set (bl_codes t'). bl_next_code t \<le> rc_id c' \<or>
        (\<exists>c \<in> set (bl_codes t). rc_id c = rc_id c' \<and> code_terms c = code_terms c'))"

definition orders_kept :: "bill \<Rightarrow> bill \<Rightarrow> bool" where
  "orders_kept t t' \<longleftrightarrow> (\<forall>o' \<in> set (bl_orders t). \<exists>o'' \<in> set (bl_orders t').
     deal o'' = deal o' \<and> order_flows (po_status o') (po_status o''))"

definition fair :: "bill \<Rightarrow> bill \<Rightarrow> bool" where
  "fair t t' \<longleftrightarrow> (bill_inv t \<longrightarrow>
     bill_inv t' \<and> (\<forall>uid. unexplained t' uid = unexplained t uid) \<and> codes_kept t t' \<and> orders_kept t t')"

text \<open>A refund takes back and gives back balance, so it keeps the rest only.\<close>

definition kept :: "bill \<Rightarrow> bill \<Rightarrow> bool" where
  "kept t t' \<longleftrightarrow> (bill_inv t \<longrightarrow> bill_inv t' \<and> codes_kept t t' \<and> orders_kept t t')"

lemma codes_kept_refl: "codes_kept t t"
  by (auto simp: codes_kept_def)

lemma codes_kept_trans:
  assumes "codes_kept t u" "codes_kept u v"
  shows "codes_kept t v"
  unfolding codes_kept_def
proof (intro conjI ballI impI)
  show "bl_next_code t \<le> bl_next_code v" using assms by (simp add: codes_kept_def)
  fix c assume "c \<in> set (bl_codes t)" "code_is_used c"
  then show "c \<in> set (bl_codes v)" using assms by (simp add: codes_kept_def)
next
  fix c' assume "c' \<in> set (bl_codes v)"
  then consider "bl_next_code u \<le> rc_id c'"
    | c where "c \<in> set (bl_codes u)" "rc_id c = rc_id c'" "code_terms c = code_terms c'"
    using assms(2) by (auto simp: codes_kept_def)
  then show "bl_next_code t \<le> rc_id c' \<or> (\<exists>c \<in> set (bl_codes t). rc_id c = rc_id c' \<and> code_terms c = code_terms c')"
  proof cases
    case 1
    then show ?thesis using assms(1) by (simp add: codes_kept_def)
  next
    case (2 c)
    have "bl_next_code t \<le> rc_id c \<or> (\<exists>d \<in> set (bl_codes t). rc_id d = rc_id c \<and> code_terms d = code_terms c)"
      using assms(1) 2(1) by (simp add: codes_kept_def)
    then show ?thesis using 2(2,3) by simp
  qed
qed

lemma orders_kept_refl: "orders_kept t t"
  by (auto simp: orders_kept_def)

lemma orders_kept_trans: "orders_kept t u \<Longrightarrow> orders_kept u v \<Longrightarrow> orders_kept t v"
  unfolding orders_kept_def by (metis (no_types, lifting) rtranclp_trans)

interpretation billing: rely_guarantee fair
proof
  show "fair t t" for t
    by (simp add: fair_def codes_kept_refl orders_kept_refl)
  show "fair t u \<Longrightarrow> fair u v \<Longrightarrow> fair t v" for t u v
    unfolding fair_def using codes_kept_trans orders_kept_trans by (metis (no_types))
qed

text \<open>A statement that leaves the accounts, the codes and the orders alone.\<close>

definition same_books :: "bill \<Rightarrow> bill \<Rightarrow> bool" where
  "same_books t t' \<longleftrightarrow> bl_codes t' = bl_codes t \<and> bl_next_code t' = bl_next_code t \<and>
     bl_orders t' = bl_orders t \<and> (\<forall>uid. recharged uid t' = recharged uid t) \<and>
     (\<forall>uid. transfer_credit uid t' = transfer_credit uid t)"

lemma fair_same_books: "same_books t t' \<Longrightarrow> fair t t'"
  by (auto simp: same_books_def fair_def bill_inv_def distinct_rows_def named_codes_def own_codes_def settled_backed_def
      backed_def unexplained_def code_credit_def codes_kept_def orders_kept_def)

lemma fair_refl [simp]: "fair t t"
  by (rule billing.reflexive)

subsection \<open>Statements that do not touch the books\<close>

lemma same_books_refl [simp]: "same_books t t"
  by (simp add: same_books_def)

locale bookkeeping = rely_guarantee R for R :: "bill \<Rightarrow> bill \<Rightarrow> bool" +
  assumes same: "same_books t t' \<Longrightarrow> R t t'"
begin

lemma quiet_stmt: "(\<And>t. same_books t (snd (f t))) \<Longrightarrow> keeps R (stmt f)"
  by (intro keeps_stmt same)

lemma quiet_auto_stmt: "(\<And>t. same_books t (snd (f t))) \<Longrightarrow> keeps R (auto_stmt f)"
  by (intro keeps_auto_stmt same)

lemma keeps_read [keeps_rules]: "keeps R (read f)"
  unfolding read_def by (rule quiet_stmt) simp

end

interpretation billing: bookkeeping fair
  by unfold_locales (rule fair_same_books)

interpretation books: bookkeeping same_books
  by unfold_locales (auto simp: same_books_def)

lemma books_update [simp]:
  "same_books t (t\<lparr>bl_subs := x\<rparr>)" "same_books t (t\<lparr>bl_next_sub := i\<rparr>)"
  "same_books t (t\<lparr>bl_audit := a\<rparr>)" "same_books t (t\<lparr>bl_affiliates := f\<rparr>)"
  "same_books t (t\<lparr>bl_attempts := k\<rparr>)" "same_books t (t\<lparr>bl_locks := l\<rparr>)"
  "same_books t (t\<lparr>bl_subs := x, bl_next_sub := i\<rparr>)"
  by (simp_all add: same_books_def recharged_def transfer_credit_def ledger_sum_def)

lemma books_update_sub [simp]: "same_books t (snd (update_sub i g t))"
  by (simp add: update_sub_def)

lemmas sub_statements = extend_expiry_def update_sub_status_def update_sub_notes_def replace_sub_def
  activate_windows_def reset_daily_usage_def reset_weekly_usage_def reset_monthly_usage_def

lemma books_sub_statements [simp]:
  "same_books t (snd (extend_expiry i x t))" "same_books t (snd (update_sub_status i st t))"
  "same_books t (snd (update_sub_notes i n t))" "same_books t (snd (replace_sub r t))"
  "same_books t (snd (activate_windows i x t))" "same_books t (snd (reset_daily_usage i x t))"
  "same_books t (snd (reset_weekly_usage i x t))" "same_books t (snd (reset_monthly_usage i x t))"
  "same_books t (snd (insert_sub s t))" "same_books t (snd (delete_sub i t))"
  "same_books t (snd (increment_usage i c t))"
  by (simp_all add: sub_statements insert_sub_def delete_sub_def increment_usage_def Let_def)

lemma recharged_update_user: "bl_users t uid = Some u \<Longrightarrow>
    recharged v (snd (update_user uid g t)) = (if v = uid then us_total_recharged (g u) else recharged v t)"
  by (simp add: recharged_def update_user_def)

lemma books_update_concurrency [simp]: "same_books t (snd (update_concurrency uid d t))"
  by (cases "bl_users t uid") (auto simp: update_concurrency_def same_books_def update_user_def recharged_def
      transfer_credit_def ledger_sum_def)

lemma books_update_affiliate [simp]: "same_books t (snd (update_affiliate uid g t))"
  by (simp add: update_affiliate_def split: option.split)

lemma books_insert_accrual [simp]: "is_accrual r \<Longrightarrow> same_books t (snd (insert_ledger r t))"
  by (auto simp: insert_ledger_def same_books_def recharged_def transfer_credit_def ledger_sum_def
      is_accrual_def is_transfer_of_def)

lemma books_insert_audit [simp]: "same_books t (snd (insert_audit oid a op d t))"
  by (simp add: insert_audit_def)

context bookkeeping
begin

lemma keeps_get_group [keeps_rules]: "keeps R (get_group gid)"
  unfolding get_group_def by (rule quiet_stmt) simp

lemma keeps_get_sub [keeps_rules]: "keeps R (get_sub i)"
  unfolding get_sub_def by (rule quiet_stmt) simp

lemma keeps_get_sub_by_pair [keeps_rules]: "keeps R (get_sub_by_pair uid gid)"
  unfolding get_sub_by_pair_def by (rule quiet_stmt) simp

lemma keeps_get_user [keeps_rules]: "keeps R (get_user uid)"
  unfolding get_user_def by (rule quiet_stmt) simp

lemma keeps_update_existing_term [keeps_rules]: "keeps R (update_existing_term tz s notes st x e)"
  unfolding update_existing_term_def by (intro keeps_rules quiet_auto_stmt books_sub_statements)

lemma keeps_create_subscription [keeps_rules]: "keeps R (create_subscription inp)"
  unfolding create_subscription_def by (intro keeps_rules quiet_stmt books_sub_statements)

lemma keeps_assign_or_extend [keeps_rules]: "keeps R (assign_or_extend_subscription tz inp)"
  unfolding assign_or_extend_subscription_def by (intro keeps_rules)

lemma keeps_assign_with_reuse [keeps_rules]: "keeps R (assign_with_reuse inp)"
  unfolding assign_with_reuse_def by (intro keeps_rules)

lemma keeps_revoke [keeps_rules]: "keeps R (revoke_subscription i)"
  unfolding revoke_subscription_def by (intro keeps_rules quiet_stmt books_sub_statements)

lemma keeps_extend [keeps_rules]: "keeps R (extend_subscription i days)"
  unfolding extend_subscription_def by (intro keeps_rules quiet_stmt books_sub_statements)

lemma keeps_maintenance [keeps_rules]: "keeps R (do_window_maintenance tz s)"
  unfolding do_window_maintenance_def check_and_activate_window_def check_and_reset_windows_def
  by (intro keeps_rules quiet_stmt books_sub_statements)

lemma keeps_reduce_or_cancel [keeps_rules]: "keeps R (reduce_or_cancel_subscription uid gid d code)"
  unfolding reduce_or_cancel_subscription_def by (intro keeps_rules quiet_stmt books_sub_statements)

lemma keeps_write_audit [keeps_rules]: "keeps R (write_audit_log oid a op d)"
  unfolding write_audit_log_def by (intro keeps_rules quiet_stmt books_insert_audit)

lemma keeps_has_audit [keeps_rules]: "keeps R (has_audit_log oid a)"
  unfolding has_audit_log_def by (intro keeps_rules)

lemma keeps_query_affiliate [keeps_rules]: "keeps R (query_affiliate uid)"
  unfolding query_affiliate_def by (rule quiet_stmt) simp

lemma keeps_ensure_affiliate [keeps_rules]: "keeps R (ensure_user_affiliate uid)"
  unfolding ensure_user_affiliate_def ensure_user_affiliate_with_client_def
  by (intro keeps_rules quiet_stmt) (simp split: option.split)

lemma keeps_accrue_body [keeps_rules]: "keeps R (accrue_quota True inviter invitee amount h so)"
  unfolding accrue_quota_def aff_with_tx_def if_True
  by (intro keeps_rules quiet_stmt books_update_affiliate books_insert_accrual) (simp add: is_accrual_def)

lemma keeps_accrue [keeps_rules]: "keeps R (accrue_invite_rebate_for_order cfg True uid base so)"
  unfolding accrue_invite_rebate_for_order_def accrued_rebate_from_invitee_def by (intro keeps_rules)

lemma keeps_cache [keeps_rules]:
  "keeps R (check_redeem_rate_limit env uid)" "keeps R (increment_redeem_error_count env uid)"
  "keeps R (acquire_redeem_lock env code)" "keeps R (release_redeem_lock env code)"
  unfolding check_redeem_rate_limit_def get_attempts_def increment_redeem_error_count_def increment_attempts_def
    acquire_redeem_lock_def lock_set_nx_def release_redeem_lock_def lock_del_def
  by (intro keeps_rules quiet_stmt; simp add: Let_def)+

end

subsection \<open>Relations that keep codes and orders\<close>

locale accounting = bookkeeping R for R :: "bill \<Rightarrow> bill \<Rightarrow> bool" +
  assumes of_fair: "fair t t' \<Longrightarrow> R t t'"
    and to_kept: "R t t' \<Longrightarrow> kept t t'"

interpretation billing: accounting fair
  by unfold_locales (auto simp: fair_def kept_def)

interpretation ledgers: accounting kept
proof
  show "kept t t" for t by (simp add: kept_def codes_kept_refl orders_kept_refl)
  show "kept t u \<Longrightarrow> kept u v \<Longrightarrow> kept t v" for t u v
    unfolding kept_def using codes_kept_trans orders_kept_trans by (metis (no_types))
  show "same_books t t' \<Longrightarrow> kept t t'" for t t'
    using fair_same_books [of t t'] by (auto simp: fair_def kept_def)
qed (auto simp: fair_def kept_def)

subsection \<open>Redeeming a code\<close>

text \<open>A code read earlier: a row with its id, if there still is one, has its terms.\<close>

definition known_code :: "redeem_code \<Rightarrow> bill \<Rightarrow> bool" where
  "known_code c t \<longleftrightarrow> rc_id c < bl_next_code t \<and>
     (\<forall>c' \<in> set (bl_codes t). rc_id c' = rc_id c \<longrightarrow> code_terms c' = code_terms c)"

text \<open>A user may redeem a code that is not the recharge code of another user's order.\<close>

definition may_redeem :: "int64 \<Rightarrow> string \<Rightarrow> bill \<Rightarrow> bool" where
  "may_redeem uid code t \<longleftrightarrow> \<not> has_prefix code ''PAY-'' \<or>
     (\<exists>o' \<in> set (bl_orders t). is_recharge o' \<and> po_recharge_code o' = code \<and> po_user_id o' = uid)"

lemma may_redeem_owner:
  assumes "bill_inv t" "may_redeem uid code t" "o' \<in> set (bl_orders t)" "is_recharge o'" "po_recharge_code o' = code"
  shows "po_user_id o' = uid"
proof -
  have d: "distinct (map po_recharge_code (bl_orders t))" using assms(1) by (simp add: bill_inv_def distinct_rows_def)
  have "has_prefix code ''PAY-''" using assms by (auto simp: bill_inv_def named_codes_def)
  then obtain o'' where "o'' \<in> set (bl_orders t)" "po_recharge_code o'' = code" "po_user_id o'' = uid"
    using assms(2) by (auto simp: may_redeem_def)
  then show ?thesis using d assms(3,5) by (metis distinct_map inj_onD)
qed

context accounting
begin

lemma stable_inv: "stable R bill_inv"
  using to_kept by (auto simp: stable_def kept_def)

lemma stable_known: "stable R (\<lambda>t. bill_inv t \<and> known_code c t)"
  unfolding stable_def
proof (intro allI impI conjI)
  fix t t' assume f0: "R t t'" and k: "bill_inv t \<and> known_code c t"
  from to_kept [OF f0] have f: "kept t t'" .
  then show "bill_inv t'" using k by (simp add: kept_def)
  have ck: "codes_kept t t'" using f k by (simp add: kept_def)
  show "known_code c t'"
    unfolding known_code_def
  proof (intro conjI ballI impI)
    show "rc_id c < bl_next_code t'" using ck k by (simp add: codes_kept_def known_code_def)
    fix c' assume c': "c' \<in> set (bl_codes t')" "rc_id c' = rc_id c"
    then have "\<not> bl_next_code t \<le> rc_id c'" using k by (simp add: known_code_def)
    then obtain d where "d \<in> set (bl_codes t)" "rc_id d = rc_id c'" "code_terms d = code_terms c'"
      using ck c'(1) by (auto simp: codes_kept_def)
    then show "code_terms c' = code_terms c" using k c'(2) by (simp add: known_code_def)
  qed
qed

lemma stable_may_redeem: "stable R (\<lambda>t. bill_inv t \<and> may_redeem uid code t)"
  unfolding stable_def
proof (intro allI impI conjI)
  fix t t' assume f0: "R t t'" and k: "bill_inv t \<and> may_redeem uid code t"
  from to_kept [OF f0] have f: "kept t t'" .
  then show "bill_inv t'" using k by (simp add: kept_def)
  have ok: "orders_kept t t'" using f k by (simp add: kept_def)
  show "may_redeem uid code t'"
  proof (cases "has_prefix code ''PAY-''")
    case True
    then obtain o' where o': "o' \<in> set (bl_orders t)" "is_recharge o'" "po_recharge_code o' = code" "po_user_id o' = uid"
      using k by (auto simp: may_redeem_def)
    then obtain o'' where "o'' \<in> set (bl_orders t')" "deal o'' = deal o'"
      using ok by (auto simp: orders_kept_def)
    then have "is_recharge o''" "po_recharge_code o'' = code" "po_user_id o'' = uid"
      using o' by (simp_all add: deal_def is_recharge_def)
    with \<open>o'' \<in> _\<close> show ?thesis unfolding may_redeem_def by blast
  qed (simp add: may_redeem_def)
qed

lemma stable_backed: "stable R (\<lambda>t. bill_inv t \<and> backed t code)"
  using to_kept by (fastforce simp: stable_def kept_def backed_def codes_kept_def)

end

text \<open>Using a code: one row changes.\<close>

lemma use_code_row:
  assumes inv: "distinct_rows t" and u: "use_code i uid t = (Inr (), t')"
  obtains xs c ys where "bl_codes t = xs @ c # ys" "rc_id c = i" "rc_status c = ''unused''"
    "t' = t\<lparr>bl_codes := xs @ mark_used uid (bl_now t) c # ys\<rparr>"
proof -
  let ?p = "\<lambda>c. rc_id c = i \<and> rc_status c = ''unused''"
  have "filter ?p (bl_codes t) \<noteq> []"
    using u by (auto simp: use_code_def count_where_def Let_def split: if_splits)
  then obtain c where c: "c \<in> set (bl_codes t)" "?p c" by (auto simp: filter_empty_conv)
  then obtain xs ys where s: "bl_codes t = xs @ c # ys" by (meson split_list)
  have "distinct (map rc_id (xs @ c # ys))" using inv s by (simp add: distinct_rows_def)
  then have "rc_id c \<notin> rc_id ` set xs" "rc_id c \<notin> rc_id ` set ys" by auto
  then have "\<forall>d \<in> set xs \<union> set ys. rc_id d \<noteq> i" using c(2) by (metis Un_iff image_eqI)
  then have "map (\<lambda>d. if ?p d then mark_used uid (bl_now t) d else d) xs = xs"
    "map (\<lambda>d. if ?p d then mark_used uid (bl_now t) d else d) ys = ys"
    by (auto intro!: map_idI)
  moreover have "t' = t\<lparr>bl_codes := upd_where ?p (mark_used uid (bl_now t)) (bl_codes t)\<rparr>"
    using u by (auto simp: use_code_def Let_def split: if_splits)
  ultimately have "t' = t\<lparr>bl_codes := xs @ mark_used uid (bl_now t) c # ys\<rparr>"
    using c(2) by (simp add: s upd_where_def)
  then show thesis using that s c(2) by blast
qed

lemma mark_used_sel [simp]:
  "rc_id (mark_used uid n c) = rc_id c" "rc_code (mark_used uid n c) = rc_code c"
  "rc_type (mark_used uid n c) = rc_type c" "rc_value (mark_used uid n c) = rc_value c"
  "rc_used_by (mark_used uid n c) = Some uid" "code_is_used (mark_used uid n c)"
  "code_terms (mark_used uid n c) = code_terms c"
  by (simp_all add: mark_used_def code_is_used_def code_terms_def)

text \<open>The books after a code was used and its value was granted.\<close>

lemma fair_use:
  assumes inv: "bill_inv t" and may: "may_redeem uid (rc_code c) t"
    and codes: "bl_codes t = xs @ c # ys" "rc_status c = ''unused''"
      "bl_codes t' = xs @ mark_used uid n c # ys"
    and rest: "bl_next_code t' = bl_next_code t" "bl_orders t' = bl_orders t"
      "\<forall>v. transfer_credit v t' = transfer_credit v t"
    and total: "\<forall>v. recharged v t' = recharged v t + (if v = uid then credit_of uid (mark_used uid n c) else 0)"
  shows "fair t t'"
  unfolding fair_def
proof (intro impI conjI allI)
  have unused: "\<not> code_is_used c" using codes(2) by (simp add: code_is_used_def)
  have sub: "\<exists>d \<in> set (bl_codes t). rc_id d = rc_id d' \<and> code_terms d = code_terms d'"
    if "d' \<in> set (bl_codes t')" for d' using that codes by auto
  show "codes_kept t t'"
    using codes unused rest(1) sub by (auto simp: codes_kept_def)
  show "orders_kept t t'" using rest by (simp add: orders_kept_def) blast
  have "distinct_rows t'" using inv codes rest by (auto simp: bill_inv_def distinct_rows_def)
  moreover have "named_codes t'" using inv codes rest by (auto simp: bill_inv_def named_codes_def)
  moreover have "own_codes t'"
    unfolding own_codes_def
  proof (intro ballI impI)
    fix o' d assume o': "o' \<in> set (bl_orders t')" "d \<in> set (bl_codes t')" "is_recharge o'" "rc_code d = po_recharge_code o'"
    show "belongs o' d"
    proof (cases "d = mark_used uid n c")
      case True
      then have "belongs o' c" using o' inv codes rest by (simp add: bill_inv_def own_codes_def)
      moreover have "po_user_id o' = uid"
        using may_redeem_owner [OF inv may] o' True rest by simp
      ultimately show ?thesis using True by (simp add: belongs_def)
    next
      case False
      then show ?thesis using o' inv codes rest by (auto simp: bill_inv_def own_codes_def)
    qed
  qed
  moreover have "settled_backed t'"
    using inv codes rest by (fastforce simp: bill_inv_def settled_backed_def backed_def)
  ultimately show "bill_inv t'" by (simp add: bill_inv_def)
  show "unexplained t' v = unexplained t v" for v
    using codes unused rest total by (auto simp: unexplained_def code_credit_def credit_of_def)
qed


text \<open>Inside the transaction of a redemption, after the code was marked.\<close>

definition marked :: "int64 \<Rightarrow> redeem_code \<Rightarrow> bill \<Rightarrow> bill \<Rightarrow> bool" where
  "marked uid c t0 t \<longleftrightarrow> (\<exists>xs d ys. bl_codes t0 = xs @ d # ys \<and> rc_id d = rc_id c \<and> rc_status d = ''unused'' \<and>
     bl_codes t = xs @ mark_used uid (bl_now t0) d # ys \<and> bl_next_code t = bl_next_code t0 \<and>
     bl_orders t = bl_orders t0 \<and> (\<forall>v. transfer_credit v t = transfer_credit v t0) \<and>
     (\<forall>v. recharged v t = recharged v t0))"

lemma marked_books: "marked uid c t0 t \<Longrightarrow> same_books t u \<Longrightarrow> marked uid c t0 u"
  by (fastforce simp: marked_def same_books_def)

lemma marked_fair:
  assumes "marked uid c t0 t" and inv: "bill_inv t0" "known_code c t0" "may_redeem uid (rc_code c) t0"
    and t': "bl_codes t' = bl_codes t" "bl_next_code t' = bl_next_code t" "bl_orders t' = bl_orders t"
      "\<forall>v. transfer_credit v t' = transfer_credit v t"
    and total: "\<forall>v. recharged v t' = recharged v t +
      (if v = uid \<and> rc_type c = ''balance'' \<and> 0 < rc_value c then rc_value c else 0)"
  shows "fair t0 t' \<and> backed t' (rc_code c)"
proof -
  obtain xs d ys where d: "bl_codes t0 = xs @ d # ys" "rc_id d = rc_id c" "rc_status d = ''unused''"
    "bl_codes t = xs @ mark_used uid (bl_now t0) d # ys" "bl_next_code t = bl_next_code t0"
    "bl_orders t = bl_orders t0" "\<forall>v. transfer_credit v t = transfer_credit v t0"
    "\<forall>v. recharged v t = recharged v t0"
    using assms(1) unfolding marked_def by blast
  have "code_terms d = code_terms c" using inv(2) d(1,2) by (simp add: known_code_def)
  then have dc: "rc_code d = rc_code c" "rc_type d = rc_type c" "rc_value d = rc_value c"
    by (simp_all add: code_terms_def)
  have "fair t0 t'"
    by (rule fair_use [of t0 uid d xs ys t' "bl_now t0"]) (use inv d dc t' total in \<open>auto simp: credit_of_def\<close>)
  moreover have "backed t' (rc_code c)"
    using d(4) t'(1) dc by (auto simp: backed_def)
  ultimately show ?thesis ..
qed

lemma use_code_marks:
  assumes "bill_inv t0"
  shows "txr (\<lambda>t b. t = t0 \<and> b = t0) (stmt (use_code (rc_id c) uid))
    (\<lambda>r t b. b = t0 \<and> (r = Inr () \<longrightarrow> marked uid c t0 t))"
proof (rule txr_stmt)
  fix t b assume "t = t0 \<and> b = t0"
  moreover have "marked uid c t0 t1" if "use_code (rc_id c) uid t0 = (Inr (), t1)" for t1
  proof -
    have "distinct_rows t0" using assms by (simp add: bill_inv_def)
    then show ?thesis
      by (rule use_code_row [OF _ that])
        (auto simp: marked_def recharged_def transfer_credit_def ledger_sum_def)
  qed
  ultimately show "b = t0 \<and> (fst (use_code (rc_id c) uid t) = Inr () \<longrightarrow> marked uid c t0 (snd (use_code (rc_id c) uid t)))"
    by (metis prod.collapse)
qed simp

lemma grant_fair:
  assumes inv: "bill_inv t0" "known_code c t0" "may_redeem uid (rc_code c) t0"
    and pos: "rc_type c = ''balance'' \<longrightarrow> 0 \<le> rc_value c"
  shows "txr (\<lambda>t b. b = t0 \<and> marked uid c t0 t) (grant env user uid c)
    (\<lambda>r t b. fair t0 b \<and> (\<forall>a. r = Inr a \<longrightarrow> fair t0 t \<and> backed t (rc_code c)))"
proof -
  let ?S = "\<lambda>t b. b = t0 \<and> marked uid c t0 t"
  let ?Q = "\<lambda>r t b. fair t0 b \<and> (\<forall>a. r = Inr a \<longrightarrow> fair t0 t \<and> backed t (rc_code c))"
  have quiet: "txr ?S m ?Q" if k: "keeps same_books m" and n: "rc_type c \<noteq> ''balance''"
    for m :: "(billing, unit) fallible"
    unfolding txr_def
  proof (intro allI impI, clarify)
    fix s r s' assume s: "st_base s = Some t0" "marked uid c t0 (st_tabs s)" and r: "run_state m s = (r, s')"
    have "fair t0 t \<and> backed t (rc_code c)" if "marked uid c t0 t" for t
      by (rule marked_fair [OF that inv]) (use n in auto)
    then show "\<exists>b'. st_base s' = Some b' \<and> set (st_world s') \<subseteq> set (st_world s) \<and> ?Q r (st_tabs s') b'"
      using txrD [OF books.keeps_body [OF k, of "st_tabs s" t0] s(1) _ r] marked_books [OF s(2)]
      by (fastforce intro: fair_same_books)
  qed
  have bal: "txr ?S (stmt (update_balance uid (rc_value c))) ?Q" if b: "rc_type c = ''balance''"
  proof (rule txr_stmt)
    fix t b assume s: "?S t b"
    show "?Q (fst (update_balance uid (rc_value c) t)) (snd (update_balance uid (rc_value c) t)) b"
    proof (cases "bl_users t uid")
      case None
      then show ?thesis using s by (simp add: update_balance_def update_user_def)
    next
      case (Some u)
      let ?t' = "snd (update_balance uid (rc_value c) t)"
      have "fair t0 ?t' \<and> backed ?t' (rc_code c)"
        by (rule marked_fair [of uid c t0 t])
          (use s inv pos b Some in \<open>auto simp: update_balance_def update_user_def add_balance_def
            recharged_def transfer_credit_def ledger_sum_def\<close>)
      then show ?thesis using s by simp
    qed
  qed auto
  have cl: "clamped x (rc_value c) = rc_value c" if "rc_type c = ''balance''" for x
    using pos that by (simp add: clamped_def)
  have conc: "keeps same_books (stmt (update_concurrency uid d))" for d
    by (rule books.quiet_stmt) simp
  show ?thesis
  proof (cases "rc_type c = ''balance''")
    case True
    have "txr ?S (tryM w (stmt (update_balance uid (rc_value c))) okM) ?Q" for w
      by (rule txr_try [where S = "\<lambda>_ t b. fair t0 b \<and> fair t0 t \<and> backed t (rc_code c)"])
        (auto intro!: txr_return txr_conseq [OF bal [OF True]] split: sum.split)
    then show ?thesis using True by (simp add: grant_def cl)
  next
    case False
    have "keeps same_books (grant env user uid c)"
      unfolding grant_def by (intro keeps_rules conc) (use False in auto)
    then show ?thesis by (rule quiet [OF _ False])
  qed
qed

context bookkeeping
begin

lemma runs_accrue: "runs R (accrue_invite_rebate cfg False uid base)"
proof -
  have "runs R (accrue_quota False inviter invitee amount h so)" for inviter invitee amount h so
    using keeps_accrue_body [of inviter invitee amount h so]
    by (auto simp: accrue_quota_def aff_with_tx_def intro: runs_return runs_in_tx)
  then show ?thesis
    unfolding accrue_invite_rebate_for_order_def accrued_rebate_from_invitee_def
    by (intro runs_rules runs_keeps [OF keeps_ensure_affiliate] runs_keeps [OF keeps_read])
qed

lemma runs_accrue_for_redeem: "runs R (accrue_for_redeem env skip uid c)"
  unfolding accrue_for_redeem_def by (intro runs_rules runs_accrue)

end

definition redeems :: "(bill \<Rightarrow> bill \<Rightarrow> bool) \<Rightarrow> int64 \<Rightarrow> string \<Rightarrow> (bill \<Rightarrow> bool) \<Rightarrow> (billing, redeem_code) fallible \<Rightarrow> bool" where
  "redeems R uid code F m \<longleftrightarrow> rg R (\<lambda>t. (bill_inv t \<and> may_redeem uid code t) \<and> F t) m
     (\<lambda>r t. bill_inv t \<and> (\<forall>c. r = Inr c \<longrightarrow> backed t code))"

context accounting
begin

lemma redeem_tx_fair:
  assumes pos: "rc_type c = ''balance'' \<longrightarrow> 0 \<le> rc_value c"
  shows "rg R (\<lambda>t. bill_inv t \<and> known_code c t \<and> may_redeem uid (rc_code c) t) (redeem_tx env user uid c)
    (\<lambda>r t. bill_inv t \<and> (r = Inr () \<longrightarrow> backed t (rc_code c)))"
  unfolding redeem_tx_def
proof (rule in_tx_rule)
  show "stable R (\<lambda>t. bill_inv t \<and> known_code c t \<and> may_redeem uid (rc_code c) t)"
    using stable_known [of c] stable_may_redeem [of uid "rc_code c"] unfolding stable_def by blast
  fix t0 assume t0: "bill_inv t0 \<and> known_code c t0 \<and> may_redeem uid (rc_code c) t0"
  have inv: "bill_inv t \<and> R t0 t" if "fair t0 t" for t using that t0 of_fair by (simp add: fair_def)
  have "txr (\<lambda>t b. t = t0 \<and> b = t0) (tryM redeem_error (stmt (use_code (rc_id c) uid)) (\<lambda>_. grant env user uid c))
      (\<lambda>r t b. fair t0 b \<and> (\<forall>a. r = Inr a \<longrightarrow> fair t0 t \<and> backed t (rc_code c)))"
    by (rule txr_try [where S = "\<lambda>_ t b. b = t0 \<and> marked uid c t0 t"],
        rule txr_conseq [OF use_code_marks], (use t0 in \<open>auto split: sum.split\<close>)[3],
        rule grant_fair, (use t0 pos in auto))
  then show "txr (\<lambda>t b. t = t0 \<and> b = t0) (tryM redeem_error (stmt (use_code (rc_id c) uid)) (\<lambda>_. grant env user uid c))
      (\<lambda>r t b. R t0 b \<and> (case r of
         Inl e \<Rightarrow> bill_inv b \<and> (Inl e = Inr () \<longrightarrow> backed b (rc_code c))
       | Inr a \<Rightarrow> R t0 t \<and> (bill_inv t \<and> (Inr a = Inr () \<longrightarrow> backed t (rc_code c))) \<and>
           (\<forall>e. (bill_inv t \<and> (Inl (wrap ''commit transaction'' (Plain e)) = Inr () \<longrightarrow> backed t (rc_code c))) \<and>
             bill_inv b \<and> (Inl (wrap ''commit transaction'' (Plain e)) = Inr () \<longrightarrow> backed b (rc_code c)))))"
    by (rule txr_conseq) (auto split: sum.split dest: inv)
qed simp

lemma get_code_fair:
  "rg R (\<lambda>t. bill_inv t \<and> may_redeem uid code t) (get_code code)
     (\<lambda>r t. bill_inv t \<and> may_redeem uid code t \<and>
       (\<forall>c. r = Inr c \<longrightarrow> known_code c t \<and> rc_code c = code \<and> (rc_type c = ''balance'' \<longrightarrow> 0 \<le> rc_value c)))"
  unfolding get_code_def
proof (rule stmt_rule [OF stable_may_redeem])
  fix t assume t: "bill_inv t \<and> may_redeem uid code t"
  have "known_code c t \<and> rc_code c = code \<and> (rc_type c = ''balance'' \<longrightarrow> 0 \<le> rc_value c)"
    if f: "find_code code t = Some c" for c
  proof -
    have c: "c \<in> set (bl_codes t)" "rc_code c = code"
      using f by (auto simp: find_code_def find_Some_iff)
    have "distinct (map rc_id (bl_codes t))" "rc_id c < bl_next_code t"
      using t c by (auto simp: bill_inv_def distinct_rows_def)
    then have "known_code c t"
      using c by (auto simp: known_code_def distinct_map dest: inj_onD)
    moreover have "rc_type c = ''balance'' \<longrightarrow> 0 \<le> rc_value c"
      using t c(1) by (simp add: bill_inv_def named_codes_def)
    ultimately show ?thesis using c(2) by simp
  qed
  then show "R t (snd (case find_code code t of None \<Rightarrow> Inl (App err_redeem_code_not_found) | Some c \<Rightarrow> Inr c, t)) \<and>
      bill_inv (snd (case find_code code t of None \<Rightarrow> Inl (App err_redeem_code_not_found) | Some c \<Rightarrow> Inr c, t)) \<and>
      may_redeem uid code (snd (case find_code code t of None \<Rightarrow> Inl (App err_redeem_code_not_found) | Some c \<Rightarrow> Inr c, t)) \<and>
      (\<forall>c. fst (case find_code code t of None \<Rightarrow> Inl (App err_redeem_code_not_found) | Some c \<Rightarrow> Inr c, t) = Inr c \<longrightarrow>
        known_code c (snd (case find_code code t of None \<Rightarrow> Inl (App err_redeem_code_not_found) | Some c \<Rightarrow> Inr c, t)) \<and>
        rc_code c = code \<and> (rc_type c = ''balance'' \<longrightarrow> 0 \<le> rc_value c))"
    using t reflexive by (auto split: option.splits)
qed (auto intro: reflexive)

text \<open>A side step of a redemption that loses nothing the caller may rely on.\<close>

lemma side_step:
  assumes "runs R m" and "stable R P" and "rg R P k Q"
  shows "rg R P (do { _ \<leftarrow> m; k }) Q"
  by (rule bind_rule [OF runs_rg [OF assms(1,2)]]) (rule assms(3))

lemma runs_increment: "runs R (increment_redeem_error_count env uid)"
  by (rule runs_keeps [OF keeps_cache(2)])

lemma redeems_fail: "redeems R uid code F (failM e)"
  unfolding redeems_def by (rule return_rule) auto

lemma stable_redeem: "stable R (\<lambda>t. bill_inv t \<and> F t) \<Longrightarrow>
    stable R (\<lambda>t. (bill_inv t \<and> may_redeem uid code t) \<and> F t)"
  using stable_may_redeem [of uid code] unfolding stable_def by blast

lemma redeems_after:
  "rg R (\<lambda>t. bill_inv t \<and> backed t code)
     (do { _ \<leftarrow> accrue_for_redeem env skip uid c;
           tryM (wrap ''get updated redeem code'') (get_code_by_id (rc_id c)) okM })
     (\<lambda>r t. bill_inv t \<and> (\<forall>c. r = Inr c \<longrightarrow> backed t code))"
proof -
  have "runs R (do { _ \<leftarrow> accrue_for_redeem env skip uid c;
      tryM (wrap ''get updated redeem code'') (get_code_by_id (rc_id c)) okM })"
    unfolding get_code_by_id_def by (intro runs_rules runs_accrue_for_redeem) (simp add: reflexive)
  from runs_rg [OF this stable_backed] show ?thesis by (rule rg_conseq) auto
qed

lemma redeems_use:
  assumes c: "rc_code c = code" "rc_type c = ''balance'' \<longrightarrow> 0 \<le> rc_value c"
  shows "redeems R uid code (known_code c) (redeem_use env skip uid c)"
  unfolding redeems_def redeem_use_def
proof (rule try_rule)
  let ?P = "\<lambda>t. (bill_inv t \<and> may_redeem uid code t) \<and> known_code c t"
  show "rg R ?P (get_user uid) (\<lambda>r t. case r of
      Inl e \<Rightarrow> bill_inv t \<and> (\<forall>c. Inl (wrap ''get user'' e) = Inr c \<longrightarrow> backed t code) | Inr a \<Rightarrow> ?P t)"
    by (rule rg_conseq [OF keeps_rg [OF keeps_get_user stable_redeem [OF stable_known]]])
      (auto split: sum.split)
  fix user
  show "rg R ?P (tryM (\<lambda>e. e) (redeem_tx env user uid c) (\<lambda>_. do {
      _ \<leftarrow> accrue_for_redeem env skip uid c;
      tryM (wrap ''get updated redeem code'') (get_code_by_id (rc_id c)) okM }))
    (\<lambda>r t. bill_inv t \<and> (\<forall>c. r = Inr c \<longrightarrow> backed t code))"
    by (rule try_rule [OF _ redeems_after], rule rg_conseq [OF redeem_tx_fair [OF c(2)]])
      (auto simp: c(1) split: sum.split)
qed

lemma redeems_side: "runs R m \<Longrightarrow> stable R (\<lambda>t. bill_inv t \<and> F t) \<Longrightarrow> redeems R uid code F k \<Longrightarrow>
    redeems R uid code F (do { _ \<leftarrow> m; k })"
  unfolding redeems_def by (rule side_step [OF _ stable_redeem])

lemma redeems_found:
  assumes c: "rc_code c = code" "rc_type c = ''balance'' \<longrightarrow> 0 \<le> rc_value c"
  shows "redeems R uid code (known_code c) (redeem_found env skip uid c)"
proof -
  note side = redeems_side [OF runs_increment stable_known redeems_fail]
  have "redeems R uid code (known_code c) (if code_is_expired_at n c
      then do { _ \<leftarrow> increment_redeem_error_count env uid; failM (App err_redeem_code_expired) }
      else if \<not> code_can_use n c
      then do { _ \<leftarrow> increment_redeem_error_count env uid; failM (App err_redeem_code_used) }
      else if rc_type c = ''subscription'' \<and> rc_group_id c = None then failM (App err_redeem_invalid)
      else redeem_use env skip uid c)" for n
    using side redeems_fail redeems_use [OF c] by (simp split: if_split)
  note step = this [unfolded redeems_def]
  show ?thesis
    unfolding redeems_def redeem_found_def
    by (rule bind_rule [OF peek_rule step]) simp
qed

lemma redeems_locked: "redeems R uid code (\<lambda>_. True) (redeem_locked env skip uid code)"
  unfolding redeems_def redeem_locked_def simp_thms
proof (rule bind_rule [OF get_code_fair])
  fix r :: "go_error + redeem_code"
  let ?Q = "\<lambda>r t. bill_inv t \<and> (\<forall>c :: redeem_code. r = Inr c \<longrightarrow> backed t code)"
  have fail: "redeems R uid code (\<lambda>_. True) (do { _ \<leftarrow> increment_redeem_error_count env uid; failM e })" for e
    by (rule redeems_side [OF runs_increment _ redeems_fail]) (simp add: stable_inv)
  show "rg R (\<lambda>t. bill_inv t \<and> may_redeem uid code t \<and> (\<forall>c. r = Inr c \<longrightarrow>
        known_code c t \<and> rc_code c = code \<and> (rc_type c = ''balance'' \<longrightarrow> 0 \<le> rc_value c)))
      (case r of
         Inl e \<Rightarrow>
           if error_is e err_redeem_code_not_found then do {
             _ \<leftarrow> increment_redeem_error_count env uid;
             failM (App err_redeem_code_not_found) }
           else failM (Wrapped ''get redeem code'' e)
       | Inr c \<Rightarrow> redeem_found env skip uid c) ?Q"
  proof (cases r)
    case (Inl e)
    then show ?thesis
      using fail redeems_fail [of uid code "\<lambda>_. True"] by (simp add: redeems_def)
  next
    case (Inr c)
    show ?thesis
      unfolding Inr sum.case
      by (rule rg_pre [where b = "rc_code c = code \<and> (rc_type c = ''balance'' \<longrightarrow> 0 \<le> rc_value c)"])
        (auto intro!: rg_conseq [OF redeems_found [unfolded redeems_def]])
  qed
qed

lemma redeem_fair:
  "rg R (\<lambda>t. bill_inv t \<and> may_redeem uid code t) (redeem env skip uid code)
     (\<lambda>r t. bill_inv t \<and> (\<forall>c. r = Inr c \<longrightarrow> backed t code))"
proof -
  let ?P = "\<lambda>t. bill_inv t \<and> may_redeem uid code t"
  let ?Q = "\<lambda>r t. bill_inv t \<and> (\<forall>c :: redeem_code. r = Inr c \<longrightarrow> backed t code)"
  note P = stable_may_redeem [of uid code]
  have release: "rg R (?Q r) (do { _ \<leftarrow> release_redeem_lock env code; State_Monad.return r }) ?Q" for r
  proof (rule side_step [OF runs_keeps [OF keeps_cache(4)]])
    show "stable R (?Q r)" using stable_backed [of code] stable_inv unfolding stable_def by blast
  qed (rule return_rule)
  have locked: "rg R ?P (if \<not> locked then failM (App err_redeem_code_locked)
      else do { r \<leftarrow> redeem_locked env skip uid code; _ \<leftarrow> release_redeem_lock env code; State_Monad.return r }) ?Q"
    for locked
    by (rule rg_if, rule return_rule, simp)
      (rule bind_rule [OF redeems_locked [unfolded redeems_def simp_thms] release])
  have rest: "rg R ?P (do { locked \<leftarrow> acquire_redeem_lock env code;
      if \<not> locked then failM (App err_redeem_code_locked)
      else do { r \<leftarrow> redeem_locked env skip uid code; _ \<leftarrow> release_redeem_lock env code; State_Monad.return r } }) ?Q"
    by (rule bind_rule [OF keeps_rg [OF keeps_cache(3) P] locked])
  have limit: "rg R ?P (check_redeem_rate_limit env uid)
      (\<lambda>r t. case r of Inl e \<Rightarrow> ?Q (Inl e) t | Inr a \<Rightarrow> ?P t)"
    by (rule rg_conseq [OF keeps_rg [OF keeps_cache(1) P]]) (auto split: sum.split)
  show ?thesis
    unfolding redeem_def by (rule try_rule [OF limit rest])
qed

end

end
