(* ===== verification/PayOrders.thy ===== *)
theory PayOrders
  imports Accounts
begin

section \<open>Payment orders: what an order says of its provider\<close>

text \<open>
  \<open>service/payment_order_provider_snapshot.go\<close>, \<open>service/payment_currency.go\<close>, the provider lookup
  of \<open>service/payment_refund.go\<close>, \<open>payment/types.go\<close> and the type matching of
  \<open>payment/load_balancer.go\<close>.  The registry of providers and the calls to a provider are the fields
  of \<open>pay_env\<close>: a provider is what it answers, the upstream platform being outside the program.
  Texts that print a floating-point number are shortened.
\<close>

record query_response =
  qr_trade_no :: string
  qr_status :: string
  qr_amount :: f64
  qr_metadata :: "(string \<times> string) list"

record refund_response =
  rr_refund_id :: string
  rr_status :: string

text \<open>
  A provider: its key, what it answers to the first and the repeated query of a reference, and its
  optional operations.
\<close>

record provider =
  pv_key :: string
  pv_query :: "string \<Rightarrow> go_error + query_response"
  pv_requery :: "string \<Rightarrow> go_error + query_response"
  pv_identity :: "(string \<times> string) list"
  pv_refund :: "string \<Rightarrow> string \<Rightarrow> (go_error option) \<times> (refund_response option)"
  pv_query_refund :: "(string \<Rightarrow> string \<Rightarrow> go_error + refund_response option) option"

record pay_env =
  pe_redeem :: redeem_env
  pe_affiliate :: "affiliate_settings option"
  pe_registry_key :: "string \<Rightarrow> string"
  pe_registry_provider :: "string \<Rightarrow> go_error + provider"
  pe_instance_provider :: "provider_instance \<Rightarrow> go_error + provider"
  pe_registry_provider_by_key :: "string \<Rightarrow> go_error + provider"
  pe_decimal :: decimal_ops

subsection \<open>Payment types\<close>

definition get_base_payment_type :: "string \<Rightarrow> string" where
  "get_base_payment_type t =
     (if t = ''easypay'' then ''easypay''
      else if t = ''airwallex'' then ''airwallex''
      else if t = ''stripe'' \<or> t = ''card'' \<or> t = ''link'' then ''stripe''
      else if has_prefix t ''alipay'' then ''alipay''
      else if has_prefix t ''wxpay'' then ''wxpay''
      else t)"

definition normalize_visible_method_support_type :: "string \<Rightarrow> string" where
  "normalize_visible_method_support_type t =
     (let u = trim_space t in
      if u = ''alipay'' \<or> u = ''alipay_direct'' then ''alipay''
      else if u = ''wxpay'' \<or> u = ''wxpay_direct'' then ''wxpay''
      else u)"

definition instance_supports_type :: "string \<Rightarrow> string \<Rightarrow> bool" where
  "instance_supports_type supported target \<longleftrightarrow>
     supported = [] \<or>
     (\<exists>t \<in> set (split_on CHR '','' supported).
        trim_space t = target \<or>
        normalize_visible_method_support_type (trim_space t) = normalize_visible_method_support_type target)"

subsection \<open>The provider snapshot\<close>

record provider_snapshot =
  sn_schema_version :: int
  sn_instance_id :: string
  sn_provider_key :: string
  sn_payment_mode :: string
  sn_merchant_app_id :: string
  sn_merchant_id :: string
  sn_currency :: string

definition snapshot_string :: "jval option \<Rightarrow> string" where
  "snapshot_string v = (case v of Some (JStr s) \<Rightarrow> trim_space s | _ \<Rightarrow> '''')"

definition snapshot_int :: "jval option \<Rightarrow> int" where
  "snapshot_int v = (case v of
     Some (JNum x) \<Rightarrow> rat_truncate x
   | Some (JStr s) \<Rightarrow> (case atoi (trim_space s) of Some n \<Rightarrow> n | None \<Rightarrow> 0)
   | _ \<Rightarrow> 0)"

definition order_snapshot :: "payment_order \<Rightarrow> provider_snapshot option" where
  "order_snapshot o' =
     (let get = map_of (po_provider_snapshot o');
          sn = \<lparr>sn_schema_version = snapshot_int (get ''schema_version''),
            sn_instance_id = snapshot_string (get ''provider_instance_id''),
            sn_provider_key = snapshot_string (get ''provider_key''),
            sn_payment_mode = snapshot_string (get ''payment_mode''),
            sn_merchant_app_id = snapshot_string (get ''merchant_app_id''),
            sn_merchant_id = snapshot_string (get ''merchant_id''),
            sn_currency = snapshot_string (get ''currency'')\<rparr>
      in if po_provider_snapshot o' = [] \<or>
           sn = \<lparr>sn_schema_version = 0, sn_instance_id = '''', sn_provider_key = '''', sn_payment_mode = '''',
             sn_merchant_app_id = '''', sn_merchant_id = '''', sn_currency = ''''\<rparr>
         then None else Some sn)"

definition string_value :: "string option \<Rightarrow> string" where
  "string_value v = (case v of None \<Rightarrow> '''' | Some s \<Rightarrow> s)"

definition payment_order_currency :: "payment_order \<Rightarrow> string" where
  "payment_order_currency o' =
     (case order_snapshot o' of
        Some sn \<Rightarrow> (case normalize_currency (sn_currency sn) of Inr c \<Rightarrow> c | Inl _ \<Rightarrow> default_currency)
      | None \<Rightarrow> default_currency)"

definition provider_config_currency :: "string \<Rightarrow> (string \<times> string) list \<Rightarrow> string" where
  "provider_config_currency key cfg =
     (if trim_space key = ''stripe'' \<or> trim_space key = ''airwallex'' then
        (case normalize_currency (string_value (map_of cfg ''currency'')) of
           Inr c \<Rightarrow> c | Inl _ \<Rightarrow> default_currency)
      else default_currency)"

subsection \<open>Which provider may speak for an order\<close>

definition expected_provider_key :: "pay_env \<Rightarrow> string \<Rightarrow> string \<Rightarrow> string \<Rightarrow> string" where
  "expected_provider_key env ptype order_key instance_key =
     (if trim_space instance_key \<noteq> [] then trim_space instance_key
      else if trim_space order_key \<noteq> [] then trim_space order_key
      else if trim_space (pe_registry_key env ptype) \<noteq> [] then trim_space (pe_registry_key env ptype)
      else trim_space ptype)"

definition expected_provider_key_for_order :: "pay_env \<Rightarrow> payment_order \<Rightarrow> string \<Rightarrow> string" where
  "expected_provider_key_for_order env o' instance_key =
     expected_provider_key env (po_payment_type o')
       (case order_snapshot o' of
          Some sn \<Rightarrow> if sn_provider_key sn \<noteq> [] then sn_provider_key sn else string_value (po_provider_key o')
        | None \<Rightarrow> string_value (po_provider_key o'))
       instance_key"

text \<open>
  One field of the metadata against the snapshot: nothing to say if the snapshot leaves it open,
  else the field must be there and agree up to case.
\<close>

definition check_field :: "string \<Rightarrow> string \<Rightarrow> string \<Rightarrow> string \<Rightarrow> string option" where
  "check_field missing mismatch expected actual =
     (if trim_space expected = [] then None
      else if actual = [] then Some missing
      else if \<not> equal_fold (trim_space expected) actual then
        Some (mismatch @ '': expected '' @ trim_space expected @ '', got '' @ actual)
      else None)"

definition check_state :: "string \<Rightarrow> string \<Rightarrow> string \<Rightarrow> string option" where
  "check_state mismatch wanted actual =
     (if actual \<noteq> [] \<and> \<not> equal_fold actual wanted then
        Some (mismatch @ '': expected '' @ wanted @ '', got '' @ actual)
      else None)"

definition first_error :: "string option list \<Rightarrow> string option" where
  "first_error es = (case dropWhile (\<lambda>e. e = None) es of [] \<Rightarrow> None | e # _ \<Rightarrow> e)"

definition validate_snapshot_metadata ::
  "payment_order \<Rightarrow> string \<Rightarrow> (string \<times> string) list \<Rightarrow> string option" where
  "validate_snapshot_metadata o' key md =
     (case order_snapshot o' of
        None \<Rightarrow> None
      | Some sn \<Rightarrow>
          if md = [] then None
          else
            let get = (\<lambda>k. trim_space (string_value (map_of md k)));
                k = trim_space key
            in if k = ''wxpay'' then first_error
                 [check_field ''wxpay notification missing appid'' ''wxpay appid mismatch'' (sn_merchant_app_id sn) (get ''appid''),
                  check_field ''wxpay notification missing mchid'' ''wxpay mchid mismatch'' (sn_merchant_id sn) (get ''mchid''),
                  check_field ''wxpay notification missing currency'' ''wxpay currency mismatch'' (sn_currency sn) (to_upper (get ''currency'')),
                  check_state ''wxpay trade_state mismatch'' ''SUCCESS'' (get ''trade_state'')]
               else if k = ''alipay'' then first_error
                 [check_field ''alipay app_id missing'' ''alipay app_id mismatch'' (sn_merchant_app_id sn) (get ''app_id'')]
               else if k = ''easypay'' then first_error
                 [check_field ''easypay pid missing'' ''easypay pid mismatch'' (sn_merchant_id sn) (get ''pid'')]
               else if k = ''stripe'' then first_error
                 [check_field ''stripe notification missing currency'' ''stripe currency mismatch'' (sn_currency sn) (to_upper (get ''currency''))]
               else if k = ''airwallex'' then first_error
                 [check_field ''airwallex account_id missing'' ''airwallex account_id mismatch'' (sn_merchant_id sn) (get ''account_id''),
                  check_field ''airwallex notification missing currency'' ''airwallex currency mismatch'' (sn_currency sn) (to_upper (get ''currency'')),
                  check_state ''airwallex status mismatch'' ''SUCCEEDED'' (get ''status'')]
               else None)"

subsection \<open>The provider instance of an order\<close>

definition get_instance :: "int64 \<Rightarrow> (billing, provider_instance option) fallible" where
  "get_instance i = read (\<lambda>t. find (\<lambda>p. pi_id p = i) (bl_instances t))"

definition resolve_snapshot_instance ::
  "payment_order \<Rightarrow> provider_snapshot \<Rightarrow> (billing, provider_instance option) fallible" where
  "resolve_snapshot_instance o' sn =
     (let column = trim_space (string_value (po_provider_instance_id o'));
          snap = trim_space (sn_instance_id sn);
          i = (if snap = [] then column else snap) in
      if i = [] then failM (Plain ''provider snapshot is missing provider_instance_id'')
      else if column \<noteq> [] \<and> sn_instance_id sn \<noteq> [] \<and> \<not> equal_fold column (sn_instance_id sn) then
        failM (Plain ''provider snapshot instance mismatch'')
      else case atoi i of
        None \<Rightarrow> failM (Plain ''provider snapshot instance id is invalid'')
      | Some n \<Rightarrow> tryM (\<lambda>e. e) (get_instance n) (\<lambda>r. case r of
            None \<Rightarrow> failM (Plain ''provider snapshot instance is missing'')
          | Some inst \<Rightarrow>
              if sn_provider_key sn \<noteq> [] \<and> \<not> equal_fold (trim_space (pi_provider_key inst)) (sn_provider_key sn) then
                failM (Plain ''provider snapshot key mismatch'')
              else okM (Some inst)))"

definition legacy_order_matches_instance :: "string \<Rightarrow> provider_instance \<Rightarrow> bool" where
  "legacy_order_matches_instance ptype inst \<longleftrightarrow>
     (let base = get_base_payment_type (trim_space ptype); key = trim_space (pi_provider_key inst) in
      if base = [] then False
      else if base = ''stripe'' then key = ''stripe''
      else if key = ''stripe'' then False
      else key = base \<or> instance_supports_type (pi_supported_types inst) base)"

definition filter_legacy_instances :: "string \<Rightarrow> provider_instance list \<Rightarrow> provider_instance list" where
  "filter_legacy_instances ptype insts =
     (if trim_space ptype = [] then insts else filter (legacy_order_matches_instance ptype) insts)"

definition the_only :: "'a list \<Rightarrow> 'a option" where
  "the_only xs = (case xs of [x] \<Rightarrow> Some x | _ \<Rightarrow> None)"

definition resolve_unique_legacy_instance :: "payment_order \<Rightarrow> (billing, provider_instance option) fallible" where
  "resolve_unique_legacy_instance o' =
     (let ptype = get_base_payment_type (trim_space (po_payment_type o'));
          key = trim_space (string_value (po_provider_key o')) in
      if key \<noteq> [] then
        tryM (\<lambda>e. e) (read (\<lambda>t. filter (\<lambda>p. pi_provider_key p = key) (bl_instances t)))
          (\<lambda>insts. okM (the_only (filter_legacy_instances ptype insts)))
      else if ptype = [] then okM None
      else tryM (\<lambda>e. e) (read bl_instances) (\<lambda>insts. okM (the_only (filter_legacy_instances ptype insts))))"

text \<open>A missing row is an error here (\<open>Get\<close>), not an absent instance.\<close>

definition order_provider_instance :: "payment_order \<Rightarrow> (billing, provider_instance option) fallible" where
  "order_provider_instance o' =
     (case order_snapshot o' of
        Some sn \<Rightarrow> resolve_snapshot_instance o' sn
      | None \<Rightarrow>
          let i = trim_space (string_value (po_provider_instance_id o')) in
          if i = [] then resolve_unique_legacy_instance o'
          else case atoi i of
            None \<Rightarrow> okM None
          | Some n \<Rightarrow> tryM (\<lambda>e. e) (get_instance n) (\<lambda>r. case r of
                None \<Rightarrow> failM ent_not_found | Some inst \<Rightarrow> okM (Some inst)))"

definition refund_provider_instance :: "payment_order \<Rightarrow> (billing, provider_instance option) fallible" where
  "refund_provider_instance o' =
     (case order_snapshot o' of
        Some sn \<Rightarrow> resolve_snapshot_instance o' sn
      | None \<Rightarrow>
          let i = trim_space (string_value (po_provider_instance_id o')) in
          if i = [] then okM None
          else case atoi i of
            None \<Rightarrow> failM (Plain ''refund provider instance id is invalid'')
          | Some n \<Rightarrow> tryM (\<lambda>e. e) (get_instance n) (\<lambda>r. case r of
                None \<Rightarrow> failM (Plain ''refund provider instance is missing'')
              | Some inst \<Rightarrow> okM (Some inst)))"

definition allows_registry_fallback :: "payment_order \<Rightarrow> bool" where
  "allows_registry_fallback o' \<longleftrightarrow> order_snapshot o' = None \<and>
     trim_space (string_value (po_provider_instance_id o')) = [] \<and>
     trim_space (string_value (po_provider_key o')) = []"

definition fallback_provider_key :: "pay_env \<Rightarrow> payment_order \<Rightarrow> string" where
  "fallback_provider_key env o' =
     (if trim_space (pe_registry_key env (po_payment_type o')) \<noteq> []
      then trim_space (pe_registry_key env (po_payment_type o'))
      else trim_space (get_base_payment_type (trim_space (po_payment_type o'))))"

definition fallback_allowed :: "string \<Rightarrow> (billing, bool) state" where
  "fallback_allowed key =
     (if trim_space key = [] then State_Monad.return False
      else do {
        r \<leftarrow> read (\<lambda>t. count_where (\<lambda>p. pi_provider_key p = trim_space key \<and> pi_enabled p) (bl_instances t));
        State_Monad.return (case r of Inl _ \<Rightarrow> False | Inr n \<Rightarrow> n \<le> 1) })"

definition order_provider :: "pay_env \<Rightarrow> payment_order \<Rightarrow> (billing, provider) fallible" where
  "order_provider env o' =
     tryM (wrap ''load order provider instance'') (order_provider_instance o') (\<lambda>r. case r of
        Some inst \<Rightarrow> State_Monad.return (pe_instance_provider env inst)
      | None \<Rightarrow>
          if \<not> allows_registry_fallback o' then failM (Plain ''provider instance is unresolved'')
          else if fallback_provider_key env o' = [] then failM (Plain ''provider fallback key is missing'')
          else do {
            ok \<leftarrow> fallback_allowed (fallback_provider_key env o');
            if \<not> ok then failM (Plain ''provider fallback is ambiguous'')
            else State_Monad.return (pe_registry_provider env (po_payment_type o')) })"

definition refund_provider :: "pay_env \<Rightarrow> payment_order \<Rightarrow> (billing, provider) fallible" where
  "refund_provider env o' =
     tryM (\<lambda>e. e) (refund_provider_instance o') (\<lambda>r. case r of
        None \<Rightarrow> failM (Plain ''refund provider instance is unavailable'')
      | Some inst \<Rightarrow> State_Monad.return (pe_instance_provider env inst))"


subsection \<open>Which providers may verify a notification\<close>

definition err_provider_not_found :: app_error where
  "err_provider_not_found = not_found ''PROVIDER_NOT_FOUND'' ''payment provider not registered''"

definition has_pinned_instance :: "payment_order \<Rightarrow> bool" where
  "has_pinned_instance o' \<longleftrightarrow> order_snapshot o' \<noteq> None \<or> trim_space (string_value (po_provider_instance_id o')) \<noteq> []"

definition pinned_order_provider :: "pay_env \<Rightarrow> payment_order \<Rightarrow> (billing, provider) fallible" where
  "pinned_order_provider env o' =
     tryM (wrap ''load order provider instance'') (order_provider_instance o') (\<lambda>r. case r of
        None \<Rightarrow> failM (Plain ''provider instance is missing'')
      | Some inst \<Rightarrow> State_Monad.return (pe_instance_provider env inst))"

fun working :: "(go_error + provider) list \<Rightarrow> provider list" where
  "working [] = []"
| "working (Inl _ # rs) = working rs"
| "working (Inr p # rs) = p # working rs"

definition enabled_providers_by_key :: "pay_env \<Rightarrow> string \<Rightarrow> (billing, provider list) fallible" where
  "enabled_providers_by_key env key =
     tryM (wrap ''query webhook provider instances'')
       (read (\<lambda>t. sort_key pi_sort_order
          (filter (\<lambda>p. pi_provider_key p = trim_space key \<and> pi_enabled p) (bl_instances t))))
       (\<lambda>insts.
          let ps = working (map (pe_instance_provider env) insts) in
          if ps = [] then failM (App err_provider_not_found) else okM ps)"

definition registry_fallback :: "pay_env \<Rightarrow> string \<Rightarrow> (billing, provider list) fallible" where
  "registry_fallback env key =
     (if trim_space key = ''wxpay'' then enabled_providers_by_key env key
      else do {
        ok \<leftarrow> fallback_allowed key;
        if \<not> ok then failM (Plain ''webhook provider fallback is ambiguous'')
        else tryM (\<lambda>e. e) (State_Monad.return (pe_registry_provider_by_key env key)) (\<lambda>p. okM [p]) })"

definition get_webhook_providers :: "pay_env \<Rightarrow> string \<Rightarrow> string \<Rightarrow> (billing, provider list) fallible" where
  "get_webhook_providers env key out_trade_no =
     (if out_trade_no = [] then registry_fallback env key
      else do {
        found \<leftarrow> read (\<lambda>t. find (\<lambda>o'. po_out_trade_no o' = out_trade_no) (bl_orders t));
        case found of
          Inl _ \<Rightarrow> registry_fallback env key
        | Inr None \<Rightarrow> registry_fallback env key
        | Inr (Some o') \<Rightarrow>
            if has_pinned_instance o' then tryM (\<lambda>e. e) (pinned_order_provider env o') (\<lambda>p. okM [p])
            else tryM (wrap ''load order provider instance'') (order_provider_instance o') (\<lambda>r. case r of
                Some inst \<Rightarrow> tryM (\<lambda>e. e) (State_Monad.return (pe_instance_provider env inst)) (\<lambda>p. okM [p])
              | None \<Rightarrow> registry_fallback env key) })"

definition get_webhook_provider :: "pay_env \<Rightarrow> string \<Rightarrow> string \<Rightarrow> (billing, provider) fallible" where
  "get_webhook_provider env key out_trade_no =
     tryM (\<lambda>e. e) (get_webhook_providers env key out_trade_no)
       (\<lambda>ps. case ps of [] \<Rightarrow> failM (App err_provider_not_found) | p # _ \<Rightarrow> okM p)"

end
