(* ===== verification/PayFulfil.thy ===== *)
theory PayFulfil
  imports PayOrders
begin

section \<open>Fulfilling a paid order\<close>

text \<open>
  \<open>service/payment_fulfillment.go\<close>: a payment notification, the transition to PAID, the claim of an
  order for fulfilment, the credit of a balance order through its redeem code, the grant of a
  subscription order, the affiliate rebate of an order and the manual retry.  The notification
  e-mails are left out.
\<close>

record notification =
  nt_trade_no :: string
  nt_order_id :: string
  nt_amount :: f64
  nt_status :: string
  nt_metadata :: "(string \<times> string) list"

definition payment_grace :: duration where
  "payment_grace = 5 * minute"

definition ps_is_refund_status :: "order_status \<Rightarrow> bool" where
  "ps_is_refund_status s \<longleftrightarrow> s \<in> {REFUND_REQUESTED, REFUNDING, REFUND_PENDING, PARTIALLY_REFUNDED, REFUNDED, REFUND_FAILED}"

definition err_order_missing :: app_error where
  "err_order_missing = not_found ''NOT_FOUND'' ''order not found''"

definition invalid_status :: "string \<Rightarrow> go_error" where
  "invalid_status msg = App (bad_request ''INVALID_STATUS'' msg)"

definition error_text :: "go_error \<Rightarrow> string" where
  "error_text e = ae_message (from_error e)"

subsection \<open>The rebate of an order\<close>

definition rebate_base_amount :: "payment_order \<Rightarrow> rat" where
  "rebate_base_amount o' =
     (if po_order_type o' = ''balance'' \<or> po_order_type o' = ''subscription'' then po_amount o' else 0)"

text \<open>The claim inserts the audit row unless the order has one of either outcome.\<close>

definition claim_rebate :: "int64 \<Rightarrow> rat \<Rightarrow> bill \<Rightarrow> (go_error + bool) \<times> bill" where
  "claim_rebate oid base t =
     (if audited oid ''AFFILIATE_REBATE_APPLIED'' t \<or> audited oid ''AFFILIATE_REBATE_SKIPPED'' t then (Inr False, t)
      else (Inr True, snd (insert_audit oid ''AFFILIATE_REBATE_APPLIED'' ''system''
              [(''baseAmount'', JNum base), (''status'', JStr ''reserved'')] t)))"

definition update_claimed_rebate ::
  "int64 \<Rightarrow> string \<Rightarrow> (string \<times> jval) list \<Rightarrow> bill \<Rightarrow> (go_error + unit) \<times> bill" where
  "update_claimed_rebate oid action detail t =
     (let p = (\<lambda>a. al_order_id a = oid \<and> al_action a = ''AFFILIATE_REBATE_APPLIED'') in
      if count_where p (bl_audit t) = 0 then (Inl (Plain ''affiliate rebate claim log not found''), t)
      else if action \<noteq> ''AFFILIATE_REBATE_APPLIED'' \<and> audited oid action t then (Inl unique_violation, t)
      else (Inr (), t\<lparr>bl_audit := upd_where p
        (\<lambda>a. a\<lparr>al_action := action, al_detail := detail, al_operator := ''system''\<rparr>) (bl_audit t)\<rparr>))"

text \<open>The answer of a transaction that found the rebate already claimed; every real error is wrapped.\<close>

definition rebate_unclaimed :: go_error where
  "rebate_unclaimed = Plain []"

definition rebate_tx :: "affiliate_settings \<Rightarrow> payment_order \<Rightarrow> rat \<Rightarrow> (billing, unit) fallible" where
  "rebate_tx cfg o' base =
     tryM (wrap ''claim affiliate rebate audit'') (stmt (claim_rebate (po_id o') base)) (\<lambda>claimed.
       if \<not> claimed then failM rebate_unclaimed
       else tryM (wrap ''accrue affiliate rebate'')
         (accrue_invite_rebate_for_order cfg True (po_user_id o') base (Some (po_id o'))) (\<lambda>amount.
           if amount \<le> 0 then
             tryM (wrap ''update affiliate rebate skipped audit'')
               (stmt (update_claimed_rebate (po_id o') ''AFFILIATE_REBATE_SKIPPED''
                  [(''baseAmount'', JNum base), (''reason'', JStr ''no inviter bound or rebate amount <= 0'')])) okM
           else
             tryM (wrap ''update affiliate rebate applied audit'')
               (stmt (update_claimed_rebate (po_id o') ''AFFILIATE_REBATE_APPLIED''
                  [(''baseAmount'', JNum base), (''rebateAmount'', JNum amount)])) okM))"

text \<open>The transaction of a rebate that was already claimed ends with the deferred rollback.\<close>

definition apply_affiliate_rebate :: "pay_env \<Rightarrow> payment_order \<Rightarrow> (billing, unit) fallible" where
  "apply_affiliate_rebate env o' =
     (let base = rebate_base_amount o' in
      if base \<le> 0 then okM ()
      else case pe_affiliate env of
        None \<Rightarrow> okM ()
      | Some cfg \<Rightarrow> do {
          r \<leftarrow> in_tx (wrap ''begin affiliate rebate tx'') (wrap ''commit affiliate rebate tx'') (rebate_tx cfg o' base);
          case r of
            Inl e \<Rightarrow>
              if e = rebate_unclaimed then okM ()
              else do {
                _ \<leftarrow> write_audit_log (po_id o') ''AFFILIATE_REBATE_FAILED'' ''system'' [(''error'', JStr (error_text e))];
                failM e }
          | Inr _ \<Rightarrow> okM () })"

subsection \<open>Completing and failing\<close>

definition mark_completed :: "payment_order \<Rightarrow> string \<Rightarrow> (billing, unit) fallible" where
  "mark_completed o' action = do {
     n \<leftarrow> now;
     tryM (wrap ''mark completed'')
       (stmt (update_order (po_id o') (\<lambda>r. po_status r = RECHARGING)
          (\<lambda>r. r\<lparr>po_status := COMPLETED, po_completed_at := Some n\<rparr>))) (\<lambda>_. do {
       _ \<leftarrow> write_audit_log (po_id o') action ''system''
          [(''rechargeCode'', JStr (po_recharge_code o')), (''creditedAmount'', JNum (po_amount o')),
           (''payAmount'', JNum (po_pay_amount o'))];
       okM () }) }"

definition mark_failed :: "int64 \<Rightarrow> go_error \<Rightarrow> (billing, unit) state" where
  "mark_failed oid cause = do {
     n \<leftarrow> now;
     r \<leftarrow> stmt (update_order oid (\<lambda>r. po_status r = RECHARGING)
       (\<lambda>r. r\<lparr>po_status := FAILED, po_failed_at := Some n, po_failed_reason := Some (error_text cause)\<rparr>));
     case r of
       Inl _ \<Rightarrow> State_Monad.return ()
     | Inr c \<Rightarrow>
         if 0 < c then write_audit_log oid ''FULFILLMENT_FAILED'' ''system'' [(''reason'', JStr (error_text cause))]
         else State_Monad.return () }"

subsection \<open>Balance orders\<close>

datatype redeem_action = CreateThenRedeem | RedeemOnly | SkipCompleted

definition resolve_redeem_action :: "go_error + redeem_code \<Rightarrow> redeem_action" where
  "resolve_redeem_action r =
     (case r of
        Inl _ \<Rightarrow> CreateThenRedeem
      | Inr c \<Rightarrow> if code_is_used c then SkipCompleted else RedeemOnly)"

definition order_code :: "payment_order \<Rightarrow> redeem_code" where
  "order_code o' = (default_code (po_recharge_code o'))\<lparr>rc_type := ''balance'', rc_value := po_amount o',
     rc_status := ''unused''\<rparr>"

definition finish_balance :: "pay_env \<Rightarrow> payment_order \<Rightarrow> (billing, unit) fallible" where
  "finish_balance env o' =
     tryM (\<lambda>e. e) (apply_affiliate_rebate env o') (\<lambda>_. mark_completed o' ''RECHARGE_SUCCESS'')"

definition redeem_for_order :: "pay_env \<Rightarrow> payment_order \<Rightarrow> (billing, unit) fallible" where
  "redeem_for_order env o' =
     tryM (wrap ''redeem balance'') (redeem (pe_redeem env) True (po_user_id o') (po_recharge_code o'))
       (\<lambda>_. finish_balance env o')"

definition do_balance :: "pay_env \<Rightarrow> payment_order \<Rightarrow> (billing, unit) fallible" where
  "do_balance env o' = do {
     existing \<leftarrow> get_code (po_recharge_code o');
     case resolve_redeem_action existing of
       SkipCompleted \<Rightarrow> finish_balance env o'
     | CreateThenRedeem \<Rightarrow>
         tryM (wrap ''create redeem code'') (create_code (order_code o')) (\<lambda>_. redeem_for_order env o')
     | RedeemOnly \<Rightarrow> redeem_for_order env o' }"

definition claim_order :: "int64 \<Rightarrow> (billing, int) fallible" where
  "claim_order oid = stmt (update_order oid (\<lambda>r. po_status r \<in> {PAID, FAILED}) (\<lambda>r. r\<lparr>po_status := RECHARGING\<rparr>))"

text \<open>What both kinds of fulfilment check before they claim the order.\<close>

definition fulfil_guard :: "payment_order \<Rightarrow> go_error option" where
  "fulfil_guard o' =
     (if ps_is_refund_status (po_status o') then Some (invalid_status ''refund-related order cannot fulfill'')
      else if po_status o' \<notin> {PAID, FAILED} then
        Some (invalid_status (''order cannot fulfill in status '' @ status_text (po_status o')))
      else None)"

definition run_fulfilment :: "int64 \<Rightarrow> (billing, unit) fallible \<Rightarrow> (billing, unit) fallible" where
  "run_fulfilment oid work =
     tryM (wrap ''lock'') (claim_order oid) (\<lambda>c.
       if c = 0 then okM ()
       else do {
         r \<leftarrow> work;
         case r of
           Inl e \<Rightarrow> do { _ \<leftarrow> mark_failed oid e; failM e }
         | Inr _ \<Rightarrow> okM () })"

definition execute_balance_fulfillment :: "pay_env \<Rightarrow> int64 \<Rightarrow> (billing, unit) fallible" where
  "execute_balance_fulfillment env oid =
     tryM (\<lambda>_. App err_order_missing) (get_order oid) (\<lambda>o'.
       if po_status o' = COMPLETED then okM ()
       else case fulfil_guard o' of
         Some e \<Rightarrow> failM e
       | None \<Rightarrow> run_fulfilment oid (do_balance env o'))"

subsection \<open>Subscription orders\<close>

definition do_sub :: "pay_env \<Rightarrow> payment_order \<Rightarrow> int64 \<Rightarrow> int \<Rightarrow> (billing, unit) fallible" where
  "do_sub env o' gid days = do {
     g \<leftarrow> get_group gid;
     if (case g of Inl _ \<Rightarrow> True | Inr row \<Rightarrow> gr_status row \<noteq> ''active'')
     then failM (Plain (''group '' @ itoa gid @ '' no longer exists or inactive''))
     else do {
       a1 \<leftarrow> has_audit_log (po_id o') ''SUBSCRIPTION_ASSIGNED'';
       assigned \<leftarrow> (if a1 then State_Monad.return True else has_audit_log (po_id o') ''SUBSCRIPTION_SUCCESS'');
       tryM (\<lambda>e. e)
         (if assigned then okM ()
          else tryM (wrap ''assign subscription'')
            (assign_or_extend_subscription (re_tz (pe_redeem env))
               \<lparr>as_user_id = po_user_id o', as_group_id = gid, as_validity_days = days, as_assigned_by = 0,
                as_notes = ''payment order '' @ itoa (po_id o')\<rparr>)
            (\<lambda>_. do {
               _ \<leftarrow> write_audit_log (po_id o') ''SUBSCRIPTION_ASSIGNED'' ''system''
                  [(''groupID'', JNum (of_int gid)), (''validityDays'', JNum (of_int days))];
               okM () }))
         (\<lambda>_. tryM (\<lambda>e. e) (apply_affiliate_rebate env o') (\<lambda>_. mark_completed o' ''SUBSCRIPTION_SUCCESS'')) } }"

definition execute_subscription_fulfillment :: "pay_env \<Rightarrow> int64 \<Rightarrow> (billing, unit) fallible" where
  "execute_subscription_fulfillment env oid =
     tryM (\<lambda>_. App err_order_missing) (get_order oid) (\<lambda>o'.
       if po_status o' = COMPLETED then okM ()
       else case fulfil_guard o' of
         Some e \<Rightarrow> failM e
       | None \<Rightarrow>
           (case (po_subscription_group_id o', po_subscription_days o') of
              (Some gid, Some days) \<Rightarrow> run_fulfilment oid (do_sub env o' gid days)
            | _ \<Rightarrow> failM (invalid_status ''missing subscription info'')))"

definition execute_fulfillment :: "pay_env \<Rightarrow> int64 \<Rightarrow> (billing, unit) fallible" where
  "execute_fulfillment env oid =
     tryM (wrap ''get order'') (get_order oid) (\<lambda>o'.
       if po_order_type o' = ''subscription'' then execute_subscription_fulfillment env oid
       else execute_balance_fulfillment env oid)"

subsection \<open>Notifications\<close>

definition is_valid_provider_amount :: "f64 \<Rightarrow> bool" where
  "is_valid_provider_amount a \<longleftrightarrow> (case a of Fin x \<Rightarrow> 0 < x | _ \<Rightarrow> False)"

definition already_processed :: "pay_env \<Rightarrow> payment_order \<Rightarrow> (billing, unit) fallible" where
  "already_processed env o' = do {
     cur \<leftarrow> get_order (po_id o');
     case cur of
       Inl _ \<Rightarrow> okM ()
     | Inr c \<Rightarrow>
         (case po_status c of
            COMPLETED \<Rightarrow> okM ()
          | REFUNDED \<Rightarrow> okM ()
          | FAILED \<Rightarrow> execute_fulfillment env (po_id o')
          | PAID \<Rightarrow> failM (Plain (''order '' @ itoa (po_id o') @ '' is being processed''))
          | RECHARGING \<Rightarrow> failM (Plain (''order '' @ itoa (po_id o') @ '' is being processed''))
          | EXPIRED \<Rightarrow> do {
              _ \<leftarrow> write_audit_log (po_id o') ''PAYMENT_AFTER_EXPIRY'' ''system''
                 [(''status'', JStr (status_text (po_status c))), (''reason'', JStr ''payment arrived after expiry grace period'')];
              okM () }
          | _ \<Rightarrow> okM ()) }"

definition payable :: "time \<Rightarrow> payment_order \<Rightarrow> bool" where
  "payable grace r \<longleftrightarrow> po_status r = PENDING \<or> po_status r = CANCELLED \<or>
     (po_status r = EXPIRED \<and> grace \<le> po_updated_at r)"

definition set_paid :: "rat \<Rightarrow> string \<Rightarrow> time \<Rightarrow> payment_order \<Rightarrow> payment_order" where
  "set_paid paid trade_no n r = r\<lparr>po_status := PAID, po_pay_amount := numeric 2 paid,
     po_payment_trade_no := trade_no, po_paid_at := Some n, po_failed_at := None, po_failed_reason := None\<rparr>"

definition to_paid :: "pay_env \<Rightarrow> payment_order \<Rightarrow> string \<Rightarrow> rat \<Rightarrow> string \<Rightarrow> (billing, unit) fallible" where
  "to_paid env o' trade_no paid pk = do {
     n \<leftarrow> now;
     tryM (wrap ''update to PAID'')
       (stmt (update_order (po_id o') (payable (n - payment_grace)) (set_paid paid trade_no n))) (\<lambda>c.
       if c = 0 then already_processed env o'
       else do {
         _ \<leftarrow> (if po_status o' \<in> {CANCELLED, EXPIRED}
            then write_audit_log (po_id o') ''ORDER_RECOVERED'' pk
              [(''previous_status'', JStr (status_text (po_status o'))), (''tradeNo'', JStr trade_no), (''paidAmount'', JNum paid)]
            else State_Monad.return ());
         _ \<leftarrow> write_audit_log (po_id o') ''ORDER_PAID'' pk [(''tradeNo'', JStr trade_no), (''paidAmount'', JNum paid)];
         execute_fulfillment env (po_id o') }) }"

definition reject_payment ::
  "payment_order \<Rightarrow> string \<Rightarrow> string \<Rightarrow> (string \<times> jval) list \<Rightarrow> string \<Rightarrow> (billing, unit) fallible" where
  "reject_payment o' pk action detail reason = do {
     _ \<leftarrow> write_audit_log (po_id o') action pk detail;
     failM (Plain reason) }"

text \<open>
  What a payment must satisfy to be booked for an order, with the audit row and the error of a
  refusal.  The detail of a payment whose amount is not a number cannot be encoded and is empty.
\<close>

definition payment_guard ::
  "pay_env \<Rightarrow> payment_order \<Rightarrow> string \<Rightarrow> string \<Rightarrow> f64 \<Rightarrow> string \<Rightarrow> (string \<times> string) list \<Rightarrow>
    (string \<times> (string \<times> jval) list \<times> string) + rat" where
  "payment_guard env o' instance_key trade_no paid pk md =
     (let expected = expected_provider_key_for_order env o' instance_key in
      if expected \<noteq> [] \<and> trim_space pk \<noteq> [] \<and> \<not> equal_fold expected (trim_space pk) then
        Inl (''PAYMENT_PROVIDER_MISMATCH'',
          [(''expectedProvider'', JStr expected), (''actualProvider'', JStr pk), (''tradeNo'', JStr trade_no)],
          ''provider mismatch: expected '' @ expected @ '', got '' @ pk)
      else case validate_snapshot_metadata o' pk md of
        Some e \<Rightarrow> Inl (''PAYMENT_PROVIDER_METADATA_MISMATCH'',
          [(''detail'', JStr e), (''tradeNo'', JStr trade_no)], e)
      | None \<Rightarrow>
          (case paid of
             Fin x \<Rightarrow>
               let detail = [(''expected'', JNum (po_pay_amount o')), (''paid'', JNum x), (''tradeNo'', JStr trade_no)] in
               if \<not> is_valid_provider_amount paid then
                 Inl (''PAYMENT_INVALID_AMOUNT'', detail, ''invalid paid amount from provider'')
               else if amount_tolerance (payment_order_currency o') < \<bar>x - po_pay_amount o'\<bar> then
                 Inl (''PAYMENT_AMOUNT_MISMATCH'', detail, ''amount mismatch'')
               else Inr x
           | _ \<Rightarrow> Inl (''PAYMENT_INVALID_AMOUNT'', [], ''invalid paid amount from provider'')))"

definition confirm_payment ::
  "pay_env \<Rightarrow> int64 \<Rightarrow> string \<Rightarrow> f64 \<Rightarrow> string \<Rightarrow> (string \<times> string) list \<Rightarrow> (billing, unit) fallible" where
  "confirm_payment env oid trade_no paid pk md = do {
     r \<leftarrow> get_order oid;
     case r of
       Inl _ \<Rightarrow> okM ()
     | Inr o' \<Rightarrow> do {
         inst \<leftarrow> order_provider_instance o';
         let instance_key = (case inst of Inr (Some i) \<Rightarrow> pi_provider_key i | _ \<Rightarrow> []) in
         case payment_guard env o' instance_key trade_no paid pk md of
           Inl (action, detail, reason) \<Rightarrow> reject_payment o' pk action detail reason
         | Inr x \<Rightarrow> to_paid env o' trade_no x pk } }"

text \<open>\<open>ErrOrderNotFound\<close> is the sentinel the webhook handlers answer with success.\<close>

definition err_order_not_found :: go_error where
  "err_order_not_found = Plain ''payment order not found''"

definition parse_legacy_order_id :: "string \<Rightarrow> int64 option" where
  "parse_legacy_order_id s0 =
     (let s = trim_space s0 in
      if \<not> has_prefix s ''sub2_'' then None
      else let rest = trim_prefix s ''sub2_'' in
        if rest = [] then None
        else case atoi rest of None \<Rightarrow> None | Some n \<Rightarrow> if n \<le> 0 then None else Some n)"

definition handle_payment_notification :: "pay_env \<Rightarrow> notification \<Rightarrow> string \<Rightarrow> (billing, unit) fallible" where
  "handle_payment_notification env n pk =
     (if nt_status n \<noteq> ''success'' then okM ()
      else tryM (wrap ''lookup order failed'')
        (read (\<lambda>t. find (\<lambda>o'. po_out_trade_no o' = nt_order_id n) (bl_orders t))) (\<lambda>r. case r of
           Some o' \<Rightarrow> confirm_payment env (po_id o') (nt_trade_no n) (nt_amount n) pk (nt_metadata n)
         | None \<Rightarrow>
             (case parse_legacy_order_id (nt_order_id n) of
                Some oid \<Rightarrow> confirm_payment env oid (nt_trade_no n) (nt_amount n) pk (nt_metadata n)
              | None \<Rightarrow> failM (Wrapped (nt_order_id n) err_order_not_found))))"

definition retry_fulfillment :: "pay_env \<Rightarrow> int64 \<Rightarrow> (billing, unit) fallible" where
  "retry_fulfillment env oid =
     tryM (\<lambda>_. App err_order_missing) (get_order oid) (\<lambda>o'.
       if po_paid_at o' = None then failM (invalid_status ''order is not paid'')
       else if ps_is_refund_status (po_status o') then failM (invalid_status ''refund-related order cannot retry'')
       else if po_status o' = RECHARGING then failM (App (conflict_error ''CONFLICT'' ''order is being processed''))
       else if po_status o' = COMPLETED then failM (invalid_status ''order already completed'')
       else if po_status o' \<notin> {FAILED, PAID} then failM (invalid_status ''only paid and failed orders can retry'')
       else tryM (wrap ''reset for retry'')
         (stmt (update_order oid (\<lambda>r. po_status r \<in> {FAILED, PAID})
            (\<lambda>r. r\<lparr>po_status := PAID, po_failed_at := None, po_failed_reason := None\<rparr>))) (\<lambda>_. do {
           _ \<leftarrow> write_audit_log oid ''RECHARGE_RETRY'' ''admin'' [(''detail'', JStr ''admin manual retry'')];
           execute_fulfillment env oid }))"

end
