(* ===== verification/PayBooks.thy ===== *)
theory PayBooks
  imports PayFulfil
begin

section \<open>Fulfilment keeps the books\<close>

text \<open>
  Every handler of \<open>PayFulfil\<close> is a rely-guarantee triple over \<open>fair\<close>: whatever the other handlers
  and the faults do between its statements, it moves the billing tables along \<open>fair\<close> and keeps
  \<open>bill_inv\<close>.  The properties at the end follow for any sequence of calls, and the counterexamples
  after them show what the two exclusions of the invariant let in.
\<close>

subsection \<open>Updating an order\<close>

lemma touch_sel [simp]: "deal (touch n g r) = deal (g r)" "po_status (touch n g r) = po_status (g r)"
  "is_recharge (touch n g r) = is_recharge (g r)"
  by (simp_all add: touch_def deal_def is_recharge_def)

lemma deal_sel: "deal a = deal b \<Longrightarrow> po_id a = po_id b \<and> po_user_id a = po_user_id b \<and>
    po_amount a = po_amount b \<and> po_recharge_code a = po_recharge_code b \<and> is_recharge a = is_recharge b"
  by (simp add: deal_def is_recharge_def)

text \<open>Replacing the orders one by one, each with one of the same deal further along its life.\<close>

lemma fair_orders:
  assumes orders: "bl_orders t' = map h (bl_orders t)"
    and h: "\<And>r. r \<in> set (bl_orders t) \<Longrightarrow> deal (h r) = deal r \<and> order_flows (po_status r) (po_status (h r)) \<and>
      (settled (po_status (h r)) \<longrightarrow> is_recharge r \<longrightarrow> settled (po_status r) \<or> backed t (po_recharge_code r))"
    and rest: "bl_codes t' = bl_codes t" "bl_next_code t' = bl_next_code t"
      "\<forall>v. recharged v t' = recharged v t" "\<forall>v. transfer_credit v t' = transfer_credit v t"
  shows "fair t t'"
  unfolding fair_def
proof (intro impI conjI allI)
  assume inv: "bill_inv t"
  have hs: "po_id (h r) = po_id r" "po_user_id (h r) = po_user_id r" "po_amount (h r) = po_amount r"
    "po_recharge_code (h r) = po_recharge_code r" "is_recharge (h r) = is_recharge r"
    if "r \<in> set (bl_orders t)" for r using deal_sel [of "h r" r] h [OF that] by auto
  have ids: "map (po_id \<circ> h) (bl_orders t) = map po_id (bl_orders t)" using hs by simp
  have codes: "map (po_recharge_code \<circ> h) (bl_orders t) = map po_recharge_code (bl_orders t)" using hs by simp
  have "distinct (map (po_id \<circ> h) (bl_orders t))" "distinct (map (po_recharge_code \<circ> h) (bl_orders t))"
    unfolding ids codes using inv by (simp_all add: bill_inv_def distinct_rows_def)
  then have "distinct_rows t'" using inv rest orders by (simp add: bill_inv_def distinct_rows_def)
  moreover have "named_codes t'" using inv rest orders hs by (auto simp: bill_inv_def named_codes_def)
  moreover have "own_codes t'" using inv rest orders hs by (auto simp: bill_inv_def own_codes_def belongs_def)
  moreover have "settled_backed t'"
    unfolding settled_backed_def
  proof (intro ballI impI)
    fix r' assume "r' \<in> set (bl_orders t')" and s: "is_recharge r'" "settled (po_status r')"
    then obtain r where r: "r \<in> set (bl_orders t)" "r' = h r" using orders by auto
    then have "backed t (po_recharge_code r)"
      using h [OF r(1)] s hs [OF r(1)] inv by (auto simp: bill_inv_def settled_backed_def)
    then show "backed t' (po_recharge_code r')" using rest hs [OF r(1)] r(2) by (simp add: backed_def)
  qed
  ultimately show "bill_inv t'" by (simp add: bill_inv_def)
  show "unexplained t' v = unexplained t v" for v using rest by (simp add: unexplained_def code_credit_def)
  show "codes_kept t t'" using rest codes_kept_refl [of t] by (simp add: codes_kept_def)
  show "orders_kept t t'" using orders h by (auto simp: orders_kept_def)
qed

lemma fair_update_order:
  assumes "\<And>r. r \<in> set (bl_orders t) \<Longrightarrow> po_id r = oid \<Longrightarrow> p r \<Longrightarrow>
      deal (g r) = deal r \<and> order_flows (po_status r) (po_status (g r)) \<and>
      (settled (po_status (g r)) \<longrightarrow> is_recharge r \<longrightarrow> settled (po_status r) \<or> backed t (po_recharge_code r))"
  shows "fair t (snd (update_order oid p g t))"
  by (rule fair_orders [where h = "\<lambda>r. if po_id r = oid \<and> p r then touch (bl_now t) g r else r"])
    (use assms in \<open>auto simp: update_order_def Let_def upd_where_def recharged_def transfer_credit_def ledger_sum_def\<close>)

subsection \<open>An order read earlier\<close>

definition known_order :: "payment_order \<Rightarrow> bill \<Rightarrow> bool" where
  "known_order o' t \<longleftrightarrow> (\<exists>r \<in> set (bl_orders t). deal r = deal o')"

context accounting
begin

lemma stable_known_order: "stable R (\<lambda>t. bill_inv t \<and> known_order o' t)"
  unfolding stable_def
proof (intro allI impI conjI)
  fix t t' assume f0: "R t t'" "bill_inv t \<and> known_order o' t"
  then have f: "kept t t'" "bill_inv t \<and> known_order o' t" using to_kept by blast+
  then show "bill_inv t'" by (simp add: kept_def)
  obtain r where r: "r \<in> set (bl_orders t)" "deal r = deal o'" using f(2) by (auto simp: known_order_def)
  have "orders_kept t t'" using f by (simp add: kept_def)
  then obtain r' where "r' \<in> set (bl_orders t')" "deal r' = deal r" using r(1) by (auto simp: orders_kept_def)
  then show "known_order o' t'" using r(2) by (auto simp: known_order_def)
qed

end

lemma known_order_row:
  assumes "bill_inv t" "known_order o' t" "r \<in> set (bl_orders t)" "po_id r = po_id o'"
  shows "deal r = deal o'"
proof -
  obtain q where q: "q \<in> set (bl_orders t)" "deal q = deal o'" using assms(2) by (auto simp: known_order_def)
  then have "po_id q = po_id r" using assms(4) by (simp add: deal_def)
  moreover have "distinct (map po_id (bl_orders t))" using assms(1) by (simp add: bill_inv_def distinct_rows_def)
  ultimately have "q = r" using q(1) assms(3) by (metis distinct_map inj_onD)
  then show ?thesis using q(2) by simp
qed

lemma known_may_redeem: "known_order o' t \<Longrightarrow> is_recharge o' \<Longrightarrow> may_redeem (po_user_id o') (po_recharge_code o') t"
  by (auto simp: known_order_def may_redeem_def dest!: deal_sel)

context accounting
begin

lemma get_order_fair:
  "rg R bill_inv (get_order oid) (\<lambda>r t. bill_inv t \<and> (\<forall>o'. r = Inr o' \<longrightarrow> known_order o' t \<and> po_id o' = oid))"
  unfolding get_order_def
proof (rule stmt_rule [OF stable_inv])
  fix t assume "bill_inv t"
  then show "R t (snd (case find_order oid t of None \<Rightarrow> Inl ent_not_found | Some o' \<Rightarrow> Inr o', t)) \<and>
      bill_inv (snd (case find_order oid t of None \<Rightarrow> Inl ent_not_found | Some o' \<Rightarrow> Inr o', t)) \<and>
      (\<forall>o'. fst (case find_order oid t of None \<Rightarrow> Inl ent_not_found | Some o' \<Rightarrow> Inr o', t) = Inr o' \<longrightarrow>
        known_order o' (snd (case find_order oid t of None \<Rightarrow> Inl ent_not_found | Some o' \<Rightarrow> Inr o', t)) \<and> po_id o' = oid)"
    using reflexive by (auto simp: known_order_def find_order_def find_Some_iff split: option.splits intro!: bexI [OF _ nth_mem])
qed (auto intro: reflexive)

end

subsection \<open>The steps of a fulfilment\<close>

lemma order_flow_one: "order_flow s s' \<Longrightarrow> order_flows s s'"
  by blast

context accounting
begin

lemma mark_completed_fair:
  "rg R (\<lambda>t. (bill_inv t \<and> known_order o' t) \<and> (is_recharge o' \<longrightarrow> backed t (po_recharge_code o')))
     (mark_completed o' action) (\<lambda>_. bill_inv)"
proof -
  let ?P = "\<lambda>t. (bill_inv t \<and> known_order o' t) \<and> (is_recharge o' \<longrightarrow> backed t (po_recharge_code o'))"
  have P: "stable R ?P"
    using stable_known_order [of o'] stable_backed [of "po_recharge_code o'"] unfolding stable_def by blast
  have st: "rg R ?P (stmt (update_order (po_id o') (\<lambda>r. po_status r = RECHARGING)
      (\<lambda>r. r\<lparr>po_status := COMPLETED, po_completed_at := Some n\<rparr>))) (\<lambda>_. bill_inv)" for n
  proof (rule stmt_rule [OF P])
    fix t assume t: "?P t"
    have "fair t (snd (update_order (po_id o') (\<lambda>r. po_status r = RECHARGING)
      (\<lambda>r. r\<lparr>po_status := COMPLETED, po_completed_at := Some n\<rparr>) t))"
    proof (rule fair_update_order, intro conjI impI)
      fix r assume r: "r \<in> set (bl_orders t)" "po_id r = po_id o'" "po_status r = RECHARGING"
      show "deal (r\<lparr>po_status := COMPLETED, po_completed_at := Some n\<rparr>) = deal r" by (simp add: deal_def)
      show "order_flows (po_status r) (po_status (r\<lparr>po_status := COMPLETED, po_completed_at := Some n\<rparr>))"
        using r(3) by (simp add: order_flow_one order_flow.complete)
      assume "is_recharge r"
      then show "settled (po_status r) \<or> backed t (po_recharge_code r)"
        using t known_order_row [of t o' r] r(1,2) deal_sel [of r o'] by auto
    qed
    then show "R t (snd (update_order (po_id o') (\<lambda>r. po_status r = RECHARGING)
        (\<lambda>r. r\<lparr>po_status := COMPLETED, po_completed_at := Some n\<rparr>) t)) \<and>
      bill_inv (snd (update_order (po_id o') (\<lambda>r. po_status r = RECHARGING)
        (\<lambda>r. r\<lparr>po_status := COMPLETED, po_completed_at := Some n\<rparr>) t))"
      using t of_fair by (simp add: fair_def)
    then show "bill_inv t \<and> bill_inv (snd (update_order (po_id o') (\<lambda>r. po_status r = RECHARGING)
        (\<lambda>r. r\<lparr>po_status := COMPLETED, po_completed_at := Some n\<rparr>) t))" for e :: string
      using t by blast
  qed
  have log: "rg R bill_inv (do { _ \<leftarrow> write_audit_log (po_id o') action op d; okM () }) (\<lambda>_. bill_inv)" for op d
    by (rule side_step [OF runs_keeps [OF keeps_write_audit] stable_inv return_rule])
  show ?thesis
    unfolding mark_completed_def
    by (rule bind_rule [OF peek_rule], assumption,
        rule try_rule [OF rg_conseq [OF st] log]) (auto split: sum.split)
qed

end

lemma numeric_nonneg: "0 \<le> x \<Longrightarrow> 0 \<le> numeric n x"
proof -
  assume "0 \<le> x"
  have "0 \<le> x * pow10 n" using \<open>0 \<le> x\<close> less_imp_le [OF pow10_pos] by (rule mult_nonneg_nonneg)
  then have "0 \<le> \<lfloor>x * pow10 n + 1 / 2\<rfloor>" by simp
  then have "0 \<le> rat_of_int \<lfloor>x * pow10 n + 1 / 2\<rfloor> / pow10 n"
    using less_imp_le [OF pow10_pos] by (intro divide_nonneg_nonneg) simp_all
  then show ?thesis using \<open>0 \<le> x\<close> by (simp add: numeric_def)
qed

lemma known_order_facts:
  assumes "bill_inv t" "known_order o' t" "is_recharge o'"
  shows "trim_space (po_recharge_code o') = po_recharge_code o' \<and> 0 \<le> po_amount o'"
  using assms by (force simp: known_order_def bill_inv_def named_codes_def dest!: deal_sel)

lemma known_order_code:
  assumes "bill_inv t" "known_order o' t" "r \<in> set (bl_orders t)" "po_recharge_code r = po_recharge_code o'"
  shows "deal r = deal o'"
proof -
  obtain q where q: "q \<in> set (bl_orders t)" "deal q = deal o'" using assms(2) by (auto simp: known_order_def)
  then have "po_recharge_code q = po_recharge_code r" using assms(4) by (simp add: deal_def)
  moreover have "distinct (map po_recharge_code (bl_orders t))"
    using assms(1) by (simp add: bill_inv_def distinct_rows_def)
  ultimately have "q = r" using q(1) assms(3) by (metis distinct_map inj_onD)
  then show ?thesis using q(2) by simp
qed

text \<open>A new code, unused and of no order but its own, moves nothing.\<close>

lemma fair_insert_code:
  assumes c: "\<not> code_is_used c" "rc_type c = ''balance'' \<longrightarrow> 0 \<le> rc_value c"
    and own: "\<And>r. bill_inv t \<Longrightarrow> r \<in> set (bl_orders t) \<Longrightarrow> is_recharge r \<Longrightarrow> po_recharge_code r = rc_code c \<Longrightarrow>
      rc_type c = ''balance'' \<and> rc_value c = po_amount r"
  shows "fair t (snd (insert_code c t))"
proof (cases "find_code (rc_code c) t = None \<and> bill_inv t")
  case False
  then show ?thesis by (auto simp: insert_code_def fair_def codes_kept_refl orders_kept_refl)
next
  case True
  then have inv: "bill_inv t" by blast
  let ?c = "c\<lparr>rc_id := bl_next_code t, rc_value := numeric 8 (rc_value c)\<rparr>"
  let ?t = "t\<lparr>bl_codes := bl_codes t @ [?c], bl_next_code := bl_next_code t + 1\<rparr>"
  have new: "\<forall>d \<in> set (bl_codes t). rc_code d \<noteq> rc_code c"
    using True by (auto simp: find_code_def find_None_iff)
  have unused: "\<not> code_is_used ?c" using c(1) by (simp add: code_is_used_def)
  have old: "rc_id d \<noteq> bl_next_code t \<and> rc_id d < bl_next_code t + 1" if "d \<in> set (bl_codes t)" for d
    using inv that by (force simp: bill_inv_def distinct_rows_def)
  have own': "belongs r ?c" if "r \<in> set (bl_orders t)" "is_recharge r" "po_recharge_code r = rc_code c" for r
    using own [OF inv that] unused by (simp add: belongs_def)
  have "distinct_rows ?t" using inv new old by (auto simp: bill_inv_def distinct_rows_def)
  moreover have "named_codes ?t"
    using inv numeric_nonneg [of "rc_value c" 8] c(2) by (auto simp: bill_inv_def named_codes_def)
  moreover have "own_codes ?t" using inv own' by (auto simp: bill_inv_def own_codes_def)
  moreover have "settled_backed ?t" using inv by (auto simp: bill_inv_def settled_backed_def backed_def)
  ultimately have "bill_inv ?t" by (simp add: bill_inv_def)
  moreover have "unexplained ?t v = unexplained t v" for v
    using unused by (simp add: unexplained_def code_credit_def credit_of_def recharged_def transfer_credit_def ledger_sum_def)
  moreover have "codes_kept t ?t" using unused by (auto simp: codes_kept_def)
  moreover have "orders_kept t ?t" using orders_kept_refl [of t] by (simp add: orders_kept_def)
  ultimately show ?thesis using True by (simp add: insert_code_def fair_def Let_def)
qed

lemma fair_insert_order_code:
  assumes t: "bill_inv t" "known_order o' t" "is_recharge o'"
  shows "fair t (snd (insert_code (order_code o') t))"
proof (rule fair_insert_code)
  fix r assume r: "r \<in> set (bl_orders t)" "po_recharge_code r = rc_code (order_code o')"
  then show "rc_type (order_code o') = ''balance'' \<and> rc_value (order_code o') = po_amount r"
    using known_order_code [OF t(1,2)] deal_sel [of r o'] by (simp add: order_code_def default_code_def)
qed (use known_order_facts [OF t] in \<open>auto simp: order_code_def default_code_def code_is_used_def\<close>)

context accounting
begin

lemma create_order_code_fair:
  assumes rec: "is_recharge o'"
  shows "rg R (\<lambda>t. bill_inv t \<and> known_order o' t) (create_code (order_code o')) (\<lambda>_ t. bill_inv t \<and> known_order o' t)"
proof (rule rg_pre [where b = "trim_space (po_recharge_code o') = po_recharge_code o'"])
  show "bill_inv t \<and> known_order o' t \<Longrightarrow> trim_space (po_recharge_code o') = po_recharge_code o'" for t
    using known_order_facts [OF _ _ rec] by blast
  assume tr: "trim_space (po_recharge_code o') = po_recharge_code o'"
  let ?P = "\<lambda>t. bill_inv t \<and> known_order o' t"
  let ?c = "order_code o'"
  have ins: "rg R ?P (tryM w (stmt (insert_code ?c)) okM) (\<lambda>_. ?P)" for w
  proof (rule try_rule)
    show "rg R ?P (stmt (insert_code ?c)) (\<lambda>r t. case r of Inl e \<Rightarrow> ?P t | Inr a \<Rightarrow> ?P t)"
    proof (rule stmt_rule [OF stable_known_order])
      fix t assume t: "?P t"
      have f: "fair t (snd (insert_code ?c t))"
        by (rule fair_insert_order_code) (use t rec in auto)
      from of_fair [OF f] have f: "R t (snd (insert_code ?c t))" .
      then have "?P (snd (insert_code ?c t))"
        using stable_known_order [of o'] t unfolding stable_def by blast
      then show "R t (snd (insert_code ?c t)) \<and>
          (case fst (insert_code ?c t) of Inl e \<Rightarrow> ?P (snd (insert_code ?c t)) | Inr a \<Rightarrow> ?P (snd (insert_code ?c t)))"
        "(case Inl (Plain e) of Inl e \<Rightarrow> ?P t | Inr (a :: redeem_code) \<Rightarrow> ?P t) \<and>
          (case Inl (Plain e) of Inl e \<Rightarrow> ?P (snd (insert_code ?c t)) | Inr (a :: redeem_code) \<Rightarrow> ?P (snd (insert_code ?c t)))" for e
        using f t by (auto split: sum.split)
    qed
  qed (auto intro: return_rule)
  have sel: "rc_code ?c = po_recharge_code o'" "rc_type ?c = ''balance''" "rc_status ?c = ''unused''" "rc_value ?c = po_amount o'"
    by (simp_all add: order_code_def default_code_def)
  have same: "?c\<lparr>rc_code := po_recharge_code o', rc_type := ''balance'', rc_status := ''unused''\<rparr> = ?c"
    by (simp add: order_code_def default_code_def)
  have go: "rg R ?P (if code_is_expired_at n ?c then failM (App err_redeem_code_expired)
      else tryM w (stmt (insert_code ?c)) okM) (\<lambda>_. ?P)" for n w
    by (rule rg_if, rule return_rule, assumption) (rule ins)
  have eq: "create_code ?c = (if po_recharge_code o' = [] then failM (Plain ''code is required'')
      else if po_amount o' = 0 then failM (Plain ''value must not be zero'')
      else do { n \<leftarrow> now;
        if code_is_expired_at n ?c then failM (App err_redeem_code_expired)
        else tryM (wrap ''create redeem code'') (stmt (insert_code ?c)) okM })"
    unfolding create_code_def Let_def sel tr by (simp add: same sel cong: if_cong)
  show "rg R ?P (create_code ?c) (\<lambda>_. ?P)"
    unfolding eq
    by (rule rg_if, rule return_rule, assumption)
      (rule rg_if, rule return_rule, assumption,
       rule bind_rule [OF peek_rule [where Q = "\<lambda>_. ?P"] go], assumption)
qed


end

lemma books_claim_rebate [simp]: "same_books t (snd (claim_rebate oid base t))"
  by (simp add: claim_rebate_def)

lemma books_update_claimed_rebate [simp]: "same_books t (snd (update_claimed_rebate oid a d t))"
  by (simp add: update_claimed_rebate_def Let_def)

context bookkeeping
begin

lemma keeps_rebate_tx: "keeps R (rebate_tx cfg o' base)"
  unfolding rebate_tx_def by (intro keeps_rules quiet_stmt books_claim_rebate books_update_claimed_rebate)

lemma runs_rebate: "runs R (apply_affiliate_rebate env o')"
  unfolding apply_affiliate_rebate_def
  by (intro runs_rules keeps_rebate_tx runs_keeps [OF keeps_write_audit])

end

definition backs :: "payment_order \<Rightarrow> bill \<Rightarrow> bool" where
  "backs o' t \<longleftrightarrow> (bill_inv t \<and> known_order o' t) \<and> (is_recharge o' \<longrightarrow> backed t (po_recharge_code o'))"

context accounting
begin

lemma stable_backs: "stable R (backs o')"
  using stable_known_order [of o'] stable_backed [of "po_recharge_code o'"] unfolding stable_def backs_def by blast

lemma complete_with_rebate_fair:
  "rg R (backs o') (tryM (\<lambda>e. e) (apply_affiliate_rebate env o') (\<lambda>_. mark_completed o' action)) (\<lambda>_. bill_inv)"
  by (rule try_rule [where S = "\<lambda>_. backs o'"],
      rule rg_conseq [OF runs_rg [OF runs_rebate stable_backs]])
    (auto simp: backs_def split: sum.split intro: rg_conseq [OF mark_completed_fair])

lemma redeem_for_order_fair:
  assumes rec: "is_recharge o'"
  shows "rg R (\<lambda>t. bill_inv t \<and> known_order o' t) (redeem_for_order env o') (\<lambda>_. bill_inv)"
  unfolding redeem_for_order_def finish_balance_def
proof (rule try_rule [OF _ complete_with_rebate_fair])
  have "rg R (\<lambda>t. (bill_inv t \<and> may_redeem (po_user_id o') (po_recharge_code o') t) \<and> (bill_inv t \<and> known_order o' t))
      (redeem (pe_redeem env) True (po_user_id o') (po_recharge_code o'))
      (\<lambda>r t. (bill_inv t \<and> (\<forall>c. r = Inr c \<longrightarrow> backed t (po_recharge_code o'))) \<and> (bill_inv t \<and> known_order o' t))"
    by (rule rg_frame [OF stable_known_order redeem_fair])
  then show "rg R (\<lambda>t. bill_inv t \<and> known_order o' t)
      (redeem (pe_redeem env) True (po_user_id o') (po_recharge_code o'))
      (\<lambda>r t. case r of Inl e \<Rightarrow> bill_inv t | Inr a \<Rightarrow> backs o' t)"
    by (rule rg_conseq) (use rec known_may_redeem in \<open>auto simp: backs_def split: sum.split\<close>)
qed

lemma get_used_code_fair:
  "rg R (\<lambda>t. bill_inv t \<and> known_order o' t) (get_code code)
     (\<lambda>r t. (bill_inv t \<and> known_order o' t) \<and> (\<forall>c. r = Inr c \<longrightarrow> code_is_used c \<longrightarrow> backed t code))"
  unfolding get_code_def
  by (rule stmt_rule [OF stable_known_order])
    (auto simp: find_code_def find_Some_iff backed_def reflexive split: option.splits)

lemma do_balance_fair:
  assumes rec: "is_recharge o'"
  shows "rg R (\<lambda>t. bill_inv t \<and> known_order o' t) (do_balance env o') (\<lambda>_. bill_inv)"
  unfolding do_balance_def
proof (rule bind_rule [OF get_used_code_fair])
  fix r :: "go_error + redeem_code"
  let ?P = "\<lambda>t. bill_inv t \<and> known_order o' t"
  let ?S = "\<lambda>t. ?P t \<and> (\<forall>c. r = Inr c \<longrightarrow> code_is_used c \<longrightarrow> backed t (po_recharge_code o'))"
  have create: "rg R ?P (tryM (wrap ''create redeem code'') (create_code (order_code o'))
      (\<lambda>_. redeem_for_order env o')) (\<lambda>_. bill_inv)"
    by (rule try_rule [OF _ redeem_for_order_fair [OF rec]],
        rule rg_conseq [OF create_order_code_fair [OF rec]]) (auto split: sum.split)
  show "rg R ?S (case resolve_redeem_action r of
      CreateThenRedeem \<Rightarrow> tryM (wrap ''create redeem code'') (create_code (order_code o')) (\<lambda>_. redeem_for_order env o')
    | RedeemOnly \<Rightarrow> redeem_for_order env o'
    | SkipCompleted \<Rightarrow> finish_balance env o') (\<lambda>_. bill_inv)"
  proof (cases "resolve_redeem_action r")
    case CreateThenRedeem
    then show ?thesis using create by (auto intro: rg_conseq)
  next
    case RedeemOnly
    then show ?thesis using redeem_for_order_fair [OF rec] by (auto intro: rg_conseq)
  next
    case SkipCompleted
    then have "\<exists>c. r = Inr c \<and> code_is_used c" by (auto simp: resolve_redeem_action_def split: sum.splits if_splits)
    then show ?thesis
      unfolding SkipCompleted finish_balance_def redeem_action.case
      by (intro rg_conseq [OF complete_with_rebate_fair]) (auto simp: backs_def)
  qed
qed

lemma do_sub_fair:
  assumes sub: "\<not> is_recharge o'"
  shows "rg R (\<lambda>t. bill_inv t \<and> known_order o' t) (do_sub env o' gid days) (\<lambda>_. bill_inv)"
proof -
  let ?P = "\<lambda>t. bill_inv t \<and> known_order o' t"
  have fin: "rg R ?P (tryM (\<lambda>e. e) (apply_affiliate_rebate env o') (\<lambda>_. mark_completed o' ''SUBSCRIPTION_SUCCESS''))
      (\<lambda>_. bill_inv)"
    by (rule rg_conseq [OF complete_with_rebate_fair]) (use sub in \<open>auto simp: backs_def\<close>)
  have assign: "keeps R (if assigned then okM ()
      else tryM (wrap ''assign subscription'') (assign_or_extend_subscription tz inp)
        (\<lambda>_. do { _ \<leftarrow> write_audit_log (po_id o') ''SUBSCRIPTION_ASSIGNED'' ''system'' d; okM () }))" for assigned tz inp d
    by (intro keeps_rules)
  have rest: "rg R ?P (do {
       a1 \<leftarrow> has_audit_log (po_id o') ''SUBSCRIPTION_ASSIGNED'';
       assigned \<leftarrow> (if a1 then State_Monad.return True else has_audit_log (po_id o') ''SUBSCRIPTION_SUCCESS'');
       tryM (\<lambda>e. e) (m assigned) (\<lambda>_. tryM (\<lambda>e. e) (apply_affiliate_rebate env o')
         (\<lambda>_. mark_completed o' ''SUBSCRIPTION_SUCCESS'')) }) (\<lambda>_. bill_inv)"
    if m: "\<And>b. keeps R (m b)" for m :: "bool \<Rightarrow> (billing, unit) fallible"
    by (rule bind_rule [OF keeps_rg [OF keeps_has_audit stable_known_order]],
        rule bind_rule [OF keeps_rg [OF _ stable_known_order]], (intro keeps_rules)[1],
        rule try_rule [OF rg_conseq [OF keeps_rg [OF m stable_known_order]] fin])
      (auto split: sum.split)
  show ?thesis
    unfolding do_sub_def
    by (rule bind_rule [OF keeps_rg [OF keeps_get_group stable_known_order]], rule rg_if,
        rule return_rule, simp, rule rest [OF assign])
qed


end

subsection \<open>The handlers\<close>

lemma plain_update_fair:
  assumes "\<And>r. p r \<Longrightarrow> deal (g r) = deal r \<and> order_flows (po_status r) (po_status (g r)) \<and>
      (settled (po_status (g r)) \<longrightarrow> settled (po_status r))"
  shows "fair t (snd (update_order oid p g t))"
  by (rule fair_update_order) (use assms in blast)

context accounting
begin

lemma keeps_update_order:
  assumes "\<And>r. p r \<Longrightarrow> deal (g r) = deal r \<and> order_flows (po_status r) (po_status (g r)) \<and>
      (settled (po_status (g r)) \<longrightarrow> settled (po_status r))"
  shows "keeps R (stmt (update_order oid p g))"
  by (rule keeps_stmt [OF of_fair [OF plain_update_fair [OF assms]]])

lemma keeps_claim_order: "keeps R (claim_order oid)"
  unfolding claim_order_def
  by (rule keeps_update_order) (auto simp: deal_def settled_def intro: order_flow_one order_flow.claim)

lemma keeps_mark_failed: "keeps R (mark_failed oid e)"
  unfolding mark_failed_def
  by (intro keeps_rules keeps_update_order)
    (auto simp: deal_def settled_def intro: order_flow_one order_flow.fail)

lemma keeps_get_order: "keeps R (get_order oid)"
  unfolding get_order_def by (rule quiet_stmt) simp

lemma try_keeps:
  assumes "keeps R m" "stable R P" "\<And>t. P t \<Longrightarrow> bill_inv t" "\<And>a. rg R P (k a) (\<lambda>_. bill_inv)"
  shows "rg R P (tryM w m k) (\<lambda>_. bill_inv)"
  by (rule try_rule [OF rg_conseq [OF keeps_rg [OF assms(1,2)]] assms(4)])
    (auto intro: assms(3) split: sum.split)

lemma run_fulfilment_fair:
  assumes work: "rg R (\<lambda>t. bill_inv t \<and> known_order o' t) work (\<lambda>_. bill_inv)"
  shows "rg R (\<lambda>t. bill_inv t \<and> known_order o' t) (run_fulfilment oid work) (\<lambda>_. bill_inv)"
proof -
  have fail: "rg R bill_inv (do { _ \<leftarrow> mark_failed oid e; failM e }) (\<lambda>_. bill_inv)" for e
    by (rule side_step [OF runs_keeps [OF keeps_mark_failed] stable_inv return_rule])
  have step: "rg R bill_inv (case r of Inl e \<Rightarrow> do { _ \<leftarrow> mark_failed oid e; failM e } | Inr _ \<Rightarrow> okM ()) (\<lambda>_. bill_inv)"
    for r :: "go_error + unit"
    by (rule rg_sum [OF fail return_rule])
  show ?thesis
    unfolding run_fulfilment_def
    by (rule try_keeps [OF keeps_claim_order stable_known_order], simp,
        rule rg_if, rule return_rule, simp, rule bind_rule [OF work step])
qed

end

text \<open>An order id that belongs to a recharge order, or to a subscription order.\<close>

definition order_kind :: "bool \<Rightarrow> int64 \<Rightarrow> bill \<Rightarrow> bool" where
  "order_kind b oid t \<longleftrightarrow> (\<exists>r \<in> set (bl_orders t). po_id r = oid \<and> is_recharge r = b)"

context accounting
begin

lemma stable_order_kind: "stable R (\<lambda>t. bill_inv t \<and> order_kind b oid t)"
  unfolding stable_def
proof (intro allI impI conjI)
  fix t t' assume f0: "R t t'" "bill_inv t \<and> order_kind b oid t"
  then have f: "kept t t'" "bill_inv t \<and> order_kind b oid t" using to_kept by blast+
  then show "bill_inv t'" by (simp add: kept_def)
  obtain r where r: "r \<in> set (bl_orders t)" "po_id r = oid" "is_recharge r = b" using f(2) by (auto simp: order_kind_def)
  have "orders_kept t t'" using f by (simp add: kept_def)
  then obtain r' where "r' \<in> set (bl_orders t')" "deal r' = deal r" using r(1) by (auto simp: orders_kept_def)
  then show "order_kind b oid t'" using r(2,3) deal_sel [of r' r] by (auto simp: order_kind_def)
qed

end

lemma order_kind_known:
  assumes "bill_inv t" "order_kind b oid t" "known_order o' t" "po_id o' = oid"
  shows "is_recharge o' = b"
proof -
  obtain r where r: "r \<in> set (bl_orders t)" "po_id r = oid" "is_recharge r = b" using assms(2) by (auto simp: order_kind_def)
  then show ?thesis using known_order_row [OF assms(1,3) r(1)] assms(4) deal_sel [of r o'] by simp
qed

context accounting
begin

lemma get_order_kind:
  "rg R (\<lambda>t. bill_inv t \<and> order_kind b oid t) (get_order oid)
    (\<lambda>r t. bill_inv t \<and> (\<forall>o'. r = Inr o' \<longrightarrow> known_order o' t \<and> po_id o' = oid \<and> is_recharge o' = b))"
  by (rule rg_conseq [OF rg_frame [OF stable_order_kind get_order_fair]]) (auto dest: order_kind_known)

lemma guarded_fair:
  assumes work: "\<And>o'. is_recharge o' = b \<Longrightarrow>
      rg R (\<lambda>t. bill_inv t \<and> known_order o' t) (work o') (\<lambda>_. bill_inv)"
  shows "rg R (\<lambda>t. bill_inv t \<and> order_kind b oid t)
    (tryM w (get_order oid) (\<lambda>o'. if po_status o' = COMPLETED then okM ()
       else case fulfil_guard o' of Some e \<Rightarrow> failM e | None \<Rightarrow> work o')) (\<lambda>_. bill_inv)"
proof (rule try_rule [where S = "\<lambda>o' t. bill_inv t \<and> known_order o' t \<and> is_recharge o' = b"])
  show "rg R (\<lambda>t. bill_inv t \<and> order_kind b oid t) (get_order oid)
      (\<lambda>r t. case r of Inl e \<Rightarrow> bill_inv t | Inr o' \<Rightarrow> bill_inv t \<and> known_order o' t \<and> is_recharge o' = b)"
    by (rule rg_conseq [OF get_order_kind]) (auto split: sum.split)
  show "rg R (\<lambda>t. bill_inv t \<and> known_order o' t \<and> is_recharge o' = b)
      (if po_status o' = COMPLETED then okM ()
       else case fulfil_guard o' of Some e \<Rightarrow> failM e | None \<Rightarrow> work o') (\<lambda>_. bill_inv)" for o'
  proof (rule rg_pre [where b = "is_recharge o' = b"])
    assume k: "is_recharge o' = b"
    show ?thesis
      by (intro rg_if return_rule, simp, cases "fulfil_guard o'")
        (auto intro!: return_rule rg_conseq [OF work [OF k]])
  qed simp
qed

lemma execute_balance_fair:
  "rg R (\<lambda>t. bill_inv t \<and> order_kind True oid t) (execute_balance_fulfillment env oid) (\<lambda>_. bill_inv)"
  unfolding execute_balance_fulfillment_def
  by (rule guarded_fair [OF run_fulfilment_fair [OF do_balance_fair]]) simp

lemma execute_subscription_fair:
  "rg R (\<lambda>t. bill_inv t \<and> order_kind False oid t) (execute_subscription_fulfillment env oid) (\<lambda>_. bill_inv)"
  unfolding execute_subscription_fulfillment_def
  by (rule guarded_fair)
    (auto intro!: return_rule run_fulfilment_fair do_sub_fair split: option.split)

lemma execute_fulfillment_fair: "rg R bill_inv (execute_fulfillment env oid) (\<lambda>_. bill_inv)"
  unfolding execute_fulfillment_def
proof (rule try_rule [where S = "\<lambda>o' t. bill_inv t \<and> order_kind (is_recharge o') oid t"])
  show "rg R bill_inv (get_order oid)
      (\<lambda>r t. case r of Inl e \<Rightarrow> bill_inv t | Inr o' \<Rightarrow> bill_inv t \<and> order_kind (is_recharge o') oid t)"
    by (rule rg_conseq [OF get_order_fair])
      (auto simp: known_order_def order_kind_def dest!: deal_sel split: sum.split)
  show "rg R (\<lambda>t. bill_inv t \<and> order_kind (is_recharge o') oid t)
      (if po_order_type o' = ''subscription'' then execute_subscription_fulfillment env oid
       else execute_balance_fulfillment env oid) (\<lambda>_. bill_inv)" for o'
    using execute_balance_fair execute_subscription_fair by (simp add: is_recharge_def)
qed

lemma runs_fair_rg: "rg R bill_inv m (\<lambda>_. bill_inv) \<Longrightarrow> runs R k \<Longrightarrow>
    rg R bill_inv (do { _ \<leftarrow> k; m }) (\<lambda>_. bill_inv)"
  by (rule side_step [OF _ stable_inv])


lemma audit_step_fair: "rg R bill_inv m (\<lambda>_. bill_inv) \<Longrightarrow>
    rg R bill_inv (do { _ \<leftarrow> write_audit_log oid a op d; m }) (\<lambda>_. bill_inv)"
  by (rule runs_fair_rg [OF _ runs_keeps [OF keeps_write_audit]])

lemma already_processed_fair: "rg R bill_inv (already_processed env o') (\<lambda>_. bill_inv)"
proof -
  have step: "rg R bill_inv (case r of
      Inl _ \<Rightarrow> okM ()
    | Inr c \<Rightarrow>
        (case po_status c of
           COMPLETED \<Rightarrow> okM ()
         | REFUNDED \<Rightarrow> okM ()
         | FAILED \<Rightarrow> execute_fulfillment env (po_id o')
         | PAID \<Rightarrow> failM (Plain (''order '' @ itoa (po_id o') @ '' is being processed''))
         | RECHARGING \<Rightarrow> failM (Plain (''order '' @ itoa (po_id o') @ '' is being processed''))
         | EXPIRED \<Rightarrow> do {
             _ \<leftarrow> write_audit_log (po_id o') ''PAYMENT_AFTER_EXPIRY'' ''system''
                [(''status'', JStr (status_text (po_status c))), (''reason'', JStr ''payment arrived after expiry grace period'')];
             okM () }
         | _ \<Rightarrow> okM ())) (\<lambda>_. bill_inv)" for r :: "go_error + payment_order"
    by (cases r; simp split: order_status.split)
      (auto intro: return_rule execute_fulfillment_fair audit_step_fair)
  show ?thesis
    unfolding already_processed_def
    by (rule bind_rule [OF keeps_rg [OF keeps_get_order stable_inv] step])
qed

lemma to_paid_fair: "rg R bill_inv (to_paid env o' trade_no paid pk) (\<lambda>_. bill_inv)"
proof -
  have set: "keeps R (stmt (update_order oid (payable grace) (set_paid paid trade_no n)))" for oid grace n
    by (rule keeps_update_order)
      (auto simp: set_paid_def deal_def settled_def payable_def intro!: order_flow_one order_flow.pay)
  have booked: "rg R bill_inv (do {
      _ \<leftarrow> (if po_status o' \<in> {CANCELLED, EXPIRED} then write_audit_log (po_id o') a pk d else State_Monad.return ());
      _ \<leftarrow> write_audit_log (po_id o') a' pk d';
      execute_fulfillment env (po_id o') }) (\<lambda>_. bill_inv)" for a a' d d'
    by (intro runs_fair_rg execute_fulfillment_fair) (auto intro: runs_rules runs_keeps [OF keeps_write_audit])
  show ?thesis
    unfolding to_paid_def
    by (rule bind_rule [OF peek_rule [where Q = "\<lambda>_. bill_inv"]], assumption,
        rule try_keeps [OF set stable_inv], assumption, rule rg_if [OF already_processed_fair booked])
qed

end

context bookkeeping
begin

lemma keeps_get_instance [keeps_rules]: "keeps R (get_instance i)"
  unfolding get_instance_def by (rule keeps_read)

lemma keeps_order_provider_instance: "keeps R (order_provider_instance o')"
  unfolding order_provider_instance_def resolve_snapshot_instance_def resolve_unique_legacy_instance_def Let_def
  by (intro keeps_rules)

end

context accounting
begin

lemma confirm_payment_fair: "rg R bill_inv (confirm_payment env oid trade_no paid pk md) (\<lambda>_. bill_inv)"
proof -
  have decide: "rg R bill_inv (case payment_guard env o' k trade_no paid pk md of
      Inl (action, detail, reason) \<Rightarrow> reject_payment o' pk action detail reason
    | Inr x \<Rightarrow> to_paid env o' trade_no x pk) (\<lambda>_. bill_inv)" for o' k
    by (auto simp: reject_payment_def split: sum.split
        intro: to_paid_fair audit_step_fair return_rule)
  have step: "rg R bill_inv (case r of
       Inl _ \<Rightarrow> okM ()
     | Inr o' \<Rightarrow> do {
         inst \<leftarrow> order_provider_instance o';
         let instance_key = (case inst of Inr (Some i) \<Rightarrow> pi_provider_key i | _ \<Rightarrow> '''') in
         case payment_guard env o' instance_key trade_no paid pk md of
           Inl (action, detail, reason) \<Rightarrow> reject_payment o' pk action detail reason
         | Inr x \<Rightarrow> to_paid env o' trade_no x pk }) (\<lambda>_. bill_inv)" for r :: "go_error + payment_order"
    unfolding Let_def
    by (rule rg_sum, rule return_rule, assumption)
      (rule bind_rule [OF keeps_rg [OF keeps_order_provider_instance stable_inv] decide])
  show ?thesis
    unfolding confirm_payment_def
    by (rule bind_rule [OF keeps_rg [OF keeps_get_order stable_inv] step])
qed

lemma notification_fair: "rg R bill_inv (handle_payment_notification env n pk) (\<lambda>_. bill_inv)"
  unfolding handle_payment_notification_def
  by (intro rg_if return_rule try_keeps [OF keeps_read stable_inv] rg_option
      confirm_payment_fair; assumption)

lemma retry_fair: "rg R bill_inv (retry_fulfillment env oid) (\<lambda>_. bill_inv)"
proof -
  have reset: "keeps R (stmt (update_order oid (\<lambda>r. po_status r \<in> {FAILED, PAID})
      (\<lambda>r. r\<lparr>po_status := PAID, po_failed_at := None, po_failed_reason := None\<rparr>)))"
    by (rule keeps_update_order) (auto simp: deal_def settled_def intro!: order_flow_one order_flow.pay)
  show ?thesis
    unfolding retry_fulfillment_def
    by (intro try_keeps [OF keeps_get_order stable_inv] try_keeps [OF reset stable_inv] rg_if
        audit_step_fair execute_fulfillment_fair return_rule; assumption)
qed


subsection \<open>Transfers of affiliate quota\<close>

lemma fair_in_tx:
  assumes "\<And>t0. txr (\<lambda>t b. t = t0 \<and> b = t0) body (\<lambda>r t b. fair t0 b \<and> (\<forall>a. r = Inr a \<longrightarrow> fair t0 t))"
  shows "runs R (in_tx wb wc body)"
  unfolding runs_def
  by (rule in_tx_rule) (auto intro!: txr_conseq [OF assms] intro: of_fair split: sum.split)

end

text \<open>The tables while a transfer of \<open>q\<close> is under way, and the tables a rollback restores.\<close>

definition moved :: "rat \<Rightarrow> int64 \<Rightarrow> bill \<Rightarrow> bill \<Rightarrow> bill \<Rightarrow> bool" where
  "moved q uid t0 t b \<longleftrightarrow> same_books t0 b \<and> bl_codes t = bl_codes t0 \<and> bl_next_code t = bl_next_code t0 \<and>
     bl_orders t = bl_orders t0 \<and> (\<forall>v. recharged v t = recharged v t0 + (if v = uid then q else 0)) \<and>
     (\<forall>v. transfer_credit v t = transfer_credit v t0)"

lemma moved_none: "moved 0 uid t0 t b \<longleftrightarrow> same_books t0 t \<and> same_books t0 b"
  by (auto simp: moved_def same_books_def)

lemma moved_same: "moved q uid t0 t b \<Longrightarrow> same_books t t' \<Longrightarrow> same_books b b' \<Longrightarrow> moved q uid t0 t' b'"
  by (simp add: moved_def same_books_def)

lemma txr_moved:
  assumes "keeps same_books m"
  shows "txr (moved q uid t0) m (\<lambda>_. moved q uid t0)"
  unfolding txr_def
proof (intro allI impI, clarify)
  fix s b r s' assume s: "st_base s = Some b" "moved q uid t0 (st_tabs s) b" and r: "run_state m s = (r, s')"
  show "\<exists>b'. st_base s' = Some b' \<and> set (st_world s') \<subseteq> set (st_world s) \<and> moved q uid t0 (st_tabs s') b'"
    using txrD [OF books.keeps_body [OF assms, of "st_tabs s" b] s(1) _ r] moved_same [OF s(2)] by blast
qed

lemma txr_try_moved:
  assumes "keeps same_books m"
    and "\<And>a. txr (moved q uid t0) (k a) (\<lambda>r t b. fair t0 b \<and> (\<forall>a. r = Inr a \<longrightarrow> fair t0 t))"
  shows "txr (moved q uid t0) (tryM w m k) (\<lambda>r t b. fair t0 b \<and> (\<forall>a. r = Inr a \<longrightarrow> fair t0 t))"
  by (rule txr_try [OF txr_conseq [OF txr_moved [OF assms(1)]] assms(2)])
    (auto split: sum.split simp: moved_def fair_same_books)

lemma fair_accounts:
  assumes "bl_codes t' = bl_codes t" "bl_next_code t' = bl_next_code t" "bl_orders t' = bl_orders t"
    and "\<And>v. unexplained t' v = unexplained t v"
  shows "fair t t'"
  using assms by (auto simp: fair_def bill_inv_def distinct_rows_def named_codes_def own_codes_def settled_backed_def
      backed_def codes_kept_def orders_kept_def)

lemma moved_ledger:
  assumes "moved q uid t0 t b" "ll_action r = ''transfer''" "ll_user_id r = uid" "ll_amount r = q"
  shows "fair t0 (snd (insert_ledger r t))"
proof -
  have "transfer_credit v (snd (insert_ledger r t)) = transfer_credit v t0 + (if v = uid then q else 0)" for v
    using assms by (auto simp: moved_def transfer_credit_def ledger_sum_def insert_ledger_def is_transfer_of_def)
  moreover have "recharged v (snd (insert_ledger r t)) = recharged v t0 + (if v = uid then q else 0)" for v
    using assms by (simp add: moved_def insert_ledger_def recharged_def)
  ultimately have "unexplained (snd (insert_ledger r t)) v = unexplained t0 v" for v
    using assms(1) by (simp add: unexplained_def code_credit_def moved_def insert_ledger_def)
  then show ?thesis
    by (intro fair_accounts) (use assms(1) in \<open>simp_all add: moved_def insert_ledger_def\<close>)
qed

lemma moved_balance:
  assumes "moved 0 uid t0 t b" "0 < q" "bl_users t uid = Some u"
  shows "moved q uid t0 (snd (update_balance uid q t)) b"
proof -
  have "recharged v (snd (update_balance uid q t)) = recharged v t + (if v = uid then q else 0)" for v
    using assms(2,3) by (simp add: update_balance_def recharged_update_user add_balance_def) (simp add: recharged_def)
  moreover have "transfer_credit v (snd (update_balance uid q t)) = transfer_credit v t" for v
    using assms(3) by (simp add: update_balance_def update_user_def transfer_credit_def ledger_sum_def)
  ultimately show ?thesis using assms(1,3) by (simp add: moved_def update_balance_def update_user_def)
qed

lemma books_claim_quota [simp]: "same_books t (snd (claim_quota uid t))"
  by (simp add: claim_quota_def split: option.split)

lemma claim_quota_pos: "fst (claim_quota uid t) = Inr q \<Longrightarrow> 0 < q"
  by (auto simp: claim_quota_def split: option.splits if_splits)

lemma sum_upd_where: "(\<And>r. a (g r) = a r) \<Longrightarrow> (\<And>r. p (g r) = p r) \<Longrightarrow>
    sum_list (map a (filter p (upd_where w g xs))) = sum_list (map a (filter p xs))"
  by (induction xs) (simp_all add: upd_where_def)

lemma books_thaw [simp]:
  "same_books t (t\<lparr>bl_aff_ledger := upd_where w (\<lambda>r. r\<lparr>ll_frozen_until := None\<rparr>) (bl_aff_ledger t)\<rparr>)"
  by (simp add: same_books_def recharged_def transfer_credit_def ledger_sum_def is_transfer_of_def sum_upd_where)

context bookkeeping
begin

lemma keeps_ensure_with_client [keeps_rules]: "keeps R (ensure_user_affiliate_with_client uid)"
  unfolding ensure_user_affiliate_with_client_def
  by (intro keeps_rules quiet_stmt) (simp split: option.split)

lemma keeps_thaw [keeps_rules]: "keeps R (thaw_frozen_quota_tx uid)"
  unfolding thaw_frozen_quota_tx_def by (intro keeps_rules quiet_stmt) simp_all

lemma runs_thaw: "runs R (thaw_frozen_quota uid)"
  unfolding thaw_frozen_quota_def aff_with_tx_def if_False by (intro runs_rules keeps_thaw)

lemma runs_bind_inviter: "runs R (bind_inviter uid inviter)"
  unfolding bind_inviter_def aff_with_tx_def if_False
  by (intro runs_rules keeps_rules quiet_stmt) (simp_all split: option.split)

end

lemma transfer_body:
  "txr (\<lambda>t b. t = t0 \<and> b = t0)
     (tryM (\<lambda>e. e) (ensure_user_affiliate_with_client uid) (\<lambda>_.
      tryM (wrap ''thaw before transfer'') (thaw_frozen_quota_tx uid) (\<lambda>_.
      tryM (\<lambda>e. e) (stmt (claim_quota uid)) (\<lambda>transferred.
      tryM (\<lambda>e. e) (stmt (update_balance uid transferred)) (\<lambda>_.
      tryM (\<lambda>e. e) (get_user uid) (\<lambda>u.
      tryM (wrap ''insert affiliate transfer ledger'')
        (stmt (insert_ledger \<lparr>ll_user_id = uid, ll_action = ''transfer'', ll_amount = transferred,
           ll_source_user_id = None, ll_source_order_id = None, ll_frozen_until = None\<rparr>))
        (\<lambda>_. okM (transferred, us_balance u))))))))
     (\<lambda>r t b. fair t0 b \<and> (\<forall>a. r = Inr a \<longrightarrow> fair t0 t))"
    (is "txr _ ?body ?Q")
proof -
  have abort: "?Q (Inl e) t b" if "moved q uid t0 t b" for q e t b
    using that by (simp add: moved_def fair_same_books)
  have ledger: "txr (moved q uid t0) (tryM w (stmt (insert_ledger \<lparr>ll_user_id = uid, ll_action = ''transfer'',
      ll_amount = q, ll_source_user_id = None, ll_source_order_id = None, ll_frozen_until = None\<rparr>)) (\<lambda>_. okM x)) ?Q"
    for q w x
    by (rule txr_try [where S = "\<lambda>_ t b. fair t0 b \<and> fair t0 t"], rule txr_stmt)
      (use abort in \<open>auto intro: txr_return moved_ledger split: sum.split simp: moved_def fair_same_books\<close>)
  have balance: "txr (\<lambda>t b. moved 0 uid t0 t b \<and> 0 < q) (stmt (update_balance uid q))
      (\<lambda>r t b. case r of Inl e \<Rightarrow> ?Q (Inl e) t b | Inr _ \<Rightarrow> moved q uid t0 t b)" for q
  proof (rule txr_stmt)
    fix t b assume t: "moved 0 uid t0 t b \<and> 0 < q"
    show "case fst (update_balance uid q t) of Inl e \<Rightarrow> ?Q (Inl e) (snd (update_balance uid q t)) b
        | Inr _ \<Rightarrow> moved q uid t0 (snd (update_balance uid q t)) b"
    proof (cases "bl_users t uid")
      case None
      then show ?thesis using t abort [of 0 t b] by (simp add: update_balance_def update_user_def)
    next
      case (Some u)
      moreover have "fst (update_balance uid q t) = Inr ()" using Some by (simp add: update_balance_def update_user_def)
      ultimately show ?thesis using t moved_balance by simp
    qed
  qed (auto simp: moved_def fair_same_books)
  have claim: "txr (moved 0 uid t0) (stmt (claim_quota uid))
      (\<lambda>r t b. case r of Inl e \<Rightarrow> ?Q (Inl e) t b | Inr q \<Rightarrow> moved 0 uid t0 t b \<and> 0 < q)"
  proof (rule txr_stmt)
    fix t b assume t: "moved 0 uid t0 t b"
    have "moved 0 uid t0 (snd (claim_quota uid t)) b" by (rule moved_same [OF t]) simp_all
    then show "case fst (claim_quota uid t) of Inl e \<Rightarrow> ?Q (Inl e) (snd (claim_quota uid t)) b
        | Inr q \<Rightarrow> moved 0 uid t0 (snd (claim_quota uid t)) b \<and> 0 < q"
      using abort claim_quota_pos by (fastforce split: sum.split)
  qed (auto simp: moved_def fair_same_books)
  have "txr (moved 0 uid t0) ?body ?Q"
    by (rule txr_try_moved [OF books.keeps_ensure_with_client], rule txr_try_moved [OF books.keeps_thaw],
        rule txr_try [OF claim], rule txr_try [OF balance], rule txr_try_moved [OF books.keeps_get_user ledger])
  then show ?thesis by (rule txr_conseq) (simp_all add: moved_none)
qed

context accounting
begin

lemma runs_transfer: "runs R (transfer_quota_to_balance uid)"
  unfolding transfer_quota_to_balance_def aff_with_tx_def if_False by (rule fair_in_tx [OF transfer_body])



end

end
