(* ===== verification/PayCancel.thy ===== *)
theory PayCancel
  imports PayBooks
begin

section \<open>Cancelling, expiring and reconciling orders\<close>

text \<open>
  \<open>service/payment_order_lifecycle.go\<close>: the limit on cancellations, cancelling and expiring an order
  after asking its provider, and looking up missed payments.  The cancellation sent to the provider
  of an unpaid order changes no table and is left out, so \<open>checkPaid\<close> and \<open>reconcilePaid\<close> are the
  same here.  The proofs at the end put every handler in reach of \<open>accounting\<close>.
\<close>

record cancel_limit =
  cl_enabled :: bool
  cl_max :: int
  cl_window :: int
  cl_unit :: string
  cl_mode :: string

definition cancel_window_start :: "duration \<Rightarrow> cancel_limit \<Rightarrow> time \<Rightarrow> time" where
  "cancel_window_start tz cfg n =
     (let w = (if cl_window cfg \<le> 0 then 1 else cl_window cfg);
          u = (if cl_unit cfg = [] then ''day'' else cl_unit cfg) in
      if cl_mode cfg = ''fixed'' then
        (if u = ''minute'' then n - n mod minute - (w - 1) * minute
         else if u = ''day'' then add_days (start_of_day tz n) (- (w - 1))
         else n - n mod hour - (w - 1) * hour)
      else
        (if u = ''minute'' then n - w * minute
         else if u = ''day'' then add_days n (- w)
         else n - w * hour))"

definition user_operator :: "int64 \<Rightarrow> string" where
  "user_operator uid = ''user:'' @ itoa uid"

definition cancelled_since :: "int64 \<Rightarrow> time \<Rightarrow> bill \<Rightarrow> int" where
  "cancelled_since uid start t = count_where
     (\<lambda>a. al_action a = ''ORDER_CANCELLED'' \<and> al_operator a = user_operator uid \<and> start \<le> al_created_at a) (bl_audit t)"

definition check_cancel_rate_limit :: "duration \<Rightarrow> cancel_limit \<Rightarrow> int64 \<Rightarrow> (billing, unit) fallible" where
  "check_cancel_rate_limit tz cfg uid =
     (if \<not> cl_enabled cfg \<or> cl_max cfg \<le> 0 then okM ()
      else do {
        n \<leftarrow> now;
        r \<leftarrow> read (cancelled_since uid (cancel_window_start tz cfg n));
        case r of
          Inl _ \<Rightarrow> okM ()
        | Inr c \<Rightarrow>
            if cl_max cfg \<le> c then
              failM (App (with_metadata (too_many_requests ''CANCEL_RATE_LIMITED'' ''cancel rate limited'')
                [(''max'', itoa (cl_max cfg)), (''window'', itoa (cl_window cfg)), (''unit'', cl_unit cfg)]))
            else okM () })"

subsection \<open>Asking the provider\<close>

definition order_query_reference :: "payment_order \<Rightarrow> provider \<Rightarrow> string" where
  "order_query_reference o' pv =
     (let k0 = trim_space (pv_key pv);
          k1 = (if k0 \<noteq> [] then k0 else case order_snapshot o' of Some sn \<Rightarrow> trim_space (sn_provider_key sn) | None \<Rightarrow> []);
          k2 = (if k1 \<noteq> [] then k1 else trim_space (string_value (po_provider_key o')));
          k3 = (if k2 \<noteq> [] then k2 else trim_space (po_payment_type o'))
      in if get_base_payment_type k3 \<in> {''alipay'', ''easypay'', ''wxpay''} then trim_space (po_out_trade_no o')
         else if trim_space (po_payment_trade_no o') \<noteq> [] then trim_space (po_payment_trade_no o')
         else trim_space (po_out_trade_no o'))"

definition persists_upstream_trade_no :: "string \<Rightarrow> string \<Rightarrow> string \<Rightarrow> bool" where
  "persists_upstream_trade_no ref upstream current \<longleftrightarrow>
     (let u = trim_space upstream in
      u \<noteq> [] \<and> \<not> equal_fold u (trim_space current) \<and> \<not> equal_fold u (trim_space ref))"

definition requery_paid_order_once :: "provider \<Rightarrow> string \<Rightarrow> query_response option" where
  "requery_paid_order_once pv ref =
     (if trim_space ref = [] then None
      else case pv_requery pv ref of
        Inl _ \<Rightarrow> None
      | Inr r \<Rightarrow> if qr_status r \<noteq> ''paid'' \<or> \<not> is_valid_provider_amount (qr_amount r) then None else Some r)"

definition book_answer :: "pay_env \<Rightarrow> payment_order \<Rightarrow> provider \<Rightarrow> string \<Rightarrow> query_response \<Rightarrow> (billing, bool) state" where
  "book_answer env o' pv ref r =
     (let u = trim_space (qr_trade_no r);
          persist = persists_upstream_trade_no ref u (po_payment_trade_no o') in do {
        _ \<leftarrow> (if persist
             then stmt (update_order (po_id o') (\<lambda>_. True) (\<lambda>row. row\<lparr>po_payment_trade_no := u\<rparr>))
             else okM 0);
        _ \<leftarrow> handle_payment_notification env
               \<lparr>nt_trade_no = (if persist then u else po_payment_trade_no o'), nt_order_id = po_out_trade_no o',
                nt_amount = qr_amount r, nt_status = ''success'', nt_metadata = qr_metadata r\<rparr> (pv_key pv);
        State_Monad.return True })"

definition paid_answer :: "pay_env \<Rightarrow> payment_order \<Rightarrow> provider \<Rightarrow> string \<Rightarrow> query_response \<Rightarrow> (billing, bool) state" where
  "paid_answer env o' pv ref r =
     (if is_valid_provider_amount (qr_amount r) then book_answer env o' pv ref r
      else do {
        _ \<leftarrow> write_audit_log (po_id o') ''PAYMENT_INVALID_AMOUNT'' (pv_key pv)
          (case qr_amount r of
             Fin x \<Rightarrow> [(''expected'', JNum (po_pay_amount o')), (''paid'', JNum x),
               (''tradeNo'', JStr (qr_trade_no r)), (''queryRef'', JStr ref)]
           | _ \<Rightarrow> []);
        case requery_paid_order_once pv ref of
          None \<Rightarrow> State_Monad.return False
        | Some r' \<Rightarrow> book_answer env o' pv ref r' })"

text \<open>\<open>True\<close> is the result \<open>already_paid\<close>.\<close>

definition check_paid :: "pay_env \<Rightarrow> payment_order \<Rightarrow> (billing, bool) state" where
  "check_paid env o' = do {
     p \<leftarrow> order_provider env o';
     case p of
       Inl _ \<Rightarrow> State_Monad.return False
     | Inr pv \<Rightarrow>
         let ref = order_query_reference o' pv in
         if ref = [] then State_Monad.return False
         else case pv_query pv ref of
           Inl _ \<Rightarrow> State_Monad.return False
         | Inr r \<Rightarrow> if qr_status r = ''paid'' then paid_answer env o' pv ref r else State_Monad.return False }"

subsection \<open>Cancelling and expiring\<close>

definition cancel_core ::
  "pay_env \<Rightarrow> payment_order \<Rightarrow> order_status \<Rightarrow> string \<Rightarrow> string \<Rightarrow> (billing, string) fallible" where
  "cancel_core env o' final op detail = do {
     paid \<leftarrow> (if po_payment_trade_no o' \<noteq> [] \<or> po_payment_type o' \<noteq> [] then check_paid env o' else State_Monad.return False);
     if paid then okM ''already_paid''
     else tryM (wrap ''update order status'')
       (stmt (update_order (po_id o') (\<lambda>r. po_status r = PENDING) (\<lambda>r. r\<lparr>po_status := final\<rparr>))) (\<lambda>c. do {
         _ \<leftarrow> (if 0 < c
            then write_audit_log (po_id o') (if final = EXPIRED then ''ORDER_EXPIRED'' else ''ORDER_CANCELLED'') op
              [(''detail'', JStr detail)]
            else State_Monad.return ());
         okM ''cancelled'' }) }"

definition err_no_permission :: app_error where
  "err_no_permission = forbidden ''FORBIDDEN'' ''no permission for this order''"

definition cancel_order :: "pay_env \<Rightarrow> int64 \<Rightarrow> int64 \<Rightarrow> (billing, string) fallible" where
  "cancel_order env oid uid =
     tryM (\<lambda>_. App err_order_missing) (get_order oid) (\<lambda>o'.
       if po_user_id o' \<noteq> uid then failM (App err_no_permission)
       else if po_status o' \<noteq> PENDING then failM (invalid_status ''order cannot be cancelled in current status'')
       else cancel_core env o' CANCELLED (user_operator uid) ''user cancelled order'')"

definition admin_cancel_order :: "pay_env \<Rightarrow> int64 \<Rightarrow> (billing, string) fallible" where
  "admin_cancel_order env oid =
     tryM (\<lambda>_. App err_order_missing) (get_order oid) (\<lambda>o'.
       if po_status o' \<noteq> PENDING then failM (invalid_status ''order cannot be cancelled in current status'')
       else cancel_core env o' CANCELLED ''admin'' ''admin cancelled order'')"

fun expire_each :: "pay_env \<Rightarrow> payment_order list \<Rightarrow> (billing, int) state" where
  "expire_each env [] = State_Monad.return 0"
| "expire_each env (o' # os) = do {
     r \<leftarrow> cancel_core env o' EXPIRED ''system'' ''order expired'';
     n \<leftarrow> expire_each env os;
     State_Monad.return (if r = Inr ''cancelled'' then n + 1 else n) }"

definition expire_timed_out_orders :: "pay_env \<Rightarrow> (billing, int) fallible" where
  "expire_timed_out_orders env = do {
     n \<leftarrow> now;
     tryM (wrap ''query expired'') (read (\<lambda>t. filter (\<lambda>r. po_status r = PENDING \<and> po_expires_at r \<le> n) (bl_orders t)))
       (\<lambda>os. do { k \<leftarrow> expire_each env os; okM k }) }"

subsection \<open>Looking up missed payments\<close>

definition trade_no_char :: "char \<Rightarrow> bool" where
  "trade_no_char c \<longleftrightarrow> is_digit c \<or> (97 \<le> (of_char c :: int) \<and> (of_char c :: int) \<le> 122) \<or>
     (65 \<le> (of_char c :: int) \<and> (of_char c :: int) \<le> 90) \<or> c = CHR ''_'' \<or> c = CHR ''-''"

definition err_trade_no :: "string \<Rightarrow> go_error" where
  "err_trade_no msg = App (bad_request ''INVALID_OUT_TRADE_NO'' msg)"

definition normalize_out_trade_no :: "string \<Rightarrow> go_error + string" where
  "normalize_out_trade_no raw =
     (let s = trim_space raw in
      if s = [] then Inl (err_trade_no ''out_trade_no is required'')
      else if 64 < length s \<or> \<not> list_all trade_no_char s then Inl (err_trade_no ''out_trade_no is invalid'')
      else Inr s)"

definition order_by_out_trade_no :: "string \<Rightarrow> (billing, payment_order) fallible" where
  "order_by_out_trade_no no =
     tryM (\<lambda>_. App err_order_missing) (read (\<lambda>t. find (\<lambda>r. po_out_trade_no r = no) (bl_orders t)))
       (\<lambda>r. case r of None \<Rightarrow> failM (App err_order_missing) | Some o' \<Rightarrow> okM o')"

definition verify_order_by_out_trade_no :: "pay_env \<Rightarrow> string \<Rightarrow> int64 \<Rightarrow> (billing, payment_order) fallible" where
  "verify_order_by_out_trade_no env raw uid =
     (case normalize_out_trade_no raw of
        Inl e \<Rightarrow> failM e
      | Inr no \<Rightarrow> tryM (\<lambda>e. e) (order_by_out_trade_no no) (\<lambda>o'.
          if po_user_id o' \<noteq> uid then failM (App err_no_permission)
          else if po_status o' = PENDING \<or> po_status o' = EXPIRED then do {
            paid \<leftarrow> check_paid env o';
            if paid then tryM (wrap ''reload order'') (get_order (po_id o')) okM else okM o' }
          else okM o'))"

definition verify_order_public :: "string \<Rightarrow> (billing, payment_order) fallible" where
  "verify_order_public raw =
     (case normalize_out_trade_no raw of Inl e \<Rightarrow> failM e | Inr no \<Rightarrow> order_by_out_trade_no no)"

definition pending_wxpay :: "time \<Rightarrow> payment_order \<Rightarrow> bool" where
  "pending_wxpay n r \<longleftrightarrow> po_status r = PENDING \<and> n < po_expires_at r \<and>
     (po_payment_type r = ''wxpay'' \<or> has_prefix (po_payment_type r) ''wxpay_'' \<or>
      po_provider_key r = Some ''wxpay'' \<or>
      (case po_provider_key r of None \<Rightarrow> False | Some k \<Rightarrow> has_prefix k ''wxpay_''))"

fun reconcile_each :: "pay_env \<Rightarrow> payment_order list \<Rightarrow> (billing, int) state" where
  "reconcile_each env [] = State_Monad.return 0"
| "reconcile_each env (o' # os) = do {
     paid \<leftarrow> check_paid env o';
     n \<leftarrow> reconcile_each env os;
     State_Monad.return (if paid then n + 1 else n) }"

definition reconcile_pending_wxpay_orders :: "pay_env \<Rightarrow> (billing, int) fallible" where
  "reconcile_pending_wxpay_orders env = do {
     n \<leftarrow> now;
     tryM (wrap ''query pending wxpay orders'')
       (read (\<lambda>t. take 20 (sort_key po_created_at (filter (pending_wxpay n) (bl_orders t)))))
       (\<lambda>os. do { k \<leftarrow> reconcile_each env os; okM k }) }"

subsection \<open>Cancelling keeps the books\<close>

context accounting
begin

lemma keeps_fallback [keeps_rules]: "keeps R (fallback_allowed key)"
  unfolding fallback_allowed_def by (intro keeps_rules)

lemma keeps_order_provider: "keeps R (order_provider env o')"
  unfolding order_provider_def by (intro keeps_rules keeps_order_provider_instance)

lemma bind_keeps:
  "keeps R m \<Longrightarrow> (\<And>a. rg R bill_inv (k a) (\<lambda>_. bill_inv)) \<Longrightarrow> rg R bill_inv (State_Monad.bind m k) (\<lambda>_. bill_inv)"
  by (rule bind_rule [OF keeps_rg [OF _ stable_inv]])

lemma bind_inv:
  "rg R bill_inv m (\<lambda>_. bill_inv) \<Longrightarrow> (\<And>a. rg R bill_inv (k a) (\<lambda>_. bill_inv)) \<Longrightarrow>
    rg R bill_inv (State_Monad.bind m k) (\<lambda>_. bill_inv)"
  by (rule bind_rule)

lemma inv_return: "rg R bill_inv (State_Monad.return a) (\<lambda>_. bill_inv)"
  by (rule return_rule)

lemma keeps_persist: "keeps R (if b then stmt (update_order oid (\<lambda>_. True) (\<lambda>row. row\<lparr>po_payment_trade_no := u\<rparr>)) else okM 0)"
  by (intro keeps_rules keeps_update_order) (simp add: deal_def)

lemma book_answer_fair: "rg R bill_inv (book_answer env o' pv ref r) (\<lambda>_. bill_inv)"
  unfolding book_answer_def Let_def
  by (rule bind_keeps [OF keeps_persist], rule bind_inv [OF notification_fair inv_return])

lemma paid_answer_fair: "rg R bill_inv (paid_answer env o' pv ref r) (\<lambda>_. bill_inv)"
  unfolding paid_answer_def
  by (intro rg_if book_answer_fair bind_keeps [OF keeps_write_audit] rg_option inv_return)

lemma check_paid_fair: "rg R bill_inv (check_paid env o') (\<lambda>_. bill_inv)"
  unfolding check_paid_def Let_def
  by (intro bind_keeps [OF keeps_order_provider] rg_sum rg_if paid_answer_fair inv_return)

lemma cancel_core_fair:
  assumes "final \<in> {CANCELLED, EXPIRED}"
  shows "rg R bill_inv (cancel_core env o' final op d) (\<lambda>_. bill_inv)"
proof -
  have drop: "keeps R (tryM w (stmt (update_order (po_id o') (\<lambda>r. po_status r = PENDING) (\<lambda>r. r\<lparr>po_status := final\<rparr>)))
      (\<lambda>c. do { _ \<leftarrow> (if 0 < c then write_audit_log (po_id o') a op x else State_Monad.return ()); okM ''cancelled'' }))" for w a x
    using assms by (intro keeps_rules keeps_update_order)
      (auto simp: deal_def settled_def intro: order_flow_one order_flow.cancel order_flow.expire)
  show ?thesis
    unfolding cancel_core_def
    by (rule bind_inv) (intro rg_if check_paid_fair inv_return keeps_rg [OF drop stable_inv])+
qed

lemma cancel_order_fair: "rg R bill_inv (cancel_order env oid uid) (\<lambda>_. bill_inv)"
  unfolding cancel_order_def
  by (intro try_keeps [OF keeps_get_order stable_inv] rg_if inv_return cancel_core_fair) simp_all

lemma admin_cancel_order_fair: "rg R bill_inv (admin_cancel_order env oid) (\<lambda>_. bill_inv)"
  unfolding admin_cancel_order_def
  by (intro try_keeps [OF keeps_get_order stable_inv] rg_if inv_return cancel_core_fair) simp_all

lemma expire_each_fair: "rg R bill_inv (expire_each env os) (\<lambda>_. bill_inv)"
proof (induction os)
  case (Cons o' os)
  then show ?case
    unfolding expire_each.simps by (intro bind_inv cancel_core_fair inv_return) simp
qed (simp add: inv_return)

lemma expire_fair: "rg R bill_inv (expire_timed_out_orders env) (\<lambda>_. bill_inv)"
  unfolding expire_timed_out_orders_def
  by (intro bind_keeps [OF keeps_peek] try_keeps [OF keeps_read stable_inv] bind_inv [OF expire_each_fair] inv_return)

lemma reconcile_each_fair: "rg R bill_inv (reconcile_each env os) (\<lambda>_. bill_inv)"
proof (induction os)
  case (Cons o' os)
  then show ?case
    unfolding reconcile_each.simps by (intro bind_inv check_paid_fair inv_return)
qed (simp add: inv_return)

lemma reconcile_fair: "rg R bill_inv (reconcile_pending_wxpay_orders env) (\<lambda>_. bill_inv)"
  unfolding reconcile_pending_wxpay_orders_def
  by (intro bind_keeps [OF keeps_peek] try_keeps [OF keeps_read stable_inv] bind_inv [OF reconcile_each_fair] inv_return)

lemma verify_fair: "rg R bill_inv (verify_order_by_out_trade_no env raw uid) (\<lambda>_. bill_inv)"
proof -
  have look: "keeps R (order_by_out_trade_no no)" for no
    unfolding order_by_out_trade_no_def by (intro keeps_rules)
  show ?thesis
    unfolding verify_order_by_out_trade_no_def
    by (intro rg_sum inv_return try_keeps [OF look stable_inv] rg_if bind_inv [OF check_paid_fair]
        try_keeps [OF keeps_get_order stable_inv])
qed

end

end
