(* ===== verification/PayRefund.thy ===== *)
theory PayRefund
  imports PayCancel
begin

section \<open>Refunds\<close>

text \<open>
  \<open>service/payment_refund.go\<close>: a user's request, the plan of an administrator's refund, its execution
  (claim of the order, deduction, the provider's answer, completion or roll-back) and the
  finalisation of a refund the provider left pending.  A plan is a value: where the code updates it
  in place the functions return the updated plan.
\<close>

datatype deduction = NoDeduction | BalanceDeduction | SubscriptionDeduction

record refund_plan =
  rp_order :: payment_order
  rp_refund_amount :: rat
  rp_gateway_amount :: rat
  rp_reason :: string
  rp_force :: bool
  rp_deduction :: deduction
  rp_balance :: rat
  rp_days :: int
  rp_subscription_id :: int64

record refund_result =
  rf_success :: bool
  rf_warning :: string
  rf_require_force :: bool
  rf_balance_deducted :: rat
  rf_days_deducted :: int

definition refund_warning :: "string \<Rightarrow> refund_result" where
  "refund_warning w = \<lparr>rf_success = False, rf_warning = w, rf_require_force = False,
     rf_balance_deducted = 0, rf_days_deducted = 0\<rparr>"

abbreviation plan_order_id :: "refund_plan \<Rightarrow> int64" where
  "plan_order_id p \<equiv> po_id (rp_order p)"

definition err_user_refund_disabled :: "string \<Rightarrow> go_error" where
  "err_user_refund_disabled msg = App (forbidden ''USER_REFUND_DISABLED'' msg)"

definition err_status_changed :: go_error where
  "err_status_changed = App (conflict_error ''CONFLICT'' ''order status changed'')"

subsection \<open>The request of a user\<close>

definition validate_refund_request :: "int64 \<Rightarrow> int64 \<Rightarrow> (billing, payment_order) fallible" where
  "validate_refund_request oid uid =
     tryM (\<lambda>_. App err_order_missing) (get_order oid) (\<lambda>o'.
       if po_user_id o' \<noteq> uid then failM (App (forbidden ''FORBIDDEN'' ''no permission''))
       else if po_order_type o' \<noteq> ''balance'' then
         failM (App (bad_request ''INVALID_ORDER_TYPE'' ''only balance orders can request refund''))
       else if po_status o' \<noteq> COMPLETED then failM (invalid_status ''only completed orders can request refund'')
       else do {
         inst \<leftarrow> refund_provider_instance o';
         case inst of
           Inr (Some i) \<Rightarrow>
             if pi_allow_user_refund i then okM o'
             else failM (err_user_refund_disabled ''user refund is not enabled for this provider'')
         | _ \<Rightarrow> failM (err_user_refund_disabled ''refund is not available for this order'') })"

definition request_refund :: "int64 \<Rightarrow> int64 \<Rightarrow> string \<Rightarrow> (billing, unit) fallible" where
  "request_refund oid uid reason =
     tryM (\<lambda>e. e) (validate_refund_request oid uid) (\<lambda>o'.
     tryM (wrap ''get user'') (get_user (po_user_id o')) (\<lambda>u.
       if us_balance u < po_amount o' then
         failM (App (bad_request ''BALANCE_NOT_ENOUGH'' ''refund amount exceeds balance''))
       else do {
         n \<leftarrow> now;
         tryM (wrap ''update'')
           (stmt (update_order oid
              (\<lambda>r. po_user_id r = uid \<and> po_status r = COMPLETED \<and> po_order_type r = ''balance'')
              (\<lambda>r. r\<lparr>po_status := REFUND_REQUESTED, po_refund_requested_at := Some n,
                po_refund_request_reason := Some (trim_space reason), po_refund_requested_by := Some (itoa uid),
                po_refund_amount := numeric 2 (po_amount o')\<rparr>))) (\<lambda>c.
           if c = 0 then failM err_status_changed
           else do {
             _ \<leftarrow> write_audit_log oid ''REFUND_REQUESTED'' (user_operator uid)
               [(''amount'', JNum (po_amount o')), (''reason'', JStr (trim_space reason))];
             okM () }) }))"

subsection \<open>The plan\<close>

definition prep_deduct :: "payment_order \<Rightarrow> refund_plan \<Rightarrow> bool \<Rightarrow> (billing, refund_result + refund_plan) state" where
  "prep_deduct o' p force =
     (if po_order_type o' = ''subscription'' then
        let p1 = p\<lparr>rp_deduction := SubscriptionDeduction\<rparr> in
        (case (po_subscription_group_id o', po_subscription_days o') of
           (Some gid, Some days) \<Rightarrow> do {
             r \<leftarrow> get_active_subscription (po_user_id o') gid;
             State_Monad.return (case r of
               Inr s \<Rightarrow> Inr (p1\<lparr>rp_days := days, rp_subscription_id := sb_id s\<rparr>)
             | Inl _ \<Rightarrow>
                 if \<not> force then Inl ((refund_warning
                   ''cannot find active subscription for deduction, use force'')\<lparr>rf_require_force := True\<rparr>)
                 else Inr (p1\<lparr>rp_days := days\<rparr>)) }
         | _ \<Rightarrow> State_Monad.return (Inr p1))
      else do {
        u \<leftarrow> get_user (po_user_id o');
        State_Monad.return (case u of
          Inl _ \<Rightarrow>
            if \<not> force then Inl ((refund_warning ''cannot fetch user balance, use force'')\<lparr>rf_require_force := True\<rparr>)
            else Inr p
        | Inr row \<Rightarrow> Inr (p\<lparr>rp_deduction := BalanceDeduction,
            rp_balance := min (rp_refund_amount p) (us_balance row)\<rparr>)) })"

definition refund_reason :: "string \<Rightarrow> payment_order \<Rightarrow> string" where
  "refund_reason reason o' =
     (let r = trim_space reason;
          r1 = (if r = [] then string_value (po_refund_request_reason o') else r) in
      if r1 = [] then ''refund order:'' @ itoa (po_id o') else r1)"

definition may_refund_from :: "order_status \<Rightarrow> bool" where
  "may_refund_from s \<longleftrightarrow> s \<in> {COMPLETED, REFUND_REQUESTED, REFUND_PENDING, REFUND_FAILED}"

definition new_plan :: "pay_env \<Rightarrow> payment_order \<Rightarrow> rat \<Rightarrow> string \<Rightarrow> bool \<Rightarrow> refund_plan" where
  "new_plan env o' amount reason force = \<lparr>rp_order = o', rp_refund_amount = amount,
     rp_gateway_amount = calculate_gateway_refund_amount (pe_decimal env) (po_amount o') (po_pay_amount o') amount
       (payment_order_currency o'),
     rp_reason = reason, rp_force = force, rp_deduction = NoDeduction, rp_balance = 0, rp_days = 0,
     rp_subscription_id = 0\<rparr>"

definition prepare_refund ::
  "pay_env \<Rightarrow> int64 \<Rightarrow> f64 \<Rightarrow> string \<Rightarrow> bool \<Rightarrow> bool \<Rightarrow> (billing, refund_result + refund_plan) fallible" where
  "prepare_refund env oid amt reason force deduct =
     tryM (\<lambda>_. App err_order_missing) (get_order oid) (\<lambda>o'.
       if \<not> may_refund_from (po_status o') then failM (invalid_status ''order status does not allow refund'')
       else tryM (\<lambda>_. App (internal_server ''PROVIDER_LOOKUP_FAILED'' ''failed to look up payment provider for this order''))
         (refund_provider_instance o') (\<lambda>inst. case inst of
           None \<Rightarrow> failM (App (forbidden ''REFUND_DISABLED'' ''refund is not available for this order''))
         | Some i \<Rightarrow>
             if \<not> pi_refund_enabled i then
               failM (App (forbidden ''REFUND_DISABLED'' ''refund is not enabled for this provider''))
             else (case amt of
               Fin x \<Rightarrow>
                 let amount = (if x \<le> 0 then po_amount o' else x) in
                 if amount_tolerance (payment_order_currency o') < amount - po_amount o' then
                   failM (App (bad_request ''REFUND_AMOUNT_EXCEEDED'' ''refund amount exceeds recharge''))
                 else
                   let p = new_plan env o' amount (refund_reason reason o') force in
                   if deduct then do { r \<leftarrow> prep_deduct o' p force; okM r } else okM (Inr p)
             | _ \<Rightarrow> failM (App (bad_request ''INVALID_AMOUNT'' ''invalid refund amount'')))))"

subsection \<open>Taking back and giving back\<close>

definition restore_status :: "refund_plan \<Rightarrow> (billing, unit) state" where
  "restore_status p = do {
     _ \<leftarrow> stmt (update_one_order (plan_order_id p)
       (\<lambda>r. r\<lparr>po_status := (if po_status (rp_order p) = REFUND_REQUESTED then REFUND_REQUESTED else COMPLETED)\<rparr>));
     State_Monad.return () }"

text \<open>The term is shortened, or the subscription revoked if that would end it.\<close>

definition shorten_or_revoke :: "refund_plan \<Rightarrow> (billing, unit) fallible" where
  "shorten_or_revoke p = do {
     r \<leftarrow> extend_subscription (rp_subscription_id p) (- rp_days p);
     case r of
       Inr _ \<Rightarrow> okM ()
     | Inl e \<Rightarrow>
         if error_is e err_adjust_would_expire
         then tryM (wrap ''revoke subscription'') (revoke_subscription (rp_subscription_id p)) okM
         else failM (Wrapped ''deduct subscription days'' e) }"

definition takes_balance :: "refund_plan \<Rightarrow> bool" where
  "takes_balance p \<longleftrightarrow> rp_deduction p = BalanceDeduction \<and> 0 < rp_balance p"

definition takes_days :: "refund_plan \<Rightarrow> bool" where
  "takes_days p \<longleftrightarrow> rp_deduction p = SubscriptionDeduction \<and> 0 < rp_days p \<and> 0 < rp_subscription_id p"

definition deduct_for_refund :: "refund_plan \<Rightarrow> (billing, refund_plan) fallible" where
  "deduct_for_refund p =
     (if takes_balance p then do {
        stuck \<leftarrow> has_audit_log (plan_order_id p) ''REFUND_ROLLBACK_FAILED'';
        if stuck then okM (p\<lparr>rp_balance := 0\<rparr>)
        else tryM (wrap ''deduction'') (deduct_balance (po_user_id (rp_order p)) (rp_balance p)) (\<lambda>_. okM p) }
      else if takes_days p then do {
        stuck \<leftarrow> has_audit_log (plan_order_id p) ''REFUND_ROLLBACK_FAILED'';
        if stuck then okM (p\<lparr>rp_days := 0\<rparr>)
        else tryM (\<lambda>e. e) (shorten_or_revoke p) (\<lambda>_. okM p) }
      else okM p)"

definition cause_text :: "go_error option \<Rightarrow> string" where
  "cause_text e = (case e of None \<Rightarrow> [] | Some e \<Rightarrow> error_text e)"

definition rollback_refund :: "refund_plan \<Rightarrow> go_error option \<Rightarrow> (billing, bool) state" where
  "rollback_refund p cause =
     (if takes_balance p then do {
        r \<leftarrow> stmt (update_balance (po_user_id (rp_order p)) (rp_balance p));
        case r of
          Inr _ \<Rightarrow> State_Monad.return True
        | Inl e \<Rightarrow> do {
            _ \<leftarrow> write_audit_log (plan_order_id p) ''REFUND_ROLLBACK_FAILED'' ''admin''
              [(''gatewayError'', JStr (cause_text cause)), (''rollbackError'', JStr (error_text e)),
               (''balanceDeducted'', JNum (rp_balance p))];
            State_Monad.return False } }
      else if takes_days p then do {
        r \<leftarrow> extend_subscription (rp_subscription_id p) (rp_days p);
        case r of
          Inr _ \<Rightarrow> State_Monad.return True
        | Inl e \<Rightarrow> do {
            _ \<leftarrow> write_audit_log (plan_order_id p) ''REFUND_ROLLBACK_FAILED'' ''admin''
              [(''gatewayError'', JStr (cause_text cause)), (''rollbackError'', JStr (error_text e)),
               (''subDaysDeducted'', JNum (of_int (rp_days p)))];
            State_Monad.return False } }
      else State_Monad.return True)"

subsection \<open>The outcomes\<close>

definition fail_refund :: "int64 \<Rightarrow> go_error \<Rightarrow> (billing, unit) state" where
  "fail_refund oid cause = do {
     n \<leftarrow> now;
     _ \<leftarrow> stmt (update_one_order oid (\<lambda>r. r\<lparr>po_status := REFUND_FAILED, po_failed_at := Some n,
       po_failed_reason := Some (error_text cause)\<rparr>));
     write_audit_log oid ''REFUND_FAILED'' ''admin'' [(''detail'', JStr (error_text cause))] }"

definition handle_gw_fail :: "refund_plan \<Rightarrow> go_error \<Rightarrow> (billing, refund_result) fallible" where
  "handle_gw_fail p cause = do {
     ok \<leftarrow> rollback_refund p (Some cause);
     if ok then do {
       _ \<leftarrow> restore_status p;
       _ \<leftarrow> write_audit_log (plan_order_id p) ''REFUND_GATEWAY_FAILED'' ''admin'' [(''detail'', JStr (error_text cause))];
       okM (refund_warning (''gateway failed: '' @ error_text cause @ '', rolled back'')) }
     else do {
       _ \<leftarrow> fail_refund (plan_order_id p) cause;
       failM (App (internal_server ''REFUND_FAILED'' (error_text cause))) } }"

definition mark_refund_ok :: "refund_plan \<Rightarrow> (billing, refund_result) fallible" where
  "mark_refund_ok p = do {
     n \<leftarrow> now;
     tryM (wrap ''mark refund'')
       (stmt (update_one_order (plan_order_id p) (\<lambda>r. r\<lparr>
          po_status := (if rp_refund_amount p < po_amount (rp_order p) then PARTIALLY_REFUNDED else REFUNDED),
          po_refund_amount := numeric 2 (rp_refund_amount p), po_refund_reason := Some (rp_reason p),
          po_refund_at := Some n, po_force_refund := rp_force p\<rparr>))) (\<lambda>_. do {
       _ \<leftarrow> write_audit_log (plan_order_id p) ''REFUND_SUCCESS'' ''admin''
          [(''refundAmount'', JNum (rp_refund_amount p)), (''reason'', JStr (rp_reason p)),
           (''balanceDeducted'', JNum (rp_balance p)), (''force'', JBool (rp_force p))];
       okM \<lparr>rf_success = True, rf_warning = [], rf_require_force = False,
         rf_balance_deducted = rp_balance p, rf_days_deducted = rp_days p\<rparr> }) }"

definition mark_refund_pending :: "refund_plan \<Rightarrow> refund_response \<Rightarrow> (billing, refund_result) fallible" where
  "mark_refund_pending p resp = do {
     ok \<leftarrow> rollback_refund p None;
     let p' = (if ok then p\<lparr>rp_balance := 0, rp_days := 0\<rparr> else p) in
     tryM (wrap ''mark refund pending'')
       (stmt (update_one_order (plan_order_id p) (\<lambda>r. r\<lparr>po_status := REFUND_PENDING,
          po_refund_amount := numeric 2 (rp_refund_amount p), po_refund_reason := Some (rp_reason p),
          po_refund_at := None, po_force_refund := rp_force p, po_failed_at := None, po_failed_reason := None\<rparr>))) (\<lambda>_. do {
       _ \<leftarrow> write_audit_log (plan_order_id p) ''REFUND_PENDING'' ''admin''
          [(''refundID'', JStr (trim_space (rr_refund_id resp))), (''refundAmount'', JNum (rp_refund_amount p)),
           (''reason'', JStr (rp_reason p)), (''force'', JBool (rp_force p)),
           (''balanceDeducted'', JNum (rp_balance p')), (''subDaysDeducted'', JNum (of_int (rp_days p'))),
           (''balanceRolledBack'', JNum (rp_balance p)), (''subDaysRolledBack'', JNum (of_int (rp_days p))),
           (''deductionRollbackOK'', JBool ok)];
       okM (refund_warning (''gateway refund is pending confirmation'' @
         (if ok then [] else ''; refund deduction rollback failed''))) }) }"

definition validate_refund_response :: "refund_response option \<Rightarrow> go_error option" where
  "validate_refund_response r =
     (case r of
        None \<Rightarrow> Some (Plain ''payment refund response missing'')
      | Some resp \<Rightarrow>
          let st = trim_space (rr_status resp) in
          if st \<in> {''success'', ''refunded'', ''pending''} then None
          else if st = ''failed'' then Some (Plain (''payment refund failed: status '' @ st))
          else Some (Plain (''payment refund returned unknown status: '' @ st)))"

definition finish_refund :: "refund_plan \<Rightarrow> refund_response option \<Rightarrow> (billing, refund_result) fallible" where
  "finish_refund p r =
     (case validate_refund_response r of
        Some e \<Rightarrow> handle_gw_fail p e
      | None \<Rightarrow> if trim_space (rr_status (the r)) = ''pending'' then mark_refund_pending p (the r) else mark_refund_ok p)"

subsection \<open>Executing\<close>

definition gw_refund :: "pay_env \<Rightarrow> refund_plan \<Rightarrow> (billing, refund_response option) fallible" where
  "gw_refund env p =
     (let o' = rp_order p in
      if po_payment_trade_no o' = [] then do {
        _ \<leftarrow> write_audit_log (po_id o') ''REFUND_NO_TRADE_NO'' ''admin'' [(''detail'', JStr ''skipped'')];
        okM (Some \<lparr>rr_refund_id = [], rr_status = ''success''\<rparr>) }
      else tryM (wrap ''get refund provider'') (refund_provider env o') (\<lambda>pv.
        case validate_snapshot_metadata o' (pv_key pv) (pv_identity pv) of
          Some e \<Rightarrow> do {
            _ \<leftarrow> write_audit_log (po_id o') ''REFUND_PROVIDER_METADATA_MISMATCH'' ''admin'' [(''detail'', JStr e)];
            failM (Plain e) }
        | None \<Rightarrow>
            (case pv_refund pv (po_out_trade_no o')
                (format_amount_for_currency (pe_decimal env) (rp_gateway_amount p) (payment_order_currency o')) of
               (Some e, resp) \<Rightarrow>
                 (case resp of
                    Some r \<Rightarrow> if trim_space (rr_status r) = ''pending'' then okM (Some r) else failM e
                  | None \<Rightarrow> failM e)
             | (None, resp) \<Rightarrow> (case validate_refund_response resp of Some e \<Rightarrow> failM e | None \<Rightarrow> okM resp))))"

definition execute_refund :: "pay_env \<Rightarrow> refund_plan \<Rightarrow> (billing, refund_result) fallible" where
  "execute_refund env p =
     tryM (wrap ''lock'')
       (stmt (update_order (plan_order_id p) (\<lambda>r. may_refund_from (po_status r)) (\<lambda>r. r\<lparr>po_status := REFUNDING\<rparr>))) (\<lambda>c.
       if c = 0 then failM err_status_changed
       else do {
         d \<leftarrow> deduct_for_refund p;
         case d of
           Inl e \<Rightarrow> do { _ \<leftarrow> restore_status p; failM e }
         | Inr p' \<Rightarrow> do {
             r \<leftarrow> gw_refund env p';
             case r of
               Inl e \<Rightarrow> handle_gw_fail p' e
             | Inr resp \<Rightarrow> finish_refund p' resp } })"

subsection \<open>Finalising a pending refund\<close>

definition pending_detail :: "int64 \<Rightarrow> bill \<Rightarrow> string \<times> bool" where
  "pending_detail oid t =
     (case find (\<lambda>a. al_order_id a = oid \<and> al_action a = ''REFUND_PENDING'') (bl_audit t) of
        None \<Rightarrow> ([], True)
      | Some a \<Rightarrow>
          (case map_of (al_detail a) ''refundID'' of Some (JStr s) \<Rightarrow> trim_space s | _ \<Rightarrow> [],
           case map_of (al_detail a) ''deductionRollbackOK'' of Some (JBool b) \<Rightarrow> b | _ \<Rightarrow> True))"

definition latest_refund_pending_detail :: "int64 \<Rightarrow> (billing, string \<times> bool) state" where
  "latest_refund_pending_detail oid = do {
     r \<leftarrow> read (pending_detail oid);
     State_Monad.return (case r of Inl _ \<Rightarrow> ([], True) | Inr d \<Rightarrow> d) }"

definition refund_finalize_plan :: "pay_env \<Rightarrow> payment_order \<Rightarrow> refund_plan" where
  "refund_finalize_plan env o' =
     (let reason = trim_space (string_value (po_refund_reason o')) in
      (new_plan env o' (po_refund_amount o')
         (if reason = [] then ''refund order:'' @ itoa (po_id o') else reason) (po_force_refund o'))
      \<lparr>rp_deduction := BalanceDeduction,
       rp_balance := (if po_order_type o' = ''balance'' then po_refund_amount o' else 0)\<rparr>)"

definition apply_refund_final_deduction :: "refund_plan \<Rightarrow> (billing, refund_plan) fallible" where
  "apply_refund_final_deduction p = do {
     already \<leftarrow> has_audit_log (plan_order_id p) ''REFUND_SUCCESS'';
     if already then okM (p\<lparr>rp_balance := 0, rp_days := 0\<rparr>)
     else if takes_balance p then
       tryM (wrap ''deduction'') (deduct_balance (po_user_id (rp_order p)) (rp_balance p)) (\<lambda>_. okM p)
     else if takes_days p then tryM (\<lambda>e. e) (shorten_or_revoke p) (\<lambda>_. okM p)
     else okM p }"

definition finalize_refund_failed :: "payment_order \<Rightarrow> go_error \<Rightarrow> (billing, refund_result) fallible" where
  "finalize_refund_failed o' cause = do {
     _ \<leftarrow> fail_refund (po_id o') cause;
     okM (refund_warning (''gateway refund failed: '' @ error_text cause)) }"

definition finalize_plan_deduction ::
  "payment_order \<Rightarrow> refund_plan \<Rightarrow> bool \<Rightarrow> (billing, refund_result + refund_plan) state" where
  "finalize_plan_deduction o' p rolled_back =
     (if \<not> rolled_back then State_Monad.return (Inr (p\<lparr>rp_balance := 0, rp_days := 0\<rparr>))
      else if po_order_type o' = ''subscription'' then prep_deduct o' p True
      else State_Monad.return (Inr p))"

definition finalize_answer ::
  "pay_env \<Rightarrow> payment_order \<Rightarrow> bool \<Rightarrow> refund_response \<Rightarrow> (billing, refund_result) fallible" where
  "finalize_answer env o' rolled_back resp = do {
     d \<leftarrow> finalize_plan_deduction o' (refund_finalize_plan env o') rolled_back;
     case d of
       Inl early \<Rightarrow> okM early
     | Inr p \<Rightarrow>
         if trim_space (rr_status resp) = ''pending'' then do {
           _ \<leftarrow> write_audit_log (po_id o') ''REFUND_QUERY_PENDING'' ''admin'' [(''refundID'', JStr (rr_refund_id resp))];
           okM (refund_warning ''gateway refund is still pending confirmation'') }
         else tryM (\<lambda>e. e) (apply_refund_final_deduction p) mark_refund_ok }"

definition query_and_finalize_refund :: "pay_env \<Rightarrow> int64 \<Rightarrow> (billing, refund_result) fallible" where
  "query_and_finalize_refund env oid =
     tryM (\<lambda>_. App err_order_missing) (get_order oid) (\<lambda>o'.
       if po_status o' \<noteq> REFUND_PENDING then failM (invalid_status ''only refund pending orders can be finalized'')
       else tryM (wrap ''get refund provider'') (refund_provider env o') (\<lambda>pv.
         case pv_query_refund pv of
           None \<Rightarrow> failM (App (bad_request ''REFUND_QUERY_UNSUPPORTED''
             ''this payment provider does not support refund status query; please verify manually''))
         | Some query \<Rightarrow> do {
             d \<leftarrow> latest_refund_pending_detail oid;
             case query (po_out_trade_no o') (fst d) of
               Inl e \<Rightarrow> failM (Wrapped ''query refund'' e)
             | Inr resp \<Rightarrow>
                 (case validate_refund_response resp of
                    Some e \<Rightarrow> finalize_refund_failed o' e
                  | None \<Rightarrow> finalize_answer env o' (snd d) (the resp)) }))"

subsection \<open>Refunds keep codes and orders\<close>

text \<open>
  Refunds move balance without a code, so they are outside \<open>fair\<close>; they are along \<open>kept\<close>.  An
  update of theirs names only the id of the order, and is harmless as long as that order is settled:
  \<open>settles oid m\<close> says that \<open>m\<close>, started with the order settled, keeps the books and leaves it so.
\<close>

definition settled_row :: "int64 \<Rightarrow> bill \<Rightarrow> bool" where
  "settled_row oid t \<longleftrightarrow> (\<exists>r \<in> set (bl_orders t). po_id r = oid \<and> settled (po_status r))"

lemma stable_settled: "stable kept (\<lambda>t. bill_inv t \<and> settled_row oid t)"
  unfolding stable_def
proof (intro allI impI conjI)
  fix t t' assume f: "kept t t'" "bill_inv t \<and> settled_row oid t"
  then show "bill_inv t'" by (simp add: kept_def)
  obtain r where r: "r \<in> set (bl_orders t)" "po_id r = oid" "settled (po_status r)"
    using f(2) by (auto simp: settled_row_def)
  have "orders_kept t t'" using f by (simp add: kept_def)
  then obtain r' where "r' \<in> set (bl_orders t')" "deal r' = deal r" "order_flows (po_status r) (po_status r')"
    using r(1) by (auto simp: orders_kept_def)
  then show "settled_row oid t'" using r settled_flows deal_sel [of r' r] by (auto simp: settled_row_def)
qed

lemma rework_flows: "settled s \<Longrightarrow> settled s' \<Longrightarrow> order_flows s s'"
  by (blast intro: order_flow.rework)

lemma settled_row_status:
  assumes "bill_inv t" "settled_row oid t" "r \<in> set (bl_orders t)" "po_id r = oid"
  shows "settled (po_status r)"
proof -
  obtain q where "q \<in> set (bl_orders t)" "po_id q = oid" "settled (po_status q)"
    using assms(2) by (auto simp: settled_row_def)
  moreover have "distinct (map po_id (bl_orders t))" using assms(1) by (simp add: bill_inv_def distinct_rows_def)
  ultimately show ?thesis using assms(3,4) by (metis distinct_map inj_onD)
qed

lemma kept_users: "kept t (t\<lparr>bl_users := f\<rparr>)"
  by (auto simp: kept_def bill_inv_def distinct_rows_def named_codes_def own_codes_def settled_backed_def
      backed_def codes_kept_def orders_kept_def)

lemma kept_update_user: "kept t (snd (update_user uid g t))"
  by (simp add: update_user_def kept_users ledgers.reflexive split: option.split)

lemma keeps_update_balance [keeps_rules]: "keeps kept (stmt (update_balance uid x))"
  unfolding update_balance_def by (intro ledgers.keeps_stmt kept_update_user)

lemma keeps_deduct_balance [keeps_rules]: "keeps kept (deduct_balance uid x)"
  unfolding deduct_balance_def Let_def
  by (intro keeps_rules ledgers.keeps_try ledgers.keeps_return ledgers.keeps_stmt kept_update_user)
    (auto simp: kept_update_user ledgers.reflexive split: option.split)

definition settles :: "int64 \<Rightarrow> (billing, 'a) state \<Rightarrow> bool" where
  "settles oid m \<longleftrightarrow> rg kept (\<lambda>t. bill_inv t \<and> settled_row oid t) m (\<lambda>_ t. bill_inv t \<and> settled_row oid t)"

named_theorems settles_rules

lemma settles_keeps: "keeps kept m \<Longrightarrow> settles oid m"
  unfolding settles_def by (rule keeps_rg [OF _ stable_settled])

lemma settles_return [settles_rules]: "settles oid (State_Monad.return a)"
  unfolding settles_def by (rule ledgers.return_rule)

lemma settles_now [settles_rules]: "settles oid now"
  by (rule settles_keeps [OF ledgers.keeps_peek])

lemma settles_bind [settles_rules]: "settles oid m \<Longrightarrow> (\<And>a. settles oid (k a)) \<Longrightarrow> settles oid (State_Monad.bind m k)"
  unfolding settles_def by (rule ledgers.bind_rule)

lemma settles_sum [settles_rules]:
  "(\<And>e. settles oid (f e)) \<Longrightarrow> (\<And>a. settles oid (g a)) \<Longrightarrow> settles oid (case x of Inl e \<Rightarrow> f e | Inr a \<Rightarrow> g a)"
  by (cases x) simp_all

lemma settles_option [settles_rules]:
  "settles oid m \<Longrightarrow> (\<And>a. settles oid (f a)) \<Longrightarrow> settles oid (case x of None \<Rightarrow> m | Some a \<Rightarrow> f a)"
  by (cases x) simp_all

lemma settles_if [settles_rules]: "settles oid m \<Longrightarrow> settles oid n \<Longrightarrow> settles oid (if b then m else n)"
  by simp

lemma settles_try [settles_rules]: "settles oid m \<Longrightarrow> (\<And>a. settles oid (k a)) \<Longrightarrow> settles oid (tryM w m k)"
  unfolding tryM_def by (intro settles_rules)

lemma settles_audit [settles_rules]: "settles oid (write_audit_log i a op d)" "settles oid (has_audit_log i a)"
  by (rule settles_keeps [OF ledgers.keeps_write_audit], rule settles_keeps [OF ledgers.keeps_has_audit])

text \<open>Updating a settled order, whatever its status.\<close>

lemma settles_order [settles_rules]:
  assumes g: "\<And>r. deal (g r) = deal r \<and> settled (po_status (g r))"
  shows "settles oid (stmt (update_one_order oid g))"
  unfolding settles_def
proof (rule ledgers.stmt_rule [OF stable_settled])
  fix t assume t: "bill_inv t \<and> settled_row oid t"
  have "fair t (snd (update_order oid (\<lambda>_. True) g t))"
    by (rule fair_update_order)
      (use g settled_row_status t in \<open>blast intro: rework_flows\<close>)
  then have k: "kept t (snd (update_one_order oid g t))"
    by (auto simp: update_one_order_def ledgers.reflexive intro: ledgers.of_fair split: option.split)
  then have s: "bill_inv (snd (update_one_order oid g t)) \<and> settled_row oid (snd (update_one_order oid g t))"
    using stable_settled t unfolding stable_def by blast
  show "kept t (snd (update_one_order oid g t)) \<and>
      bill_inv (snd (update_one_order oid g t)) \<and> settled_row oid (snd (update_one_order oid g t))"
    using k s by blast
  show "(bill_inv t \<and> settled_row oid t) \<and>
      bill_inv (snd (update_one_order oid g t)) \<and> settled_row oid (snd (update_one_order oid g t))" for e :: string
    using t s by blast
qed

lemma settles_inv: "settles oid m \<Longrightarrow> rg kept (\<lambda>t. bill_inv t \<and> settled_row oid t) m (\<lambda>_. bill_inv)"
  unfolding settles_def by (rule rg_conseq) blast+

lemma settles_restore [settles_rules]: "settles (plan_order_id p) (restore_status p)"
  unfolding restore_status_def by (intro settles_rules) (auto simp: deal_def settled_def)

lemma keeps_shorten [keeps_rules]: "keeps kept (shorten_or_revoke p)"
  unfolding shorten_or_revoke_def
  by (intro ledgers.keeps_bind ledgers.keeps_extend keeps_sum keeps_if ledgers.keeps_try ledgers.keeps_revoke
      ledgers.keeps_return)

lemma settles_deduct [settles_rules]: "settles oid (deduct_for_refund p)"
  unfolding deduct_for_refund_def
  by (intro settles_rules settles_keeps [OF keeps_shorten] settles_keeps [OF keeps_deduct_balance])

lemma settles_rollback [settles_rules]: "settles oid (rollback_refund p cause)"
  unfolding rollback_refund_def
  by (intro settles_rules settles_keeps [OF ledgers.keeps_extend] settles_keeps [OF keeps_update_balance])

lemma settles_fail [settles_rules]: "settles oid (fail_refund oid cause)"
  unfolding fail_refund_def by (intro settles_rules) (auto simp: deal_def settled_def)

lemma settles_gw_fail [settles_rules]: "settles (plan_order_id p) (handle_gw_fail p cause)"
  unfolding handle_gw_fail_def by (intro settles_rules)

lemma settles_mark_ok [settles_rules]: "settles (plan_order_id p) (mark_refund_ok p)"
  unfolding mark_refund_ok_def by (intro settles_rules) (auto simp: deal_def settled_def)

lemma settles_mark_pending [settles_rules]: "settles (plan_order_id p) (mark_refund_pending p resp)"
  unfolding mark_refund_pending_def Let_def by (intro settles_rules) (auto simp: deal_def settled_def)

lemma settles_finish [settles_rules]: "settles (plan_order_id p) (finish_refund p r)"
  unfolding finish_refund_def by (intro settles_rules)

context accounting
begin

lemma keeps_refund_instance [keeps_rules]: "keeps R (refund_provider_instance o')"
  unfolding refund_provider_instance_def resolve_snapshot_instance_def Let_def by (intro keeps_rules)

lemma keeps_refund_provider [keeps_rules]: "keeps R (refund_provider env o')"
  unfolding refund_provider_def by (intro keeps_rules)

lemma keeps_active_subscription [keeps_rules]: "keeps R (get_active_subscription uid gid)"
  unfolding get_active_subscription_def by (intro keeps_rules quiet_stmt) simp

lemma keeps_prep_deduct [keeps_rules]: "keeps R (prep_deduct o' p force)"
  unfolding prep_deduct_def Let_def by (intro keeps_rules) (auto split: option.split sum.split intro: keeps_rules)

lemma keeps_prepare_refund: "keeps R (prepare_refund env oid amt reason force deduct)"
  unfolding prepare_refund_def Let_def
  by (intro keeps_rules keeps_get_order) (auto split: f64.split intro!: keeps_rules)

lemma keeps_gw_refund: "keeps R (gw_refund env p)"
  unfolding gw_refund_def Let_def
  by (intro keeps_rules) (auto split: option.split sum.split prod.split intro!: keeps_rules)

lemma keeps_request_refund: "keeps R (request_refund oid uid reason)"
  unfolding request_refund_def validate_refund_request_def
  by (intro keeps_rules keeps_get_order of_fair plain_update_fair)
    (auto simp: deal_def settled_def rework_flows)

lemma get_order_row:
  "rg R bill_inv (get_order oid) (\<lambda>r t. bill_inv t \<and>
     (\<forall>o'. r = Inr o' \<longrightarrow> po_id o' = oid \<and> (settled (po_status o') \<longrightarrow> settled_row oid t)))"
  unfolding get_order_def
  by (rule stmt_rule [OF stable_inv])
    (auto simp: find_order_def find_Some_iff settled_row_def reflexive split: option.splits intro!: bexI [OF _ nth_mem])

end

text \<open>Claiming the order of a refund: after it, the order is settled.\<close>

lemma claim_refund:
  "rg kept bill_inv (stmt (update_order oid (\<lambda>r. may_refund_from (po_status r)) (\<lambda>r. r\<lparr>po_status := REFUNDING\<rparr>)))
     (\<lambda>r t. bill_inv t \<and> (\<forall>c. r = Inr c \<longrightarrow> c \<noteq> 0 \<longrightarrow> settled_row oid t))"
proof (rule ledgers.stmt_rule [OF ledgers.stable_inv])
  let ?u = "update_order oid (\<lambda>r. may_refund_from (po_status r)) (\<lambda>r. r\<lparr>po_status := REFUNDING\<rparr>)"
  fix t assume t: "bill_inv t"
  have "fair t (snd (?u t))"
    by (rule plain_update_fair)
      (auto simp: deal_def settled_def may_refund_from_def rework_flows)
  then have k: "kept t (snd (?u t))" by (rule ledgers.of_fair)
  then have i: "bill_inv (snd (?u t))" using t by (simp add: kept_def)
  have "settled_row oid (snd (?u t))" if "fst (?u t) = Inr c" "c \<noteq> 0" for c
  proof -
    from that have "filter (\<lambda>r. po_id r = oid \<and> may_refund_from (po_status r)) (bl_orders t) \<noteq> []"
      by (auto simp: update_order_def count_where_def)
    then obtain r where r: "r \<in> set (bl_orders t)" "po_id r = oid" "may_refund_from (po_status r)"
      by (auto simp: filter_empty_conv)
    let ?r = "touch (bl_now t) (\<lambda>r. r\<lparr>po_status := REFUNDING\<rparr>) r"
    have "?r \<in> set (bl_orders (snd (?u t)))" using r by (force simp: update_order_def Let_def upd_where_def)
    moreover have "po_id ?r = oid \<and> settled (po_status ?r)" using r by (simp add: touch_def settled_def)
    ultimately show ?thesis unfolding settled_row_def by blast
  qed
  with k i t show "kept t (snd (?u t)) \<and> bill_inv (snd (?u t)) \<and> (\<forall>c. fst (?u t) = Inr c \<longrightarrow> c \<noteq> 0 \<longrightarrow> settled_row oid (snd (?u t)))"
    "(bill_inv t \<and> (\<forall>c. Inl (Plain e) = Inr c \<longrightarrow> c \<noteq> (0 :: int) \<longrightarrow> settled_row oid t)) \<and> bill_inv (snd (?u t)) \<and>
       (\<forall>c. Inl (Plain e) = Inr c \<longrightarrow> c \<noteq> (0 :: int) \<longrightarrow> settled_row oid (snd (?u t)))" for e
    by simp_all
qed

text \<open>The handlers.\<close>

lemma deduct_same_order:
  "run_state (deduct_for_refund p) s = (Inr p', s') \<Longrightarrow> rp_order p' = rp_order p"
  by (auto simp: deduct_for_refund_def run_tryM split: if_splits prod.splits sum.splits)

lemma rg_result:
  "rg R P m Q \<Longrightarrow> (\<And>s a s'. run_state m s = (a, s') \<Longrightarrow> b a) \<Longrightarrow> rg R P m (\<lambda>a t. Q a t \<and> b a)"
  by (fastforce simp: rg_def)

text \<open>A step that returns a plan of the same order, and what is done with the plan.\<close>

lemma settles_plan:
  assumes m: "settles (plan_order_id p) m"
    and same: "\<And>s p' s'. run_state m s = (Inr p', s') \<Longrightarrow> rp_order p' = rp_order p"
    and f: "\<And>e. settles (plan_order_id p) (f e)" and g: "\<And>p'. settles (plan_order_id p') (g p')"
  shows "settles (plan_order_id p) (do { d \<leftarrow> m; case d of Inl e \<Rightarrow> f e | Inr p' \<Rightarrow> g p' })"
  unfolding settles_def
proof (rule ledgers.bind_rule)
  let ?S = "\<lambda>t. bill_inv t \<and> settled_row (plan_order_id p) t"
  show "rg kept ?S m (\<lambda>d t. ?S t \<and> (\<forall>p'. d = Inr p' \<longrightarrow> rp_order p' = rp_order p))"
    by (rule rg_result [OF m [unfolded settles_def]]) (use same in blast)
  show "rg kept (\<lambda>t. ?S t \<and> (\<forall>p'. d = Inr p' \<longrightarrow> rp_order p' = rp_order p))
      (case d of Inl e \<Rightarrow> f e | Inr p' \<Rightarrow> g p') (\<lambda>_. ?S)" for d
  proof (cases d)
    case (Inl e)
    then show ?thesis using f [of e] by (simp add: settles_def)
  next
    case (Inr p')
    show ?thesis
      unfolding Inr sum.case
    proof (rule rg_pre [where b = "rp_order p' = rp_order p"])
      assume "rp_order p' = rp_order p"
      then have "rg kept ?S (g p') (\<lambda>_. ?S)" using g [of p'] by (simp only: settles_def)
      then show "rg kept (\<lambda>t. ?S t \<and> (\<forall>q. Inr p' = Inr q \<longrightarrow> rp_order q = rp_order p)) (g p') (\<lambda>_. ?S)"
        by (rule rg_conseq) blast+
    qed blast
  qed
qed

lemma settles_paid_back:
  "settles (plan_order_id p) (do {
     d \<leftarrow> deduct_for_refund p;
     case d of
       Inl e \<Rightarrow> do { _ \<leftarrow> restore_status p; failM e }
     | Inr p' \<Rightarrow> do {
         r \<leftarrow> gw_refund env p';
         case r of
           Inl e \<Rightarrow> handle_gw_fail p' e
         | Inr resp \<Rightarrow> finish_refund p' resp } })"
proof (rule settles_plan)
  show "settles (plan_order_id p) (do { _ \<leftarrow> restore_status p; failM e })" for e
    by (intro settles_rules)
  show "settles (plan_order_id p') (do {
         r \<leftarrow> gw_refund env p';
         case r of Inl e \<Rightarrow> handle_gw_fail p' e | Inr resp \<Rightarrow> finish_refund p' resp })" for p'
    by (intro settles_rules settles_keeps [OF ledgers.keeps_gw_refund])
qed (use deduct_same_order in \<open>blast intro: settles_rules\<close>)+

lemma execute_refund_kept: "rg kept bill_inv (execute_refund env p) (\<lambda>_. bill_inv)"
proof -
  have go: "rg kept (\<lambda>t. bill_inv t \<and> (c \<noteq> 0 \<longrightarrow> settled_row (plan_order_id p) t))
      (if c = 0 then failM err_status_changed else do {
         d \<leftarrow> deduct_for_refund p;
         case d of
           Inl e \<Rightarrow> do { _ \<leftarrow> restore_status p; failM e }
         | Inr p' \<Rightarrow> do {
             r \<leftarrow> gw_refund env p';
             case r of
               Inl e \<Rightarrow> handle_gw_fail p' e
             | Inr resp \<Rightarrow> finish_refund p' resp } }) (\<lambda>_. bill_inv)" for c :: int
    by (rule rg_if, rule ledgers.return_rule, simp, rule rg_conseq [OF settles_inv [OF settles_paid_back]]) simp_all
  show ?thesis
    unfolding execute_refund_def
    by (rule ledgers.try_rule [OF _ go], rule rg_conseq [OF claim_refund]) (auto split: sum.split)
qed

lemma settles_final_deduction: "settles oid (apply_refund_final_deduction p)"
  unfolding apply_refund_final_deduction_def
  by (intro settles_rules settles_keeps [OF keeps_shorten] settles_keeps [OF keeps_deduct_balance])

lemma final_same_order:
  "run_state (apply_refund_final_deduction p) s = (Inr p', s') \<Longrightarrow> rp_order p' = rp_order p"
  by (auto simp: apply_refund_final_deduction_def run_tryM split: if_splits prod.splits sum.splits)

lemma settles_finalize_answer:
  "settles (po_id o') (finalize_answer env o' b resp)"
proof -
  have plan: "settles (po_id o') (finalize_plan_deduction o' p b)" for p
    unfolding finalize_plan_deduction_def by (intro settles_rules settles_keeps [OF ledgers.keeps_prep_deduct])
  have finish: "settles (plan_order_id p) (tryM (\<lambda>e. e) (apply_refund_final_deduction p) mark_refund_ok)" for p
    unfolding tryM_def
  proof (rule settles_plan [OF settles_final_deduction])
    show "rp_order p' = rp_order p" if "run_state (apply_refund_final_deduction p) s = (Inr p', s')" for s p' s'
      using that by (rule final_same_order)
  qed (rule settles_return, rule settles_mark_ok)
  have same: "rp_order p = o'"
    if "run_state (finalize_plan_deduction o' (refund_finalize_plan env o') b) s = (Inr p, s')" for s p s'
    using that by (auto simp: finalize_plan_deduction_def prep_deduct_def refund_finalize_plan_def new_plan_def Let_def
        split: if_splits option.splits prod.splits sum.splits)
  have o': "plan_order_id (refund_finalize_plan env o') = po_id o'"
    by (simp add: refund_finalize_plan_def new_plan_def Let_def)
  have last: "settles (plan_order_id p) (if trim_space (rr_status resp) = ''pending'' then do {
           _ \<leftarrow> write_audit_log (po_id o') ''REFUND_QUERY_PENDING'' ''admin'' [(''refundID'', JStr (rr_refund_id resp))];
           okM (refund_warning ''gateway refund is still pending confirmation'') }
         else tryM (\<lambda>e. e) (apply_refund_final_deduction p) mark_refund_ok)" for p
    by (intro settles_if settles_bind settles_audit settles_return finish)
  show ?thesis
    unfolding finalize_answer_def
  proof (rule settles_plan [where p = "refund_finalize_plan env o'", unfolded o'])
    show "rp_order p' = rp_order (refund_finalize_plan env o')"
      if "run_state (finalize_plan_deduction o' (refund_finalize_plan env o') b) s = (Inr p', s')" for s p' s'
      using same [OF that] by (simp add: refund_finalize_plan_def new_plan_def Let_def)
  qed (rule plan, rule settles_return, rule last)
qed

lemma query_finalize_kept: "rg kept bill_inv (query_and_finalize_refund env oid) (\<lambda>_. bill_inv)"
proof -
  have kept: "settles (po_id o') (tryM (wrap ''get refund provider'') (refund_provider env o') (\<lambda>pv.
         case pv_query_refund pv of
           None \<Rightarrow> failM (App (bad_request ''REFUND_QUERY_UNSUPPORTED''
             ''this payment provider does not support refund status query; please verify manually''))
         | Some query \<Rightarrow> do {
             d \<leftarrow> latest_refund_pending_detail oid;
             case query (po_out_trade_no o') (fst d) of
               Inl e \<Rightarrow> failM (Wrapped ''query refund'' e)
             | Inr resp \<Rightarrow>
                 (case validate_refund_response resp of
                    Some e \<Rightarrow> finalize_refund_failed o' e
                  | None \<Rightarrow> finalize_answer env o' (snd d) (the resp)) }))" for o'
    unfolding finalize_refund_failed_def latest_refund_pending_detail_def
    by (intro settles_rules settles_finalize_answer settles_keeps [OF ledgers.keeps_refund_provider]
        settles_keeps [OF ledgers.keeps_read])
  have step: "rg kept (\<lambda>t. bill_inv t \<and> po_id o' = oid \<and> (settled (po_status o') \<longrightarrow> settled_row oid t))
     (if po_status o' \<noteq> REFUND_PENDING then failM (invalid_status ''only refund pending orders can be finalized'')
      else tryM (wrap ''get refund provider'') (refund_provider env o') (\<lambda>pv.
         case pv_query_refund pv of
           None \<Rightarrow> failM (App (bad_request ''REFUND_QUERY_UNSUPPORTED''
             ''this payment provider does not support refund status query; please verify manually''))
         | Some query \<Rightarrow> do {
             d \<leftarrow> latest_refund_pending_detail oid;
             case query (po_out_trade_no o') (fst d) of
               Inl e \<Rightarrow> failM (Wrapped ''query refund'' e)
             | Inr resp \<Rightarrow>
                 (case validate_refund_response resp of
                    Some e \<Rightarrow> finalize_refund_failed o' e
                  | None \<Rightarrow> finalize_answer env o' (snd d) (the resp)) })) (\<lambda>_. bill_inv)" for o'
    by (rule rg_if, rule ledgers.return_rule, simp, rule rg_conseq [OF settles_inv [OF kept]])
      (auto simp: settled_def)
  show ?thesis
    unfolding query_and_finalize_refund_def
    by (rule ledgers.try_rule [OF _ step], rule rg_conseq [OF ledgers.get_order_row]) (auto split: sum.split)
qed

text \<open>An administrator's refund: the plan, then its execution unless the plan asks for more.\<close>

definition refund :: "pay_env \<Rightarrow> int64 \<Rightarrow> f64 \<Rightarrow> string \<Rightarrow> bool \<Rightarrow> bool \<Rightarrow> (billing, refund_result) fallible" where
  "refund env oid amt reason force deduct =
     tryM (\<lambda>e. e) (prepare_refund env oid amt reason force deduct) (\<lambda>r. case r of
       Inl early \<Rightarrow> okM early
     | Inr p \<Rightarrow> execute_refund env p)"

lemma refund_kept: "rg kept bill_inv (refund env oid amt reason force deduct) (\<lambda>_. bill_inv)"
  unfolding refund_def
  by (rule ledgers.try_keeps [OF ledgers.keeps_prepare_refund ledgers.stable_inv], assumption,
      rule rg_sum [OF ledgers.return_rule execute_refund_kept])

end
