(* ===== verification/PayShop.thy ===== *)
theory PayShop
  imports PayRefund
begin

section \<open>Any sequence of calls\<close>

text \<open>
  The calls of the payment, redemption, subscription and affiliate services on the shared tables, in
  any order and with any arguments, each statement subject to faults and to what others do.  Without
  refunds a run is along \<open>fair\<close>, with them along \<open>kept\<close>.
\<close>

datatype billing_call =
    Notified notification string
  | Retried int64
  | Redeemed bool int64 string
  | Issued redeem_code
  | Assigned assign_input
  | Extended int64 int
  | Revoked int64
  | Maintained user_subscription
  | Bound int64 int64
  | Thawed int64
  | Transferred int64
  | Cancelled int64 int64
  | CancelledByAdmin int64
  | TimedOut
  | Reconciled
  | Verified string int64
  | RefundAsked int64 int64 string
  | Refunded int64 f64 string bool bool
  | RefundQueried int64

definition run_call :: "('s, 'a) state \<Rightarrow> ('s, unit) state" where
  "run_call m = do { _ \<leftarrow> m; State_Monad.return () }"

fun serve_call :: "pay_env \<Rightarrow> billing_call \<Rightarrow> (billing, unit) state" where
  "serve_call env (Notified n pk) = run_call (handle_payment_notification env n pk)"
| "serve_call env (Retried oid) = run_call (retry_fulfillment env oid)"
| "serve_call env (Redeemed skip uid code) = run_call (redeem (pe_redeem env) skip uid code)"
| "serve_call env (Issued c) = run_call (create_code c)"
| "serve_call env (Assigned inp) = run_call (assign_or_extend_subscription (re_tz (pe_redeem env)) inp)"
| "serve_call env (Extended i days) = run_call (extend_subscription i days)"
| "serve_call env (Revoked i) = run_call (revoke_subscription i)"
| "serve_call env (Maintained s) = run_call (do_window_maintenance (re_tz (pe_redeem env)) s)"
| "serve_call env (Bound uid inviter) = run_call (bind_inviter uid inviter)"
| "serve_call env (Thawed uid) = run_call (thaw_frozen_quota uid)"
| "serve_call env (Transferred uid) = run_call (transfer_quota_to_balance uid)"
| "serve_call env (Cancelled oid uid) = run_call (cancel_order env oid uid)"
| "serve_call env (CancelledByAdmin oid) = run_call (admin_cancel_order env oid)"
| "serve_call env TimedOut = run_call (expire_timed_out_orders env)"
| "serve_call env Reconciled = run_call (reconcile_pending_wxpay_orders env)"
| "serve_call env (Verified no uid) = run_call (verify_order_by_out_trade_no env no uid)"
| "serve_call env (RefundAsked oid uid reason) = run_call (request_refund oid uid reason)"
| "serve_call env (Refunded oid amt reason force deduct) = run_call (refund env oid amt reason force deduct)"
| "serve_call env (RefundQueried oid) = run_call (query_and_finalize_refund env oid)"

definition serve :: "pay_env \<Rightarrow> billing_call list \<Rightarrow> (billing, unit) state" where
  "serve env calls = each (serve_call env) calls"

text \<open>The calls the books allow for: no recharge code by hand, no code that takes balance away.\<close>

fun call_ok :: "billing_call \<Rightarrow> bool" where
  "call_ok (Redeemed skip uid code) \<longleftrightarrow> \<not> has_prefix code ''PAY-''"
| "call_ok (Issued c) \<longleftrightarrow> \<not> has_prefix (trim_space (rc_code c)) ''PAY-'' \<and>
     rc_status c \<in> {[], ''unused''} \<and> (rc_type c \<in> {[], ''balance''} \<longrightarrow> 0 \<le> rc_value c)"
| "call_ok _ \<longleftrightarrow> True"

text \<open>The calls that take balance back.\<close>

fun refunds :: "billing_call \<Rightarrow> bool" where
  "refunds (Refunded _ _ _ _ _) \<longleftrightarrow> True"
| "refunds (RefundQueried _) \<longleftrightarrow> True"
| "refunds _ \<longleftrightarrow> False"

context accounting
begin

lemma run_call_inv: "rg R bill_inv m (\<lambda>_. bill_inv) \<Longrightarrow> rg R bill_inv (run_call m) (\<lambda>_. bill_inv)"
  unfolding run_call_def by (rule bind_rule [OF _ return_rule])

lemma redeem_call_fair:
  assumes "\<not> has_prefix code ''PAY-''"
  shows "rg R bill_inv (redeem env skip uid code) (\<lambda>_. bill_inv)"
  by (rule rg_conseq [OF redeem_fair [of uid code]]) (use assms in \<open>auto simp: may_redeem_def\<close>)

lemma issue_fair:
  assumes "call_ok (Issued c)"
  shows "runs R (create_code c)"
proof -
  let ?c = "c\<lparr>rc_code := trim_space (rc_code c), rc_type := (if rc_type c = [] then ''balance'' else rc_type c),
      rc_status := (if rc_status c = [] then ''unused'' else rc_status c)\<rparr>"
  have ins: "fair t (snd (insert_code ?c t))" for t
  proof (rule fair_insert_code)
    fix r assume "bill_inv t" "r \<in> set (bl_orders t)" "is_recharge r" "po_recharge_code r = rc_code ?c"
    then have "has_prefix (trim_space (rc_code c)) ''PAY-''" by (auto simp: bill_inv_def named_codes_def)
    then show "rc_type ?c = ''balance'' \<and> rc_value ?c = po_amount r" using assms by simp
  qed (use assms in \<open>auto simp: code_is_used_def\<close>)
  show ?thesis unfolding create_code_def Let_def by (intro runs_rules of_fair ins)
qed

lemma serve_call_fair: "call_ok c \<Longrightarrow> \<not> refunds c \<Longrightarrow> rg R bill_inv (serve_call env c) (\<lambda>_. bill_inv)"
  by (cases c; simp only: serve_call.simps refunds.simps; (rule run_call_inv)?)
    (auto simp del: call_ok.simps(2) intro: notification_fair retry_fair redeem_call_fair
      runs_rg [OF _ stable_inv] issue_fair runs_keeps [OF keeps_assign_or_extend]
      runs_keeps [OF keeps_extend] runs_keeps [OF keeps_revoke]
      runs_keeps [OF keeps_maintenance] runs_bind_inviter runs_thaw runs_transfer
      cancel_order_fair admin_cancel_order_fair expire_fair reconcile_fair verify_fair
      runs_keeps [OF keeps_request_refund])

lemma each_call:
  assumes "\<And>c. c \<in> set calls \<Longrightarrow> rg R bill_inv (serve_call env c) (\<lambda>_. bill_inv)"
  shows "rg R bill_inv (serve env calls) (\<lambda>_. bill_inv)"
  using assms unfolding serve_def
  by (induction calls) (auto intro: return_rule bind_rule)

end

lemma served:
  assumes "calm fair s" "bill_inv (st_tabs s)" "\<forall>c \<in> set calls. call_ok c \<and> \<not> refunds c"
    and "run_state (serve env calls) s = ((), s')"
  shows "fair (st_tabs s) (st_tabs s') \<and> bill_inv (st_tabs s')"
proof -
  have "rg fair bill_inv (serve env calls) (\<lambda>_. bill_inv)"
    by (rule billing.each_call) (use assms(3) in \<open>blast intro: billing.serve_call_fair\<close>)
  from rgD [OF this assms(1,2,4)] show ?thesis by blast
qed

lemma serve_call_kept: "call_ok c \<Longrightarrow> rg kept bill_inv (serve_call env c) (\<lambda>_. bill_inv)"
proof (cases "refunds c")
  case True
  then show ?thesis
    by (cases c) (auto intro: ledgers.run_call_inv refund_kept query_finalize_kept)
qed (rule ledgers.serve_call_fair)

lemma served_kept:
  assumes "calm kept s" "bill_inv (st_tabs s)" "\<forall>c \<in> set calls. call_ok c"
    and "run_state (serve env calls) s = ((), s')"
  shows "kept (st_tabs s) (st_tabs s') \<and> bill_inv (st_tabs s')"
proof -
  have "rg kept bill_inv (serve env calls) (\<lambda>_. bill_inv)"
    by (rule ledgers.each_call) (use assms(3) in \<open>blast intro: serve_call_kept\<close>)
  from rgD [OF this assms(1,2,4)] show ?thesis by blast
qed

end
