(* ===== verification/PayProps.thy ===== *)
theory PayProps
  imports PayShop
begin

section \<open>Properties of payment and redemption\<close>

text \<open>
  What holds of any sequence of calls, with any faults and interference between their statements: the
  recharged totals balance as long as nobody refunds, a settled recharge order has its one used code,
  orders move along \<open>order_flow\<close>.  Then the guard of a payment notification, and the runs that show
  what the two exclusions of the invariant let in.
\<close>

subsection \<open>A sample shop\<close>

definition sample_user :: "int64 \<Rightarrow> rat \<Rightarrow> user_row" where
  "sample_user uid b = \<lparr>us_id = uid, us_balance = b, us_total_recharged = 0, us_concurrency = 1\<rparr>"

definition sample_order :: payment_order where
  "sample_order = \<lparr>po_id = 7, po_user_id = 1, po_amount = 10, po_pay_amount = 10,
     po_recharge_code = ''PAY-7-1'', po_out_trade_no = ''sub2_a'', po_payment_type = ''alipay'',
     po_payment_trade_no = [], po_order_type = ''balance'', po_subscription_group_id = None,
     po_subscription_days = None, po_provider_instance_id = None, po_provider_key = Some ''alipay'',
     po_provider_snapshot = [], po_status = PENDING, po_refund_amount = 0, po_refund_reason = None,
     po_refund_at = None, po_force_refund = False, po_refund_requested_at = None,
     po_refund_request_reason = None, po_refund_requested_by = None, po_expires_at = 1800 * second,
     po_paid_at = None, po_completed_at = None, po_failed_at = None, po_failed_reason = None,
     po_created_at = 0, po_updated_at = 0\<rparr>"

definition empty_bill :: bill where
  "empty_bill = \<lparr>bl_now = 60 * second, bl_users = Map.empty, bl_codes = [], bl_next_code = 1, bl_groups = Map.empty,
     bl_subs = [], bl_next_sub = 1, bl_orders = [], bl_audit = [], bl_instances = [], bl_affiliates = Map.empty,
     bl_aff_ledger = [], bl_attempts = Map.empty, bl_locks = Map.empty\<rparr>"

definition sample_bill :: bill where
  "sample_bill = empty_bill\<lparr>bl_users := [1 \<mapsto> sample_user 1 0, 2 \<mapsto> sample_user 2 0], bl_orders := [sample_order]\<rparr>"

definition sample_env :: pay_env where
  "sample_env = \<lparr>pe_redeem = \<lparr>re_cache = True, re_affiliate = None, re_tz = 0\<rparr>, pe_affiliate = None,
     pe_registry_key = (\<lambda>t. t), pe_registry_provider = (\<lambda>_. Inl (Plain ''none'')),
     pe_instance_provider = (\<lambda>_. Inl (Plain ''none'')), pe_registry_provider_by_key = (\<lambda>_. Inl (Plain ''none'')),
     pe_decimal = schoolbook\<rparr>"

definition paid_note :: notification where
  "paid_note = \<lparr>nt_trade_no = ''T1'', nt_order_id = ''sub2_a'', nt_amount = Fin 10, nt_status = ''success'', nt_metadata = []\<rparr>"

text \<open>Tables with nobody else about, and the faults of the coming statements.\<close>

definition start_of :: "bill \<Rightarrow> fault option list \<Rightarrow> billing" where
  "start_of t faults = \<lparr>st_tabs = t, st_base = None, st_world = map (\<lambda>f. (\<lambda>t. t, f)) faults\<rparr>"

definition after :: "(billing, 'a) state \<Rightarrow> billing \<Rightarrow> bill" where
  "after m s = st_tabs (snd (run_state m s))"

text \<open>The statuses of the orders, the codes, and the balance and recharged total of two users.\<close>

definition summary :: "bill \<Rightarrow> order_status list \<times> (string \<times> string \<times> rat \<times> int64 option) list \<times>
    (rat \<times> rat) option \<times> (rat \<times> rat) option" where
  "summary t = (map po_status (bl_orders t), map (\<lambda>c. (rc_code c, rc_status c, rc_value c, rc_used_by c)) (bl_codes t),
     map_option (\<lambda>u. (us_balance u, us_total_recharged u)) (bl_users t 1),
     map_option (\<lambda>u. (us_balance u, us_total_recharged u)) (bl_users t 2))"

lemma sample_bill_inv: "bill_inv sample_bill"
  by (simp add: bill_inv_def distinct_rows_def named_codes_def own_codes_def settled_backed_def sample_bill_def
      empty_bill_def sample_order_def is_recharge_def settled_def) code_simp

lemma sample_calm: "calm fair (start_of t faults)"
  by (auto simp: calm_def start_of_def)

subsection \<open>The books\<close>



text \<open>
  C3.  An order keeps its id, user, amount, type and recharge code, and its status moves along the
  transitions of \<open>order_flow\<close> only; in particular it is never taken back from completed to unpaid.
  A used code keeps every field.
\<close>

theorem orders_follow_their_life:
  assumes "calm kept s" "bill_inv (st_tabs s)" "\<forall>c \<in> set calls. call_ok c"
    and "run_state (serve env calls) s = ((), s')"
  shows "(\<forall>r \<in> set (bl_orders (st_tabs s)). \<exists>r' \<in> set (bl_orders (st_tabs s')).
      deal r' = deal r \<and> order_flows (po_status r) (po_status r') \<and> (settled (po_status r) \<longrightarrow> settled (po_status r'))) \<and>
    (\<forall>c \<in> set (bl_codes (st_tabs s)). code_is_used c \<longrightarrow> c \<in> set (bl_codes (st_tabs s')))"
proof -
  have "orders_kept (st_tabs s) (st_tabs s')" "codes_kept (st_tabs s) (st_tabs s')"
    using served_kept [OF assms] assms(2) by (simp_all add: kept_def)
  then show ?thesis using settled_flows by (fastforce simp: orders_kept_def codes_kept_def)
qed

subsection \<open>The guard of a notification\<close>

text \<open>
  A payment passes the guard with the amount \<open>x\<close> exactly if the provider that speaks is the
  one expected of the order (when both are known), the metadata agrees with the order's snapshot,
  and the amount is a positive number within the tolerance of the amount to pay.
\<close>

theorem payment_guard_iff:
  "payment_guard env r k trade_no paid pk md = Inr x \<longleftrightarrow>
     (expected_provider_key_for_order env r k = [] \<or> trim_space pk = [] \<or>
       equal_fold (expected_provider_key_for_order env r k) (trim_space pk)) \<and>
     validate_snapshot_metadata r pk md = None \<and>
     paid = Fin x \<and> 0 < x \<and> \<bar>x - po_pay_amount r\<bar> \<le> amount_tolerance (payment_order_currency r)"
  by (auto simp: payment_guard_def Let_def is_valid_provider_amount_def split: option.splits f64.splits if_splits)

lemma books_reject: "keeps same_books (reject_payment r pk a detail reason)"
  unfolding reject_payment_def by (intro keeps_rules)


subsection \<open>Runs\<close>

text \<open>Two notifications and a retry, with one statement refused on the way.\<close>

definition sample_calls :: "billing_call list" where
  "sample_calls = [Notified paid_note ''alipay'', Notified paid_note ''alipay'', Retried 7, Redeemed True 2 ''GIFT'']"

definition sample_start :: billing where
  "sample_start = start_of sample_bill (replicate 12 None @ [Some (LostReply ''conn'')])"

definition sample_end :: bill where
  "sample_end = after (serve sample_env sample_calls) sample_start"

lemma sample_calls_ok: "\<forall>c \<in> set sample_calls. call_ok c \<and> \<not> refunds c"
  by code_simp

lemma sample_run:
  "run_state (serve env calls) s = ((), snd (run_state (serve env calls) s))"
  by (simp add: prod_eq_iff)

lemma sample_tabs: "st_tabs sample_start = sample_bill" "calm fair sample_start"
  by (simp_all add: sample_start_def start_of_def calm_def)

lemma sample_end_fold: "st_tabs (snd (run_state (serve sample_env sample_calls) sample_start)) = sample_end"
  by (simp add: sample_end_def after_def)

definition ledger :: "bill \<Rightarrow> (rat \<times> rat \<times> rat) \<times> bool" where
  "ledger t = ((recharged 1 t, transfer_credit 1 t, recharged 2 t),
     \<exists>r \<in> set (bl_orders t). is_recharge r \<and> settled (po_status r) \<and> po_id r = 7)"

lemma sample_end_ledger: "ledger sample_end = ((10, 0, 0), True)"
  by code_simp

lemma sample_bill_ledger: "ledger sample_bill = ((0, 0, 0), False)" "code_credit 1 sample_bill = 0"
  by code_simp+


text \<open>The same order with a provider instance that allows refunds: paid, asked back and refunded.\<close>

definition refund_order :: payment_order where
  "refund_order = sample_order\<lparr>po_provider_instance_id := Some ''1''\<rparr>"

definition refund_instance :: provider_instance where
  "refund_instance = \<lparr>pi_id = 1, pi_provider_key = ''alipay'', pi_supported_types = [], pi_payment_mode = [], pi_enabled = True, pi_sort_order = 0,
     pi_refund_enabled = True, pi_allow_user_refund = True\<rparr>"

definition refund_shop :: bill where
  "refund_shop = sample_bill\<lparr>bl_orders := [refund_order], bl_instances := [refund_instance]\<rparr>"

definition refund_env :: "refund_response \<Rightarrow> pay_env" where
  "refund_env resp = sample_env\<lparr>pe_instance_provider := (\<lambda>_. Inr \<lparr>pv_key = ''alipay'', pv_query = (\<lambda>_. Inl (Plain ''none'')),
     pv_requery = (\<lambda>_. Inl (Plain ''none'')), pv_identity = [],
     pv_refund = (\<lambda>_ _. (None, Some resp)), pv_query_refund = Some (\<lambda>_ _. Inr (Some resp))\<rparr>)\<rparr>"

definition refunded_env :: pay_env where
  "refunded_env = refund_env \<lparr>rr_refund_id = ''R1'', rr_status = ''success''\<rparr>"

definition refund_calls :: "billing_call list" where
  "refund_calls = [Notified paid_note ''alipay'', RefundAsked 7 1 ''oops'', Refunded 7 (Fin 4) [] False True]"

definition refund_end :: bill where
  "refund_end = after (serve refunded_env refund_calls) (start_of refund_shop [])"

lemma refund_calls_ok: "\<forall>c \<in> set refund_calls. call_ok c"
  by (simp add: refund_calls_def)

lemma refund_start: "calm kept (start_of refund_shop [])" "st_tabs (start_of refund_shop []) = refund_shop"
  by (simp_all add: calm_def start_of_def)

lemma refund_shop_inv: "bill_inv refund_shop"
  by (simp add: bill_inv_def distinct_rows_def named_codes_def own_codes_def settled_backed_def refund_shop_def
      sample_bill_def refund_order_def empty_bill_def sample_order_def is_recharge_def settled_def) code_simp

lemma refund_end_summary: "summary refund_end =
    ([PARTIALLY_REFUNDED], [(''PAY-7-1'', ''used'', 10, Some 1)], Some (6, 10), Some (0, 0))"
  by code_simp

lemma refund_tabs: "st_tabs (snd (run_state (serve refunded_env refund_calls) (start_of refund_shop []))) = refund_end"
  by (simp add: refund_end_def after_def)

lemma refund_end_ledger: "ledger refund_end = ((10, 0, 0), True)"
  by code_simp


theorem orders_follow_their_life_witness:
  "\<exists>r \<in> set (bl_orders refund_end). deal r = deal refund_order \<and> order_flows PENDING (po_status r)"
proof -
  have m: "refund_order \<in> set (bl_orders refund_shop)" "po_status refund_order = PENDING"
    by (simp_all add: refund_shop_def refund_order_def sample_order_def)
  show ?thesis
    using orders_follow_their_life [OF refund_start(1) _ refund_calls_ok sample_run [of refunded_env]] refund_shop_inv m
    unfolding refund_start(2) refund_tabs by fastforce
qed

lemma sample_short: "\<exists>e. payment_guard sample_env sample_order k tn (Fin 9) ''alipay'' [] = Inl e"
proof -
  have "payment_order_currency sample_order = ''CNY''" by code_simp
  moreover have "amount_tolerance ''CNY'' = 1 / 100" by code_simp
  moreover have "validate_snapshot_metadata sample_order ''alipay'' [] = None" by code_simp
  ultimately show ?thesis by (auto simp: payment_guard_def Let_def is_valid_provider_amount_def sample_order_def)
qed


subsection \<open>What the exclusions let in\<close>

text \<open>
  The statement that opens the redemption's transaction fails: the order is FAILED, its recharge code
  is there and unused.  Another user redeems it as any code, the retry finds it used, and the order
  completes though its user got nothing: \<open>resolveRedeemAction\<close> does not look at who used the code.
\<close>

lemma order_completes_for_the_wrong_user:
  "summary (after (serve sample_env [Notified paid_note ''alipay'', Redeemed False 2 ''PAY-7-1'', Retried 7])
     (start_of sample_bill (replicate 15 None @ [Some (Refused ''conn'')]))) =
   ([COMPLETED], [(''PAY-7-1'', ''used'', 10, Some 2)], Some (0, 0), Some (10, 10))"
  by code_simp

text \<open>
  A code that takes 3 away from a user who owes 5: the clamp turns it into a credit of 5, which the
  recharged total counts too.
\<close>

lemma negative_code_pays_a_debt:
  "summary (after (redeem (pe_redeem sample_env) False 1 ''GIFT'') (start_of (sample_bill\<lparr>bl_users := [1 \<mapsto> sample_user 1 (- 5)],
     bl_codes := [(default_code ''GIFT'')\<lparr>rc_type := ''balance'', rc_value := - 3, rc_status := ''unused''\<rparr>]\<rparr>) [])) =
   ([PENDING], [(''GIFT'', ''used'', - 3, Some 1)], Some (0, 5), None)"
  by code_simp

text \<open>
  The column of the amount to pay has two places, a dinar three: an order of 1.234 KWD is stored as
  1.23, and the payment of exactly 1.234 is refused as a mismatch.
\<close>

lemma exact_dinar_payment_refused:
  "payment_guard sample_env
     (sample_order\<lparr>po_pay_amount := numeric 2 (617 / 500),
       po_provider_snapshot := [(''currency'', JStr ''KWD''), (''provider_key'', JStr ''airwallex'')]\<rparr>) []
     ''T1'' (Fin (617 / 500)) ''airwallex'' [] = Inl (''PAYMENT_AMOUNT_MISMATCH'',
       [(''expected'', JNum (123 / 100)), (''paid'', JNum (617 / 500)), (''tradeNo'', JStr ''T1'')], ''amount mismatch'')"
  by code_simp

end
