(* ===== verification/Redis.thy ===== *)
theory Redis
  imports Store "HOL-Library.AList"
begin

section \<open>Redis\<close>

text \<open>
  The commands of Redis the caches use, on a store of typed keys with deadlines.  A sorted set is
  the list of its members with their scores, a counter is the integer its string holds, a decimal the float its string holds.  A key past
  its deadline is as if absent, an empty sorted set is deleted, a command on a key of the other type
  fails with \<open>WRONGTYPE\<close> and changes nothing.  The clock is the server's, in milliseconds.

  A Lua script runs alone, so it is one function on the store; it takes one event of the world like
  any other statement.
\<close>

datatype redis_value = ZSet "(string \<times> int) list" | Counter int | Decimal rat

record redis =
  rd_ms :: int
  rd_keys :: "string \<rightharpoonup> redis_value \<times> int option"

type_synonym 'a redis_reply = "(go_error + 'a) \<times> redis"

definition wrongtype :: go_error where
  "wrongtype = Plain ''WRONGTYPE Operation against a key holding the wrong kind of value''"

definition not_an_integer :: go_error where
  "not_an_integer = Plain ''ERR value is not an integer or out of range''"

definition live_entry :: "int \<Rightarrow> redis_value \<times> int option \<Rightarrow> bool" where
  "live_entry ms e \<longleftrightarrow> (case snd e of None \<Rightarrow> True | Some d \<Rightarrow> ms \<le> d)"

definition entry :: "string \<Rightarrow> redis \<Rightarrow> (redis_value \<times> int option) option" where
  "entry k s = (case rd_keys s k of None \<Rightarrow> None | Some e \<Rightarrow> if live_entry (rd_ms s) e then Some e else None)"

definition seconds :: "redis \<Rightarrow> int" where
  "seconds s = rd_ms s div 1000"

text \<open>Writing a value keeps the deadline of the key, if it has one.\<close>

definition put :: "string \<Rightarrow> redis_value \<Rightarrow> redis \<Rightarrow> redis" where
  "put k v s = s\<lparr>rd_keys := (rd_keys s)(k \<mapsto> (v, case entry k s of None \<Rightarrow> None | Some e \<Rightarrow> snd e))\<rparr>"

definition del :: "string \<Rightarrow> redis \<Rightarrow> redis" where
  "del k s = s\<lparr>rd_keys := (rd_keys s)(k := None)\<rparr>"

definition expire :: "string \<Rightarrow> int \<Rightarrow> redis \<Rightarrow> redis" where
  "expire k ttl s = (case entry k s of
     None \<Rightarrow> s
   | Some (v, d) \<Rightarrow>
       if ttl \<le> 0 then del k s
       else s\<lparr>rd_keys := (rd_keys s)(k \<mapsto> (v, Some (rd_ms s + ttl * 1000)))\<rparr>)"

subsection \<open>Sorted sets\<close>

definition zget :: "string \<Rightarrow> redis \<Rightarrow> go_error + (string \<times> int) list" where
  "zget k s = (case entry k s of
     None \<Rightarrow> Inr []
   | Some (ZSet z, _) \<Rightarrow> Inr z
   | Some (Counter _, _) \<Rightarrow> Inl wrongtype
   | Some (Decimal _, _) \<Rightarrow> Inl wrongtype)"

definition zput :: "string \<Rightarrow> (string \<times> int) list \<Rightarrow> redis \<Rightarrow> redis" where
  "zput k z s = (if z = [] then del k s else put k (ZSet z) s)"

definition zset_add :: "string \<Rightarrow> int \<Rightarrow> (string \<times> int) list \<Rightarrow> (string \<times> int) list" where
  "zset_add m x z = AList.update m x z"

text \<open>\<open>ZREMRANGEBYSCORE key -inf cutoff\<close>.\<close>

definition zset_above :: "int \<Rightarrow> (string \<times> int) list \<Rightarrow> (string \<times> int) list" where
  "zset_above cutoff z = filter (\<lambda>e. cutoff < snd e) z"

definition zrem_below :: "string \<Rightarrow> int \<Rightarrow> redis \<Rightarrow> unit redis_reply" where
  "zrem_below k cutoff s = (case zget k s of
     Inl e \<Rightarrow> (Inl e, s)
   | Inr z \<Rightarrow> (Inr (), zput k (zset_above cutoff z) s))"

definition zcard :: "string \<Rightarrow> redis \<Rightarrow> go_error + int" where
  "zcard k s = (case zget k s of Inl e \<Rightarrow> Inl e | Inr z \<Rightarrow> Inr (int (length z)))"

definition zrem :: "string \<Rightarrow> string \<Rightarrow> redis \<Rightarrow> unit redis_reply" where
  "zrem k m s = (case zget k s of
     Inl e \<Rightarrow> (Inl e, s)
   | Inr z \<Rightarrow> (Inr (), zput k (AList.delete m z) s))"

subsection \<open>Counters\<close>

definition cget :: "string \<Rightarrow> redis \<Rightarrow> go_error + int option" where
  "cget k s = (case entry k s of
     None \<Rightarrow> Inr None
   | Some (Counter n, _) \<Rightarrow> Inr (Some n)
   | Some (Decimal x, _) \<Rightarrow> if x = of_int \<lfloor>x\<rfloor> then Inr (Some \<lfloor>x\<rfloor>) else Inl not_an_integer
   | Some (ZSet _, _) \<Rightarrow> Inl wrongtype)"

subsection \<open>What the commands leave\<close>

lemma rd_ms_simps [simp]: "rd_ms (put k v s) = rd_ms s" "rd_ms (del k s) = rd_ms s" "rd_ms (zput k z s) = rd_ms s"
  "rd_ms (expire k ttl s) = rd_ms s"
  by (auto simp: put_def del_def zput_def expire_def split: option.split)

lemma seconds_simps [simp]: "seconds (put k v s) = seconds s" "seconds (del k s) = seconds s"
  "seconds (zput k z s) = seconds s" "seconds (expire k ttl s) = seconds s"
  by (simp_all add: seconds_def)

lemma entry_put: "entry j (put k v s) = (if j = k then Some (v, case entry k s of None \<Rightarrow> None | Some e \<Rightarrow> snd e) else entry j s)"
  by (auto simp: entry_def put_def live_entry_def split: option.splits if_splits)

lemma entry_del: "entry j (del k s) = (if j = k then None else entry j s)"
  by (auto simp: entry_def del_def live_entry_def split: option.splits)

lemma entry_expire: "0 < ttl \<Longrightarrow> entry j (expire k ttl s) =
    (if j = k then map_option (\<lambda>e. (fst e, Some (rd_ms s + ttl * 1000))) (entry k s) else entry j s)"
  by (auto simp: entry_def expire_def live_entry_def split: option.splits if_splits)

lemma entry_zput: "entry j (zput k z s) = (if j = k then (if z = [] then None
    else Some (ZSet z, case entry k s of None \<Rightarrow> None | Some e \<Rightarrow> snd e)) else entry j s)"
  by (simp add: zput_def entry_put entry_del)

lemma zget_other: "j \<noteq> k \<Longrightarrow> zget j (zput k z s) = zget j s" "j \<noteq> k \<Longrightarrow> zget j (put k v s) = zget j s"
  "j \<noteq> k \<Longrightarrow> zget j (del k s) = zget j s"
  by (simp_all add: zget_def entry_zput entry_put entry_del)

lemma zget_zput [simp]: "zget k (zput k z s) = Inr z"
  by (simp add: zget_def entry_zput)

lemma zget_expire: "0 < ttl \<Longrightarrow> zget j (expire k ttl s) = zget j s"
  by (auto simp: zget_def entry_expire split: option.splits redis_value.splits)

text \<open>Members and counters of different families of keys, told apart by their prefixes.\<close>

definition typed :: "(string \<Rightarrow> bool) \<Rightarrow> (string \<Rightarrow> bool) \<Rightarrow> redis \<Rightarrow> bool" where
  "typed sets counters s \<longleftrightarrow> (\<forall>k e. entry k s = Some e \<longrightarrow>
     (sets k \<longrightarrow> (\<exists>z. fst e = ZSet z)) \<and> (counters k \<longrightarrow> (\<exists>n. fst e = Counter n)))"

end
