(* ===== verification/Slots.thy ===== *)
theory Slots
  imports Redis
begin

section \<open>Concurrency slots\<close>

text \<open>
  \<open>repository/concurrency_cache.go\<close>: the slots of an account or a user are the members of one sorted
  set, scored with the second they were taken; a member older than the slot TTL is dead and is
  removed by whoever looks next.  Each script is one function on Redis.  The contract, \<open>lease_table\<close>,
  knows only the live slots: the development shows that the scripts implement it on every trace.
\<close>

subsection \<open>Keys\<close>

definition account_slot_prefix :: string where
  "account_slot_prefix = ''concurrency:account:''"
definition user_slot_prefix :: string where
  "user_slot_prefix = ''concurrency:user:''"
definition wait_queue_prefix :: string where
  "wait_queue_prefix = ''concurrency:wait:''"
definition account_wait_prefix :: string where
  "account_wait_prefix = ''wait:account:''"

definition account_slot_key :: "int64 \<Rightarrow> string" where
  "account_slot_key i = account_slot_prefix @ itoa i"
definition user_slot_key :: "int64 \<Rightarrow> string" where
  "user_slot_key i = user_slot_prefix @ itoa i"
definition wait_queue_key :: "int64 \<Rightarrow> string" where
  "wait_queue_key i = wait_queue_prefix @ itoa i"
definition account_wait_key :: "int64 \<Rightarrow> string" where
  "account_wait_key i = account_wait_prefix @ itoa i"

definition slot_key :: "string \<Rightarrow> bool" where
  "slot_key k \<longleftrightarrow> has_prefix k account_slot_prefix \<or> has_prefix k user_slot_prefix"

definition wait_key :: "string \<Rightarrow> bool" where
  "wait_key k \<longleftrightarrow> has_prefix k wait_queue_prefix \<or> has_prefix k account_wait_prefix"

subsection \<open>The scripts\<close>

definition acquire_script :: "string \<Rightarrow> int \<Rightarrow> int \<Rightarrow> string \<Rightarrow> redis \<Rightarrow> int redis_reply" where
  "acquire_script key max_concurrency ttl request_id s =
     (let now = seconds s in
      case zrem_below key (now - ttl) s of
        (Inl e, s1) \<Rightarrow> (Inl e, s1)
      | (Inr _, s1) \<Rightarrow>
          (case zget key s1 of
             Inl e \<Rightarrow> (Inl e, s1)
           | Inr z \<Rightarrow>
               if map_of z request_id \<noteq> None \<or> int (length z) < max_concurrency
               then (Inr 1, expire key ttl (zput key (zset_add request_id now z) s1))
               else (Inr 0, s1)))"

definition get_count_script :: "string \<Rightarrow> int \<Rightarrow> redis \<Rightarrow> int redis_reply" where
  "get_count_script key ttl s =
     (case zrem_below key (seconds s - ttl) s of
        (Inl e, s1) \<Rightarrow> (Inl e, s1)
      | (Inr _, s1) \<Rightarrow> (zcard key s1, s1))"

definition increment_wait_script :: "string \<Rightarrow> int \<Rightarrow> int \<Rightarrow> redis \<Rightarrow> int redis_reply" where
  "increment_wait_script key max_wait ttl s =
     (case cget key s of
        Inl e \<Rightarrow> (Inl e, s)
      | Inr c \<Rightarrow>
          let current = (case c of None \<Rightarrow> 0 | Some n \<Rightarrow> n) in
          if max_wait \<le> current then (Inr 0, s)
          else (Inr 1, expire key ttl (put key (Counter (current + 1)) s)))"

definition decrement_wait_script :: "string \<Rightarrow> redis \<Rightarrow> int redis_reply" where
  "decrement_wait_script key s =
     (case cget key s of
        Inl e \<Rightarrow> (Inl e, s)
      | Inr (Some n) \<Rightarrow> (Inr 1, if 0 < n then put key (Counter (n - 1)) s else s)
      | Inr None \<Rightarrow> (Inr 1, s))"

definition cleanup_expired_slots_script :: "string \<Rightarrow> int \<Rightarrow> redis \<Rightarrow> int redis_reply" where
  "cleanup_expired_slots_script key ttl s =
     (case zrem_below key (seconds s - ttl) s of
        (Inl e, s1) \<Rightarrow> (Inl e, s1)
      | (Inr _, s1) \<Rightarrow>
          (case zcard key s1 of
             Inl e \<Rightarrow> (Inl e, s1)
           | Inr n \<Rightarrow> (Inr 1, if n = 0 then del key s1 else expire key ttl s1)))"

text \<open>The members that are not of the calling process go, key by key.\<close>

definition of_process :: "string \<Rightarrow> string \<times> int \<Rightarrow> bool" where
  "of_process prefix e \<longleftrightarrow> has_prefix (fst e) prefix"

fun startup_cleanup_script :: "string list \<Rightarrow> string \<Rightarrow> int \<Rightarrow> redis \<Rightarrow> int redis_reply" where
  "startup_cleanup_script [] prefix ttl s = (Inr 0, s)"
| "startup_cleanup_script (key # keys) prefix ttl s =
     (case zget key s of
        Inl e \<Rightarrow> (Inl e, s)
      | Inr z \<Rightarrow>
          let z' = filter (of_process prefix) z;
              s1 = zput key z' s;
              s2 = (if z' = [] then del key s1 else expire key ttl s1) in
          (case startup_cleanup_script keys prefix ttl s2 of
             (Inl e, s3) \<Rightarrow> (Inl e, s3)
           | (Inr n, s3) \<Rightarrow> (Inr (n + int (length z) - int (length z')), s3)))"

definition get_wait_count :: "string \<Rightarrow> redis \<Rightarrow> int redis_reply" where
  "get_wait_count key s = (case cget key s of
     Inl e \<Rightarrow> (Inl e, s) | Inr None \<Rightarrow> (Inr 0, s) | Inr (Some n) \<Rightarrow> (Inr n, s))"

definition release_slot :: "string \<Rightarrow> string \<Rightarrow> redis \<Rightarrow> int redis_reply" where
  "release_slot key request_id s = (case zrem key request_id s of (Inl e, s') \<Rightarrow> (Inl e, s') | (Inr _, s') \<Rightarrow> (Inr 1, s'))"

subsection \<open>What the store keeps\<close>

text \<open>
  The type of each family of keys; members are distinct, no score is in the future, and a key's
  deadline is past the death of its youngest member.
\<close>

definition zset_ok :: "int \<Rightarrow> redis \<Rightarrow> (string \<times> int) list \<Rightarrow> int option \<Rightarrow> bool" where
  "zset_ok ttl s z d \<longleftrightarrow> z \<noteq> [] \<and> distinct (map fst z) \<and>
     (\<forall>e \<in> set z. snd e \<le> seconds s \<and> (case d of None \<Rightarrow> True | Some x \<Rightarrow> (snd e + ttl) * 1000 \<le> x))"

definition slots_ok :: "int \<Rightarrow> redis \<Rightarrow> bool" where
  "slots_ok ttl s \<longleftrightarrow> typed slot_key wait_key s \<and>
     (\<forall>k z d. slot_key k \<longrightarrow> entry k s = Some (ZSet z, d) \<longrightarrow> zset_ok ttl s z d) \<and>
     (\<forall>k n d. wait_key k \<longrightarrow> entry k s = Some (Counter n, d) \<longrightarrow> 0 \<le> n \<and> d \<noteq> None)"

lemma families_disjoint: "slot_key k \<Longrightarrow> \<not> wait_key k"
  by (auto simp: slot_key_def wait_key_def has_prefix_iff account_slot_prefix_def user_slot_prefix_def
      wait_queue_prefix_def account_wait_prefix_def)

lemma key_families [simp]: "slot_key (account_slot_key i)" "slot_key (user_slot_key i)"
  "wait_key (wait_queue_key i)" "wait_key (account_wait_key i)"
  by (auto simp: slot_key_def wait_key_def has_prefix_iff account_slot_key_def user_slot_key_def
      wait_queue_key_def account_wait_key_def)

subsection \<open>The contract: a table of leases\<close>

record lease_table =
  lt_ms :: int
  lt_held :: "string \<Rightarrow> string \<rightharpoonup> int"
  lt_waits :: "string \<rightharpoonup> int \<times> int"

datatype slot_op =
    Acquire string int string
  | Release string string
  | Count string
  | Cleanup string
  | Restart "string list" string
  | Raise string int
  | Lower string
  | Waiting string
  | Pass int

fun op_ok :: "slot_op \<Rightarrow> bool" where
  "op_ok (Acquire k _ _) \<longleftrightarrow> slot_key k"
| "op_ok (Release k _) \<longleftrightarrow> slot_key k"
| "op_ok (Count k) \<longleftrightarrow> slot_key k"
| "op_ok (Cleanup k) \<longleftrightarrow> slot_key k"
| "op_ok (Restart ks _) \<longleftrightarrow> list_all slot_key ks"
| "op_ok (Raise k _) \<longleftrightarrow> wait_key k"
| "op_ok (Lower k) \<longleftrightarrow> wait_key k"
| "op_ok (Waiting k) \<longleftrightarrow> wait_key k"
| "op_ok (Pass d) \<longleftrightarrow> 0 \<le> d"

fun run_op :: "int \<Rightarrow> int \<Rightarrow> slot_op \<Rightarrow> redis \<Rightarrow> int redis_reply" where
  "run_op ttl wait_ttl (Acquire k m i) s = acquire_script k m ttl i s"
| "run_op ttl wait_ttl (Release k i) s = release_slot k i s"
| "run_op ttl wait_ttl (Count k) s = get_count_script k ttl s"
| "run_op ttl wait_ttl (Cleanup k) s = cleanup_expired_slots_script k ttl s"
| "run_op ttl wait_ttl (Restart ks p) s = (case startup_cleanup_script ks p ttl s of
     (Inl e, s') \<Rightarrow> (Inl e, s') | (Inr _, s') \<Rightarrow> (Inr 1, s'))"
| "run_op ttl wait_ttl (Raise k m) s = increment_wait_script k m wait_ttl s"
| "run_op ttl wait_ttl (Lower k) s = decrement_wait_script k s"
| "run_op ttl wait_ttl (Waiting k) s = get_wait_count k s"
| "run_op ttl wait_ttl (Pass d) s = (Inr 0, s\<lparr>rd_ms := rd_ms s + d\<rparr>)"

text \<open>The number of slots held and, of those, whether a request may have one.\<close>

definition held_count :: "(string \<rightharpoonup> int) \<Rightarrow> int" where
  "held_count l = int (card (dom l))"

fun spec_op :: "int \<Rightarrow> int \<Rightarrow> slot_op \<Rightarrow> lease_table \<Rightarrow> int \<times> lease_table" where
  "spec_op ttl wait_ttl (Acquire k m i) a =
     (let l = lt_held a k in
      if i \<in> dom l \<or> held_count l < m
      then (1, a\<lparr>lt_held := (lt_held a)(k := l(i \<mapsto> lt_ms a div 1000))\<rparr>)
      else (0, a))"
| "spec_op ttl wait_ttl (Release k i) a = (1, a\<lparr>lt_held := (lt_held a)(k := (lt_held a k)(i := None))\<rparr>)"
| "spec_op ttl wait_ttl (Count k) a = (held_count (lt_held a k), a)"
| "spec_op ttl wait_ttl (Cleanup k) a = (1, a)"
| "spec_op ttl wait_ttl (Restart ks p) a =
     (1, a\<lparr>lt_held := (\<lambda>k. if k \<in> set ks then lt_held a k |` {i. has_prefix i p} else lt_held a k)\<rparr>)"
| "spec_op ttl wait_ttl (Raise k m) a =
     (let n = (case lt_waits a k of None \<Rightarrow> 0 | Some (n, _) \<Rightarrow> n) in
      if m \<le> n then (0, a) else (1, a\<lparr>lt_waits := (lt_waits a)(k \<mapsto> (n + 1, lt_ms a + wait_ttl * 1000))\<rparr>))"
| "spec_op ttl wait_ttl (Lower k) a =
     (1, case lt_waits a k of
        None \<Rightarrow> a
      | Some (n, d) \<Rightarrow> if 0 < n then a\<lparr>lt_waits := (lt_waits a)(k \<mapsto> (n - 1, d))\<rparr> else a)"
| "spec_op ttl wait_ttl (Waiting k) a = (case lt_waits a k of None \<Rightarrow> 0 | Some (n, _) \<Rightarrow> n, a)"
| "spec_op ttl wait_ttl (Pass d) a =
     (let t = lt_ms a + d in
      (0, a\<lparr>lt_ms := t,
        lt_held := (\<lambda>k. lt_held a k |` {i. \<exists>x. lt_held a k i = Some x \<and> t div 1000 - ttl < x}),
        lt_waits := lt_waits a |` {k. \<exists>n d. lt_waits a k = Some (n, d) \<and> t \<le> d}\<rparr>))"

definition live_slots :: "int \<Rightarrow> redis \<Rightarrow> string \<Rightarrow> string \<rightharpoonup> int" where
  "live_slots ttl s k = (case zget k s of
     Inl _ \<Rightarrow> Map.empty | Inr z \<Rightarrow> map_of (zset_above (seconds s - ttl) z))"

definition lease_view :: "int \<Rightarrow> redis \<Rightarrow> lease_table" where
  "lease_view ttl s = \<lparr>lt_ms = rd_ms s,
     lt_held = (\<lambda>k. if slot_key k then live_slots ttl s k else Map.empty),
     lt_waits = (\<lambda>k. if wait_key k then (case entry k s of Some (Counter n, Some d) \<Rightarrow> Some (n, d) | _ \<Rightarrow> None) else None)\<rparr>"

subsection \<open>The scripts implement the contract\<close>

lemma slot_zget:
  assumes "slots_ok ttl s" "slot_key k"
  shows "entry k s = None \<and> zget k s = Inr [] \<or>
    (\<exists>z d. entry k s = Some (ZSet z, d) \<and> zget k s = Inr z \<and> zset_ok ttl s z d)"
proof (cases "entry k s")
  case (Some e)
  then obtain z d where e: "e = (ZSet z, d)" using assms by (cases e) (auto simp: slots_ok_def typed_def)
  then have "zset_ok ttl s z d" using assms Some by (simp add: slots_ok_def)
  then show ?thesis using Some e by (simp add: zget_def)
qed (simp add: zget_def)

lemma zget_entry: "entry k s' = entry k s \<Longrightarrow> zget k s' = zget k s"
  by (simp add: zget_def)

lemma live_other: "seconds s' = seconds s \<Longrightarrow> zget j s' = zget j s \<Longrightarrow> live_slots ttl s' j = live_slots ttl s j"
  by (simp add: live_slots_def split: sum.split)

lemma slot_change:
  assumes ok: "slots_ok ttl s" "slot_key k" and ms: "rd_ms s' = rd_ms s"
    and same: "\<And>j. j \<noteq> k \<Longrightarrow> entry j s' = entry j s"
    and new: "entry k s' = (if z = [] then None else Some (ZSet z, d))" "z \<noteq> [] \<Longrightarrow> zset_ok ttl s z d"
  shows "slots_ok ttl s'"
    "lease_view ttl s' = (lease_view ttl s)\<lparr>lt_held := (lt_held (lease_view ttl s))(k := map_of (zset_above (seconds s - ttl) z))\<rparr>"
proof -
  have sec: "seconds s' = seconds s" using ms by (simp add: seconds_def)
  then have zok: "zset_ok ttl s' z d = zset_ok ttl s z d" for z d by (simp add: zset_ok_def)
  have e: "entry j s' = (if j = k then (if z = [] then None else Some (ZSet z, d)) else entry j s)" for j
    using same new(1) by simp
  have nw: "\<not> wait_key k" by (rule families_disjoint [OF ok(2)])
  show "slots_ok ttl s'"
    using ok new(2) nw unfolding slots_ok_def typed_def zok e by (auto split: if_splits)
  have "zget k s' = Inr z" by (simp add: zget_def e)
  then show "lease_view ttl s' = (lease_view ttl s)\<lparr>lt_held := (lt_held (lease_view ttl s))(k := map_of (zset_above (seconds s - ttl) z))\<rparr>"
    using ok(2) nw ms live_other [OF sec zget_entry [OF same]] sec by (auto simp: lease_view_def live_slots_def e fun_eq_iff)
qed

lemma wait_change:
  assumes ok: "slots_ok ttl s" "wait_key k" and ms: "rd_ms s' = rd_ms s"
    and same: "\<And>j. j \<noteq> k \<Longrightarrow> entry j s' = entry j s"
    and new: "entry k s' = Some (Counter n, Some d)" "0 \<le> n"
  shows "slots_ok ttl s'"
    "lease_view ttl s' = (lease_view ttl s)\<lparr>lt_waits := (lt_waits (lease_view ttl s))(k \<mapsto> (n, d))\<rparr>"
proof -
  have sec: "seconds s' = seconds s" using ms by (simp add: seconds_def)
  then have zok: "zset_ok ttl s' z d = zset_ok ttl s z d" for z d by (simp add: zset_ok_def)
  have e: "entry j s' = (if j = k then Some (Counter n, Some d) else entry j s)" for j
    using same new(1) by simp
  have nw: "\<not> slot_key k" using families_disjoint ok(2) by blast
  show "slots_ok ttl s'"
    using ok new(2) nw unfolding slots_ok_def typed_def zok e by (auto split: if_splits)
  show "lease_view ttl s' = (lease_view ttl s)\<lparr>lt_waits := (lt_waits (lease_view ttl s))(k \<mapsto> (n, d))\<rparr>"
  proof -
    have "live_slots ttl s' j = live_slots ttl s j" if "slot_key j" for j
      using live_other [OF sec zget_entry [OF same [of j]]] that nw by (cases "j = k") auto
    then have "(\<lambda>j. if slot_key j then live_slots ttl s' j else Map.empty) = (\<lambda>j. if slot_key j then live_slots ttl s j else Map.empty)"
      by (intro ext) (simp del: fun_upd_apply)
    then show ?thesis using ok(2) ms by (auto simp: lease_view_def e intro!: ext)
  qed
qed

lemma wait_cget:
  assumes "slots_ok ttl s" "wait_key k"
  shows "entry k s = None \<and> cget k s = Inr None \<and> lt_waits (lease_view ttl s) k = None \<or>
    (\<exists>n d. entry k s = Some (Counter n, Some d) \<and> cget k s = Inr (Some n) \<and> 0 \<le> n \<and> lt_waits (lease_view ttl s) k = Some (n, d))"
proof (cases "entry k s")
  case None
  then show ?thesis using assms by (simp add: cget_def lease_view_def)
next
  case (Some e)
  then obtain n d where e: "e = (Counter n, d)" using assms by (cases e) (auto simp: slots_ok_def typed_def)
  then have "0 \<le> n" "d \<noteq> None" using assms Some by (auto simp: slots_ok_def)
  then show ?thesis using Some e assms by (auto simp: cget_def lease_view_def)
qed

lemma zset_okI: "z \<noteq> [] \<Longrightarrow> distinct (map fst z) \<Longrightarrow> (\<And>e. e \<in> set z \<Longrightarrow> snd e \<le> seconds s) \<Longrightarrow> zset_ok ttl s z (Some (rd_ms s + ttl * 1000))"
proof -
  assume a: "z \<noteq> []" "distinct (map fst z)" "\<And>e. e \<in> set z \<Longrightarrow> snd e \<le> seconds s"
  have "(snd e + ttl) * 1000 \<le> rd_ms s + ttl * 1000" if "e \<in> set z" for e
  proof -
    have "snd e * 1000 \<le> rd_ms s div 1000 * 1000" using a(3) [OF that] by (simp add: seconds_def)
    also have "\<dots> \<le> rd_ms s" by simp
    finally show ?thesis by (simp add: algebra_simps)
  qed
  then show ?thesis using a by (simp add: zset_ok_def)
qed

lemma zset_ok_subset: "zset_ok ttl s z d \<Longrightarrow> z' = filter p z \<Longrightarrow> z' \<noteq> [] \<Longrightarrow> zset_ok ttl s z' d"
  by (auto simp: zset_ok_def distinct_map_filter split: option.split)

lemma map_of_above: "distinct (map fst z) \<Longrightarrow> map_of (filter p z) = (\<lambda>i. case map_of z i of None \<Rightarrow> None | Some x \<Rightarrow> if p (i, x) then Some x else None)"
  by (induction z) (force simp: fun_eq_iff split: option.split dest: map_of_SomeD)+


text \<open>The operations.\<close>

definition refines :: "int \<Rightarrow> int redis_reply \<Rightarrow> int \<times> lease_table \<Rightarrow> bool" where
  "refines ttl x y \<longleftrightarrow> fst x = Inr (fst y) \<and> lease_view ttl (snd x) = snd y \<and> slots_ok ttl (snd x)"

lemma view_sel [simp]: "lt_ms (lease_view ttl s) = rd_ms s"
  by (simp add: lease_view_def)

lemma view_held: "slot_key k \<Longrightarrow> zget k s = Inr z \<Longrightarrow> lt_held (lease_view ttl s) k = map_of (zset_above (seconds s - ttl) z)"
  by (simp add: lease_view_def live_slots_def)

lemma above_idem [simp]: "zset_above c (zset_above c z) = zset_above c z"
  by (simp add: zset_above_def)

lemma held_length: "distinct (map fst z) \<Longrightarrow> held_count (map_of z) = int (length z)"
  by (simp add: held_count_def dom_map_of_conv_image_fst distinct_card [of "map fst z", simplified])

lemma zrem_below_ok:
  assumes "slots_ok ttl s" "slot_key k" "zget k s = Inr z"
  shows "zrem_below k (seconds s - ttl) s = (Inr (), zput k (zset_above (seconds s - ttl) z) s)"
    "slots_ok ttl (zput k (zset_above (seconds s - ttl) z) s)"
    "lease_view ttl (zput k (zset_above (seconds s - ttl) z) s) = lease_view ttl s"
    "distinct (map fst (zset_above (seconds s - ttl) z))"
    "\<And>e. e \<in> set z \<Longrightarrow> snd e \<le> seconds s"
proof -
  let ?z = "zset_above (seconds s - ttl) z"
  have z: "distinct (map fst z)" "\<And>e. e \<in> set z \<Longrightarrow> snd e \<le> seconds s"
    using slot_zget [OF assms(1,2)] assms(3) by (auto simp: zset_ok_def)
  show "zrem_below k (seconds s - ttl) s = (Inr (), zput k ?z s)" using assms(3) by (simp add: zrem_below_def)
  show "distinct (map fst ?z)" using z(1) by (simp add: zset_above_def distinct_map_filter)
  show "snd e \<le> seconds s" if "e \<in> set z" for e using z(2) that .
  obtain d where d: "entry k (zput k ?z s) = (if ?z = [] then None else Some (ZSet ?z, d))"
    "?z \<noteq> [] \<Longrightarrow> zset_ok ttl s ?z d"
  proof (cases "entry k s")
    case None
    then have "z = []" using slot_zget [OF assms(1,2)] assms(3) by auto
    then show ?thesis using that [of None] by (simp add: entry_zput zset_above_def)
  next
    case (Some e)
    then obtain d where "e = (ZSet z, d)" "zset_ok ttl s z d" using slot_zget [OF assms(1,2)] assms(3) by auto
    then show ?thesis using that [of d] Some zset_ok_subset [of ttl s z d ?z]
      by (simp add: entry_zput zset_above_def)
  qed
  note c = slot_change [OF assms(1,2), of "zput k ?z s" ?z d, simplified, OF _ d]
  show "slots_ok ttl (zput k ?z s)" by (rule c(1)) (simp_all add: entry_zput)
  show "lease_view ttl (zput k ?z s) = lease_view ttl s"
    by (subst c(2)) (simp_all add: entry_zput view_held [OF assms(2,3), symmetric])
qed


lemma set_update: "e \<in> set (AList.update k v xs) \<Longrightarrow> e = (k, v) \<or> e \<in> set xs"
  by (induction xs) (auto split: if_splits)

lemma map_of_add [simp]: "map_of (zset_add m x z) = (map_of z)(m \<mapsto> x)"
  by (simp add: zset_add_def AList.update_conv')

lemma zset_above_id: "(\<And>e. e \<in> set z \<Longrightarrow> c < snd e) \<Longrightarrow> zset_above c z = z"
  by (simp add: zset_above_def)

lemma refinesI:
  "\<And>n a. fst x = Inr n \<Longrightarrow> y = (n, a) \<Longrightarrow> lease_view ttl (snd x) = a \<Longrightarrow> slots_ok ttl (snd x) \<Longrightarrow> refines ttl x y"
  by (simp add: refines_def)

lemma acquire_refines:
  assumes ok: "slots_ok ttl s" "slot_key k" and ttl: "0 < ttl"
  shows "refines ttl (acquire_script k m ttl i s) (spec_op ttl w (Acquire k m i) (lease_view ttl s))"
proof -
  obtain z where z: "zget k s = Inr z" using slot_zget [OF ok] by auto
  let ?z = "zset_above (seconds s - ttl) z"
  let ?s = "zput k ?z s"
  let ?z2 = "zset_add i (seconds s) ?z"
  let ?s2 = "expire k ttl (zput k ?z2 ?s)"
  note t = zrem_below_ok [OF ok z]
  have held: "lt_held (lease_view ttl s) k = map_of ?z" by (rule view_held [OF ok(2) z])
  have cond: "i \<in> dom (lt_held (lease_view ttl s) k) \<or> held_count (lt_held (lease_view ttl s) k) < m \<longleftrightarrow>
      map_of ?z i \<noteq> None \<or> int (length ?z) < m"
    unfolding held held_length [OF t(4)] by auto
  have run: "acquire_script k m ttl i s = (if map_of ?z i \<noteq> None \<or> int (length ?z) < m then (Inr 1, ?s2) else (Inr 0, ?s))"
    unfolding acquire_script_def Let_def t(1) by (simp add: zget_zput)
  have e2: "?z2 \<noteq> []" by (simp add: zset_add_def)
  have in2: "e = (i, seconds s) \<or> e \<in> set ?z" if "e \<in> set ?z2" for e
    using that set_update by (fastforce simp: zset_add_def)
  have zok: "zset_ok ttl ?s ?z2 (Some (rd_ms s + ttl * 1000))"
    using zset_okI [of ?z2 ?s ttl] t(4,5) in2 e2
    by (force simp: zset_add_def AList.distinct_update zset_above_def)
  have ent: "entry k ?s2 = Some (ZSet ?z2, Some (rd_ms s + ttl * 1000))"
    "entry j ?s2 = (if j = k then Some (ZSet ?z2, Some (rd_ms s + ttl * 1000)) else entry j ?s)" for j
    using e2 by (simp_all add: entry_expire ttl entry_zput)
  have live: "zset_above (seconds s - ttl) ?z2 = ?z2"
    by (rule zset_above_id) (use in2 ttl in \<open>fastforce simp: zset_above_def\<close>)
  note c = slot_change [OF t(2) ok(2), of ?s2 ?z2 "Some (rd_ms s + ttl * 1000)", simplified, OF _ _ zok]
  have ok2: "slots_ok ttl ?s2" by (rule c(1)) (simp_all add: ent e2)
  have view2: "lease_view ttl ?s2 = (lease_view ttl s)\<lparr>lt_held := (lt_held (lease_view ttl s))(k := (map_of ?z)(i \<mapsto> seconds s))\<rparr>"
    by (subst c(2)) (simp_all add: ent e2 live t(3) map_of_add)
  show ?thesis
    unfolding run spec_op.simps Let_def cond refines_def
    using t(2,3) ok2 view2 held by (simp add: seconds_def)
qed

lemma release_refines:
  assumes ok: "slots_ok ttl s" "slot_key k"
  shows "refines ttl (release_slot k i s) (spec_op ttl w (Release k i) (lease_view ttl s))"
proof -
  obtain z where z: "zget k s = Inr z" using slot_zget [OF ok] by auto
  let ?z = "AList.delete i z"
  let ?s = "zput k ?z s"
  have run: "release_slot k i s = (Inr 1, ?s)" by (simp add: release_slot_def zrem_def z)
  have f: "?z = filter (\<lambda>e. fst e \<noteq> i) z" by (auto simp: AList.delete_eq split_def intro: filter_cong)
  obtain d where d: "entry k ?s = (if ?z = [] then None else Some (ZSet ?z, d))"
    "?z \<noteq> [] \<Longrightarrow> zset_ok ttl s ?z d"
    using slot_zget [OF ok] z zset_ok_subset [OF _ f] by (fastforce simp: entry_zput)
  have "zset_above (seconds s - ttl) ?z = AList.delete i (zset_above (seconds s - ttl) z)"
    by (simp add: AList.delete_eq zset_above_def conj_commute)
  then have view: "lease_view ttl ?s = snd (spec_op ttl w (Release k i) (lease_view ttl s))"
    by (subst slot_change(2) [OF ok _ _ d])
      (simp_all add: entry_zput AList.delete_conv' view_held [OF ok(2) z])
  have "slots_ok ttl ?s"
    by (rule slot_change(1) [OF ok _ _ d]) (simp_all add: entry_zput)
  then show ?thesis unfolding run refines_def using view by simp
qed

lemma count_refines:
  assumes ok: "slots_ok ttl s" "slot_key k"
  shows "refines ttl (get_count_script k ttl s) (spec_op ttl w (Count k) (lease_view ttl s))"
proof -
  obtain z where z: "zget k s = Inr z" using slot_zget [OF ok] by auto
  note t = zrem_below_ok [OF ok z]
  show ?thesis
    unfolding get_count_script_def refines_def using t
    by (simp add: zcard_def view_held [OF ok(2) z] held_length)
qed

lemma wait_refines:
  assumes ok: "slots_ok ttl s" "wait_key k" and w: "0 < w"
  shows "refines ttl (increment_wait_script k m w s) (spec_op ttl w (Raise k m) (lease_view ttl s))"
    "refines ttl (decrement_wait_script k s) (spec_op ttl w (Lower k) (lease_view ttl s))"
    "refines ttl (get_wait_count k s) (spec_op ttl w (Waiting k) (lease_view ttl s))"
proof -
  note c = wait_cget [OF ok]
  define n where "n = (case lt_waits (lease_view ttl s) k of None \<Rightarrow> 0 | Some (n, _) \<Rightarrow> n)"
  have n: "0 \<le> n" "cget k s = Inr None \<and> n = 0 \<or> cget k s = Inr (Some n)" using c by (auto simp: n_def)
  let ?s = "expire k w (put k (Counter (n + 1)) s)"
  have e: "entry k ?s = Some (Counter (n + 1), Some (rd_ms s + w * 1000))" "j \<noteq> k \<Longrightarrow> entry j ?s = entry j s" for j
    using w by (simp_all add: entry_expire entry_put)
  have up: "slots_ok ttl ?s" "lease_view ttl ?s = (lease_view ttl s)\<lparr>lt_waits := (lt_waits (lease_view ttl s))(k \<mapsto> (n + 1, rd_ms s + w * 1000))\<rparr>"
    using wait_change [OF ok _ e(2) e(1)] n(1) by simp_all
  have run: "increment_wait_script k m w s = (if m \<le> n then (Inr 0, s) else (Inr 1, ?s))"
    using n(2) by (auto simp: increment_wait_script_def Let_def)
  show "refines ttl (increment_wait_script k m w s) (spec_op ttl w (Raise k m) (lease_view ttl s))"
    unfolding run spec_op.simps Let_def n_def [symmetric] refines_def using up ok(1) by simp
  show "refines ttl (get_wait_count k s) (spec_op ttl w (Waiting k) (lease_view ttl s))"
    using c ok(1) by (auto simp: get_wait_count_def refines_def)
  show "refines ttl (decrement_wait_script k s) (spec_op ttl w (Lower k) (lease_view ttl s))"
  proof (cases "entry k s")
    case None
    then show ?thesis using c ok(1) by (simp add: decrement_wait_script_def refines_def)
  next
    case (Some e)
    then obtain n d where nd: "entry k s = Some (Counter n, Some d)" "cget k s = Inr (Some n)" "0 \<le> n"
      "lt_waits (lease_view ttl s) k = Some (n, d)" using c by auto
    let ?t = "put k (Counter (n - 1)) s"
    have e: "entry k ?t = Some (Counter (n - 1), Some d)" "j \<noteq> k \<Longrightarrow> entry j ?t = entry j s" for j
      using nd(1) by (simp_all add: entry_put)
    show ?thesis
      using wait_change [OF ok _ e(2) e(1)] nd ok(1) by (simp add: decrement_wait_script_def refines_def)
  qed
qed

text \<open>Keeping some of the live members of a set, and giving the key a new deadline.\<close>

lemma keep_members:
  assumes ok: "slots_ok ttl s" "slot_key k" and z: "zget k s = Inr z" and ttl: "0 < ttl"
    and s': "s' = (if filter p z = [] then del k (zput k (filter p z) s) else expire k ttl (zput k (filter p z) s))"
  shows "slots_ok ttl s' \<and> lease_view ttl s' = (lease_view ttl s)\<lparr>lt_held := (lt_held (lease_view ttl s))
      (k := map_of (zset_above (seconds s - ttl) (filter p z)))\<rparr>"
proof -
  have zz: "distinct (map fst z)" "\<And>e. e \<in> set z \<Longrightarrow> snd e \<le> seconds s"
    using slot_zget [OF ok] z by (auto simp: zset_ok_def)
  have e: "entry k s' = (if filter p z = [] then None else Some (ZSet (filter p z), Some (rd_ms s + ttl * 1000)))"
    "j \<noteq> k \<Longrightarrow> entry j s' = entry j s" for j
    using ttl by (simp_all add: s' entry_del entry_expire entry_zput)
  have "zset_ok ttl s (filter p z) (Some (rd_ms s + ttl * 1000))" if "filter p z \<noteq> []"
    by (rule zset_okI [OF that]) (use zz in \<open>auto simp: distinct_map_filter\<close>)
  then show ?thesis using slot_change [OF ok _ e(2) e(1)] by (auto simp: s')
qed

lemma cleanup_refines:
  assumes ok: "slots_ok ttl s" "slot_key k" and ttl: "0 < ttl"
  shows "refines ttl (cleanup_expired_slots_script k ttl s) (spec_op ttl w (Cleanup k) (lease_view ttl s))"
proof -
  obtain z where z: "zget k s = Inr z" using slot_zget [OF ok] by auto
  let ?z = "zset_above (seconds s - ttl) z"
  note t = zrem_below_ok [OF ok z]
  have run: "cleanup_expired_slots_script k ttl s =
      (Inr 1, if ?z = [] then del k (zput k ?z s) else expire k ttl (zput k ?z s))"
    unfolding cleanup_expired_slots_script_def t(1) by (simp add: zcard_def)
  have "slots_ok ttl (snd (cleanup_expired_slots_script k ttl s)) \<and> lease_view ttl (snd (cleanup_expired_slots_script k ttl s)) =
      (lease_view ttl s)\<lparr>lt_held := (lt_held (lease_view ttl s))(k := map_of (zset_above (seconds s - ttl) ?z))\<rparr>"
    using keep_members [OF ok z ttl refl, of "\<lambda>e. seconds s - ttl < snd e", folded zset_above_def]
    unfolding run snd_conv .
  then show ?thesis unfolding refines_def using run by (simp add: view_held [OF ok(2) z, symmetric])
qed

lemma map_of_filter_key: "map_of (filter (\<lambda>e. fst e \<in> S) z) = map_of z |` S"
  by (induction z) (auto simp: restrict_map_def fun_eq_iff)

lemma restart_held: "map_of (zset_above c (filter (of_process p) z)) = map_of (zset_above c z) |` {i. has_prefix i p}"
proof -
  have "zset_above c (filter (of_process p) z) = filter (\<lambda>e. fst e \<in> {i. has_prefix i p}) (zset_above c z)"
    by (auto simp: zset_above_def of_process_def intro: filter_cong)
  then show ?thesis by (simp only: map_of_filter_key)
qed

lemma restart_refines:
  assumes "slots_ok ttl s" "list_all slot_key ks" "0 < ttl"
  shows "\<exists>n. fst (startup_cleanup_script ks p ttl s) = Inr n \<and> slots_ok ttl (snd (startup_cleanup_script ks p ttl s)) \<and>
    lease_view ttl (snd (startup_cleanup_script ks p ttl s)) = snd (spec_op ttl w (Restart ks p) (lease_view ttl s))"
  using assms
proof (induction ks arbitrary: s)
  case (Cons k ks)
  then have k: "slots_ok ttl s" "slot_key k" "list_all slot_key ks" by simp_all
  obtain z where z: "zget k s = Inr z" using slot_zget [OF k(1,2)] by auto
  let ?z = "filter (of_process p) z"
  define s2 where "s2 = (if ?z = [] then del k (zput k ?z s) else expire k ttl (zput k ?z s))"
  have s2: "slots_ok ttl s2" "lease_view ttl s2 = (lease_view ttl s)\<lparr>lt_held := (lt_held (lease_view ttl s))
      (k := lt_held (lease_view ttl s) k |` {i. has_prefix i p})\<rparr>"
    using keep_members [OF k(1,2) z Cons.prems(3) s2_def] unfolding restart_held view_held [OF k(2) z] by simp_all
  obtain n s3 where r: "startup_cleanup_script ks p ttl s2 = (Inr n, s3)" "slots_ok ttl s3"
    "lease_view ttl s3 = snd (spec_op ttl w (Restart ks p) (lease_view ttl s2))"
    using Cons.IH [OF s2(1) k(3) Cons.prems(3)] by (cases "startup_cleanup_script ks p ttl s2") auto
  have run: "startup_cleanup_script (k # ks) p ttl s = (Inr (n + int (length z) - int (length ?z)), s3)"
    by (simp add: z Let_def s2_def [symmetric] r(1))
  show ?case
    unfolding run using r(2,3) s2(2)
    by (auto simp: fun_eq_iff restrict_map_def)
qed simp

lemma live_iff: "distinct (map fst z) \<Longrightarrow> map_of (zset_above c z) i = Some x \<longleftrightarrow> (i, x) \<in> set z \<and> c < x"
  by (simp add: zset_above_def distinct_map_filter)

lemma option_eqI: "(\<And>x. a = Some x \<longleftrightarrow> b = Some x) \<Longrightarrow> a = b"
  by (cases a; cases b) auto

lemma pass_refines:
  assumes ok: "slots_ok ttl s" and d: "0 \<le> d"
  shows "refines ttl (run_op ttl w (Pass d) s) (spec_op ttl w (Pass d) (lease_view ttl s))"
proof -
  let ?s = "s\<lparr>rd_ms := rd_ms s + d\<rparr>"
  have e: "entry k ?s = (case entry k s of None \<Rightarrow> None | Some e \<Rightarrow> if live_entry (rd_ms s + d) e then Some e else None)" for k
    using d by (auto simp: entry_def live_entry_def split: option.splits)
  have sec: "seconds s \<le> seconds ?s" using d by (simp add: seconds_def zdiv_mono1)
  have zok: "zset_ok ttl s z x \<Longrightarrow> zset_ok ttl ?s z x" for z x
    using sec by (force simp: zset_ok_def)
  have "slots_ok ttl ?s"
    using ok zok unfolding slots_ok_def typed_def e by (fastforce split: option.splits if_splits)
  moreover have "live_slots ttl ?s k = live_slots ttl s k |` {i. \<exists>x. live_slots ttl s k i = Some x \<and> (rd_ms s + d) div 1000 - ttl < x}"
    (is "_ = ?R") if sk: "slot_key k" for k
  proof (cases "entry k s")
    case None
    then have "zget k ?s = Inr []" "zget k s = Inr []" by (simp_all add: zget_def e)
    then show ?thesis by (simp add: live_slots_def zset_above_def)
  next
    case (Some v)
    then obtain z dl where z: "entry k s = Some (ZSet z, dl)" "zget k s = Inr z" "zset_ok ttl s z dl"
      using slot_zget [OF ok sk] by auto
    then have dist: "distinct (map fst z)" by (simp add: zset_ok_def)
    have R: "?R i = Some x \<longleftrightarrow> (i, x) \<in> set z \<and> seconds ?s - ttl < x" for i x
    proof -
      have "?R i = Some x \<longleftrightarrow> live_slots ttl s k i = Some x \<and> seconds ?s - ttl < x"
        by (auto simp: restrict_map_def seconds_def)
      moreover have "live_slots ttl s k i = Some x \<longleftrightarrow> (i, x) \<in> set z \<and> seconds s - ttl < x"
        using z(2) live_iff [OF dist] by (simp add: live_slots_def)
      ultimately show ?thesis using sec by auto
    qed
    have "live_slots ttl ?s k i = Some x \<longleftrightarrow> (i, x) \<in> set z \<and> seconds ?s - ttl < x" for i x
    proof (cases "live_entry (rd_ms s + d) (ZSet z, dl)")
      case True
      then have "zget k ?s = Inr z" using z(1) by (simp add: zget_def e)
      then show ?thesis using live_iff [OF dist] by (simp add: live_slots_def)
    next
      case False
      then obtain y where y: "dl = Some y" "y < rd_ms s + d" by (auto simp: live_entry_def split: option.splits)
      have "zget k ?s = Inr []" using z(1) False by (simp add: zget_def e)
      moreover have "\<not> seconds ?s - ttl < x" if "(i, x) \<in> set z"
      proof -
        have "(x + ttl) * 1000 \<le> y" using z(3) that y(1) by (force simp: zset_ok_def)
        then have "(x + ttl) * 1000 \<le> rd_ms s + d" using y(2) by simp
        then have "x + ttl \<le> (rd_ms s + d) div 1000" using zdiv_mono1 [of "(x + ttl) * 1000" "rd_ms s + d" 1000] by simp
        then show ?thesis by (simp add: seconds_def)
      qed
      ultimately show ?thesis by (auto simp: live_slots_def zset_above_def)
    qed
    then show ?thesis using R by (intro ext option_eqI) simp
  qed
  moreover have "lt_waits (lease_view ttl ?s) = lt_waits (lease_view ttl s) |`
      {k. \<exists>n x. lt_waits (lease_view ttl s) k = Some (n, x) \<and> rd_ms s + d \<le> x}" (is "_ = ?W")
  proof
    fix k
    show "lt_waits (lease_view ttl ?s) k = ?W k"
    proof (cases "wait_key k")
      case True
      show ?thesis
        using wait_cget [OF ok True] True by (auto simp: lease_view_def e live_entry_def restrict_map_def)
    qed (simp add: lease_view_def restrict_map_def)
  qed
  moreover have "lt_held (lease_view ttl ?s) = (\<lambda>k. lt_held (lease_view ttl s) k |`
      {i. \<exists>x. lt_held (lease_view ttl s) k i = Some x \<and> (rd_ms s + d) div 1000 - ttl < x})"
    using calculation(2) by (auto simp: lease_view_def)
  ultimately show ?thesis by (simp add: refines_def Let_def)
qed

text \<open>One operation, then a trace of them.\<close>

lemma op_refines:
  assumes "slots_ok ttl s" "op_ok op" "0 < ttl" "0 < w"
  shows "refines ttl (run_op ttl w op s) (spec_op ttl w op (lease_view ttl s))"
proof (cases op)
  case (Restart ks p)
  then show ?thesis
    using restart_refines [of ttl s ks p w] assms
    by (auto simp: refines_def split: prod.split sum.split)
qed (use assms in \<open>auto intro: acquire_refines release_refines count_refines cleanup_refines wait_refines pass_refines
     simp del: spec_op.simps simp: pass_refines [unfolded run_op.simps]\<close>)

fun run_ops :: "int \<Rightarrow> int \<Rightarrow> slot_op list \<Rightarrow> redis \<Rightarrow> (go_error + int) list \<times> redis" where
  "run_ops ttl w [] s = ([], s)"
| "run_ops ttl w (op # ops) s =
     (let (r, s1) = run_op ttl w op s; (rs, s2) = run_ops ttl w ops s1 in (r # rs, s2))"

fun spec_ops :: "int \<Rightarrow> int \<Rightarrow> slot_op list \<Rightarrow> lease_table \<Rightarrow> int list \<times> lease_table" where
  "spec_ops ttl w [] a = ([], a)"
| "spec_ops ttl w (op # ops) a =
     (let (r, a1) = spec_op ttl w op a; (rs, a2) = spec_ops ttl w ops a1 in (r # rs, a2))"

lemma ops_refine:
  assumes "slots_ok ttl s" "\<forall>op \<in> set ops. op_ok op" "0 < ttl" "0 < w"
  shows "fst (run_ops ttl w ops s) = map Inr (fst (spec_ops ttl w ops (lease_view ttl s))) \<and>
    lease_view ttl (snd (run_ops ttl w ops s)) = snd (spec_ops ttl w ops (lease_view ttl s)) \<and>
    slots_ok ttl (snd (run_ops ttl w ops s))"
  using assms
proof (induction ops arbitrary: s)
  case (Cons op ops)
  then have r: "refines ttl (run_op ttl w op s) (spec_op ttl w op (lease_view ttl s))" by (simp add: op_refines)
  obtain x s1 where x: "run_op ttl w op s = (x, s1)" by fastforce
  then have v: "spec_op ttl w op (lease_view ttl s) = (projr x, lease_view ttl s1)" "x = Inr (projr x)" "slots_ok ttl s1"
    using r by (auto simp: refines_def prod_eq_iff)
  show ?case
    using Cons.IH [OF v(3)] Cons.prems v(2) by (simp add: x v(1) split_def Let_def)
qed simp

end
