(* ===== verification/Concurrency.thy ===== *)
theory Concurrency
  imports Slots "HOL-Library.Word"
begin

section \<open>The concurrency service\<close>

text \<open>
  \<open>service/concurrency_service.go\<close> over \<open>repository/concurrency_cache.go\<close>: taking and giving back a
  slot, the wait counters, the load of a batch of accounts with its short-lived cache, and the
  clean-ups.  Every Redis call is a statement of \<open>Store\<close>, so it may fail before or after its effect,
  and the scripts of other requests run between two of them.  The request ids of a process are its
  random prefix and a counter.
\<close>

type_synonym redis_store = "redis store"

record slot_config =
  sc_slot_ttl :: int
  sc_wait_ttl :: int

text \<open>\<open>NewConcurrencyCache\<close>: minutes and seconds, with the defaults.\<close>

definition new_concurrency_cache :: "int \<Rightarrow> int \<Rightarrow> slot_config" where
  "new_concurrency_cache slot_minutes wait_seconds =
     (let m = (if slot_minutes \<le> 0 then 15 else slot_minutes) in
      \<lparr>sc_slot_ttl = m * 60, sc_wait_ttl = (if wait_seconds \<le> 0 then m * 60 else wait_seconds)\<rparr>)"

subsection \<open>Request ids\<close>

definition base36_char :: "int \<Rightarrow> char" where
  "base36_char d = char_of (if d < 10 then 48 + d else 87 + d)"

function base36 :: "int \<Rightarrow> string" where
  "base36 n = (if n < 36 then [base36_char n] else base36 (n div 36) @ [base36_char (n mod 36)])"
  by pat_completeness auto
termination
  by (relation "measure nat") auto

declare base36.simps [simp del]

definition request_id :: "string \<Rightarrow> 64 word \<Rightarrow> string" where
  "request_id prefix seq = prefix @ ''-'' @ base36 (uint seq)"

text \<open>\<open>requestIDCounter.Add(1)\<close>: the counter after it, which the id is made of.\<close>

definition generate_request_id :: "string \<Rightarrow> 64 word \<Rightarrow> string \<times> 64 word" where
  "generate_request_id prefix counter = (let seq = counter + 1 in (request_id prefix seq, seq))"

subsection \<open>Slots\<close>

text \<open>The result of an acquisition: whether it was granted, and the id its release gives back.\<close>

record acquire_result =
  aq_acquired :: bool
  aq_release :: "string option"

definition acquire_slot :: "slot_config \<Rightarrow> string \<Rightarrow> int \<Rightarrow> string \<Rightarrow> (redis_store, acquire_result) fallible" where
  "acquire_slot cfg key max_concurrency request =
     (if max_concurrency \<le> 0 then okM \<lparr>aq_acquired = True, aq_release = None\<rparr>
      else tryM (\<lambda>e. e) (stmt (acquire_script key max_concurrency (sc_slot_ttl cfg) request)) (\<lambda>n.
        okM (if n = 1 then \<lparr>aq_acquired = True, aq_release = Some request\<rparr>
             else \<lparr>aq_acquired = False, aq_release = None\<rparr>)))"

definition acquire_account_slot :: "slot_config \<Rightarrow> int64 \<Rightarrow> int \<Rightarrow> string \<Rightarrow> (redis_store, acquire_result) fallible" where
  "acquire_account_slot cfg account max_concurrency request = acquire_slot cfg (account_slot_key account) max_concurrency request"

definition acquire_user_slot :: "slot_config \<Rightarrow> int64 \<Rightarrow> int \<Rightarrow> string \<Rightarrow> (redis_store, acquire_result) fallible" where
  "acquire_user_slot cfg uid max_concurrency request = acquire_slot cfg (user_slot_key uid) max_concurrency request"

text \<open>The release function of a result; an error is logged.\<close>

definition release_with :: "string \<Rightarrow> acquire_result \<Rightarrow> (redis_store, unit) state" where
  "release_with key r = (case aq_release r of
     None \<Rightarrow> State_Monad.return ()
   | Some request \<Rightarrow> do { _ \<leftarrow> stmt (release_slot key request); State_Monad.return () })"

subsection \<open>Waiting\<close>

text \<open>When Redis fails the request may wait: the counter is a brake, not a lock.\<close>

definition increment_wait :: "slot_config \<Rightarrow> string \<Rightarrow> int \<Rightarrow> (redis_store, bool) state" where
  "increment_wait cfg key max_wait = do {
     r \<leftarrow> stmt (increment_wait_script key max_wait (sc_wait_ttl cfg));
     State_Monad.return (case r of Inl _ \<Rightarrow> True | Inr n \<Rightarrow> n = 1) }"

definition increment_wait_count :: "slot_config \<Rightarrow> int64 \<Rightarrow> int \<Rightarrow> (redis_store, bool) state" where
  "increment_wait_count cfg uid max_wait = increment_wait cfg (wait_queue_key uid) max_wait"

definition increment_account_wait_count :: "slot_config \<Rightarrow> int64 \<Rightarrow> int \<Rightarrow> (redis_store, bool) state" where
  "increment_account_wait_count cfg account max_wait = increment_wait cfg (account_wait_key account) max_wait"

definition decrement_wait_count :: "int64 \<Rightarrow> (redis_store, unit) state" where
  "decrement_wait_count uid = do { _ \<leftarrow> stmt (decrement_wait_script (wait_queue_key uid)); State_Monad.return () }"

definition decrement_account_wait_count :: "int64 \<Rightarrow> (redis_store, unit) state" where
  "decrement_account_wait_count account =
     do { _ \<leftarrow> stmt (decrement_wait_script (account_wait_key account)); State_Monad.return () }"

definition get_account_waiting_count :: "int64 \<Rightarrow> (redis_store, int) fallible" where
  "get_account_waiting_count account = stmt (get_wait_count (account_wait_key account))"

definition calculate_max_wait :: "int \<Rightarrow> int" where
  "calculate_max_wait user_concurrency = (if user_concurrency \<le> 0 then 1 else user_concurrency) + 20"

subsection \<open>The load of a batch\<close>

record load_info =
  li_id :: int64
  li_current :: int
  li_waiting :: int
  li_rate :: int

definition load_rate :: "int \<Rightarrow> int \<Rightarrow> int \<Rightarrow> int" where
  "load_rate current waiting max_concurrency =
     (if 0 < max_concurrency then go_div ((current + waiting) * 100) max_concurrency else 0)"

text \<open>The three commands of one account in the pipeline; a reply of the wrong type counts as none.\<close>

definition load_of :: "int \<Rightarrow> string \<Rightarrow> string \<Rightarrow> int64 \<times> int \<Rightarrow> redis \<Rightarrow> load_info redis_reply" where
  "load_of cutoff sk wk a s =
     (case zrem_below sk cutoff s of
        (Inl e, s1) \<Rightarrow> (Inl e, s1)
      | (Inr _, s1) \<Rightarrow>
          (case zcard sk s1 of
             Inl e \<Rightarrow> (Inl e, s1)
           | Inr n \<Rightarrow>
               let w = (case cget wk s1 of Inr (Some w) \<Rightarrow> w | _ \<Rightarrow> 0) in
               (Inr \<lparr>li_id = fst a, li_current = n, li_waiting = w, li_rate = load_rate n w (snd a)\<rparr>, s1)))"

fun load_pipeline :: "int \<Rightarrow> (int64 \<Rightarrow> string) \<Rightarrow> (int64 \<Rightarrow> string) \<Rightarrow> (int64 \<times> int) list \<Rightarrow> redis \<Rightarrow> load_info list redis_reply" where
  "load_pipeline cutoff sk wk [] s = (Inr [], s)"
| "load_pipeline cutoff sk wk (a # as) s =
     (case load_of cutoff (sk (fst a)) (wk (fst a)) a s of
        (Inl e, s1) \<Rightarrow> (Inl e, snd (load_pipeline cutoff sk wk as s1))
      | (Inr l, s1) \<Rightarrow>
          (case load_pipeline cutoff sk wk as s1 of
             (Inl e, s2) \<Rightarrow> (Inl e, s2)
           | (Inr ls, s2) \<Rightarrow> (Inr (l # ls), s2)))"

definition loads_batch ::
  "slot_config \<Rightarrow> (int64 \<Rightarrow> string) \<Rightarrow> (int64 \<Rightarrow> string) \<Rightarrow> (int64 \<times> int) list \<Rightarrow> (redis_store, load_info list) fallible" where
  "loads_batch cfg sk wk items =
     (if items = [] then okM []
      else tryM (Wrapped ''redis TIME'') (stmt (\<lambda>s. (Inr (seconds s), s))) (\<lambda>now.
        tryM (Wrapped ''pipeline exec'') (stmt (load_pipeline (now - sc_slot_ttl cfg) sk wk items)) okM))"

definition get_accounts_load_batch :: "slot_config \<Rightarrow> (int64 \<times> int) list \<Rightarrow> (redis_store, load_info list) fallible" where
  "get_accounts_load_batch cfg accounts = loads_batch cfg account_slot_key account_wait_key accounts"

definition get_users_load_batch :: "slot_config \<Rightarrow> (int64 \<times> int) list \<Rightarrow> (redis_store, load_info list) fallible" where
  "get_users_load_batch cfg users = loads_batch cfg user_slot_key wait_queue_key users"

text \<open>The counts alone.\<close>

fun count_pipeline :: "int \<Rightarrow> int64 list \<Rightarrow> redis \<Rightarrow> (int64 \<times> int) list redis_reply" where
  "count_pipeline cutoff [] s = (Inr [], s)"
| "count_pipeline cutoff (i # is) s =
     (case zrem_below (account_slot_key i) cutoff s of
        (Inl e, s1) \<Rightarrow> (Inl e, snd (count_pipeline cutoff is s1))
      | (Inr _, s1) \<Rightarrow>
          (case (zcard (account_slot_key i) s1, count_pipeline cutoff is s1) of
             (Inr n, (Inr ns, s2)) \<Rightarrow> (Inr ((i, n) # ns), s2)
           | (Inl e, (_, s2)) \<Rightarrow> (Inl e, s2)
           | (Inr _, (Inl e, s2)) \<Rightarrow> (Inl e, s2)))"

definition get_account_concurrency_batch :: "slot_config \<Rightarrow> int64 list \<Rightarrow> (redis_store, (int64 \<times> int) list) fallible" where
  "get_account_concurrency_batch cfg accounts =
     (if accounts = [] then okM []
      else tryM (Wrapped ''redis TIME'') (stmt (\<lambda>s. (Inr (seconds s), s))) (\<lambda>now.
        tryM (Wrapped ''pipeline exec'') (stmt (count_pipeline (now - sc_slot_ttl cfg) accounts)) okM))"

subsection \<open>The cache of batches\<close>

text \<open>
  A batch is kept under its key (the hash of its accounts and limits) until it expires; when the cache
  is full, expired batches go first and then any, in the order \<open>victims\<close> in which Go ranges over the map.
\<close>

type_synonym load_cache = "string \<rightharpoonup> load_info list \<times> time"

definition max_load_cache :: nat where
  "max_load_cache = 256"

definition get_cached_loads :: "string \<Rightarrow> time \<Rightarrow> load_cache \<Rightarrow> load_info list option \<times> load_cache" where
  "get_cached_loads key now c = (case c key of
     None \<Rightarrow> (None, c)
   | Some (ls, expires) \<Rightarrow> if expires \<le> now then (None, c(key := None)) else (Some ls, c))"

fun evict :: "nat \<Rightarrow> string list \<Rightarrow> load_cache \<Rightarrow> load_cache" where
  "evict 0 victims c = c"
| "evict (Suc n) [] c = c"
| "evict (Suc n) (k # ks) c = (if c k = None then evict (Suc n) ks c else evict n ks (c(k := None)))"

definition unexpired :: "time \<Rightarrow> load_cache \<Rightarrow> load_cache" where
  "unexpired now c = (\<lambda>k. case c k of None \<Rightarrow> None | Some (ls, expires) \<Rightarrow> if expires \<le> now then None else Some (ls, expires))"

text \<open>\<open>victims\<close> lists the keys of the cache, as a range over the map would.\<close>

definition store_cached_loads ::
  "string list \<Rightarrow> time \<Rightarrow> string \<Rightarrow> load_info list \<Rightarrow> time \<Rightarrow> load_cache \<Rightarrow> load_cache" where
  "store_cached_loads victims now key ls expires c =
     (let size = (\<lambda>m. length (filter (\<lambda>k. m k \<noteq> None) victims));
          c1 = (if max_load_cache \<le> size c then unexpired now c else c);
          c2 = evict (size c1 + 1 - max_load_cache) victims c1
      in c2(key \<mapsto> (ls, expires)))"

text \<open>
  The batch read through the cache: a hit within the TTL, or a fetch whose result is kept.  (Requests
  for the same key at the same time share one fetch; alone, that makes no difference.)
\<close>

definition get_loads ::
  "slot_config \<Rightarrow> duration \<Rightarrow> bool \<Rightarrow> string list \<Rightarrow> time \<Rightarrow> string \<Rightarrow> (int64 \<times> int) list \<Rightarrow> load_cache \<Rightarrow>
   (redis_store, (go_error + load_info list) \<times> load_cache) state" where
  "get_loads cfg ttl allow_cache victims now key accounts c =
     (if accounts = [] then State_Monad.return (Inr [], c)
      else if \<not> allow_cache \<or> ttl \<le> 0 then do { r \<leftarrow> get_accounts_load_batch cfg accounts; State_Monad.return (r, c) }
      else case get_cached_loads key now c of
        (Some ls, c1) \<Rightarrow> State_Monad.return (Inr ls, c1)
      | (None, c1) \<Rightarrow> do {
          r \<leftarrow> get_accounts_load_batch cfg accounts;
          State_Monad.return (r, case r of
            Inl _ \<Rightarrow> c1 | Inr ls \<Rightarrow> store_cached_loads victims now key ls (now + ttl) c1) })"

subsection \<open>Cleaning up\<close>

definition cleanup_expired_account_slots :: "slot_config \<Rightarrow> int64 \<Rightarrow> (redis_store, int) fallible" where
  "cleanup_expired_account_slots cfg account =
     stmt (cleanup_expired_slots_script (account_slot_key account) (sc_slot_ttl cfg))"

text \<open>
  At the start of a process: the slots of every other process go, and the wait counters.  \<open>SCAN\<close>
  answers with batches of keys, given as an argument.
\<close>

fun del_keys :: "string list \<Rightarrow> redis \<Rightarrow> int redis_reply" where
  "del_keys [] s = (Inr 0, s)"
| "del_keys (k # ks) s = del_keys ks (del k s)"

fun each_batch :: "(string list \<Rightarrow> redis \<Rightarrow> int redis_reply) \<Rightarrow> string \<Rightarrow> string list list \<Rightarrow> (redis_store, unit) fallible" where
  "each_batch f what [] = okM ()"
| "each_batch f what (ks # kss) =
     (if ks = [] then each_batch f what kss
      else tryM (Wrapped what) (stmt (f ks)) (\<lambda>_. each_batch f what kss))"

definition cleanup_stale_process_slots ::
  "slot_config \<Rightarrow> string \<Rightarrow> (string \<Rightarrow> string list list) \<Rightarrow> (redis_store, unit) fallible" where
  "cleanup_stale_process_slots cfg prefix scan =
     (if prefix = [] then okM ()
      else
        let slots = (\<lambda>p. each_batch (\<lambda>ks. startup_cleanup_script ks prefix (sc_slot_ttl cfg)) (''cleanup slots '' @ p @ ''*'') (scan p));
            waits = (\<lambda>p. each_batch del_keys (''del '' @ p @ ''*'') (scan p)) in
        tryM (\<lambda>e. e) (slots account_slot_prefix) (\<lambda>_.
        tryM (\<lambda>e. e) (slots user_slot_prefix) (\<lambda>_.
        tryM (\<lambda>e. e) (waits account_wait_prefix) (\<lambda>_. waits wait_queue_prefix))))"

subsection \<open>Limits and leases\<close>

text \<open>The limit of the acquisitions of a key.\<close>

fun in_limit :: "string \<Rightarrow> int \<Rightarrow> slot_op \<Rightarrow> bool" where
  "in_limit k m (Acquire k' m' _) \<longleftrightarrow> (k' = k \<longrightarrow> m' \<le> m)"
| "in_limit k m _ \<longleftrightarrow> True"

lemma spec_finite: "finite (dom (lt_held a k)) \<Longrightarrow> finite (dom (lt_held (snd (spec_op ttl w op a)) k))"
  by (cases op) (auto simp: Let_def split: option.split)

lemma held_count_upd: "finite (dom l) \<Longrightarrow> held_count (l(i \<mapsto> x)) = (if i \<in> dom l then held_count l else held_count l + 1)"
  by (simp add: held_count_def card_insert_if insert_absorb)

lemma held_count_mono: "finite (dom l) \<Longrightarrow> dom l' \<subseteq> dom l \<Longrightarrow> held_count l' \<le> held_count l"
  by (simp add: held_count_def card_mono)

lemma spec_limit:
  assumes "finite (dom (lt_held a k))" "in_limit k m op"
  shows "held_count (lt_held (snd (spec_op ttl w op a)) k) \<le> max m (held_count (lt_held a k))"
proof (cases op)
  case (Acquire k' m' i)
  then show ?thesis using assms by (auto simp: Let_def held_count_upd)
next
  case (Release k' i)
  then show ?thesis using held_count_mono [OF assms(1), of "(lt_held a k)(i := None)"] by auto
next
  case (Restart ks p)
  then show ?thesis using held_count_mono [OF assms(1), of "lt_held a k |` S" for S] by (auto simp: le_max_iff_disj)
next
  case (Pass d)
  then show ?thesis
    using held_count_mono [OF assms(1), of "lt_held a k |` S" for S] by (simp add: Let_def le_max_iff_disj)
qed (auto simp: Let_def split: option.split)

lemma spec_ops_limit:
  assumes "finite (dom (lt_held a k))" "\<forall>op \<in> set ops. in_limit k m op"
  shows "held_count (lt_held (snd (spec_ops ttl w ops a)) k) \<le> max m (held_count (lt_held a k))"
  using assms
proof (induction ops arbitrary: a)
  case (Cons op ops)
  have "held_count (lt_held (snd (spec_ops ttl w ops (snd (spec_op ttl w op a)))) k) \<le> max m (held_count (lt_held (snd (spec_op ttl w op a)) k))"
    by (rule Cons.IH) (use Cons.prems spec_finite in auto)
  also have "\<dots> \<le> max m (held_count (lt_held a k))" using spec_limit [of a k m op] Cons.prems by simp
  finally show ?case by (simp add: Let_def split_def)
qed simp

lemma view_finite: "finite (dom (lt_held (lease_view ttl s) k))"
  by (auto simp: lease_view_def live_slots_def finite_dom_map_of split: sum.split)

text \<open>Operations that leave the slot of one request alone.\<close>

fun spares :: "string \<Rightarrow> string \<Rightarrow> slot_op \<Rightarrow> bool" where
  "spares k i (Release k' i') \<longleftrightarrow> \<not> (k' = k \<and> i' = i)"
| "spares k i (Restart ks p) \<longleftrightarrow> k \<in> set ks \<longrightarrow> has_prefix i p"
| "spares k i _ \<longleftrightarrow> True"

fun elapsed :: "slot_op list \<Rightarrow> int" where
  "elapsed [] = 0"
| "elapsed (Pass d # ops) = d + elapsed ops"
| "elapsed (_ # ops) = elapsed ops"

lemma spec_holds_one:
  assumes "lt_held a k i = Some x" "op_ok op" "spares k i op" "0 \<le> e"
    and "(lt_ms a + elapsed (op # ops)) div 1000 < x + ttl" "x \<le> lt_ms a div 1000" "0 \<le> elapsed ops"
  shows "\<exists>y. lt_held (snd (spec_op ttl w op a)) k i = Some y \<and> x \<le> y \<and>
    y \<le> lt_ms (snd (spec_op ttl w op a)) div 1000 \<and>
    lt_ms (snd (spec_op ttl w op a)) + elapsed ops = lt_ms a + elapsed (op # ops)"
proof (cases op)
  case (Pass d)
  have "(lt_ms a + d) div 1000 \<le> (lt_ms a + elapsed (op # ops)) div 1000"
    using assms(7) Pass by (intro zdiv_mono1) simp_all
  then have "(lt_ms a + d) div 1000 - ttl < x" using assms(5) by simp
  moreover have "x \<le> (lt_ms a + d) div 1000"
    using assms(2,6) Pass zdiv_mono1 [of "lt_ms a" "lt_ms a + d" 1000] by simp
  ultimately show ?thesis using assms(1) Pass by (simp add: Let_def restrict_map_def)
qed (use assms in \<open>auto simp: Let_def restrict_map_def split: option.split\<close>)

lemma elapsed_nonneg: "\<forall>op \<in> set ops. op_ok op \<Longrightarrow> 0 \<le> elapsed ops"
  by (induction ops rule: elapsed.induct) auto

lemma spec_holds:
  assumes "lt_held a k i = Some x" "\<forall>op \<in> set ops. op_ok op \<and> spares k i op"
    and "(lt_ms a + elapsed ops) div 1000 < x + ttl" and "x \<le> lt_ms a div 1000"
  shows "\<exists>y. lt_held (snd (spec_ops ttl w ops a)) k i = Some y \<and> x \<le> y"
  using assms
proof (induction ops arbitrary: a x)
  case (Cons op ops)
  then obtain y where y: "lt_held (snd (spec_op ttl w op a)) k i = Some y" "x \<le> y"
      "y \<le> lt_ms (snd (spec_op ttl w op a)) div 1000"
      "lt_ms (snd (spec_op ttl w op a)) + elapsed ops = lt_ms a + elapsed (op # ops)"
    using spec_holds_one [of a k i x op 0 ops ttl w] elapsed_nonneg [of ops] by auto
  have "\<exists>z. lt_held (snd (spec_ops ttl w ops (snd (spec_op ttl w op a)))) k i = Some z \<and> y \<le> z"
    by (rule Cons.IH) (use Cons.prems y in auto)
  then show ?case using y(2) by (auto simp: Let_def split_def intro: order_trans)
qed simp

subsection \<open>Properties\<close>

text \<open>
  C7.  The scripts implement the table of leases: whatever sequence of acquisitions, releases, counts,
  clean-ups, restarts and wait counters runs, with time passing in between, the replies are those of
  the table and so is what is left.  Dead members and the deadlines of keys cannot be observed.
\<close>

theorem slots_implement_leases:
  assumes "slots_ok ttl s" "\<forall>op \<in> set ops. op_ok op" "0 < ttl" "0 < w"
    and "run_ops ttl w ops s = (rs, s')"
  shows "\<exists>ns. rs = map Inr ns \<and> spec_ops ttl w ops (lease_view ttl s) = (ns, lease_view ttl s') \<and> slots_ok ttl s'"
  using ops_refine [OF assms(1-4)] assms(5) by (auto simp: prod_eq_iff)


text \<open>
  C13.  The limit holds: if every acquisition of a key states at most \<open>m\<close>, then no more than \<open>m\<close> of
  its slots are live at any time, whatever the interleaving, unless more were live at the start.
\<close>

theorem slot_limit_respected:
  assumes "slots_ok ttl s" "\<forall>op \<in> set ops. op_ok op \<and> in_limit k m op" "0 < ttl" "0 < w"
    and "run_ops ttl w ops s = (rs, s')"
  shows "held_count (lt_held (lease_view ttl s') k) \<le> max m (held_count (lt_held (lease_view ttl s) k))"
  using ops_refine [OF assms(1) _ assms(3,4), of ops] spec_ops_limit [OF view_finite, of ops k m ttl w ttl s] assms(2,5)
  by simp

text \<open>
  A granted slot is held until it is released or its TTL has passed: no other request, clean-up or
  restart of its own process takes it away before.
\<close>

theorem granted_slot_held:
  assumes "slots_ok ttl s" "slot_key k" "0 < ttl" "0 < w"
    and "acquire_script k m ttl i s = (Inr 1, s1)"
    and "\<forall>op \<in> set ops. op_ok op \<and> spares k i op"
    and "(rd_ms s + elapsed ops) div 1000 < seconds s + ttl"
    and "run_ops ttl w ops s1 = (rs, s')"
  shows "lt_held (lease_view ttl s') k i \<noteq> None"
proof -
  have r: "refines ttl (Inr 1, s1) (spec_op ttl w (Acquire k m i) (lease_view ttl s))"
    using acquire_refines [OF assms(1-3), of m i w] assms(5) by simp
  then have s1: "slots_ok ttl s1" "lt_held (lease_view ttl s1) k i = Some (lt_ms (lease_view ttl s) div 1000)"
    "lt_ms (lease_view ttl s1) = lt_ms (lease_view ttl s)"
    by (auto simp: refines_def Let_def simp del: view_sel split: if_splits)
  have "\<exists>y. lt_held (snd (spec_ops ttl w ops (lease_view ttl s1))) k i = Some y \<and> rd_ms s div 1000 \<le> y"
    by (rule spec_holds [OF s1(2) [simplified] assms(6)]) (use assms(7) s1(3) in \<open>simp_all add: seconds_def\<close>)
  then show ?thesis using ops_refine [OF s1(1) _ assms(3,4), of ops] assms(6,8) by auto
qed


subsection \<open>A run\<close>

definition quiet_redis :: redis where
  "quiet_redis = \<lparr>rd_ms = 1000000, rd_keys = Map.empty\<rparr>"

definition slot_trace :: "slot_op list" where
  "slot_trace = (let k = account_slot_key 7 in
     [Acquire k 1 ''ra-1'', Acquire k 1 ''ra-2'', Raise (account_wait_key 7) 2, Pass 60000, Count k,
      Restart [k] ''ra'', Cleanup k, Release k ''ra-1'', Acquire k 1 ''ra-2'', Pass 900000, Count k,
      Acquire k 1 ''ra-3'', Lower (account_wait_key 7), Waiting (account_wait_key 7)])"

lemma quiet_ok: "slots_ok ttl quiet_redis"
  by (simp add: slots_ok_def typed_def quiet_redis_def entry_def)

lemma trace_ok: "\<forall>op \<in> set slot_trace. op_ok op \<and> in_limit (account_slot_key 7) 1 op"
  by code_simp

lemma trace_replies: "fst (run_ops 900 900 slot_trace quiet_redis) =
    map Inr [1, 0, 1, 0, 1, 1, 1, 1, 1, 0, 0, 1, 1, 0]"
  by code_simp

lemma trace_op_ok: "\<forall>op \<in> set slot_trace. op_ok op"
  using trace_ok by blast

theorem slots_implement_leases_witness:
  "fst (spec_ops 900 900 slot_trace (lease_view 900 quiet_redis)) = [1, 0, 1, 0, 1, 1, 1, 1, 1, 0, 0, 1, 1, 0]"
  using slots_implement_leases [OF quiet_ok trace_op_ok, of 900 900, OF _ _ surjective_pairing]
  by (auto simp: trace_replies inj_map_eq_map)


theorem slot_limit_respected_witness:
  "held_count (lt_held (lease_view 900 (snd (run_ops 900 900 slot_trace quiet_redis))) (account_slot_key 7)) \<le> 1"
proof -
  have "held_count (lt_held (lease_view 900 quiet_redis) (account_slot_key 7)) = 0"
    by (simp add: held_count_def lease_view_def live_slots_def zget_def entry_def quiet_redis_def zset_above_def)
  then show ?thesis
    using slot_limit_respected [OF quiet_ok trace_ok, of 900 900, OF _ _ surjective_pairing] by simp
qed

theorem granted_slot_held_witness:
  "lt_held (lease_view 900 (snd (run_ops 900 900 [Acquire (account_slot_key 7) 1 ''rb-1'', Pass 60000, Cleanup (account_slot_key 7)]
     (snd (acquire_script (account_slot_key 7) 1 900 ''ra-1'' quiet_redis))))) (account_slot_key 7) ''ra-1'' \<noteq> None"
proof -
  have "fst (acquire_script (account_slot_key 7) 1 900 ''ra-1'' quiet_redis) = Inr 1" by code_simp
  then have a: "acquire_script (account_slot_key 7) 1 900 ''ra-1'' quiet_redis =
      (Inr 1, snd (acquire_script (account_slot_key 7) 1 900 ''ra-1'' quiet_redis))" by (simp add: prod_eq_iff)
  show ?thesis
    by (rule granted_slot_held [OF quiet_ok _ _ _ a _ _ surjective_pairing])
      (simp_all add: quiet_redis_def seconds_def)
qed

text \<open>
  Another process starts while the first one is at its limit of one: its clean-up takes the slot of the
  running request away, and a second request is admitted beside it.
\<close>

lemma restart_breaks_the_limit_of_others:
  "fst (run_ops 900 900 [Acquire (account_slot_key 7) 1 ''ra-1'', Restart [account_slot_key 7] ''rb'',
     Acquire (account_slot_key 7) 1 ''rb-1''] quiet_redis) = [Inr 1, Inr 1, Inr 1]"
  by code_simp

subsection \<open>Ids of requests, and the cache of loads\<close>

definition base36_val :: "string \<Rightarrow> int" where
  "base36_val s = fold (\<lambda>c n. 36 * n + (let k = of_char c :: int in if k < 58 then k - 48 else k - 87)) s 0"

lemma base36_val_snoc: "0 \<le> d \<Longrightarrow> d < 36 \<Longrightarrow> base36_val (s @ [base36_char d]) = 36 * base36_val s + d"
proof -
  assume "0 \<le> d" "d < 36"
  then have "d < 10 \<Longrightarrow> (of_char (char_of (48 + d) :: char) :: int) = 48 + d"
    "(of_char (char_of (87 + d) :: char) :: int) = 87 + d"
    by (simp_all add: of_char_of take_bit_eq_mod)
  then show ?thesis using \<open>0 \<le> d\<close> \<open>d < 36\<close> by (simp add: base36_val_def base36_char_def Let_def)
qed

lemma base36_val_base36: "0 \<le> n \<Longrightarrow> base36_val (base36 n) = n"
proof (induction n rule: base36.induct)
  case (1 n)
  show ?case
  proof (cases "n < 36")
    case True
    then show ?thesis using 1 base36_val_snoc [of n "[]"] by (simp add: base36.simps [of n] base36_val_def)
  next
    case False
    then show ?thesis using 1 by (subst base36.simps) (simp add: base36_val_snoc)
  qed
qed

lemma request_id_inject: "request_id p a = request_id p b \<longleftrightarrow> a = b"
proof
  assume "request_id p a = request_id p b"
  then have "base36_val (base36 (uint a)) = base36_val (base36 (uint b))" by (simp add: request_id_def)
  then show "a = b" by (simp add: base36_val_base36 word_uint_eq_iff [symmetric])
qed simp

text \<open>The process that restarts spares its own requests.\<close>

lemma own_request_spared: "spares k (request_id p n) (Restart ks p)"
  by (auto simp: request_id_def has_prefix_iff)

lemma live_size: "distinct victims \<Longrightarrow> dom c \<subseteq> set victims \<Longrightarrow> length (filter (\<lambda>k. c k \<noteq> None) victims) = card (dom c)"
proof -
  assume v: "distinct victims" "dom c \<subseteq> set victims"
  have "dom c = set (filter (\<lambda>k. c k \<noteq> None) victims)" using v(2) by auto
  then show ?thesis using distinct_card [of "filter (\<lambda>k. c k \<noteq> None) victims"] v(1) by simp
qed

lemma evict_card:
  assumes "distinct victims" "dom c \<subseteq> set victims" "n \<le> card (dom c)"
  shows "card (dom (evict n victims c)) = card (dom c) - n \<and> dom (evict n victims c) \<subseteq> dom c"
  using assms
proof (induction n victims c rule: evict.induct)
  case (3 n k ks c)
  have fin: "finite (dom c)" using 3(4) finite_subset by fastforce
  show ?case
  proof (cases "c k = None")
    case True
    then show ?thesis using 3 by (auto simp: subset_insert domIff)
  next
    case False
    define d where "d = c(k := None)"
    have d: "card (dom d) = card (dom c) - 1" "dom d \<subseteq> set ks" "dom d \<subseteq> dom c"
      using fin False 3(4) by (auto simp: d_def domIff)
    have "d = (\<lambda>a. if a = k then None else c a)" by (simp add: d_def fun_upd_def)
    then have "card (dom (evict n ks d)) = card (dom d) - n \<and> dom (evict n ks d) \<subseteq> dom d"
      using 3(2) [OF False] 3(3,5) d by simp
    moreover have "evict (Suc n) (k # ks) c = evict n ks d" using False by (auto simp: d_def)
    ultimately show ?thesis using d by (metis One_nat_def diff_Suc_eq_diff_pred order_trans)
  qed
qed auto

lemma evict_sub: "evict n victims c k \<noteq> None \<Longrightarrow> evict n victims c k = c k"
  by (induction n victims c rule: evict.induct) (auto split: if_splits)

text \<open>
  The cache of load batches never holds more than 256 batches, keeps the one just stored for
  exactly its TTL, and changes no other batch it keeps.
\<close>

theorem load_cache_bounded:
  assumes "dom c = set victims" "distinct victims" "card (dom c) \<le> max_load_cache"
    and "c' = store_cached_loads victims now key ls (now + ttl) c"
  shows "card (dom c') \<le> max_load_cache \<and> (\<forall>k. k \<noteq> key \<longrightarrow> c' k \<noteq> None \<longrightarrow> c' k = c k) \<and>
    (fst (get_cached_loads key later c') = Some ls \<longleftrightarrow> later < now + ttl)"
proof -
  define c1 where "c1 = (if max_load_cache \<le> card (dom c) then unexpired now c else c)"
  define n where "n = card (dom c1) + 1 - max_load_cache"
  define c2 where "c2 = evict n victims c1"
  have d1: "dom c1 \<subseteq> dom c" "\<And>k. c1 k \<noteq> None \<Longrightarrow> c1 k = c k"
    by (auto simp: c1_def unexpired_def split: option.splits if_splits)
  then have s1: "dom c1 \<subseteq> set victims" using assms(1) by simp
  have size: "length (filter (\<lambda>k. c k \<noteq> None) victims) = card (dom c)"
    by (rule live_size [OF assms(2)]) (simp add: assms(1))
  have c': "c' = c2(key \<mapsto> (ls, now + ttl))"
    unfolding assms(4) store_cached_loads_def Let_def size c1_def [symmetric] live_size [OF assms(2) s1] n_def [symmetric]
      c2_def ..
  have "card (dom c1) \<le> max_load_cache" using card_mono [OF _ d1(1)] assms(1,3) by simp
  then have "n \<le> card (dom c1)" by (simp add: n_def max_load_cache_def)
  from evict_card [OF assms(2) s1 this] have "card (dom c2) = card (dom c1) - n" and sub: "dom c2 \<subseteq> dom c1"
    by (simp_all add: c2_def)
  then have c2: "card (dom c2) \<le> max_load_cache - 1" by (simp add: n_def)
  have fin: "finite (dom c2)" using finite_subset [OF sub] finite_subset [OF s1] by simp
  have "card (dom c') \<le> max_load_cache"
    using c2 fin by (simp add: c' card_insert_if max_load_cache_def)
  moreover have "c' k = c k" if "k \<noteq> key" "c' k \<noteq> None" for k
    using that evict_sub [of n victims c1 k] d1(2) [of k] by (simp add: c' c2_def)
  ultimately show ?thesis by (simp add: get_cached_loads_def c')
qed

theorem load_cache_bounded_witness:
  "fst (get_cached_loads ''k'' 5 (store_cached_loads [''j''] 3 ''k'' [] (3 + 10) [''j'' \<mapsto> ([], 4)])) = Some []"
  using load_cache_bounded [of "[''j'' \<mapsto> ([], 4)]" "[''j'']", OF _ _ _ refl, of 3 "''k''" "[]" 10 5]
  by (simp add: max_load_cache_def)

end
