(* ===== verification/Atomic.thy ===== *)
theory Atomic
  imports Store
begin

section \<open>What the body of a transaction computes\<close>

text \<open>
  Nothing interferes inside a transaction, and a failed one is rolled back, so the body of one is a
  function from the tables to a result and the tables after it, or an error.  \<open>computes m g\<close> says that
  \<open>m\<close> succeeds only as \<open>g\<close> says, whatever fails, and that it does exactly what \<open>g\<close> says when nothing
  fails.  The proofs follow the syntax of \<open>m\<close>; \<open>in_tx\<close> then is \<open>g\<close> made atomic.
\<close>

type_synonym ('t, 'a) compute = "'t \<Rightarrow> go_error + 'a \<times> 't"

definition quiet :: "'t store \<Rightarrow> bool" where
  "quiet s \<longleftrightarrow> st_world s = []"

definition computes :: "('t store, 'a) fallible \<Rightarrow> ('t, 'a) compute \<Rightarrow> bool" where
  "computes m g \<longleftrightarrow>
     (\<forall>t1 t0. txr (\<lambda>t b. t = t1 \<and> b = t0) m
        (\<lambda>r t b. b = t0 \<and> (case r of Inl _ \<Rightarrow> True | Inr a \<Rightarrow> g t1 = Inr (a, t)))) \<and>
     (\<forall>s. quiet s \<longrightarrow> (case run_state m s of (r, s') \<Rightarrow> quiet s' \<and> st_base s' = st_base s \<and>
        (case g (st_tabs s) of Inl e \<Rightarrow> r = Inl e | Inr (a, t) \<Rightarrow> r = Inr a \<and> st_tabs s' = t)))"

named_theorems computes_rules

definition done_with :: "'a \<Rightarrow> ('t, 'a) compute" where
  "done_with a t = Inr (a, t)"

definition stops :: "go_error \<Rightarrow> ('t, 'a) compute" where
  "stops e t = Inl e"

definition stated :: "('t \<Rightarrow> (go_error + 'a) \<times> 't) \<Rightarrow> ('t, 'a) compute" where
  "stated f t = (case f t of (Inl e, _) \<Rightarrow> Inl e | (Inr a, t') \<Rightarrow> Inr (a, t'))"

definition andthen ::
  "(go_error \<Rightarrow> go_error) \<Rightarrow> ('t, 'a) compute \<Rightarrow> ('a \<Rightarrow> ('t, 'b) compute) \<Rightarrow> ('t, 'b) compute" where
  "andthen w g h t = (case g t of Inl e \<Rightarrow> Inl (w e) | Inr (a, t') \<Rightarrow> h a t')"

lemmas compute_defs = done_with_def stops_def stated_def andthen_def

lemma quiet_tick: "quiet s \<Longrightarrow> run_state tick s = (None, s)"
  by (simp add: quiet_def tick_def)

lemma quiet_base [simp]: "quiet (s\<lparr>st_base := b\<rparr>) = quiet s"
  by (simp add: quiet_def)

lemma quiet_tabs [simp]: "quiet (s\<lparr>st_tabs := t\<rparr>) = quiet s"
  by (simp add: quiet_def)

lemma computes_quiet:
  assumes "computes m g" and "quiet s" and "run_state m s = (r, s')"
  shows "quiet s' \<and> st_base s' = st_base s \<and>
    (case g (st_tabs s) of Inl e \<Rightarrow> r = Inl e | Inr (a, t) \<Rightarrow> r = Inr a \<and> st_tabs s' = t)"
  using assms(1) [unfolded computes_def, THEN conjunct2, THEN spec, THEN mp, OF assms(2)]
  by (simp add: assms(3))

lemma computes_txr:
  "computes m g \<Longrightarrow> txr (\<lambda>t b. t = t1 \<and> b = t0) m
     (\<lambda>r t b. b = t0 \<and> (case r of Inl _ \<Rightarrow> True | Inr a \<Rightarrow> g t1 = Inr (a, t)))"
  by (simp add: computes_def)

lemma computesI:
  assumes "\<And>t1 t0. txr (\<lambda>t b. t = t1 \<and> b = t0) m
      (\<lambda>r t b. b = t0 \<and> (case r of Inl _ \<Rightarrow> True | Inr a \<Rightarrow> g t1 = Inr (a, t)))"
    and "\<And>s r s'. quiet s \<Longrightarrow> run_state m s = (r, s') \<Longrightarrow> quiet s' \<and> st_base s' = st_base s \<and>
      (case g (st_tabs s) of Inl e \<Rightarrow> r = Inl e | Inr (a, t) \<Rightarrow> r = Inr a \<and> st_tabs s' = t)"
  shows "computes m g"
  using assms(1) assms(2) [OF _ prod.collapse [symmetric]] unfolding computes_def split_def by blast

lemma computes_ok [computes_rules]: "computes (okM a) (done_with a)"
  by (auto simp: computes_def done_with_def intro: txr_return)

lemma computes_fail [computes_rules]: "computes (failM e) (stops e)"
  by (auto simp: computes_def stops_def intro: txr_return)

lemma computes_stmt [computes_rules]:
  fixes f :: "'t \<Rightarrow> (go_error + 'a) \<times> 't"
  shows "computes (stmt f) (stated f)"
proof (rule computesI)
  fix t1 t0 :: 't
  show "txr (\<lambda>t b. t = t1 \<and> b = t0) (stmt f)
     (\<lambda>r t b. b = t0 \<and> (case r of Inl _ \<Rightarrow> True | Inr a \<Rightarrow> stated f t1 = Inr (a, t)))"
    by (rule txr_stmt) (simp_all add: stated_def split: sum.splits prod.splits)
next
  fix s r s'
  assume "quiet s" "run_state (stmt f) s = (r, s')"
  then have "r = fst (f (st_tabs s))" "s' = s\<lparr>st_tabs := snd (f (st_tabs s))\<rparr>"
    by (simp_all add: run_stmt quiet_tick)
  then show "quiet s' \<and> st_base s' = st_base s \<and>
     (case stated f (st_tabs s) of Inl e \<Rightarrow> r = Inl e | Inr (a, t) \<Rightarrow> r = Inr a \<and> st_tabs s' = t)"
    using \<open>quiet s\<close> by (simp add: stated_def split: sum.splits prod.splits)
qed

lemma computes_try [computes_rules]:
  fixes m :: "('t store, 'a) fallible"
  assumes m: "computes m g" and k: "\<And>a. computes (k a) (h a)"
  shows "computes (tryM w m k) (andthen w g h)"
proof (rule computesI)
  fix t1 t0 :: 't
  let ?Q = "\<lambda>r t b. b = t0 \<and> (case r of Inl _ \<Rightarrow> True | Inr a \<Rightarrow> andthen w g h t1 = Inr (a, t))"
  let ?S = "\<lambda>a t b. b = t0 \<and> g t1 = Inr (a, t)"
  show "txr (\<lambda>t b. t = t1 \<and> b = t0) (tryM w m k) ?Q"
  proof (rule txr_try [where S = ?S])
    show "txr (\<lambda>t b. t = t1 \<and> b = t0) m
      (\<lambda>r t b. case r of Inl e \<Rightarrow> ?Q (Inl (w e)) t b | Inr a \<Rightarrow> ?S a t b)"
      by (rule txr_conseq [OF computes_txr [OF m, of t1 t0]]) (auto split: sum.splits)
    fix a
    show "txr (?S a) (k a) ?Q"
      unfolding txr_def
    proof (intro allI impI)
      fix s :: "'t store" and b assume s: "st_base s = Some b" "b = t0 \<and> g t1 = Inr (a, st_tabs s)"
      obtain r s' where run: "run_state (k a) s = (r, s')" by fastforce
      from txrD [OF computes_txr [OF k, of "st_tabs s" t0] s(1) _ run] s(2)
      show "case run_state (k a) s of (r, s') \<Rightarrow> \<exists>b'. st_base s' = Some b' \<and>
          set (st_world s') \<subseteq> set (st_world s) \<and> ?Q r (st_tabs s') b'"
        by (auto simp: run andthen_def split: sum.splits)
    qed
  qed
next
  fix s q s2
  assume s: "quiet s" and run: "run_state (tryM w m k) s = (q, s2)"
  obtain r s1 where 1: "run_state m s = (r, s1)" by fastforce
  note m1 = computes_quiet [OF m s 1]
  show "quiet s2 \<and> st_base s2 = st_base s \<and>
     (case andthen w g h (st_tabs s) of Inl e \<Rightarrow> q = Inl e | Inr (a, t) \<Rightarrow> q = Inr a \<and> st_tabs s2 = t)"
  proof (cases r)
    case (Inl e)
    then show ?thesis using m1 run by (auto simp: run_tryM 1 andthen_def split: sum.splits)
  next
    case (Inr a)
    then have g: "g (st_tabs s) = Inr (a, st_tabs s1)" using m1 by (auto split: sum.splits)
    have "run_state (k a) s1 = (q, s2)" using run Inr by (simp add: run_tryM 1)
    from computes_quiet [OF k _ this] m1 g show ?thesis by (simp add: andthen_def)
  qed
qed

lemma computes_if [computes_rules]:
  "computes m g \<Longrightarrow> computes n h \<Longrightarrow> computes (if b then m else n) (if b then g else h)"
  by simp

lemma computes_option [computes_rules]:
  "computes m g \<Longrightarrow> (\<And>a. computes (f a) (h a)) \<Longrightarrow>
   computes (case x of None \<Rightarrow> m | Some a \<Rightarrow> f a) (case x of None \<Rightarrow> g | Some a \<Rightarrow> h a)"
  by (cases x) simp_all

lemma computes_prod [computes_rules]:
  "(\<And>a b. computes (f a b) (h a b)) \<Longrightarrow> computes (case x of (a, b) \<Rightarrow> f a b) (case x of (a, b) \<Rightarrow> h a b)"
  by (cases x) simp_all

text \<open>The result of a pure check.\<close>

lemma computes_sum_return [computes_rules]:
  "computes (State_Monad.return r) (case r of Inl e \<Rightarrow> stops e | Inr a \<Rightarrow> done_with a)"
  by (cases r) (simp_all add: computes_ok computes_fail)

text \<open>A transaction that runs undisturbed.\<close>

lemma in_tx_quiet:
  assumes "computes body g" and "quiet s" and "st_base s = None"
  shows "run_state (in_tx wb wc body) s =
     (case g (st_tabs s) of Inl e \<Rightarrow> (Inl e, s) | Inr (a, t) \<Rightarrow> (Inr a, s\<lparr>st_tabs := t\<rparr>))"
proof -
  obtain r s' where run: "run_state body (s\<lparr>st_base := Some (st_tabs s)\<rparr>) = (r, s')" by fastforce
  have s': "quiet s'" "st_base s' = Some (st_tabs s)"
    "case g (st_tabs s) of Inl e \<Rightarrow> r = Inl e | Inr (a, t) \<Rightarrow> r = Inr a \<and> st_tabs s' = t"
    using computes_quiet [OF assms(1) _ run] assms(2) by simp_all
  have eq: "s'\<lparr>st_base := None\<rparr> = s\<lparr>st_tabs := st_tabs s'\<rparr>"
    "s'\<lparr>st_tabs := st_tabs s, st_base := None\<rparr> = s"
    using s' assms(2,3) by (simp_all add: quiet_def)
  show ?thesis
    using assms(2) s' eq
    by (auto simp: in_tx_def tx_begin_def tx_commit_def tx_rollback_def quiet_tick run
        split: sum.splits)
qed

text \<open>A transaction among others: what it commits is what its body computes.\<close>

context rely_guarantee
begin

lemma computed_tx_rule:
  assumes "computes body g"
    and "stable R P"
    and "\<And>t a t'. P t \<Longrightarrow> g t = Inr (a, t') \<Longrightarrow>
        R t t' \<and> Q (Inr a) t' \<and> (\<forall>e. Q (Inl e) t')"
    and "\<And>t e. P t \<Longrightarrow> Q (Inl e) t"
  shows "rg R P (in_tx wb wc body) Q"
proof (rule in_tx_rule)
  fix t0 assume "P t0"
  show "txr (\<lambda>t b. t = t0 \<and> b = t0) body
      (\<lambda>r t b. R t0 b \<and> (case r of Inl e \<Rightarrow> Q (Inl e) b
        | Inr a \<Rightarrow> R t0 t \<and> Q (Inr a) t \<and> (\<forall>e. Q (Inl (wc (Plain e))) t \<and> Q (Inl (wc (Plain e))) b)))"
    by (rule txr_conseq [OF computes_txr [OF assms(1), of t0 t0]]) (use assms(3,4) \<open>P t0\<close> in \<open>auto simp: reflexive split: sum.splits\<close>)
qed (use assms in auto)

end

end
