(* ===== verification/UsageBilling.thy ===== *)
theory UsageBilling
  imports Subscriptions Sidecar Atomic
begin

section \<open>Charging for usage\<close>

text \<open>
  \<open>service/usage_billing.go\<close> and \<open>repository/usage_billing_repo.go\<close>: one transaction claims the key of
  a request (its id and API key) and charges it: the subscription, the balance, the quota and the
  rate-limit windows of the key, the quota of the upstream account.  The claim is the unique index of
  the dedup table, or the archive its old rows are moved to.

  Two transactions on one key exclude each other on the unique index, so a transaction runs without
  interference; between transactions others charge requests of theirs, and old keys are archived.
\<close>

subsection \<open>The command and its fingerprint\<close>

record usage_command =
  uc_request_id :: string
  uc_api_key_id :: int64
  uc_fingerprint :: string
  uc_payload_hash :: string
  uc_user_id :: int64
  uc_account_id :: int64
  uc_subscription_id :: "int64 option"
  uc_account_type :: string
  uc_model :: string
  uc_service_tier :: string
  uc_reasoning_effort :: string
  uc_billing_type :: int
  uc_input_tokens :: int
  uc_output_tokens :: int
  uc_cache_creation_tokens :: int
  uc_cache_read_tokens :: int
  uc_image_count :: int
  uc_media_type :: string
  uc_balance_cost :: rat
  uc_subscription_cost :: rat
  uc_api_key_quota_cost :: rat
  uc_api_key_rate_limit_cost :: rat
  uc_account_quota_cost :: rat

definition format_10f :: "rat \<Rightarrow> string" where
  "format_10f x = (if x < 0 then CHR ''-'' # format_cost (- x) else format_cost x)"

fun join_bars :: "string list \<Rightarrow> string" where
  "join_bars [] = []"
| "join_bars [s] = s"
| "join_bars (s # ss) = s @ ''|'' @ join_bars ss"

text \<open>The text that is hashed; the hash (SHA-256 in hexadecimal) is a parameter.\<close>

definition usage_billing_text :: "usage_command \<Rightarrow> string" where
  "usage_billing_text c =
     (let raw = join_bars
        [itoa (uc_user_id c), itoa (uc_account_id c), itoa (uc_api_key_id c),
         trim_space (uc_account_type c), trim_space (uc_model c), trim_space (uc_service_tier c),
         trim_space (uc_reasoning_effort c), itoa (uc_billing_type c), itoa (uc_input_tokens c),
         itoa (uc_output_tokens c), itoa (uc_cache_creation_tokens c), itoa (uc_cache_read_tokens c),
         itoa (uc_image_count c), trim_space (uc_media_type c),
         itoa (case uc_subscription_id c of None \<Rightarrow> 0 | Some i \<Rightarrow> i),
         format_10f (uc_balance_cost c), format_10f (uc_subscription_cost c),
         format_10f (uc_api_key_quota_cost c), format_10f (uc_api_key_rate_limit_cost c),
         format_10f (uc_account_quota_cost c)];
          payload = trim_space (uc_payload_hash c)
      in if payload = [] then raw else raw @ ''|'' @ payload)"

definition build_usage_billing_fingerprint :: "(string \<Rightarrow> string) \<Rightarrow> usage_command \<Rightarrow> string" where
  "build_usage_billing_fingerprint hash c = hash (usage_billing_text c)"

definition normalize_command :: "(string \<Rightarrow> string) \<Rightarrow> usage_command \<Rightarrow> usage_command" where
  "normalize_command hash c =
     (let c1 = c\<lparr>uc_request_id := trim_space (uc_request_id c)\<rparr> in
      if trim_space (uc_fingerprint c1) = []
      then c1\<lparr>uc_fingerprint := build_usage_billing_fingerprint hash c1\<rparr> else c1)"

subsection \<open>The tables\<close>

record dedup_row =
  dd_request_id :: string
  dd_api_key_id :: int64
  dd_fingerprint :: string
  dd_created_at :: time

record usage_window =
  uw_used :: rat
  uw_start :: "time option"

record api_key_row =
  ak_quota :: rat
  ak_quota_used :: rat
  ak_status :: string
  ak_5h :: usage_window
  ak_1d :: usage_window
  ak_7d :: usage_window

text \<open>The quota part of an account's \<open>extra\<close> column; \<open>None\<close> is a missing member.\<close>

record quota_window =
  qw_limit :: "rat option"
  qw_used :: "rat option"
  qw_start :: "time option"
  qw_mode :: "string option"
  qw_reset_at :: "time option"
  qw_reset_hour :: "int option"

record account_quota =
  aq_used :: "rat option"
  aq_limit :: "rat option"
  aq_timezone :: "string option"
  aq_daily :: quota_window
  aq_weekly :: quota_window
  aq_weekly_day :: "int option"

record sub_usage =
  su_group_id :: int64
  su_daily :: rat
  su_weekly :: rat
  su_monthly :: rat

record usage_tables =
  ut_now :: time
  ut_dedup :: "dedup_row list"
  ut_archive :: "dedup_row list"
  ut_balance :: "int64 \<rightharpoonup> rat"
  ut_groups :: "int64 \<Rightarrow> bool"
  ut_subs :: "int64 \<rightharpoonup> sub_usage"
  ut_keys :: "int64 \<rightharpoonup> api_key_row"
  ut_accounts :: "int64 \<rightharpoonup> account_quota"
  ut_outbox :: "int64 list"

type_synonym usage_store = "usage_tables store"

text \<open>The hash, the zone of the session and the offsets of the named zones (without their changes).\<close>

record usage_env =
  ue_hash :: "string \<Rightarrow> string"
  ue_tz :: duration
  ue_zone :: "string \<Rightarrow> duration"

record quota_state =
  qs_total_used :: rat
  qs_total_limit :: rat
  qs_daily_used :: rat
  qs_daily_limit :: rat
  qs_weekly_used :: rat
  qs_weekly_limit :: rat

record apply_result =
  ar_applied :: bool
  ar_quota_exhausted :: bool
  ar_new_balance :: "rat option"
  ar_overdrafted :: bool
  ar_quota_state :: "quota_state option"

definition not_applied :: apply_result where
  "not_applied = \<lparr>ar_applied = False, ar_quota_exhausted = False, ar_new_balance = None, ar_overdrafted = False,
     ar_quota_state = None\<rparr>"

subsection \<open>The quota of an account\<close>

abbreviation or_zero :: "rat option \<Rightarrow> rat" where
  "or_zero x \<equiv> case x of None \<Rightarrow> 0 | Some v \<Rightarrow> v"

abbreviation or_epoch :: "time option \<Rightarrow> time" where
  "or_epoch x \<equiv> case x of None \<Rightarrow> 0 | Some t \<Rightarrow> t"

definition fixed_mode :: "quota_window \<Rightarrow> bool" where
  "fixed_mode w \<longleftrightarrow> qw_mode w = Some ''fixed''"

definition quota_expired :: "time \<Rightarrow> duration \<Rightarrow> quota_window \<Rightarrow> bool" where
  "quota_expired n period w \<longleftrightarrow>
     (if fixed_mode w then or_epoch (qw_reset_at w) \<le> n else or_epoch (qw_start w) + period \<le> n)"

definition todays_reset :: "duration \<Rightarrow> quota_window \<Rightarrow> time \<Rightarrow> time" where
  "todays_reset off w n =
     start_of_day off n + (case qw_reset_hour w of None \<Rightarrow> 0 | Some h \<Rightarrow> h) * hour"

definition next_daily_reset_at :: "duration \<Rightarrow> quota_window \<Rightarrow> time \<Rightarrow> time option" where
  "next_daily_reset_at off w n =
     (if fixed_mode w then
        let t = todays_reset off w n in Some (if t \<le> n then t + day else t)
      else None)"

text \<open>The day of the week of a moment, Sunday being 0.\<close>

definition day_of_week :: "duration \<Rightarrow> time \<Rightarrow> int" where
  "day_of_week off n = ((n + off) div day + 4) mod 7"

definition next_weekly_reset_at :: "duration \<Rightarrow> int option \<Rightarrow> quota_window \<Rightarrow> time \<Rightarrow> time option" where
  "next_weekly_reset_at off target w n =
     (if fixed_mode w then
        let t = todays_reset off w n;
            ahead = (case target of None \<Rightarrow> 1 | Some d \<Rightarrow> d) - day_of_week off n + 7;
            df = ahead - go_div ahead 7 * 7
        in Some (if df = 0 \<and> t \<le> n then t + 7 * day else t + df * day)
      else None)"

definition spend_window :: "time \<Rightarrow> duration \<Rightarrow> time option \<Rightarrow> rat \<Rightarrow> quota_window \<Rightarrow> quota_window" where
  "spend_window n period next_reset amount w =
     (if or_zero (qw_limit w) \<le> 0 then w
      else
        let expired = quota_expired n period w in
        w\<lparr>qw_used := Some (if expired then amount else or_zero (qw_used w) + amount),
          qw_start := Some (if expired then n else (case qw_start w of None \<Rightarrow> n | Some t \<Rightarrow> t)),
          qw_reset_at := (if expired \<and> next_reset \<noteq> None then next_reset else qw_reset_at w)\<rparr>)"

definition spend_quota :: "usage_env \<Rightarrow> time \<Rightarrow> rat \<Rightarrow> account_quota \<Rightarrow> account_quota" where
  "spend_quota env n amount q =
     (let off = ue_zone env (case aq_timezone q of None \<Rightarrow> ''UTC'' | Some z \<Rightarrow> z) in
      q\<lparr>aq_used := Some (or_zero (aq_used q) + amount),
        aq_daily := spend_window n day (next_daily_reset_at off (aq_daily q) n) amount (aq_daily q),
        aq_weekly := spend_window n (7 * day) (next_weekly_reset_at off (aq_weekly_day q) (aq_weekly q) n) amount (aq_weekly q)\<rparr>)"

definition quota_state_of :: "account_quota \<Rightarrow> quota_state" where
  "quota_state_of q = \<lparr>qs_total_used = or_zero (aq_used q), qs_total_limit = or_zero (aq_limit q),
     qs_daily_used = or_zero (qw_used (aq_daily q)), qs_daily_limit = or_zero (qw_limit (aq_daily q)),
     qs_weekly_used = or_zero (qw_used (aq_weekly q)), qs_weekly_limit = or_zero (qw_limit (aq_weekly q))\<rparr>"

definition crossed :: "rat \<Rightarrow> rat \<Rightarrow> rat \<Rightarrow> bool" where
  "crossed limit used amount \<longleftrightarrow> 0 < limit \<and> limit \<le> used \<and> used - amount < limit"

definition crossed_any :: "quota_state \<Rightarrow> rat \<Rightarrow> bool" where
  "crossed_any q amount \<longleftrightarrow> crossed (qs_total_limit q) (qs_total_used q) amount \<or>
     crossed (qs_daily_limit q) (qs_daily_used q) amount \<or> crossed (qs_weekly_limit q) (qs_weekly_used q) amount"

subsection \<open>The statements\<close>

definition find_dedup :: "string \<Rightarrow> int64 \<Rightarrow> dedup_row list \<Rightarrow> dedup_row option" where
  "find_dedup rid kid rows = List.find (\<lambda>d. dd_request_id d = rid \<and> dd_api_key_id d = kid) rows"

definition no_rows :: go_error where
  "no_rows = Plain ''sql: no rows in result set''"

text \<open>\<open>INSERT .. ON CONFLICT DO NOTHING RETURNING id\<close>: whether a row was inserted.\<close>

definition insert_dedup :: "usage_command \<Rightarrow> usage_tables \<Rightarrow> (go_error + bool) \<times> usage_tables" where
  "insert_dedup c t =
     (if find_dedup (uc_request_id c) (uc_api_key_id c) (ut_dedup t) \<noteq> None then (Inr False, t)
      else (Inr True, t\<lparr>ut_dedup := ut_dedup t @ [\<lparr>dd_request_id = uc_request_id c, dd_api_key_id = uc_api_key_id c,
        dd_fingerprint = uc_fingerprint c, dd_created_at = ut_now t\<rparr>]\<rparr>))"

definition select_dedup :: "usage_command \<Rightarrow> usage_tables \<Rightarrow> (go_error + string) \<times> usage_tables" where
  "select_dedup c t = (case find_dedup (uc_request_id c) (uc_api_key_id c) (ut_dedup t) of
     None \<Rightarrow> (Inl no_rows, t) | Some d \<Rightarrow> (Inr (dd_fingerprint d), t))"

definition select_archive :: "usage_command \<Rightarrow> usage_tables \<Rightarrow> (go_error + string option) \<times> usage_tables" where
  "select_archive c t =
     (Inr (map_option dd_fingerprint (find_dedup (uc_request_id c) (uc_api_key_id c) (ut_archive t))), t)"

definition err_request_conflict :: go_error where
  "err_request_conflict = Plain ''usage billing request fingerprint conflict''"

definition err_request_id_required :: go_error where
  "err_request_id_required = Plain ''usage billing request_id is required''"

definition same_fingerprint :: "string \<Rightarrow> usage_command \<Rightarrow> go_error + bool" where
  "same_fingerprint f c =
     (if trim_space f \<noteq> trim_space (uc_fingerprint c) then Inl err_request_conflict else Inr False)"

definition claim_usage_billing_key :: "usage_command \<Rightarrow> (usage_store, bool) fallible" where
  "claim_usage_billing_key c =
     tryM (\<lambda>e. e) (stmt (insert_dedup c)) (\<lambda>inserted.
       if \<not> inserted then
         tryM (\<lambda>e. e) (stmt (select_dedup c)) (\<lambda>f. State_Monad.return (same_fingerprint f c))
       else tryM (\<lambda>e. e) (stmt (select_archive c)) (\<lambda>a. case a of
           Some f \<Rightarrow> State_Monad.return (same_fingerprint f c)
         | None \<Rightarrow> okM True))"

definition spend_subscription :: "rat \<Rightarrow> sub_usage \<Rightarrow> sub_usage" where
  "spend_subscription cost s = s\<lparr>su_daily := numeric 10 (su_daily s + cost),
     su_weekly := numeric 10 (su_weekly s + cost), su_monthly := numeric 10 (su_monthly s + cost)\<rparr>"

definition increment_subscription :: "int64 \<Rightarrow> rat \<Rightarrow> usage_tables \<Rightarrow> (go_error + unit) \<times> usage_tables" where
  "increment_subscription i cost t = (case ut_subs t i of
     Some s \<Rightarrow>
       if ut_groups t (su_group_id s)
       then (Inr (), t\<lparr>ut_subs := (ut_subs t)(i \<mapsto> spend_subscription cost s)\<rparr>)
       else (Inl (App err_subscription_not_found), t)
   | None \<Rightarrow> (Inl (App err_subscription_not_found), t))"

text \<open>The guarded update, and the one that records the debt when the balance does not suffice.\<close>

definition take_balance :: "(rat \<Rightarrow> bool) \<Rightarrow> int64 \<Rightarrow> rat \<Rightarrow> usage_tables \<Rightarrow> (go_error + rat option) \<times> usage_tables" where
  "take_balance guard uid amount t = (case ut_balance t uid of
     Some b \<Rightarrow>
       if guard b
       then (Inr (Some (numeric 8 (b - amount))), t\<lparr>ut_balance := (ut_balance t)(uid \<mapsto> numeric 8 (b - amount))\<rparr>)
       else (Inr None, t)
   | None \<Rightarrow> (Inr None, t))"

definition deduct_usage_balance :: "int64 \<Rightarrow> rat \<Rightarrow> (usage_store, rat \<times> bool) fallible" where
  "deduct_usage_balance uid amount =
     tryM (\<lambda>e. e) (stmt (take_balance (\<lambda>b. amount \<le> b) uid amount)) (\<lambda>r. case r of
       Some b \<Rightarrow> okM (b, True)
     | None \<Rightarrow> tryM (\<lambda>e. e) (stmt (take_balance (\<lambda>_. True) uid amount)) (\<lambda>r. case r of
         Some b \<Rightarrow> okM (b, False)
       | None \<Rightarrow> failM (App err_user_not_found)))"

definition err_api_key_not_found :: app_error where
  "err_api_key_not_found = not_found ''API_KEY_NOT_FOUND'' ''api key not found''"

definition err_account_not_found :: app_error where
  "err_account_not_found = not_found ''ACCOUNT_NOT_FOUND'' ''account not found''"

definition spend_key_quota :: "rat \<Rightarrow> api_key_row \<Rightarrow> api_key_row" where
  "spend_key_quota amount k = k\<lparr>ak_quota_used := numeric 8 (ak_quota_used k + amount),
     ak_status := (if 0 < ak_quota k \<and> ak_status k = ''active'' \<and> ak_quota_used k < ak_quota k \<and>
         ak_quota k \<le> ak_quota_used k + amount then ''quota_exhausted'' else ak_status k)\<rparr>"

text \<open>The value returned, of the row after the update: this very update crossed the quota.\<close>

definition key_exhausted :: "rat \<Rightarrow> api_key_row \<Rightarrow> bool" where
  "key_exhausted amount k \<longleftrightarrow> 0 < ak_quota k \<and> ak_quota k \<le> ak_quota_used k \<and> ak_quota_used k - amount < ak_quota k"

definition increment_key_quota :: "int64 \<Rightarrow> rat \<Rightarrow> usage_tables \<Rightarrow> (go_error + bool) \<times> usage_tables" where
  "increment_key_quota kid amount t = (case ut_keys t kid of
     None \<Rightarrow> (Inl (App err_api_key_not_found), t)
   | Some k \<Rightarrow>
       (Inr (key_exhausted amount (spend_key_quota amount k)),
        t\<lparr>ut_keys := (ut_keys t)(kid \<mapsto> spend_key_quota amount k)\<rparr>))"

definition spend_rate_window :: "time \<Rightarrow> duration \<Rightarrow> time \<Rightarrow> rat \<Rightarrow> usage_window \<Rightarrow> usage_window" where
  "spend_rate_window n period fresh_start cost w =
     (let expired = (case uw_start w of None \<Rightarrow> False | Some t \<Rightarrow> t + period \<le> n) in
      \<lparr>uw_used = numeric 8 (if expired then cost else uw_used w + cost),
       uw_start = (if uw_start w = None \<or> expired then Some fresh_start else uw_start w)\<rparr>)"

definition spend_key_windows :: "duration \<Rightarrow> time \<Rightarrow> rat \<Rightarrow> api_key_row \<Rightarrow> api_key_row" where
  "spend_key_windows tz n cost k = k\<lparr>
     ak_5h := spend_rate_window n (5 * hour) n cost (ak_5h k),
     ak_1d := spend_rate_window n (24 * hour) (start_of_day tz n) cost (ak_1d k),
     ak_7d := spend_rate_window n (7 * day) (start_of_day tz n) cost (ak_7d k)\<rparr>"

definition increment_key_rate_limit :: "usage_env \<Rightarrow> int64 \<Rightarrow> rat \<Rightarrow> usage_tables \<Rightarrow> (go_error + unit) \<times> usage_tables" where
  "increment_key_rate_limit env kid cost t = (case ut_keys t kid of
     None \<Rightarrow> (Inl (App err_api_key_not_found), t)
   | Some k \<Rightarrow> (Inr (), t\<lparr>ut_keys := (ut_keys t)(kid \<mapsto> spend_key_windows (ue_tz env) (ut_now t) cost k)\<rparr>))"

definition increment_account_quota :: "usage_env \<Rightarrow> int64 \<Rightarrow> rat \<Rightarrow> usage_tables \<Rightarrow> (go_error + quota_state) \<times> usage_tables" where
  "increment_account_quota env aid amount t = (case ut_accounts t aid of
     None \<Rightarrow> (Inl (App err_account_not_found), t)
   | Some q \<Rightarrow>
       let q' = spend_quota env (ut_now t) amount q in
       (Inr (quota_state_of q'), t\<lparr>ut_accounts := (ut_accounts t)(aid \<mapsto> q')\<rparr>))"

definition enqueue_outbox :: "int64 \<Rightarrow> usage_tables \<Rightarrow> (go_error + unit) \<times> usage_tables" where
  "enqueue_outbox aid t = (Inr (), t\<lparr>ut_outbox := ut_outbox t @ [aid]\<rparr>)"

definition charge_account_quota :: "usage_env \<Rightarrow> int64 \<Rightarrow> rat \<Rightarrow> (usage_store, quota_state) fallible" where
  "charge_account_quota env aid amount =
     tryM (\<lambda>e. e) (stmt (increment_account_quota env aid amount)) (\<lambda>q.
       if crossed_any q amount
       then tryM (\<lambda>e. e) (stmt (enqueue_outbox aid)) (\<lambda>_. okM q)
       else okM q)"

subsection \<open>Apply\<close>

definition charges_account :: "usage_command \<Rightarrow> bool" where
  "charges_account c \<longleftrightarrow> 0 < uc_account_quota_cost c \<and>
     (equal_fold (uc_account_type c) ''apikey'' \<or> equal_fold (uc_account_type c) ''bedrock'')"

definition apply_usage_billing_effects :: "usage_env \<Rightarrow> usage_command \<Rightarrow> (usage_store, apply_result) fallible" where
  "apply_usage_billing_effects env c =
     tryM (\<lambda>e. e)
       (case uc_subscription_id c of
          Some i \<Rightarrow> if 0 < uc_subscription_cost c then stmt (increment_subscription i (uc_subscription_cost c)) else okM ()
        | None \<Rightarrow> okM ()) (\<lambda>_.
     tryM (\<lambda>e. e)
       (if 0 < uc_balance_cost c
        then tryM (\<lambda>e. e) (deduct_usage_balance (uc_user_id c) (uc_balance_cost c)) (\<lambda>(b, sufficient). okM (Some b, \<not> sufficient))
        else okM (None, False)) (\<lambda>(balance, overdraft).
     tryM (\<lambda>e. e)
       (if 0 < uc_api_key_quota_cost c then stmt (increment_key_quota (uc_api_key_id c) (uc_api_key_quota_cost c)) else okM False) (\<lambda>exhausted.
     tryM (\<lambda>e. e)
       (if 0 < uc_api_key_rate_limit_cost c
        then stmt (increment_key_rate_limit env (uc_api_key_id c) (uc_api_key_rate_limit_cost c)) else okM ()) (\<lambda>_.
     tryM (\<lambda>e. e)
       (if charges_account c
        then tryM (\<lambda>e. e) (charge_account_quota env (uc_account_id c) (uc_account_quota_cost c)) (\<lambda>q. okM (Some q))
        else okM None) (\<lambda>quota.
     okM \<lparr>ar_applied = True, ar_quota_exhausted = exhausted, ar_new_balance = balance, ar_overdrafted = overdraft,
       ar_quota_state = quota\<rparr>)))))"

text \<open>
  The transaction is rolled back when the key was claimed before, which is not an error.  So that the
  transaction can tell, its own errors carry a tag that is taken off after it.
\<close>

definition tagged :: "go_error \<Rightarrow> go_error" where
  "tagged e = Wrapped [] e"

definition already_claimed :: go_error where
  "already_claimed = Plain []"

fun untagged :: "go_error + apply_result \<Rightarrow> go_error + apply_result" where
  "untagged (Inr r) = Inr r"
| "untagged (Inl (Wrapped _ e)) = Inl e"
| "untagged (Inl _) = Inr not_applied"

definition apply_body :: "usage_env \<Rightarrow> usage_command \<Rightarrow> (usage_store, apply_result) fallible" where
  "apply_body env c =
     tryM tagged (claim_usage_billing_key c) (\<lambda>claimed.
       if \<not> claimed then failM already_claimed
       else tryM tagged (apply_usage_billing_effects env c) okM)"

definition apply_usage :: "usage_env \<Rightarrow> usage_command \<Rightarrow> (usage_store, apply_result) fallible" where
  "apply_usage env cmd =
     (let c = normalize_command (ue_hash env) cmd in
      if uc_request_id c = [] then failM err_request_id_required
      else do {
        r \<leftarrow> in_tx tagged tagged (apply_body env c);
        State_Monad.return (untagged r) })"

subsection \<open>Archiving old keys\<close>

text \<open>
  One batch of \<open>CleanupUsageBillingDedup\<close>: at most \<open>n\<close> rows older than the cutoff, in the order of the
  table; the number of rows moved.
\<close>

definition archive_batch :: "nat \<Rightarrow> time \<Rightarrow> usage_tables \<Rightarrow> (go_error + nat) \<times> usage_tables" where
  "archive_batch n cutoff t =
     (let victims = take n (filter (\<lambda>d. dd_created_at d < cutoff) (ut_dedup t));
          fresh = filter (\<lambda>d. find_dedup (dd_request_id d) (dd_api_key_id d) (ut_archive t) = None) victims
      in (Inr (length victims),
          t\<lparr>ut_archive := ut_archive t @ fresh, ut_dedup := filter (\<lambda>d. d \<notin> set victims) (ut_dedup t)\<rparr>))"

text \<open>The loop over the batches, with the number of batches it may take.\<close>

fun cleanup_dedup :: "nat \<Rightarrow> nat \<Rightarrow> time \<Rightarrow> (usage_store, unit) fallible" where
  "cleanup_dedup 0 n cutoff = okM ()"
| "cleanup_dedup (Suc k) n cutoff =
     tryM (\<lambda>e. e) (stmt (archive_batch n cutoff)) (\<lambda>moved. if moved < n then okM () else cleanup_dedup k n cutoff)"

subsection \<open>What a charge is\<close>

text \<open>
  The reference definition: a key that was claimed before keeps its fingerprint; a charge writes the
  claim and every row at once, or nothing when a row is missing.
\<close>

type_synonym usage_key = "string \<times> int64"

definition usage_key :: "usage_command \<Rightarrow> usage_key" where
  "usage_key c = (uc_request_id c, uc_api_key_id c)"

definition dedup_key :: "dedup_row \<Rightarrow> usage_key" where
  "dedup_key d = (dd_request_id d, dd_api_key_id d)"

definition claimed :: "usage_tables \<Rightarrow> usage_key set" where
  "claimed t = dedup_key ` (set (ut_dedup t) \<union> set (ut_archive t))"

definition claim_of :: "usage_command \<Rightarrow> usage_tables \<Rightarrow> string option" where
  "claim_of c t = map_option dd_fingerprint
     (case find_dedup (uc_request_id c) (uc_api_key_id c) (ut_dedup t) of
        Some d \<Rightarrow> Some d | None \<Rightarrow> find_dedup (uc_request_id c) (uc_api_key_id c) (ut_archive t))"

definition upd_at :: "'k \<Rightarrow> ('v \<Rightarrow> 'v) \<Rightarrow> ('k \<rightharpoonup> 'v) \<Rightarrow> ('k \<rightharpoonup> 'v)" where
  "upd_at k f m = (case m k of None \<Rightarrow> m | Some v \<Rightarrow> m(k \<mapsto> f v))"

definition paying :: "rat \<Rightarrow> ('v \<Rightarrow> 'v) \<Rightarrow> 'v \<Rightarrow> 'v" where
  "paying cost f v = (if 0 < cost then f v else v)"

definition charged_accounts :: "usage_env \<Rightarrow> usage_command \<Rightarrow> usage_tables \<Rightarrow> (int64 \<rightharpoonup> account_quota)" where
  "charged_accounts env c t = (if charges_account c
     then upd_at (uc_account_id c) (spend_quota env (ut_now t) (uc_account_quota_cost c)) (ut_accounts t)
     else ut_accounts t)"

definition charged_quota_state :: "usage_env \<Rightarrow> usage_command \<Rightarrow> usage_tables \<Rightarrow> quota_state option" where
  "charged_quota_state env c t =
     (if charges_account c then map_option quota_state_of (charged_accounts env c t (uc_account_id c)) else None)"

definition charge :: "usage_env \<Rightarrow> usage_command \<Rightarrow> usage_tables \<Rightarrow> usage_tables" where
  "charge env c t = t\<lparr>
     ut_dedup := ut_dedup t @ [\<lparr>dd_request_id = uc_request_id c, dd_api_key_id = uc_api_key_id c,
       dd_fingerprint = uc_fingerprint c, dd_created_at = ut_now t\<rparr>],
     ut_subs := (case uc_subscription_id c of None \<Rightarrow> ut_subs t | Some i \<Rightarrow>
       paying (uc_subscription_cost c) (upd_at i (spend_subscription (uc_subscription_cost c))) (ut_subs t)),
     ut_balance := paying (uc_balance_cost c)
       (upd_at (uc_user_id c) (\<lambda>b. numeric 8 (b - uc_balance_cost c))) (ut_balance t),
     ut_keys := paying (uc_api_key_rate_limit_cost c)
       (upd_at (uc_api_key_id c) (spend_key_windows (ue_tz env) (ut_now t) (uc_api_key_rate_limit_cost c)))
       (paying (uc_api_key_quota_cost c)
         (upd_at (uc_api_key_id c) (spend_key_quota (uc_api_key_quota_cost c))) (ut_keys t)),
     ut_accounts := charged_accounts env c t,
     ut_outbox := ut_outbox t @ (case charged_quota_state env c t of
       Some q \<Rightarrow> if crossed_any q (uc_account_quota_cost c) then [uc_account_id c] else [] | None \<Rightarrow> [])\<rparr>"

text \<open>The error of the first row that is missing, in the order of the statements.\<close>

definition missing_row :: "usage_command \<Rightarrow> usage_tables \<Rightarrow> go_error option" where
  "missing_row c t =
     (if 0 < uc_subscription_cost c \<and> (case uc_subscription_id c of None \<Rightarrow> False | Some i \<Rightarrow>
          (case ut_subs t i of None \<Rightarrow> True | Some s \<Rightarrow> \<not> ut_groups t (su_group_id s)))
      then Some (App err_subscription_not_found)
      else if 0 < uc_balance_cost c \<and> ut_balance t (uc_user_id c) = None then Some (App err_user_not_found)
      else if (0 < uc_api_key_quota_cost c \<or> 0 < uc_api_key_rate_limit_cost c) \<and> ut_keys t (uc_api_key_id c) = None
      then Some (App err_api_key_not_found)
      else if charges_account c \<and> ut_accounts t (uc_account_id c) = None then Some (App err_account_not_found)
      else None)"

text \<open>What the caller is told: the balance left, debts, and the quotas after the charge.\<close>

definition charge_result :: "usage_env \<Rightarrow> usage_command \<Rightarrow> usage_tables \<Rightarrow> apply_result" where
  "charge_result env c t =
     \<lparr>ar_applied = True,
      ar_quota_exhausted = (0 < uc_api_key_quota_cost c \<and> (case ut_keys t (uc_api_key_id c) of None \<Rightarrow> False | Some k \<Rightarrow>
        key_exhausted (uc_api_key_quota_cost c) (spend_key_quota (uc_api_key_quota_cost c) k))),
      ar_new_balance = (if 0 < uc_balance_cost c then ut_balance (charge env c t) (uc_user_id c) else None),
      ar_overdrafted = (0 < uc_balance_cost c \<and>
        (case ut_balance t (uc_user_id c) of None \<Rightarrow> False | Some b \<Rightarrow> b < uc_balance_cost c)),
      ar_quota_state = charged_quota_state env c t\<rparr>"

definition apply_spec :: "usage_env \<Rightarrow> usage_command \<Rightarrow> (usage_tables, apply_result) compute" where
  "apply_spec env c t = (case claim_of c t of
     Some f \<Rightarrow> if trim_space f = trim_space (uc_fingerprint c) then Inr (not_applied, t) else Inl err_request_conflict
   | None \<Rightarrow> (case missing_row c t of Some e \<Rightarrow> Inl e | None \<Rightarrow> Inr (charge_result env c t, charge env c t)))"

subsection \<open>The transaction computes the charge\<close>

definition claim_spec :: "usage_command \<Rightarrow> (usage_tables, bool) compute" where
  "claim_spec c t = (case claim_of c t of
     Some f \<Rightarrow> (if trim_space f = trim_space (uc_fingerprint c)
       then Inr (False, snd (insert_dedup c t)) else Inl err_request_conflict)
   | None \<Rightarrow> Inr (True, snd (insert_dedup c t)))"

lemma computes_claim: "computes (claim_usage_billing_key c) (claim_spec c)"
proof -
  have "claim_spec c = andthen (\<lambda>e. e) (stated (insert_dedup c)) (\<lambda>inserted.
     if \<not> inserted then andthen (\<lambda>e. e) (stated (select_dedup c))
       (\<lambda>f. case same_fingerprint f c of Inl e \<Rightarrow> stops e | Inr a \<Rightarrow> done_with a)
     else andthen (\<lambda>e. e) (stated (select_archive c)) (\<lambda>a. case a of
         None \<Rightarrow> done_with True
       | Some f \<Rightarrow> (case same_fingerprint f c of Inl e \<Rightarrow> stops e | Inr a \<Rightarrow> done_with a)))"
    by (rule ext) (auto simp: compute_defs claim_spec_def claim_of_def insert_dedup_def select_dedup_def
        select_archive_def same_fingerprint_def split: option.splits)
  then show ?thesis
    unfolding claim_usage_billing_key_def by (auto intro!: computes_rules)
qed

lemma computes_deduct:
  "computes (deduct_usage_balance uid amount) (\<lambda>t. case ut_balance t uid of
     None \<Rightarrow> Inl (App err_user_not_found)
   | Some b \<Rightarrow> Inr ((numeric 8 (b - amount), amount \<le> b), t\<lparr>ut_balance := (ut_balance t)(uid \<mapsto> numeric 8 (b - amount))\<rparr>))"
  (is "computes _ ?g")
proof -
  have "?g = andthen (\<lambda>e. e) (stated (take_balance (\<lambda>b. amount \<le> b) uid amount)) (\<lambda>r. case r of
      None \<Rightarrow> andthen (\<lambda>e. e) (stated (take_balance (\<lambda>_. True) uid amount)) (\<lambda>r. case r of
        None \<Rightarrow> stops (App err_user_not_found) | Some b \<Rightarrow> done_with (b, False))
    | Some b \<Rightarrow> done_with (b, True))"
    by (rule ext) (auto simp: compute_defs take_balance_def split: option.splits)
  then show ?thesis
    unfolding deduct_usage_balance_def by (auto intro!: computes_rules)
qed

lemma computes_account:
  "computes (charge_account_quota env aid amount) (\<lambda>t. case ut_accounts t aid of
     None \<Rightarrow> Inl (App err_account_not_found)
   | Some q \<Rightarrow> let q' = spend_quota env (ut_now t) amount q in
       Inr (quota_state_of q', t\<lparr>ut_accounts := (ut_accounts t)(aid \<mapsto> q'),
         ut_outbox := ut_outbox t @ (if crossed_any (quota_state_of q') amount then [aid] else [])\<rparr>))"
  (is "computes _ ?g")
proof -
  have "?g = andthen (\<lambda>e. e) (stated (increment_account_quota env aid amount)) (\<lambda>q.
       if crossed_any q amount then andthen (\<lambda>e. e) (stated (enqueue_outbox aid)) (\<lambda>_. done_with q) else done_with q)"
    by (rule ext) (auto simp: compute_defs increment_account_quota_def enqueue_outbox_def Let_def split: option.splits)
  then show ?thesis
    unfolding charge_account_quota_def by (auto intro!: computes_rules)
qed

text \<open>The five effects, each a function on one of the tables.\<close>

definition subscription_stage :: "usage_command \<Rightarrow> (usage_tables, unit) compute" where
  "subscription_stage c = (case uc_subscription_id c of
     None \<Rightarrow> done_with ()
   | Some i \<Rightarrow> if 0 < uc_subscription_cost c then stated (increment_subscription i (uc_subscription_cost c)) else done_with ())"

definition balance_stage :: "usage_command \<Rightarrow> (usage_tables, rat option \<times> bool) compute" where
  "balance_stage c = (if 0 < uc_balance_cost c
     then (\<lambda>t. case ut_balance t (uc_user_id c) of
         None \<Rightarrow> Inl (App err_user_not_found)
       | Some b \<Rightarrow> Inr ((Some (numeric 8 (b - uc_balance_cost c)), b < uc_balance_cost c),
           t\<lparr>ut_balance := (ut_balance t)(uc_user_id c \<mapsto> numeric 8 (b - uc_balance_cost c))\<rparr>))
     else done_with (None, False))"

definition account_stage :: "usage_env \<Rightarrow> usage_command \<Rightarrow> (usage_tables, quota_state option) compute" where
  "account_stage env c = (if charges_account c
     then (\<lambda>t. case ut_accounts t (uc_account_id c) of
         None \<Rightarrow> Inl (App err_account_not_found)
       | Some q \<Rightarrow> let q' = spend_quota env (ut_now t) (uc_account_quota_cost c) q in
           Inr (Some (quota_state_of q'), t\<lparr>ut_accounts := (ut_accounts t)(uc_account_id c \<mapsto> q'),
             ut_outbox := ut_outbox t @
               (if crossed_any (quota_state_of q') (uc_account_quota_cost c) then [uc_account_id c] else [])\<rparr>))
     else done_with None)"

definition effects_spec :: "usage_env \<Rightarrow> usage_command \<Rightarrow> (usage_tables, apply_result) compute" where
  "effects_spec env c =
     andthen (\<lambda>e. e) (subscription_stage c) (\<lambda>_.
     andthen (\<lambda>e. e) (balance_stage c) (\<lambda>(balance, overdraft).
     andthen (\<lambda>e. e) (if 0 < uc_api_key_quota_cost c
       then stated (increment_key_quota (uc_api_key_id c) (uc_api_key_quota_cost c)) else done_with False) (\<lambda>exhausted.
     andthen (\<lambda>e. e) (if 0 < uc_api_key_rate_limit_cost c
       then stated (increment_key_rate_limit env (uc_api_key_id c) (uc_api_key_rate_limit_cost c)) else done_with ()) (\<lambda>_.
     andthen (\<lambda>e. e) (account_stage env c) (\<lambda>quota.
     done_with \<lparr>ar_applied = True, ar_quota_exhausted = exhausted, ar_new_balance = balance, ar_overdrafted = overdraft,
       ar_quota_state = quota\<rparr>)))))"

lemma computes_balance_stage:
  "computes (tryM (\<lambda>e. e) (deduct_usage_balance uid cost) (\<lambda>(b, sufficient). okM (Some b, \<not> sufficient)))
     (\<lambda>t. case ut_balance t uid of
         None \<Rightarrow> Inl (App err_user_not_found)
       | Some b \<Rightarrow> Inr ((Some (numeric 8 (b - cost)), b < cost),
           t\<lparr>ut_balance := (ut_balance t)(uid \<mapsto> numeric 8 (b - cost))\<rparr>))" (is "computes _ ?g")
proof -
  have "?g = andthen (\<lambda>e. e) (\<lambda>t. case ut_balance t uid of
     None \<Rightarrow> Inl (App err_user_not_found)
   | Some b \<Rightarrow> Inr ((numeric 8 (b - cost), cost \<le> b), t\<lparr>ut_balance := (ut_balance t)(uid \<mapsto> numeric 8 (b - cost))\<rparr>))
     (\<lambda>(b, sufficient). done_with (Some b, \<not> sufficient))"
    by (rule ext) (auto simp: compute_defs split: option.splits)
  then show ?thesis by (auto intro!: computes_try computes_deduct computes_prod computes_ok)
qed

lemma computes_account_stage:
  "computes (tryM (\<lambda>e. e) (charge_account_quota env aid cost) (\<lambda>q. okM (Some q)))
     (\<lambda>t. case ut_accounts t aid of
         None \<Rightarrow> Inl (App err_account_not_found)
       | Some q \<Rightarrow> let q' = spend_quota env (ut_now t) cost q in
           Inr (Some (quota_state_of q'), t\<lparr>ut_accounts := (ut_accounts t)(aid \<mapsto> q'),
             ut_outbox := ut_outbox t @ (if crossed_any (quota_state_of q') cost then [aid] else [])\<rparr>))"
  (is "computes _ ?g")
proof -
  have "?g = andthen (\<lambda>e. e) (\<lambda>t. case ut_accounts t aid of
     None \<Rightarrow> Inl (App err_account_not_found)
   | Some q \<Rightarrow> let q' = spend_quota env (ut_now t) cost q in
       Inr (quota_state_of q', t\<lparr>ut_accounts := (ut_accounts t)(aid \<mapsto> q'),
         ut_outbox := ut_outbox t @ (if crossed_any (quota_state_of q') cost then [aid] else [])\<rparr>))
     (\<lambda>q. done_with (Some q))"
    by (rule ext) (auto simp: compute_defs Let_def split: option.splits)
  then show ?thesis by (auto intro!: computes_try computes_account computes_ok)
qed

lemma computes_effects: "computes (apply_usage_billing_effects env c) (effects_spec env c)"
  unfolding apply_usage_billing_effects_def effects_spec_def subscription_stage_def balance_stage_def account_stage_def
  by (intro computes_try computes_prod computes_if computes_option computes_ok computes_stmt
      computes_balance_stage computes_account_stage)

lemma subscription_stage:
  "subscription_stage c t =
     (if 0 < uc_subscription_cost c \<and> (case uc_subscription_id c of None \<Rightarrow> False | Some i \<Rightarrow>
          (case ut_subs t i of None \<Rightarrow> True | Some s \<Rightarrow> \<not> ut_groups t (su_group_id s)))
      then Inl (App err_subscription_not_found)
      else Inr ((), t\<lparr>ut_subs := (case uc_subscription_id c of None \<Rightarrow> ut_subs t | Some i \<Rightarrow>
       paying (uc_subscription_cost c) (upd_at i (spend_subscription (uc_subscription_cost c))) (ut_subs t))\<rparr>))"
  by (auto simp: subscription_stage_def compute_defs increment_subscription_def paying_def upd_at_def split: option.splits)

lemma balance_stage:
  "balance_stage c t =
     (if 0 < uc_balance_cost c \<and> ut_balance t (uc_user_id c) = None then Inl (App err_user_not_found)
      else Inr ((if 0 < uc_balance_cost c then map_option (\<lambda>b. numeric 8 (b - uc_balance_cost c)) (ut_balance t (uc_user_id c)) else None,
          0 < uc_balance_cost c \<and> (case ut_balance t (uc_user_id c) of None \<Rightarrow> False | Some b \<Rightarrow> b < uc_balance_cost c)),
        t\<lparr>ut_balance := paying (uc_balance_cost c)
          (upd_at (uc_user_id c) (\<lambda>b. numeric 8 (b - uc_balance_cost c))) (ut_balance t)\<rparr>))"
  by (auto simp: balance_stage_def compute_defs paying_def upd_at_def split: option.splits)

lemma quota_stage:
  "(if 0 < x then stated (increment_key_quota kid x) else done_with False) t =
     (if 0 < x \<and> ut_keys t kid = None then Inl (App err_api_key_not_found)
      else Inr (0 < x \<and> (case ut_keys t kid of None \<Rightarrow> False | Some k \<Rightarrow> key_exhausted x (spend_key_quota x k)),
        t\<lparr>ut_keys := paying x (upd_at kid (spend_key_quota x)) (ut_keys t)\<rparr>))"
  by (auto simp: compute_defs increment_key_quota_def paying_def upd_at_def split: option.splits)

lemma rate_stage:
  "(if 0 < x then stated (increment_key_rate_limit env kid x) else done_with ()) t =
     (if 0 < x \<and> ut_keys t kid = None then Inl (App err_api_key_not_found)
      else Inr ((), t\<lparr>ut_keys := paying x (upd_at kid (spend_key_windows (ue_tz env) (ut_now t) x)) (ut_keys t)\<rparr>))"
  by (auto simp: compute_defs increment_key_rate_limit_def paying_def upd_at_def split: option.splits)

lemma account_stage:
  "account_stage env c t =
     (if charges_account c \<and> ut_accounts t (uc_account_id c) = None then Inl (App err_account_not_found)
      else Inr (charged_quota_state env c t, t\<lparr>ut_accounts := charged_accounts env c t,
        ut_outbox := ut_outbox t @ (case charged_quota_state env c t of
          Some q \<Rightarrow> if crossed_any q (uc_account_quota_cost c) then [uc_account_id c] else [] | None \<Rightarrow> [])\<rparr>))"
  by (auto simp: account_stage_def compute_defs charged_quota_state_def charged_accounts_def upd_at_def Let_def split: option.splits)

lemma upd_at_None [simp]: "(upd_at k f m k = None) = (m k = None)" "paying x (upd_at k f) m k = None \<longleftrightarrow> m k = None"
  by (simp_all add: upd_at_def paying_def split: option.splits)

lemma effects_charge:
  "effects_spec env c t = (case missing_row c t of Some e \<Rightarrow> Inl e
     | None \<Rightarrow> Inr (charge_result env c t, (charge env c t)\<lparr>ut_dedup := ut_dedup t\<rparr>))"
proof -
  define t1 where "t1 = t\<lparr>ut_subs := ut_subs (charge env c t)\<rparr>"
  define t2 where "t2 = t1\<lparr>ut_balance := ut_balance (charge env c t)\<rparr>"
  define t3 where "t3 = t2\<lparr>ut_keys := paying (uc_api_key_quota_cost c)
         (upd_at (uc_api_key_id c) (spend_key_quota (uc_api_key_quota_cost c))) (ut_keys t)\<rparr>"
  define t4 where "t4 = t3\<lparr>ut_keys := ut_keys (charge env c t)\<rparr>"
  define p1 where "p1 \<longleftrightarrow> 0 < uc_subscription_cost c \<and> (case uc_subscription_id c of None \<Rightarrow> False | Some i \<Rightarrow>
          (case ut_subs t i of None \<Rightarrow> True | Some s \<Rightarrow> \<not> ut_groups t (su_group_id s)))"
  define p2 where "p2 \<longleftrightarrow> 0 < uc_balance_cost c \<and> ut_balance t (uc_user_id c) = None"
  define p3 where "p3 \<longleftrightarrow> 0 < uc_api_key_quota_cost c \<and> ut_keys t (uc_api_key_id c) = None"
  define p4 where "p4 \<longleftrightarrow> 0 < uc_api_key_rate_limit_cost c \<and> ut_keys t (uc_api_key_id c) = None"
  define p5 where "p5 \<longleftrightarrow> charges_account c \<and> ut_accounts t (uc_account_id c) = None"
  have m: "missing_row c t = (if p1 then Some (App err_subscription_not_found) else if p2 then Some (App err_user_not_found)
      else if p3 \<or> p4 then Some (App err_api_key_not_found) else if p5 then Some (App err_account_not_found) else None)"
    unfolding missing_row_def p1_def p2_def p3_def p4_def p5_def by simp
  have 1: "subscription_stage c t = (if p1 then Inl (App err_subscription_not_found) else Inr ((), t1))"
    unfolding subscription_stage p1_def t1_def charge_def by simp
  have 2: "balance_stage c t1 = (if p2 then Inl (App err_user_not_found)
      else Inr ((ar_new_balance (charge_result env c t), ar_overdrafted (charge_result env c t)), t2))"
    unfolding balance_stage p2_def t2_def t1_def charge_def charge_result_def
    by (auto simp: paying_def upd_at_def split: option.splits)
  have 3: "(if 0 < uc_api_key_quota_cost c then stated (increment_key_quota (uc_api_key_id c) (uc_api_key_quota_cost c))
        else done_with False) t2 =
      (if p3 then Inl (App err_api_key_not_found) else Inr (ar_quota_exhausted (charge_result env c t), t3))"
    unfolding quota_stage p3_def t3_def t2_def t1_def charge_result_def by simp
  have 4: "(if 0 < uc_api_key_rate_limit_cost c
        then stated (increment_key_rate_limit env (uc_api_key_id c) (uc_api_key_rate_limit_cost c)) else done_with ()) t3 =
      (if p4 then Inl (App err_api_key_not_found) else Inr ((), t4))"
    unfolding rate_stage p4_def t4_def t3_def t2_def t1_def charge_def by simp
  have 5: "account_stage env c t4 =
      (if p5 then Inl (App err_account_not_found)
       else Inr (ar_quota_state (charge_result env c t), (charge env c t)\<lparr>ut_dedup := ut_dedup t\<rparr>))"
    unfolding account_stage p5_def t4_def t3_def t2_def t1_def charge_result_def
    by (simp add: charge_def charged_accounts_def charged_quota_state_def)
  have r: "\<lparr>ar_applied = True, ar_quota_exhausted = ar_quota_exhausted (charge_result env c t),
      ar_new_balance = ar_new_balance (charge_result env c t), ar_overdrafted = ar_overdrafted (charge_result env c t),
      ar_quota_state = ar_quota_state (charge_result env c t)\<rparr> = charge_result env c t"
    by (simp add: charge_result_def)
  show ?thesis
    unfolding effects_spec_def m
    by (auto simp: andthen_def 1 2 3 4 5 done_with_def r)
qed

definition body_spec :: "usage_env \<Rightarrow> usage_command \<Rightarrow> (usage_tables, apply_result) compute" where
  "body_spec env c t = (case apply_spec env c t of
     Inl e \<Rightarrow> Inl (tagged e)
   | Inr (r, t') \<Rightarrow> if ar_applied r then Inr (r, t') else Inl already_claimed)"

lemma charge_frame [simp]:
  "missing_row c (t\<lparr>ut_dedup := d\<rparr>) = missing_row c t"
  "charge_result env c (t\<lparr>ut_dedup := d\<rparr>) = charge_result env c t"
  "(charge env c (t\<lparr>ut_dedup := d\<rparr>))\<lparr>ut_dedup := d'\<rparr> = (charge env c t)\<lparr>ut_dedup := d'\<rparr>"
  by (simp_all add: missing_row_def charge_result_def charge_def charged_quota_state_def charged_accounts_def
      cong: option.case_cong)

lemma applied_flags [simp]: "ar_applied (charge_result env c t)" "\<not> ar_applied not_applied"
  by (simp_all add: charge_result_def not_applied_def)

lemma unclaimed_insert:
  "claim_of c t = None \<Longrightarrow> snd (insert_dedup c t) = t\<lparr>ut_dedup := ut_dedup (charge env c t)\<rparr>"
  by (auto simp: claim_of_def insert_dedup_def charge_def split: option.splits)

lemma computes_body: "computes (apply_body env c) (body_spec env c)"
proof -
  have "body_spec env c = andthen tagged (claim_spec c) (\<lambda>claimed.
      if \<not> claimed then stops already_claimed else andthen tagged (effects_spec env c) done_with)" (is "_ = ?g")
  proof
    fix t
    show "body_spec env c t = ?g t"
    proof (cases "claim_of c t")
      case None
      then show ?thesis
        by (auto simp: body_spec_def apply_spec_def claim_spec_def andthen_def effects_charge done_with_def
            unclaimed_insert [OF None, of env] split: option.splits)
    next
      case (Some f)
      then show ?thesis
        by (simp add: body_spec_def apply_spec_def claim_spec_def andthen_def stops_def)
    qed
  qed
  then show ?thesis
    unfolding apply_body_def by (simp del: not_not) (intro computes_try computes_claim computes_if computes_fail computes_effects computes_ok)
qed

lemma apply_spec_unapplied:
  "apply_spec env c t = Inr (r, t') \<Longrightarrow> \<not> ar_applied r \<Longrightarrow> r = not_applied \<and> t' = t"
  by (auto simp: apply_spec_def split: option.splits if_splits)

text \<open>Undisturbed, \<open>apply_usage\<close> is the reference definition, and all or nothing.\<close>

lemma apply_usage_quiet:
  assumes "quiet s" and "st_base s = None"
  shows "run_state (apply_usage env cmd) s =
    (let c = normalize_command (ue_hash env) cmd in
     if uc_request_id c = [] then (Inl err_request_id_required, s)
     else (case apply_spec env c (st_tabs s) of
       Inl e \<Rightarrow> (Inl e, s)
     | Inr (r, t) \<Rightarrow> (Inr r, s\<lparr>st_tabs := t\<rparr>)))"
  unfolding apply_usage_def Let_def
  by (auto simp: in_tx_quiet [OF computes_body assms] body_spec_def tagged_def already_claimed_def
      split: sum.splits dest: apply_spec_unapplied)

subsection \<open>Nobody is charged twice\<close>

text \<open>
  What may happen to these tables: a key is charged, a user is credited, old claims are archived, time
  passes.  A sequence of such events explains the tables after it when its charges are of
  different keys that were not claimed before.
\<close>

datatype usage_event = Charge usage_command | Credit int64 rat | Archive nat time | Elapse duration

fun happen :: "usage_env \<Rightarrow> usage_event \<Rightarrow> usage_tables \<Rightarrow> usage_tables" where
  "happen env (Charge c) t = charge env c t"
| "happen env (Credit uid a) t = t\<lparr>ut_balance := upd_at uid (\<lambda>b. b + a) (ut_balance t)\<rparr>"
| "happen env (Archive n cutoff) t = snd (archive_batch n cutoff t)"
| "happen env (Elapse d) t = t\<lparr>ut_now := ut_now t + d\<rparr>"

fun event_keys :: "usage_event \<Rightarrow> usage_key list" where
  "event_keys (Charge c) = [usage_key c]"
| "event_keys _ = []"

fun sane_event :: "usage_event \<Rightarrow> bool" where
  "sane_event (Credit uid a) = (0 < a)"
| "sane_event (Elapse d) = (0 \<le> d)"
| "sane_event _ = True"

definition charged_keys :: "usage_event list \<Rightarrow> usage_key list" where
  "charged_keys es = concat (map event_keys es)"

definition explains :: "usage_env \<Rightarrow> usage_event list \<Rightarrow> usage_tables \<Rightarrow> usage_tables \<Rightarrow> bool" where
  "explains env es t t' \<longleftrightarrow> t' = fold (happen env) es t \<and> (\<forall>e \<in> set es. sane_event e) \<and>
     distinct (charged_keys es) \<and> set (charged_keys es) \<inter> claimed t = {}"

definition explained :: "usage_env \<Rightarrow> usage_tables \<Rightarrow> usage_tables \<Rightarrow> bool" where
  "explained env t t' \<longleftrightarrow> (\<exists>es. explains env es t t')"

lemma find_dedup_None: "find_dedup rid kid rows = None \<longleftrightarrow> (rid, kid) \<notin> dedup_key ` set rows"
  by (auto simp: find_dedup_def find_None_iff dedup_key_def image_iff)

lemma find_dedup_Some:
  "find_dedup (uc_request_id c) (uc_api_key_id c) rows = Some d \<Longrightarrow> d \<in> set rows \<and> dedup_key d = usage_key c"
  by (auto simp: find_dedup_def find_Some_iff dedup_key_def usage_key_def)

lemma claim_of_None: "claim_of c t = None \<longleftrightarrow> usage_key c \<notin> claimed t"
  by (auto simp: claim_of_def usage_key_def claimed_def image_Un find_dedup_None [symmetric] split: option.splits)

lemma claimed_archive: "claimed (snd (archive_batch n cutoff t)) = claimed t"
proof -
  define victims where "victims = take n (filter (\<lambda>d. dd_created_at d < cutoff) (ut_dedup t))"
  have v: "set victims \<subseteq> set (ut_dedup t)"
    unfolding victims_def using set_take_subset by fastforce
  have t': "snd (archive_batch n cutoff t) = t\<lparr>
      ut_archive := ut_archive t @ filter (\<lambda>d. find_dedup (dd_request_id d) (dd_api_key_id d) (ut_archive t) = None) victims,
      ut_dedup := filter (\<lambda>d. d \<notin> set victims) (ut_dedup t)\<rparr>"
    by (simp add: archive_batch_def victims_def Let_def)
  have keep: "dedup_key d \<in> dedup_key ` set (ut_archive t)"
    if "find_dedup (dd_request_id d) (dd_api_key_id d) (ut_archive t) \<noteq> None" for d
    using that unfolding find_dedup_None dedup_key_def by blast
  show ?thesis
    unfolding claimed_def t' using v keep by (auto 0 3 simp: image_Un)
qed

lemma claimed_happen: "claimed (happen env e t) = claimed t \<union> set (event_keys e)"
  by (cases e) (auto simp: claimed_archive, auto simp: claimed_def charge_def usage_key_def dedup_key_def)

lemma claimed_fold: "claimed (fold (happen env) es t) = claimed t \<union> set (charged_keys es)"
  by (induction es arbitrary: t) (auto simp: claimed_happen charged_keys_def)

lemma explains_none: "explains env [] t t"
  by (simp add: explains_def charged_keys_def)

lemma explains_append:
  "explains env es t u \<Longrightarrow> explains env fs u v \<Longrightarrow> explains env (es @ fs) t v"
  by (auto simp: explains_def claimed_fold charged_keys_def)

lemma explains_charge: "usage_key c \<notin> claimed t \<Longrightarrow> explains env [Charge c] t (charge env c t)"
  by (simp add: explains_def charged_keys_def)

lemma explains_archive: "explains env [Archive n cutoff] t (snd (archive_batch n cutoff t))"
  by (simp add: explains_def charged_keys_def)

interpretation charges: rely_guarantee "explained env" for env
  unfolding explained_def by unfold_locales (blast intro: explains_none, blast intro: explains_append)

lemma explained_charge: "claim_of c t = None \<Longrightarrow> explained env t (charge env c t)"
  unfolding explained_def claim_of_None by (blast intro: explains_charge)

lemma body_spec_explained: "body_spec env c t = Inr (r, t') \<Longrightarrow> explained env t t'"
  by (auto simp: body_spec_def apply_spec_def explained_charge split: option.splits if_splits)

lemma apply_usage_runs: "runs (explained env) (apply_usage env cmd)"
proof -
  have "runs (explained env) (in_tx tagged tagged (apply_body env c))" for c
    unfolding runs_def by (rule charges.computed_tx_rule [OF computes_body]) (auto intro: body_spec_explained)
  then show ?thesis
    unfolding apply_usage_def Let_def by (intro runs_if charges.runs_bind charges.runs_return) 
qed

lemma cleanup_dedup_runs: "runs (explained env) (cleanup_dedup k n cutoff)"
  unfolding explained_def
  by (induction k)
    (auto intro!: charges.runs_return [unfolded explained_def] charges.runs_try [unfolded explained_def]
      charges.runs_stmt [unfolded explained_def] intro: explains_archive)

datatype usage_op = ApplyOp usage_command | CleanOp nat nat time

fun run_usage_op :: "usage_env \<Rightarrow> usage_op \<Rightarrow> (usage_store, unit) state" where
  "run_usage_op env (ApplyOp c) = do { _ \<leftarrow> apply_usage env c; State_Monad.return () }"
| "run_usage_op env (CleanOp k n cutoff) = do { _ \<leftarrow> cleanup_dedup k n cutoff; State_Monad.return () }"

lemma run_usage_op_runs: "runs (explained env) (run_usage_op env x)"
  by (cases x) (auto intro: charges.runs_bind charges.runs_return apply_usage_runs cleanup_dedup_runs)

subsection \<open>A claim outlives the archiving\<close>

definition claimed_as :: "usage_command \<Rightarrow> usage_tables \<Rightarrow> bool" where
  "claimed_as c t \<longleftrightarrow> usage_key c \<in> claimed t \<and>
     (\<forall>d \<in> set (ut_dedup t) \<union> set (ut_archive t). dedup_key d = usage_key c \<longrightarrow> dd_fingerprint d = uc_fingerprint c)"

lemma claimed_as_claim: "claimed_as c t \<Longrightarrow> claim_of c t = Some (uc_fingerprint c)"
proof -
  assume c: "claimed_as c t"
  then obtain f where f: "claim_of c t = Some f" by (cases "claim_of c t") (simp_all add: claim_of_None claimed_as_def)
  then have "\<exists>d. d \<in> set (ut_dedup t) \<union> set (ut_archive t) \<and> dedup_key d = usage_key c \<and> f = dd_fingerprint d"
    unfolding claim_of_def by (auto dest: find_dedup_Some split: option.splits)
  then show ?thesis using c f by (auto simp: claimed_as_def)
qed

lemma claimed_as_archive: "claimed_as c t \<Longrightarrow> claimed_as c (snd (archive_batch n cutoff t))"
proof -
  assume c: "claimed_as c t"
  have "set (ut_dedup (snd (archive_batch n cutoff t))) \<union> set (ut_archive (snd (archive_batch n cutoff t)))
      \<subseteq> set (ut_dedup t) \<union> set (ut_archive t)"
    by (auto simp: archive_batch_def Let_def dest: in_set_takeD)
  then show ?thesis using c unfolding claimed_as_def claimed_archive by blast
qed

lemma claimed_as_charge: "usage_key c \<notin> claimed t \<Longrightarrow> claimed_as c (charge env c t)"
proof -
  assume "usage_key c \<notin> claimed t"
  then have "dedup_key d \<noteq> usage_key c" if "d \<in> set (ut_dedup t) \<union> set (ut_archive t)" for d
    using that unfolding claimed_def by (metis image_eqI)
  moreover have "usage_key c \<in> claimed (charge env c t)"
    using claimed_happen [of env "Charge c" t] by simp
  ultimately show ?thesis by (auto simp: claimed_as_def charge_def)
qed

lemma cleanup_quiet:
  "quiet s \<Longrightarrow> st_base s = None \<Longrightarrow> claimed_as c (st_tabs s) \<Longrightarrow>
   quiet (snd (run_state (cleanup_dedup k n cutoff) s)) \<and> st_base (snd (run_state (cleanup_dedup k n cutoff) s)) = None \<and>
   claimed_as c (st_tabs (snd (run_state (cleanup_dedup k n cutoff) s)))"
  by (induction k arbitrary: s)
    (simp_all add: run_tryM run_stmt quiet_tick claimed_as_archive split: prod.splits sum.splits if_splits)

subsection \<open>Reset times\<close>

lemma todays_reset_bounds:
  assumes "case qw_reset_hour w of None \<Rightarrow> True | Some h \<Rightarrow> 0 \<le> h \<and> h < 24"
  shows "n < todays_reset off w n + day" "todays_reset off w n < n + day"
proof -
  have "0 \<le> (n + off) mod day" "(n + off) mod day < day" by simp_all
  then show "n < todays_reset off w n + day" "todays_reset off w n < n + day"
    using assms by (auto simp: todays_reset_def start_of_day_def split: option.splits)
qed

lemma day_of_week_bounds: "0 \<le> day_of_week off n" "day_of_week off n \<le> 6"
  by (simp_all add: day_of_week_def)

text \<open>A moment \<open>k\<close> days and \<open>x\<close> after the start of a day.\<close>

lemma day_offset:
  assumes "0 \<le> x" and "x < day"
  shows "day_of_week off (start_of_day off n + x + k * day) = (day_of_week off n + k) mod 7"
    and "(start_of_day off n + x + k * day + off) mod day = x"
proof -
  have e: "start_of_day off n + x + k * day + off = x + ((n + off) div day + k) * day"
    by (simp add: start_of_day_def minus_mod_eq_div_mult [symmetric] algebra_simps)
  have d: "(start_of_day off n + x + k * day + off) div day = (n + off) div day + k"
    unfolding e by (subst div_mult_self1) (use assms in simp_all)
  show "(start_of_day off n + x + k * day + off) mod day = x"
    unfolding e by (subst mod_mult_self1) (use assms in simp)
  have "((n + off) div day + k + 4) mod 7 = (((n + off) div day + 4) mod 7 + k) mod 7" by presburger
  with d show "day_of_week off (start_of_day off n + x + k * day) = (day_of_week off n + k) mod 7"
    by (simp add: day_of_week_def)
qed

abbreviation or_monday :: "int option \<Rightarrow> int" where
  "or_monday d \<equiv> case d of None \<Rightarrow> 1 | Some d \<Rightarrow> d"

abbreviation or_midnight :: "int option \<Rightarrow> int" where
  "or_midnight h \<equiv> case h of None \<Rightarrow> 0 | Some h \<Rightarrow> h"

lemma next_weekly_reset:
  assumes h: "0 \<le> or_midnight (qw_reset_hour w)" "or_midnight (qw_reset_hour w) < 24"
    and d: "0 \<le> or_monday target" "or_monday target \<le> 6"
    and t: "next_weekly_reset_at off target w n = Some t"
  shows "n < t \<and> t \<le> n + 7 * day \<and> day_of_week off t = or_monday target \<and>
    (t + off) mod day = or_midnight (qw_reset_hour w) * hour"
proof -
  define x where "x = or_midnight (qw_reset_hour w) * hour"
  define df where "df = (or_monday target - day_of_week off n + 7) mod 7"
  have x: "0 \<le> x" "x < day" using h by (simp_all add: x_def)
  have df: "0 \<le> df" "df \<le> 6" by (simp_all add: df_def)
  have dow: "(day_of_week off n + df) mod 7 = or_monday target"
    using d unfolding df_def by presburger
  have ahead: "0 \<le> or_monday target - day_of_week off n + 7"
    using d day_of_week_bounds [of off n] by linarith
  have t': "t = (if df = 0 \<and> start_of_day off n + x \<le> n then start_of_day off n + x + 7 * day
      else start_of_day off n + x + df * day)"
    using t ahead unfolding next_weekly_reset_at_def todays_reset_def Let_def x_def df_def
    by (simp add: minus_div_mult_eq_mod split: if_splits)
  have s: "start_of_day off n \<le> n" "n < start_of_day off n + day"
    by (simp_all add: start_of_day_def)
  show ?thesis
  proof (cases "df = 0 \<and> start_of_day off n + x \<le> n")
    case True
    then have "t = start_of_day off n + x + 7 * day" using t' by simp
    moreover have "n < t \<and> t \<le> n + 7 * day" using True calculation x s by linarith
    ultimately show ?thesis
      using day_offset [OF x, of off n 7] dow True by (simp add: x_def)
  next
    case False
    then have t2: "t = start_of_day off n + x + df * day" using t' by auto
    have "df * day \<le> 6 * day" using df by simp
    moreover have "df \<noteq> 0 \<Longrightarrow> day \<le> df * day" using df by simp
    ultimately have "n < t \<and> t \<le> n + 7 * day" using False t2 x s by linarith
    then show ?thesis
      using day_offset [OF x, of off n df] dow t2 by (simp add: x_def)
  qed
qed

lemma next_daily_reset:
  assumes h: "0 \<le> or_midnight (qw_reset_hour w)" "or_midnight (qw_reset_hour w) < 24"
    and t: "next_daily_reset_at off w n = Some t"
  shows "n < t \<and> t \<le> n + day \<and> (t + off) mod day = or_midnight (qw_reset_hour w) * hour"
proof -
  define x where "x = or_midnight (qw_reset_hour w) * hour"
  have x: "0 \<le> x" "x < day" using h by (simp_all add: x_def)
  have s: "start_of_day off n \<le> n" "n < start_of_day off n + day"
    by (simp_all add: start_of_day_def)
  have t': "t = (if start_of_day off n + x \<le> n then start_of_day off n + x + 1 * day
      else start_of_day off n + x + 0 * day)"
    using t unfolding next_daily_reset_at_def todays_reset_def Let_def x_def by (simp split: if_splits)
  then have "(t + off) mod day = x"
    using day_offset(2) [OF x, of off n 1] day_offset(2) [OF x, of off n 0] by (simp split: if_splits)
  then show ?thesis using t' x s by (simp add: x_def split: if_splits)
qed

subsection \<open>Rounding at the quota of a key\<close>

text \<open>
  The status is decided on the exact sum and the value returned on the rounded column.  When only the
  rounding reaches the quota, the key is reported exhausted, keeps its active status, and no later
  update changes it, because the quota is then no longer crossed.
\<close>

lemma rounded_up_to_the_quota:
  "let k = \<lparr>ak_quota = 1, ak_quota_used = 99999999 / 100000000, ak_status = ''active'',
         ak_5h = \<lparr>uw_used = 0, uw_start = None\<rparr>, ak_1d = \<lparr>uw_used = 0, uw_start = None\<rparr>,
         ak_7d = \<lparr>uw_used = 0, uw_start = None\<rparr>\<rparr>;
       k1 = spend_key_quota (1 / 200000000) k; k2 = spend_key_quota 1 k1
   in key_exhausted (1 / 200000000) k1 \<and> ak_quota_used k1 = 1 \<and> ak_status k1 = ''active'' \<and> ak_status k2 = ''active''"
  by code_simp

subsection \<open>Properties\<close>

text \<open>Sample data: a gateway that charges the same request twice and loses replies, next to another one.\<close>

definition sample_env :: usage_env where
  "sample_env = \<lparr>ue_hash = (\<lambda>x. x), ue_tz = 0, ue_zone = (\<lambda>z. if z = ''Asia/Shanghai'' then 8 * hour else 0)\<rparr>"

definition sample_command :: usage_command where
  "sample_command =
     \<lparr>uc_request_id = '' r1 '', uc_api_key_id = 1, uc_fingerprint = [], uc_payload_hash = ''h'', uc_user_id = 2,
      uc_account_id = 3, uc_subscription_id = Some 4, uc_account_type = ''apikey'', uc_model = ''m'',
      uc_service_tier = [], uc_reasoning_effort = [], uc_billing_type = 0, uc_input_tokens = 10, uc_output_tokens = 20,
      uc_cache_creation_tokens = 0, uc_cache_read_tokens = 0, uc_image_count = 0, uc_media_type = [],
      uc_balance_cost = 3 / 2, uc_subscription_cost = 1, uc_api_key_quota_cost = 3 / 2,
      uc_api_key_rate_limit_cost = 3 / 2, uc_account_quota_cost = 2\<rparr>"

definition sample_quota :: account_quota where
  "sample_quota =
     \<lparr>aq_used = Some 9, aq_limit = Some 10, aq_timezone = Some ''Asia/Shanghai'',
      aq_daily = \<lparr>qw_limit = Some 5, qw_used = Some 4, qw_start = Some 0, qw_mode = Some ''fixed'',
        qw_reset_at = Some (20000 * day), qw_reset_hour = Some 3\<rparr>,
      aq_weekly = \<lparr>qw_limit = None, qw_used = None, qw_start = None, qw_mode = Some ''fixed'', qw_reset_at = None,
        qw_reset_hour = Some 23\<rparr>,
      aq_weekly_day = Some 0\<rparr>"

definition sample_tables :: usage_tables where
  "sample_tables =
     \<lparr>ut_now = 20000 * day + 5 * hour, ut_dedup = [], ut_archive = [], ut_balance = [2 \<mapsto> 2],
      ut_groups = (\<lambda>g. g = 7), ut_subs = [4 \<mapsto> \<lparr>su_group_id = 7, su_daily = 0, su_weekly = 0, su_monthly = 0\<rparr>],
      ut_keys = [1 \<mapsto> \<lparr>ak_quota = 2, ak_quota_used = 1, ak_status = ''active'',
         ak_5h = \<lparr>uw_used = 7, uw_start = Some 0\<rparr>, ak_1d = \<lparr>uw_used = 0, uw_start = None\<rparr>,
         ak_7d = \<lparr>uw_used = 1, uw_start = Some (20000 * day)\<rparr>\<rparr>],
      ut_accounts = [3 \<mapsto> sample_quota], ut_outbox = []\<rparr>"

definition other_charge :: "usage_tables \<Rightarrow> usage_tables" where
  "other_charge t = (let c = sample_command\<lparr>uc_request_id := ''r2''\<rparr> in
     if claim_of c t = None then charge sample_env c t else t)"

definition sample_store :: usage_store where
  "sample_store = \<lparr>st_tabs = sample_tables, st_base = None,
     st_world = [(other_charge, None), (\<lambda>t. t, None), (\<lambda>t. t, None), (\<lambda>t. t, Some (Refused ''timeout'')),
       (happen sample_env (Credit 2 10), None)] @ replicate 9 (\<lambda>t. t, None) @ [(\<lambda>t. t, Some (LostReply ''reset''))]\<rparr>"

lemma calm_sample: "calm (explained sample_env) sample_store"
proof -
  have "explained sample_env t (other_charge t)" for t
    unfolding other_charge_def Let_def using explained_charge charges.reflexive by simp
  moreover have "explained sample_env t (happen sample_env (Credit 2 10) t)" for t
    unfolding explained_def explains_def by (rule exI [of _ "[Credit 2 10]"]) (simp add: charged_keys_def)
  ultimately show ?thesis
    by (auto simp: calm_def sample_store_def charges.reflexive simp del: happen.simps)
qed

text \<open>
  C4.  However charges are repeated, whatever fails (statements, replies, commits), and whatever other
  gateways charge, credit or archive in between, the tables after a run are those before changed by a
  sequence of events in which every key (request id and API key) is charged at most once, and only if it
  had not been claimed before the run.
\<close>

theorem usage_charged_once:
  assumes "calm (explained env) s"
  shows "\<exists>es. st_tabs (snd (run_state (each (run_usage_op env) ops) s)) = fold (happen env) es (st_tabs s) \<and>
    distinct (charged_keys es) \<and> set (charged_keys es) \<inter> claimed (st_tabs s) = {} \<and> (\<forall>e \<in> set es. sane_event e)"
proof -
  have "runs (explained env) (each (run_usage_op env) ops)"
    by (rule charges.runs_each) (rule run_usage_op_runs)
  then have "explained env (st_tabs s) (st_tabs (snd (run_state (each (run_usage_op env) ops) s)))"
    using assms unfolding runs_def rg_def by (auto simp: split_def)
  then show ?thesis by (auto simp: explained_def explains_def)
qed

theorem usage_charged_once_witness:
  "(\<exists>es. st_tabs (snd (run_state (each (run_usage_op sample_env)
        [ApplyOp sample_command, ApplyOp sample_command, CleanOp 1 5 (30000 * day), ApplyOp sample_command]) sample_store)) =
      fold (happen sample_env) es (st_tabs sample_store) \<and>
    distinct (charged_keys es) \<and> set (charged_keys es) \<inter> claimed (st_tabs sample_store) = {} \<and>
    (\<forall>e \<in> set es. sane_event e)) \<and>
   ut_balance (st_tabs (snd (run_state (each (run_usage_op sample_env)
        [ApplyOp sample_command, ApplyOp sample_command, CleanOp 1 5 (30000 * day), ApplyOp sample_command]) sample_store))) 2
      = Some 9"
proof (rule conjI)
  show "ut_balance (st_tabs (snd (run_state (each (run_usage_op sample_env)
        [ApplyOp sample_command, ApplyOp sample_command, CleanOp 1 5 (30000 * day), ApplyOp sample_command]) sample_store))) 2
      = Some 9" by code_simp
qed (rule usage_charged_once [OF calm_sample])



text \<open>
  C24.  Repeating a request that was charged is free, also after its key was archived: it is answered with
  \<open>not applied\<close> and changes nothing.
\<close>

theorem usage_retry_free:
  assumes "quiet s" and "st_base s = None"
    and "run_state (apply_usage env cmd) s = (Inr r, s1)" and "ar_applied r"
    and "run_state (cleanup_dedup k n cutoff) s1 = (x, s2)"
  shows "run_state (apply_usage env cmd) s2 = (Inr not_applied, s2)"
proof -
  define c where "c = normalize_command (ue_hash env) cmd"
  have "uc_request_id c \<noteq> []" "apply_spec env c (st_tabs s) = Inr (r, st_tabs s1)"
    and 1: "quiet s1" "st_base s1 = None"
    using assms(1,2,3) by (auto simp: apply_usage_quiet c_def Let_def split: if_splits sum.splits)
  then have "claim_of c (st_tabs s) = None" "st_tabs s1 = charge env c (st_tabs s)"
    using assms(4) by (auto simp: apply_spec_def split: option.splits if_splits)
  then have "claimed_as c (st_tabs s1)" by (simp add: claimed_as_charge claim_of_None)
  with 1 have 2: "quiet s2" "st_base s2 = None" "claimed_as c (st_tabs s2)"
    using cleanup_quiet [of s1 c k n cutoff] assms(5) by simp_all
  then show ?thesis
    using \<open>uc_request_id c \<noteq> []\<close>
    by (simp add: apply_usage_quiet c_def [symmetric] apply_spec_def claimed_as_claim)
qed

theorem usage_retry_free_witness:
  "let s = \<lparr>st_tabs = sample_tables, st_base = None, st_world = []\<rparr>;
       s1 = snd (run_state (apply_usage sample_env sample_command) s);
       s2 = snd (run_state (cleanup_dedup 1 5 (30000 * day)) s1)
   in run_state (apply_usage sample_env sample_command) s2 = (Inr not_applied, s2) \<and> ut_dedup (st_tabs s2) = []"
proof -
  define s where "s = (\<lparr>st_tabs = sample_tables, st_base = None, st_world = []\<rparr> :: usage_store)"
  define r where "r = charge_result sample_env (normalize_command (ue_hash sample_env) sample_command) sample_tables"
  define s1 where "s1 = snd (run_state (apply_usage sample_env sample_command) s)"
  define s2 where "s2 = snd (run_state (cleanup_dedup 1 5 (30000 * day)) s1)"
  have s: "quiet s" "st_base s = None" by (simp_all add: s_def quiet_def)
  have "isl (fst (run_state (apply_usage sample_env sample_command) s)) = False"
    and a: "case fst (run_state (apply_usage sample_env sample_command) s) of Inl _ \<Rightarrow> False | Inr r \<Rightarrow> ar_applied r"
    unfolding s_def by code_simp+
  then obtain r where r: "run_state (apply_usage sample_env sample_command) s = (Inr r, s1)" "ar_applied r"
    unfolding s1_def by (cases "run_state (apply_usage sample_env sample_command) s") (auto split: sum.splits)
  have "run_state (cleanup_dedup 1 5 (30000 * day)) s1 =
      (fst (run_state (cleanup_dedup 1 5 (30000 * day)) s1), s2)" by (simp add: s2_def)
  from usage_retry_free [OF s r this] have "run_state (apply_usage sample_env sample_command) s2 = (Inr not_applied, s2)" .
  moreover have "ut_dedup (st_tabs s2) = []" unfolding s2_def s1_def s_def by code_simp
  ultimately show ?thesis by (simp add: Let_def s_def s1_def s2_def)
qed

text \<open>
  With a valid hour and weekday, the next reset of a fixed quota window is in the future, at most one
  period away, on the configured weekday and at the configured hour of the account's zone.
\<close>

theorem reset_times:
  assumes "0 \<le> or_midnight (qw_reset_hour w)" and "or_midnight (qw_reset_hour w) < 24"
    and "0 \<le> or_monday target" and "or_monday target \<le> 6"
    and "next_weekly_reset_at off target w n = Some t" and "next_daily_reset_at off w n = Some d"
  shows "n < t \<and> t \<le> n + 7 * day \<and> day_of_week off t = or_monday target \<and>
    (t + off) mod day = or_midnight (qw_reset_hour w) * hour \<and>
    n < d \<and> d \<le> n + day \<and> (d + off) mod day = or_midnight (qw_reset_hour w) * hour"
  using next_weekly_reset [OF assms(1-5)] next_daily_reset [OF assms(1,2,6)] by blast

theorem reset_times_witness:
  "let t = 20002 * day + 15 * hour; d = 20000 * day + 15 * hour; n = 20000 * day + 5 * hour in
   n < t \<and> t \<le> n + 7 * day \<and> day_of_week (8 * hour) t = 0 \<and> (t + 8 * hour) mod day = 23 * hour \<and>
    n < d \<and> d \<le> n + day \<and> (d + 8 * hour) mod day = 23 * hour"
  using reset_times [of "aq_weekly sample_quota" "Some 0" "8 * hour" "20000 * day + 5 * hour"
      "20002 * day + 15 * hour" "20000 * day + 15 * hour"]
  by code_simp

end
