(* ===== verification/Json.thy ===== *)
theory Json
  imports Utf8 "HOL-Library.Char_ord" "HOL-Library.List_Lexorder"
begin

section \<open>JSON texts\<close>

text \<open>
  The parts of Go's \<open>encoding/json\<close> the code uses: the check and the decoding of a text into raw
  members, and \<open>Marshal\<close> of strings, raw messages and maps.  A value keeps its texts: a literal or number as
  written and a string as written between its quotes, so that re-encoding a raw message
  (\<open>Compact\<close> with HTML escapes) loses only the white space.
\<close>

datatype json = JRaw string | JText string | JArr "json list" | JObj "(string \<times> json) list"

subsection \<open>Reading\<close>

definition json_ws :: "char \<Rightarrow> bool" where
  "json_ws c \<longleftrightarrow> c \<in> {CHR 0x20, CHR 0x09, CHR 0x0A, CHR 0x0D}"

definition skip_ws :: "string \<Rightarrow> string" where
  "skip_ws s = dropWhile json_ws s"

definition hex_digit :: "char \<Rightarrow> bool" where
  "hex_digit c \<longleftrightarrow> (48 \<le> byte c \<and> byte c \<le> 57) \<or> (65 \<le> byte c \<and> byte c \<le> 70) \<or> (97 \<le> byte c \<and> byte c \<le> 102)"

definition simple_escape :: "char \<Rightarrow> bool" where
  "simple_escape c \<longleftrightarrow> c \<in> set [CHR 0x22, CHR 0x5C, CHR ''/'', CHR ''b'', CHR ''f'', CHR ''n'', CHR ''r'', CHR ''t'']"

text \<open>The rest of a string, after its opening quote: its text and what follows the closing quote.\<close>

fun scan_string :: "string \<Rightarrow> (string \<times> string) option" where
  "scan_string [] = None"
| "scan_string (c # s) =
     (if c = CHR 0x22 then Some ([], s)
      else if byte c < 0x20 then None
      else if c = CHR 0x5C then
        (case s of
           [] \<Rightarrow> None
         | e # s' \<Rightarrow>
             if simple_escape e then map_option (\<lambda>(t, r). (c # e # t, r)) (scan_string s')
             else if e = CHR ''u'' then
               (case s' of
                  h1 # h2 # h3 # h4 # s'' \<Rightarrow>
                    if hex_digit h1 \<and> hex_digit h2 \<and> hex_digit h3 \<and> hex_digit h4
                    then map_option (\<lambda>(t, r). (c # e # h1 # h2 # h3 # h4 # t, r)) (scan_string s'')
                    else None
                | _ \<Rightarrow> None)
             else None)
      else map_option (\<lambda>(t, r). (c # t, r)) (scan_string s))"

definition digits :: "string \<Rightarrow> string \<times> string" where
  "digits s = (takeWhile is_digit s, dropWhile is_digit s)"

definition scan_int :: "string \<Rightarrow> (string \<times> string) option" where
  "scan_int s = (case s of
     [] \<Rightarrow> None
   | c # r \<Rightarrow> if c = CHR ''0'' then Some ([c], r) else if is_digit c then Some (digits s) else None)"

definition scan_fraction :: "string \<Rightarrow> (string \<times> string) option" where
  "scan_fraction s = (case s of
     c # r \<Rightarrow> if c = CHR ''.'' then (case digits r of ([], _) \<Rightarrow> None | (d, r') \<Rightarrow> Some (c # d, r')) else Some ([], s)
   | [] \<Rightarrow> Some ([], s))"

definition scan_sign :: "char list \<Rightarrow> string \<Rightarrow> string \<times> string" where
  "scan_sign signs s = (case s of c # r \<Rightarrow> if c \<in> set signs then ([c], r) else ([], s) | [] \<Rightarrow> ([], s))"

definition scan_exponent :: "string \<Rightarrow> (string \<times> string) option" where
  "scan_exponent s = (case s of
     c # r \<Rightarrow>
       if c = CHR ''e'' \<or> c = CHR ''E'' then
         (case scan_sign ''+-'' r of (sign, r1) \<Rightarrow>
          (case digits r1 of ([], _) \<Rightarrow> None | (d, r2) \<Rightarrow> Some (c # sign @ d, r2)))
       else Some ([], s)
   | [] \<Rightarrow> Some ([], s))"

definition scan_number :: "string \<Rightarrow> (string \<times> string) option" where
  "scan_number s = (case scan_sign ''-'' s of (sign, s1) \<Rightarrow>
     (case scan_int s1 of None \<Rightarrow> None | Some (i, s2) \<Rightarrow>
     (case scan_fraction s2 of None \<Rightarrow> None | Some (f, s3) \<Rightarrow>
     (case scan_exponent s3 of None \<Rightarrow> None | Some (e, s4) \<Rightarrow> Some (sign @ i @ f @ e, s4)))))"

definition scan_literal :: "string \<Rightarrow> (string \<times> string) option" where
  "scan_literal s =
     (if has_prefix s ''true'' then Some (''true'', drop 4 s)
      else if has_prefix s ''false'' then Some (''false'', drop 5 s)
      else if has_prefix s ''null'' then Some (''null'', drop 4 s)
      else scan_number s)"

text \<open>
  A value after white space.  The tests on the lengths always hold; they make the termination
  evident.
\<close>

function (sequential) read_value :: "string \<Rightarrow> (json \<times> string) option"
  and read_elems :: "string \<Rightarrow> (json list \<times> string) option"
  and read_members :: "string \<Rightarrow> ((string \<times> json) list \<times> string) option" where
  "read_value s = (case skip_ws s of
     [] \<Rightarrow> None
   | c # r \<Rightarrow>
       if length s < length (c # r) then None
       else if c = CHR 0x22 then map_option (\<lambda>(t, r'). (JText t, r')) (scan_string r)
       else if c = CHR ''['' then
         (case skip_ws r of
            d # r' \<Rightarrow> if d = CHR '']'' then Some (JArr [], r') else map_option (\<lambda>(xs, r''). (JArr xs, r'')) (read_elems r)
          | [] \<Rightarrow> None)
       else if c = CHR ''{'' then
         (case skip_ws r of
            d # r' \<Rightarrow> if d = CHR ''}'' then Some (JObj [], r') else map_option (\<lambda>(xs, r''). (JObj xs, r'')) (read_members r)
          | [] \<Rightarrow> None)
       else map_option (\<lambda>(t, r'). (JRaw t, r')) (scan_literal (c # r)))"
| "read_elems s = (case read_value s of
     None \<Rightarrow> None
   | Some (x, r) \<Rightarrow>
       (case skip_ws r of
          c # r' \<Rightarrow>
            if c = CHR '']'' then Some ([x], r')
            else if c = CHR '','' \<and> length r' < length s then map_option (\<lambda>(xs, r''). (x # xs, r'')) (read_elems r')
            else None
        | [] \<Rightarrow> None))"
| "read_members s = (case skip_ws s of
     q # r \<Rightarrow>
       if q \<noteq> CHR 0x22 then None
       else (case scan_string r of
          None \<Rightarrow> None
        | Some (k, r1) \<Rightarrow>
            (case skip_ws r1 of
               c # r2 \<Rightarrow>
                 if c \<noteq> CHR '':'' \<or> length s \<le> length r2 then None
                 else (case read_value r2 of
                    None \<Rightarrow> None
                  | Some (x, r3) \<Rightarrow>
                      (case skip_ws r3 of
                         d # r4 \<Rightarrow>
                           if d = CHR ''}'' then Some ([(k, x)], r4)
                           else if d = CHR '','' \<and> length r4 < length s
                           then map_option (\<lambda>(xs, r5). ((k, x) # xs, r5)) (read_members r4)
                           else None
                       | [] \<Rightarrow> None))
             | [] \<Rightarrow> None))
   | [] \<Rightarrow> None)"
  by pat_completeness auto
termination
  by (relation "measure (\<lambda>x. case x of Inl s \<Rightarrow> 2 * length s
       | Inr (Inl s) \<Rightarrow> Suc (2 * length s) | Inr (Inr s) \<Rightarrow> Suc (2 * length s))") auto

text \<open>\<open>json.Valid\<close> and the value: one value and white space.\<close>

definition parse_json :: "string \<Rightarrow> json option" where
  "parse_json s = (case read_value s of
     None \<Rightarrow> None | Some (v, r) \<Rightarrow> if skip_ws r = [] then Some v else None)"

text \<open>The text of a string: escapes decoded, surrogates paired, invalid bytes replaced.\<close>

definition hex_value :: "char \<Rightarrow> int" where
  "hex_value c = (if byte c \<le> 57 then byte c - 48 else if byte c \<le> 70 then byte c - 55 else byte c - 87)"

definition hex4 :: "string \<Rightarrow> int" where
  "hex4 h = foldl (\<lambda>n c. 16 * n + hex_value c) 0 h"

definition simple_unescape :: "char \<Rightarrow> char" where
  "simple_unescape e = (if e = CHR ''b'' then CHR 0x08 else if e = CHR ''f'' then CHR 0x0C
     else if e = CHR ''n'' then CHR 0x0A else if e = CHR ''r'' then CHR 0x0D
     else if e = CHR ''t'' then CHR 0x09 else e)"

text \<open>A surrogate with the one that follows it, if it does.\<close>

definition low_half :: "int \<Rightarrow> char \<Rightarrow> char \<Rightarrow> int \<Rightarrow> bool" where
  "low_half n b u m \<longleftrightarrow> b = CHR 0x5C \<and> u = CHR ''u'' \<and> n < 0xDC00 \<and> 0xDC00 \<le> m \<and> m \<le> 0xDFFF"

definition paired :: "int \<Rightarrow> int \<Rightarrow> int" where
  "paired n m = 0x10000 + (n - 0xD800) * 1024 + (m - 0xDC00)"

definition surrogate :: "int \<Rightarrow> bool" where
  "surrogate n \<longleftrightarrow> 0xD800 \<le> n \<and> n \<le> 0xDFFF"

fun unescape :: "string \<Rightarrow> string" where
  "unescape [] = []"
| "unescape (c # s) =
     (if c \<noteq> CHR 0x5C then c # unescape s
      else (case s of
         [] \<Rightarrow> []
       | e # s' \<Rightarrow>
           if e \<noteq> CHR ''u'' then simple_unescape e # unescape s'
           else (case s' of
              h1 # h2 # h3 # h4 # s'' \<Rightarrow>
                if \<not> surrogate (hex4 [h1, h2, h3, h4]) then encode_rune (hex4 [h1, h2, h3, h4]) @ unescape s''
                else (case s'' of
                    b # u # l1 # l2 # l3 # l4 # s3 \<Rightarrow>
                      if low_half (hex4 [h1, h2, h3, h4]) b u (hex4 [l1, l2, l3, l4])
                      then encode_rune (paired (hex4 [h1, h2, h3, h4]) (hex4 [l1, l2, l3, l4])) @ unescape s3
                      else rune_error @ unescape s''
                  | _ \<Rightarrow> rune_error @ unescape s'')
            | _ \<Rightarrow> [])))"

definition text_of :: "string \<Rightarrow> string" where
  "text_of t = to_valid_utf8 (unescape t)"

subsection \<open>Writing\<close>

definition hex_char :: "int \<Rightarrow> char" where
  "hex_char n = (if n < 10 then char_of (48 + n) else char_of (87 + n))"

definition escape_u00 :: "char \<Rightarrow> string" where
  "escape_u00 c = [CHR 0x5C, CHR ''u'', CHR ''0'', CHR ''0'', hex_char (byte c div 16), hex_char (byte c mod 16)]"

definition html_char :: "char \<Rightarrow> bool" where
  "html_char c \<longleftrightarrow> c \<in> set ''<>&''"

definition quote_char :: "char \<Rightarrow> string" where
  "quote_char c =
     (if c = CHR 0x22 \<or> c = CHR 0x5C then [CHR 0x5C, c]
      else if c = CHR 0x08 then [CHR 0x5C, CHR ''b''] else if c = CHR 0x0C then [CHR 0x5C, CHR ''f'']
      else if c = CHR 0x0A then [CHR 0x5C, CHR ''n''] else if c = CHR 0x0D then [CHR 0x5C, CHR ''r'']
      else if c = CHR 0x09 then [CHR 0x5C, CHR ''t'']
      else if byte c < 0x20 \<or> html_char c then escape_u00 c else [c])"

text \<open>U+2028 and U+2029 are escaped as well.\<close>

fun escape_lines :: "string \<Rightarrow> string" where
  "escape_lines (a # b # c # s) =
     (if a = CHR 0xE2 \<and> b = CHR 0x80 \<and> (c = CHR 0xA8 \<or> c = CHR 0xA9)
      then [CHR 0x5C, CHR ''u'', CHR ''2'', CHR ''0'', CHR ''2'', hex_char (byte c - 0xA0)] @ escape_lines s
      else a # escape_lines (b # c # s))"
| "escape_lines s = s"

definition json_quote :: "string \<Rightarrow> string" where
  "json_quote s = CHR 0x22 # escape_lines (concat (map quote_char (to_valid_utf8 s))) @ [CHR 0x22]"

definition html_escape :: "string \<Rightarrow> string" where
  "html_escape t = escape_lines (concat (map (\<lambda>c. if html_char c then escape_u00 c else [c]) t))"

fun sep_by :: "string \<Rightarrow> string list \<Rightarrow> string" where
  "sep_by p [] = []"
| "sep_by p [s] = s"
| "sep_by p (s # ss) = s @ p @ sep_by p ss"

text \<open>A raw message re-encoded.\<close>

fun compact :: "json \<Rightarrow> string" where
  "compact (JRaw t) = t"
| "compact (JText t) = CHR 0x22 # html_escape t @ [CHR 0x22]"
| "compact (JArr xs) = ''['' @ sep_by '','' (map compact xs) @ '']''"
| "compact (JObj ms) = ''{'' @ sep_by '',''
     (map (\<lambda>(k, x). (CHR 0x22 # html_escape k @ [CHR 0x22]) @ '':'' @ compact x) ms) @ ''}''"

text \<open>
  An object decoded into a Go map from keys to raw messages, the last of equal keys winning, and a map
  encoded, by ascending keys.
\<close>

definition put_member :: "string \<Rightarrow> json \<Rightarrow> (string \<times> json) list \<Rightarrow> (string \<times> json) list" where
  "put_member k x m = (k, x) # filter (\<lambda>p. fst p \<noteq> k) m"

definition add_member :: "(string \<times> json) list \<Rightarrow> string \<times> json \<Rightarrow> (string \<times> json) list" where
  "add_member m p = put_member (text_of (fst p)) (snd p) m"

definition raw_members :: "string \<Rightarrow> (string \<times> json) list option" where
  "raw_members s = (case parse_json s of
     Some (JObj ms) \<Rightarrow> Some (foldl add_member [] ms)
   | Some (JRaw t) \<Rightarrow> if t = ''null'' then Some [] else None
   | _ \<Rightarrow> None)"

definition write_member :: "string \<times> json \<Rightarrow> string" where
  "write_member p = json_quote (fst p) @ '':'' @ compact (snd p)"

definition marshal_members :: "(string \<times> json) list \<Rightarrow> string" where
  "marshal_members ms =
     ''{'' @ sep_by '','' (map write_member (sort_key fst ms)) @ ''}''"

text \<open>Texts with quotes, written as grave accents, and with backslashes, written as bars.\<close>

definition quoted :: "string \<Rightarrow> string" where
  "quoted s = map (\<lambda>c. if c = CHR 0x60 then CHR 0x22 else if c = CHR ''|'' then CHR 0x5C else c) s"

lemma json_examples:
  "raw_members (quoted '' {`b` : [1, -2.5e+3, {`x`:null}], `a`: `p|u0041<` , `b`:true } '') =
     Some [(''b'', JRaw ''true''), (''a'', JText (quoted ''p|u0041<''))]"
  "raw_members ''[1]'' = None" "raw_members (quoted ''{`a`:01}'') = None" "raw_members ''{} x'' = None"
  "text_of (quoted ''p|u0041|ud83d|ude00'') = ''pA'' @ [CHR 0xF0, CHR 0x9F, CHR 0x98, CHR 0x80]"
  "marshal_members [(''b'', JArr [JRaw ''1'', JText ''<'']), (''a'', JRaw ''true'')] =
     quoted ''{`a`:true,`b`:[1,`|u003c`]}''"
  by code_simp+

end
