(* ===== verification/ApiTypes.thy ===== *)
theory ApiTypes
  imports Json
begin

section \<open>The messages of the three APIs\<close>

text \<open>
  \<open>pkg/apicompat/types.go\<close>: the responses and stream events of the Anthropic Messages, OpenAI Responses
  and Chat Completions APIs.  A raw JSON message is its text, empty for \<open>nil\<close>; a pointer is an option.
  Every stream converter is a function from an event and its state to the events it emits and the
  state after it; \<open>emit_all\<close> runs one over a stream.
\<close>

subsection \<open>Responses\<close>

record input_details =
  id_cached :: int
  id_audio :: int

record output_details =
  od_reasoning :: int
  od_audio :: int
  od_accepted :: int
  od_rejected :: int

record responses_usage =
  ru_input :: int
  ru_output :: int
  ru_total :: int
  ru_input_details :: "input_details option"
  ru_output_details :: "output_details option"

record content_part =
  cp_type :: string
  cp_text :: string
  cp_image_url :: string

record responses_summary =
  rm_type :: string
  rm_text :: string

record search_action =
  sa_type :: string
  sa_query :: string

record responses_output =
  ro_type :: string
  ro_id :: string
  ro_role :: string
  ro_content :: "content_part list"
  ro_status :: string
  ro_encrypted :: string
  ro_summary :: "responses_summary list"
  ro_call_id :: string
  ro_name :: string
  ro_arguments :: string
  ro_action :: "search_action option"

definition output_item :: "string \<Rightarrow> responses_output" where
  "output_item ty = \<lparr>ro_type = ty, ro_id = [], ro_role = [], ro_content = [], ro_status = [], ro_encrypted = [],
     ro_summary = [], ro_call_id = [], ro_name = [], ro_arguments = [], ro_action = None\<rparr>"

record responses_response =
  rr_id :: string
  rr_object :: string
  rr_model :: string
  rr_status :: string
  rr_output :: "responses_output list"
  rr_usage :: "responses_usage option"
  rr_incomplete :: "string option"
  rr_error :: "(string \<times> string) option"

record responses_event =
  re_type :: string
  re_response :: "responses_response option"
  re_usage :: "responses_usage option"
  re_item :: "responses_output option"
  re_output_index :: int
  re_content_index :: int
  re_delta :: string
  re_text :: string
  re_item_id :: string
  re_call_id :: string
  re_name :: string
  re_arguments :: string
  re_summary_index :: int
  re_part :: "content_part option"
  re_code :: string
  re_param :: string
  re_seq :: int

definition responses_event :: "string \<Rightarrow> responses_event" where
  "responses_event ty = \<lparr>re_type = ty, re_response = None, re_usage = None, re_item = None, re_output_index = 0,
     re_content_index = 0, re_delta = [], re_text = [], re_item_id = [], re_call_id = [], re_name = [],
     re_arguments = [], re_summary_index = 0, re_part = None, re_code = [], re_param = [], re_seq = 0\<rparr>"

text \<open>The events that end a stream.\<close>

definition terminal_event :: "string \<Rightarrow> bool" where
  "terminal_event ty \<longleftrightarrow>
     ty \<in> {''response.completed'', ''response.done'', ''response.incomplete'', ''response.failed''}"

definition text_delta_event :: "string \<Rightarrow> bool" where
  "text_delta_event ty \<longleftrightarrow> ty = ''response.output_text.delta''"

definition args_delta_event :: "string \<Rightarrow> bool" where
  "args_delta_event ty \<longleftrightarrow>
     ty \<in> {''response.function_call_arguments.delta'', ''response.custom_tool_call_input.delta''}"

definition reasoning_delta_event :: "string \<Rightarrow> bool" where
  "reasoning_delta_event ty \<longleftrightarrow>
     ty \<in> {''response.reasoning_summary_text.delta'', ''response.reasoning_text.delta''}"

definition tool_item :: "responses_output \<Rightarrow> bool" where
  "tool_item it \<longleftrightarrow> ro_type it \<in> {''function_call'', ''custom_tool_call''}"

subsection \<open>Anthropic\<close>

record anthropic_usage =
  au_input :: int
  au_output :: int
  au_cache_creation :: int
  au_cache_read :: int

record image_source =
  im_type :: string
  im_media_type :: string
  im_data :: string

record cache_control =
  cc_type :: string
  cc_ttl :: string

record anthropic_block =
  ab_type :: string
  ab_cache_control :: "cache_control option"
  ab_text :: string
  ab_thinking :: string
  ab_source :: "image_source option"
  ab_id :: string
  ab_name :: string
  ab_input :: string
  ab_tool_use_id :: string
  ab_content :: string
  ab_is_error :: bool

definition anthropic_block :: "string \<Rightarrow> anthropic_block" where
  "anthropic_block ty = \<lparr>ab_type = ty, ab_cache_control = None, ab_text = [], ab_thinking = [], ab_source = None, ab_id = [], ab_name = [], ab_input = [],
     ab_tool_use_id = [], ab_content = [], ab_is_error = False\<rparr>"

record anthropic_message =
  am_id :: string
  am_type :: string
  am_role :: string
  am_content :: "anthropic_block list"
  am_model :: string
  am_stop_reason :: string
  am_stop_sequence :: "string option"
  am_usage :: anthropic_usage

record anthropic_delta =
  ad_type :: string
  ad_text :: string
  ad_partial_json :: string
  ad_thinking :: string
  ad_signature :: string
  ad_stop_reason :: string
  ad_stop_sequence :: "string option"

definition anthropic_delta :: "string \<Rightarrow> anthropic_delta" where
  "anthropic_delta ty = \<lparr>ad_type = ty, ad_text = [], ad_partial_json = [], ad_thinking = [], ad_signature = [],
     ad_stop_reason = [], ad_stop_sequence = None\<rparr>"

record anthropic_event =
  ae_type :: string
  ae_message :: "anthropic_message option"
  ae_index :: "int option"
  ae_block :: "anthropic_block option"
  ae_delta :: "anthropic_delta option"
  ae_usage :: "anthropic_usage option"

definition anthropic_event :: "string \<Rightarrow> anthropic_event" where
  "anthropic_event ty = \<lparr>ae_type = ty, ae_message = None, ae_index = None, ae_block = None, ae_delta = None,
     ae_usage = None\<rparr>"

subsection \<open>Chat Completions\<close>

record chat_details =
  cd_cached :: int
  cd_audio :: int
  cd_reasoning :: int
  cd_accepted :: int
  cd_rejected :: int

record chat_usage =
  cu_prompt :: int
  cu_completion :: int
  cu_total :: int
  cu_prompt_details :: "chat_details option"
  cu_completion_details :: "chat_details option"

record chat_tool_call =
  tc_index :: "int option"
  tc_id :: string
  tc_type :: string
  tc_name :: string
  tc_arguments :: string

record chat_message =
  ch_role :: string
  ch_content :: string
  ch_reasoning :: string
  ch_name :: string
  ch_tool_calls :: "chat_tool_call list"
  ch_tool_call_id :: string
  ch_function_call :: "(string \<times> string) option"

record chat_response =
  cr_id :: string
  cr_object :: string
  cr_created :: int64
  cr_model :: string
  cr_choices :: "(int \<times> chat_message \<times> string) list"
  cr_usage :: "chat_usage option"
  cr_fingerprint :: string
  cr_service_tier :: string

record chat_delta =
  dl_role :: string
  dl_content :: "string option"
  dl_reasoning :: "string option"
  dl_tool_calls :: "chat_tool_call list"

definition chat_delta :: chat_delta where
  "chat_delta = \<lparr>dl_role = [], dl_content = None, dl_reasoning = None, dl_tool_calls = []\<rparr>"

record chat_chunk =
  ck_id :: string
  ck_object :: string
  ck_created :: int64
  ck_model :: string
  ck_choices :: "(int \<times> chat_delta \<times> string option) list"
  ck_usage :: "chat_usage option"
  ck_fingerprint :: string
  ck_service_tier :: string

subsection \<open>Converters\<close>

type_synonym ('e, 's, 'o) converter = "'e \<Rightarrow> 's \<Rightarrow> 'o list \<times> 's"

fun emit_all :: "('e, 's, 'o) converter \<Rightarrow> 'e list \<Rightarrow> 's \<Rightarrow> 'o list \<times> 's" where
  "emit_all f [] s = ([], s)"
| "emit_all f (e # es) s = (case f e s of (os, s1) \<Rightarrow> case emit_all f es s1 of (os', s2) \<Rightarrow> (os @ os', s2))"

lemma emit_all_append:
  "emit_all f (es @ fs) s = (case emit_all f es s of (os, s1) \<Rightarrow> case emit_all f fs s1 of (os', s2) \<Rightarrow> (os @ os', s2))"
  by (induction es arbitrary: s) (auto split: prod.splits)

text \<open>Emitting more after what was emitted.\<close>

definition with_prefix :: "'o list \<Rightarrow> 'o list \<times> 's \<Rightarrow> 'o list \<times> 's" where
  "with_prefix os r = (os @ fst r, snd r)"

text \<open>\<open>fromResponsesCallID\<close> and \<open>toResponsesCallID\<close>.\<close>

definition from_responses_call_id :: "string \<Rightarrow> string" where
  "from_responses_call_id i =
     (if has_prefix i ''fc_'' \<and> (has_prefix (drop 3 i) ''toolu_'' \<or> has_prefix (drop 3 i) ''call_'')
      then drop 3 i else i)"

definition to_responses_call_id :: "string \<Rightarrow> string" where
  "to_responses_call_id i = i"

end
