(* ===== verification/RespToAnth.thy ===== *)
theory RespToAnth
  imports ApiTypes
begin

section \<open>Responses to Anthropic\<close>

text \<open>
  \<open>pkg/apicompat/responses_to_anthropic.go\<close>: the conversion of a whole response, and the converter of a
  stream, which numbers the content blocks and keeps at most one open.
\<close>

subsection \<open>Whole responses\<close>

definition pages_empty :: "(string \<times> json) list \<Rightarrow> bool" where
  "pages_empty ms \<longleftrightarrow> map_of ms ''pages'' = Some (JText [])"

definition sanitize_tool_input :: "string \<Rightarrow> string \<Rightarrow> string" where
  "sanitize_tool_input name raw =
     (if name \<noteq> ''Read'' \<or> raw = [] then raw
      else case raw_members raw of
        None \<Rightarrow> raw
      | Some ms \<Rightarrow> if pages_empty ms then marshal_members (filter (\<lambda>m. fst m \<noteq> ''pages'') ms) else raw)"

definition search_query :: "responses_output \<Rightarrow> string" where
  "search_query it = (case ro_action it of None \<Rightarrow> [] | Some a \<Rightarrow> sa_query a)"

definition search_input :: "responses_output \<Rightarrow> string" where
  "search_input it = ''{'' @ json_quote ''query'' @ '':'' @ json_quote (search_query it) @ ''}''"

definition search_use_block :: "responses_output \<Rightarrow> anthropic_block" where
  "search_use_block it = (anthropic_block ''server_tool_use'')\<lparr>ab_id := ''srvtoolu_'' @ ro_id it,
     ab_name := ''web_search'', ab_input := search_input it\<rparr>"

definition search_result_block :: "responses_output \<Rightarrow> anthropic_block" where
  "search_result_block it = (anthropic_block ''web_search_tool_result'')\<lparr>ab_tool_use_id := ''srvtoolu_'' @ ro_id it,
     ab_content := ''[]''\<rparr>"

definition summary_text :: "responses_summary list \<Rightarrow> string" where
  "summary_text ss = concat (map (\<lambda>s. if rm_type s = ''summary_text'' then rm_text s else []) ss)"

definition item_blocks :: "responses_output \<Rightarrow> anthropic_block list" where
  "item_blocks it =
     (if ro_type it = ''reasoning'' then
        (if summary_text (ro_summary it) = [] then []
         else [(anthropic_block ''thinking'')\<lparr>ab_thinking := summary_text (ro_summary it)\<rparr>])
      else if ro_type it = ''message'' then
        map (\<lambda>p. (anthropic_block ''text'')\<lparr>ab_text := cp_text p\<rparr>)
          (filter (\<lambda>p. cp_type p = ''output_text'' \<and> cp_text p \<noteq> []) (ro_content it))
      else if ro_type it = ''function_call'' then
        [(anthropic_block ''tool_use'')\<lparr>ab_id := from_responses_call_id (ro_call_id it), ab_name := ro_name it,
           ab_input := sanitize_tool_input (ro_name it) (ro_arguments it)\<rparr>]
      else if ro_type it = ''web_search_call'' then [search_use_block it, search_result_block it]
      else [])"

definition contains_tool_use :: "anthropic_block list \<Rightarrow> bool" where
  "contains_tool_use bs \<longleftrightarrow> (\<exists>b \<in> set bs. ab_type b = ''tool_use'')"

definition stop_reason_of :: "string \<Rightarrow> string option \<Rightarrow> anthropic_block list \<Rightarrow> string" where
  "stop_reason_of status details bs =
     (if status = ''incomplete'' then
        (if details = Some ''max_output_tokens'' then ''max_tokens'' else ''end_turn'')
      else if status = ''completed'' then (if contains_tool_use bs then ''tool_use'' else ''end_turn'')
      else ''end_turn'')"

definition no_usage :: anthropic_usage where
  "no_usage = \<lparr>au_input = 0, au_output = 0, au_cache_creation = 0, au_cache_read = 0\<rparr>"

definition anthropic_usage_of :: "responses_usage option \<Rightarrow> anthropic_usage" where
  "anthropic_usage_of u = (case u of
     None \<Rightarrow> no_usage
   | Some u \<Rightarrow>
       let cached = (case ru_input_details u of None \<Rightarrow> 0 | Some d \<Rightarrow> id_cached d) in
       \<lparr>au_input = max 0 (ru_input u - cached), au_output = ru_output u, au_cache_creation = 0, au_cache_read = cached\<rparr>)"

definition responses_to_anthropic :: "responses_response \<Rightarrow> string \<Rightarrow> anthropic_message" where
  "responses_to_anthropic r model =
     (let bs = concat (map item_blocks (rr_output r));
          blocks = (if bs = [] then [anthropic_block ''text''] else bs) in
      \<lparr>am_id = rr_id r, am_type = ''message'', am_role = ''assistant'', am_content = blocks, am_model = model,
       am_stop_reason = stop_reason_of (rr_status r) (rr_incomplete r) blocks, am_stop_sequence = None,
       am_usage = anthropic_usage_of (rr_usage r)\<rparr>)"

subsection \<open>The state of a stream\<close>

record to_anth =
  xa_started :: bool
  xa_stopped :: bool
  xa_index :: int
  xa_open :: bool
  xa_block_type :: string
  xa_tool_name :: string
  xa_tool_args :: string
  xa_had_delta :: bool
  xa_has_tool :: bool
  xa_map :: "int \<rightharpoonup> int"
  xa_input :: int
  xa_output :: int
  xa_cache_read :: int
  xa_response_id :: string
  xa_model :: string
  xa_created :: int64

definition new_to_anth :: "string \<Rightarrow> int64 \<Rightarrow> to_anth" where
  "new_to_anth model created = \<lparr>xa_started = False, xa_stopped = False, xa_index = 0, xa_open = False,
     xa_block_type = [], xa_tool_name = [], xa_tool_args = [], xa_had_delta = False, xa_has_tool = False,
     xa_map = Map.empty, xa_input = 0, xa_output = 0, xa_cache_read = 0, xa_response_id = [], xa_model = model,
     xa_created = created\<rparr>"

type_synonym anth_out = "anthropic_event list \<times> to_anth"

definition block_start :: "int \<Rightarrow> anthropic_block \<Rightarrow> anthropic_event" where
  "block_start i b = (anthropic_event ''content_block_start'')\<lparr>ae_index := Some i, ae_block := Some b\<rparr>"

definition block_stop :: "int \<Rightarrow> anthropic_event" where
  "block_stop i = (anthropic_event ''content_block_stop'')\<lparr>ae_index := Some i\<rparr>"

definition block_delta :: "int \<Rightarrow> anthropic_delta \<Rightarrow> anthropic_event" where
  "block_delta i d = (anthropic_event ''content_block_delta'')\<lparr>ae_index := Some i, ae_delta := Some d\<rparr>"

definition text_piece :: "string \<Rightarrow> anthropic_delta" where
  "text_piece t = (anthropic_delta ''text_delta'')\<lparr>ad_text := t\<rparr>"

definition json_piece :: "string \<Rightarrow> anthropic_delta" where
  "json_piece t = (anthropic_delta ''input_json_delta'')\<lparr>ad_partial_json := t\<rparr>"

definition thinking_piece :: "string \<Rightarrow> anthropic_delta" where
  "thinking_piece t = (anthropic_delta ''thinking_delta'')\<lparr>ad_thinking := t\<rparr>"

definition close_current_block :: "to_anth \<Rightarrow> anth_out" where
  "close_current_block s =
     (if \<not> xa_open s then ([], s)
      else ([block_stop (xa_index s)], s\<lparr>xa_open := False, xa_index := xa_index s + 1, xa_tool_name := [],
        xa_tool_args := [], xa_had_delta := False\<rparr>))"

subsection \<open>The handlers\<close>

definition handle_created :: "responses_event \<Rightarrow> to_anth \<Rightarrow> anth_out" where
  "handle_created e s =
     (let s1 = (case re_response e of None \<Rightarrow> s | Some r \<Rightarrow>
          s\<lparr>xa_response_id := rr_id r, xa_model := (if xa_model s = [] then rr_model r else xa_model s)\<rparr>) in
      if xa_started s1 then ([], s1)
      else ([(anthropic_event ''message_start'')\<lparr>ae_message := Some
          \<lparr>am_id = xa_response_id s1, am_type = ''message'', am_role = ''assistant'', am_content = [],
           am_model = xa_model s1, am_stop_reason = [], am_stop_sequence = None, am_usage = no_usage\<rparr>\<rparr>],
        s1\<lparr>xa_started := True\<rparr>))"

definition handle_item_added :: "responses_event \<Rightarrow> to_anth \<Rightarrow> anth_out" where
  "handle_item_added e s = (case re_item e of
     None \<Rightarrow> ([], s)
   | Some it \<Rightarrow>
       if tool_item it then
         (case close_current_block s of (es, s1) \<Rightarrow>
           (es @ [block_start (xa_index s1) ((anthropic_block ''tool_use'')\<lparr>ab_id := from_responses_call_id (ro_call_id it),
              ab_name := ro_name it, ab_input := ''{}''\<rparr>)],
            s1\<lparr>xa_map := (xa_map s1)(re_output_index e \<mapsto> xa_index s1), xa_open := True, xa_block_type := ''tool_use'',
              xa_tool_name := ro_name it, xa_tool_args := [], xa_had_delta := False, xa_has_tool := True\<rparr>))
       else if ro_type it = ''reasoning'' then
         (case close_current_block s of (es, s1) \<Rightarrow>
           (es @ [block_start (xa_index s1) (anthropic_block ''thinking'')],
            s1\<lparr>xa_map := (xa_map s1)(re_output_index e \<mapsto> xa_index s1), xa_open := True, xa_block_type := ''thinking''\<rparr>))
       else ([], s))"

definition open_text :: "to_anth \<Rightarrow> anth_out" where
  "open_text s =
     (if xa_open s \<and> xa_block_type s = ''text'' then ([], s)
      else (case close_current_block s of (es, s1) \<Rightarrow>
        (es @ [block_start (xa_index s1) (anthropic_block ''text'')], s1\<lparr>xa_open := True, xa_block_type := ''text''\<rparr>)))"

definition handle_text_delta :: "responses_event \<Rightarrow> to_anth \<Rightarrow> anth_out" where
  "handle_text_delta e s =
     (if re_delta e = [] then ([], s)
      else (case open_text s of (es, s1) \<Rightarrow> (es @ [block_delta (xa_index s1) (text_piece (re_delta e))], s1)))"

definition handle_args_delta :: "responses_event \<Rightarrow> to_anth \<Rightarrow> anth_out" where
  "handle_args_delta e s =
     (if re_delta e = [] then ([], s)
      else if xa_block_type s = ''tool_use'' \<and> xa_tool_name s = ''Read'' then
        ([], s\<lparr>xa_tool_args := xa_tool_args s @ re_delta e\<rparr>)
      else
        let s1 = (if xa_block_type s = ''tool_use'' then s\<lparr>xa_had_delta := True\<rparr> else s) in
        (case xa_map s1 (re_output_index e) of
           None \<Rightarrow> ([], s1)
         | Some i \<Rightarrow> ([block_delta i (json_piece (re_delta e))], s1)))"

definition handle_args_done :: "responses_event \<Rightarrow> to_anth \<Rightarrow> anth_out" where
  "handle_args_done e s =
     (if xa_block_type s \<noteq> ''tool_use'' then close_current_block s
      else
        let raw = (if re_arguments e = [] then xa_tool_args s else re_arguments e);
            out = (if xa_tool_name s = ''Read'' then sanitize_tool_input (xa_tool_name s) raw else raw) in
        if raw = [] \<or> xa_had_delta s \<or> out = [] then close_current_block s
        else (case close_current_block s of (es, s1) \<Rightarrow> (block_delta (xa_index s) (json_piece out) # es, s1)))"

definition handle_reasoning_delta :: "responses_event \<Rightarrow> to_anth \<Rightarrow> anth_out" where
  "handle_reasoning_delta e s =
     (if re_delta e = [] then ([], s)
      else (case xa_map s (re_output_index e) of
        None \<Rightarrow> ([], s)
      | Some i \<Rightarrow> ([block_delta i (thinking_piece (re_delta e))], s)))"

definition handle_search_done :: "responses_output \<Rightarrow> to_anth \<Rightarrow> anth_out" where
  "handle_search_done it s = (case close_current_block s of (es, s1) \<Rightarrow>
     (es @ [block_start (xa_index s1) (search_use_block it), block_stop (xa_index s1),
            block_start (xa_index s1 + 1) (search_result_block it), block_stop (xa_index s1 + 1)],
      s1\<lparr>xa_index := xa_index s1 + 2\<rparr>))"

definition handle_item_done :: "responses_event \<Rightarrow> to_anth \<Rightarrow> anth_out" where
  "handle_item_done e s = (case re_item e of
     None \<Rightarrow> ([], s)
   | Some it \<Rightarrow>
       if ro_type it = ''web_search_call'' \<and> ro_status it = ''completed'' then handle_search_done it s
       else close_current_block s)"

definition note_usage :: "responses_usage option \<Rightarrow> to_anth \<Rightarrow> to_anth" where
  "note_usage u s = (case u of
     None \<Rightarrow> s
   | Some _ \<Rightarrow> s\<lparr>xa_input := au_input (anthropic_usage_of u), xa_output := au_output (anthropic_usage_of u),
       xa_cache_read := au_cache_read (anthropic_usage_of u)\<rparr>)"

definition message_end :: "string \<Rightarrow> to_anth \<Rightarrow> anthropic_event list" where
  "message_end reason s =
     [(anthropic_event ''message_delta'')\<lparr>ae_delta := Some ((anthropic_delta [])\<lparr>ad_stop_reason := reason\<rparr>),
        ae_usage := Some \<lparr>au_input = xa_input s, au_output = xa_output s, au_cache_creation = 0,
          au_cache_read = xa_cache_read s\<rparr>\<rparr>,
      anthropic_event ''message_stop'']"

definition stream_stop_reason :: "responses_event \<Rightarrow> to_anth \<Rightarrow> string" where
  "stream_stop_reason e s = (case re_response e of
     None \<Rightarrow> ''end_turn''
   | Some r \<Rightarrow>
       if rr_status r = ''incomplete'' \<and> rr_incomplete r = Some ''max_output_tokens'' then ''max_tokens''
       else if rr_status r = ''completed'' \<and> xa_has_tool s then ''tool_use'' else ''end_turn'')"

definition handle_completed :: "responses_event \<Rightarrow> to_anth \<Rightarrow> anth_out" where
  "handle_completed e s =
     (if xa_stopped s then ([], s)
      else (case close_current_block s of (es, s1) \<Rightarrow>
        let s2 = note_usage (Option.bind (re_response e) rr_usage) (note_usage (re_usage e) s1) in
        (es @ message_end (stream_stop_reason e s2) s2, s2\<lparr>xa_stopped := True\<rparr>)))"

definition to_anthropic_events :: "(responses_event, to_anth, anthropic_event) converter" where
  "to_anthropic_events e s =
     (let ty = re_type e in
      if ty = ''response.created'' then handle_created e s
      else if ty = ''response.output_item.added'' then handle_item_added e s
      else if text_delta_event ty then handle_text_delta e s
      else if ty = ''response.output_text.done'' then close_current_block s
      else if args_delta_event ty then handle_args_delta e s
      else if ty = ''response.function_call_arguments.done'' then handle_args_done e s
      else if ty = ''response.output_item.done'' then handle_item_done e s
      else if reasoning_delta_event ty then handle_reasoning_delta e s
      else if ty = ''response.reasoning_summary_text.done'' then close_current_block s
      else if terminal_event ty then handle_completed e s
      else ([], s))"

definition finalize_anthropic :: "to_anth \<Rightarrow> anth_out" where
  "finalize_anthropic s =
     (if \<not> xa_started s \<or> xa_stopped s then ([], s)
      else (case close_current_block s of (es, s1) \<Rightarrow>
        (es @ message_end (if xa_has_tool s1 then ''tool_use'' else ''end_turn'') s1, s1\<lparr>xa_stopped := True\<rparr>)))"

text \<open>
  The loop of \<open>openai_gateway_messages.go\<close> on a stream that ends with a terminal event: what follows it
  is not read, and the stream is finalized.  Without one the call fails after what was emitted.
\<close>

fun up_to_terminal :: "responses_event list \<Rightarrow> responses_event list \<times> bool" where
  "up_to_terminal [] = ([], False)"
| "up_to_terminal (e # es) =
     (if terminal_event (trim_space (re_type e)) then ([e], True) else (case up_to_terminal es of (fs, b) \<Rightarrow> (e # fs, b)))"

definition stream_messages :: "string \<Rightarrow> int64 \<Rightarrow> responses_event list \<Rightarrow> anthropic_event list \<times> bool" where
  "stream_messages model created es = (case up_to_terminal es of (fs, ended) \<Rightarrow>
     case emit_all to_anthropic_events fs (new_to_anth model created) of (os, s) \<Rightarrow>
       if ended then (os @ fst (finalize_anthropic s), True) else (os, False))"

subsection \<open>Blocks are numbered and opened one at a time\<close>

text \<open>
  The blocks of a message: the number of the next or current one, and whether it is open.  A start must
  name the next number while none is open, a stop the current one.
\<close>

definition is_start :: "anthropic_event \<Rightarrow> bool" where
  "is_start e \<longleftrightarrow> ae_type e = ''content_block_start''"

definition is_stop :: "anthropic_event \<Rightarrow> bool" where
  "is_stop e \<longleftrightarrow> ae_type e = ''content_block_stop''"

fun blocks :: "anthropic_event list \<Rightarrow> int \<times> bool \<Rightarrow> (int \<times> bool) option" where
  "blocks [] st = Some st"
| "blocks (e # es) (n, op) =
     (if is_start e then (if \<not> op \<and> ae_index e = Some n then blocks es (n, True) else None)
      else if is_stop e then (if op \<and> ae_index e = Some n then blocks es (n + 1, False) else None)
      else blocks es (n, op))"

lemma blocks_append: "blocks (es @ fs) st = Option.bind (blocks es st) (blocks fs)"
  by (induction es st rule: blocks.induct) auto

lemma event_kinds [simp]:
  "is_start (block_start i b)" "\<not> is_start (block_stop i)" "\<not> is_start (block_delta i d)"
  "is_stop (block_stop i)" "\<not> is_stop (block_start i b)" "\<not> is_stop (block_delta i d)"
  "ae_index (block_start i b) = Some i" "ae_index (block_stop i) = Some i" "ae_index (block_delta i d) = Some i"
  "ae_type (block_start i b) = ''content_block_start''" "ae_type (block_stop i) = ''content_block_stop''"
  "ae_type (block_delta i d) = ''content_block_delta''"
  "ae_block (block_start i b) = Some b" "ae_delta (block_delta i d) = Some d"
  by (simp_all add: is_start_def is_stop_def block_start_def block_stop_def block_delta_def anthropic_event_def)

lemma message_events [simp]:
  "blocks (message_end r s) st = Some st"
  "map ae_type (message_end r s) = [''message_delta'', ''message_stop'']"
  by (cases st; simp add: message_end_def is_start_def is_stop_def anthropic_event_def)+

definition numbered :: "(to_anth \<Rightarrow> anth_out) \<Rightarrow> bool" where
  "numbered h \<longleftrightarrow> (\<forall>s. case h s of (es, s') \<Rightarrow> blocks es (xa_index s, xa_open s) = Some (xa_index s', xa_open s'))"

named_theorems handler_defs

lemmas [handler_defs] = handle_created_def handle_item_added_def open_text_def handle_text_delta_def
  handle_args_delta_def handle_args_done_def handle_reasoning_delta_def handle_search_done_def handle_item_done_def
  handle_completed_def

lemma close_current: "numbered close_current_block"
  by (simp add: numbered_def close_current_block_def)

lemma numberedD: "numbered h \<Longrightarrow> h s = (es, s') \<Longrightarrow> blocks es (xa_index s, xa_open s) = Some (xa_index s', xa_open s')"
  unfolding numbered_def by (drule spec [of _ s]) simp

lemma closed_block [simp]: "xa_open (snd (close_current_block s)) = False"
  by (simp add: close_current_block_def)

lemma numbered_created: "numbered (handle_created e)"
  by (auto simp: numbered_def handle_created_def is_start_def is_stop_def anthropic_event_def Let_def split: option.splits)

lemma numbered_item_added: "numbered (handle_item_added e)"
  by (auto simp: numbered_def handle_item_added_def close_current_block_def split: option.splits)

lemma numbered_text_delta: "numbered (handle_text_delta e)"
  by (auto simp: numbered_def handle_text_delta_def open_text_def close_current_block_def)

lemma numbered_args_delta: "numbered (handle_args_delta e)"
  by (auto simp: numbered_def handle_args_delta_def Let_def split: option.splits)

lemma numbered_args_done: "numbered (handle_args_done e)"
  by (auto simp: numbered_def handle_args_done_def close_current_block_def Let_def)

lemma numbered_reasoning_delta: "numbered (handle_reasoning_delta e)"
  by (auto simp: numbered_def handle_reasoning_delta_def split: option.splits)

lemma numbered_item_done: "numbered (handle_item_done e)"
  by (auto simp: numbered_def handle_item_done_def handle_search_done_def close_current_block_def split: option.splits)

lemma note_usage_frame [simp]:
  "xa_index (note_usage u s) = xa_index s" "xa_open (note_usage u s) = xa_open s"
  "xa_started (note_usage u s) = xa_started s" "xa_stopped (note_usage u s) = xa_stopped s"
  "xa_has_tool (note_usage u s) = xa_has_tool s" "xa_map (note_usage u s) = xa_map s"
  "xa_block_type (note_usage u s) = xa_block_type s"
  by (simp_all add: note_usage_def split: option.split)

lemma numbered_completed: "numbered (handle_completed e)"
  by (auto simp: numbered_def handle_completed_def close_current_block_def blocks_append Let_def)

lemmas numbered_handlers = numbered_created numbered_item_added numbered_text_delta numbered_args_delta
  numbered_args_done numbered_reasoning_delta numbered_item_done numbered_completed

lemma numbered_none: "numbered (Pair [])"
  by (simp add: numbered_def)

lemma numbered_events: "numbered (to_anthropic_events e)"
  using numbered_handlers [of e] close_current numbered_none
  unfolding numbered_def to_anthropic_events_def Let_def by simp

lemma numbered_finalize: "numbered finalize_anthropic"
  by (auto simp: numbered_def finalize_anthropic_def close_current_block_def blocks_append)

lemma numbered_all: "numbered (emit_all to_anthropic_events es)"
proof (induction es)
  case (Cons e es)
  show ?case
    unfolding numbered_def emit_all.simps
    using numberedD [OF Cons] numberedD [OF numbered_events [of e]]
    by (auto simp: blocks_append split: prod.splits)
qed (simp add: numbered_def)

subsection \<open>One start, one stop, all the text\<close>

definition events_of :: "string \<Rightarrow> anthropic_event list \<Rightarrow> nat" where
  "events_of ty os = length (filter (\<lambda>e. ae_type e = ty) os)"

definition delta_text :: "anthropic_event \<Rightarrow> string" where
  "delta_text e = (case ae_delta e of None \<Rightarrow> [] | Some d \<Rightarrow> ad_text d)"

definition anthropic_text :: "anthropic_event list \<Rightarrow> string" where
  "anthropic_text os = concat (map delta_text os)"

definition upstream_text :: "responses_event list \<Rightarrow> string" where
  "upstream_text es = concat (map (\<lambda>e. if text_delta_event (re_type e) then re_delta e else []) es)"

lemma events_of_simps [simp]:
  "events_of ty [] = 0" "events_of ty (e # es) = of_bool (ae_type e = ty) + events_of ty es"
  "events_of ty (es @ fs) = events_of ty es + events_of ty fs"
  by (simp_all add: events_of_def)

lemma anthropic_text_simps [simp]:
  "anthropic_text [] = []" "anthropic_text (e # es) = delta_text e @ anthropic_text es"
  "anthropic_text (es @ fs) = anthropic_text es @ anthropic_text fs"
  by (simp_all add: anthropic_text_def)

lemma delta_text_simps [simp]:
  "delta_text (block_start i b) = []" "delta_text (block_stop i) = []"
  "delta_text (block_delta i (text_piece t)) = t" "delta_text (block_delta i (json_piece t)) = []"
  "delta_text (block_delta i (thinking_piece t)) = []"
  "anthropic_text (message_end r s) = []"
  "events_of ty (message_end r s) = of_bool (ty = ''message_delta'') + of_bool (ty = ''message_stop'')"
  by (simp_all add: delta_text_def block_start_def block_stop_def block_delta_def anthropic_event_def text_piece_def
      json_piece_def thinking_piece_def anthropic_delta_def message_end_def)

text \<open>What a step says of the flags of the state, in events; and the text it adds.\<close>

definition accounted :: "(to_anth \<Rightarrow> anth_out) \<Rightarrow> string \<Rightarrow> bool" where
  "accounted h txt \<longleftrightarrow> (\<forall>s. case h s of (os, s') \<Rightarrow>
     events_of ''message_start'' os + of_bool (xa_started s) = of_bool (xa_started s') \<and>
     events_of ''message_stop'' os + of_bool (xa_stopped s) = of_bool (xa_stopped s') \<and>
     anthropic_text os = txt)"

lemma accounted_close: "accounted close_current_block []"
  by (simp add: accounted_def close_current_block_def)

lemma accounted_created: "accounted (handle_created e) []"
  by (auto simp: accounted_def handle_created_def anthropic_event_def delta_text_def Let_def split: option.splits)

lemma accounted_item_added: "accounted (handle_item_added e) []"
  by (auto simp: accounted_def handle_item_added_def close_current_block_def split: option.splits)

lemma accounted_text_delta: "accounted (handle_text_delta e) (re_delta e)"
  by (auto simp: accounted_def handle_text_delta_def open_text_def close_current_block_def)

lemma accounted_args_delta: "accounted (handle_args_delta e) []"
  by (auto simp: accounted_def handle_args_delta_def Let_def split: option.splits)

lemma accounted_args_done: "accounted (handle_args_done e) []"
  by (auto simp: accounted_def handle_args_done_def close_current_block_def Let_def)

lemma accounted_reasoning_delta: "accounted (handle_reasoning_delta e) []"
  by (auto simp: accounted_def handle_reasoning_delta_def split: option.splits)

lemma accounted_item_done: "accounted (handle_item_done e) []"
  by (auto simp: accounted_def handle_item_done_def handle_search_done_def close_current_block_def split: option.splits)

lemma accounted_completed: "accounted (handle_completed e) []"
  by (auto simp: accounted_def handle_completed_def close_current_block_def Let_def)

lemma accounted_finalize: "accounted finalize_anthropic []"
  by (auto simp: accounted_def finalize_anthropic_def close_current_block_def)

lemmas accounted_handlers = accounted_created accounted_item_added accounted_args_delta accounted_args_done
  accounted_reasoning_delta accounted_item_done accounted_completed

lemma event_type_texts [simp]:
  "\<not> text_delta_event ''response.created''" "\<not> text_delta_event ''response.output_item.added''"
  by (simp_all add: text_delta_event_def)

lemma accounted_events: "accounted (to_anthropic_events e) (upstream_text [e])"
proof (cases "text_delta_event (re_type e)")
  case True
  then have "to_anthropic_events e = handle_text_delta e"
    by (auto simp: to_anthropic_events_def text_delta_event_def)
  then show ?thesis using True accounted_text_delta [of e] by (simp add: upstream_text_def)
next
  case False
  have "accounted (Pair []) []" by (simp add: accounted_def)
  then show ?thesis
    using False accounted_handlers [of e] accounted_close
    unfolding accounted_def to_anthropic_events_def Let_def by (simp add: upstream_text_def)
qed

lemma accountedD:
  "accounted h txt \<Longrightarrow> h s = (os, s') \<Longrightarrow>
     events_of ''message_start'' os + of_bool (xa_started s) = of_bool (xa_started s') \<and>
     events_of ''message_stop'' os + of_bool (xa_stopped s) = of_bool (xa_stopped s') \<and> anthropic_text os = txt"
  unfolding accounted_def by (drule spec [of _ s]) simp

lemma upstream_text_Cons: "upstream_text (e # es) = upstream_text [e] @ upstream_text es"
  by (simp add: upstream_text_def)

lemma accounted_all: "accounted (emit_all to_anthropic_events es) (upstream_text es)"
proof (induction es)
  case Nil
  show ?case by (simp add: accounted_def upstream_text_def)
next
  case (Cons e es)
  show ?case
    unfolding accounted_def upstream_text_Cons [of e es]
  proof
    fix s
    obtain os s1 where 1: "to_anthropic_events e s = (os, s1)" by fastforce
    obtain os' s2 where 2: "emit_all to_anthropic_events es s1 = (os', s2)" by fastforce
    show "case emit_all to_anthropic_events (e # es) s of (os, s') \<Rightarrow>
       events_of ''message_start'' os + of_bool (xa_started s) = of_bool (xa_started s') \<and>
       events_of ''message_stop'' os + of_bool (xa_stopped s) = of_bool (xa_stopped s') \<and>
       anthropic_text os = upstream_text [e] @ upstream_text es"
      using accountedD [OF accounted_events 1] accountedD [OF Cons 2] by (simp add: 1 2)
  qed
qed

subsection \<open>The protocol of the messages stream\<close>

text \<open>
  The states of a client of the stream: before the message, inside it with the number of the next or current block
  and the type of the open one, after \<open>message_delta\<close>, and at the end.
\<close>

datatype reading = Before | Inside int "string option" | Closing | Finished

definition fits :: "string \<Rightarrow> string \<Rightarrow> bool" where
  "fits ty delta \<longleftrightarrow> (ty, delta) \<in>
     {(''text'', ''text_delta''), (''thinking'', ''thinking_delta''), (''tool_use'', ''input_json_delta'')}"

fun read_event :: "anthropic_event \<Rightarrow> reading \<Rightarrow> reading option" where
  "read_event e Before = (if ae_type e = ''message_start'' then Some (Inside 0 None) else None)"
| "read_event e (Inside n None) =
     (if ae_type e = ''content_block_start'' \<and> ae_index e = Some n
      then map_option (\<lambda>b. Inside n (Some (ab_type b))) (ae_block e)
      else if ae_type e = ''message_delta'' then Some Closing else None)"
| "read_event e (Inside n (Some ty)) =
     (if ae_index e \<noteq> Some n then None
      else if ae_type e = ''content_block_stop'' then Some (Inside (n + 1) None)
      else if ae_type e = ''content_block_delta''
      then (case ae_delta e of None \<Rightarrow> None | Some d \<Rightarrow> if fits ty (ad_type d) then Some (Inside n (Some ty)) else None)
      else None)"
| "read_event e Closing = (if ae_type e = ''message_stop'' then Some Finished else None)"
| "read_event e Finished = None"

fun read_events :: "anthropic_event list \<Rightarrow> reading \<Rightarrow> reading option" where
  "read_events [] r = Some r"
| "read_events (e # es) r = (case read_event e r of None \<Rightarrow> None | Some r' \<Rightarrow> read_events es r')"

lemma read_events_append: "read_events (es @ fs) r = Option.bind (read_events es r) (read_events fs)"
  by (induction es arbitrary: r) (auto split: option.splits)

text \<open>
  What the converter takes for granted of the upstream: argument and reasoning deltas, and the end of arguments, come
  while the item they name is the one last opened, and no event but them leaves it open.
\<close>

definition opens :: "responses_event \<Rightarrow> (int \<times> string) option" where
  "opens e = (case re_item e of
     None \<Rightarrow> None
   | Some it \<Rightarrow> if tool_item it then Some (re_output_index e, ''tool_use'')
       else if ro_type it = ''reasoning'' then Some (re_output_index e, ''thinking'') else None)"

definition upstream_step :: "responses_event \<Rightarrow> (int \<times> string) option \<Rightarrow> (int \<times> string) option option" where
  "upstream_step e cur =
     (let ty = re_type e in
      if ty = ''response.output_item.added'' then (if opens e = None then Some cur else Some (opens e))
      else if args_delta_event ty then
        (if cur = Some (re_output_index e, ''tool_use'') then Some cur else None)
      else if reasoning_delta_event ty then
        (if cur = Some (re_output_index e, ''thinking'') then Some cur else None)
      else if ty = ''response.function_call_arguments.done'' then
        (if map_option snd cur = Some ''tool_use'' then Some None else None)
      else if ty = ''response.created'' then Some cur
      else Some None)"

fun in_sequence :: "responses_event list \<Rightarrow> (int \<times> string) option \<Rightarrow> bool" where
  "in_sequence [] cur = True"
| "in_sequence (e # es) cur = (case upstream_step e cur of None \<Rightarrow> False | Some cur' \<Rightarrow> in_sequence es cur')"

text \<open>The client's state and the converter's.\<close>

definition reads :: "to_anth \<Rightarrow> reading" where
  "reads s = (if xa_stopped s then Finished
     else Inside (xa_index s) (if xa_open s then Some (xa_block_type s) else None))"

definition tracks :: "(int \<times> string) option \<Rightarrow> to_anth \<Rightarrow> bool" where
  "tracks cur s \<longleftrightarrow> (case cur of None \<Rightarrow> True
     | Some (i, ty) \<Rightarrow> xa_open s \<and> xa_block_type s = ty \<and> xa_map s i = Some (xa_index s))"

lemma read_block [simp]:
  "read_event (block_start n b) (Inside n None) = Some (Inside n (Some (ab_type b)))"
  "read_event (block_stop n) (Inside n (Some ty)) = Some (Inside (n + 1) None)"
  "read_event (block_delta n d) (Inside n (Some ty)) = (if fits ty (ad_type d) then Some (Inside n (Some ty)) else None)"
  "read_events (message_end r s) (Inside n None) = Some Finished"
  by (simp_all add: message_end_def anthropic_event_def)

lemma piece_types [simp]:
  "ad_type (text_piece t) = ''text_delta''" "ad_type (json_piece t) = ''input_json_delta''"
  "ad_type (thinking_piece t) = ''thinking_delta''"
  "fits ''text'' ''text_delta''" "fits ''tool_use'' ''input_json_delta''" "fits ''thinking'' ''thinking_delta''"
  "ab_type (anthropic_block ty) = ty"
  by (simp_all add: text_piece_def json_piece_def thinking_piece_def anthropic_delta_def fits_def anthropic_block_def)

definition conforms :: "(to_anth \<Rightarrow> anth_out) \<Rightarrow> (int \<times> string) option \<Rightarrow> (int \<times> string) option \<Rightarrow> bool" where
  "conforms h cur cur' \<longleftrightarrow> (\<forall>s. xa_started s \<longrightarrow> \<not> xa_stopped s \<longrightarrow> tracks cur s \<longrightarrow>
     (case h s of (os, s') \<Rightarrow> xa_started s' \<and> read_events os (reads s) = Some (reads s') \<and> tracks cur' s'))"

lemmas conforms_defs = conforms_def tracks_def reads_def

lemma conforms_close: "conforms close_current_block cur None"
  by (simp add: conforms_defs close_current_block_def)

lemma conforms_created: "conforms (handle_created e) cur cur"
  by (auto simp: conforms_defs handle_created_def Let_def split: option.splits)

lemma conforms_item_added:
  "conforms (handle_item_added e) cur (if opens e = None then cur else opens e)"
  by (auto simp: conforms_defs handle_item_added_def close_current_block_def opens_def read_events_append
      split: option.splits)

lemma conforms_text_delta: "conforms (handle_text_delta e) cur None"
  by (auto simp: conforms_defs handle_text_delta_def open_text_def close_current_block_def read_events_append)

lemma conforms_args_delta:
  "conforms (handle_args_delta e) (Some (re_output_index e, ''tool_use'')) (Some (re_output_index e, ''tool_use''))"
  by (auto simp: conforms_defs handle_args_delta_def Let_def)

lemma conforms_args_done: "conforms (handle_args_done e) (Some (i, ''tool_use'')) None"
  by (auto simp: conforms_defs handle_args_done_def close_current_block_def Let_def)

lemma conforms_reasoning_delta:
  "conforms (handle_reasoning_delta e) (Some (re_output_index e, ''thinking'')) (Some (re_output_index e, ''thinking''))"
  by (auto simp: conforms_defs handle_reasoning_delta_def)

lemma conforms_item_done: "conforms (handle_item_done e) cur None"
  by (auto simp: conforms_defs handle_item_done_def handle_search_done_def close_current_block_def search_use_block_def
      search_result_block_def split: option.splits)

lemma conforms_completed: "conforms (handle_completed e) cur None"
  by (auto simp: conforms_defs handle_completed_def close_current_block_def Let_def read_events_append)

lemma conforms_none: "conforms (Pair []) cur None"
  by (simp add: conforms_defs)

lemma dispatch:
  "to_anthropic_events e =
     (if re_type e = ''response.created'' then handle_created e
      else if re_type e = ''response.output_item.added'' then handle_item_added e
      else if text_delta_event (re_type e) then handle_text_delta e
      else if re_type e = ''response.output_text.done'' then close_current_block
      else if args_delta_event (re_type e) then handle_args_delta e
      else if re_type e = ''response.function_call_arguments.done'' then handle_args_done e
      else if re_type e = ''response.output_item.done'' then handle_item_done e
      else if reasoning_delta_event (re_type e) then handle_reasoning_delta e
      else if re_type e = ''response.reasoning_summary_text.done'' then close_current_block
      else if terminal_event (re_type e) then handle_completed e
      else Pair [])"
  by (rule ext) (simp add: to_anthropic_events_def Let_def)

lemma event_types [simp]:
  "args_delta_event ty \<Longrightarrow> \<not> text_delta_event ty" "reasoning_delta_event ty \<Longrightarrow> \<not> text_delta_event ty"
  "reasoning_delta_event ty \<Longrightarrow> \<not> args_delta_event ty"
  by (auto simp: args_delta_event_def reasoning_delta_event_def text_delta_event_def)

lemma type_constants [simp]:
  "\<not> args_delta_event ''response.created''" "\<not> reasoning_delta_event ''response.created''"
  "\<not> args_delta_event ''response.output_item.added''" "\<not> reasoning_delta_event ''response.output_item.added''"
  "\<not> text_delta_event ''response.output_text.done''" "\<not> args_delta_event ''response.output_text.done''"
  "\<not> reasoning_delta_event ''response.output_text.done''"
  "\<not> text_delta_event ''response.function_call_arguments.done''"
  "\<not> args_delta_event ''response.function_call_arguments.done''"
  "\<not> reasoning_delta_event ''response.function_call_arguments.done''"
  "\<not> text_delta_event ''response.output_item.done''" "\<not> args_delta_event ''response.output_item.done''"
  "\<not> reasoning_delta_event ''response.output_item.done''"
  by (simp_all add: args_delta_event_def reasoning_delta_event_def text_delta_event_def)

lemma conforms_events:
  assumes "upstream_step e cur = Some cur'"
  shows "conforms (to_anthropic_events e) cur cur'"
proof -
  consider (added) "re_type e = ''response.output_item.added''"
    | (args) "args_delta_event (re_type e)" | (reasoning) "reasoning_delta_event (re_type e)"
    | (args_done) "re_type e = ''response.function_call_arguments.done''" | (created) "re_type e = ''response.created''"
    | (others) "re_type e \<noteq> ''response.output_item.added''" "\<not> args_delta_event (re_type e)"
      "\<not> reasoning_delta_event (re_type e)" "re_type e \<noteq> ''response.function_call_arguments.done''"
      "re_type e \<noteq> ''response.created''"
    by blast
  then show ?thesis
  proof cases
    case added
    then show ?thesis using assms conforms_item_added [of e cur] by (simp add: upstream_step_def dispatch split: if_splits)
  next
    case args
    then have "re_type e \<noteq> ''response.created''" "re_type e \<noteq> ''response.output_item.added''"
      "re_type e \<noteq> ''response.output_text.done''" by auto
    then have "to_anthropic_events e = handle_args_delta e" using args by (simp add: dispatch)
    then show ?thesis using assms args conforms_args_delta [of e] \<open>re_type e \<noteq> ''response.output_item.added''\<close>
      by (simp add: upstream_step_def split: if_splits)
  next
    case reasoning
    then have "re_type e \<noteq> ''response.created''" "re_type e \<noteq> ''response.output_item.added''"
      "re_type e \<noteq> ''response.output_text.done''" "re_type e \<noteq> ''response.function_call_arguments.done''"
      "re_type e \<noteq> ''response.output_item.done''" by auto
    then have "to_anthropic_events e = handle_reasoning_delta e" using reasoning by (simp add: dispatch)
    then show ?thesis using assms reasoning conforms_reasoning_delta [of e] \<open>re_type e \<noteq> ''response.output_item.added''\<close>
      by (simp add: upstream_step_def split: if_splits)
  next
    case args_done
    then show ?thesis using assms conforms_args_done [of e] by (auto simp: upstream_step_def dispatch split: if_splits)
  next
    case created
    then show ?thesis using assms conforms_created [of e cur] by (simp add: upstream_step_def dispatch)
  next
    case others
    then have "cur' = None" using assms by (simp add: upstream_step_def)
    then show ?thesis
      using others conforms_text_delta conforms_close conforms_item_done conforms_completed conforms_none
      by (simp add: dispatch)
  qed
qed

lemma stopped_close [simp]: "xa_stopped (snd (close_current_block s)) = xa_stopped s"
  by (simp add: close_current_block_def)

lemma still_running:
  assumes "\<not> terminal_event (re_type e)"
  shows "xa_stopped (snd (to_anthropic_events e s)) = xa_stopped s"
proof -
  have "xa_stopped (snd (handle_created e s)) = xa_stopped s"
    by (simp add: handle_created_def Let_def split: option.split)
  moreover have "xa_stopped (snd (handle_item_added e s)) = xa_stopped s"
    by (simp add: handle_item_added_def close_current_block_def split: option.split)
  moreover have "xa_stopped (snd (handle_text_delta e s)) = xa_stopped s"
    by (simp add: handle_text_delta_def open_text_def close_current_block_def)
  moreover have "xa_stopped (snd (handle_args_delta e s)) = xa_stopped s"
    by (simp add: handle_args_delta_def Let_def split: option.split)
  moreover have "xa_stopped (snd (handle_args_done e s)) = xa_stopped s"
    by (simp add: handle_args_done_def close_current_block_def Let_def)
  moreover have "xa_stopped (snd (handle_reasoning_delta e s)) = xa_stopped s"
    by (simp add: handle_reasoning_delta_def split: option.split)
  moreover have "xa_stopped (snd (handle_item_done e s)) = xa_stopped s"
    by (simp add: handle_item_done_def handle_search_done_def close_current_block_def split: option.split)
  ultimately show ?thesis using assms by (simp add: dispatch)
qed

lemma trimmed_terminal: "terminal_event ty \<Longrightarrow> terminal_event (trim_space ty)"
proof -
  have "trim_space ''response.completed'' = ''response.completed''" "trim_space ''response.done'' = ''response.done''"
    "trim_space ''response.incomplete'' = ''response.incomplete''" "trim_space ''response.failed'' = ''response.failed''"
    by code_simp+
  then show "terminal_event ty \<Longrightarrow> terminal_event (trim_space ty)" by (auto simp: terminal_event_def)
qed

lemma before_terminal: "\<forall>e \<in> set (butlast (fst (up_to_terminal es))). \<not> terminal_event (re_type e)"
proof (induction es)
  case (Cons e es)
  show ?case
    using Cons trimmed_terminal [of "re_type e"]
    by (cases "terminal_event (trim_space (re_type e))") (auto simp: case_prod_beta)
qed simp

lemma conforms_all:
  "in_sequence fs cur \<Longrightarrow> xa_started s \<Longrightarrow> \<not> xa_stopped s \<Longrightarrow> tracks cur s \<Longrightarrow>
   \<forall>e \<in> set (butlast fs). \<not> terminal_event (re_type e) \<Longrightarrow> emit_all to_anthropic_events fs s = (os, s') \<Longrightarrow>
   xa_started s' \<and> read_events os (reads s) = Some (reads s')"
proof (induction fs arbitrary: cur s os)
  case (Cons e fs)
  obtain cur' where c: "upstream_step e cur = Some cur'" "in_sequence fs cur'"
    using Cons.prems(1) by (auto split: option.splits)
  obtain os1 s1 where 1: "to_anthropic_events e s = (os1, s1)" by fastforce
  obtain os2 where 2: "emit_all to_anthropic_events fs s1 = (os2, s')" "os = os1 @ os2"
    using Cons.prems(6) 1 by (auto split: prod.splits)
  have s1: "xa_started s1" "read_events os1 (reads s) = Some (reads s1)" "tracks cur' s1"
    using conforms_events [OF c(1)] Cons.prems(2-4) 1 unfolding conforms_def by (auto dest!: spec [of _ s])
  show ?case
  proof (cases "fs = []")
    case True
    then show ?thesis using 2 s1 by simp
  next
    case False
    then have "\<not> xa_stopped s1"
      using still_running [of e s] Cons.prems(3,5) 1 by simp
    then show ?thesis
      using Cons.IH [OF c(2) s1(1) _ s1(3) _ 2(1)] Cons.prems(5) False s1(2) 2(2)
      by (simp add: read_events_append)
  qed
qed simp

lemma conforms_finalize:
  "xa_started s \<Longrightarrow> read_events (fst (finalize_anthropic s)) (reads s) = Some Finished"
  by (auto simp: finalize_anthropic_def reads_def close_current_block_def read_events_append)

lemma stream_reads:
  assumes "re_type e = ''response.created''" and "in_sequence fs None"
    and "\<forall>e \<in> set (butlast fs). \<not> terminal_event (re_type e)"
    and "emit_all to_anthropic_events (e # fs) (new_to_anth model created) = (os, s)"
  shows "xa_started s \<and> read_events os Before = Some (reads s)"
proof -
  obtain os1 s1 where 1: "to_anthropic_events e (new_to_anth model created) = (os1, s1)" by fastforce
  obtain os2 where 2: "emit_all to_anthropic_events fs s1 = (os2, s)" "os = os1 @ os2"
    using assms(4) 1 by (auto split: prod.splits)
  have s1: "xa_started s1" "\<not> xa_stopped s1" "read_events os1 Before = Some (reads s1)"
    using 1 assms(1)
    by (auto simp: to_anthropic_events_def handle_created_def new_to_anth_def anthropic_event_def reads_def Let_def
        split: option.splits)
  have "tracks None s1" by (simp add: tracks_def)
  from conforms_all [OF assms(2) s1(1,2) this assms(3) 2(1)] show ?thesis
    by (simp add: 2(2) read_events_append s1(3))
qed

subsection \<open>A summary in several parts\<close>

text \<open>
  \<open>reasoning_summary_text.done\<close> ends one part of a reasoning summary and closes the thinking block of the item.
  The deltas of the next part still find the block in the map and are emitted for a block that is
  closed, which no client of the protocol expects.
\<close>

definition item_event :: "string \<Rightarrow> int \<Rightarrow> responses_output \<Rightarrow> responses_event" where
  "item_event ty i it = (responses_event ty)\<lparr>re_output_index := i, re_item := Some it\<rparr>"

definition delta_event :: "string \<Rightarrow> int \<Rightarrow> string \<Rightarrow> responses_event" where
  "delta_event ty i d = (responses_event ty)\<lparr>re_output_index := i, re_delta := d\<rparr>"

lemma second_summary_part_breaks_the_stream:
  "let es = [responses_event ''response.created'',
        item_event ''response.output_item.added'' 0 (output_item ''reasoning''),
        delta_event ''response.reasoning_summary_text.delta'' 0 ''one'',
        responses_event ''response.reasoning_summary_text.done'',
        delta_event ''response.reasoning_summary_text.delta'' 0 ''two'',
        responses_event ''response.reasoning_summary_text.done'',
        responses_event ''response.completed''];
       os = fst (stream_messages ''m'' 0 es)
   in read_events os Before = None \<and> read_events (take 4 os) Before = Some (Inside 1 None) \<and>
     ae_type (os ! 4) = ''content_block_delta'' \<and> ae_index (os ! 4) = Some 0"
  by code_simp

subsection \<open>Properties\<close>

text \<open>
  Whatever the upstream sends, in whatever order: the content blocks of the Anthropic stream are numbered from
  zero without gaps, each is closed before the next is opened, there is at most one \<open>message_start\<close> and
  at most one \<open>message_stop\<close>, and the text the client reads is the text of the upstream's deltas up to
  its terminal event.
\<close>

theorem anthropic_stream_blocks:
  "let os = fst (stream_messages model created es) in
   blocks os (0, False) \<noteq> None \<and> events_of ''message_start'' os \<le> 1 \<and> events_of ''message_stop'' os \<le> 1 \<and>
   anthropic_text os = upstream_text (fst (up_to_terminal es))"
proof -
  obtain fs b where f: "up_to_terminal es = (fs, b)" by fastforce
  obtain os s where 1: "emit_all to_anthropic_events fs (new_to_anth model created) = (os, s)" by fastforce
  obtain os' s' where 2: "finalize_anthropic s = (os', s')" by fastforce
  have n: "xa_index (new_to_anth model created) = 0" "\<not> xa_open (new_to_anth model created)"
    "\<not> xa_started (new_to_anth model created)" "\<not> xa_stopped (new_to_anth model created)"
    by (simp_all add: new_to_anth_def)
  note c1 = accountedD [OF accounted_all 1] and c2 = accountedD [OF accounted_finalize 2]
  have "blocks os (0, False) = Some (xa_index s, xa_open s)" "blocks (os @ os') (0, False) \<noteq> None"
    using numberedD [OF numbered_all 1] numberedD [OF numbered_finalize 2] n by (simp_all add: blocks_append)
  moreover have "events_of ''message_start'' (os @ os') = of_bool (xa_started s')"
    "events_of ''message_stop'' (os @ os') = of_bool (xa_stopped s')"
    "events_of ''message_start'' os = of_bool (xa_started s)" "events_of ''message_stop'' os = of_bool (xa_stopped s)"
    using c1 c2 n by simp_all
  then have "events_of ''message_start'' (os @ os') \<le> 1" "events_of ''message_stop'' (os @ os') \<le> 1"
    "events_of ''message_start'' os \<le> 1" "events_of ''message_stop'' os \<le> 1"
    by (simp_all del: events_of_simps)
  moreover have "anthropic_text os = upstream_text fs" "anthropic_text (os @ os') = upstream_text fs"
    using c1 c2 by simp_all
  ultimately show ?thesis
    by (simp add: stream_messages_def f 1 2 Let_def del: events_of_simps anthropic_text_simps)
qed


text \<open>A run with reasoning, text, two calls, the second of the tool whose arguments are held back, and a search.\<close>

definition call_item :: "string \<Rightarrow> string \<Rightarrow> responses_output" where
  "call_item i name = (output_item ''function_call'')\<lparr>ro_call_id := i, ro_name := name\<rparr>"

definition sample_upstream :: "responses_event list" where
  "sample_upstream =
     [item_event ''response.output_item.added'' 0 (output_item ''reasoning''),
      delta_event ''response.reasoning_summary_text.delta'' 0 ''think'',
      responses_event ''response.reasoning_summary_text.done'',
      item_event ''response.output_item.done'' 0 (output_item ''reasoning''),
      item_event ''response.output_item.added'' 1 (output_item ''message''),
      delta_event ''response.output_text.delta'' 1 ''Hel'', delta_event ''response.output_text.delta'' 1 ''lo'',
      responses_event ''response.output_text.done'',
      item_event ''response.output_item.added'' 2 (call_item ''fc_call_1'' ''Bash''),
      delta_event ''response.function_call_arguments.delta'' 2 (quoted ''{`a`:1}''),
      responses_event ''response.function_call_arguments.done'',
      item_event ''response.output_item.added'' 3 (call_item ''call_2'' ''Read''),
      delta_event ''response.function_call_arguments.delta'' 3 (quoted ''{`path`:`x`, `pages`:``}''),
      responses_event ''response.function_call_arguments.done'',
      item_event ''response.output_item.done'' 4 ((output_item ''web_search_call'')\<lparr>ro_status := ''completed''\<rparr>),
      (responses_event ''response.completed'')\<lparr>re_response := Some \<lparr>rr_id = ''r'', rr_object = ''response'',
        rr_model = ''u'', rr_status = ''completed'', rr_output = [], rr_usage = None, rr_incomplete = None,
        rr_error = None\<rparr>\<rparr>]"


end
