(* ===== verification/AnthToResp.thy ===== *)
theory AnthToResp
  imports ApiTypes
begin

section \<open>Anthropic to Responses\<close>

text \<open>
  \<open>pkg/apicompat/anthropic_to_responses_response.go\<close>: the conversion of a whole message and the converter of
  a stream.  The random identifiers of responses and items are a parameter, a supply of names
  indexed by how many were drawn.
\<close>

subsection \<open>Whole messages\<close>

definition empty_as :: "string \<Rightarrow> string \<Rightarrow> string" where
  "empty_as d s = (if s = [] then d else s)"

definition summary_part :: "string \<Rightarrow> responses_summary" where
  "summary_part t = \<lparr>rm_type = ''summary_text'', rm_text = t\<rparr>"

definition text_part :: "string \<Rightarrow> content_part" where
  "text_part t = \<lparr>cp_type = ''output_text'', cp_text = t, cp_image_url = []\<rparr>"

text \<open>The output items of the blocks but the texts, with the number of identifiers drawn.\<close>

fun block_items :: "(nat \<Rightarrow> string) \<Rightarrow> nat \<Rightarrow> anthropic_block list \<Rightarrow> responses_output list \<times> nat" where
  "block_items ids n [] = ([], n)"
| "block_items ids n (b # bs) =
     (if ab_type b = ''thinking'' \<and> ab_thinking b \<noteq> [] then
        (case block_items ids (Suc n) bs of (xs, m) \<Rightarrow>
          ((output_item ''reasoning'')\<lparr>ro_id := ids n, ro_summary := [summary_part (ab_thinking b)]\<rparr> # xs, m))
      else if ab_type b = ''tool_use'' then
        (case block_items ids (Suc n) bs of (xs, m) \<Rightarrow>
          ((output_item ''function_call'')\<lparr>ro_id := ids n, ro_call_id := to_responses_call_id (ab_id b),
             ro_name := ab_name b, ro_arguments := empty_as ''{}'' (ab_input b), ro_status := ''completed''\<rparr> # xs, m))
      else block_items ids n bs)"

definition text_parts :: "anthropic_block list \<Rightarrow> content_part list" where
  "text_parts bs = map (\<lambda>b. text_part (ab_text b)) (filter (\<lambda>b. ab_type b = ''text'' \<and> ab_text b \<noteq> []) bs)"

definition message_item :: "string \<Rightarrow> content_part list \<Rightarrow> responses_output" where
  "message_item i parts = (output_item ''message'')\<lparr>ro_id := i, ro_role := ''assistant'', ro_content := parts,
     ro_status := ''completed''\<rparr>"

definition status_of_stop_reason :: "string \<Rightarrow> string" where
  "status_of_stop_reason r = (if r = ''max_tokens'' then ''incomplete'' else ''completed'')"

definition responses_usage_of :: "int \<Rightarrow> int \<Rightarrow> int \<Rightarrow> int \<Rightarrow> responses_usage" where
  "responses_usage_of inp cache_read cache_creation out =
     (let total = inp + cache_read + cache_creation in
      \<lparr>ru_input = total, ru_output = out, ru_total = total + out,
       ru_input_details = (if 0 < cache_read then Some \<lparr>id_cached = cache_read, id_audio = 0\<rparr> else None),
       ru_output_details = None\<rparr>)"

definition anthropic_to_responses :: "(nat \<Rightarrow> string) \<Rightarrow> string \<Rightarrow> anthropic_message \<Rightarrow> responses_response" where
  "anthropic_to_responses ids fresh_id m =
     (case block_items ids 0 (am_content m) of (items, n) \<Rightarrow>
       let parts = text_parts (am_content m);
           outs = items @ (if parts = [] then [] else [message_item (ids n) parts]);
           status = status_of_stop_reason (am_stop_reason m) in
       \<lparr>rr_id = empty_as fresh_id (am_id m), rr_object = ''response'', rr_model = am_model m, rr_status = status,
        rr_output = (if outs = [] then [message_item (ids n) [text_part []]] else outs),
        rr_usage = Some (responses_usage_of (au_input (am_usage m)) (au_cache_read (am_usage m))
          (au_cache_creation (am_usage m)) (au_output (am_usage m))),
        rr_incomplete = (if status = ''incomplete'' then Some ''max_output_tokens'' else None), rr_error = None\<rparr>)"

subsection \<open>The state of a stream\<close>

record to_resp =
  xr_response_id :: string
  xr_model :: string
  xr_created :: int64
  xr_seq :: int
  xr_created_sent :: bool
  xr_completed_sent :: bool
  xr_output_index :: int
  xr_item_id :: string
  xr_item_type :: string
  xr_content_index :: int
  xr_call_id :: string
  xr_name :: string
  xr_input :: int
  xr_output :: int
  xr_cache_read :: int
  xr_cache_creation :: int
  xr_ids_used :: nat

definition new_to_resp :: "string \<Rightarrow> int64 \<Rightarrow> to_resp" where
  "new_to_resp model created = \<lparr>xr_response_id = [], xr_model = model, xr_created = created, xr_seq = 0,
     xr_created_sent = False, xr_completed_sent = False, xr_output_index = 0, xr_item_id = [], xr_item_type = [],
     xr_content_index = 0, xr_call_id = [], xr_name = [], xr_input = 0, xr_output = 0, xr_cache_read = 0,
     xr_cache_creation = 0, xr_ids_used = 0\<rparr>"

type_synonym resp_out = "responses_event list \<times> to_resp"

definition make_event :: "to_resp \<Rightarrow> responses_event \<Rightarrow> resp_out" where
  "make_event s e = ([e\<lparr>re_seq := xr_seq s\<rparr>], s\<lparr>xr_seq := xr_seq s + 1\<rparr>)"

definition fresh_item :: "(nat \<Rightarrow> string) \<Rightarrow> string \<Rightarrow> to_resp \<Rightarrow> to_resp" where
  "fresh_item ids ty s = s\<lparr>xr_item_id := ids (xr_ids_used s), xr_ids_used := Suc (xr_ids_used s), xr_item_type := ty\<rparr>"

definition close_item :: "to_resp \<Rightarrow> resp_out" where
  "close_item s =
     (if xr_item_type s = [] then ([], s)
      else make_event (s\<lparr>xr_item_type := [], xr_item_id := [], xr_call_id := [], xr_name := [],
          xr_output_index := xr_output_index s + 1, xr_content_index := 0\<rparr>)
        ((responses_event ''response.output_item.done'')\<lparr>re_output_index := xr_output_index s,
          re_item := Some ((output_item (xr_item_type s))\<lparr>ro_id := xr_item_id s, ro_status := ''completed''\<rparr>)\<rparr>))"

definition keep_positive :: "int \<Rightarrow> int \<Rightarrow> int" where
  "keep_positive new old = (if 0 < new then new else old)"

definition note_start_usage :: "anthropic_usage \<Rightarrow> to_resp \<Rightarrow> to_resp" where
  "note_start_usage u s = s\<lparr>xr_input := keep_positive (au_input u) (xr_input s),
     xr_cache_read := keep_positive (au_cache_read u) (xr_cache_read s),
     xr_cache_creation := keep_positive (au_cache_creation u) (xr_cache_creation s)\<rparr>"

subsection \<open>The handlers\<close>

definition handle_message_start :: "anthropic_event \<Rightarrow> to_resp \<Rightarrow> resp_out" where
  "handle_message_start e s =
     (let s1 = (case ae_message e of None \<Rightarrow> s | Some m \<Rightarrow>
         note_start_usage (am_usage m) (s\<lparr>xr_response_id := am_id m,
           xr_model := (if xr_model s = [] then am_model m else xr_model s)\<rparr>)) in
      if xr_created_sent s1 then ([], s1)
      else make_event (s1\<lparr>xr_created_sent := True\<rparr>) ((responses_event ''response.created'')\<lparr>re_response := Some
        \<lparr>rr_id = xr_response_id s1, rr_object = ''response'', rr_model = xr_model s1, rr_status = ''in_progress'',
         rr_output = [], rr_usage = None, rr_incomplete = None, rr_error = None\<rparr>\<rparr>))"

definition added_event :: "to_resp \<Rightarrow> responses_output \<Rightarrow> responses_event" where
  "added_event s it = (responses_event ''response.output_item.added'')\<lparr>re_output_index := xr_output_index s,
     re_item := Some it\<rparr>"

definition handle_block_start :: "(nat \<Rightarrow> string) \<Rightarrow> anthropic_event \<Rightarrow> to_resp \<Rightarrow> resp_out" where
  "handle_block_start ids e s = (case ae_block e of
     None \<Rightarrow> ([], s)
   | Some b \<Rightarrow>
       if ab_type b = ''thinking'' then
         (let s1 = (fresh_item ids ''reasoning'' s)\<lparr>xr_content_index := 0\<rparr> in
          make_event s1 (added_event s1 ((output_item ''reasoning'')\<lparr>ro_id := xr_item_id s1\<rparr>)))
       else if ab_type b = ''text'' then
         (if xr_item_type s = ''message'' then ([], s)
          else let s1 = (fresh_item ids ''message'' s)\<lparr>xr_content_index := 0\<rparr> in
            make_event s1 (added_event s1 ((output_item ''message'')\<lparr>ro_id := xr_item_id s1, ro_role := ''assistant'',
              ro_status := ''in_progress''\<rparr>)))
       else if ab_type b = ''tool_use'' then
         (case close_item s of (es, s1) \<Rightarrow>
           let s2 = (fresh_item ids ''function_call'' s1)\<lparr>xr_call_id := to_responses_call_id (ab_id b),
               xr_name := ab_name b\<rparr> in
           with_prefix es (make_event s2 (added_event s2 ((output_item ''function_call'')\<lparr>ro_id := xr_item_id s2,
             ro_call_id := xr_call_id s2, ro_name := xr_name s2, ro_status := ''in_progress''\<rparr>))))
       else ([], s))"

definition handle_block_delta :: "anthropic_event \<Rightarrow> to_resp \<Rightarrow> resp_out" where
  "handle_block_delta e s = (case ae_delta e of
     None \<Rightarrow> ([], s)
   | Some d \<Rightarrow>
       if ad_type d = ''text_delta'' \<and> ad_text d \<noteq> [] then
         make_event s ((responses_event ''response.output_text.delta'')\<lparr>re_output_index := xr_output_index s,
           re_content_index := xr_content_index s, re_delta := ad_text d, re_item_id := xr_item_id s\<rparr>)
       else if ad_type d = ''thinking_delta'' \<and> ad_thinking d \<noteq> [] then
         make_event s ((responses_event ''response.reasoning_summary_text.delta'')\<lparr>re_output_index := xr_output_index s,
           re_delta := ad_thinking d, re_item_id := xr_item_id s\<rparr>)
       else if ad_type d = ''input_json_delta'' \<and> ad_partial_json d \<noteq> [] then
         make_event s ((responses_event ''response.function_call_arguments.delta'')\<lparr>re_output_index := xr_output_index s,
           re_delta := ad_partial_json d, re_item_id := xr_item_id s, re_call_id := xr_call_id s, re_name := xr_name s\<rparr>)
       else ([], s))"

definition then_close :: "resp_out \<Rightarrow> resp_out" where
  "then_close r = with_prefix (fst r) (close_item (snd r))"

definition handle_block_stop :: "to_resp \<Rightarrow> resp_out" where
  "handle_block_stop s =
     (if xr_item_type s = ''reasoning'' then
        then_close (make_event s ((responses_event ''response.reasoning_summary_text.done'')\<lparr>
          re_output_index := xr_output_index s, re_item_id := xr_item_id s\<rparr>))
      else if xr_item_type s = ''function_call'' then
        then_close (make_event s ((responses_event ''response.function_call_arguments.done'')\<lparr>
          re_output_index := xr_output_index s, re_item_id := xr_item_id s, re_call_id := xr_call_id s,
          re_name := xr_name s\<rparr>))
      else if xr_item_type s = ''message'' then
        make_event s ((responses_event ''response.output_text.done'')\<lparr>re_output_index := xr_output_index s,
          re_content_index := xr_content_index s, re_item_id := xr_item_id s\<rparr>)
      else ([], s))"

definition handle_message_delta :: "anthropic_event \<Rightarrow> to_resp \<Rightarrow> resp_out" where
  "handle_message_delta e s = (case ae_usage e of
     None \<Rightarrow> ([], s)
   | Some u \<Rightarrow> ([], note_start_usage u (s\<lparr>xr_output := au_output u\<rparr>)))"

definition completed_event :: "to_resp \<Rightarrow> resp_out" where
  "completed_event s = make_event s ((responses_event ''response.completed'')\<lparr>re_response := Some
     \<lparr>rr_id = xr_response_id s, rr_object = ''response'', rr_model = xr_model s, rr_status = ''completed'',
      rr_output = [], rr_usage = Some (responses_usage_of (xr_input s) (xr_cache_read s) (xr_cache_creation s) (xr_output s)),
      rr_incomplete = None, rr_error = None\<rparr>\<rparr>)"

definition complete_stream :: "to_resp \<Rightarrow> resp_out" where
  "complete_stream s = (case close_item s of (es, s1) \<Rightarrow>
     (case completed_event s1 of (fs, s2) \<Rightarrow> (es @ fs, s2\<lparr>xr_completed_sent := True\<rparr>)))"

definition handle_message_stop :: "to_resp \<Rightarrow> resp_out" where
  "handle_message_stop s = (if xr_completed_sent s then ([], s) else complete_stream s)"

definition to_responses_events :: "(nat \<Rightarrow> string) \<Rightarrow> (anthropic_event, to_resp, responses_event) converter" where
  "to_responses_events ids e s =
     (let ty = ae_type e in
      if ty = ''message_start'' then handle_message_start e s
      else if ty = ''content_block_start'' then handle_block_start ids e s
      else if ty = ''content_block_delta'' then handle_block_delta e s
      else if ty = ''content_block_stop'' then handle_block_stop s
      else if ty = ''message_delta'' then handle_message_delta e s
      else if ty = ''message_stop'' then handle_message_stop s
      else ([], s))"

definition finalize_responses :: "to_resp \<Rightarrow> resp_out" where
  "finalize_responses s = (if \<not> xr_created_sent s \<or> xr_completed_sent s then ([], s) else complete_stream s)"

subsection \<open>Numbering\<close>

definition of_type :: "string \<Rightarrow> responses_event list \<Rightarrow> nat" where
  "of_type ty es = length (filter (\<lambda>e. re_type e = ty) es)"

lemma of_type_simps [simp]:
  "of_type ty [] = 0" "of_type ty (es @ fs) = of_type ty es + of_type ty fs"
  "of_type ty (e # es) = of_bool (re_type e = ty) + of_type ty es"
  by (simp_all add: of_type_def)

fun numbered_from :: "int \<Rightarrow> responses_event list \<Rightarrow> bool" where
  "numbered_from n [] \<longleftrightarrow> True"
| "numbered_from n (e # es) \<longleftrightarrow> re_seq e = n \<and> numbered_from (n + 1) es"

lemma numbered_from_append [simp]:
  "numbered_from n (es @ fs) \<longleftrightarrow> numbered_from n es \<and> numbered_from (n + int (length es)) fs"
  by (induction es arbitrary: n) (auto simp: ac_simps)

text \<open>What a step emits, against the counters of the state.\<close>

definition tally :: "to_resp \<Rightarrow> resp_out \<Rightarrow> bool" where
  "tally s r \<longleftrightarrow> numbered_from (xr_seq s) (fst r) \<and> xr_seq (snd r) = xr_seq s + int (length (fst r)) \<and>
     of_type ''response.created'' (fst r) + of_bool (xr_created_sent s) = of_bool (xr_created_sent (snd r)) \<and>
     of_type ''response.completed'' (fst r) + of_bool (xr_completed_sent s) = of_bool (xr_completed_sent (snd r))"

lemma tally_quiet: "tally s ([], s') \<longleftrightarrow> xr_seq s' = xr_seq s \<and> xr_created_sent s' = xr_created_sent s \<and>
    xr_completed_sent s' = xr_completed_sent s"
  by (auto simp: tally_def)

lemma tally_then: "tally s r \<Longrightarrow> tally (snd r) r' \<Longrightarrow> tally s (with_prefix (fst r) r')"
  by (auto simp: tally_def with_prefix_def)

lemma tally_event:
  "\<lbrakk>re_type e \<notin> {''response.created'', ''response.completed''}; xr_seq s1 = xr_seq s;
    xr_created_sent s1 = xr_created_sent s; xr_completed_sent s1 = xr_completed_sent s\<rbrakk> \<Longrightarrow> tally s (make_event s1 e)"
  by (simp add: tally_def make_event_def)

lemma re_type_event [simp]: "re_type (responses_event ty) = ty" "re_type (added_event s it) = ''response.output_item.added''"
  by (simp_all add: responses_event_def added_event_def)

lemma tally_close: "tally s (close_item s)"
  by (auto simp: close_item_def tally_quiet intro!: tally_event)

lemma tally_then_close: "tally s r \<Longrightarrow> tally s (then_close r)"
  unfolding then_close_def by (rule tally_then) (simp_all add: tally_close)

lemma note_start_usage_counters [simp]:
  "xr_seq (note_start_usage u s) = xr_seq s" "xr_created_sent (note_start_usage u s) = xr_created_sent s"
  "xr_completed_sent (note_start_usage u s) = xr_completed_sent s"
  by (simp_all add: note_start_usage_def)

lemma tally_message_start: "tally s (handle_message_start e s)"
  by (auto simp: handle_message_start_def Let_def make_event_def tally_def split: option.splits)

lemma tally_block_start: "tally s (handle_block_start ids e s)"
proof -
  have "tally s (with_prefix (fst (close_item s)) (make_event s2 (added_event s2 it)))"
    if "xr_seq s2 = xr_seq (snd (close_item s))" "xr_created_sent s2 = xr_created_sent (snd (close_item s))"
      "xr_completed_sent s2 = xr_completed_sent (snd (close_item s))" for s2 it
    by (rule tally_then [OF tally_close], rule tally_event) (use that in simp_all)
  then show ?thesis
    by (auto simp: handle_block_start_def Let_def tally_quiet fresh_item_def case_prod_beta
        intro!: tally_event split: option.splits)
qed

lemma tally_block_delta: "tally s (handle_block_delta e s)"
  by (auto simp: handle_block_delta_def tally_quiet intro!: tally_event split: option.splits)

lemma tally_block_stop: "tally s (handle_block_stop s)"
  by (auto simp: handle_block_stop_def tally_quiet intro!: tally_then_close tally_event)

lemma tally_message_delta: "tally s (handle_message_delta e s)"
  by (auto simp: handle_message_delta_def tally_quiet split: option.splits)

lemma close_item_completed [simp]: "xr_completed_sent (snd (close_item s)) = xr_completed_sent s"
  by (simp add: close_item_def make_event_def)

lemma tally_complete: "\<not> xr_completed_sent s \<Longrightarrow> tally s (complete_stream s)"
  using tally_close [of s]
  by (auto simp: complete_stream_def completed_event_def make_event_def tally_def case_prod_beta)

lemma tally_message_stop: "tally s (handle_message_stop s)"
  by (simp add: handle_message_stop_def tally_quiet tally_complete)

lemmas tally_handlers = tally_message_start tally_block_start tally_block_delta tally_block_stop tally_message_delta
  tally_message_stop

lemma tally_events: "tally s (to_responses_events ids e s)"
  by (simp add: to_responses_events_def Let_def tally_handlers tally_quiet)

lemma tally_finalize: "tally s (finalize_responses s)"
  by (simp add: finalize_responses_def tally_quiet tally_complete)

lemma tally_emit_all: "tally s (emit_all (to_responses_events ids) es s)"
proof (induction es arbitrary: s)
  case (Cons e es)
  from tally_then [OF tally_events Cons.IH, of s ids e] show ?case
    by (simp add: case_prod_beta with_prefix_def)
qed (simp add: tally_quiet)

text \<open>The whole stream, with what \<open>FinalizeAnthropicResponsesStream\<close> adds when the upstream ended.\<close>

definition responses_stream :: "(nat \<Rightarrow> string) \<Rightarrow> anthropic_event list \<Rightarrow> to_resp \<Rightarrow> resp_out" where
  "responses_stream ids es s = (case emit_all (to_responses_events ids) es s of (os, s1) \<Rightarrow>
     with_prefix os (finalize_responses s1))"

lemma tally_stream: "tally s (responses_stream ids es s)"
  using tally_then [OF tally_emit_all tally_finalize, of s ids es] by (simp add: responses_stream_def case_prod_beta)

text \<open>Whatever the upstream sends, the Responses events of a stream are numbered 0, 1, 2, \<dots>, at most one
  of them creates the response and at most one completes it; a response that was created is completed.\<close>

theorem responses_stream_numbered:
  "case responses_stream ids es (new_to_resp model created) of (out, s) \<Rightarrow>
     numbered_from 0 out \<and> of_type ''response.created'' out \<le> 1 \<and> of_type ''response.completed'' out \<le> 1 \<and>
     of_type ''response.created'' out \<le> of_type ''response.completed'' out"
proof -
  let ?r = "responses_stream ids es (new_to_resp model created)"
  have *: "xr_created_sent (snd ?r) \<longrightarrow> xr_completed_sent (snd ?r)"
    by (auto simp: responses_stream_def case_prod_beta with_prefix_def finalize_responses_def complete_stream_def)
  show ?thesis
    using tally_stream [of "new_to_resp model created" ids es] *
    by (auto simp: tally_def new_to_resp_def case_prod_beta)
qed

subsection \<open>What the stream loses\<close>

definition max_tokens_stream :: "anthropic_event list" where
  "max_tokens_stream =
    [(anthropic_event ''message_start'')\<lparr>ae_message := Some \<lparr>am_id = ''msg_1'', am_type = ''message'', am_role = ''assistant'',
       am_content = [], am_model = ''claude'', am_stop_reason = [], am_stop_sequence = None,
       am_usage = \<lparr>au_input = 9, au_output = 1, au_cache_creation = 0, au_cache_read = 0\<rparr>\<rparr>\<rparr>,
     (anthropic_event ''content_block_start'')\<lparr>ae_block := Some (anthropic_block ''text'')\<rparr>,
     (anthropic_event ''content_block_delta'')\<lparr>ae_delta := Some ((anthropic_delta ''text_delta'')\<lparr>ad_text := ''Hel''\<rparr>)\<rparr>,
     anthropic_event ''content_block_stop'',
     (anthropic_event ''message_delta'')\<lparr>ae_delta := Some ((anthropic_delta [])\<lparr>ad_stop_reason := ''max_tokens''\<rparr>),
       ae_usage := Some \<lparr>au_input = 0, au_output = 1, au_cache_creation = 0, au_cache_read = 0\<rparr>\<rparr>,
     anthropic_event ''message_stop'']"

definition response_statuses :: "responses_event list \<Rightarrow> (string \<times> string option) list" where
  "response_statuses es = concat (map (\<lambda>e. case re_response e of None \<Rightarrow> [] | Some r \<Rightarrow> [(rr_status r, rr_incomplete r)]) es)"

text \<open>A message cut off by \<open>max_tokens\<close>: incomplete as a whole message, completed as a stream.\<close>

lemma max_tokens_lost_in_the_stream:
  "response_statuses (fst (responses_stream (\<lambda>n. ''item'') max_tokens_stream (new_to_resp [] 0))) =
     [(''in_progress'', None), (''completed'', None)]"
  "am_stop_reason m = ''max_tokens'' \<Longrightarrow> rr_status (anthropic_to_responses ids fresh m) = ''incomplete''"
   apply code_simp
  by (simp add: anthropic_to_responses_def status_of_stop_reason_def Let_def case_prod_beta)

text \<open>
  Text, then thinking: the message item is never done, and the reasoning item reuses its output index.
\<close>

definition thinking_after_text :: "anthropic_event list" where
  "thinking_after_text =
    [anthropic_event ''message_start'',
     (anthropic_event ''content_block_start'')\<lparr>ae_block := Some (anthropic_block ''text'')\<rparr>,
     anthropic_event ''content_block_stop'',
     (anthropic_event ''content_block_start'')\<lparr>ae_block := Some (anthropic_block ''thinking'')\<rparr>,
     anthropic_event ''content_block_stop'',
     anthropic_event ''message_stop'']"

definition item_marks :: "responses_event list \<Rightarrow> (string \<times> int \<times> string) list" where
  "item_marks es = concat (map (\<lambda>e. case re_item e of None \<Rightarrow> [] | Some it \<Rightarrow> [(re_type e, re_output_index e, ro_type it)]) es)"

lemma message_item_never_done:
  "item_marks (fst (responses_stream (\<lambda>n. ''item'') thinking_after_text (new_to_resp [] 0))) =
     [(''response.output_item.added'', 0, ''message''), (''response.output_item.added'', 0, ''reasoning''),
      (''response.output_item.done'', 0, ''reasoning'')]"
  by code_simp

end
