(* ===== verification/RespToChat.thy ===== *)
theory RespToChat
  imports AnthToResp
begin

section \<open>Responses to Chat Completions\<close>

text \<open>
  \<open>pkg/apicompat/responses_to_chatcompletions.go\<close>: the conversion of a whole response, the converter of a
  stream, and the accumulator that rebuilds the output of a response from its stream when the
  terminal event carries none.  The random identifier and the clock are arguments.
\<close>

subsection \<open>Whole responses\<close>

definition response_text :: "responses_output list \<Rightarrow> string" where
  "response_text outs = concat (map (\<lambda>it. if ro_type it = ''message''
     then concat (map (\<lambda>p. if cp_type p = ''output_text'' then cp_text p else []) (ro_content it)) else []) outs)"

definition response_reasoning :: "responses_output list \<Rightarrow> string" where
  "response_reasoning outs = concat (map (\<lambda>it. if ro_type it = ''reasoning''
     then concat (map (\<lambda>p. if rm_type p = ''summary_text'' then rm_text p else []) (ro_summary it)) else []) outs)"

definition response_calls :: "responses_output list \<Rightarrow> chat_tool_call list" where
  "response_calls outs = map (\<lambda>it. \<lparr>tc_index = None, tc_id = ro_call_id it, tc_type = ''function'',
     tc_name = ro_name it, tc_arguments = ro_arguments it\<rparr>) (filter (\<lambda>it. ro_type it = ''function_call'') outs)"

definition finish_reason_of :: "string \<Rightarrow> string option \<Rightarrow> chat_tool_call list \<Rightarrow> string" where
  "finish_reason_of status details calls =
     (if status = ''incomplete'' then (if details = Some ''max_output_tokens'' then ''length'' else ''stop'')
      else if status = ''completed'' then (if calls \<noteq> [] then ''tool_calls'' else ''stop'')
      else ''stop'')"

definition prompt_details_of :: "input_details option \<Rightarrow> chat_details option" where
  "prompt_details_of src = (case src of
     None \<Rightarrow> None
   | Some d \<Rightarrow> if id_cached d = 0 \<and> id_audio d = 0 then None
       else Some \<lparr>cd_cached = id_cached d, cd_audio = id_audio d, cd_reasoning = 0, cd_accepted = 0, cd_rejected = 0\<rparr>)"

definition completion_details_of :: "output_details option \<Rightarrow> chat_details option" where
  "completion_details_of src = (case src of
     None \<Rightarrow> None
   | Some d \<Rightarrow> if od_reasoning d = 0 \<and> od_audio d = 0 \<and> od_accepted d = 0 \<and> od_rejected d = 0 then None
       else Some \<lparr>cd_cached = 0, cd_audio = od_audio d, cd_reasoning = od_reasoning d, cd_accepted = od_accepted d,
         cd_rejected = od_rejected d\<rparr>)"

definition chat_usage_of :: "responses_usage option \<Rightarrow> chat_usage option" where
  "chat_usage_of u = (case u of
     None \<Rightarrow> None
   | Some u \<Rightarrow> Some \<lparr>cu_prompt = ru_input u, cu_completion = ru_output u, cu_total = ru_input u + ru_output u,
       cu_prompt_details = prompt_details_of (ru_input_details u),
       cu_completion_details = completion_details_of (ru_output_details u)\<rparr>)"

definition responses_to_chat :: "string \<Rightarrow> int64 \<Rightarrow> responses_response \<Rightarrow> string \<Rightarrow> chat_response" where
  "responses_to_chat fresh_id n r model =
     (let txt = response_text (rr_output r); calls = response_calls (rr_output r);
          msg = \<lparr>ch_role = ''assistant'', ch_content = (if txt = [] then [] else json_quote txt),
            ch_reasoning = response_reasoning (rr_output r), ch_name = [], ch_tool_calls = calls,
            ch_tool_call_id = [], ch_function_call = None\<rparr> in
      \<lparr>cr_id = empty_as fresh_id (rr_id r), cr_object = ''chat.completion'', cr_created = n, cr_model = model,
       cr_choices = [(0, msg, finish_reason_of (rr_status r) (rr_incomplete r) calls)],
       cr_usage = chat_usage_of (rr_usage r), cr_fingerprint = [], cr_service_tier = []\<rparr>)"

subsection \<open>The state of a stream\<close>

record to_chat =
  xc_id :: string
  xc_model :: string
  xc_created :: int64
  xc_sent_role :: bool
  xc_saw_tool :: bool
  xc_saw_text :: bool
  xc_finalized :: bool
  xc_next :: int
  xc_map :: "int \<rightharpoonup> int"
  xc_include_usage :: bool
  xc_usage :: "chat_usage option"

definition new_to_chat :: "string \<Rightarrow> int64 \<Rightarrow> string \<Rightarrow> bool \<Rightarrow> to_chat" where
  "new_to_chat fresh_id created model include_usage = \<lparr>xc_id = fresh_id, xc_model = model, xc_created = created,
     xc_sent_role = False, xc_saw_tool = False, xc_saw_text = False, xc_finalized = False, xc_next = 0,
     xc_map = Map.empty, xc_include_usage = include_usage, xc_usage = None\<rparr>"

type_synonym chat_out = "chat_chunk list \<times> to_chat"

definition chunk :: "to_chat \<Rightarrow> (int \<times> chat_delta \<times> string option) list \<Rightarrow> chat_usage option \<Rightarrow> chat_chunk" where
  "chunk s choices usage = \<lparr>ck_id = xc_id s, ck_object = ''chat.completion.chunk'', ck_created = xc_created s,
     ck_model = xc_model s, ck_choices = choices, ck_usage = usage, ck_fingerprint = [], ck_service_tier = []\<rparr>"

definition delta_chunk :: "to_chat \<Rightarrow> chat_delta \<Rightarrow> chat_chunk" where
  "delta_chunk s d = chunk s [(0, d, None)] None"

definition finish_chunk :: "to_chat \<Rightarrow> string \<Rightarrow> chat_chunk" where
  "finish_chunk s reason = chunk s [(0, chat_delta\<lparr>dl_content := Some []\<rparr>, Some reason)] None"

definition usage_chunks :: "to_chat \<Rightarrow> chat_chunk list" where
  "usage_chunks s = (if xc_include_usage s \<and> xc_usage s \<noteq> None then [chunk s [] (xc_usage s)] else [])"

subsection \<open>The handlers\<close>

definition chat_created :: "responses_event \<Rightarrow> to_chat \<Rightarrow> chat_out" where
  "chat_created e s =
     (let s1 = (case re_response e of None \<Rightarrow> s | Some r \<Rightarrow>
         s\<lparr>xc_id := (if rr_id r = [] then xc_id s else rr_id r),
           xc_model := (if xc_model s = [] then rr_model r else xc_model s)\<rparr>) in
      if xc_sent_role s1 then ([], s1)
      else let s2 = s1\<lparr>xc_sent_role := True\<rparr> in ([delta_chunk s2 (chat_delta\<lparr>dl_role := ''assistant''\<rparr>)], s2))"

definition chat_text_delta :: "responses_event \<Rightarrow> to_chat \<Rightarrow> chat_out" where
  "chat_text_delta e s =
     (if re_delta e = [] then ([], s)
      else let s1 = s\<lparr>xc_saw_text := True\<rparr> in ([delta_chunk s1 (chat_delta\<lparr>dl_content := Some (re_delta e)\<rparr>)], s1))"

definition chat_item_added :: "responses_event \<Rightarrow> to_chat \<Rightarrow> chat_out" where
  "chat_item_added e s = (case re_item e of
     None \<Rightarrow> ([], s)
   | Some it \<Rightarrow>
       if \<not> tool_item it then ([], s)
       else let s1 = s\<lparr>xc_saw_tool := True, xc_map := (xc_map s)(re_output_index e \<mapsto> xc_next s),
           xc_next := xc_next s + 1\<rparr> in
         ([delta_chunk s1 (chat_delta\<lparr>dl_tool_calls := [\<lparr>tc_index = Some (xc_next s), tc_id = ro_call_id it,
            tc_type = ''function'', tc_name = ro_name it, tc_arguments = []\<rparr>]\<rparr>)], s1))"

definition chat_args_delta :: "responses_event \<Rightarrow> to_chat \<Rightarrow> chat_out" where
  "chat_args_delta e s =
     (if re_delta e = [] then ([], s)
      else (case xc_map s (re_output_index e) of
        None \<Rightarrow> ([], s)
      | Some i \<Rightarrow> ([delta_chunk s (chat_delta\<lparr>dl_tool_calls := [\<lparr>tc_index = Some i, tc_id = [], tc_type = [],
            tc_name = [], tc_arguments = re_delta e\<rparr>]\<rparr>)], s)))"

definition chat_reasoning_delta :: "responses_event \<Rightarrow> to_chat \<Rightarrow> chat_out" where
  "chat_reasoning_delta e s =
     (if re_delta e = [] then ([], s)
      else ([delta_chunk s (chat_delta\<lparr>dl_reasoning := Some (re_delta e)\<rparr>)], s))"

definition or_else :: "'a option \<Rightarrow> 'a option \<Rightarrow> 'a option" where
  "or_else x y = (case x of None \<Rightarrow> y | Some _ \<Rightarrow> x)"

definition stream_finish_reason :: "responses_event \<Rightarrow> bool \<Rightarrow> string" where
  "stream_finish_reason e saw_tool = (case re_response e of
     None \<Rightarrow> if saw_tool then ''tool_calls'' else ''stop''
   | Some r \<Rightarrow>
       if rr_status r = ''incomplete'' \<and> rr_incomplete r = Some ''max_output_tokens'' then ''length''
       else if rr_status r = ''completed'' \<and> saw_tool then ''tool_calls'' else ''stop'')"

definition chat_completed :: "responses_event \<Rightarrow> to_chat \<Rightarrow> chat_out" where
  "chat_completed e s =
     (let s1 = s\<lparr>xc_finalized := True,
         xc_usage := or_else (chat_usage_of (Option.bind (re_response e) rr_usage)) (or_else (chat_usage_of (re_usage e)) (xc_usage s))\<rparr> in
      (finish_chunk s1 (stream_finish_reason e (xc_saw_tool s1)) # usage_chunks s1, s1))"

definition to_chat_chunks :: "(responses_event, to_chat, chat_chunk) converter" where
  "to_chat_chunks e s =
     (let ty = re_type e in
      if ty = ''response.created'' then chat_created e s
      else if text_delta_event ty then chat_text_delta e s
      else if ty = ''response.output_item.added'' then chat_item_added e s
      else if args_delta_event ty then chat_args_delta e s
      else if reasoning_delta_event ty then chat_reasoning_delta e s
      else if terminal_event ty then chat_completed e s
      else ([], s))"

definition finalize_chat :: "to_chat \<Rightarrow> chat_out" where
  "finalize_chat s =
     (if xc_finalized s then ([], s)
      else let s1 = s\<lparr>xc_finalized := True\<rparr> in
        (finish_chunk s1 (if xc_saw_tool s1 then ''tool_calls'' else ''stop'') # usage_chunks s1, s1))"

subsection \<open>The accumulator\<close>

text \<open>
  A \<open>bufferedFuncCall\<close> holds a \<open>strings.Builder\<close> by value.  A builder remembers the address it was first
  written at, and a write through a copy of it panics; \<open>append\<close> copies the calls into a new array when
  the capacity of the old one is used up.  So a call carries the array its builder was first written
  in, and the accumulator the number of its present array and its capacity; \<open>grow\<close>, the capacity the
  runtime chooses for a new array, is a parameter.  \<open>None\<close> is the panic.
\<close>

record func_call =
  fc_call_id :: string
  fc_name :: string
  fc_args :: string
  fc_home :: "nat option"

record accumulator =
  ba_text :: string
  ba_reasoning :: string
  ba_calls :: "func_call list"
  ba_array :: nat
  ba_cap :: nat
  ba_map :: "int \<rightharpoonup> nat"

definition new_accumulator :: accumulator where
  "new_accumulator = \<lparr>ba_text = [], ba_reasoning = [], ba_calls = [], ba_array = 0, ba_cap = 0, ba_map = Map.empty\<rparr>"

definition append_call :: "(nat \<Rightarrow> nat) \<Rightarrow> func_call \<Rightarrow> accumulator \<Rightarrow> accumulator" where
  "append_call grow c a =
     (let a1 = a\<lparr>ba_calls := ba_calls a @ [c]\<rparr> in
      if length (ba_calls a) < ba_cap a then a1
      else a1\<lparr>ba_array := Suc (ba_array a), ba_cap := max (Suc (length (ba_calls a))) (grow (ba_cap a))\<rparr>)"

definition write_args :: "nat \<Rightarrow> string \<Rightarrow> func_call \<Rightarrow> func_call option" where
  "write_args arr d c =
     (if fc_home c = None \<or> fc_home c = Some arr
      then Some (c\<lparr>fc_args := fc_args c @ d, fc_home := Some arr\<rparr>) else None)"

definition process_event :: "(nat \<Rightarrow> nat) \<Rightarrow> responses_event \<Rightarrow> accumulator \<Rightarrow> accumulator option" where
  "process_event grow e a =
     (let ty = re_type e in
      if text_delta_event ty then Some (a\<lparr>ba_text := ba_text a @ re_delta e\<rparr>)
      else if ty = ''response.output_item.added'' then
        (case re_item e of
           None \<Rightarrow> Some a
         | Some it \<Rightarrow> Some (if tool_item it
             then append_call grow \<lparr>fc_call_id = ro_call_id it, fc_name = ro_name it, fc_args = [], fc_home = None\<rparr>
               (a\<lparr>ba_map := (ba_map a)(re_output_index e \<mapsto> length (ba_calls a))\<rparr>)
             else a))
      else if args_delta_event ty then
        (if re_delta e = [] then Some a
         else (case ba_map a (re_output_index e) of
           None \<Rightarrow> Some a
         | Some i \<Rightarrow> map_option (\<lambda>c. a\<lparr>ba_calls := (ba_calls a)[i := c]\<rparr>)
             (write_args (ba_array a) (re_delta e) (ba_calls a ! i))))
      else if reasoning_delta_event ty then Some (a\<lparr>ba_reasoning := ba_reasoning a @ re_delta e\<rparr>)
      else Some a)"

text \<open>The accumulation of a stream, as \<open>readOpenAICompatBufferedTerminal\<close> runs it over its events.\<close>

fun accumulate :: "(nat \<Rightarrow> nat) \<Rightarrow> responses_event list \<Rightarrow> accumulator \<Rightarrow> accumulator option" where
  "accumulate grow [] a = Some a"
| "accumulate grow (e # es) a = Option.bind (process_event grow e a) (accumulate grow es)"

definition has_content :: "accumulator \<Rightarrow> bool" where
  "has_content a \<longleftrightarrow> ba_text a \<noteq> [] \<or> ba_calls a \<noteq> [] \<or> ba_reasoning a \<noteq> []"

definition build_output :: "accumulator \<Rightarrow> responses_output list" where
  "build_output a =
     (if ba_reasoning a = [] then [] else [(output_item ''reasoning'')\<lparr>ro_summary := [summary_part (ba_reasoning a)]\<rparr>]) @
     (if ba_text a = [] then []
      else [(output_item ''message'')\<lparr>ro_role := ''assistant'', ro_content := [text_part (ba_text a)]\<rparr>]) @
     map (\<lambda>c. (output_item ''function_call'')\<lparr>ro_call_id := fc_call_id c, ro_name := fc_name c, ro_arguments := fc_args c\<rparr>)
       (ba_calls a)"

definition supplement_output :: "accumulator \<Rightarrow> responses_response \<Rightarrow> responses_response" where
  "supplement_output a r = (if rr_output r \<noteq> [] \<or> \<not> has_content a then r else r\<lparr>rr_output := build_output a\<rparr>)"

subsection \<open>What a client makes of the chunks\<close>

text \<open>
  The contract of a stream: a client joins the contents and the reasoning, and builds the tool calls
  by their index.
\<close>

definition chunk_deltas :: "chat_chunk list \<Rightarrow> chat_delta list" where
  "chunk_deltas ks = concat (map (\<lambda>k. map (fst \<circ> snd) (ck_choices k)) ks)"

definition the_text :: "string option \<Rightarrow> string" where
  "the_text t = (case t of None \<Rightarrow> [] | Some t \<Rightarrow> t)"

definition client_text :: "chat_chunk list \<Rightarrow> string" where
  "client_text ks = concat (map (\<lambda>d. the_text (dl_content d)) (chunk_deltas ks))"

definition client_reasoning :: "chat_chunk list \<Rightarrow> string" where
  "client_reasoning ks = concat (map (\<lambda>d. the_text (dl_reasoning d)) (chunk_deltas ks))"

definition extend_call :: "chat_tool_call \<Rightarrow> chat_tool_call list \<Rightarrow> chat_tool_call list" where
  "extend_call t calls = (case tc_index t of
     None \<Rightarrow> calls
   | Some i \<Rightarrow> if nat i < length calls
       then calls[nat i := (calls ! nat i)\<lparr>tc_arguments := tc_arguments (calls ! nat i) @ tc_arguments t\<rparr>]
       else calls @ [t\<lparr>tc_index := None\<rparr>])"

definition client_calls :: "chat_chunk list \<Rightarrow> chat_tool_call list" where
  "client_calls ks = fold extend_call (concat (map dl_tool_calls (chunk_deltas ks))) []"

definition client_finishes :: "chat_chunk list \<Rightarrow> string list" where
  "client_finishes ks = concat (map (\<lambda>k. concat (map (\<lambda>c. case snd (snd c) of None \<Rightarrow> [] | Some r \<Rightarrow> [r]) (ck_choices k))) ks)"

definition client_usages :: "chat_chunk list \<Rightarrow> chat_usage list" where
  "client_usages ks = concat (map (\<lambda>k. case ck_usage k of None \<Rightarrow> [] | Some u \<Rightarrow> [u]) ks)"

lemmas client_defs = client_text_def client_reasoning_def client_calls_def client_finishes_def client_usages_def
  chunk_deltas_def

lemma client_nil [simp]:
  "client_text [] = []" "client_reasoning [] = []" "client_calls [] = []" "client_finishes [] = []"
  "client_usages [] = []" "chunk_deltas [] = []"
  by (simp_all add: client_defs)

lemma client_append [simp]:
  "client_text (ks @ ls) = client_text ks @ client_text ls"
  "client_reasoning (ks @ ls) = client_reasoning ks @ client_reasoning ls"
  "client_finishes (ks @ ls) = client_finishes ks @ client_finishes ls"
  "client_usages (ks @ ls) = client_usages ks @ client_usages ls"
  "client_calls (ks @ ls) = fold extend_call (concat (map dl_tool_calls (chunk_deltas ls))) (client_calls ks)"
  by (simp_all add: client_defs)

lemma client_cons:
  "client_text (k # ks) = client_text [k] @ client_text ks"
  "client_reasoning (k # ks) = client_reasoning [k] @ client_reasoning ks"
  "client_finishes (k # ks) = client_finishes [k] @ client_finishes ks"
  "client_usages (k # ks) = client_usages [k] @ client_usages ks"
  "chunk_deltas (k # ks) = chunk_deltas [k] @ chunk_deltas ks"
  by (simp_all add: client_defs)

lemma client_delta_chunk [simp]:
  "client_text [delta_chunk s d] = the_text (dl_content d)"
  "client_reasoning [delta_chunk s d] = the_text (dl_reasoning d)"
  "client_finishes [delta_chunk s d] = []" "client_usages [delta_chunk s d] = []"
  "chunk_deltas [delta_chunk s d] = [d]"
  by (simp_all add: client_defs delta_chunk_def chunk_def)

lemma chat_delta_simps [simp]:
  "dl_content chat_delta = None" "dl_reasoning chat_delta = None" "dl_tool_calls chat_delta = []"
  by (simp_all add: chat_delta_def)

lemma the_text_simps [simp]: "the_text None = []" "the_text (Some t) = t"
  by (simp_all add: the_text_def)

lemma client_finish_chunk [simp]:
  "client_text [finish_chunk s r] = []" "client_reasoning [finish_chunk s r] = []"
  "client_finishes [finish_chunk s r] = [r]" "client_usages [finish_chunk s r] = []"
  "chunk_deltas [finish_chunk s r] = [chat_delta\<lparr>dl_content := Some []\<rparr>]"
  by (simp_all add: client_defs finish_chunk_def chunk_def)

lemma client_usage_chunks [simp]:
  "client_text (usage_chunks s) = []" "client_reasoning (usage_chunks s) = []"
  "client_finishes (usage_chunks s) = []" "chunk_deltas (usage_chunks s) = []"
  "client_usages (usage_chunks s) = (if xc_include_usage s then (case xc_usage s of None \<Rightarrow> [] | Some u \<Rightarrow> [u]) else [])"
  by (auto simp: client_defs usage_chunks_def chunk_def split: option.splits)

subsection \<open>The accumulator follows the stream\<close>

definition call_of :: "func_call \<Rightarrow> chat_tool_call" where
  "call_of c = \<lparr>tc_index = None, tc_id = fc_call_id c, tc_type = ''function'', tc_name = fc_name c, tc_arguments = fc_args c\<rparr>"

definition same_turn :: "chat_chunk list \<Rightarrow> to_chat \<Rightarrow> accumulator \<Rightarrow> bool" where
  "same_turn ks s a \<longleftrightarrow> client_text ks = ba_text a \<and> client_reasoning ks = ba_reasoning a \<and>
     client_calls ks = map call_of (ba_calls a) \<and> client_finishes ks = [] \<and> client_usages ks = [] \<and>
     xc_next s = int (length (ba_calls a)) \<and> xc_map s = map_option int \<circ> ba_map a \<and>
     (xc_saw_tool s \<longleftrightarrow> ba_calls a \<noteq> []) \<and> (\<forall>i\<in>ran (ba_map a). i < length (ba_calls a))"

lemma same_turn_quiet: "same_turn ks s a \<Longrightarrow> xc_next s' = xc_next s \<Longrightarrow> xc_map s' = xc_map s \<Longrightarrow>
    xc_saw_tool s' = xc_saw_tool s \<Longrightarrow> same_turn ks s' a"
  by (simp add: same_turn_def)

lemma append_call_fields [simp]:
  "ba_text (append_call g c a) = ba_text a" "ba_reasoning (append_call g c a) = ba_reasoning a"
  "ba_calls (append_call g c a) = ba_calls a @ [c]" "ba_map (append_call g c a) = ba_map a"
  by (simp_all add: append_call_def Let_def)

lemma event_classes:
  "terminal_event ty \<Longrightarrow> \<not> text_delta_event ty \<and> \<not> args_delta_event ty \<and> \<not> reasoning_delta_event ty \<and>
     ty \<noteq> ''response.output_item.added'' \<and> ty \<noteq> ''response.created''"
  "text_delta_event ty \<Longrightarrow> \<not> args_delta_event ty \<and> \<not> reasoning_delta_event ty \<and>
     ty \<noteq> ''response.output_item.added'' \<and> ty \<noteq> ''response.created''"
  "args_delta_event ty \<Longrightarrow> \<not> reasoning_delta_event ty \<and> ty \<noteq> ''response.output_item.added'' \<and> ty \<noteq> ''response.created''"
  "reasoning_delta_event ty \<Longrightarrow> ty \<noteq> ''response.output_item.added'' \<and> ty \<noteq> ''response.created''"
  by (auto simp: terminal_event_def text_delta_event_def args_delta_event_def reasoning_delta_event_def)

lemma same_turn_text:
  assumes "same_turn ks s a"
  shows "same_turn (ks @ fst (chat_text_delta e s)) (snd (chat_text_delta e s)) (a\<lparr>ba_text := ba_text a @ re_delta e\<rparr>)"
  using assms by (simp add: same_turn_def chat_text_delta_def Let_def)

lemma same_turn_reasoning:
  assumes "same_turn ks s a"
  shows "same_turn (ks @ fst (chat_reasoning_delta e s)) (snd (chat_reasoning_delta e s))
    (a\<lparr>ba_reasoning := ba_reasoning a @ re_delta e\<rparr>)"
  using assms by (simp add: same_turn_def chat_reasoning_delta_def)

lemma same_turn_created:
  assumes "same_turn ks s a"
  shows "same_turn (ks @ fst (chat_created e s)) (snd (chat_created e s)) a"
  using assms by (simp add: same_turn_def chat_created_def Let_def split: option.splits)

lemma same_turn_added:
  assumes "same_turn ks s a" and "re_item e = Some it" and "tool_item it"
  shows "same_turn (ks @ fst (chat_item_added e s)) (snd (chat_item_added e s))
    (append_call grow \<lparr>fc_call_id = ro_call_id it, fc_name = ro_name it, fc_args = [], fc_home = None\<rparr>
      (a\<lparr>ba_map := (ba_map a)(re_output_index e \<mapsto> length (ba_calls a))\<rparr>))"
  using assms by (auto simp: same_turn_def chat_item_added_def Let_def extend_call_def call_of_def fun_eq_iff ran_def
      split: if_splits)

lemma same_turn_args:
  assumes st: "same_turn ks s a" and i: "ba_map a (re_output_index e) = Some i"
    and w: "write_args (ba_array a) (re_delta e) (ba_calls a ! i) = Some c" and d: "re_delta e \<noteq> []"
  shows "same_turn (ks @ fst (chat_args_delta e s)) (snd (chat_args_delta e s)) (a\<lparr>ba_calls := (ba_calls a)[i := c]\<rparr>)"
proof -
  from st i have "i < length (ba_calls a)" "xc_map s (re_output_index e) = Some (int i)"
    by (auto simp: same_turn_def ran_def)
  moreover from w have "call_of c = (call_of (ba_calls a ! i))\<lparr>tc_arguments := fc_args (ba_calls a ! i) @ re_delta e\<rparr>"
    by (auto simp: write_args_def call_of_def split: if_splits)
  ultimately show ?thesis
    using st d by (simp add: same_turn_def chat_args_delta_def extend_call_def map_update) (simp add: call_of_def)
qed

lemma same_turn_step:
  assumes st: "same_turn ks s a" and t: "\<not> terminal_event (re_type e)" and p: "process_event grow e a = Some a'"
  shows "same_turn (ks @ fst (to_chat_chunks e s)) (snd (to_chat_chunks e s)) a'"
proof -
  consider (content) "text_delta_event (re_type e)" | (args) "args_delta_event (re_type e)"
    | (reasoning) "reasoning_delta_event (re_type e)" | (added) "re_type e = ''response.output_item.added''"
    | (created) "re_type e = ''response.created''"
    | (other) "\<not> text_delta_event (re_type e)" "\<not> args_delta_event (re_type e)" "\<not> reasoning_delta_event (re_type e)"
      "re_type e \<noteq> ''response.output_item.added''" "re_type e \<noteq> ''response.created''"
    by blast
  then show ?thesis
  proof cases
    case content
    with p same_turn_text [OF st] event_classes(2) [OF content] show ?thesis
      by (auto simp: process_event_def to_chat_chunks_def Let_def)
  next
    case args
    show ?thesis
    proof (cases "re_delta e = [] \<or> ba_map a (re_output_index e) = None")
      case True
      moreover from st this have "chat_args_delta e s = ([], s)"
        by (auto simp: chat_args_delta_def same_turn_def)
      ultimately show ?thesis
        using p st event_classes [of "re_type e"] args
        by (auto simp: process_event_def to_chat_chunks_def Let_def split: if_splits option.splits)
    next
      case False
      then obtain i where "re_delta e \<noteq> []" "ba_map a (re_output_index e) = Some i"
        by auto
      with p same_turn_args [OF st] event_classes [of "re_type e"] args show ?thesis
        by (auto simp: process_event_def to_chat_chunks_def Let_def)
    qed
  next
    case reasoning
    with p same_turn_reasoning [OF st] event_classes [of "re_type e"] show ?thesis
      by (auto simp: process_event_def to_chat_chunks_def Let_def)
  next
    case added
    moreover have "\<not> text_delta_event (re_type e)" "re_type e \<noteq> ''response.created''"
      using added by (simp_all add: text_delta_event_def)
    ultimately show ?thesis
      using p st same_turn_added [OF st] 
      by (cases "re_item e"; cases "tool_item (the (re_item e))")
        (auto simp: process_event_def to_chat_chunks_def Let_def chat_item_added_def)
  next
    case created
    with p have "a' = a"
      by (simp add: process_event_def text_delta_event_def args_delta_event_def reasoning_delta_event_def)
    with created same_turn_created [OF st, of e] show ?thesis
      by (simp add: to_chat_chunks_def)
  next
    case other
    with p t st show ?thesis
      by (simp add: process_event_def to_chat_chunks_def Let_def)
  qed
qed

lemma same_turn_run:
  assumes "same_turn ks s a" and "\<forall>e\<in>set es. \<not> terminal_event (re_type e)" and "accumulate grow es a = Some b"
  shows "same_turn (ks @ fst (emit_all to_chat_chunks es s)) (snd (emit_all to_chat_chunks es s)) b"
  using assms
proof (induction es arbitrary: ks s a)
  case (Cons e es)
  from Cons.prems obtain a' where a': "process_event grow e a = Some a'" "accumulate grow es a' = Some b"
    by (auto simp: Option.bind_eq_Some_conv)
  with Cons.prems same_turn_step [of ks s a e grow a']
  have "same_turn (ks @ fst (to_chat_chunks e s)) (snd (to_chat_chunks e s)) a'"
    by simp
  with Cons.IH [OF this _ a'(2)] Cons.prems show ?case
    by (simp add: case_prod_beta)
qed simp

lemma keeps_include_usage:
  "xc_include_usage (snd (emit_all to_chat_chunks es s)) = xc_include_usage s"
proof (induction es arbitrary: s)
  case (Cons e es)
  have "xc_include_usage (snd (to_chat_chunks e s)) = xc_include_usage s"
    by (auto simp: to_chat_chunks_def chat_created_def chat_text_delta_def chat_item_added_def chat_args_delta_def
        chat_reasoning_delta_def chat_completed_def Let_def split: option.splits)
  with Cons show ?case
    by (simp add: case_prod_beta)
qed simp

lemma same_turn_new: "same_turn [] (new_to_chat i t m u) new_accumulator"
  by (simp add: same_turn_def new_to_chat_def new_accumulator_def fun_eq_iff)

subsection \<open>Whole and streamed answers agree\<close>

text \<open>The arguments of a tool call all come before the next call: a client of one call at a time.\<close>

fun call_by_call :: "int option \<Rightarrow> responses_event list \<Rightarrow> bool" where
  "call_by_call cur [] \<longleftrightarrow> True"
| "call_by_call cur (e # es) \<longleftrightarrow>
     (if re_type e = ''response.output_item.added'' \<and> (case re_item e of None \<Rightarrow> False | Some it \<Rightarrow> tool_item it)
      then call_by_call (Some (re_output_index e)) es
      else (args_delta_event (re_type e) \<longrightarrow> cur = Some (re_output_index e)) \<and> call_by_call cur es)"

definition last_writable :: "int option \<Rightarrow> accumulator \<Rightarrow> bool" where
  "last_writable cur a \<longleftrightarrow> (case cur of None \<Rightarrow> True | Some k \<Rightarrow>
     ba_calls a \<noteq> [] \<and> ba_map a k = Some (length (ba_calls a) - 1) \<and>
     (fc_home (last (ba_calls a)) = None \<or> fc_home (last (ba_calls a)) = Some (ba_array a)))"

lemma accumulate_total:
  assumes "last_writable cur a" and "call_by_call cur es"
  shows "\<exists>b. accumulate grow es a = Some b"
  using assms
proof (induction es arbitrary: cur a)
  case (Cons e es)
  let ?tool = "re_type e = ''response.output_item.added'' \<and> (case re_item e of None \<Rightarrow> False | Some it \<Rightarrow> tool_item it)"
  define cur' where "cur' = (if ?tool then Some (re_output_index e) else cur)"
  from Cons.prems have rest: "call_by_call cur' es"
    by (auto simp: cur'_def split: if_splits)
  have "\<exists>a'. process_event grow e a = Some a' \<and> last_writable cur' a'"
  proof (cases "?tool")
    case True
    then obtain it where it: "re_type e = ''response.output_item.added''" "re_item e = Some it" "tool_item it"
      by (auto split: option.splits)
    moreover from it(1) have "\<not> text_delta_event (re_type e)" "cur' = Some (re_output_index e)"
      using True by (simp_all add: text_delta_event_def cur'_def)
    ultimately show ?thesis
      by (simp add: process_event_def last_writable_def)
  next
    case False
    then have c': "cur' = cur"
      unfolding cur'_def by (rule if_not_P)
    show ?thesis
    proof (cases "args_delta_event (re_type e) \<and> re_delta e \<noteq> []")
      case True
      with Cons.prems(2) False have "cur = Some (re_output_index e)"
        by (auto split: if_splits)
      moreover have "\<not> text_delta_event (re_type e)" "re_type e \<noteq> ''response.output_item.added''"
        using True event_classes [of "re_type e"] by blast+
      ultimately show ?thesis
        using Cons.prems(1) True
        by (auto simp: process_event_def last_writable_def write_args_def c' last_conv_nth)
    next
      case no_args: False
      with Cons.prems(1) False show ?thesis
        by (auto simp: process_event_def Let_def last_writable_def c' split: option.splits)
    qed
  qed
  with Cons.IH rest show ?case
    by auto
qed simp

lemma build_output_parts:
  "response_text (build_output a) = ba_text a" "response_reasoning (build_output a) = ba_reasoning a"
  "response_calls (build_output a) = map call_of (ba_calls a)"
proof -
  have *: "response_text (map f (ba_calls a)) = []" "response_reasoning (map f (ba_calls a)) = []"
    if "\<And>c. ro_type (f c) = ''function_call''" for f :: "func_call \<Rightarrow> responses_output"
    using that by (simp_all add: response_text_def response_reasoning_def comp_def)
  have **: "response_calls (map f cs) = map call_of cs"
    if "\<And>c. ro_type (f c) = ''function_call'' \<and> ro_call_id (f c) = fc_call_id c \<and> ro_name (f c) = fc_name c \<and>
      ro_arguments (f c) = fc_args c" for f :: "func_call \<Rightarrow> responses_output" and cs
    using that by (induction cs) (simp_all add: response_calls_def call_of_def)
  have app: "response_text (xs @ ys) = response_text xs @ response_text ys"
    "response_reasoning (xs @ ys) = response_reasoning xs @ response_reasoning ys"
    "response_calls (xs @ ys) = response_calls xs @ response_calls ys" for xs ys
    by (simp_all add: response_text_def response_reasoning_def response_calls_def)
  show "response_text (build_output a) = ba_text a" "response_reasoning (build_output a) = ba_reasoning a"
    "response_calls (build_output a) = map call_of (ba_calls a)"
    unfolding build_output_def app
    by (auto simp: * ** output_item_def) (auto simp: response_text_def response_reasoning_def response_calls_def
      summary_part_def text_part_def output_item_def)
qed

lemma supplemented_parts:
  assumes "rr_output r = []"
  shows "response_text (rr_output (supplement_output a r)) = ba_text a"
    "response_reasoning (rr_output (supplement_output a r)) = ba_reasoning a"
    "response_calls (rr_output (supplement_output a r)) = map call_of (ba_calls a)"
    "rr_status (supplement_output a r) = rr_status r" "rr_incomplete (supplement_output a r) = rr_incomplete r"
    "rr_usage (supplement_output a r) = rr_usage r"
proof -
  have "response_text [] = []" "response_reasoning [] = []" "response_calls [] = []"
    by (simp_all add: response_text_def response_reasoning_def response_calls_def)
  with assms show "response_text (rr_output (supplement_output a r)) = ba_text a"
    "response_reasoning (rr_output (supplement_output a r)) = ba_reasoning a"
    "response_calls (rr_output (supplement_output a r)) = map call_of (ba_calls a)"
    "rr_status (supplement_output a r) = rr_status r" "rr_incomplete (supplement_output a r) = rr_incomplete r"
    "rr_usage (supplement_output a r) = rr_usage r"
    by (auto simp: supplement_output_def build_output_parts has_content_def)
qed

text \<open>The one choice of a whole answer.\<close>

definition choice_message :: "chat_response \<Rightarrow> chat_message" where
  "choice_message c = fst (snd (hd (cr_choices c)))"

definition choice_finish :: "chat_response \<Rightarrow> string" where
  "choice_finish c = snd (snd (hd (cr_choices c)))"


definition two_calls :: "responses_event list" where
  "two_calls =
    [responses_event ''response.created'',
     (responses_event ''response.output_text.delta'')\<lparr>re_delta := ''Hi''\<rparr>,
     (responses_event ''response.output_item.added'')\<lparr>re_output_index := 1,
       re_item := Some ((output_item ''function_call'')\<lparr>ro_call_id := ''a'', ro_name := ''f''\<rparr>)\<rparr>,
     (responses_event ''response.function_call_arguments.delta'')\<lparr>re_output_index := 1, re_delta := ''1''\<rparr>,
     (responses_event ''response.output_item.added'')\<lparr>re_output_index := 2,
       re_item := Some ((output_item ''function_call'')\<lparr>ro_call_id := ''b'', ro_name := ''g''\<rparr>)\<rparr>,
     (responses_event ''response.function_call_arguments.delta'')\<lparr>re_output_index := 2, re_delta := ''2''\<rparr>]"

definition plain_end :: "responses_response" where
  "plain_end = \<lparr>rr_id = ''r'', rr_object = ''response'', rr_model = ''m'', rr_status = ''completed'', rr_output = [],
     rr_usage = Some \<lparr>ru_input = 1, ru_output = 2, ru_total = 3, ru_input_details = None, ru_output_details = None\<rparr>,
     rr_incomplete = None, rr_error = None\<rparr>"

definition the_end :: responses_event where
  "the_end = (responses_event ''response.completed'')\<lparr>re_response := Some plain_end\<rparr>"


text \<open>Arguments of the first call after the second one was added: the first builder was copied, and the
  accumulator panics where the stream goes on.\<close>

definition interleaved_calls :: "responses_event list" where
  "interleaved_calls = two_calls @
    [(responses_event ''response.function_call_arguments.delta'')\<lparr>re_output_index := 1, re_delta := ''3''\<rparr>]"

lemma interleaved_calls_panic:
  "accumulate (\<lambda>n. if n = 0 then 1 else 2 * n) interleaved_calls new_accumulator = None"
  "map tc_arguments (client_calls (fst (emit_all to_chat_chunks interleaved_calls (new_to_chat ''x'' 5 ''m'' True)))) = [''13'', ''2'']"
  by code_simp+

text \<open>A custom tool call: a call in the stream, nothing in a whole response that lists it.\<close>

definition custom_call :: responses_output where
  "custom_call = (output_item ''custom_tool_call'')\<lparr>ro_call_id := ''a'', ro_name := ''apply_patch''\<rparr>"

lemma custom_calls_dropped:
  "(let c = responses_to_chat ''x'' 7 (plain_end\<lparr>rr_output := [custom_call]\<rparr>) ''m'' in
     ch_tool_calls (choice_message c) = [] \<and> choice_finish c = ''stop'')"
  "client_finishes (fst (emit_all to_chat_chunks
     [(responses_event ''response.output_item.added'')\<lparr>re_item := Some custom_call\<rparr>, the_end]
     (new_to_chat ''x'' 5 ''m'' True))) = [''tool_calls'']"
  by code_simp+

end
