(* ===== verification/AnthToChat.thy ===== *)
theory AnthToChat
  imports RespToChat
begin

section \<open>Anthropic to Chat Completions\<close>

text \<open>
  \<open>service/gateway_forward_as_chat_completions.go\<close>: a chat client on an Anthropic upstream.  The whole message
  goes through both conversions; a stream goes event by event through both converters, and both are
  finalized when it ends.
\<close>

subsection \<open>The chain of converters\<close>

definition chain_event :: "(nat \<Rightarrow> string) \<Rightarrow> (anthropic_event, to_resp \<times> to_chat, chat_chunk) converter" where
  "chain_event ids e s = (case to_responses_events ids e (fst s) of (es, a) \<Rightarrow>
     case emit_all to_chat_chunks es (snd s) of (ks, c) \<Rightarrow> (ks, (a, c)))"

definition chain_finalize :: "to_resp \<times> to_chat \<Rightarrow> chat_chunk list" where
  "chain_finalize s = (case emit_all to_chat_chunks (fst (finalize_responses (fst s))) (snd s) of (ks, c) \<Rightarrow>
     ks @ fst (finalize_chat c))"

definition chat_stream :: "(nat \<Rightarrow> string) \<Rightarrow> anthropic_event list \<Rightarrow> to_resp \<times> to_chat \<Rightarrow> chat_chunk list" where
  "chat_stream ids es s = (case emit_all (chain_event ids) es s of (ks, s1) \<Rightarrow> ks @ chain_finalize s1)"

subsection \<open>The buffered answer\<close>

text \<open>
  \<open>handleCCBufferedFromAnthropic\<close> assembles the message from the stream; \<open>None\<close> is the panic of a negative
  index.
\<close>

record buffered =
  bs_message :: "anthropic_message option"
  bs_usage :: anthropic_usage

definition new_buffered :: buffered where
  "new_buffered = \<lparr>bs_message = None,
     bs_usage = \<lparr>au_input = 0, au_output = 0, au_cache_creation = 0, au_cache_read = 0\<rparr>\<rparr>"

definition merge_usage :: "anthropic_usage \<Rightarrow> anthropic_usage \<Rightarrow> anthropic_usage" where
  "merge_usage dst src = \<lparr>au_input = keep_positive (au_input src) (au_input dst),
     au_output = keep_positive (au_output src) (au_output dst),
     au_cache_creation = keep_positive (au_cache_creation src) (au_cache_creation dst),
     au_cache_read = keep_positive (au_cache_read src) (au_cache_read dst)\<rparr>"

definition append_raw_json :: "string \<Rightarrow> string \<Rightarrow> string" where
  "append_raw_json existing fragment = (if existing = [] then fragment else existing @ fragment)"

definition extend_block :: "anthropic_delta \<Rightarrow> anthropic_block \<Rightarrow> anthropic_block" where
  "extend_block d b =
     (if ad_type d = ''text_delta'' then b\<lparr>ab_text := ab_text b @ ad_text d\<rparr>
      else if ad_type d = ''thinking_delta'' then b\<lparr>ab_thinking := ab_thinking b @ ad_thinking d\<rparr>
      else if ad_type d = ''input_json_delta'' then b\<lparr>ab_input := append_raw_json (ab_input b) (ad_partial_json d)\<rparr>
      else b)"

definition extend_content :: "int \<Rightarrow> anthropic_delta \<Rightarrow> anthropic_message \<Rightarrow> anthropic_message option" where
  "extend_content i d m =
     (if int (length (am_content m)) \<le> i then Some m
      else if i < 0 then None
      else Some (m\<lparr>am_content := (am_content m)[nat i := extend_block d (am_content m ! nat i)]\<rparr>))"

definition buffer_start :: "anthropic_message \<Rightarrow> buffered \<Rightarrow> buffered" where
  "buffer_start m b = \<lparr>bs_message = Some m, bs_usage = merge_usage (bs_usage b) (am_usage m)\<rparr>"

definition buffer_message_delta :: "anthropic_event \<Rightarrow> buffered \<Rightarrow> buffered" where
  "buffer_message_delta e b =
     (let b1 = (case ae_usage e of None \<Rightarrow> b | Some u \<Rightarrow> b\<lparr>bs_usage := merge_usage (bs_usage b) u\<rparr>) in
      (case ae_delta e of
         None \<Rightarrow> b1
       | Some d \<Rightarrow> if ad_stop_reason d = [] then b1
           else b1\<lparr>bs_message := map_option (\<lambda>m. m\<lparr>am_stop_reason := ad_stop_reason d\<rparr>) (bs_message b1)\<rparr>))"

definition buffer_event :: "anthropic_event \<Rightarrow> buffered \<Rightarrow> buffered option" where
  "buffer_event e b =
     (if ae_type e = ''message_start'' then Some (case ae_message e of None \<Rightarrow> b | Some m \<Rightarrow> buffer_start m b)
      else if ae_type e = ''message_delta'' then Some (buffer_message_delta e b)
      else if ae_type e = ''content_block_start'' then
        Some (case ae_block e of None \<Rightarrow> b
          | Some k \<Rightarrow> b\<lparr>bs_message := map_option (\<lambda>m. m\<lparr>am_content := am_content m @ [k]\<rparr>) (bs_message b)\<rparr>)
      else if ae_type e = ''content_block_delta'' then
        (case (ae_delta e, bs_message b, ae_index e) of
           (Some d, Some m, Some i) \<Rightarrow> map_option (\<lambda>m. b\<lparr>bs_message := Some m\<rparr>) (extend_content i d m)
         | _ \<Rightarrow> Some b)
      else Some b)"

fun buffer_all :: "anthropic_event list \<Rightarrow> buffered \<Rightarrow> buffered option" where
  "buffer_all [] b = Some b"
| "buffer_all (e # es) b = Option.bind (buffer_event e b) (buffer_all es)"

definition with_usage :: "anthropic_usage \<Rightarrow> anthropic_message \<Rightarrow> anthropic_message" where
  "with_usage u m = (if 0 < au_input u \<or> 0 < au_output u then m\<lparr>am_usage := u\<rparr> else m)"

definition buffered_message :: "anthropic_event list \<Rightarrow> anthropic_message option" where
  "buffered_message es = Option.bind (buffer_all es new_buffered) (\<lambda>b. map_option (with_usage (bs_usage b)) (bs_message b))"

definition whole_chat :: "(nat \<Rightarrow> string) \<Rightarrow> string \<Rightarrow> string \<Rightarrow> int64 \<Rightarrow> string \<Rightarrow> anthropic_message \<Rightarrow> chat_response" where
  "whole_chat ids fresh fresh' t model m = responses_to_chat fresh' t (anthropic_to_responses ids fresh m) model"

lemma chain_emit:
  "emit_all (chain_event ids) es s = (case emit_all (to_responses_events ids) es (fst s) of (rs, a) \<Rightarrow>
     case emit_all to_chat_chunks rs (snd s) of (ks, c) \<Rightarrow> (ks, (a, c)))"
  by (induction es arbitrary: s) (simp_all add: chain_event_def emit_all_append case_prod_beta)

subsection \<open>A message as a stream\<close>

text \<open>
  The events of a message: every block with its fragments.  The start of a block carries its type, the
  identifier and name of a tool call, and the text its input starts from, empty or the braces the
  API sends.
\<close>

definition payload :: "anthropic_block \<Rightarrow> string" where
  "payload b = (if ab_type b = ''text'' then ab_text b else if ab_type b = ''thinking'' then ab_thinking b else ab_input b)"

definition start_of :: "string \<Rightarrow> anthropic_block \<Rightarrow> anthropic_block" where
  "start_of input b = (anthropic_block (ab_type b))\<lparr>ab_id := ab_id b, ab_name := ab_name b,
     ab_input := (if ab_type b = ''tool_use'' then input else [])\<rparr>"

definition delta_of :: "anthropic_block \<Rightarrow> int \<Rightarrow> string \<Rightarrow> anthropic_event" where
  "delta_of b i f = (anthropic_event ''content_block_delta'')\<lparr>ae_index := Some i, ae_delta := Some
     (if ab_type b = ''text'' then (anthropic_delta ''text_delta'')\<lparr>ad_text := f\<rparr>
      else if ab_type b = ''thinking'' then (anthropic_delta ''thinking_delta'')\<lparr>ad_thinking := f\<rparr>
      else (anthropic_delta ''input_json_delta'')\<lparr>ad_partial_json := f\<rparr>)\<rparr>"

definition block_stream :: "string \<Rightarrow> int \<Rightarrow> anthropic_block \<times> string list \<Rightarrow> anthropic_event list" where
  "block_stream input i bf =
     (anthropic_event ''content_block_start'')\<lparr>ae_index := Some i, ae_block := Some (start_of input (fst bf))\<rparr> #
     map (delta_of (fst bf) i) (snd bf) @ [(anthropic_event ''content_block_stop'')\<lparr>ae_index := Some i\<rparr>]"

fun blocks_stream :: "string \<Rightarrow> int \<Rightarrow> (anthropic_block \<times> string list) list \<Rightarrow> anthropic_event list" where
  "blocks_stream input i [] = []"
| "blocks_stream input i (bf # bfs) = block_stream input i bf @ blocks_stream input (i + 1) bfs"

definition message_stream :: "string \<Rightarrow> anthropic_message \<Rightarrow> (anthropic_block \<times> string list) list \<Rightarrow>
    string \<Rightarrow> anthropic_usage \<Rightarrow> anthropic_event list" where
  "message_stream input m bfs stop u = (anthropic_event ''message_start'')\<lparr>ae_message := Some m\<rparr> #
     blocks_stream input 0 bfs @
     [(anthropic_event ''message_delta'')\<lparr>ae_usage := Some u, ae_delta := Some ((anthropic_delta [])\<lparr>ad_stop_reason := stop\<rparr>)\<rparr>,
      anthropic_event ''message_stop'']"

definition fragmented :: "anthropic_block \<times> string list \<Rightarrow> bool" where
  "fragmented bf \<longleftrightarrow> ab_type (fst bf) \<in> {''text'', ''thinking'', ''tool_use''} \<and> concat (snd bf) = payload (fst bf) \<and>
     (ab_type (fst bf) = ''tool_use'' \<longrightarrow> ab_input (fst bf) \<noteq> [])"

subsection \<open>What the chat client has seen\<close>

definition follows :: "chat_chunk list \<Rightarrow> to_chat \<Rightarrow> string \<Rightarrow> string \<Rightarrow> chat_tool_call list \<Rightarrow> bool" where
  "follows ks c t r calls \<longleftrightarrow> client_text ks = t \<and> client_reasoning ks = r \<and> client_calls ks = calls \<and>
     client_finishes ks = [] \<and> client_usages ks = [] \<and> xc_next c = int (length calls) \<and> (xc_saw_tool c \<longleftrightarrow> calls \<noteq> [])"

definition then_chat :: "chat_chunk list \<times> to_chat \<Rightarrow> responses_event list \<Rightarrow> chat_chunk list \<times> to_chat" where
  "then_chat p es = (case emit_all to_chat_chunks es (snd p) of (ls, c) \<Rightarrow> (fst p @ ls, c))"

lemma then_chat_simps [simp]:
  "then_chat p [] = p" "then_chat p (es @ fs) = then_chat (then_chat p es) fs"
  by (simp_all add: then_chat_def emit_all_append case_prod_beta)

lemma then_chat_cons: "then_chat p (e # es) = then_chat (fst p @ fst (to_chat_chunks e (snd p)), snd (to_chat_chunks e (snd p))) es"
  by (simp add: then_chat_def case_prod_beta)

abbreviation follows' where "follows' p \<equiv> follows (fst p) (snd p)"

lemma follows_text:
  assumes "follows' p t r cs" and "\<forall>e\<in>set es. re_type e = ''response.output_text.delta''"
  shows "follows' (then_chat p es) (t @ concat (map re_delta es)) r cs"
  using assms
proof (induction es arbitrary: p t)
  case (Cons e es)
  then have "to_chat_chunks e c = chat_text_delta e c" for c
    by (simp add: to_chat_chunks_def text_delta_event_def)
  with Cons.prems have "follows (fst p @ fst (to_chat_chunks e (snd p))) (snd (to_chat_chunks e (snd p))) (t @ re_delta e) r cs"
    by (simp add: follows_def chat_text_delta_def Let_def)
  with Cons.IH [of "(fst p @ fst (to_chat_chunks e (snd p)), snd (to_chat_chunks e (snd p)))" "t @ re_delta e"] Cons.prems
  show ?case
    by (simp add: then_chat_cons)
qed simp

lemma follows_reasoning:
  assumes "follows' p t r cs" and "\<forall>e\<in>set es. re_type e = ''response.reasoning_summary_text.delta''"
  shows "follows' (then_chat p es) t (r @ concat (map re_delta es)) cs"
  using assms
proof (induction es arbitrary: p r)
  case (Cons e es)
  then have "to_chat_chunks e c = chat_reasoning_delta e c" for c
    by (simp add: to_chat_chunks_def text_delta_event_def args_delta_event_def reasoning_delta_event_def)
  with Cons.prems have "follows (fst p @ fst (to_chat_chunks e (snd p))) (snd (to_chat_chunks e (snd p))) t (r @ re_delta e) cs"
    by (simp add: follows_def chat_reasoning_delta_def Let_def)
  with Cons.IH [of "(fst p @ fst (to_chat_chunks e (snd p)), snd (to_chat_chunks e (snd p)))" "r @ re_delta e"] Cons.prems
  show ?case
    by (simp add: then_chat_cons)
qed simp

lemma follows_args:
  assumes "follows' p t r (cs @ [k])" and "xc_map (snd p) i = Some (int (length cs))"
    and "\<forall>e\<in>set es. re_type e = ''response.function_call_arguments.delta'' \<and> re_output_index e = i"
  shows "follows' (then_chat p es) t r (cs @ [k\<lparr>tc_arguments := tc_arguments k @ concat (map re_delta es)\<rparr>])"
  using assms
proof (induction es arbitrary: p k)
  case (Cons e es)
  then have "to_chat_chunks e c = chat_args_delta e c" for c
    by (simp add: to_chat_chunks_def text_delta_event_def args_delta_event_def)
  with Cons.prems have "follows (fst p @ fst (to_chat_chunks e (snd p))) (snd (to_chat_chunks e (snd p))) t r
      (cs @ [k\<lparr>tc_arguments := tc_arguments k @ re_delta e\<rparr>]) \<and> xc_map (snd (to_chat_chunks e (snd p))) = xc_map (snd p)"
    by (simp add: follows_def chat_args_delta_def extend_call_def)
  with Cons.IH [of "(fst p @ fst (to_chat_chunks e (snd p)), snd (to_chat_chunks e (snd p)))"
      "k\<lparr>tc_arguments := tc_arguments k @ re_delta e\<rparr>"] Cons.prems
  show ?case
    by (simp add: then_chat_cons)
qed simp

text \<open>The events a chat client does not see.\<close>

definition unseen :: "responses_event \<Rightarrow> bool" where
  "unseen e \<longleftrightarrow> (\<forall>c. to_chat_chunks e c = ([], c))"

lemma follows_unseen: "\<forall>e\<in>set es. unseen e \<Longrightarrow> then_chat p es = p"
  by (induction es arbitrary: p) (simp_all add: then_chat_cons unseen_def)

lemma unseen_done:
  "re_type e \<in> {''response.output_item.done'', ''response.output_text.done'', ''response.reasoning_summary_text.done'',
     ''response.function_call_arguments.done''} \<Longrightarrow> unseen e"
  by (auto simp: unseen_def to_chat_chunks_def text_delta_event_def args_delta_event_def reasoning_delta_event_def
      terminal_event_def)

lemma unseen_item: "re_type e = ''response.output_item.added'' \<Longrightarrow> re_item e = Some it \<Longrightarrow> \<not> tool_item it \<Longrightarrow> unseen e"
  by (auto simp: unseen_def to_chat_chunks_def text_delta_event_def chat_item_added_def)

lemma follows_added:
  assumes "follows' p t r cs" and "re_type e = ''response.output_item.added''" and "re_item e = Some it" and "tool_item it"
  shows "follows' (then_chat p [e]) t r (cs @ [\<lparr>tc_index = None, tc_id = ro_call_id it, tc_type = ''function'',
      tc_name = ro_name it, tc_arguments = []\<rparr>])"
    "xc_map (snd (then_chat p [e])) (re_output_index e) = Some (int (length cs))"
  using assms by (simp_all add: then_chat_cons to_chat_chunks_def text_delta_event_def follows_def chat_item_added_def
      Let_def extend_call_def)

subsection \<open>The converters on the events of a block\<close>

text \<open>The deltas of a block, all with the output index and the item of the state.\<close>

definition resp_delta_type :: "anthropic_block \<Rightarrow> string" where
  "resp_delta_type b = (if ab_type b = ''text'' then ''response.output_text.delta''
     else if ab_type b = ''thinking'' then ''response.reasoning_summary_text.delta''
     else ''response.function_call_arguments.delta'')"

lemma to_responses_delta:
  "to_responses_events ids (delta_of b i f) s = (if f = [] then ([], s) else
     make_event s ((responses_event (resp_delta_type b))\<lparr>re_output_index := xr_output_index s,
       re_content_index := (if ab_type b = ''text'' then xr_content_index s else 0),
       re_delta := f, re_item_id := xr_item_id s,
       re_call_id := (if ab_type b \<in> {''text'', ''thinking''} then [] else xr_call_id s),
       re_name := (if ab_type b \<in> {''text'', ''thinking''} then [] else xr_name s)\<rparr>))"
  by (auto simp: to_responses_events_def Let_def delta_of_def anthropic_event_def handle_block_delta_def
      anthropic_delta_def resp_delta_type_def responses_event_def)

lemma to_responses_deltas:
  "\<exists>es n. emit_all (to_responses_events ids) (map (delta_of b i) fs) s = (es, s\<lparr>xr_seq := n\<rparr>) \<and>
     (\<forall>e\<in>set es. re_type e = resp_delta_type b \<and> re_output_index e = xr_output_index s) \<and>
     concat (map re_delta es) = concat fs"
proof (induction fs arbitrary: s)
  case Nil
  show ?case
    by (auto intro!: exI [of _ "xr_seq s"])
next
  case (Cons f fs)
  show ?case
  proof (cases "f = []")
    case True
    with Cons [of s] show ?thesis
      by (simp add: to_responses_delta case_prod_beta)
  next
    case False
    from Cons [of "s\<lparr>xr_seq := xr_seq s + 1\<rparr>"] obtain es n where
      "emit_all (to_responses_events ids) (map (delta_of b i) fs) (s\<lparr>xr_seq := xr_seq s + 1\<rparr>) = (es, s\<lparr>xr_seq := n\<rparr>)"
      "\<forall>e\<in>set es. re_type e = resp_delta_type b \<and> re_output_index e = xr_output_index s" "concat (map re_delta es) = concat fs"
      by auto
    then show ?thesis
      using False by (simp add: to_responses_delta make_event_def responses_event_def case_prod_beta) blast
  qed
qed

text \<open>What a block leaves of the state.\<close>

definition same_base :: "to_resp \<Rightarrow> to_resp \<Rightarrow> bool" where
  "same_base s s' \<longleftrightarrow> xr_created_sent s' = xr_created_sent s \<and> xr_completed_sent s' = xr_completed_sent s \<and>
     xr_input s' = xr_input s \<and> xr_output s' = xr_output s \<and> xr_cache_read s' = xr_cache_read s \<and>
     xr_cache_creation s' = xr_cache_creation s"

lemma same_base_simps [simp]:
  "same_base s (s'\<lparr>xr_seq := n\<rparr>) = same_base s s'" "same_base s s"
  by (simp_all add: same_base_def)

lemma same_base_trans: "same_base s s' \<Longrightarrow> same_base s' s'' \<Longrightarrow> same_base s s''"
  by (simp add: same_base_def)

lemma same_base_close: "same_base s (snd (close_item s))"
  by (simp add: close_item_def make_event_def same_base_def)

lemma unseen_close: "\<forall>e\<in>set (fst (close_item s)). unseen e"
  by (auto simp: close_item_def make_event_def intro!: unseen_done)

lemma block_stop:
  "\<forall>e\<in>set (fst (handle_block_stop s)). unseen e" "same_base s (snd (handle_block_stop s))"
  using unseen_close [of "s\<lparr>xr_seq := xr_seq s + 1\<rparr>"] same_base_close [of "s\<lparr>xr_seq := xr_seq s + 1\<rparr>"]
  by (auto simp: handle_block_stop_def then_close_def with_prefix_def make_event_def intro!: unseen_done)
    (auto simp: same_base_def)

lemma block_start_unseen:
  assumes "ab_type b \<in> {''text'', ''thinking''}" and "ae_block e = Some b"
  shows "\<forall>e\<in>set (fst (handle_block_start ids e s)). unseen e" "same_base s (snd (handle_block_start ids e s))"
  using assms
  by (auto simp: handle_block_start_def fresh_item_def make_event_def Let_def same_base_def
      intro!: unseen_item) (auto simp: added_event_def tool_item_def output_item_def)

definition block_text :: "anthropic_block \<Rightarrow> string" where
  "block_text b = (if ab_type b = ''text'' then ab_text b else [])"

definition block_thinking :: "anthropic_block \<Rightarrow> string" where
  "block_thinking b = (if ab_type b = ''thinking'' then ab_thinking b else [])"

definition block_calls :: "anthropic_block \<Rightarrow> chat_tool_call list" where
  "block_calls b = (if ab_type b = ''tool_use'' then [\<lparr>tc_index = None, tc_id = ab_id b, tc_type = ''function'',
     tc_name = ab_name b, tc_arguments = ab_input b\<rparr>] else [])"

text \<open>A stream of events through the two converters.\<close>

definition both :: "(nat \<Rightarrow> string) \<Rightarrow> anthropic_event list \<Rightarrow> chat_chunk list \<times> to_resp \<times> to_chat \<Rightarrow>
    chat_chunk list \<times> to_resp \<times> to_chat" where
  "both ids es p = (case emit_all (chain_event ids) es (snd p) of (ks, s) \<Rightarrow> (fst p @ ks, s))"

lemma both_append: "both ids (es @ fs) p = both ids fs (both ids es p)"
  by (simp add: both_def emit_all_append case_prod_beta)

lemma both_unfold:
  "both ids es (ks, a, c) = (case emit_all (to_responses_events ids) es a of (rs, a') \<Rightarrow>
     case then_chat (ks, c) rs of (ls, c') \<Rightarrow> (ls, a', c'))"
  by (simp add: both_def chain_emit then_chat_def case_prod_beta)

abbreviation seen where "seen p \<equiv> follows (fst p) (snd (snd p))"

lemma both_deltas_text:
  assumes "seen p t r cs" and "ab_type b = ''text''"
  shows "seen (both ids (map (delta_of b i) fs) p) (t @ concat fs) r cs"
    "same_base (fst (snd p)) (fst (snd (both ids (map (delta_of b i) fs) p)))"
proof -
  obtain ks a c where p: "p = (ks, a, c)"
    by (cases p)
  from to_responses_deltas [of ids b i fs a] obtain es n where
    es: "emit_all (to_responses_events ids) (map (delta_of b i) fs) a = (es, a\<lparr>xr_seq := n\<rparr>)"
      "\<forall>e\<in>set es. re_type e = ''response.output_text.delta''" "concat (map re_delta es) = concat fs"
    using assms(2) by (auto simp: resp_delta_type_def)
  with follows_text [of "(ks, c)" t r cs es] assms(1)
  show "seen (both ids (map (delta_of b i) fs) p) (t @ concat fs) r cs"
    "same_base (fst (snd p)) (fst (snd (both ids (map (delta_of b i) fs) p)))"
    by (simp_all add: p both_unfold case_prod_beta)
qed

lemma both_deltas_thinking:
  assumes "seen p t r cs" and "ab_type b = ''thinking''"
  shows "seen (both ids (map (delta_of b i) fs) p) t (r @ concat fs) cs"
    "same_base (fst (snd p)) (fst (snd (both ids (map (delta_of b i) fs) p)))"
proof -
  obtain ks a c where p: "p = (ks, a, c)"
    by (cases p)
  from to_responses_deltas [of ids b i fs a] obtain es n where
    es: "emit_all (to_responses_events ids) (map (delta_of b i) fs) a = (es, a\<lparr>xr_seq := n\<rparr>)"
      "\<forall>e\<in>set es. re_type e = ''response.reasoning_summary_text.delta''" "concat (map re_delta es) = concat fs"
    using assms(2) by (auto simp: resp_delta_type_def)
  with follows_reasoning [of "(ks, c)" t r cs es] assms(1)
  show "seen (both ids (map (delta_of b i) fs) p) t (r @ concat fs) cs"
    "same_base (fst (snd p)) (fst (snd (both ids (map (delta_of b i) fs) p)))"
    by (simp_all add: p both_unfold case_prod_beta)
qed

lemma both_deltas_tool:
  assumes "seen p t r (cs @ [k])" and "ab_type b = ''tool_use''"
    and "xc_map (snd (snd p)) (xr_output_index (fst (snd p))) = Some (int (length cs))"
  shows "seen (both ids (map (delta_of b i) fs) p) t r (cs @ [k\<lparr>tc_arguments := tc_arguments k @ concat fs\<rparr>])"
    "same_base (fst (snd p)) (fst (snd (both ids (map (delta_of b i) fs) p)))"
proof -
  obtain ks a c where p: "p = (ks, a, c)"
    by (cases p)
  from to_responses_deltas [of ids b i fs a] obtain es n where
    es: "emit_all (to_responses_events ids) (map (delta_of b i) fs) a = (es, a\<lparr>xr_seq := n\<rparr>)"
      "\<forall>e\<in>set es. re_type e = ''response.function_call_arguments.delta'' \<and> re_output_index e = xr_output_index a"
      "concat (map re_delta es) = concat fs"
    using assms(2) by (auto simp: resp_delta_type_def)
  with follows_args [of "(ks, c)" t r cs k "xr_output_index a" es] assms(1,3)
  show "seen (both ids (map (delta_of b i) fs) p) t r (cs @ [k\<lparr>tc_arguments := tc_arguments k @ concat fs\<rparr>])"
    "same_base (fst (snd p)) (fst (snd (both ids (map (delta_of b i) fs) p)))"
    by (simp_all add: p both_unfold case_prod_beta)
qed

lemma both_event:
  "both ids [e] p = (case to_responses_events ids e (fst (snd p)) of (rs, a) \<Rightarrow>
     case then_chat (fst p, snd (snd p)) rs of (ls, c) \<Rightarrow> (ls, a, c))"
  by (cases p) (simp add: both_unfold case_prod_beta)

lemma both_stop:
  assumes "seen p t r cs" and "ae_type e = ''content_block_stop''"
  shows "seen (both ids [e] p) t r cs" "same_base (fst (snd p)) (fst (snd (both ids [e] p)))"
  using assms block_stop [of "fst (snd p)"]
  by (simp_all add: both_event to_responses_events_def case_prod_beta follows_unseen)

lemma both_start_quiet:
  assumes "seen p t r cs" and "ae_type e = ''content_block_start''" and "ae_block e = Some b"
    and "ab_type b \<in> {''text'', ''thinking''}"
  shows "seen (both ids [e] p) t r cs" "same_base (fst (snd p)) (fst (snd (both ids [e] p)))"
  using assms(1,2) block_start_unseen [OF assms(4,3), where s = "fst (snd p)" and ids = ids]
  by (simp_all add: both_event to_responses_events_def case_prod_beta follows_unseen)

lemma both_start_tool:
  assumes "seen p t r cs" and "ae_type e = ''content_block_start''" and "ae_block e = Some b"
    and "ab_type b = ''tool_use''"
  shows "seen (both ids [e] p) t r (cs @ [\<lparr>tc_index = None, tc_id = ab_id b, tc_type = ''function'', tc_name = ab_name b,
      tc_arguments = []\<rparr>])"
    "same_base (fst (snd p)) (fst (snd (both ids [e] p)))"
    "xc_map (snd (snd (both ids [e] p))) (xr_output_index (fst (snd (both ids [e] p)))) = Some (int (length cs))"
proof -
  obtain ks a c where p: "p = (ks, a, c)"
    by (cases p)
  define s1 where "s1 = (fresh_item ids ''function_call'' (snd (close_item a)))\<lparr>xr_call_id := ab_id b, xr_name := ab_name b\<rparr>"
  define it where "it = (output_item ''function_call'')\<lparr>ro_id := xr_item_id s1, ro_call_id := ab_id b,
    ro_name := ab_name b, ro_status := ''in_progress''\<rparr>"
  define ev where "ev = (added_event s1 it)\<lparr>re_seq := xr_seq s1\<rparr>"
  have run: "to_responses_events ids e a = (fst (close_item a) @ [ev], s1\<lparr>xr_seq := xr_seq s1 + 1\<rparr>)"
    using assms(2-4) by (simp add: to_responses_events_def handle_block_start_def Let_def case_prod_beta s1_def it_def
        ev_def with_prefix_def make_event_def to_responses_call_id_def)
  have ev: "re_type ev = ''response.output_item.added''" "re_item ev = Some it" "tool_item it"
    "re_output_index ev = xr_output_index s1" "ro_call_id it = ab_id b" "ro_name it = ab_name b"
    by (simp_all add: ev_def added_event_def it_def tool_item_def output_item_def responses_event_def)
  have "same_base a s1"
    using same_base_close [of a] by (simp add: s1_def fresh_item_def same_base_def)
  moreover have "both ids [e] p = (case then_chat (ks, c) [ev] of (ls, c') \<Rightarrow> (ls, s1\<lparr>xr_seq := xr_seq s1 + 1\<rparr>, c'))"
    by (simp add: p both_event run follows_unseen [OF unseen_close])
  ultimately show "seen (both ids [e] p) t r (cs @ [\<lparr>tc_index = None, tc_id = ab_id b, tc_type = ''function'',
      tc_name = ab_name b, tc_arguments = []\<rparr>])"
    "same_base (fst (snd p)) (fst (snd (both ids [e] p)))"
    "xc_map (snd (snd (both ids [e] p))) (xr_output_index (fst (snd (both ids [e] p)))) = Some (int (length cs))"
    using follows_added [of "(ks, c)" t r cs ev it] assms(1) ev by (simp_all add: p case_prod_beta)
qed

lemma start_of_simps [simp]:
  "ab_type (start_of input b) = ab_type b" "ab_id (start_of input b) = ab_id b" "ab_name (start_of input b) = ab_name b"
  by (simp_all add: start_of_def anthropic_block_def)

lemma both_block:
  assumes "seen p t r cs" and frag: "fragmented (b, fs)"
  shows "seen (both ids (block_stream input i (b, fs)) p) (t @ block_text b) (r @ block_thinking b) (cs @ block_calls b)"
    "same_base (fst (snd p)) (fst (snd (both ids (block_stream input i (b, fs)) p)))"
proof -
  define st where "st = (anthropic_event ''content_block_start'')\<lparr>ae_index := Some i, ae_block := Some (start_of input b)\<rparr>"
  define sp where "sp = (anthropic_event ''content_block_stop'')\<lparr>ae_index := Some i\<rparr>"
  define p1 where "p1 = both ids [st] p"
  define p2 where "p2 = both ids (map (delta_of b i) fs) p1"
  have st: "ae_type st = ''content_block_start''" "ae_block st = Some (start_of input b)"
    by (simp_all add: st_def anthropic_event_def)
  have sp: "ae_type sp = ''content_block_stop''"
    by (simp add: sp_def anthropic_event_def)
  have p: "both ids (block_stream input i (b, fs)) p = both ids [sp] p2"
  proof -
    have "block_stream input i (b, fs) = [st] @ map (delta_of b i) fs @ [sp]"
      by (simp add: block_stream_def st_def sp_def)
    then show ?thesis
      by (simp only: both_append p1_def p2_def)
  qed
  from frag consider "ab_type b = ''text''" | "ab_type b = ''thinking''" | "ab_type b = ''tool_use''"
    by (auto simp: fragmented_def)
  then have "seen p2 (t @ block_text b) (r @ block_thinking b) (cs @ block_calls b) \<and> same_base (fst (snd p)) (fst (snd p2))"
  proof cases
    case 1
    then have q: "seen p1 t r cs" "same_base (fst (snd p)) (fst (snd p1))"
      using both_start_quiet [OF assms(1) st] by (simp_all add: p1_def)
    from both_deltas_text [OF q(1) 1, of ids i fs] frag 1 same_base_trans [OF q(2)] show ?thesis
      by (simp add: p2_def block_text_def block_thinking_def block_calls_def fragmented_def payload_def)
  next
    case 2
    then have q: "seen p1 t r cs" "same_base (fst (snd p)) (fst (snd p1))"
      using both_start_quiet [OF assms(1) st] by (simp_all add: p1_def)
    from both_deltas_thinking [OF q(1) 2, of ids i fs] frag 2 same_base_trans [OF q(2)] show ?thesis
      by (simp add: p2_def block_text_def block_thinking_def block_calls_def fragmented_def payload_def)
  next
    case 3
    note q = both_start_tool [OF assms(1) st, of ids, simplified, OF 3, folded p1_def]
    from both_deltas_tool [OF q(1) 3 q(3), of ids i fs] frag 3 same_base_trans [OF q(2)] show ?thesis
      by (simp add: p2_def block_text_def block_thinking_def block_calls_def fragmented_def payload_def)
  qed
  with both_stop [OF _ sp, of p2] same_base_trans
  show "seen (both ids (block_stream input i (b, fs)) p) (t @ block_text b) (r @ block_thinking b) (cs @ block_calls b)"
    "same_base (fst (snd p)) (fst (snd (both ids (block_stream input i (b, fs)) p)))"
    unfolding p by blast+
qed

lemma both_blocks:
  assumes "seen p t r cs" and "\<forall>bf\<in>set bfs. fragmented bf"
  shows "seen (both ids (blocks_stream input i bfs) p) (t @ concat (map (block_text \<circ> fst) bfs))
      (r @ concat (map (block_thinking \<circ> fst) bfs)) (cs @ concat (map (block_calls \<circ> fst) bfs))"
    "same_base (fst (snd p)) (fst (snd (both ids (blocks_stream input i bfs) p)))"
proof -
  have "seen (both ids (blocks_stream input i bfs) p) (t @ concat (map (block_text \<circ> fst) bfs))
      (r @ concat (map (block_thinking \<circ> fst) bfs)) (cs @ concat (map (block_calls \<circ> fst) bfs)) \<and>
    same_base (fst (snd p)) (fst (snd (both ids (blocks_stream input i bfs) p)))"
    using assms
  proof (induction bfs arbitrary: i p t r cs)
    case Nil
    then show ?case
      by (simp add: both_def)
  next
    case (Cons bf bfs)
    obtain b fs where bf: "bf = (b, fs)"
      by (cases bf)
    note step = both_block [OF Cons.prems(1), of b fs ids input i]
    from Cons.prems(2) have "fragmented (b, fs)"
      by (simp add: bf)
    with Cons.IH [of _ _ _ _ "i + 1", OF step(1)] Cons.prems(2) same_base_trans [OF step(2)] show ?case
      by (simp add: bf both_append)
  qed
  then show "seen (both ids (blocks_stream input i bfs) p) (t @ concat (map (block_text \<circ> fst) bfs))
      (r @ concat (map (block_thinking \<circ> fst) bfs)) (cs @ concat (map (block_calls \<circ> fst) bfs))"
    "same_base (fst (snd p)) (fst (snd (both ids (blocks_stream input i bfs) p)))"
    by auto
qed

subsection \<open>The assembled message\<close>

lemma buffer_all_append: "buffer_all (es @ fs) b = Option.bind (buffer_all es b) (buffer_all fs)"
proof (induction es arbitrary: b)
  case (Cons e es)
  then show ?case
    by (cases "buffer_event e b") simp_all
qed simp

definition grown_block :: "anthropic_block \<Rightarrow> string \<Rightarrow> anthropic_block \<Rightarrow> anthropic_block" where
  "grown_block b f k = (if ab_type b = ''text'' then k\<lparr>ab_text := ab_text k @ f\<rparr>
     else if ab_type b = ''thinking'' then k\<lparr>ab_thinking := ab_thinking k @ f\<rparr>
     else k\<lparr>ab_input := ab_input k @ f\<rparr>)"

lemma buffer_deltas:
  assumes "bs_message st = Some m" and "am_content m = ks @ [k]"
  shows "buffer_all (map (delta_of b (int (length ks))) fs) st =
    Some (st\<lparr>bs_message := Some (m\<lparr>am_content := ks @ [grown_block b (concat fs) k]\<rparr>)\<rparr>)"
  using assms
proof (induction fs arbitrary: st m k)
  case Nil
  then show ?case
    by (auto simp: grown_block_def)
next
  case (Cons f fs)
  have "buffer_event (delta_of b (int (length ks)) f) st =
    Some (st\<lparr>bs_message := Some (m\<lparr>am_content := ks @ [grown_block b f k]\<rparr>)\<rparr>)"
    using Cons.prems by (simp add: buffer_event_def delta_of_def anthropic_event_def extend_content_def extend_block_def
        anthropic_delta_def append_raw_json_def grown_block_def)
  with Cons.IH show ?case
    by (simp add: grown_block_def)
qed

lemma buffer_block:
  assumes "bs_message st = Some m" and "fragmented (b, fs)"
  shows "buffer_all (block_stream input (int (length (am_content m))) (b, fs)) st =
    Some (st\<lparr>bs_message := Some (m\<lparr>am_content := am_content m @ [grown_block b (payload b) (start_of input b)]\<rparr>)\<rparr>)"
proof -
  have stop: "buffer_event ((anthropic_event ''content_block_stop'')\<lparr>ae_index := Some i\<rparr>) st' = Some st'" for i st'
    by (simp add: buffer_event_def anthropic_event_def)
  have start: "buffer_event ((anthropic_event ''content_block_start'')\<lparr>ae_index := Some i, ae_block := Some k\<rparr>) st =
      Some (st\<lparr>bs_message := Some (m\<lparr>am_content := am_content m @ [k]\<rparr>)\<rparr>)" for i k
    using assms(1) by (simp add: buffer_event_def anthropic_event_def)
  from assms(2) show ?thesis
    by (simp add: block_stream_def buffer_all_append start stop fragmented_def
        buffer_deltas [of _ "m\<lparr>am_content := am_content m @ [k]\<rparr>" "am_content m" k for k])
qed

lemma buffer_blocks:
  assumes "bs_message st = Some m" and "\<forall>bf\<in>set bfs. fragmented bf"
  shows "buffer_all (blocks_stream input (int (length (am_content m))) bfs) st =
    Some (st\<lparr>bs_message := Some (m\<lparr>am_content := am_content m @
      map (\<lambda>bf. grown_block (fst bf) (payload (fst bf)) (start_of input (fst bf))) bfs\<rparr>)\<rparr>)"
  using assms
proof (induction bfs arbitrary: st m)
  case (Cons bf bfs)
  obtain b fs where bf: "bf = (b, fs)"
    by (cases bf)
  let ?m = "m\<lparr>am_content := am_content m @ [grown_block b (payload b) (start_of input b)]\<rparr>"
  from buffer_block [OF Cons.prems(1), of b fs input] Cons.IH [of "st\<lparr>bs_message := Some ?m\<rparr>" ?m] Cons.prems(2)
  show ?case
    by (simp add: bf buffer_all_append ac_simps)
qed simp

subsection \<open>The whole conversion\<close>

lemma parts_append:
  "response_text (xs @ ys) = response_text xs @ response_text ys"
  "response_reasoning (xs @ ys) = response_reasoning xs @ response_reasoning ys"
  "response_calls (xs @ ys) = response_calls xs @ response_calls ys"
  by (simp_all add: response_text_def response_reasoning_def response_calls_def)

lemma parts_message_item:
  "response_text [message_item i ps] = concat (map (\<lambda>p. if cp_type p = ''output_text'' then cp_text p else []) ps)"
  "response_reasoning [message_item i ps] = []" "response_calls [message_item i ps] = []"
  by (simp_all add: response_text_def response_reasoning_def response_calls_def message_item_def output_item_def)

lemma text_parts_text:
  "concat (map (\<lambda>p. if cp_type p = ''output_text'' then cp_text p else []) (text_parts bs)) = concat (map block_text bs)"
  by (induction bs) (auto simp: text_parts_def text_part_def block_text_def)

lemma parts_block_items:
  "response_text (fst (block_items ids n bs)) = []"
  "response_reasoning (fst (block_items ids n bs)) = concat (map block_thinking bs)"
  "\<forall>b\<in>set bs. ab_type b = ''tool_use'' \<longrightarrow> ab_input b \<noteq> [] \<Longrightarrow>
     response_calls (fst (block_items ids n bs)) = concat (map block_calls bs)"
proof -
  show "response_text (fst (block_items ids n bs)) = []"
    by (induction bs arbitrary: n) (auto simp: case_prod_beta response_text_def output_item_def)
  show "response_reasoning (fst (block_items ids n bs)) = concat (map block_thinking bs)"
    by (induction bs arbitrary: n)
      (auto simp: case_prod_beta response_reasoning_def output_item_def summary_part_def block_thinking_def)
  show "\<forall>b\<in>set bs. ab_type b = ''tool_use'' \<longrightarrow> ab_input b \<noteq> [] \<Longrightarrow>
     response_calls (fst (block_items ids n bs)) = concat (map block_calls bs)"
    by (induction bs arbitrary: n)
      (auto simp: case_prod_beta response_calls_def output_item_def block_calls_def empty_as_def to_responses_call_id_def)
qed

lemma whole_parts:
  assumes "\<forall>b\<in>set (am_content m). ab_type b = ''tool_use'' \<longrightarrow> ab_input b \<noteq> []"
  shows "response_text (rr_output (anthropic_to_responses ids fresh m)) = concat (map block_text (am_content m))"
    "response_reasoning (rr_output (anthropic_to_responses ids fresh m)) = concat (map block_thinking (am_content m))"
    "response_calls (rr_output (anthropic_to_responses ids fresh m)) = concat (map block_calls (am_content m))"
proof -
  define items where "items = fst (block_items ids 0 (am_content m))"
  define parts where "parts = text_parts (am_content m)"
  have nil: "response_text [] = []" "response_reasoning [] = []" "response_calls [] = []"
    by (simp_all add: response_text_def response_reasoning_def response_calls_def)
  have p: "response_text items = []" "response_reasoning items = concat (map block_thinking (am_content m))"
    "response_calls items = concat (map block_calls (am_content m))"
    using parts_block_items(3) [OF assms] by (simp_all add: items_def parts_block_items)
  have t: "concat (map (\<lambda>p. if cp_type p = ''output_text'' then cp_text p else []) parts) = concat (map block_text (am_content m))"
    by (simp add: parts_def text_parts_text)
  define i where "i = ids (snd (block_items ids 0 (am_content m)))"
  have out: "rr_output (anthropic_to_responses ids fresh m) =
      (if items = [] \<and> parts = [] then [message_item i [text_part []]]
       else items @ (if parts = [] then [] else [message_item i parts]))"
    by (auto simp: anthropic_to_responses_def Let_def case_prod_beta items_def parts_def i_def)
  show "response_text (rr_output (anthropic_to_responses ids fresh m)) = concat (map block_text (am_content m))"
    "response_reasoning (rr_output (anthropic_to_responses ids fresh m)) = concat (map block_thinking (am_content m))"
    "response_calls (rr_output (anthropic_to_responses ids fresh m)) = concat (map block_calls (am_content m))"
    using p t by (auto simp: out parts_append parts_message_item text_part_def nil)
qed

lemma whole_status:
  assumes "am_stop_reason m \<noteq> ''max_tokens''"
  shows "rr_status (anthropic_to_responses ids fresh m) = ''completed''"
    "rr_incomplete (anthropic_to_responses ids fresh m) = None"
    "rr_usage (anthropic_to_responses ids fresh m) = Some (responses_usage_of (au_input (am_usage m))
       (au_cache_read (am_usage m)) (au_cache_creation (am_usage m)) (au_output (am_usage m)))"
  using assms by (simp_all add: anthropic_to_responses_def status_of_stop_reason_def Let_def case_prod_beta)

lemma grown_start:
  assumes "fragmented bf"
  shows "block_text (grown_block (fst bf) (payload (fst bf)) (start_of [] (fst bf))) = block_text (fst bf)"
    "block_thinking (grown_block (fst bf) (payload (fst bf)) (start_of [] (fst bf))) = block_thinking (fst bf)"
    "block_calls (grown_block (fst bf) (payload (fst bf)) (start_of [] (fst bf))) = block_calls (fst bf)"
    "ab_type (grown_block (fst bf) (payload (fst bf)) (start_of [] (fst bf))) = ''tool_use'' \<Longrightarrow>
      ab_input (grown_block (fst bf) (payload (fst bf)) (start_of [] (fst bf))) \<noteq> []"
  using assms
  by (auto simp: grown_block_def fragmented_def block_text_def block_thinking_def block_calls_def payload_def start_of_def
      anthropic_block_def)

text \<open>The message the handler assembles from a stream whose tool calls start without an input.\<close>

lemma buffered_message_stream:
  assumes "am_content m = []" and "\<forall>bf\<in>set bfs. fragmented bf" and "stop \<noteq> []"
  shows "buffered_message (message_stream input m bfs stop u) =
    Some (with_usage (merge_usage (merge_usage (bs_usage new_buffered) (am_usage m)) u)
      (m\<lparr>am_content := map (\<lambda>bf. grown_block (fst bf) (payload (fst bf)) (start_of input (fst bf))) bfs,
         am_stop_reason := stop\<rparr>))"
proof -
  let ?b = "buffer_start m new_buffered"
  have first: "buffer_event ((anthropic_event ''message_start'')\<lparr>ae_message := Some m\<rparr>) new_buffered = Some ?b"
    by (simp add: buffer_event_def anthropic_event_def)
  from buffer_blocks [of ?b m bfs input] assms(1,2)
  have blocks: "buffer_all (blocks_stream input 0 bfs) ?b = Some (?b\<lparr>bs_message := Some (m\<lparr>am_content :=
      map (\<lambda>bf. grown_block (fst bf) (payload (fst bf)) (start_of input (fst bf))) bfs\<rparr>)\<rparr>)"
    by (simp add: buffer_start_def)
  show ?thesis
    using assms(3)
    by (simp add: buffered_message_def message_stream_def first buffer_all_append blocks)
      (simp add: buffer_event_def anthropic_event_def buffer_message_delta_def anthropic_delta_def buffer_start_def Let_def)
qed

text \<open>The first and the last events of the stream.\<close>

lemma both_message_start:
  "both ids [(anthropic_event ''message_start'')\<lparr>ae_message := Some m\<rparr>] ([], new_to_resp md t, new_to_chat i t' md' u) = p \<Longrightarrow>
    seen p [] [] [] \<and> xr_created_sent (fst (snd p)) \<and> \<not> xr_completed_sent (fst (snd p)) \<and>
    xr_input (fst (snd p)) = keep_positive (au_input (am_usage m)) 0 \<and> xr_output (fst (snd p)) = 0 \<and>
    xr_cache_read (fst (snd p)) = keep_positive (au_cache_read (am_usage m)) 0 \<and>
    xr_cache_creation (fst (snd p)) = keep_positive (au_cache_creation (am_usage m)) 0 \<and>
    xc_include_usage (snd (snd p)) = u"
  by (auto simp: both_event to_responses_events_def anthropic_event_def handle_message_start_def Let_def make_event_def
      then_chat_def to_chat_chunks_def responses_event_def chat_created_def new_to_resp_def new_to_chat_def
      note_start_usage_def follows_def client_calls_def)

lemma both_include_usage: "xc_include_usage (snd (snd (both ids es p))) = xc_include_usage (snd (snd p))"
  by (cases p) (simp add: both_def chain_emit case_prod_beta keeps_include_usage)

lemma completed_view:
  assumes "follows ks c t r cs" and "xc_include_usage c" and "re_response e = Some rr" and "rr_status rr = ''completed''"
    and "rr_usage rr = Some v"
  shows "client_text (ks @ fst (chat_completed e c)) = t" "client_reasoning (ks @ fst (chat_completed e c)) = r"
    "client_calls (ks @ fst (chat_completed e c)) = cs"
    "client_finishes (ks @ fst (chat_completed e c)) = [finish_reason_of ''completed'' None cs]"
    "map Some (client_usages (ks @ fst (chat_completed e c))) = [chat_usage_of (Some v)]"
  using assms
  by (simp_all add: follows_def chat_completed_def Let_def client_cons [of _ "usage_chunks _"] stream_finish_reason_def
      finish_reason_of_def or_else_def chat_usage_of_def)

lemma both_end:
  fixes v :: anthropic_usage
  assumes seen: "seen p t r cs" and a: "xr_created_sent (fst (snd p))" "\<not> xr_completed_sent (fst (snd p))"
    and u: "xc_include_usage (snd (snd p))"
  defines "a1 \<equiv> note_start_usage v ((fst (snd p))\<lparr>xr_output := au_output v\<rparr>)"
  shows "\<exists>q. both ids [(anthropic_event ''message_delta'')\<lparr>ae_usage := Some v, ae_delta := Some d\<rparr>, anthropic_event ''message_stop''] p = q \<and>
    client_text (fst q) = t \<and> client_reasoning (fst q) = r \<and> client_calls (fst q) = cs \<and>
    client_finishes (fst q) = [finish_reason_of ''completed'' None cs] \<and>
    map Some (client_usages (fst q)) = [chat_usage_of (Some (responses_usage_of (xr_input a1) (xr_cache_read a1)
      (xr_cache_creation a1) (xr_output a1)))] \<and> chain_finalize (snd q) = []"
proof -
  obtain ks a c where p: "p = (ks, a, c)"
    by (cases p)
  have first: "both ids [(anthropic_event ''message_delta'')\<lparr>ae_usage := Some v, ae_delta := Some d\<rparr>] p = (ks, a1, c)"
    by (simp add: p both_event to_responses_events_def anthropic_event_def handle_message_delta_def a1_def)
  define s2 where "s2 = snd (close_item a1)"
  have a1: "xr_created_sent a1" "\<not> xr_completed_sent a1"
    using a by (simp_all add: a1_def p note_start_usage_def)
  then have s2: "xr_created_sent s2" "xr_input s2 = xr_input a1" "xr_cache_read s2 = xr_cache_read a1"
    "xr_cache_creation s2 = xr_cache_creation a1" "xr_output s2 = xr_output a1"
    using same_base_close [of a1] by (simp_all add: s2_def same_base_def)
  define ev where "ev = fst (completed_event s2)"
  have stop: "to_responses_events ids (anthropic_event ''message_stop'') a1 =
      (fst (close_item a1) @ ev, (snd (completed_event s2))\<lparr>xr_completed_sent := True\<rparr>)"
    using a1 by (simp add: to_responses_events_def anthropic_event_def handle_message_stop_def complete_stream_def
        case_prod_beta s2_def ev_def)
  define e where "e = hd ev"
  have e: "ev = [e]" "re_type e = ''response.completed''"
    by (simp_all add: e_def ev_def completed_event_def make_event_def responses_event_def)
  obtain rr where rr: "re_response e = Some rr" "rr_status rr = ''completed''" "rr_incomplete rr = None"
    "rr_usage rr = Some (responses_usage_of (xr_input s2) (xr_cache_read s2) (xr_cache_creation s2) (xr_output s2))"
    by (simp add: e_def ev_def completed_event_def make_event_def responses_event_def)
  have chat: "to_chat_chunks e c = chat_completed e c"
    using e(2) by (simp add: to_chat_chunks_def text_delta_event_def args_delta_event_def reasoning_delta_event_def terminal_event_def)
  define q where "q = (ks @ fst (chat_completed e c), (snd (completed_event s2))\<lparr>xr_completed_sent := True\<rparr>, snd (chat_completed e c))"
  have "both ids [anthropic_event ''message_stop''] (ks, a1, c) = q"
    by (simp add: both_event stop e follows_unseen [OF unseen_close] case_prod_beta then_chat_cons chat q_def)
  then have q: "both ids [(anthropic_event ''message_delta'')\<lparr>ae_usage := Some v, ae_delta := Some d\<rparr>, anthropic_event ''message_stop''] p = q"
    using both_append [of ids "[(anthropic_event ''message_delta'')\<lparr>ae_usage := Some v, ae_delta := Some d\<rparr>]"
        "[anthropic_event ''message_stop'']" p] by (simp add: first)
  have view: "follows ks c t r cs" "xc_include_usage c"
    using seen u by (simp_all add: p)
  have "chain_finalize (snd q) = []"
    by (simp add: q_def chain_finalize_def finalize_responses_def chat_completed_def finalize_chat_def Let_def)
  moreover have "client_text (fst q) = t" "client_reasoning (fst q) = r" "client_calls (fst q) = cs"
    "client_finishes (fst q) = [finish_reason_of ''completed'' None cs]"
    "map Some (client_usages (fst q)) = [chat_usage_of (Some (responses_usage_of (xr_input a1) (xr_cache_read a1)
      (xr_cache_creation a1) (xr_output a1)))]"
    using completed_view [OF view rr(1,2,4)] by (simp_all only: q_def fst_conv s2)
  ultimately show ?thesis
    by (intro exI [of _ q] conjI q)
qed


text \<open>A weather question: some thought, a text and a tool call in fragments.\<close>

definition weather_message :: anthropic_message where
  "weather_message = \<lparr>am_id = ''msg_1'', am_type = ''message'', am_role = ''assistant'', am_content = [], am_model = ''claude'',
     am_stop_reason = [], am_stop_sequence = None,
     am_usage = \<lparr>au_input = 9, au_output = 1, au_cache_creation = 0, au_cache_read = 4\<rparr>\<rparr>"

definition weather_blocks :: "(anthropic_block \<times> string list) list" where
  "weather_blocks =
    [((anthropic_block ''thinking'')\<lparr>ab_thinking := ''hm''\<rparr>, [''h'', ''m'']),
     ((anthropic_block ''text'')\<lparr>ab_text := ''Let me see''\<rparr>, [''Let '', ''me see'']),
     ((anthropic_block ''tool_use'')\<lparr>ab_id := ''toolu_1'', ab_name := ''weather'', ab_input := ''[1]''\<rparr>, [''['', ''1]''])]"

definition weather_usage :: anthropic_usage where
  "weather_usage = \<lparr>au_input = 0, au_output = 7, au_cache_creation = 0, au_cache_read = 0\<rparr>"


text \<open>
  The API starts the input of a tool call with a pair of braces: the buffered answer keeps it in front
  of the arguments, which are no longer JSON; and a call without arguments streams an empty text.
\<close>

definition braced_call :: "string list \<Rightarrow> (anthropic_block \<times> string list) list" where
  "braced_call fs = [((anthropic_block ''tool_use'')\<lparr>ab_id := ''toolu_1'', ab_name := ''weather'', ab_input := concat fs\<rparr>, fs)]"

definition buffered_arguments :: "string list \<Rightarrow> string list option" where
  "buffered_arguments fs = map_option (\<lambda>w. map tc_arguments (ch_tool_calls (choice_message
     (whole_chat (\<lambda>n. ''item'') ''r'' ''c'' 0 ''m'' w))))
     (buffered_message (message_stream ''{}'' weather_message (braced_call fs) ''tool_use'' weather_usage))"

definition streamed_arguments :: "string list \<Rightarrow> string list" where
  "streamed_arguments fs = map tc_arguments (client_calls (chat_stream (\<lambda>n. ''item'')
     (message_stream ''{}'' weather_message (braced_call fs) ''tool_use'' weather_usage)
     (new_to_resp [] 0, new_to_chat ''c'' 0 ''m'' True)))"

lemma buffered_arguments_garbled:
  "buffered_arguments [''{1:2}''] = Some [''{}{1:2}'']" "streamed_arguments [''{1:2}''] = [''{1:2}'']"
  "buffered_arguments [] = Some [''{}'']" "streamed_arguments [] = [[]]"
  by code_simp+

text \<open>And \<open>max_tokens\<close>: the chat client that streams is told the answer ended by itself.\<close>

lemma max_tokens_streams_as_stop:
  "map_option (\<lambda>w. choice_finish (whole_chat (\<lambda>n. ''item'') ''r'' ''c'' 0 ''m'' w))
     (buffered_message (message_stream [] weather_message [] ''max_tokens'' weather_usage)) = Some ''length''"
  "client_finishes (chat_stream (\<lambda>n. ''item'') (message_stream [] weather_message [] ''max_tokens'' weather_usage)
     (new_to_resp [] 0, new_to_chat ''c'' 0 ''m'' True)) = [''stop'']"
  by code_simp+

end
