(* ===== verification/ModelNames.thy ===== *)
theory ModelNames
  imports GoBase
begin

section \<open>Model names\<close>

text \<open>
  The functions of Go's \<open>strings\<close> the model names go through, the spellings of OpenAI models
  (\<open>service/openai_model_alias.go\<close>, \<open>service/openai_codex_transform.go\<close>) and the names under which
  \<open>service/pricing_service.go\<close> looks a model up.
\<close>

subsection \<open>Strings\<close>

fun contains :: "string \<Rightarrow> string \<Rightarrow> bool" where
  "contains [] p = (p = [])"
| "contains (c # s) p = (has_prefix (c # s) p \<or> contains s p)"

definition contains_any :: "string \<Rightarrow> string list \<Rightarrow> bool" where
  "contains_any s ps = list_ex (contains s) ps"

definition has_suffix :: "string \<Rightarrow> string \<Rightarrow> bool" where
  "has_suffix s p = has_prefix (rev s) (rev p)"

definition trim_suffix :: "string \<Rightarrow> string \<Rightarrow> string" where
  "trim_suffix s p = (if has_suffix s p then take (length s - length p) s else s)"

function replace_all :: "string \<Rightarrow> string \<Rightarrow> string \<Rightarrow> string" where
  "replace_all [] p q = []"
| "replace_all (c # s) p q =
     (if p \<noteq> [] \<and> has_prefix (c # s) p then q @ replace_all (drop (length p) (c # s)) p q else c # replace_all s p q)"
  by pat_completeness auto
termination
  by (relation "measure (\<lambda>(s, p, q). length s)") auto

text \<open>\<open>strings.Fields\<close>, and the same with the words joined by a hyphen.\<close>

function fields_from :: "string \<Rightarrow> string \<Rightarrow> string list" where
  "fields_from w s = (let out = (if w = [] then [] else [rev w]) in
     case strip_one ws_seqs s of
       Some r \<Rightarrow> out @ fields_from [] r
     | None \<Rightarrow> (case s of [] \<Rightarrow> out | c # r \<Rightarrow> fields_from (c # w) r))"
  by pat_completeness auto
termination
  by (relation "measure (\<lambda>(w, s). length s)") (auto dest: strip_one_shorter)

declare fields_from.simps [simp del]

definition fields :: "string \<Rightarrow> string list" where
  "fields s = fields_from [] s"

fun join_with :: "string \<Rightarrow> string list \<Rightarrow> string" where
  "join_with d [] = []"
| "join_with d [w] = w"
| "join_with d (w # ws) = w @ d @ join_with d ws"

text \<open>What follows the last occurrence, if there is one.\<close>

fun after_last :: "string \<Rightarrow> string \<Rightarrow> string option" where
  "after_last p [] = (if p = [] then Some [] else None)"
| "after_last p (c # s) = (case after_last p s of
     Some r \<Rightarrow> Some r
   | None \<Rightarrow> if has_prefix (c # s) p then Some (drop (length p) (c # s)) else None)"

definition last_segment :: "string \<Rightarrow> string" where
  "last_segment m = (case after_last ''/'' m of None \<Rightarrow> m | Some r \<Rightarrow> r)"

subsection \<open>OpenAI spellings\<close>

definition last_openai_segment :: "string \<Rightarrow> string" where
  "last_openai_segment m = trim_space (last_segment (trim_space m))"

text \<open>The loop that removes double hyphens: each hyphen that follows one goes.\<close>

fun single_hyphens :: "string \<Rightarrow> string" where
  "single_hyphens (a # b # s) = (if a = CHR ''-'' \<and> b = CHR ''-'' then single_hyphens (b # s) else a # single_hyphens (b # s))"
| "single_hyphens s = s"

definition alias_replacements :: "(string \<times> string) list" where
  "alias_replacements =
     [(''gpt-5.4mini'', ''gpt-5.4-mini''), (''gpt-5.4nano'', ''gpt-5.4-nano''),
      (''gpt-5.3-codexspark'', ''gpt-5.3-codex-spark''), (''gpt-5.3codexspark'', ''gpt-5.3-codex-spark''),
      (''gpt-5.3codex'', ''gpt-5.3-codex'')]"

fun replace_each :: "(string \<times> string) list \<Rightarrow> string \<Rightarrow> string" where
  "replace_each [] s = s"
| "replace_each ((p, q) # rs) s = replace_each rs (replace_all s p q)"

definition hyphenated :: "string \<Rightarrow> string" where
  "hyphenated s = single_hyphens (join_with ''-'' (fields (replace_all s ''_'' ''-'')))"

definition gpt5_prefix :: "string \<Rightarrow> string" where
  "gpt5_prefix s = (if has_prefix s ''gpt5'' then ''gpt-5'' @ trim_prefix s ''gpt5'' else s)"

definition canonical_spelling :: "string \<Rightarrow> string" where
  "canonical_spelling m = (case to_lower (last_openai_segment m) of
     [] \<Rightarrow> []
   | c # s \<Rightarrow> let n = gpt5_prefix (hyphenated (c # s)) in
       if \<not> has_prefix n ''gpt-'' \<and> \<not> contains n ''codex'' then [] else replace_each alias_replacements n)"

definition codex_model_map :: "(string \<times> string) list" where
  "codex_model_map =
     [(''gpt-5.5'', ''gpt-5.5''), (''codex-auto-review'', ''codex-auto-review''), (''gpt-5.4'', ''gpt-5.4''),
      (''gpt-5.4-mini'', ''gpt-5.4-mini''), (''gpt-5.4-none'', ''gpt-5.4''), (''gpt-5.4-low'', ''gpt-5.4''),
      (''gpt-5.4-medium'', ''gpt-5.4''), (''gpt-5.4-high'', ''gpt-5.4''), (''gpt-5.4-xhigh'', ''gpt-5.4''),
      (''gpt-5.4-chat-latest'', ''gpt-5.4''), (''gpt-5.3'', ''gpt-5.3-codex''), (''gpt-5.3-none'', ''gpt-5.3-codex''),
      (''gpt-5.3-low'', ''gpt-5.3-codex''), (''gpt-5.3-medium'', ''gpt-5.3-codex''), (''gpt-5.3-high'', ''gpt-5.3-codex''),
      (''gpt-5.3-xhigh'', ''gpt-5.3-codex''), (''gpt-5.3-codex'', ''gpt-5.3-codex''),
      (''gpt-5.3-codex-spark'', ''gpt-5.3-codex-spark''), (''gpt-5.3-codex-spark-low'', ''gpt-5.3-codex-spark''),
      (''gpt-5.3-codex-spark-medium'', ''gpt-5.3-codex-spark''), (''gpt-5.3-codex-spark-high'', ''gpt-5.3-codex-spark''),
      (''gpt-5.3-codex-spark-xhigh'', ''gpt-5.3-codex-spark''), (''gpt-5.3-codex-low'', ''gpt-5.3-codex''),
      (''gpt-5.3-codex-medium'', ''gpt-5.3-codex''), (''gpt-5.3-codex-high'', ''gpt-5.3-codex''),
      (''gpt-5.3-codex-xhigh'', ''gpt-5.3-codex''), (''gpt-5.2'', ''gpt-5.2''), (''gpt-5.2-none'', ''gpt-5.2''),
      (''gpt-5.2-low'', ''gpt-5.2''), (''gpt-5.2-medium'', ''gpt-5.2''), (''gpt-5.2-high'', ''gpt-5.2''),
      (''gpt-5.2-xhigh'', ''gpt-5.2''), (''gpt-5'', ''gpt-5.4''), (''gpt-5-mini'', ''gpt-5.4''), (''gpt-5-nano'', ''gpt-5.4''),
      (''gpt-5.1'', ''gpt-5.4''), (''gpt-5.1-codex'', ''gpt-5.3-codex''), (''gpt-5.1-codex-max'', ''gpt-5.3-codex''),
      (''gpt-5.1-codex-mini'', ''gpt-5.3-codex''), (''gpt-5.2-codex'', ''gpt-5.2''), (''codex-mini-latest'', ''gpt-5.3-codex''),
      (''gpt-5-codex'', ''gpt-5.3-codex'')]"

definition codex_lookup_key :: "string \<Rightarrow> string" where
  "codex_lookup_key m = (let m = trim_space m in
     if m = [] then [] else to_lower (join_with ''-'' (fields (last_segment m))))"

definition normalized_codex_model :: "string \<Rightarrow> string" where
  "normalized_codex_model m = (case codex_lookup_key m of
     [] \<Rightarrow> []
   | c # s \<Rightarrow> (case map_of codex_model_map (c # s) of None \<Rightarrow> [] | Some t \<Rightarrow> t))"

text \<open>The known families, by a part of the name; the first that matches wins.\<close>

definition codex_families :: "(string \<times> string) list" where
  "codex_families =
     [(''gpt-5.5'', ''gpt-5.5''), (''gpt-5.4-mini'', ''gpt-5.4-mini''), (''gpt-5.4-nano'', ''gpt-5.4-nano''),
      (''gpt-5.4'', ''gpt-5.4''), (''gpt-5.2'', ''gpt-5.2''), (''gpt-5.3-codex-spark'', ''gpt-5.3-codex-spark''),
      (''gpt-5.3-codex'', ''gpt-5.3-codex''), (''gpt-5.3'', ''gpt-5.3-codex''), (''codex'', ''gpt-5.3-codex''),
      (''gpt-5'', ''gpt-5.4'')]"

fun first_family :: "(string \<times> string) list \<Rightarrow> string \<Rightarrow> string" where
  "first_family [] n = []"
| "first_family ((p, t) # fs) n = (if contains n p then t else first_family fs n)"

definition known_codex_model :: "string \<Rightarrow> string" where
  "known_codex_model m = (case canonical_spelling m of
     [] \<Rightarrow> []
   | c # s \<Rightarrow> let n = c # s; direct = normalized_codex_model n;
         compact = (if has_suffix n ''-openai-compact'' then normalized_codex_model (trim_suffix n ''-openai-compact'') else []) in
       if direct \<noteq> [] then direct else if compact \<noteq> [] then compact else first_family codex_families n)"

lemma known_codex_examples:
  "known_codex_model ''openai/GPT5.4 mini'' = ''gpt-5.4-mini''" "known_codex_model ''gpt-5-foo'' = ''gpt-5.4''"
  "known_codex_model ''gpt_5.3__codexspark'' = ''gpt-5.3-codex-spark''" "known_codex_model ''gpt-4o'' = []"
  "known_codex_model ''claude-opus-4-5'' = []" "known_codex_model ''gpt-5.2-openai-compact'' = ''gpt-5.2''"
  by code_simp+

subsection \<open>Names of the price list\<close>

definition after_last_or :: "string \<Rightarrow> string \<Rightarrow> string" where
  "after_last_or p m = (case after_last p m of None \<Rightarrow> m | Some r \<Rightarrow> r)"

definition trim_slashes :: "string \<Rightarrow> string" where
  "trim_slashes m = dropWhile (\<lambda>c. c = CHR ''/'') m"

definition price_name :: "string \<Rightarrow> string" where
  "price_name m =
     (let m1 = trim_prefix (trim_prefix (trim_slashes (trim_space m)) ''models/'') ''publishers/google/models/'';
          m2 = trim_slashes (after_last_or ''/models/'' (after_last_or ''/publishers/google/models/'' m1));
          c = canonical_spelling m2
      in if c \<noteq> [] then c else m2)"

definition lookup_candidates :: "string \<Rightarrow> string list" where
  "lookup_candidates m =
     (let cs = [price_name m, m, trim_prefix m ''models/'', last_segment m, last_segment (trim_prefix m ''models/'')];
          out = rev (remdups (rev (filter (\<lambda>c. c \<noteq> []) (map trim_space cs))))
      in if out = [] then [m] else out)"

definition is_numeric :: "string \<Rightarrow> bool" where
  "is_numeric s = list_all is_digit s"

definition base_name :: "string \<Rightarrow> string" where
  "base_name m = join_with ''-'' (filter (\<lambda>p. \<not> (length p = 8 \<and> is_numeric p) \<and> \<not> contains p '':'') (split_on CHR ''-'' m))"

lemma base_name_examples:
  "base_name ''claude-3-5-sonnet-20241022'' = ''claude-3-5-sonnet''"
  "base_name ''claude-3-5-sonnet-20240620'' = ''claude-3-5-sonnet''"
  "lookup_candidates ''models/gemini-2.0-flash'' = [''gemini-2.0-flash'', ''models/gemini-2.0-flash'']"
  by code_simp+

end
