(* ===== verification/Float64.thy ===== *)
theory Float64
  imports GoBase
begin

section \<open>Rounded arithmetic\<close>

text \<open>
  The arithmetic of \<open>float64\<close> where a component's result depends on its roundings: the value of an
  operation is the exact one rounded to the nearest number of 53 significant bits, a tie to the even
  one, or to a multiple of the smallest subnormal number.  Values stay below the largest finite number,
  so no operation overflows.
\<close>

definition pow2 :: "int \<Rightarrow> rat" where
  "pow2 k = (if 0 \<le> k then 2 ^ nat k else 1 / 2 ^ nat (- k))"

function bits :: "int \<Rightarrow> int" where
  "bits n = (if n \<le> 0 then 0 else 1 + bits (n div 2))"
  by auto
termination
  by (relation "measure nat") auto

declare bits.simps [simp del]

text \<open>The binary exponent of a positive number, and the distance of the doubles around it.\<close>

definition exponent :: "rat \<Rightarrow> int" where
  "exponent x = (case quotient_of x of (a, b) \<Rightarrow>
     if pow2 (bits a - bits b) \<le> x then bits a - bits b else bits a - bits b - 1)"

definition ulp :: "rat \<Rightarrow> rat" where
  "ulp x = pow2 (max (exponent x - 52) (- 1074))"

definition round_to :: "rat \<Rightarrow> rat \<Rightarrow> rat" where
  "round_to u x = of_int (round_half_even (x / u)) * u"

definition double :: "rat \<Rightarrow> rat" where
  "double x = (if x = 0 then 0 else if 0 < x then round_to (ulp x) x else - round_to (ulp (- x)) (- x))"

subsection \<open>Powers of two\<close>

lemma pow2_powi: "pow2 k = 2 powi k"
  by (simp add: pow2_def power_int_def field_simps)

lemma pow2_pos [simp]: "0 < pow2 k"
  by (simp add: pow2_powi)

lemma pow2_add: "pow2 (j + k) = pow2 j * pow2 k"
  by (simp add: pow2_powi power_int_add)

lemma pow2_mono: "j \<le> k \<Longrightarrow> pow2 j \<le> pow2 k"
  by (simp add: pow2_powi power_int_increasing)

lemma pow2_less_iff: "pow2 j < pow2 k \<longleftrightarrow> j < k"
proof
  assume "pow2 j < pow2 k"
  then show "j < k"
    using pow2_mono [of k j] by (meson not_le)
next
  assume "j < k"
  have "pow2 j < pow2 j * 2"
    using pow2_pos [of j] by linarith
  also have "\<dots> = pow2 (j + 1)"
    by (simp add: pow2_add) (simp add: pow2_def)
  also have "\<dots> \<le> pow2 k"
    using \<open>j < k\<close> by (intro pow2_mono) simp
  finally show "pow2 j < pow2 k" .
qed

lemma pow2_Suc: "pow2 (k + 1) = 2 * pow2 k"
  by (simp add: pow2_add) (simp add: pow2_def)

lemma bits_bounds: "0 < n \<Longrightarrow> pow2 (bits n - 1) \<le> of_int n \<and> of_int n < pow2 (bits n)"
proof (induction n rule: bits.induct)
  case (1 n)
  show ?case
  proof (cases "n = 1")
    case True
    then show ?thesis
      by (simp add: bits.simps pow2_def)
  next
    case False
    with 1 have n: "0 < n div 2" "bits n = 1 + bits (n div 2)"
      by (simp_all add: bits.simps [of n])
    define m where "m = n div 2"
    have m: "pow2 (bits m - 1) \<le> of_int m" "of_int m < pow2 (bits m)"
      using 1 n(1) by (auto simp: m_def)
    have "2 * m \<le> n" "n \<le> 2 * m + 1"
      by (simp_all add: m_def)
    then have "of_int (2 * m) \<le> (of_int n :: rat)" "of_int n \<le> (of_int (2 * m + 1) :: rat)"
      by (simp_all only: of_int_le_iff)
    then have a: "2 * of_int m \<le> (of_int n :: rat)" "of_int n \<le> 2 * of_int m + (1 :: rat)"
      by simp_all
    have b: "0 \<le> bits m"
    proof (rule ccontr)
      assume "\<not> 0 \<le> bits m"
      then have "pow2 (bits m) \<le> 1"
        using pow2_mono [of "bits m" 0] by (simp add: pow2_def)
      moreover have "1 \<le> (of_int m :: rat)"
        using n(1) by (simp add: m_def)
      ultimately show False
        using m(2) by linarith
    qed
    have "(of_int (m + 1) :: rat) \<le> pow2 (bits m)"
    proof -
      have "pow2 (bits m) = of_int (2 ^ nat (bits m))"
        using b by (simp add: pow2_def)
      with m(2) have "m < 2 ^ nat (bits m)"
        by (simp only: of_int_less_iff)
      then have "m + 1 \<le> 2 ^ nat (bits m)"
        by simp
      then show ?thesis
        unfolding \<open>pow2 (bits m) = of_int (2 ^ nat (bits m))\<close> by (simp only: of_int_le_iff)
    qed
    then have c: "of_int n < 2 * pow2 (bits m)"
      using a by simp
    have "pow2 (bits n) = 2 * pow2 (bits m)" "pow2 (bits n - 1) = 2 * pow2 (bits m - 1)"
      using pow2_Suc [of "bits m"] pow2_Suc [of "bits m - 1"] n(2) by (simp_all add: m_def add.commute)
    then show ?thesis
      using c a m by simp
  qed
qed

lemma exponent_bounds:
  assumes "0 < x"
  shows "pow2 (exponent x) \<le> x" "x < pow2 (exponent x + 1)"
proof -
  obtain a b where ab: "quotient_of x = (a, b)"
    by (cases "quotient_of x")
  have x: "x = of_int a / of_int b" and b: "0 < b"
    using quotient_of_div [OF ab] quotient_of_denom_pos [OF ab] by auto
  with assms have a: "0 < a"
    by (simp add: zero_less_divide_iff)
  let ?k = "bits a - bits b"
  note ba = bits_bounds [OF a] and bb = bits_bounds [OF b]
  have bpos: "(0 :: rat) < of_int b"
    using b by simp
  have "x < pow2 (?k + 1)"
  proof -
    have "of_int a < pow2 (bits a)"
      using ba by simp
    also have "pow2 (bits a) = pow2 (?k + 1) * pow2 (bits b - 1)"
      by (simp flip: pow2_add)
    also have "\<dots> \<le> pow2 (?k + 1) * of_int b"
      using bb by (intro mult_left_mono) (simp_all add: less_imp_le)
    finally show ?thesis
      using bpos by (simp add: x field_simps)
  qed
  moreover have "pow2 (?k - 1) \<le> x"
  proof -
    have "pow2 (?k - 1) * of_int b \<le> pow2 (?k - 1) * pow2 (bits b)"
      using bb by (intro mult_left_mono) (simp_all add: less_imp_le)
    also have "\<dots> = pow2 (bits a - 1)"
      by (simp flip: pow2_add)
    also have "\<dots> \<le> of_int a"
      using ba by simp
    finally show ?thesis
      using bpos by (simp add: x field_simps)
  qed
  ultimately show "pow2 (exponent x) \<le> x" "x < pow2 (exponent x + 1)"
    by (auto simp: exponent_def ab)
qed

subsection \<open>Rounding\<close>

lemma round_half_even_mono: "x \<le> y \<Longrightarrow> round_half_even x \<le> round_half_even y"
proof -
  assume xy: "x \<le> y"
  have f: "\<lfloor>x\<rfloor> \<le> \<lfloor>y\<rfloor>"
    using xy by (rule floor_mono)
  show ?thesis
  proof (cases "\<lfloor>x\<rfloor> = \<lfloor>y\<rfloor>")
    case True
    with xy show ?thesis
      by (auto simp: round_half_even_def Let_def)
  next
    case False
    with f have "\<lfloor>x\<rfloor> + 1 \<le> \<lfloor>y\<rfloor>"
      by simp
    then show ?thesis
      by (auto simp: round_half_even_def Let_def)
  qed
qed

lemma round_half_even_int [simp]: "round_half_even (of_int n) = n"
  by (simp add: round_half_even_def)

lemma round_to_mono: "0 < u \<Longrightarrow> x \<le> y \<Longrightarrow> round_to u x \<le> round_to u y"
  by (simp add: round_to_def round_half_even_mono divide_right_mono)

lemma round_to_multiple: "0 < u \<Longrightarrow> round_to u (of_int n * u) = of_int n * u"
  by (simp add: round_to_def)

lemma ulp_pos [simp]: "0 < ulp x"
  by (simp add: ulp_def)

text \<open>A larger power of two is a multiple of a smaller one.\<close>

lemma pow2_multiple: "j \<le> k \<Longrightarrow> \<exists>n. pow2 k = of_int n * pow2 j"
proof -
  assume "j \<le> k"
  then have "pow2 k = of_int (2 ^ nat (k - j)) * pow2 j"
    using pow2_add [of "k - j" j] by (simp add: pow2_def)
  then show ?thesis ..
qed

lemma round_pow2: "j \<le> k \<Longrightarrow> round_to (pow2 j) (pow2 k) = pow2 k"
  using pow2_multiple [of j k] by (auto simp: round_to_multiple)

lemma exponent_mono:
  assumes "0 < x" and "x \<le> y"
  shows "exponent x \<le> exponent y"
proof -
  have "pow2 (exponent x) < pow2 (exponent y + 1)"
    using exponent_bounds [of x] exponent_bounds [of y] assms by linarith
  then show ?thesis
    by (simp add: pow2_less_iff)
qed

lemma round_mono_pos:
  assumes "0 < x" and "x \<le> y"
  shows "round_to (ulp x) x \<le> round_to (ulp y) y"
proof (cases "ulp x = ulp y")
  case True
  with assms show ?thesis
    by (simp add: round_to_mono)
next
  case False
  then have "exponent x \<noteq> exponent y" "max (exponent x - 52) (- 1074) \<noteq> max (exponent y - 52) (- 1074)"
    by (auto simp: ulp_def)
  with exponent_mono [OF assms] have e: "exponent x < exponent y" "- 1074 < exponent y - 52"
    by linarith+
  let ?b = "pow2 (exponent y)"
  have "x \<le> ?b"
    using exponent_bounds(2) [OF assms(1)] pow2_mono [of "exponent x + 1" "exponent y"] e(1) by simp
  then have "round_to (ulp x) x \<le> round_to (ulp x) ?b"
    by (simp add: round_to_mono)
  also have "\<dots> = ?b"
    using e by (auto simp: ulp_def intro!: round_pow2)
  also have "\<dots> = round_to (ulp y) ?b"
    using e by (simp add: ulp_def round_pow2)
  also have "\<dots> \<le> round_to (ulp y) y"
    using exponent_bounds(1) [of y] assms by (simp add: round_to_mono)
  finally show ?thesis .
qed

lemma round_to_nonneg: "0 < u \<Longrightarrow> 0 \<le> x \<Longrightarrow> 0 \<le> round_to u x"
  using round_to_mono [of u 0 x] by (simp add: round_to_def round_half_even_def)

lemma double_0 [simp]: "double 0 = 0"
  by (simp add: double_def)

lemma double_minus: "double (- x) = - double x"
  by (simp add: double_def)

lemma double_nonneg: "0 \<le> x \<Longrightarrow> 0 \<le> double x"
  by (simp add: double_def round_to_nonneg)

lemma double_mono: "x \<le> y \<Longrightarrow> double x \<le> double y"
proof -
  assume xy: "x \<le> y"
  consider "0 < x" | "x \<le> 0" "0 \<le> y" | "y < 0"
    by linarith
  then show ?thesis
  proof cases
    case 1
    with xy show ?thesis
      by (simp add: double_def round_mono_pos)
  next
    case 2
    then show ?thesis
      using double_nonneg [of y] double_nonneg [of "- x"] by (simp add: double_minus)
  next
    case 3
    with xy round_mono_pos [of "- y" "- x"] show ?thesis
      by (simp add: double_def)
  qed
qed

text \<open>The integers a \<open>float64\<close> holds exactly.\<close>

lemma double_of_int:
  assumes "\<bar>n\<bar> \<le> 2 ^ 53"
  shows "double (of_int n) = of_int n"
proof -
  have pos: "double (of_int n) = of_int n" if n: "0 < n" "n \<le> 2 ^ 53" for n
  proof -
    let ?x = "of_int n :: rat"
    have "ulp ?x \<le> 1 \<or> ?x = pow2 53"
    proof (cases "n = 2 ^ 53")
      case False
      with n have "n < 2 ^ 53"
        by simp
      then have "?x < pow2 53"
        by (simp add: pow2_def)
      with exponent_bounds(1) [of ?x] n have "pow2 (exponent ?x) < pow2 53"
        by simp
      then show ?thesis
        by (simp add: pow2_less_iff ulp_def) (simp add: pow2_def)
    qed (simp add: pow2_def)
    then show ?thesis
    proof
      assume "?x = pow2 53"
      have "exponent (pow2 53) = 53"
      proof -
        have "pow2 (exponent (pow2 53)) \<le> pow2 53" "pow2 53 < pow2 (exponent (pow2 53) + 1)"
          using exponent_bounds [of "pow2 53"] by simp_all
        then have "\<not> pow2 53 < pow2 (exponent (pow2 53))" "pow2 53 < pow2 (exponent (pow2 53) + 1)"
          by simp_all
        then show ?thesis
          unfolding pow2_less_iff by simp
      qed
      then have "round_to (ulp (pow2 53)) (pow2 53) = pow2 53"
        by (simp add: ulp_def round_pow2)
      then show ?thesis
        using n by (simp add: double_def \<open>?x = pow2 53\<close>)
    next
      assume u: "ulp ?x \<le> 1"
      then have "\<not> pow2 0 < ulp ?x"
        by (simp add: pow2_def)
      then have "max (exponent ?x - 52) (- 1074) \<le> 0"
        unfolding ulp_def pow2_less_iff by simp
      then obtain m where "pow2 0 = of_int m * ulp ?x"
        unfolding ulp_def using pow2_multiple by blast
      then have "?x = of_int (n * m) * ulp ?x"
        by (simp add: pow2_def)
      then have "round_to (ulp ?x) ?x = ?x"
        using round_to_multiple [of "ulp ?x" "n * m"] by (metis ulp_pos)
      then show ?thesis
        using n by (simp add: double_def)
    qed
  qed
  consider "0 < n" | "n = 0" | "n < 0"
    by linarith
  then show ?thesis
  proof cases
    case 3
    with pos [of "- n"] assms show ?thesis
      by (simp add: double_minus)
  qed (use pos assms in auto)
qed

lemma double_examples:
  "double (1 / 10) = 3602879701896397 / 36028797018963968"
  "double (3 / 1000000) * 2 = double (6 / 1000000)" "double 7 = 7"
  by code_simp+

text \<open>Rounding a number of \<open>float64\<close> leaves it as it is.\<close>

lemma exponent_less: "0 < x \<Longrightarrow> x < pow2 b \<Longrightarrow> exponent x < b"
  using exponent_bounds(1) [of x] pow2_less_iff [of "exponent x" b] by linarith

lemma round_to_round_to:
  assumes "j \<le> k"
  shows "round_to (pow2 j) (round_to (pow2 k) x) = round_to (pow2 k) x"
proof -
  obtain n where "pow2 k = of_int n * pow2 j"
    using pow2_multiple [OF assms] by blast
  then have "round_to (pow2 k) x = of_int (round_half_even (x / pow2 k) * n) * pow2 j"
    by (simp add: round_to_def)
  then show ?thesis
    by (simp only: round_to_multiple pow2_pos)
qed

lemma round_idem_pos:
  assumes "0 < x" and "0 < round_to (ulp x) x"
  shows "round_to (ulp (round_to (ulp x) x)) (round_to (ulp x) x) = round_to (ulp x) x"
proof -
  define k where "k = max (exponent x - 52) (- 1074)"
  define b where "b = max (exponent x + 1) k"
  define y where "y = round_to (ulp x) x"
  have u: "ulp x = pow2 k"
    by (simp add: ulp_def k_def)
  have "x \<le> pow2 b"
    using exponent_bounds(2) [OF assms(1)] pow2_mono [of "exponent x + 1" b] by (simp add: b_def)
  then have "y \<le> pow2 b"
    using round_to_mono [of "pow2 k" x "pow2 b"] round_pow2 [of k b] by (simp add: y_def u b_def)
  then consider "y = pow2 b" | "y < pow2 b"
    by linarith
  then have "round_to (ulp y) y = y"
  proof cases
    case 1
    have "exponent y < b + 1"
      using exponent_less [of y "b + 1"] assms(2) 1 pow2_less_iff [of b "b + 1"] by (simp add: y_def)
    then have "max (exponent y - 52) (- 1074) \<le> b"
      by (simp add: b_def k_def)
    with 1 show ?thesis
      by (simp add: ulp_def round_pow2)
  next
    case 2
    with exponent_less [of y b] assms(2) have "exponent y < b"
      by (simp add: y_def)
    then have "max (exponent y - 52) (- 1074) \<le> k"
      by (auto simp: b_def k_def max_def split: if_splits)
    then have "round_to (ulp y) (round_to (pow2 k) x) = round_to (pow2 k) x"
      unfolding ulp_def [of y] by (rule round_to_round_to)
    then show ?thesis
      by (simp only: y_def u)
  qed
  then show ?thesis
    by (simp add: y_def)
qed

lemma double_double [simp]: "double (double x) = double x"
proof -
  have pos: "double (double x) = double x" if "0 < x" for x
    using round_idem_pos [OF that] round_to_nonneg [of "ulp x" x] that by (auto simp: double_def)
  show ?thesis
    using pos [of x] pos [of "- x"] by (cases x "0 :: rat" rule: linorder_cases) (simp_all add: double_minus)
qed


end
