(* ===== verification/PriceTable.thy ===== *)
theory PriceTable
  imports ModelNames Float64
begin

section \<open>Prices\<close>

text \<open>
  \<open>service/pricing_service.go\<close> (the lookup in the downloaded price list) and the price tables of
  \<open>service/billing_service.go\<close>.  The price list is given in the order a Go map iteration visits it,
  which is not determined: where the code ranges over the map, the first match in that order counts.
  The built-in prices are objects at addresses: two names can be bound to one object, and
  \<open>GetModelPricing\<close> returns the object itself, not a copy.  Prices are \<open>float64\<close> values.
\<close>

subsection \<open>The price list\<close>

record litellm =
  ll_input :: rat
  ll_input_priority :: rat
  ll_output :: rat
  ll_output_priority :: rat
  ll_cache_creation :: rat
  ll_cache_creation_1h :: rat
  ll_cache_read :: rat
  ll_cache_read_priority :: rat
  ll_long_threshold :: int
  ll_long_input :: rat
  ll_long_output :: rat
  ll_service_tier :: bool
  ll_provider :: string
  ll_mode :: string
  ll_caching :: bool
  ll_image :: rat
  ll_image_token :: rat

type_synonym price_list = "(string \<times> litellm) list"

text \<open>A constant of so many digits after the point.\<close>

definition usd :: "int \<Rightarrow> nat \<Rightarrow> rat" where
  "usd m k = double (of_int m / 10 ^ k)"

definition openai_chat :: "rat \<Rightarrow> rat \<Rightarrow> rat \<Rightarrow> litellm" where
  "openai_chat i out cached = \<lparr>ll_input = i, ll_input_priority = 0, ll_output = out, ll_output_priority = 0,
     ll_cache_creation = 0, ll_cache_creation_1h = 0, ll_cache_read = cached, ll_cache_read_priority = 0,
     ll_long_threshold = 0, ll_long_input = 0, ll_long_output = 0, ll_service_tier = False, ll_provider = ''openai'',
     ll_mode = ''chat'', ll_caching = True, ll_image = 0, ll_image_token = 0\<rparr>"

definition gpt54_prices :: litellm where
  "gpt54_prices = (openai_chat (usd 25 7) (usd 15 6) (usd 25 8))\<lparr>ll_long_threshold := 272000, ll_long_input := 2,
     ll_long_output := 3 / 2\<rparr>"

definition gpt54_mini_prices :: litellm where
  "gpt54_mini_prices = openai_chat (usd 75 8) (usd 45 7) (usd 75 9)"

definition gpt54_nano_prices :: litellm where
  "gpt54_nano_prices = openai_chat (usd 2 7) (usd 125 8) (usd 2 8)"

fun first_in :: "price_list \<Rightarrow> string list \<Rightarrow> litellm option" where
  "first_in data [] = None"
| "first_in data (c # cs) = (case map_of data c of None \<Rightarrow> first_in data cs | Some p \<Rightarrow> Some p)"

text \<open>The first entry in the order of iteration whose key has the property.\<close>

fun visit :: "(string \<Rightarrow> bool) \<Rightarrow> price_list \<Rightarrow> litellm option" where
  "visit f [] = None"
| "visit f ((k, p) # data) = (if f k then Some p else visit f data)"

definition same_base :: "string \<Rightarrow> string \<Rightarrow> bool" where
  "same_base b k \<longleftrightarrow> base_name (to_lower k) = b"

definition key_contains :: "string \<Rightarrow> string \<Rightarrow> bool" where
  "key_contains p k \<longleftrightarrow> contains (to_lower k) p"

text \<open>The families of Claude: name, the patterns of the model, the patterns of the keys.\<close>

definition claude_families :: "(string \<times> string list \<times> string list) list" where
  "claude_families =
     [(''opus-4.7'', [''claude-opus-4-7'', ''claude-opus-4.7''], [''claude-opus-4-7'', ''claude-opus-4.7'', ''claude-opus-4-6'']),
      (''opus-4.6'', [''claude-opus-4-6'', ''claude-opus-4.6''], [''claude-opus-4-6'', ''claude-opus-4.6'']),
      (''opus-4.5'', [''claude-opus-4-5'', ''claude-opus-4.5''], [''claude-opus-4-5'', ''claude-opus-4.5'']),
      (''opus-4'', [''claude-opus-4'', ''claude-3-opus''], [''claude-opus-4'', ''claude-3-opus'']),
      (''sonnet-4.5'', [''claude-sonnet-4-5'', ''claude-sonnet-4.5''], [''claude-sonnet-4-5'', ''claude-sonnet-4.5'']),
      (''sonnet-4'', [''claude-sonnet-4'', ''claude-3-5-sonnet''], [''claude-sonnet-4'', ''claude-3-5-sonnet'']),
      (''sonnet-3.5'', [''claude-3-5-sonnet'', ''claude-3.5-sonnet''], [''claude-3-5-sonnet'', ''claude-3.5-sonnet'']),
      (''sonnet-3'', [''claude-3-sonnet''], [''claude-3-sonnet'']),
      (''haiku-3.5'', [''claude-3-5-haiku'', ''claude-3.5-haiku''], [''claude-3-5-haiku'', ''claude-3.5-haiku'']),
      (''haiku-3'', [''claude-3-haiku''], [''claude-3-haiku''])]"

definition pattern_fits :: "string \<Rightarrow> string \<Rightarrow> bool" where
  "pattern_fits m p \<longleftrightarrow> contains m p \<or> contains m (replace_all p ''-'' [])"

fun match_family :: "(string \<times> string list \<times> string list) list \<Rightarrow> string \<Rightarrow> string list option" where
  "match_family [] m = None"
| "match_family ((n, pats, keys) # fs) m = (if list_ex (pattern_fits m) pats then Some keys else match_family fs m)"

fun family_named :: "(string \<times> string list \<times> string list) list \<Rightarrow> string \<Rightarrow> string list option" where
  "family_named [] n = None"
| "family_named ((n', pats, keys) # fs) n = (if n' = n then Some keys else family_named fs n)"

definition rough_family :: "string \<Rightarrow> string" where
  "rough_family m =
     (if contains m ''opus'' then
        (if contains_any m [''4.7'', ''4-7''] then ''opus-4.7'' else if contains_any m [''4.6'', ''4-6''] then ''opus-4.6''
         else if contains_any m [''4.5'', ''4-5''] then ''opus-4.5'' else ''opus-4'')
      else if contains m ''sonnet'' then
        (if contains_any m [''4.5'', ''4-5''] then ''sonnet-4.5'' else if contains_any m [''3-5'', ''3.5''] then ''sonnet-3.5''
         else ''sonnet-4'')
      else if contains m ''haiku'' then (if contains_any m [''3-5'', ''3.5''] then ''haiku-3.5'' else ''haiku-3'')
      else [])"

fun visit_patterns :: "price_list \<Rightarrow> string list \<Rightarrow> litellm option" where
  "visit_patterns data [] = None"
| "visit_patterns data (p # ps) = (case visit (key_contains p) data of None \<Rightarrow> visit_patterns data ps | Some l \<Rightarrow> Some l)"

definition by_family :: "price_list \<Rightarrow> string \<Rightarrow> litellm option" where
  "by_family data m =
     (case (case match_family claude_families m of
        None \<Rightarrow> family_named claude_families (rough_family m)
      | Some ks \<Rightarrow> Some ks) of
      None \<Rightarrow> None
    | Some ks \<Rightarrow> visit_patterns data ks)"

text \<open>The two regular expressions: \<open>-\d{8}$\<close>, and \<open>^(gpt-\d+(?:\.\d+)?)(?:-|$)\<close>.\<close>

definition without_date :: "string \<Rightarrow> string" where
  "without_date m = (let n = length m - 9; d = drop n m in
     if 9 \<le> length m \<and> hd d = CHR ''-'' \<and> is_numeric (tl d) then take n m else m)"

definition ends_version :: "string \<Rightarrow> bool" where
  "ends_version s \<longleftrightarrow> s = [] \<or> hd s = CHR ''-''"

definition base_version :: "string \<Rightarrow> string option" where
  "base_version m =
     (if \<not> has_prefix m ''gpt-'' then None
      else let r = drop 4 m; whole = takeWhile is_digit r; r1 = dropWhile is_digit r;
          frac = takeWhile is_digit (drop 1 r1); r2 = dropWhile is_digit (drop 1 r1) in
        if whole = [] then None
        else if has_prefix r1 ''.'' \<and> frac \<noteq> [] \<and> ends_version r2 then Some (''gpt-'' @ whole @ ''.'' @ frac)
        else if ends_version r1 then Some (''gpt-'' @ whole)
        else None)"

definition openai_variants :: "string \<Rightarrow> string list" where
  "openai_variants m =
     (let d = without_date m; vs = (if d \<noteq> m then [d] else []) @ (case base_version m of None \<Rightarrow> [] | Some v \<Rightarrow> [v]) @
          (if d \<noteq> m then (case base_version d of None \<Rightarrow> [] | Some v \<Rightarrow> [v]) else [])
      in rev (remdups (rev (filter (\<lambda>v. v \<noteq> m) vs))))"

definition or_try :: "'a option \<Rightarrow> 'a option \<Rightarrow> 'a option" where
  "or_try x y = (case x of None \<Rightarrow> y | Some _ \<Rightarrow> x)"

definition by_openai :: "price_list \<Rightarrow> string \<Rightarrow> litellm option" where
  "by_openai data m =
     or_try (if has_prefix m ''gpt-5.3-codex-spark'' then map_of data ''gpt-5.1-codex'' else None)
     (or_try (first_in data (openai_variants m))
     (or_try (if has_prefix m ''gpt-5.3-codex'' then map_of data ''gpt-5.2-codex'' else None)
       (if has_prefix m ''gpt-5.5'' then Some gpt54_prices
        else if has_prefix m ''gpt-5.4-mini'' then Some gpt54_mini_prices
        else if has_prefix m ''gpt-5.4-nano'' then Some gpt54_nano_prices
        else if has_prefix m ''gpt-5.4'' then Some gpt54_prices
        else if has_prefix (to_lower (trim_space m)) ''gpt-image-'' then
          first_in data [''gpt-image-2'', ''gpt-image-1.5'', ''gpt-image-1'']
        else map_of data ''gpt-5.4'')))"

definition list_price :: "price_list \<Rightarrow> string \<Rightarrow> litellm option" where
  "list_price data name =
     (if name = [] then None
      else let cs = lookup_candidates (to_lower (trim_space name)); m = hd cs in
        or_try (first_in data cs)
        (or_try (first_in data (map (\<lambda>c. replace_all c ''-4-5-'' ''-4.5-'') cs))
        (or_try (visit (same_base (base_name m)) data)
        (or_try (by_family data m)
          (if has_prefix m ''gpt-'' then by_openai data m else None)))))"

subsection \<open>The built-in prices\<close>

record model_pricing =
  mp_input :: rat
  mp_input_priority :: rat
  mp_image_input :: rat
  mp_output :: rat
  mp_output_priority :: rat
  mp_cache_creation :: rat
  mp_cache_read :: rat
  mp_cache_read_priority :: rat
  mp_cache_5m :: rat
  mp_cache_1h :: rat
  mp_breakdown :: bool
  mp_long_threshold :: int
  mp_long_input :: rat
  mp_long_output :: rat
  mp_image_output :: rat
  mp_image_explicit :: bool

definition no_price :: model_pricing where
  "no_price = \<lparr>mp_input = 0, mp_input_priority = 0, mp_image_input = 0, mp_output = 0, mp_output_priority = 0,
     mp_cache_creation = 0, mp_cache_read = 0, mp_cache_read_priority = 0, mp_cache_5m = 0, mp_cache_1h = 0,
     mp_breakdown = False, mp_long_threshold = 0, mp_long_input = 0, mp_long_output = 0, mp_image_output = 0,
     mp_image_explicit = False\<rparr>"

definition fallback_prices :: "(string \<times> model_pricing) list" where
  "fallback_prices =
    [(''claude-opus-4.5'', no_price\<lparr>mp_input := usd 5 6, mp_output := usd 25 6, mp_cache_creation := usd 625 8, mp_cache_read := usd 5 7\<rparr>),
     (''claude-sonnet-4'', no_price\<lparr>mp_input := usd 3 6, mp_output := usd 15 6, mp_cache_creation := usd 375 8, mp_cache_read := usd 3 7\<rparr>),
     (''claude-3-5-sonnet'', no_price\<lparr>mp_input := usd 3 6, mp_output := usd 15 6, mp_cache_creation := usd 375 8, mp_cache_read := usd 3 7\<rparr>),
     (''claude-3-5-haiku'', no_price\<lparr>mp_input := usd 1 6, mp_output := usd 5 6, mp_cache_creation := usd 125 8, mp_cache_read := usd 1 7\<rparr>),
     (''claude-3-opus'', no_price\<lparr>mp_input := usd 15 6, mp_output := usd 75 6, mp_cache_creation := usd 1875 8, mp_cache_read := usd 15 7\<rparr>),
     (''claude-3-haiku'', no_price\<lparr>mp_input := usd 25 8, mp_output := usd 125 8, mp_cache_creation := usd 3 7, mp_cache_read := usd 3 8\<rparr>),
     (''gemini-3.1-pro'', no_price\<lparr>mp_input := usd 2 6, mp_output := usd 12 6, mp_cache_creation := usd 2 6, mp_cache_read := usd 2 7\<rparr>),
     (''gpt-5.4'', no_price\<lparr>mp_input := usd 25 7, mp_input_priority := usd 5 6, mp_output := usd 15 6, mp_output_priority := usd 3 5, mp_cache_creation := usd 25 7, mp_cache_read := usd 25 8, mp_cache_read_priority := usd 5 7, mp_long_threshold := 272000, mp_long_input := 2, mp_long_output := 3 / 2\<rparr>),
     (''gpt-5.4-mini'', no_price\<lparr>mp_input := usd 75 8, mp_output := usd 45 7, mp_cache_read := usd 75 9\<rparr>),
     (''gpt-5.4-nano'', no_price\<lparr>mp_input := usd 2 7, mp_output := usd 125 8, mp_cache_read := usd 2 8\<rparr>),
     (''gpt-5.2'', no_price\<lparr>mp_input := usd 175 8, mp_input_priority := usd 35 7, mp_output := usd 14 6, mp_output_priority := usd 28 6, mp_cache_creation := usd 175 8, mp_cache_read := usd 175 9, mp_cache_read_priority := usd 35 8\<rparr>),
     (''gpt-5.3-codex'', no_price\<lparr>mp_input := usd 15 7, mp_input_priority := usd 3 6, mp_output := usd 12 6, mp_output_priority := usd 24 6, mp_cache_creation := usd 15 7, mp_cache_read := usd 15 8, mp_cache_read_priority := usd 3 7\<rparr>),
     (''deepseek-v4-pro'', no_price\<lparr>mp_input := usd 435 9, mp_output := usd 87 8, mp_cache_read := usd 3625 12\<rparr>),
     (''deepseek-v4-flash'', no_price\<lparr>mp_input := usd 14 8, mp_output := usd 28 8, mp_cache_read := usd 28 10\<rparr>),
     (''glm-5.1'', no_price\<lparr>mp_input := usd 14 7, mp_output := usd 44 7, mp_cache_read := usd 26 8\<rparr>),
     (''glm-5'', no_price\<lparr>mp_input := usd 1 6, mp_output := usd 32 7, mp_cache_read := usd 2 7\<rparr>),
     (''glm-5-turbo'', no_price\<lparr>mp_input := usd 12 7, mp_output := usd 4 6, mp_cache_read := usd 24 8\<rparr>),
     (''glm-4.7'', no_price\<lparr>mp_input := usd 6 7, mp_output := usd 22 7, mp_cache_read := usd 11 8\<rparr>),
     (''glm-4.7-flashx'', no_price\<lparr>mp_input := usd 7 8, mp_output := usd 4 7, mp_cache_read := usd 1 8\<rparr>),
     (''glm-4.6'', no_price\<lparr>mp_input := usd 6 7, mp_output := usd 22 7, mp_cache_read := usd 11 8\<rparr>),
     (''glm-4.5'', no_price\<lparr>mp_input := usd 6 7, mp_output := usd 22 7, mp_cache_read := usd 11 8\<rparr>),
     (''glm-4.5-x'', no_price\<lparr>mp_input := usd 22 7, mp_output := usd 89 7, mp_cache_read := usd 45 8\<rparr>),
     (''glm-4.5-air'', no_price\<lparr>mp_input := usd 2 7, mp_output := usd 11 7, mp_cache_read := usd 3 8\<rparr>),
     (''glm-4.5-airx'', no_price\<lparr>mp_input := usd 11 7, mp_output := usd 45 7, mp_cache_read := usd 22 8\<rparr>),
     (''glm-4-32b-0414-128k'', no_price\<lparr>mp_input := usd 1 7, mp_output := usd 1 7\<rparr>),
     (''glm-4.5-flash'', no_price\<lparr>mp_input := 0, mp_output := 0\<rparr>),
     (''glm-4.7-flash'', no_price\<lparr>mp_input := 0, mp_output := 0\<rparr>),
     (''kimi-k2.6'', no_price\<lparr>mp_input := usd 95 8, mp_output := usd 4 6, mp_cache_read := usd 15 8\<rparr>),
     (''kimi-for-coding'', no_price\<lparr>mp_input := usd 95 8, mp_output := usd 4 6, mp_cache_read := usd 15 8\<rparr>),
     (''kimi-k2.5'', no_price\<lparr>mp_input := usd 6 7, mp_output := usd 3 6, mp_cache_read := usd 98 9\<rparr>),
     (''kimi-k2-thinking'', no_price\<lparr>mp_input := usd 56 8, mp_output := usd 224 8, mp_cache_read := usd 14 8\<rparr>),
     (''kimi-k2'', no_price\<lparr>mp_input := usd 56 8, mp_output := usd 224 8, mp_cache_read := usd 14 8\<rparr>),
     (''minimax-m3'', no_price\<lparr>mp_input := usd 6 7, mp_output := usd 24 7, mp_cache_read := usd 12 8\<rparr>),
     (''minimax-m2.7'', no_price\<lparr>mp_input := usd 3 7, mp_output := usd 12 7, mp_cache_read := usd 6 8\<rparr>),
     (''minimax-m2.7-highspeed'', no_price\<lparr>mp_input := usd 6 7, mp_output := usd 24 7, mp_cache_read := usd 6 8\<rparr>),
     (''minimax-m2.5'', no_price\<lparr>mp_input := usd 3 7, mp_output := usd 12 7, mp_cache_read := usd 3 8\<rparr>),
     (''minimax-m2.1'', no_price\<lparr>mp_input := usd 3 7, mp_output := usd 12 7, mp_cache_read := usd 3 8\<rparr>),
     (''minimax-m2'', no_price\<lparr>mp_input := usd 3 7, mp_output := usd 12 7, mp_cache_read := usd 3 8\<rparr>),
     (''doubao-embedding-vision'', no_price\<lparr>mp_input := usd 98 9, mp_image_input := usd 252 9, mp_output := 0\<rparr>),
     (''grok-4.3'', no_price\<lparr>mp_input := usd 125 8, mp_output := usd 25 7, mp_cache_read := 0, mp_long_threshold := 1000000, mp_long_input := 1\<rparr>),
     (''grok-build-0.1'', no_price\<lparr>mp_input := usd 1 6, mp_output := usd 2 6\<rparr>)]"

text \<open>The names bound to the object of another name.\<close>

definition price_address :: "string \<Rightarrow> string" where
  "price_address k = (if k \<in> {''claude-opus-4.6'', ''claude-opus-4.7''} then ''claude-opus-4.5''
     else if k = ''gpt-5.5'' then ''gpt-5.4'' else k)"

type_synonym price_heap = "string \<rightharpoonup> model_pricing"

definition initial_prices :: price_heap where
  "initial_prices = map_of fallback_prices"

text \<open>The patterns of \<open>getFallbackPricing\<close> after the Claude families, in their order.\<close>

definition fallback_patterns :: "(string \<times> string) list" where
  "fallback_patterns =
     [(''gemini-3.1-pro'', ''gemini-3.1-pro''), (''gemini-3-1-pro'', ''gemini-3.1-pro''),
      (''deepseek-v4-flash'', ''deepseek-v4-flash''), (''deepseek-v4-pro'', ''deepseek-v4-pro''),
      (''deepseek-chat'', ''deepseek-v4-flash''), (''deepseek-reasoner'', ''deepseek-v4-flash''),
      (''glm-5.1'', ''glm-5.1''), (''glm-5-turbo'', ''glm-5-turbo''), (''glm-5turbo'', ''glm-5-turbo''), (''glm-5'', ''glm-5''),
      (''glm-4.7-flashx'', ''glm-4.7-flashx''), (''glm-4.7-flash'', ''glm-4.7-flash''), (''glm-4.7'', ''glm-4.7''),
      (''glm-4.6'', ''glm-4.6''), (''glm-4.5-flash'', ''glm-4.5-flash''), (''glm-4.5-x'', ''glm-4.5-x''), (''glm-4.5x'', ''glm-4.5-x''),
      (''glm-4.5-airx'', ''glm-4.5-airx''), (''glm-4.5airx'', ''glm-4.5-airx''), (''glm-4.5-air'', ''glm-4.5-air''),
      (''glm-4.5air'', ''glm-4.5-air''), (''glm-4.5'', ''glm-4.5''), (''glm-4-32b'', ''glm-4-32b-0414-128k''),
      (''kimi-for-coding'', ''kimi-for-coding''), (''kimi-k2.6'', ''kimi-k2.6''), (''kimi-k2-6'', ''kimi-k2.6''),
      (''kimi-k2.5'', ''kimi-k2.5''), (''kimi-k2-5'', ''kimi-k2.5''), (''kimi-k2-thinking'', ''kimi-k2-thinking''),
      (''kimi-k2'', ''kimi-k2''), (''kimi/k2'', ''kimi-k2''),
      (''minimax-m3'', ''minimax-m3''), (''minimax-m2.7-highspeed'', ''minimax-m2.7-highspeed''),
      (''minimax-m2-7-highspeed'', ''minimax-m2.7-highspeed''), (''minimax-m2.7'', ''minimax-m2.7''),
      (''minimax-m2-7'', ''minimax-m2.7''), (''minimax-m2.5'', ''minimax-m2.5''), (''minimax-m2-5'', ''minimax-m2.5''),
      (''minimax-m2.1'', ''minimax-m2.1''), (''minimax-m2-1'', ''minimax-m2.1''), (''minimax-m2'', ''minimax-m2''),
      (''minimax-m-2'', ''minimax-m2''), (''doubao-embedding-vision'', ''doubao-embedding-vision'')]"

definition claude_fallback :: "string \<Rightarrow> string" where
  "claude_fallback m =
     (if contains m ''opus'' then
        (if contains_any m [''4.7'', ''4-7''] then ''claude-opus-4.7'' else if contains_any m [''4.6'', ''4-6''] then ''claude-opus-4.6''
         else if contains_any m [''4.5'', ''4-5''] then ''claude-opus-4.5'' else ''claude-3-opus'')
      else if contains m ''sonnet'' then
        (if contains m ''4'' \<and> \<not> contains m ''3'' then ''claude-sonnet-4'' else ''claude-3-5-sonnet'')
      else if contains m ''haiku'' then
        (if contains_any m [''3-5'', ''3.5''] then ''claude-3-5-haiku'' else ''claude-3-haiku'')
      else if contains m ''claude'' then ''claude-sonnet-4''
      else [])"

definition openai_fallback :: "string \<Rightarrow> string" where
  "openai_fallback m = (let n = known_codex_model m in
     if n \<in> {''gpt-5.5'', ''gpt-5.4-mini'', ''gpt-5.4-nano'', ''gpt-5.4'', ''gpt-5.2''} then n
     else if n \<in> {''gpt-5.3-codex'', ''gpt-5.3-codex-spark''} then ''gpt-5.3-codex'' else [])"

definition grok_fallback :: "string \<Rightarrow> string" where
  "grok_fallback m = (if m \<in> {''grok'', ''grok-latest'', ''grok-4.3''} then ''grok-4.3''
     else if m \<in> {''grok-build'', ''grok-build-0.1''} then ''grok-build-0.1'' else [])"

definition first_name :: "string list \<Rightarrow> string" where
  "first_name ns = (case filter (\<lambda>n. n \<noteq> []) ns of [] \<Rightarrow> [] | n # _ \<Rightarrow> n)"

definition fallback_name :: "string \<Rightarrow> string" where
  "fallback_name m = (let m = to_lower m in
     first_name [claude_fallback m, first_family fallback_patterns m, openai_fallback m, grok_fallback m])"

subsection \<open>The price of a model\<close>

definition is_gpt54 :: "string \<Rightarrow> bool" where
  "is_gpt54 m \<longleftrightarrow> known_codex_model m \<in> {''gpt-5.4'', ''gpt-5.5''}"

definition needs_long_context :: "string \<Rightarrow> model_pricing \<Rightarrow> bool" where
  "needs_long_context m p \<longleftrightarrow>
     is_gpt54 m \<and> \<not> (0 < mp_long_threshold p \<and> 0 < mp_long_input p \<and> 0 < mp_long_output p)"

definition price_policy :: "string \<Rightarrow> model_pricing \<Rightarrow> model_pricing" where
  "price_policy m p =
     (if needs_long_context m p
      then p\<lparr>mp_long_threshold := (if mp_long_threshold p \<le> 0 then 272000 else mp_long_threshold p),
             mp_long_input := (if mp_long_input p \<le> 0 then 2 else mp_long_input p),
             mp_long_output := (if mp_long_output p \<le> 0 then 3 / 2 else mp_long_output p)\<rparr>
      else p)"

definition of_litellm :: "litellm \<Rightarrow> model_pricing" where
  "of_litellm l = no_price\<lparr>mp_input := ll_input l, mp_input_priority := ll_input_priority l, mp_output := ll_output l,
     mp_output_priority := ll_output_priority l, mp_cache_creation := ll_cache_creation l, mp_cache_read := ll_cache_read l,
     mp_cache_read_priority := ll_cache_read_priority l, mp_cache_5m := ll_cache_creation l,
     mp_cache_1h := ll_cache_creation_1h l,
     mp_breakdown := (0 < ll_cache_creation_1h l \<and> ll_cache_creation l < ll_cache_creation_1h l),
     mp_long_threshold := ll_long_threshold l, mp_long_input := ll_long_input l, mp_long_output := ll_long_output l,
     mp_image_output := ll_image_token l\<rparr>"

text \<open>The price with the address of its object, if it is one of the built-in ones.\<close>

definition get_model_pricing ::
    "price_list option \<Rightarrow> price_heap \<Rightarrow> string \<Rightarrow> (model_pricing \<times> string option) option" where
  "get_model_pricing dyn h name =
     (let m = to_lower name in
      (case Option.bind dyn (\<lambda>data. list_price data m) of
         Some l \<Rightarrow> Some (price_policy m (of_litellm l), None)
       | None \<Rightarrow> (let a = price_address (fallback_name m) in
           map_option (\<lambda>p. (price_policy m p, if needs_long_context m p then None else Some a)) (h a))))"

lemma fallback_examples:
  "fallback_name ''GLM-5.1-air'' = ''glm-5.1''" "price_address (fallback_name ''claude-opus-4-7'') = ''claude-opus-4.5''"
  "fallback_name ''gpt-4o'' = []" "fallback_name ''grok'' = ''grok-4.3''" "fallback_name ''openai/gpt-5-pro'' = ''gpt-5.4''"
  by code_simp+

text \<open>A Haiku 4.5 without an entry in the price list is charged as a Haiku 3, a fourth of its price.\<close>

lemma haiku_45_falls_to_haiku_3:
  "fallback_name ''claude-haiku-4-5-20251001'' = ''claude-3-haiku''"
  "rough_family ''claude-haiku-4-5-20251001'' = ''haiku-3''"
  "match_family claude_families ''claude-haiku-4-5-20251001'' = None"
  by code_simp+

end
