(* ===== verification/Cost.thy ===== *)
theory Cost
  imports PriceTable
begin

section \<open>What a request costs\<close>

text \<open>
  \<open>service/billing_service.go\<close> (the breakdown of a cost), \<open>service/model_pricing_resolver.go\<close> (the price
  of a model under the channel of a group) and the cost of a recorded request in
  \<open>service/gateway_service.go\<close>.  Every operation on a \<open>float64\<close> is rounded by \<open>double\<close>.  The price a channel
  sets for a model, looked up in the cache of the channel service, is a parameter; the built-in
  prices are a state, because the resolver writes into the object it was given.
\<close>

subsection \<open>Channel prices\<close>

record price_interval =
  pi_min :: int
  pi_max :: "int option"
  pi_label :: string
  pi_input :: "rat option"
  pi_output :: "rat option"
  pi_cache_write :: "rat option"
  pi_cache_read :: "rat option"
  pi_request :: "rat option"

record channel_price =
  cp_mode :: string
  cp_input :: "rat option"
  cp_output :: "rat option"
  cp_cache_write :: "rat option"
  cp_cache_read :: "rat option"
  cp_image_output :: "rat option"
  cp_request :: "rat option"
  cp_intervals :: "price_interval list"

definition valid_interval :: "price_interval \<Rightarrow> bool" where
  "valid_interval iv \<longleftrightarrow> pi_input iv \<noteq> None \<or> pi_output iv \<noteq> None \<or> pi_cache_write iv \<noteq> None \<or>
     pi_cache_read iv \<noteq> None \<or> pi_request iv \<noteq> None"

definition interval_fits :: "int \<Rightarrow> price_interval \<Rightarrow> bool" where
  "interval_fits n iv \<longleftrightarrow> pi_min iv < n \<and> (case pi_max iv of None \<Rightarrow> True | Some m \<Rightarrow> n \<le> m)"

definition find_interval :: "price_interval list \<Rightarrow> int \<Rightarrow> price_interval option" where
  "find_interval ivs n = find (interval_fits n) ivs"

definition set_input :: "rat option \<Rightarrow> model_pricing \<Rightarrow> model_pricing" where
  "set_input v p = (case v of None \<Rightarrow> p | Some x \<Rightarrow> p\<lparr>mp_input := x, mp_input_priority := x\<rparr>)"

definition set_output :: "rat option \<Rightarrow> model_pricing \<Rightarrow> model_pricing" where
  "set_output v p = (case v of None \<Rightarrow> p | Some x \<Rightarrow> p\<lparr>mp_output := x, mp_output_priority := x\<rparr>)"

definition set_cache_write :: "rat option \<Rightarrow> model_pricing \<Rightarrow> model_pricing" where
  "set_cache_write v p = (case v of None \<Rightarrow> p | Some x \<Rightarrow> p\<lparr>mp_cache_creation := x, mp_cache_5m := x, mp_cache_1h := x\<rparr>)"

definition set_cache_read :: "rat option \<Rightarrow> model_pricing \<Rightarrow> model_pricing" where
  "set_cache_read v p = (case v of None \<Rightarrow> p | Some x \<Rightarrow> p\<lparr>mp_cache_read := x, mp_cache_read_priority := x\<rparr>)"

definition or_zero :: "rat option \<Rightarrow> rat" where
  "or_zero v = (case v of None \<Rightarrow> 0 | Some x \<Rightarrow> x)"

definition set_image_output :: "rat option \<Rightarrow> model_pricing \<Rightarrow> model_pricing" where
  "set_image_output v p = p\<lparr>mp_image_output := or_zero v, mp_image_explicit := True\<rparr>"

definition flat_override :: "channel_price \<Rightarrow> model_pricing \<Rightarrow> model_pricing" where
  "flat_override ch p = set_image_output (cp_image_output ch) (set_cache_read (cp_cache_read ch)
     (set_cache_write (cp_cache_write ch) (set_output (cp_output ch) (set_input (cp_input ch) p))))"

definition interval_price :: "price_interval \<Rightarrow> bool \<Rightarrow> channel_price option \<Rightarrow> model_pricing" where
  "interval_price iv breakdown ch =
     (let p = set_cache_read (pi_cache_read iv) (set_cache_write (pi_cache_write iv)
        (set_output (pi_output iv) (set_input (pi_input iv) (no_price\<lparr>mp_breakdown := breakdown\<rparr>)))) in
      (case ch of None \<Rightarrow> p | Some c \<Rightarrow> set_image_output (cp_image_output c) p))"

subsection \<open>The resolver\<close>

record resolved_price =
  rp_mode :: string
  rp_base :: "model_pricing option"
  rp_intervals :: "price_interval list"
  rp_tiers :: "price_interval list"
  rp_default :: rat
  rp_source :: string
  rp_breakdown :: bool
  rp_channel :: "channel_price option"

text \<open>Writing to the base price writes to the object it came from.\<close>

definition write_base ::
    "string option \<Rightarrow> (model_pricing \<Rightarrow> model_pricing) \<Rightarrow> resolved_price \<times> price_heap \<Rightarrow> resolved_price \<times> price_heap" where
  "write_base adr f s = (case s of (r, h) \<Rightarrow>
     (case rp_base r of
        None \<Rightarrow> (r\<lparr>rp_base := Some (f no_price)\<rparr>, h)
      | Some p \<Rightarrow> (r\<lparr>rp_base := Some (f p)\<rparr>, case adr of None \<Rightarrow> h | Some a \<Rightarrow> h(a \<mapsto> f p))))"

definition token_overrides ::
    "channel_price \<Rightarrow> string option \<Rightarrow> resolved_price \<times> price_heap \<Rightarrow> resolved_price \<times> price_heap" where
  "token_overrides ch adr s =
     (let ivs = filter valid_interval (cp_intervals ch) in
      if ivs \<noteq> []
      then write_base adr (set_image_output (cp_image_output ch)) ((fst s)\<lparr>rp_intervals := ivs\<rparr>, snd s)
      else write_base adr (flat_override ch) s)"

definition tier_overrides :: "channel_price \<Rightarrow> resolved_price \<Rightarrow> resolved_price" where
  "tier_overrides ch r = r\<lparr>rp_tiers := filter valid_interval (cp_intervals ch),
     rp_default := (case cp_request ch of None \<Rightarrow> rp_default r | Some p \<Rightarrow> p)\<rparr>"

definition mode_of :: "channel_price \<Rightarrow> string" where
  "mode_of ch = (if cp_mode ch = [] then ''token'' else cp_mode ch)"

definition per_request :: "string \<Rightarrow> bool" where
  "per_request m \<longleftrightarrow> m \<in> {''per_request'', ''image''}"

definition blank_resolved :: "string \<Rightarrow> string \<Rightarrow> resolved_price" where
  "blank_resolved mode source = \<lparr>rp_mode = mode, rp_base = None, rp_intervals = [], rp_tiers = [], rp_default = 0,
     rp_source = source, rp_breakdown = False, rp_channel = None\<rparr>"

definition channel_overrides ::
    "channel_price option \<Rightarrow> string option \<Rightarrow> resolved_price \<times> price_heap \<Rightarrow> resolved_price \<times> price_heap" where
  "channel_overrides chan adr s = (case chan of
     None \<Rightarrow> s
   | Some ch \<Rightarrow>
       let r = (fst s)\<lparr>rp_source := ''channel'', rp_channel := Some ch, rp_mode := mode_of ch\<rparr> in
       if mode_of ch = ''token'' then token_overrides ch adr (r, snd s)
       else if per_request (mode_of ch) then (tier_overrides ch r, snd s)
       else (r, snd s))"

text \<open>\<open>Resolve\<close>: the channel's price is looked up once, and again if it was not found.\<close>

definition resolve ::
    "price_list option \<Rightarrow> bool \<Rightarrow> channel_price option \<Rightarrow> channel_price option \<Rightarrow> string \<Rightarrow> price_heap \<Rightarrow>
     resolved_price \<times> price_heap" where
  "resolve dyn in_group chan again model h =
     (let based = (case get_model_pricing dyn h model of
          None \<Rightarrow> (blank_resolved ''token'' ''fallback'', None)
        | Some (p, adr) \<Rightarrow> ((blank_resolved ''token'' ''litellm'')\<lparr>rp_base := Some p, rp_breakdown := mp_breakdown p\<rparr>, adr)) in
      (case (if in_group then chan else None) of
         Some ch \<Rightarrow>
           if per_request (mode_of ch)
           then (tier_overrides ch ((blank_resolved (mode_of ch) ''channel'')\<lparr>rp_channel := Some ch\<rparr>), h)
           else token_overrides ch (snd based) ((fst based)\<lparr>rp_source := ''channel'', rp_channel := Some ch\<rparr>, h)
       | None \<Rightarrow> channel_overrides (if in_group then again else None) (snd based) (fst based, h)))"

definition interval_pricing :: "resolved_price \<Rightarrow> int \<Rightarrow> model_pricing option" where
  "interval_pricing r n = (case find_interval (rp_intervals r) n of
     None \<Rightarrow> rp_base r
   | Some iv \<Rightarrow> Some (interval_price iv (rp_breakdown r) (rp_channel r)))"

definition tier_fits :: "string \<Rightarrow> price_interval \<Rightarrow> bool" where
  "tier_fits label t \<longleftrightarrow> pi_label t = label \<and> pi_request t \<noteq> None"

definition tier_price :: "resolved_price \<Rightarrow> string \<Rightarrow> rat" where
  "tier_price r label = (case find (tier_fits label) (rp_tiers r) of None \<Rightarrow> 0 | Some t \<Rightarrow> or_zero (pi_request t))"

definition tier_price_by_context :: "resolved_price \<Rightarrow> int \<Rightarrow> rat" where
  "tier_price_by_context r n = (case find_interval (rp_tiers r) n of None \<Rightarrow> 0 | Some t \<Rightarrow> or_zero (pi_request t))"

subsection \<open>The breakdown of a cost\<close>

record usage_tokens =
  tk_input :: int
  tk_image_input :: int
  tk_output :: int
  tk_cache_creation :: int
  tk_cache_read :: int
  tk_cache_5m :: int
  tk_cache_1h :: int
  tk_image_output :: int

definition no_tokens :: usage_tokens where
  "no_tokens = \<lparr>tk_input = 0, tk_image_input = 0, tk_output = 0, tk_cache_creation = 0, tk_cache_read = 0,
     tk_cache_5m = 0, tk_cache_1h = 0, tk_image_output = 0\<rparr>"

record cost =
  co_input :: rat
  co_output :: rat
  co_image_output :: rat
  co_cache_creation :: rat
  co_cache_read :: rat
  co_total :: rat
  co_actual :: rat
  co_mode :: string

definition no_cost :: cost where
  "no_cost = \<lparr>co_input = 0, co_output = 0, co_image_output = 0, co_cache_creation = 0, co_cache_read = 0,
     co_total = 0, co_actual = 0, co_mode = []\<rparr>"

definition fmul :: "rat \<Rightarrow> rat \<Rightarrow> rat" where
  "fmul a b = double (a * b)"

definition fadd :: "rat \<Rightarrow> rat \<Rightarrow> rat" where
  "fadd a b = double (a + b)"

definition count :: "int \<Rightarrow> rat" where
  "count n = double (of_int n)"

definition tier_name :: "string \<Rightarrow> string" where
  "tier_name t = to_lower (trim_space t)"

definition priority_prices :: "string \<Rightarrow> model_pricing \<Rightarrow> bool" where
  "priority_prices tier p \<longleftrightarrow> tier_name tier = ''priority'' \<and>
     (0 < mp_input_priority p \<or> 0 < mp_output_priority p \<or> 0 < mp_cache_read_priority p)"

definition tier_multiplier :: "string \<Rightarrow> rat" where
  "tier_multiplier t = (if tier_name t = ''priority'' then 2 else if tier_name t = ''flex'' then 1 / 2 else 1)"

definition long_context :: "usage_tokens \<Rightarrow> model_pricing \<Rightarrow> bool" where
  "long_context t p \<longleftrightarrow> 0 < mp_long_threshold p \<and> \<not> (mp_long_input p \<le> 1 \<and> mp_long_output p \<le> 1) \<and>
     mp_long_threshold p < tk_input t + tk_cache_read t"

definition cache_creation_cost :: "model_pricing \<Rightarrow> usage_tokens \<Rightarrow> rat \<Rightarrow> rat" where
  "cache_creation_cost p t m =
     (if mp_breakdown p \<and> (0 < mp_cache_5m p \<or> 0 < mp_cache_1h p) then
        (if tk_cache_5m t = 0 \<and> tk_cache_1h t = 0 \<and> 0 < tk_cache_creation t
         then fmul (fmul (count (tk_cache_creation t)) (mp_cache_5m p)) m
         else fadd (fmul (fmul (count (tk_cache_5m t)) (mp_cache_5m p)) m) (fmul (fmul (count (tk_cache_1h t)) (mp_cache_1h p)) m))
      else fmul (fmul (count (tk_cache_creation t)) (mp_cache_creation p)) m)"

text \<open>The unit prices of a request: input, output, cache reads, and the multiplier of cache writes.\<close>

definition preferred :: "bool \<Rightarrow> rat \<Rightarrow> rat \<Rightarrow> rat" where
  "preferred prio a b = (if prio \<and> 0 < a then a else b)"

definition input_price :: "model_pricing \<Rightarrow> bool \<Rightarrow> bool \<Rightarrow> rat" where
  "input_price p prio long = (let u = preferred prio (mp_input_priority p) (mp_input p) in if long then fmul u (mp_long_input p) else u)"

definition output_price :: "model_pricing \<Rightarrow> bool \<Rightarrow> bool \<Rightarrow> rat" where
  "output_price p prio long = (let u = preferred prio (mp_output_priority p) (mp_output p) in if long then fmul u (mp_long_output p) else u)"

definition cache_read_price :: "model_pricing \<Rightarrow> bool \<Rightarrow> bool \<Rightarrow> rat" where
  "cache_read_price p prio long =
     (let u = preferred prio (mp_cache_read_priority p) (mp_cache_read p) in if long then fmul u (mp_long_input p) else u)"

definition input_cost :: "model_pricing \<Rightarrow> usage_tokens \<Rightarrow> rat \<Rightarrow> rat" where
  "input_cost p t u =
     (if 0 < tk_image_input t then
        (let over = tk_input t < tk_image_input t;
             txt = (if over then 0 else tk_input t - tk_image_input t);
             img = (if over then tk_input t else tk_image_input t)
         in fadd (fmul (count txt) u) (fmul (count img) (if mp_image_input p = 0 then u else mp_image_input p)))
      else fmul (count (tk_input t)) u)"

definition image_output_cost :: "model_pricing \<Rightarrow> usage_tokens \<Rightarrow> rat \<Rightarrow> rat" where
  "image_output_cost p t u =
     (if 0 < tk_image_output t
      then fmul (count (tk_image_output t)) (if mp_image_output p = 0 \<and> \<not> mp_image_explicit p then u else mp_image_output p)
      else 0)"

definition scaled :: "rat \<Rightarrow> rat \<Rightarrow> rat" where
  "scaled m x = (if m \<noteq> 1 then fmul x m else x)"

definition sum_costs :: "rat \<Rightarrow> rat \<Rightarrow> rat \<Rightarrow> rat \<Rightarrow> rat \<Rightarrow> rat" where
  "sum_costs a b c d e = fadd (fadd (fadd (fadd a b) c) d) e"

definition token_breakdown :: "model_pricing \<Rightarrow> usage_tokens \<Rightarrow> rat \<Rightarrow> string \<Rightarrow> bool \<Rightarrow> cost" where
  "token_breakdown p t rate tier apply_long =
     (let prio = priority_prices tier p; m = (if prio then 1 else tier_multiplier tier);
          long = apply_long \<and> long_context t p;
          u = input_price p prio long; v = output_price p prio long;
          i = scaled m (input_cost p t u);
          out = scaled m (fmul (count (max 0 (tk_output t - tk_image_output t))) v);
          img = scaled m (image_output_cost p t v);
          cc = scaled m (cache_creation_cost p t (if long then mp_long_input p else 1));
          cr = scaled m (fmul (count (tk_cache_read t)) (cache_read_price p prio long));
          total = sum_costs i out img cc cr
      in \<lparr>co_input = i, co_output = out, co_image_output = img, co_cache_creation = cc, co_cache_read = cr,
          co_total = total, co_actual = fmul total (max 0 rate), co_mode = []\<rparr>)"

subsection \<open>The cost of a request\<close>

text \<open>
  \<open>CalculateCost\<close> and its variants.  \<open>None\<close> is \<open>ErrModelPricingUnavailable\<close>.
\<close>

definition calculate_cost ::
    "price_list option \<Rightarrow> price_heap \<Rightarrow> string \<Rightarrow> usage_tokens \<Rightarrow> rat \<Rightarrow> string \<Rightarrow> cost option" where
  "calculate_cost dyn h model t rate tier =
     map_option (\<lambda>p. token_breakdown (fst p) t rate tier True) (get_model_pricing dyn h model)"

definition add_costs :: "cost \<Rightarrow> cost \<Rightarrow> cost" where
  "add_costs a b = \<lparr>co_input = fadd (co_input a) (co_input b), co_output = co_output a, co_image_output = co_image_output a,
     co_cache_creation = co_cache_creation a, co_cache_read = fadd (co_cache_read a) (co_cache_read b),
     co_total = fadd (co_total a) (co_total b), co_actual = fadd (co_actual a) (co_actual b), co_mode = []\<rparr>"

text \<open>The tokens within the threshold and those beyond it; cached tokens fill the range first.\<close>

definition tokens_within :: "int \<Rightarrow> usage_tokens \<Rightarrow> usage_tokens" where
  "tokens_within limit t = no_tokens\<lparr>tk_input := (if limit \<le> tk_cache_read t then 0 else limit - tk_cache_read t),
     tk_output := tk_output t, tk_cache_creation := tk_cache_creation t,
     tk_cache_read := (if limit \<le> tk_cache_read t then limit else tk_cache_read t),
     tk_cache_5m := tk_cache_5m t, tk_cache_1h := tk_cache_1h t, tk_image_output := tk_image_output t\<rparr>"

definition tokens_beyond :: "int \<Rightarrow> usage_tokens \<Rightarrow> usage_tokens" where
  "tokens_beyond limit t = no_tokens\<lparr>
     tk_input := (if limit \<le> tk_cache_read t then tk_input t else tk_input t - (limit - tk_cache_read t)),
     tk_cache_read := (if limit \<le> tk_cache_read t then tk_cache_read t - limit else 0)\<rparr>"

definition long_context_cost ::
    "price_list option \<Rightarrow> price_heap \<Rightarrow> string \<Rightarrow> usage_tokens \<Rightarrow> rat \<Rightarrow> int \<Rightarrow> rat \<Rightarrow> cost option" where
  "long_context_cost dyn h model t rate limit extra =
     (if limit \<le> 0 \<or> extra \<le> 1 \<or> tk_cache_read t + tk_input t \<le> limit then calculate_cost dyn h model t rate []
      else (case calculate_cost dyn h model (tokens_within limit t) rate [] of
        None \<Rightarrow> None
      | Some a \<Rightarrow> map_option (add_costs a) (calculate_cost dyn h model (tokens_beyond limit t) (fmul rate extra) [])))"

definition per_request_cost :: "resolved_price \<Rightarrow> usage_tokens \<Rightarrow> int \<Rightarrow> string \<Rightarrow> rat \<Rightarrow> cost" where
  "per_request_cost r t n label rate =
     (let by_label = (if label = [] then 0 else tier_price r label);
          by_context = (if by_label = 0 then tier_price_by_context r (tk_input t + tk_cache_read t) else by_label);
          unit = (if by_context = 0 then rp_default r else by_context);
          total = fmul unit (count (if n \<le> 0 then 1 else n))
      in no_cost\<lparr>co_total := total, co_actual := fmul total rate\<rparr>)"

definition resolved_token_cost :: "string \<Rightarrow> resolved_price \<Rightarrow> usage_tokens \<Rightarrow> rat \<Rightarrow> string \<Rightarrow> cost option" where
  "resolved_token_cost model r t rate tier =
     map_option (\<lambda>p. token_breakdown (price_policy model p) t rate tier (rp_intervals r = []))
       (interval_pricing r (tk_input t + tk_cache_read t))"

definition unified_cost ::
    "string \<Rightarrow> resolved_price \<Rightarrow> usage_tokens \<Rightarrow> int \<Rightarrow> string \<Rightarrow> rat \<Rightarrow> string \<Rightarrow> cost option" where
  "unified_cost model r t n label rate tier =
     (let rate = max 0 rate; mode = (if rp_mode r = [] then ''token'' else rp_mode r) in
      map_option (\<lambda>c. c\<lparr>co_mode := mode\<rparr>)
        (if per_request (rp_mode r) then Some (per_request_cost r t n label rate)
         else resolved_token_cost model r t rate tier))"

subsection \<open>Images\<close>

definition signed_digits :: "string \<Rightarrow> int option" where
  "signed_digits s = (let d = (if has_prefix s ''+'' \<or> has_prefix s ''-'' then tl s else s) in
     if d = [] \<or> \<not> is_numeric d then None
     else let v = (if has_prefix s ''-'' then - digits_val d else digits_val d) in if in_int64 v then Some v else None)"

definition image_dimensions :: "string \<Rightarrow> (int \<times> int) option" where
  "image_dimensions sz = (case split_on CHR ''x'' (to_lower (trim_space sz)) of
     [a, b] \<Rightarrow> (case (signed_digits (trim_space a), signed_digits (trim_space b)) of
       (Some w, Some h) \<Rightarrow> if w \<le> 0 \<or> h \<le> 0 then None else Some (w, h)
     | _ \<Rightarrow> None)
   | _ \<Rightarrow> None)"

definition image_tier :: "string \<Rightarrow> string option" where
  "image_tier sz = (let n = to_lower (trim_space sz) in
     if n = [] \<or> n = ''auto'' then None
     else if n = ''1k'' then Some ''1K''
     else if n = ''2k'' then Some ''2K''
     else if n = ''4k'' then Some ''4K''
     else if n \<in> {''2048x2048'', ''2048x1152''} then Some ''2K''
     else if n \<in> {''3840x2160'', ''2160x3840''} then Some ''4K''
     else map_option (\<lambda>(w, h). if max w h \<le> 1024 then ''1K'' else if max w h \<le> 2048 then ''2K'' else ''4K'')
       (image_dimensions (trim_space sz)))"

definition image_tier_or_default :: "string \<Rightarrow> string" where
  "image_tier_or_default sz = (case image_tier sz of None \<Rightarrow> ''2K'' | Some t \<Rightarrow> t)"

record image_prices =
  ip_1k :: "rat option"
  ip_2k :: "rat option"
  ip_4k :: "rat option"

definition default_image_price :: "price_list option \<Rightarrow> string \<Rightarrow> string \<Rightarrow> rat" where
  "default_image_price dyn model sz =
     (let listed = (case Option.bind dyn (\<lambda>data. list_price data model) of None \<Rightarrow> 0 | Some l \<Rightarrow> ll_image l);
          base = (if 0 < listed then listed else usd 134 3)
      in if sz = ''2K'' then fmul base (3 / 2) else if sz = ''4K'' then fmul base 2 else base)"

definition image_unit_price :: "price_list option \<Rightarrow> string \<Rightarrow> string \<Rightarrow> image_prices option \<Rightarrow> rat" where
  "image_unit_price dyn model sz cfg =
     (case Option.bind cfg (\<lambda>c. if sz = ''1K'' then ip_1k c else if sz = ''2K'' then ip_2k c
          else if sz = ''4K'' then ip_4k c else None) of
        Some p \<Rightarrow> p
      | None \<Rightarrow> default_image_price dyn model sz)"

definition image_cost :: "price_list option \<Rightarrow> string \<Rightarrow> string \<Rightarrow> int \<Rightarrow> image_prices option \<Rightarrow> rat \<Rightarrow> cost" where
  "image_cost dyn model sz n cfg rate =
     (if n \<le> 0 then no_cost
      else let total = fmul (image_unit_price dyn model (image_tier_or_default sz) cfg) (count n) in
        no_cost\<lparr>co_total := total, co_actual := fmul total (max 0 rate), co_mode := ''image''\<rparr>)"

subsection \<open>The cost of a recorded request\<close>

record request_usage =
  qu_tokens :: usage_tokens
  qu_images :: int
  qu_image_size :: string
  qu_model :: string

record key_group =
  kg_prices :: "channel_price option"
  kg_again :: "channel_price option"
  kg_images :: image_prices

text \<open>
  \<open>calculateRecordUsageCost\<close>: the group of the key, with what the channel service answers for the model;
  \<open>limit\<close> and \<open>extra\<close> are the long-context options, 0 where there are none.  A request whose price is
  unknown costs nothing.
\<close>

definition channel_pricing ::
    "price_list option \<Rightarrow> key_group option \<Rightarrow> string \<Rightarrow> price_heap \<Rightarrow> resolved_price option \<times> price_heap" where
  "channel_pricing dyn g model h = (case g of
     None \<Rightarrow> (None, h)
   | Some g \<Rightarrow> (case resolve dyn True (kg_prices g) (kg_again g) model h of
       (r, h1) \<Rightarrow> (if rp_source r = ''channel'' then Some r else None, h1)))"

definition or_free :: "cost option \<Rightarrow> cost" where
  "or_free c = (case c of None \<Rightarrow> no_cost | Some c \<Rightarrow> c)"

definition record_token_cost ::
    "price_list option \<Rightarrow> key_group option \<Rightarrow> request_usage \<Rightarrow> rat \<Rightarrow> int \<Rightarrow> rat \<Rightarrow> price_heap \<Rightarrow> cost \<times> price_heap" where
  "record_token_cost dyn g q rate limit extra h =
     (let t = (qu_tokens q)\<lparr>tk_image_input := 0\<rparr> in
      (case channel_pricing dyn g (qu_model q) h of
         (Some r, h1) \<Rightarrow> (or_free (unified_cost (qu_model q) r t 1 [] rate []), h1)
       | (None, h1) \<Rightarrow> (or_free (if 0 < limit then long_context_cost dyn h1 (qu_model q) t rate limit extra
            else calculate_cost dyn h1 (qu_model q) t rate []), h1)))"

definition record_image_cost ::
    "price_list option \<Rightarrow> key_group option \<Rightarrow> request_usage \<Rightarrow> rat \<Rightarrow> price_heap \<Rightarrow> cost \<times> price_heap" where
  "record_image_cost dyn g q rate h =
     (let sz = image_tier_or_default (qu_image_size q);
          t = no_tokens\<lparr>tk_input := tk_input (qu_tokens q), tk_output := tk_output (qu_tokens q),
            tk_image_output := tk_image_output (qu_tokens q)\<rparr> in
      (case channel_pricing dyn g (qu_model q) h of
         (Some r, h1) \<Rightarrow> (or_free (unified_cost (qu_model q) r t (qu_images q) sz rate []), h1)
       | (None, h1) \<Rightarrow> (image_cost dyn (qu_model q) sz (qu_images q) (map_option kg_images g) rate, h1)))"

definition record_usage_cost ::
    "price_list option \<Rightarrow> key_group option \<Rightarrow> request_usage \<Rightarrow> rat \<Rightarrow> rat \<Rightarrow> int \<Rightarrow> rat \<Rightarrow> price_heap \<Rightarrow> cost \<times> price_heap" where
  "record_usage_cost dyn g q rate image_rate limit extra h =
     (if 0 < qu_images q then
        (case channel_pricing dyn g (qu_model q) h of
           (r, h1) \<Rightarrow> if (case r of None \<Rightarrow> False | Some r \<Rightarrow> rp_mode r = ''token'')
             then record_token_cost dyn g q rate limit extra h1
             else record_image_cost dyn g q image_rate h1)
      else record_token_cost dyn g q rate limit extra h)"

end
