(* ===== verification/CostProps.thy ===== *)
theory CostProps
  imports Cost
begin

section \<open>Properties of the costs\<close>

text \<open>
  Bounds and monotonicity of the cost breakdown under the roundings of \<open>float64\<close>, the soundness of the
  price tables, and what a price lookup under a channel does to the built-in prices.
\<close>

subsection \<open>Rounded sums and products\<close>

lemma fmul_double [simp]: "double (fmul a b) = fmul a b"
  by (simp add: fmul_def)

lemma fadd_double [simp]: "double (fadd a b) = fadd a b"
  by (simp add: fadd_def)

lemma fmul_nonneg [simp, intro]: "0 \<le> a \<Longrightarrow> 0 \<le> b \<Longrightarrow> 0 \<le> fmul a b"
  by (simp add: fmul_def double_nonneg)

lemma fadd_nonneg [simp, intro]: "0 \<le> a \<Longrightarrow> 0 \<le> b \<Longrightarrow> 0 \<le> fadd a b"
  by (simp add: fadd_def double_nonneg)

lemma count_nonneg [simp, intro]: "0 \<le> n \<Longrightarrow> 0 \<le> count n"
  by (simp add: count_def double_nonneg)

lemma count_mono: "m \<le> n \<Longrightarrow> count m \<le> count n"
  by (simp add: count_def double_mono)

lemma fmul_mono: "0 \<le> a \<Longrightarrow> a \<le> a' \<Longrightarrow> 0 \<le> b \<Longrightarrow> b \<le> b' \<Longrightarrow> fmul a b \<le> fmul a' b'"
  by (simp add: fmul_def double_mono mult_mono)

lemma fadd_mono: "a \<le> a' \<Longrightarrow> b \<le> b' \<Longrightarrow> fadd a b \<le> fadd a' b'"
  by (simp add: fadd_def double_mono)

lemma fadd_above: "double a = a \<Longrightarrow> 0 \<le> b \<Longrightarrow> a \<le> fadd a b" "double b = b \<Longrightarrow> 0 \<le> a \<Longrightarrow> b \<le> fadd a b"
  using double_mono [of a "a + b"] double_mono [of b "a + b"] by (simp_all add: fadd_def)

lemma fmul_above: "double a = a \<Longrightarrow> 0 \<le> a \<Longrightarrow> 1 \<le> b \<Longrightarrow> a \<le> fmul a b"
  using double_mono [of a "a * b"] mult_left_mono [of 1 b a] by (simp add: fmul_def)

lemma fmul_below: "double a = a \<Longrightarrow> 0 \<le> a \<Longrightarrow> b \<le> 1 \<Longrightarrow> fmul a b \<le> a"
  using double_mono [of "a * b" a] mult_left_mono [of b 1 a] by (simp add: fmul_def)

text \<open>Prices and multipliers that are numbers of \<open>float64\<close>, none negative; amounts that are not negative.\<close>

definition rates :: "model_pricing \<Rightarrow> rat list" where
  "rates p = [mp_input p, mp_image_input p, mp_input_priority p, mp_output p, mp_output_priority p, mp_cache_creation p,
     mp_cache_read p, mp_cache_read_priority p, mp_cache_5m p, mp_cache_1h p, mp_long_input p, mp_long_output p,
     mp_image_output p]"

definition sound_price :: "model_pricing \<Rightarrow> bool" where
  "sound_price p \<longleftrightarrow> list_all (\<lambda>x. 0 \<le> x \<and> double x = x) (rates p)"

definition amounts :: "usage_tokens \<Rightarrow> int list" where
  "amounts t = [tk_input t, tk_image_input t, tk_output t, tk_cache_creation t, tk_cache_read t, tk_cache_5m t, tk_cache_1h t,
     tk_image_output t]"

definition sound_tokens :: "usage_tokens \<Rightarrow> bool" where
  "sound_tokens t \<longleftrightarrow> list_all (\<lambda>n. 0 \<le> n) (amounts t)"

lemmas sound_defs = sound_price_def rates_def sound_tokens_def amounts_def

lemma scaled_nonneg [simp, intro]: "0 \<le> m \<Longrightarrow> 0 \<le> x \<Longrightarrow> 0 \<le> scaled m x"
  by (simp add: scaled_def)

lemma scaled_double [simp]: "double x = x \<Longrightarrow> double (scaled m x) = scaled m x"
  by (simp add: scaled_def)

lemma scaled_mono: "0 \<le> m \<Longrightarrow> 0 \<le> x \<Longrightarrow> x \<le> y \<Longrightarrow> scaled m x \<le> scaled m y"
  by (simp add: scaled_def fmul_mono)

lemma tier_multiplier_nonneg [simp]: "0 \<le> tier_multiplier t"
  by (simp add: tier_multiplier_def)

lemma preferred_sound: "sound_price p \<Longrightarrow> 0 \<le> preferred prio (mp_input_priority p) (mp_input p)"
  "sound_price p \<Longrightarrow> 0 \<le> preferred prio (mp_output_priority p) (mp_output p)"
  "sound_price p \<Longrightarrow> 0 \<le> preferred prio (mp_cache_read_priority p) (mp_cache_read p)"
  by (simp_all add: preferred_def sound_defs)

lemma price_sound [simp]: "sound_price p \<Longrightarrow> 0 \<le> input_price p prio long" "sound_price p \<Longrightarrow> 0 \<le> output_price p prio long"
  "sound_price p \<Longrightarrow> 0 \<le> cache_read_price p prio long"
  by (auto simp: input_price_def output_price_def cache_read_price_def Let_def preferred_sound intro!: fmul_nonneg)
    (simp_all add: sound_defs)

lemma input_cost_sound: "sound_price p \<Longrightarrow> sound_tokens t \<Longrightarrow> 0 \<le> u \<Longrightarrow> 0 \<le> input_cost p t u"
  by (simp add: input_cost_def Let_def sound_defs)

lemma input_cost_double [simp]: "double (input_cost p t u) = input_cost p t u"
  by (simp add: input_cost_def Let_def)

lemma image_output_cost_sound: "sound_price p \<Longrightarrow> sound_tokens t \<Longrightarrow> 0 \<le> u \<Longrightarrow> 0 \<le> image_output_cost p t u"
  by (simp add: image_output_cost_def sound_defs)

lemma image_output_cost_double [simp]: "double (image_output_cost p t u) = image_output_cost p t u"
  by (simp add: image_output_cost_def)

lemma cache_creation_cost_sound:
  "sound_price p \<Longrightarrow> sound_tokens t \<Longrightarrow> 0 \<le> m \<Longrightarrow> 0 \<le> cache_creation_cost p t m"
  by (simp add: cache_creation_cost_def sound_defs)

lemma cache_creation_cost_double [simp]: "double (cache_creation_cost p t m) = cache_creation_cost p t m"
  by (simp add: cache_creation_cost_def)

lemma sum_costs_above:
  assumes "0 \<le> a" "0 \<le> b" "0 \<le> c" "0 \<le> d" "0 \<le> e"
    and "double a = a" "double b = b" "double c = c" "double d = d" "double e = e"
  shows "a \<le> sum_costs a b c d e \<and> b \<le> sum_costs a b c d e \<and> c \<le> sum_costs a b c d e \<and> d \<le> sum_costs a b c d e \<and>
    e \<le> sum_costs a b c d e"
proof -
  let ?x = "fadd a b" let ?y = "fadd ?x c" let ?z = "fadd ?y d"
  have n: "0 \<le> ?x" "0 \<le> ?y" "0 \<le> ?z"
    using assms by auto
  have "a \<le> ?x" "b \<le> ?x" "?x \<le> ?y" "c \<le> ?y" "?y \<le> ?z" "d \<le> ?z" "?z \<le> fadd ?z e" "e \<le> fadd ?z e"
    using assms n by (simp_all add: fadd_above)
  then show ?thesis
    unfolding sum_costs_def by linarith
qed

lemma sum_costs_mono:
  "a \<le> a' \<Longrightarrow> b \<le> b' \<Longrightarrow> c \<le> c' \<Longrightarrow> d \<le> d' \<Longrightarrow> e \<le> e' \<Longrightarrow> sum_costs a b c d e \<le> sum_costs a' b' c' d' e'"
  by (simp add: sum_costs_def fadd_mono)

lemma sum_costs_nonneg: "0 \<le> a \<Longrightarrow> 0 \<le> b \<Longrightarrow> 0 \<le> c \<Longrightarrow> 0 \<le> d \<Longrightarrow> 0 \<le> e \<Longrightarrow> 0 \<le> sum_costs a b c d e"
  by (simp add: sum_costs_def)

lemma sum_costs_double [simp]: "double (sum_costs a b c d e) = sum_costs a b c d e"
  by (simp add: sum_costs_def)

lemma breakdown_bounds:
  assumes "sound_price p" and "sound_tokens t" and "c = token_breakdown p t rate tier long"
  shows "0 \<le> co_input c \<and> co_input c \<le> co_total c" "0 \<le> co_output c \<and> co_output c \<le> co_total c"
    "0 \<le> co_image_output c \<and> co_image_output c \<le> co_total c"
    "0 \<le> co_cache_creation c \<and> co_cache_creation c \<le> co_total c"
    "0 \<le> co_cache_read c \<and> co_cache_read c \<le> co_total c"
    "0 \<le> co_actual c" "rate \<le> 1 \<Longrightarrow> co_actual c \<le> co_total c" "rate \<le> 0 \<Longrightarrow> co_actual c = 0"
    "double (co_total c) = co_total c" "co_total c = 0 \<longrightarrow> co_actual c = 0"
proof -
  have long: "0 \<le> mp_long_input p"
    using assms(1) by (simp add: sound_defs)
  note parts = input_cost_sound [OF assms(1,2)] image_output_cost_sound [OF assms(1,2)] cache_creation_cost_sound [OF assms(1,2)]
  note [simp] = assms(1) parts long
  have tok: "0 \<le> tk_cache_read t"
    using assms(2) by (simp add: sound_defs)
  note c = assms(3) [unfolded token_breakdown_def Let_def]
  define m where "m = (if priority_prices tier p then 1 else tier_multiplier tier)"
  have [simp]: "0 \<le> m"
    by (simp add: m_def)
  note c' = c [folded m_def]
  have "0 \<le> co_input c \<and> 0 \<le> co_output c \<and> 0 \<le> co_image_output c \<and> 0 \<le> co_cache_creation c \<and> 0 \<le> co_cache_read c"
    using tok by (simp add: c')
  moreover have "double (co_input c) = co_input c \<and> double (co_output c) = co_output c \<and>
      double (co_image_output c) = co_image_output c \<and> double (co_cache_creation c) = co_cache_creation c \<and>
      double (co_cache_read c) = co_cache_read c"
    by (simp add: c')
  moreover have total: "co_total c = sum_costs (co_input c) (co_output c) (co_image_output c) (co_cache_creation c) (co_cache_read c)"
    "co_actual c = fmul (co_total c) (max 0 rate)"
    by (simp_all add: c')
  ultimately show "0 \<le> co_input c \<and> co_input c \<le> co_total c" "0 \<le> co_output c \<and> co_output c \<le> co_total c"
    "0 \<le> co_image_output c \<and> co_image_output c \<le> co_total c"
    "0 \<le> co_cache_creation c \<and> co_cache_creation c \<le> co_total c"
    "0 \<le> co_cache_read c \<and> co_cache_read c \<le> co_total c"
    "0 \<le> co_actual c" "rate \<le> 1 \<Longrightarrow> co_actual c \<le> co_total c" "rate \<le> 0 \<Longrightarrow> co_actual c = 0"
    "double (co_total c) = co_total c" "co_total c = 0 \<longrightarrow> co_actual c = 0"
    using sum_costs_above [of "co_input c" "co_output c" "co_image_output c" "co_cache_creation c" "co_cache_read c"]
      sum_costs_nonneg [of "co_input c" "co_output c" "co_image_output c" "co_cache_creation c" "co_cache_read c"]
    by (auto intro!: fmul_below) (auto simp: fmul_def max_def)
qed


text \<open>A surcharge that is one.\<close>

definition surcharge :: "model_pricing \<Rightarrow> bool" where
  "surcharge p \<longleftrightarrow> mp_long_threshold p \<le> 0 \<or> (1 \<le> mp_long_input p \<and> 1 \<le> mp_long_output p)"

definition at_least :: "usage_tokens \<Rightarrow> usage_tokens \<Rightarrow> bool" where
  "at_least t t' \<longleftrightarrow> tk_input t \<le> tk_input t' \<and> tk_output t \<le> tk_output t' \<and> tk_cache_read t \<le> tk_cache_read t' \<and>
     tk_cache_creation t \<le> tk_cache_creation t' \<and> tk_image_input t = tk_image_input t' \<and>
     tk_image_output t = tk_image_output t' \<and> tk_cache_5m t = tk_cache_5m t' \<and> tk_cache_1h t = tk_cache_1h t'"

lemma preferred_double:
  assumes "sound_price p"
  shows "double (preferred prio (mp_input_priority p) (mp_input p)) = preferred prio (mp_input_priority p) (mp_input p)"
    "double (preferred prio (mp_output_priority p) (mp_output p)) = preferred prio (mp_output_priority p) (mp_output p)"
    "double (preferred prio (mp_cache_read_priority p) (mp_cache_read p)) = preferred prio (mp_cache_read_priority p) (mp_cache_read p)"
  using assms by (simp_all add: preferred_def sound_defs)

lemma price_long:
  assumes "sound_price p" and "1 \<le> mp_long_input p" and "1 \<le> mp_long_output p"
  shows "input_price p prio False \<le> input_price p prio True" "output_price p prio False \<le> output_price p prio True"
    "cache_read_price p prio False \<le> cache_read_price p prio True"
  using assms by (simp_all add: input_price_def output_price_def cache_read_price_def Let_def preferred_sound preferred_double fmul_above)

lemma price_mono:
  assumes "sound_price p" and "surcharge p" and "long \<longrightarrow> long' \<and> 0 < mp_long_threshold p" and "long' \<longrightarrow> 0 < mp_long_threshold p"
  shows "input_price p prio long \<le> input_price p prio long'" "output_price p prio long \<le> output_price p prio long'"
    "cache_read_price p prio long \<le> cache_read_price p prio long'"
  using assms price_long [OF assms(1), of prio] by (cases long; cases long'; auto simp: surcharge_def)+

lemma input_cost_mono:
  assumes "sound_price p" "sound_tokens t" "at_least t t'" "0 \<le> u" "u \<le> u'"
  shows "input_cost p t u \<le> input_cost p t' u'"
  using assms by (auto simp: input_cost_def Let_def at_least_def sound_defs intro!: fadd_mono fmul_mono count_mono)

lemma image_output_cost_mono:
  assumes "sound_price p" "sound_tokens t" "at_least t t'" "0 \<le> u" "u \<le> u'"
  shows "image_output_cost p t u \<le> image_output_cost p t' u'"
  using assms by (auto simp: image_output_cost_def at_least_def sound_defs intro!: fmul_mono)


lemma zero_costs [simp]: "count 0 = 0" "fmul 0 a = 0" "fadd 0 0 = 0"
  by (simp_all add: count_def fmul_def fadd_def)

lemma cache_creation_cost_mono:
  assumes "sound_price p" "sound_tokens t" "at_least t t'" "0 \<le> m" "m \<le> m'"
  shows "cache_creation_cost p t m \<le> cache_creation_cost p t' m'"
proof -
  have s: "0 \<le> mp_cache_5m p" "0 \<le> mp_cache_1h p" "0 \<le> mp_cache_creation p" "0 \<le> tk_cache_creation t" "0 \<le> tk_cache_5m t"
    "0 \<le> tk_cache_1h t"
    using assms by (simp_all add: sound_defs)
  have t: "tk_cache_creation t \<le> tk_cache_creation t'" "tk_cache_5m t' = tk_cache_5m t" "tk_cache_1h t' = tk_cache_1h t"
    using assms by (simp_all add: at_least_def)
  have each: "fmul (fmul (count n) a) m \<le> fmul (fmul (count n') a) m'" if "0 \<le> n" "n \<le> n'" "0 \<le> a" for n n' a
    using that assms(4,5) by (intro fmul_mono fmul_nonneg count_nonneg count_mono) simp_all
  show ?thesis
  proof (cases "mp_breakdown p \<and> (0 < mp_cache_5m p \<or> 0 < mp_cache_1h p)")
    case False
    with each [OF s(4) t(1) s(3)] show ?thesis
      by (simp only: cache_creation_cost_def if_False)
  next
    case True
    note detail = fadd_mono [OF each [OF s(5) order_refl s(1)] each [OF s(6) order_refl s(2)]]
    consider "tk_cache_5m t = 0" "tk_cache_1h t = 0" "0 < tk_cache_creation t"
      | "tk_cache_5m t = 0" "tk_cache_1h t = 0" "tk_cache_creation t = 0" | "\<not> (tk_cache_5m t = 0 \<and> tk_cache_1h t = 0)"
      using s(4) by linarith
    then show ?thesis
    proof cases
      case 1
      with each [OF s(4) t(1) s(1)] t True show ?thesis
        by (simp add: cache_creation_cost_def)
    next
      case 2
      then have "cache_creation_cost p t m = 0"
        using True by (simp add: cache_creation_cost_def)
      moreover have "0 \<le> cache_creation_cost p t' m'"
        using s t assms(4,5) by (simp add: cache_creation_cost_def)
      ultimately show ?thesis
        by simp
    next
      case 3
      with detail t True show ?thesis
        by (simp only: cache_creation_cost_def if_True if_False) auto
    qed
  qed
qed



subsection \<open>Sound prices\<close>

definition sound_listing :: "litellm \<Rightarrow> bool" where
  "sound_listing l \<longleftrightarrow> sound_price (of_litellm l) \<and> 0 \<le> ll_image l"

definition sound_list :: "price_list option \<Rightarrow> bool" where
  "sound_list dyn \<longleftrightarrow> (\<forall>data. dyn = Some data \<longrightarrow> list_all (\<lambda>e. sound_listing (snd e)) data)"

definition sound_heap :: "price_heap \<Rightarrow> bool" where
  "sound_heap h \<longleftrightarrow> (\<forall>a p. h a = Some p \<longrightarrow> sound_price p)"

lemma usd_sound [simp]: "0 \<le> m \<Longrightarrow> 0 \<le> usd m k" "double (usd m k) = usd m k"
  by (simp_all add: usd_def double_nonneg)

lemma double_small [simp]: "double 1 = 1" "double 2 = 2" "double (3 / 2) = 3 / 2" "double (1 / 2) = 1 / 2"
  by code_simp+

lemma first_in_member: "first_in data cs = Some l \<Longrightarrow> l \<in> snd ` set data"
  by (induction cs) (auto split: option.splits dest: map_of_SomeD intro: rev_image_eqI)

lemma visit_member: "visit f data = Some l \<Longrightarrow> l \<in> snd ` set data"
  by (induction f data rule: visit.induct) (auto split: if_splits)

lemma visit_patterns_member: "visit_patterns data ps = Some l \<Longrightarrow> l \<in> snd ` set data"
  by (induction ps) (auto split: option.splits dest: visit_member)

lemma by_family_member: "by_family data m = Some l \<Longrightarrow> l \<in> snd ` set data"
  by (auto simp: by_family_def split: option.splits dest: visit_patterns_member)

lemma map_of_member: "map_of data k = Some l \<Longrightarrow> l \<in> snd ` set data"
  by (auto dest: map_of_SomeD intro: rev_image_eqI)

lemma or_try_cases: "or_try x y = Some l \<Longrightarrow> x = Some l \<or> y = Some l"
  by (auto simp: or_try_def split: option.splits)

definition builtin_listings :: "litellm set" where
  "builtin_listings = {gpt54_prices, gpt54_mini_prices, gpt54_nano_prices}"

lemma by_openai_member: "by_openai data m = Some l \<Longrightarrow> l \<in> snd ` set data \<union> builtin_listings"
  by (auto simp: by_openai_def builtin_listings_def simp del: first_in.simps dest!: or_try_cases
      split: if_splits dest: map_of_member first_in_member)

lemma list_price_member: "list_price data name = Some l \<Longrightarrow> l \<in> snd ` set data \<union> builtin_listings"
  by (auto simp: list_price_def Let_def dest!: or_try_cases split: if_splits
      dest: first_in_member visit_member by_family_member by_openai_member)

lemma builtin_sound: "l \<in> builtin_listings \<Longrightarrow> sound_listing l"
  by (auto simp: builtin_listings_def sound_listing_def gpt54_prices_def gpt54_mini_prices_def gpt54_nano_prices_def
      openai_chat_def of_litellm_def sound_defs no_price_def)

lemma list_price_sound: "sound_list (Some data) \<Longrightarrow> list_price data name = Some l \<Longrightarrow> sound_listing l"
  using list_price_member [of data name l] by (auto simp: sound_list_def list_all_iff builtin_sound)

lemma fallback_prices_sound: "list_all (\<lambda>e. sound_price (snd e)) fallback_prices"
  by (simp add: fallback_prices_def sound_defs no_price_def)

lemma initial_prices_sound: "sound_heap initial_prices"
  using fallback_prices_sound by (fastforce simp: sound_heap_def initial_prices_def list_all_iff dest: map_of_SomeD)

lemma price_policy_sound: "sound_price p \<Longrightarrow> sound_price (price_policy m p)"
  by (simp add: price_policy_def sound_defs)

lemma get_model_pricing_sound:
  "sound_list dyn \<Longrightarrow> sound_heap h \<Longrightarrow> get_model_pricing dyn h m = Some (p, adr) \<Longrightarrow> sound_price p"
  by (auto simp: get_model_pricing_def Let_def sound_heap_def sound_listing_def Option.bind_eq_Some_conv
      split: option.splits dest!: list_price_sound intro!: price_policy_sound)


subsection \<open>Sound resolved prices\<close>

definition sound_rate :: "rat option \<Rightarrow> bool" where
  "sound_rate v \<longleftrightarrow> (\<forall>x. v = Some x \<longrightarrow> 0 \<le> x \<and> double x = x)"

definition sound_interval :: "price_interval \<Rightarrow> bool" where
  "sound_interval iv \<longleftrightarrow> list_all sound_rate [pi_input iv, pi_output iv, pi_cache_write iv, pi_cache_read iv, pi_request iv]"

definition sound_channel :: "channel_price \<Rightarrow> bool" where
  "sound_channel ch \<longleftrightarrow> list_all sound_rate [cp_input ch, cp_output ch, cp_cache_write ch, cp_cache_read ch,
     cp_image_output ch, cp_request ch] \<and> list_all sound_interval (cp_intervals ch)"

definition sound_resolved :: "resolved_price \<Rightarrow> bool" where
  "sound_resolved r \<longleftrightarrow> (\<forall>p. rp_base r = Some p \<longrightarrow> sound_price p) \<and> list_all sound_interval (rp_intervals r) \<and>
     list_all sound_interval (rp_tiers r) \<and> 0 \<le> rp_default r \<and> (\<forall>ch. rp_channel r = Some ch \<longrightarrow> sound_channel ch)"

lemma no_price_sound [simp]: "sound_price no_price" "sound_price (no_price\<lparr>mp_breakdown := b\<rparr>)"
  by (simp_all add: no_price_def sound_defs)

lemma set_price_sound [intro!]:
  assumes "sound_rate v" and "sound_price p"
  shows "sound_price (set_input v p)" "sound_price (set_output v p)" "sound_price (set_cache_write v p)"
    "sound_price (set_cache_read v p)" "sound_price (set_image_output v p)"
  using assms by (auto simp: set_input_def set_output_def set_cache_write_def set_cache_read_def set_image_output_def
      or_zero_def sound_rate_def sound_defs split: option.splits)

lemma flat_override_sound: "sound_channel ch \<Longrightarrow> sound_price p \<Longrightarrow> sound_price (flat_override ch p)"
  by (auto simp: flat_override_def sound_channel_def)

lemma interval_price_sound:
  "sound_interval iv \<Longrightarrow> (\<forall>ch. c = Some ch \<longrightarrow> sound_channel ch) \<Longrightarrow> sound_price (interval_price iv b c)"
  by (auto simp: interval_price_def Let_def sound_interval_def sound_channel_def split: option.splits)

definition sound_state :: "resolved_price \<times> price_heap \<Rightarrow> bool" where
  "sound_state s \<longleftrightarrow> sound_resolved (fst s) \<and> sound_heap (snd s)"

lemma write_base_sound:
  "sound_state s \<Longrightarrow> (\<And>p. sound_price p \<Longrightarrow> sound_price (f p)) \<Longrightarrow> sound_state (write_base adr f s)"
  by (auto simp: write_base_def sound_state_def sound_resolved_def sound_heap_def split: prod.splits option.splits)

lemma token_overrides_sound: "sound_channel ch \<Longrightarrow> sound_state s \<Longrightarrow> sound_state (token_overrides ch adr s)"
  unfolding token_overrides_def Let_def
  by (auto intro!: write_base_sound flat_override_sound)
    (auto simp: sound_state_def sound_resolved_def sound_channel_def list_all_iff)

lemma tier_overrides_sound: "sound_channel ch \<Longrightarrow> sound_resolved r \<Longrightarrow> sound_resolved (tier_overrides ch r)"
  by (auto simp: tier_overrides_def sound_resolved_def sound_channel_def sound_rate_def list_all_iff split: option.splits)

lemma blank_resolved_sound [simp]: "sound_resolved (blank_resolved mode src)"
  by (simp add: blank_resolved_def sound_resolved_def)

lemma sound_resolved_update [simp]:
  "sound_resolved (r\<lparr>rp_mode := m\<rparr>) = sound_resolved r" "sound_resolved (r\<lparr>rp_source := u\<rparr>) = sound_resolved r"
  "sound_resolved (r\<lparr>rp_breakdown := b\<rparr>) = sound_resolved r"
  by (simp_all add: sound_resolved_def)

lemma sound_resolved_channel: "sound_channel ch \<Longrightarrow> sound_resolved r \<Longrightarrow> sound_resolved (r\<lparr>rp_channel := Some ch\<rparr>)"
  by (simp add: sound_resolved_def)

lemma channel_overrides_sound:
  "(\<forall>ch. chan = Some ch \<longrightarrow> sound_channel ch) \<Longrightarrow> sound_state s \<Longrightarrow> sound_state (channel_overrides chan adr s)"
  by (auto simp: channel_overrides_def Let_def sound_state_def [of "(_, _)"] split: option.splits
      intro!: token_overrides_sound tier_overrides_sound sound_resolved_channel)
    (auto simp: sound_state_def sound_resolved_def)

lemma resolve_sound:
  assumes "sound_list dyn" and "sound_heap h" and "\<forall>ch. chan = Some ch \<longrightarrow> sound_channel ch"
    and "\<forall>ch. again = Some ch \<longrightarrow> sound_channel ch"
  shows "sound_state (resolve dyn g chan again m h)"
proof -
  define based where "based = (case get_model_pricing dyn h m of
          None \<Rightarrow> (blank_resolved ''token'' ''fallback'', None)
        | Some (p, adr) \<Rightarrow> ((blank_resolved ''token'' ''litellm'')\<lparr>rp_base := Some p, rp_breakdown := mp_breakdown p\<rparr>, adr))"
  have b: "sound_resolved (fst based)"
    using get_model_pricing_sound [OF assms(1,2), of m]
    by (auto simp: based_def sound_resolved_def blank_resolved_def split: option.splits prod.splits)
  show ?thesis
    unfolding resolve_def based_def [symmetric] Let_def
    using assms b by (cases "if g then chan else None")
      (auto simp: sound_state_def [of "(_, _)"] split: if_splits
        intro!: token_overrides_sound tier_overrides_sound sound_resolved_channel channel_overrides_sound)
qed


subsection \<open>The cost of a recorded request\<close>

definition sound_cost :: "cost \<Rightarrow> bool" where
  "sound_cost c \<longleftrightarrow> 0 \<le> co_total c \<and> 0 \<le> co_actual c \<and> 0 \<le> co_input c \<and> 0 \<le> co_output c \<and> 0 \<le> co_image_output c \<and>
     0 \<le> co_cache_creation c \<and> 0 \<le> co_cache_read c \<and> double (co_total c) = co_total c \<and>
     (co_total c = 0 \<longrightarrow> co_actual c = 0)"

lemma no_cost_sound [simp]: "sound_cost no_cost"
  by (simp add: sound_cost_def no_cost_def)

lemma token_breakdown_sound: "sound_price p \<Longrightarrow> sound_tokens t \<Longrightarrow> sound_cost (token_breakdown p t rate tier long)"
  using breakdown_bounds [of p t "token_breakdown p t rate tier long" rate tier long] by (simp add: sound_cost_def)

lemma calculate_cost_sound:
  "sound_list dyn \<Longrightarrow> sound_heap h \<Longrightarrow> sound_tokens t \<Longrightarrow> calculate_cost dyn h m t rate tier = Some c \<Longrightarrow> sound_cost c"
  by (auto simp: calculate_cost_def dest!: get_model_pricing_sound intro!: token_breakdown_sound)

lemma tokens_split_sound:
  "sound_tokens t \<Longrightarrow> 0 \<le> limit \<Longrightarrow> limit < tk_cache_read t + tk_input t \<Longrightarrow>
   sound_tokens (tokens_within limit t) \<and> sound_tokens (tokens_beyond limit t)"
  by (simp add: tokens_within_def tokens_beyond_def no_tokens_def sound_defs)

lemma long_context_cost_sound:
  assumes "sound_list dyn" and "sound_heap h" and "sound_tokens t"
    and "long_context_cost dyn h m t rate limit extra = Some c"
  shows "sound_cost c"
proof (cases "limit \<le> 0 \<or> extra \<le> 1 \<or> tk_cache_read t + tk_input t \<le> limit")
  case True
  with assms show ?thesis
    by (simp only: long_context_cost_def if_True calculate_cost_sound)
next
  case False
  then have "sound_tokens (tokens_within limit t) \<and> sound_tokens (tokens_beyond limit t)"
    using tokens_split_sound [OF assms(3), of limit] by linarith
  moreover obtain a b where "calculate_cost dyn h m (tokens_within limit t) rate [] = Some a"
    "calculate_cost dyn h m (tokens_beyond limit t) (fmul rate extra) [] = Some b" "c = add_costs a b"
    using False assms(4) by (auto simp: long_context_cost_def split: option.splits)
  ultimately have ab: "sound_cost a" "sound_cost b" "c = add_costs a b"
    using calculate_cost_sound [OF assms(1,2)] by auto
  then have "co_total a \<le> co_total c" "co_total b \<le> co_total c"
    by (simp_all add: add_costs_def sound_cost_def fadd_above)
  with ab show ?thesis
    by (auto simp: add_costs_def sound_cost_def)
qed

lemma find_interval_sound: "list_all sound_interval ivs \<Longrightarrow> find_interval ivs n = Some iv \<Longrightarrow> sound_interval iv"
  by (auto simp: find_interval_def find_Some_iff list_all_length)

lemma tier_prices_sound:
  assumes "sound_resolved r"
  shows "0 \<le> tier_price r label" "0 \<le> tier_price_by_context r n"
proof -
  have iv: "0 \<le> or_zero (pi_request t)" if "t \<in> set (rp_tiers r)" for t
    using assms that by (auto simp: sound_resolved_def list_all_iff sound_interval_def sound_rate_def or_zero_def split: option.splits)
  show "0 \<le> tier_price r label"
    using iv by (auto simp: tier_price_def find_Some_iff in_set_conv_nth split: option.splits)
  show "0 \<le> tier_price_by_context r n"
    using iv by (auto simp: tier_price_by_context_def find_interval_def find_Some_iff in_set_conv_nth split: option.splits)
qed

lemma per_request_cost_sound:
  assumes "sound_resolved r" and "0 \<le> rate"
  shows "sound_cost (per_request_cost r t n label rate)"
  using assms tier_prices_sound [OF assms(1)]
  by (auto simp: per_request_cost_def Let_def sound_cost_def no_cost_def sound_resolved_def intro!: fmul_nonneg)

lemma interval_pricing_sound: "sound_resolved r \<Longrightarrow> interval_pricing r n = Some p \<Longrightarrow> sound_price p"
  by (auto simp: interval_pricing_def sound_resolved_def split: option.splits dest!: find_interval_sound
      intro!: interval_price_sound)

lemma sound_cost_mode [simp]: "sound_cost (c\<lparr>co_mode := m\<rparr>) = sound_cost c"
  by (simp add: sound_cost_def)

lemma unified_cost_sound:
  assumes "sound_resolved r" and "sound_tokens t" and "unified_cost m r t n label rate tier = Some c"
  shows "sound_cost c"
proof (cases "per_request (rp_mode r)")
  case True
  with assms per_request_cost_sound [of r "max 0 rate"] show ?thesis
    by (auto simp: unified_cost_def Let_def)
next
  case False
  with assms(3) obtain p where "interval_pricing r (tk_input t + tk_cache_read t) = Some p"
    "sound_cost (token_breakdown (price_policy m p) t (max 0 rate) tier (rp_intervals r = [])) \<longrightarrow> sound_cost c"
    by (auto simp: unified_cost_def Let_def resolved_token_cost_def)
  with assms(1,2) show ?thesis
    using interval_pricing_sound price_policy_sound token_breakdown_sound by blast
qed

definition sound_group :: "key_group option \<Rightarrow> bool" where
  "sound_group g \<longleftrightarrow> (\<forall>k. g = Some k \<longrightarrow> (\<forall>ch. kg_prices k = Some ch \<longrightarrow> sound_channel ch) \<and>
     (\<forall>ch. kg_again k = Some ch \<longrightarrow> sound_channel ch) \<and>
     list_all sound_rate [ip_1k (kg_images k), ip_2k (kg_images k), ip_4k (kg_images k)])"

lemma channel_pricing_sound:
  assumes "sound_list dyn" "sound_heap h" "sound_group g" "channel_pricing dyn g m h = (r, h')"
  shows "sound_heap h' \<and> (\<forall>r'. r = Some r' \<longrightarrow> sound_resolved r')"
proof (cases g)
  case None
  with assms show ?thesis
    by (auto simp: channel_pricing_def)
next
  case (Some k)
  with assms resolve_sound [OF assms(1,2), of "kg_prices k" "kg_again k" True m] show ?thesis
    by (auto simp: channel_pricing_def sound_group_def sound_state_def split: prod.splits if_splits)
qed

lemma or_free_sound: "(\<And>c. x = Some c \<Longrightarrow> sound_cost c) \<Longrightarrow> sound_cost (or_free x)"
  by (auto simp: or_free_def split: option.splits)

lemma record_token_cost_sound:
  assumes "sound_list dyn" "sound_heap h" "sound_group g" "sound_tokens (qu_tokens q)"
  shows "sound_cost (fst (record_token_cost dyn g q rate limit extra h)) \<and>
    sound_heap (snd (record_token_cost dyn g q rate limit extra h))"
proof -
  obtain r h' where r: "channel_pricing dyn g (qu_model q) h = (r, h')"
    by fastforce
  have t: "sound_tokens ((qu_tokens q)\<lparr>tk_image_input := 0\<rparr>)"
    using assms(4) by (simp add: sound_defs)
  from channel_pricing_sound [OF assms(1-3) r] show ?thesis
    unfolding record_token_cost_def Let_def r
    by (auto split: option.splits intro!: or_free_sound
        dest: unified_cost_sound [OF _ t] long_context_cost_sound [OF assms(1) _ t] calculate_cost_sound [OF assms(1) _ t])
qed

lemma list_price_image: "sound_list (Some data) \<Longrightarrow> list_price data m = Some l \<Longrightarrow> 0 \<le> ll_image l"
  by (auto dest: list_price_sound simp: sound_listing_def)

lemma image_cost_sound:
  assumes "sound_list dyn" and "\<forall>c. cfg = Some c \<longrightarrow> list_all sound_rate [ip_1k c, ip_2k c, ip_4k c]"
  shows "sound_cost (image_cost dyn m sz n cfg rate)"
proof -
  have listed: "0 \<le> default_image_price dyn m s" for s
    by (auto simp: default_image_price_def Let_def intro!: fmul_nonneg)
  have "0 \<le> image_unit_price dyn m s cfg" for s
    using assms(2) listed by (auto simp: image_unit_price_def sound_rate_def split: option.splits if_splits
        simp: Option.bind_eq_Some_conv)
  then show ?thesis
    by (auto simp: image_cost_def Let_def sound_cost_def no_cost_def intro!: fmul_nonneg)
qed

lemma record_image_cost_sound:
  assumes "sound_list dyn" "sound_heap h" "sound_group g" "sound_tokens (qu_tokens q)"
  shows "sound_cost (fst (record_image_cost dyn g q rate h)) \<and> sound_heap (snd (record_image_cost dyn g q rate h))"
proof -
  obtain r h' where r: "channel_pricing dyn g (qu_model q) h = (r, h')"
    by fastforce
  have t: "sound_tokens (no_tokens\<lparr>tk_input := tk_input (qu_tokens q), tk_output := tk_output (qu_tokens q),
            tk_image_output := tk_image_output (qu_tokens q)\<rparr>)"
    using assms(4) by (simp add: sound_defs no_tokens_def)
  have cfg: "\<forall>c. map_option kg_images g = Some c \<longrightarrow> list_all sound_rate [ip_1k c, ip_2k c, ip_4k c]"
    using assms(3) by (auto simp: sound_group_def)
  from channel_pricing_sound [OF assms(1-3) r] image_cost_sound [OF assms(1) cfg] show ?thesis
    unfolding record_image_cost_def Let_def r
    by (auto split: option.splits intro!: or_free_sound dest: unified_cost_sound [OF _ t])
qed

theorem recorded_costs_sound:
  assumes "sound_list dyn" and "sound_heap h" and "sound_group g" and "sound_tokens (qu_tokens q)"
  shows "sound_cost (fst (record_usage_cost dyn g q rate image_rate limit extra h)) \<and>
    sound_heap (snd (record_usage_cost dyn g q rate image_rate limit extra h))"
proof -
  obtain r h' where r: "channel_pricing dyn g (qu_model q) h = (r, h')"
    by fastforce
  have h': "sound_heap h'"
    using channel_pricing_sound [OF assms(1-3) r] by simp
  show ?thesis
    unfolding record_usage_cost_def r
    using record_token_cost_sound [OF assms] record_token_cost_sound [OF assms(1) h' assms(3,4)]
      record_image_cost_sound [OF assms(1) h' assms(3,4)]
    by simp
qed

subsection \<open>What a lookup does to the built-in prices\<close>

lemma write_base_keeps: "adr \<noteq> Some a \<Longrightarrow> snd (write_base adr f s) a = snd s a"
  by (auto simp: write_base_def split: prod.splits option.splits)

lemma token_overrides_keeps: "adr \<noteq> Some a \<Longrightarrow> snd (token_overrides ch adr s) a = snd s a"
  by (simp add: token_overrides_def Let_def write_base_keeps)

lemma channel_overrides_keeps: "adr \<noteq> Some a \<or> chan = None \<Longrightarrow> snd (channel_overrides chan adr s) a = snd s a"
  by (cases chan) (auto simp: channel_overrides_def Let_def token_overrides_keeps)

definition base_address :: "price_list option \<Rightarrow> price_heap \<Rightarrow> string \<Rightarrow> string option" where
  "base_address dyn h m = Option.bind (get_model_pricing dyn h m) snd"

lemma resolve_writes_one_price:
  assumes "base_address dyn h m \<noteq> Some a \<or> \<not> g \<or> (chan = None \<and> again = None)"
  shows "snd (resolve dyn g chan again m h) a = h a"
  using assms by (cases "get_model_pricing dyn h m"; cases chan)
    (auto simp: resolve_def base_address_def Let_def token_overrides_keeps channel_overrides_keeps)

lemma get_model_pricing_address:
  "get_model_pricing dyn h m = Some (p, Some a) \<Longrightarrow> a = price_address (fallback_name (to_lower m)) \<and> h a = Some p"
  by (auto simp: get_model_pricing_def Let_def price_policy_def split: option.splits if_splits)

lemma get_model_pricing_after_write:
  "get_model_pricing dyn h m = Some (p, Some a) \<Longrightarrow>
   map_option fst (get_model_pricing dyn (h(a \<mapsto> p')) m) = Some (price_policy (to_lower m) p')"
  by (auto simp: get_model_pricing_def Let_def split: option.splits if_splits)

text \<open>
  C27.  The price a channel sets leaks to every other customer: where a model's price is a built-in one, resolving
  it for a group whose channel overrides token prices writes the channel's prices into the shared object, so that
  afterwards every request for the model, of whatever group, is computed with them.
\<close>

theorem channel_price_leaks:
  assumes "get_model_pricing dyn h m = Some (p, Some a)"
    and "\<not> per_request (mode_of ch)" and "filter valid_interval (cp_intervals ch) = []"
    and "h' = snd (resolve dyn True (Some ch) again m h)"
  shows "calculate_cost dyn h' m t rate tier =
    Some (token_breakdown (price_policy (to_lower m) (flat_override ch p)) t rate tier True)"
proof -
  have "h' = h(a \<mapsto> flat_override ch p)"
    using assms by (simp add: resolve_def token_overrides_def write_base_def)
  then show ?thesis
    using get_model_pricing_after_write [OF assms(1), of "flat_override ch p"] by (auto simp: calculate_cost_def)
qed

definition haiku_price :: model_pricing where
  "haiku_price = no_price\<lparr>mp_input := 1 / 4\<rparr>"

definition dear_channel :: channel_price where
  "dear_channel = \<lparr>cp_mode = ''token'', cp_input = Some 8, cp_output = None, cp_cache_write = None, cp_cache_read = None,
     cp_image_output = None, cp_request = None, cp_intervals = []\<rparr>"

definition ten_tokens :: usage_tokens where
  "ten_tokens = no_tokens\<lparr>tk_input := 10\<rparr>"

theorem channel_price_leaks_witness:
  "map_option co_total (calculate_cost None [''claude-3-haiku'' \<mapsto> haiku_price] ''claude-3-haiku'' ten_tokens 1 []) = Some (5 / 2) \<and>
   map_option co_total (calculate_cost None
     (snd (resolve None True (Some dear_channel) None ''claude-3-haiku'' [''claude-3-haiku'' \<mapsto> haiku_price]))
     ''claude-3-haiku'' ten_tokens 1 []) = Some 80"
proof -
  let ?m = "''claude-3-haiku''" let ?h = "[''claude-3-haiku'' \<mapsto> haiku_price]"
  have a: "get_model_pricing None ?h ?m = Some (haiku_price, Some ?m)"
    by code_simp
  have b: "\<not> per_request (mode_of dear_channel)" "filter valid_interval (cp_intervals dear_channel) = []"
    by code_simp+
  have "co_total (token_breakdown haiku_price ten_tokens 1 [] True) = 5 / 2"
    by code_simp
  then have c: "map_option co_total (calculate_cost None ?h ?m ten_tokens 1 []) = Some (5 / 2)"
    by (simp only: calculate_cost_def a option.map fst_conv)
  have "\<not> is_gpt54 (to_lower ?m)"
    by code_simp
  then have g: "price_policy (to_lower ?m) p = p" for p
    by (simp add: price_policy_def needs_long_context_def)
  have d: "co_total (token_breakdown (flat_override dear_channel haiku_price) ten_tokens 1 [] True) = 80"
    by code_simp
  have e: "map_option co_total (calculate_cost None (snd (resolve None True (Some dear_channel) None ?m ?h)) ?m ten_tokens 1 []) = Some 80"
    by (simp only: channel_price_leaks [OF a b refl] option.map g d)
  from c e show ?thesis ..
qed

end
