(* ===== verification/RecordUsage.thy ===== *)
theory RecordUsage
  imports CostProps UsageBilling
begin

section \<open>Recording a request\<close>

text \<open>
  \<open>recordUsageCore\<close> of \<open>service/gateway_service.go\<close> and what it calls: the size an image is charged at, the
  lifetime a cache write is charged at, the rate and the model a request is charged with, the command
  \<open>Apply\<close> executes, and what follows a charge.  The channel's prices, the cached rate of a user in a group
  and the answers of the settings are parameters.  The log row itself is the usage table's; the model
  keeps the fields the charge depends on.
\<close>

subsection \<open>The result of a forwarded request\<close>

record claude_usage =
  cu_input :: int
  cu_output :: int
  cu_cache_creation :: int
  cu_cache_read :: int
  cu_cache_5m :: int
  cu_cache_1h :: int
  cu_image_output :: int

record forward_result =
  fr_request_id :: string
  fr_usage :: claude_usage
  fr_model :: string
  fr_upstream_model :: string
  fr_reasoning_effort :: "string option"
  fr_image_count :: int
  fr_image_size :: string
  fr_image_input_size :: string
  fr_image_output_size :: string
  fr_image_output_sizes :: "string list"
  fr_image_size_source :: string
  fr_image_breakdown :: "(string \<times> nat) list"

subsection \<open>The size of an image\<close>

record image_resolution =
  ir_billing :: string
  ir_input :: string
  ir_output :: string
  ir_source :: string
  ir_breakdown :: "(string \<times> nat) list"

definition compact_trimmed :: "string list \<Rightarrow> string list" where
  "compact_trimmed vs = filter (\<lambda>v. v \<noteq> []) (map trim_space vs)"

definition image_tier_rank :: "string \<Rightarrow> nat" where
  "image_tier_rank t = (if t = ''1K'' then 1 else if t = ''2K'' then 2 else if t = ''4K'' then 3 else 0)"

definition higher_tier :: "string \<Rightarrow> string \<Rightarrow> string" where
  "higher_tier best t = (if image_tier_rank best < image_tier_rank t then t else best)"

definition tiers_of :: "string list \<Rightarrow> string list" where
  "tiers_of sizes = List.map_filter image_tier sizes"

definition tier_breakdown :: "string list \<Rightarrow> (string \<times> nat) list" where
  "tier_breakdown tiers =
     filter (\<lambda>e. 0 < snd e) (map (\<lambda>t. (t, length (filter ((=) t) tiers))) [''1K'', ''2K'', ''4K''])"

definition resolve_image_size :: "string \<Rightarrow> string list \<Rightarrow> image_resolution" where
  "resolve_image_size input outputs =
     (let i = trim_space input; os = compact_trimmed outputs; out = (case os of [] \<Rightarrow> [] | s # _ \<Rightarrow> s);
          best = foldl higher_tier [] (tiers_of os) in
      if best \<noteq> [] then \<lparr>ir_billing = best, ir_input = i, ir_output = out, ir_source = ''output'',
        ir_breakdown = tier_breakdown (tiers_of os)\<rparr>
      else (case image_tier i of
        Some t \<Rightarrow> \<lparr>ir_billing = t, ir_input = i, ir_output = out, ir_source = ''input'', ir_breakdown = []\<rparr>
      | None \<Rightarrow> \<lparr>ir_billing = ''2K'', ir_input = i, ir_output = out, ir_source = ''default'', ir_breakdown = []\<rparr>))"

definition apply_image_resolution :: "forward_result \<Rightarrow> forward_result" where
  "apply_image_resolution r =
     (if fr_image_count r \<le> 0 then r
      else let input = (if trim_space (fr_image_input_size r) = [] \<and> trim_space (fr_image_size r) \<noteq> ''2K''
              then trim_space (fr_image_size r) else trim_space (fr_image_input_size r));
          outs = (if fr_image_output_sizes r = [] \<and> trim_space (fr_image_output_size r) \<noteq> []
              then [fr_image_output_size r] else fr_image_output_sizes r);
          s = resolve_image_size input outs
      in r\<lparr>fr_image_size := ir_billing s, fr_image_input_size := ir_input s, fr_image_output_size := ir_output s,
           fr_image_size_source := ir_source s, fr_image_breakdown := ir_breakdown s\<rparr>)"

subsection \<open>The lifetime of a cache write\<close>

definition apply_cache_ttl_override :: "string \<Rightarrow> claude_usage \<Rightarrow> claude_usage" where
  "apply_cache_ttl_override target u =
     (let u1 = (if cu_cache_5m u = 0 \<and> cu_cache_1h u = 0 \<and> 0 < cu_cache_creation u
                then u\<lparr>cu_cache_5m := cu_cache_creation u\<rparr> else u);
          total = cu_cache_5m u1 + cu_cache_1h u1 in
      if total = 0 then u1
      else if target = ''1h'' then (if cu_cache_1h u1 = total then u1 else u1\<lparr>cu_cache_1h := total, cu_cache_5m := 0\<rparr>)
      else (if cu_cache_5m u1 = total then u1 else u1\<lparr>cu_cache_5m := total, cu_cache_1h := 0\<rparr>))"

definition force_cache_read :: "bool \<Rightarrow> claude_usage \<Rightarrow> claude_usage" where
  "force_cache_read forced u = (if forced \<and> 0 < cu_input u
     then u\<lparr>cu_cache_read := cu_cache_read u + cu_input u, cu_input := 0\<rparr> else u)"

subsection \<open>Accounts, keys and groups\<close>

record upstream_account =
  ac_id :: int64
  ac_platform :: string
  ac_type :: string
  ac_rate :: "rat option"
  ac_override_enabled :: bool
  ac_override_target :: "string option"
  ac_quota_limit :: rat
  ac_quota_daily_limit :: rat
  ac_quota_weekly_limit :: rat

definition anthropic_oauth :: "upstream_account \<Rightarrow> bool" where
  "anthropic_oauth a \<longleftrightarrow> ac_platform a = ''anthropic'' \<and> ac_type a \<in> {''oauth'', ''setup-token''}"

definition api_key_or_bedrock :: "upstream_account \<Rightarrow> bool" where
  "api_key_or_bedrock a \<longleftrightarrow> ac_type a \<in> {''apikey'', ''bedrock''}"

definition has_quota_limit :: "upstream_account \<Rightarrow> bool" where
  "has_quota_limit a \<longleftrightarrow> 0 < ac_quota_limit a \<or> 0 < ac_quota_daily_limit a \<or> 0 < ac_quota_weekly_limit a"

definition billing_rate :: "upstream_account \<Rightarrow> rat" where
  "billing_rate a = (case ac_rate a of None \<Rightarrow> 1 | Some r \<Rightarrow> if r < 0 then 1 else r)"

text \<open>The lifetime cache writes are charged at, if it is overridden.\<close>

definition override_enabled :: "upstream_account \<Rightarrow> bool" where
  "override_enabled a \<longleftrightarrow> anthropic_oauth a \<and> ac_override_enabled a"

definition override_target :: "upstream_account \<Rightarrow> string" where
  "override_target a = (case ac_override_target a of None \<Rightarrow> ''5m'' | Some t \<Rightarrow> if t \<in> {''5m'', ''1h''} then t else ''5m'')"

definition cache_ttl_target :: "bool \<Rightarrow> upstream_account \<Rightarrow> string option" where
  "cache_ttl_target inject a =
     (if override_enabled a then Some (override_target a) else if anthropic_oauth a \<and> inject then Some ''5m'' else None)"

record user_group =
  ug_id :: int64
  ug_platform :: string
  ug_subscription :: bool
  ug_rate :: rat
  ug_image_independent :: bool
  ug_image_rate :: rat
  ug_prices :: key_group

record gateway_key =
  gk_id :: int64
  gk_group_id :: "int64 option"
  gk_group :: "user_group option"
  gk_quota :: rat
  gk_limit_5h :: rat
  gk_limit_1d :: rat
  gk_limit_7d :: rat

definition has_rate_limits :: "gateway_key \<Rightarrow> bool" where
  "has_rate_limits k \<longleftrightarrow> 0 < gk_limit_5h k \<or> 0 < gk_limit_1d k \<or> 0 < gk_limit_7d k"

subsection \<open>The rate of a request\<close>

text \<open>
  \<open>userGroupRateResolver\<close>: the cached rate of the user in the group, or the one the repository answers; its
  error falls back to the group's.  The new entry of the cache is part of the result.
\<close>

definition resolve_user_rate ::
    "int64 \<Rightarrow> int64 \<Rightarrow> rat option \<Rightarrow> go_error + rat option \<Rightarrow> rat \<Rightarrow> rat \<times> rat option" where
  "resolve_user_rate uid gid cached repo dflt =
     (if uid \<le> 0 \<or> gid \<le> 0 then (dflt, cached)
      else (case cached of
        Some m \<Rightarrow> (m, cached)
      | None \<Rightarrow> (case repo of
          Inl _ \<Rightarrow> (dflt, None)
        | Inr r \<Rightarrow> let m = (case r of None \<Rightarrow> dflt | Some m \<Rightarrow> m) in (m, Some m))))"

definition image_rate :: "gateway_key \<Rightarrow> rat \<Rightarrow> rat" where
  "image_rate k rate = (case gk_group k of
     None \<Rightarrow> rate
   | Some g \<Rightarrow> if ug_image_independent g then (if ug_image_rate g < 0 then 0 else ug_image_rate g) else rate)"

definition result_billing_model :: "string \<Rightarrow> string \<Rightarrow> string" where
  "result_billing_model requested upstream =
     (if trim_space requested \<noteq> [] then trim_space requested else trim_space upstream)"

record usage_input =
  ui_result :: forward_result
  ui_key :: gateway_key
  ui_user_id :: int64
  ui_account :: upstream_account
  ui_subscription :: "int64 option"
  ui_payload_hash :: string
  ui_force_cache :: bool
  ui_has_key_service :: bool
  ui_model_source :: string
  ui_mapped_model :: string
  ui_original_model :: string
  ui_client_request_id :: string
  ui_local_request_id :: string

definition billing_model :: "usage_input \<Rightarrow> forward_result \<Rightarrow> string" where
  "billing_model i r =
     (let m = result_billing_model (fr_model r) (fr_upstream_model r);
          m1 = (if ui_model_source i = ''channel_mapped'' \<and> ui_mapped_model i \<noteq> [] then ui_mapped_model i else m) in
      if ui_model_source i = ''requested'' \<and> ui_original_model i \<noteq> [] then ui_original_model i else m1)"

text \<open>The identity of a request, with the identifier generated when there is none.\<close>

definition billing_request_id :: "string \<Rightarrow> usage_input \<Rightarrow> forward_result \<Rightarrow> string" where
  "billing_request_id fresh i r =
     (if trim_space (ui_client_request_id i) \<noteq> [] then ''client:'' @ trim_space (ui_client_request_id i)
      else if trim_space (ui_local_request_id i) \<noteq> [] then ''local:'' @ trim_space (ui_local_request_id i)
      else if trim_space (fr_request_id r) \<noteq> [] then trim_space (fr_request_id r)
      else ''generated:'' @ fresh)"

definition payload_fingerprint :: "usage_input \<Rightarrow> string" where
  "payload_fingerprint i =
     (if trim_space (ui_payload_hash i) \<noteq> [] then trim_space (ui_payload_hash i)
      else if trim_space (ui_client_request_id i) \<noteq> [] then ''client:'' @ trim_space (ui_client_request_id i)
      else if trim_space (ui_local_request_id i) \<noteq> [] then ''local:'' @ trim_space (ui_local_request_id i)
      else [])"

subsection \<open>The charge\<close>

record billing_params =
  bp_cost :: cost
  bp_user_id :: int64
  bp_key :: gateway_key
  bp_account :: upstream_account
  bp_subscription :: "int64 option"
  bp_payload_hash :: string
  bp_is_subscription :: bool
  bp_account_rate :: rat
  bp_has_key_service :: bool
  bp_platform :: string

record usage_log =
  ul_user_id :: int64
  ul_key_id :: int64
  ul_account_id :: int64
  ul_request_id :: string
  ul_model :: string
  ul_reasoning_effort :: "string option"
  ul_usage :: claude_usage
  ul_rate :: rat
  ul_account_rate :: rat
  ul_billing_type :: int
  ul_billing_mode :: string
  ul_image_count :: int
  ul_cache_overridden :: bool
  ul_subscription_id :: "int64 option"
  ul_cost :: cost

definition deducts_key_quota :: "billing_params \<Rightarrow> bool" where
  "deducts_key_quota p \<longleftrightarrow> 0 < co_actual (bp_cost p) \<and> 0 < gk_quota (bp_key p) \<and> bp_has_key_service p"

definition updates_rate_limits :: "billing_params \<Rightarrow> bool" where
  "updates_rate_limits p \<longleftrightarrow> 0 < co_actual (bp_cost p) \<and> has_rate_limits (bp_key p) \<and> bp_has_key_service p"

definition updates_account_quota :: "billing_params \<Rightarrow> bool" where
  "updates_account_quota p \<longleftrightarrow> 0 < co_total (bp_cost p) \<and> api_key_or_bedrock (bp_account p) \<and> has_quota_limit (bp_account p)"

definition pays_by_subscription :: "billing_params \<Rightarrow> bool" where
  "pays_by_subscription p \<longleftrightarrow> bp_is_subscription p \<and> bp_subscription p \<noteq> None \<and> 0 < co_total (bp_cost p)"

definition or_zero_if :: "bool \<Rightarrow> rat \<Rightarrow> rat" where
  "or_zero_if b x = (if b then x else 0)"

definition bill_command :: "(string \<Rightarrow> string) \<Rightarrow> usage_log \<Rightarrow> billing_params \<Rightarrow> usage_command" where
  "bill_command hash l p = normalize_command hash
     \<lparr>uc_request_id = ul_request_id l, uc_api_key_id = gk_id (bp_key p), uc_fingerprint = [],
      uc_payload_hash = trim_space (bp_payload_hash p), uc_user_id = bp_user_id p, uc_account_id = ac_id (bp_account p),
      uc_subscription_id = (if pays_by_subscription p then bp_subscription p else ul_subscription_id l),
      uc_account_type = ac_type (bp_account p), uc_model = ul_model l, uc_service_tier = [],
      uc_reasoning_effort = (case ul_reasoning_effort l of None \<Rightarrow> [] | Some e \<Rightarrow> e),
      uc_billing_type = ul_billing_type l, uc_input_tokens = cu_input (ul_usage l),
      uc_output_tokens = cu_output (ul_usage l), uc_cache_creation_tokens = cu_cache_creation (ul_usage l),
      uc_cache_read_tokens = cu_cache_read (ul_usage l), uc_image_count = ul_image_count l, uc_media_type = [],
      uc_balance_cost = or_zero_if (\<not> pays_by_subscription p \<and> 0 < co_actual (bp_cost p)) (co_actual (bp_cost p)),
      uc_subscription_cost = or_zero_if (pays_by_subscription p) (co_actual (bp_cost p)),
      uc_api_key_quota_cost = or_zero_if (deducts_key_quota p) (co_actual (bp_cost p)),
      uc_api_key_rate_limit_cost = or_zero_if (updates_rate_limits p) (co_actual (bp_cost p)),
      uc_account_quota_cost = or_zero_if (updates_account_quota p) (fmul (co_total (bp_cost p)) (bp_account_rate p))\<rparr>"

text \<open>
  What is done after a charge: tasks for the caches, the quota of the platform, notices and the log.  The
  threshold below which a balance bars its user, and whether the user has a limit on the platform, are
  parameters.
\<close>

datatype after_charge =
    Touch_account int64
  | Drop_cached_key int64
  | Queue_subscription_usage int64 int64 rat
  | Drop_cached_balance int64
  | Queue_balance int64 rat
  | Queue_rate_limit int64 rat
  | Count_platform int64 string rat
  | Store_platform int64 string rat
  | Check_balance_notice int64 "rat option" rat
  | Check_quota_notice int64 rat "quota_state option"
  | Write_log usage_log

record charge_env =
  ce_usage :: usage_env
  ce_reserve :: rat
  ce_platform_limited :: bool
  ce_flusher :: bool
  ce_simple_mode :: bool
  ce_default_rate :: rat
  ce_inject_1h :: bool
  ce_prices :: "price_list option"

definition bars_user :: "charge_env \<Rightarrow> rat \<Rightarrow> bool" where
  "bars_user e b \<longleftrightarrow> b \<le> 0 \<or> (0 < ce_reserve e \<and> b < ce_reserve e)"

definition cached_charge :: "charge_env \<Rightarrow> billing_params \<Rightarrow> apply_result \<Rightarrow> after_charge list" where
  "cached_charge e p r =
     (if \<not> 0 < co_actual (bp_cost p) then []
      else if bp_is_subscription p
      then (case gk_group_id (bp_key p) of None \<Rightarrow> []
        | Some g \<Rightarrow> [Queue_subscription_usage (bp_user_id p) g (co_actual (bp_cost p))])
      else if (case ar_new_balance r of None \<Rightarrow> False | Some b \<Rightarrow> bars_user e b) then [Drop_cached_balance (bp_user_id p)]
      else [Queue_balance (bp_user_id p) (co_actual (bp_cost p))])"

definition platform_charge :: "charge_env \<Rightarrow> billing_params \<Rightarrow> after_charge list" where
  "platform_charge e p =
     (if \<not> bp_is_subscription p \<and> bp_platform p \<noteq> [] \<and> 0 < co_actual (bp_cost p) \<and> ce_platform_limited e
      then Count_platform (bp_user_id p) (bp_platform p) (co_actual (bp_cost p)) #
        (if ce_flusher e then [] else [Store_platform (bp_user_id p) (bp_platform p) (co_actual (bp_cost p))])
      else [])"

definition charge_notices :: "billing_params \<Rightarrow> apply_result \<Rightarrow> after_charge list" where
  "charge_notices p r =
     (if bp_is_subscription p \<or> co_actual (bp_cost p) \<le> 0 then []
      else [Check_balance_notice (bp_user_id p) (map_option (\<lambda>b. fadd b (co_actual (bp_cost p))) (ar_new_balance r))
        (co_actual (bp_cost p))]) @
     (if co_total (bp_cost p) \<le> 0 \<or> \<not> api_key_or_bedrock (bp_account p) then []
      else [Check_quota_notice (ac_id (bp_account p)) (fmul (co_total (bp_cost p)) (bp_account_rate p)) (ar_quota_state r)])"

definition finalize_charge :: "charge_env \<Rightarrow> billing_params \<Rightarrow> apply_result \<Rightarrow> after_charge list" where
  "finalize_charge e p r = cached_charge e p r @
     (if 0 < co_actual (bp_cost p) \<and> has_rate_limits (bp_key p)
      then [Queue_rate_limit (gk_id (bp_key p)) (co_actual (bp_cost p))] else []) @
     Touch_account (ac_id (bp_account p)) # platform_charge e p @ charge_notices p r"

definition after_apply :: "charge_env \<Rightarrow> billing_params \<Rightarrow> apply_result \<Rightarrow> after_charge list" where
  "after_apply e p r =
     (if \<not> ar_applied r then [Touch_account (ac_id (bp_account p))]
      else (if ar_quota_exhausted r then [Drop_cached_key (gk_id (bp_key p))] else []) @ finalize_charge e p r)"

definition apply_billing ::
    "charge_env \<Rightarrow> usage_log \<Rightarrow> billing_params \<Rightarrow> (usage_store, after_charge list) fallible" where
  "apply_billing e l p = tryM (\<lambda>e. e) (apply_usage (ce_usage e) (bill_command (ue_hash (ce_usage e)) l p))
     (\<lambda>r. okM (after_apply e p r))"

subsection \<open>The whole operation\<close>

definition forced_result :: "usage_input \<Rightarrow> forward_result" where
  "forced_result i = (let r = apply_image_resolution (ui_result i) in
     r\<lparr>fr_usage := force_cache_read (ui_force_cache i) (fr_usage r)\<rparr>)"

definition prepared_result :: "charge_env \<Rightarrow> usage_input \<Rightarrow> forward_result" where
  "prepared_result e i = (let r = forced_result i in
     case cache_ttl_target (ce_inject_1h e) (ui_account i) of
       None \<Rightarrow> r
     | Some t \<Rightarrow> r\<lparr>fr_usage := apply_cache_ttl_override t (fr_usage r)\<rparr>)"

definition cache_overridden :: "charge_env \<Rightarrow> usage_input \<Rightarrow> bool" where
  "cache_overridden e i \<longleftrightarrow> cache_ttl_target (ce_inject_1h e) (ui_account i) \<noteq> None \<and>
     0 < cu_cache_5m (fr_usage (prepared_result e i)) + cu_cache_1h (fr_usage (prepared_result e i))"

definition request_rate :: "charge_env \<Rightarrow> usage_input \<Rightarrow> rat option \<Rightarrow> go_error + rat option \<Rightarrow> rat" where
  "request_rate e i cached repo = (case (gk_group_id (ui_key i), gk_group (ui_key i)) of
     (Some gid, Some g) \<Rightarrow> fst (resolve_user_rate (ui_user_id i) gid cached repo (ug_rate g))
   | _ \<Rightarrow> ce_default_rate e)"

definition usage_of_result :: "usage_input \<Rightarrow> forward_result \<Rightarrow> request_usage" where
  "usage_of_result i r = \<lparr>qu_tokens = \<lparr>tk_input = cu_input (fr_usage r), tk_image_input = 0, tk_output = cu_output (fr_usage r),
       tk_cache_creation = cu_cache_creation (fr_usage r), tk_cache_read = cu_cache_read (fr_usage r),
       tk_cache_5m = cu_cache_5m (fr_usage r), tk_cache_1h = cu_cache_1h (fr_usage r),
       tk_image_output = cu_image_output (fr_usage r)\<rparr>,
     qu_images = fr_image_count r, qu_image_size = fr_image_size r, qu_model = billing_model i r\<rparr>"

definition billing_mode :: "forward_result \<Rightarrow> cost \<Rightarrow> string" where
  "billing_mode r c = (if co_mode c \<noteq> [] then co_mode c else if 0 < fr_image_count r then ''image'' else ''token'')"

definition subscription_billing :: "usage_input \<Rightarrow> bool" where
  "subscription_billing i \<longleftrightarrow> ui_subscription i \<noteq> None \<and>
     (case gk_group (ui_key i) of None \<Rightarrow> False | Some g \<Rightarrow> ug_subscription g)"

definition log_of :: "string \<Rightarrow> charge_env \<Rightarrow> usage_input \<Rightarrow> rat \<Rightarrow> cost \<Rightarrow> usage_log" where
  "log_of fresh e i rate c = (let r = prepared_result e i in
     \<lparr>ul_user_id = ui_user_id i, ul_key_id = gk_id (ui_key i), ul_account_id = ac_id (ui_account i),
      ul_request_id = billing_request_id fresh i r, ul_model = fr_model r, ul_reasoning_effort = fr_reasoning_effort r,
      ul_usage = fr_usage r,
      ul_rate = (if 0 < fr_image_count r \<and> co_mode c \<noteq> ''token'' then image_rate (ui_key i) rate else rate),
      ul_account_rate = billing_rate (ui_account i),
      ul_billing_type = (if subscription_billing i then 1 else 0), ul_billing_mode = billing_mode r c,
      ul_image_count = fr_image_count r, ul_cache_overridden = cache_overridden e i,
      ul_subscription_id = ui_subscription i, ul_cost = c\<rparr>)"

definition params_of :: "usage_input \<Rightarrow> string \<Rightarrow> cost \<Rightarrow> billing_params" where
  "params_of i platform c =
     \<lparr>bp_cost = c, bp_user_id = ui_user_id i, bp_key = ui_key i, bp_account = ui_account i,
      bp_subscription = ui_subscription i, bp_payload_hash = payload_fingerprint i,
      bp_is_subscription = subscription_billing i, bp_account_rate = billing_rate (ui_account i),
      bp_has_key_service = ui_has_key_service i,
      bp_platform = (if platform \<noteq> [] then platform else case gk_group (ui_key i) of None \<Rightarrow> [] | Some g \<Rightarrow> ug_platform g)\<rparr>"

definition input_cost_of ::
    "charge_env \<Rightarrow> usage_input \<Rightarrow> rat \<Rightarrow> int \<Rightarrow> rat \<Rightarrow> price_heap \<Rightarrow> cost \<times> price_heap" where
  "input_cost_of e i rate limit extra h =
     record_usage_cost (ce_prices e) (map_option ug_prices (gk_group (ui_key i))) (usage_of_result i (prepared_result e i))
       rate (image_rate (ui_key i) rate) limit extra h"

definition record_usage ::
    "string \<Rightarrow> charge_env \<Rightarrow> usage_input \<Rightarrow> string \<Rightarrow> rat \<Rightarrow> int \<Rightarrow> rat \<Rightarrow> price_heap \<Rightarrow>
     (usage_store, after_charge list) fallible" where
  "record_usage fresh e i platform rate limit extra h =
     (let c = fst (input_cost_of e i rate limit extra h); l = log_of fresh e i rate c in
      if ce_simple_mode e then okM [Write_log l, Touch_account (ac_id (ui_account i))]
      else tryM (\<lambda>e. e) (apply_billing e l (params_of i platform c)) (\<lambda>acts. okM (acts @ [Write_log l])))"

subsection \<open>Adjustments of the usage\<close>

text \<open>The overrides move tokens between classes and neither add nor lose any.\<close>

lemma force_cache_read_total:
  "cu_input (force_cache_read b u) + cu_cache_read (force_cache_read b u) = cu_input u + cu_cache_read u"
  by (simp add: force_cache_read_def)

lemma cache_override_total:
  "cu_cache_5m u \<noteq> 0 \<or> cu_cache_1h u \<noteq> 0 \<Longrightarrow>
   cu_cache_5m (apply_cache_ttl_override t u) + cu_cache_1h (apply_cache_ttl_override t u) = cu_cache_5m u + cu_cache_1h u"
  "cu_cache_5m u = 0 \<Longrightarrow> cu_cache_1h u = 0 \<Longrightarrow> 0 < cu_cache_creation u \<Longrightarrow>
   cu_cache_5m (apply_cache_ttl_override t u) + cu_cache_1h (apply_cache_ttl_override t u) = cu_cache_creation u"
  by (auto simp: apply_cache_ttl_override_def Let_def)

lemma image_tier_valid: "image_tier sz = Some t \<Longrightarrow> t \<in> {''1K'', ''2K'', ''4K''}"
  by (auto simp: image_tier_def Let_def split: if_splits)

text \<open>An image is charged at one of three sizes, the largest of its outputs.\<close>

lemma higher_tiers_max:
  "image_tier_rank (foldl higher_tier b ts) = Max (insert (image_tier_rank b) (image_tier_rank ` set ts))"
proof (induction ts arbitrary: b)
  case (Cons t ts)
  have "image_tier_rank (higher_tier b t) = max (image_tier_rank b) (image_tier_rank t)"
    by (simp add: higher_tier_def)
  with Cons show ?case
    by (cases "ts = []") (simp_all add: max.assoc Max.insert)
qed simp

lemma higher_tiers_mem: "foldl higher_tier b ts \<in> insert b (set ts)"
  by (induction ts arbitrary: b) (auto simp: higher_tier_def split: if_splits; blast)+

lemma billing_size_valid: "ir_billing (resolve_image_size i os) \<in> {''1K'', ''2K'', ''4K''}"
proof -
  let ?ts = "tiers_of (compact_trimmed os)"
  have "foldl higher_tier [] ?ts \<noteq> [] \<Longrightarrow> foldl higher_tier [] ?ts \<in> set ?ts"
    using higher_tiers_mem [of "[]" ?ts] by auto
  moreover have "\<exists>x. image_tier x = Some t" if "t \<in> set ?ts" for t
    using that by (auto simp: tiers_of_def map_filter_def)
  then have "set ?ts \<subseteq> {''1K'', ''2K'', ''4K''}"
    using image_tier_valid by blast
  ultimately show ?thesis
    by (auto simp: resolve_image_size_def Let_def dest: image_tier_valid split: option.splits)
qed

subsection \<open>What a recorded request pays\<close>

lemma billing_request_id_nonempty: "trim_space (billing_request_id fresh i r) \<noteq> []"
proof -
  have "trim_space (''client:'' @ s) \<noteq> []" "trim_space (''local:'' @ s) \<noteq> []" "trim_space (''generated:'' @ s) \<noteq> []" for s
    by (rule trim_space_ne [of "CHR '':''"]; simp)+
  then show ?thesis
    unfolding billing_request_id_def by simp
qed

definition command_of ::
    "string \<Rightarrow> charge_env \<Rightarrow> usage_input \<Rightarrow> string \<Rightarrow> rat \<Rightarrow> cost \<Rightarrow> usage_command" where
  "command_of fresh e i platform rate c =
     bill_command (ue_hash (ce_usage e)) (log_of fresh e i rate c) (params_of i platform c)"

definition sound_usage :: "claude_usage \<Rightarrow> bool" where
  "sound_usage u \<longleftrightarrow> list_all (\<lambda>n. 0 \<le> n)
     [cu_input u, cu_output u, cu_cache_creation u, cu_cache_read u, cu_cache_5m u, cu_cache_1h u, cu_image_output u]"

lemma sound_usage_adjusted:
  "sound_usage u \<Longrightarrow> sound_usage (apply_cache_ttl_override t u)" "sound_usage u \<Longrightarrow> sound_usage (force_cache_read b u)"
  by (auto simp: sound_usage_def apply_cache_ttl_override_def Let_def force_cache_read_def)

lemma fr_usage_resolution [simp]: "fr_usage (apply_image_resolution r) = fr_usage r"
  by (simp add: apply_image_resolution_def Let_def)

lemma prepared_usage_sound: "sound_usage (fr_usage (ui_result i)) \<Longrightarrow> sound_usage (fr_usage (prepared_result e i))"
  by (auto simp: prepared_result_def forced_result_def Let_def sound_usage_adjusted split: option.splits)

definition sound_world :: "charge_env \<Rightarrow> usage_input \<Rightarrow> price_heap \<Rightarrow> bool" where
  "sound_world e i h \<longleftrightarrow> sound_list (ce_prices e) \<and> sound_heap h \<and> sound_usage (fr_usage (ui_result i)) \<and>
     sound_group (map_option ug_prices (gk_group (ui_key i)))"

lemma recorded_cost_sound:
  assumes "sound_world e i h"
  shows "sound_cost (fst (input_cost_of e i rate limit extra h))"
proof -
  have "sound_usage (fr_usage (prepared_result e i))"
    using assms by (simp add: sound_world_def prepared_usage_sound)
  then have "sound_tokens (qu_tokens (usage_of_result i (prepared_result e i)))"
    by (simp add: sound_usage_def usage_of_result_def sound_defs)
  then show ?thesis
    using assms recorded_costs_sound by (simp add: input_cost_of_def sound_world_def)
qed

lemmas command_fields = command_of_def bill_command_def normalize_command_def Let_def log_of_def params_of_def
  pays_by_subscription_def or_zero_if_def deducts_key_quota_def updates_rate_limits_def updates_account_quota_def

lemma command_costs:
  assumes "sound_cost c" and "cmd = command_of fresh e i platform rate c"
  shows "uc_balance_cost cmd = (if subscription_billing i then 0 else co_actual c)"
    "uc_subscription_cost cmd = (if subscription_billing i then co_actual c else 0)"
    "uc_user_id cmd = ui_user_id i" "trim_space (uc_request_id cmd) \<noteq> []" "uc_request_id cmd = trim_space (uc_request_id cmd)"
    "uc_api_key_quota_cost cmd = (if 0 < gk_quota (ui_key i) \<and> ui_has_key_service i then co_actual c else 0)"
    "uc_api_key_rate_limit_cost cmd = (if has_rate_limits (ui_key i) \<and> ui_has_key_service i then co_actual c else 0)"
    "uc_account_quota_cost cmd = (if api_key_or_bedrock (ui_account i) \<and> has_quota_limit (ui_account i)
       then fmul (co_total c) (billing_rate (ui_account i)) else 0)"
    "subscription_billing i \<Longrightarrow> uc_subscription_id cmd = ui_subscription i"
  using assms(1) unfolding assms(2)
  by (auto simp: command_fields sound_cost_def subscription_billing_def billing_request_id_nonempty fmul_def order_le_less)


lemma normalized_command [simp]:
  "normalize_command (ue_hash (ce_usage e)) (command_of fresh e i platform rate c) = command_of fresh e i platform rate c"
  by (auto simp: command_of_def bill_command_def normalize_command_def Let_def build_usage_billing_fingerprint_def
      usage_billing_text_def)

text \<open>Undisturbed, recording a request is the charge of its command.\<close>

lemma record_usage_quiet:
  assumes "quiet s" and "st_base s = None" and "\<not> ce_simple_mode e" and "sound_world e i h"
    and "c = fst (input_cost_of e i rate limit extra h)" and "cmd = command_of fresh e i platform rate c"
  shows "run_state (record_usage fresh e i platform rate limit extra h) s =
    (case apply_spec (ce_usage e) cmd (st_tabs s) of
       Inl x \<Rightarrow> (Inl x, s)
     | Inr (r, t) \<Rightarrow> (Inr (after_apply e (params_of i platform c) r @ [Write_log (log_of fresh e i rate c)]), s\<lparr>st_tabs := t\<rparr>))"
proof -
  have "uc_request_id cmd \<noteq> []"
    using command_costs(4,5) [OF recorded_cost_sound [OF assms(4)] assms(6) [unfolded assms(5)]] by metis
  then show ?thesis
    using assms(3) unfolding assms(5,6)
    by (simp add: record_usage_def apply_billing_def Let_def run_tryM command_of_def [symmetric]
        apply_usage_quiet [OF assms(1,2)] split: sum.splits prod.splits)
qed


definition paid :: "usage_input \<Rightarrow> rat \<Rightarrow> usage_tables \<Rightarrow> usage_tables \<Rightarrow> bool" where
  "paid i a t t' \<longleftrightarrow>
     ut_balance t' = paying (if subscription_billing i then 0 else a) (upd_at (ui_user_id i) (\<lambda>b. numeric 8 (b - a))) (ut_balance t) \<and>
     ut_subs t' = (case ui_subscription i of None \<Rightarrow> ut_subs t
       | Some n \<Rightarrow> paying (if subscription_billing i then a else 0) (upd_at n (spend_subscription a)) (ut_subs t))"

text \<open>Sample data: ten tokens of a built-in price, at twice the price.\<close>

definition sample_result :: forward_result where
  "sample_result = \<lparr>fr_request_id = ''msg1'', fr_usage = \<lparr>cu_input = 10, cu_output = 0, cu_cache_creation = 0, cu_cache_read = 0,
     cu_cache_5m = 0, cu_cache_1h = 0, cu_image_output = 0\<rparr>, fr_model = ''claude-3-haiku'', fr_upstream_model = [],
     fr_reasoning_effort = None, fr_image_count = 0, fr_image_size = [], fr_image_input_size = [], fr_image_output_size = [],
     fr_image_output_sizes = [], fr_image_size_source = [], fr_image_breakdown = []\<rparr>"

definition sample_input :: usage_input where
  "sample_input = \<lparr>ui_result = sample_result,
     ui_key = \<lparr>gk_id = 1, gk_group_id = None, gk_group = None, gk_quota = 100, gk_limit_5h = 0, gk_limit_1d = 0, gk_limit_7d = 0\<rparr>,
     ui_user_id = 2, ui_account = \<lparr>ac_id = 3, ac_platform = ''anthropic'', ac_type = ''oauth'', ac_rate = None,
       ac_override_enabled = False, ac_override_target = None, ac_quota_limit = 0, ac_quota_daily_limit = 0, ac_quota_weekly_limit = 0\<rparr>,
     ui_subscription = None, ui_payload_hash = ''h'', ui_force_cache = False, ui_has_key_service = True,
     ui_model_source = [], ui_mapped_model = [], ui_original_model = [], ui_client_request_id = ''c1'', ui_local_request_id = []\<rparr>"

definition sample_charge_env :: charge_env where
  "sample_charge_env = \<lparr>ce_usage = sample_env, ce_reserve = 0, ce_platform_limited = False, ce_flusher = False,
     ce_simple_mode = False, ce_default_rate = 2, ce_inject_1h = False, ce_prices = None\<rparr>"

definition haiku_heap :: price_heap where
  "haiku_heap = [''claude-3-haiku'' \<mapsto> haiku_price]"

lemma sample_world: "sound_world sample_charge_env sample_input haiku_heap"
proof -
  have "sound_price haiku_price"
    by code_simp
  then show ?thesis
    by (simp add: sound_world_def sample_charge_env_def sample_input_def sample_result_def haiku_heap_def sound_heap_def
        sound_list_def sound_group_def sound_usage_def)
qed

lemma sample_cost: "fst (input_cost_of sample_charge_env sample_input 2 0 0 haiku_heap) = token_breakdown haiku_price ten_tokens 2 [] True"
proof -
  have "get_model_pricing None haiku_heap ''claude-3-haiku'' = Some (haiku_price, Some ''claude-3-haiku'')"
    by code_simp
  moreover have "billing_model sample_input (prepared_result sample_charge_env sample_input) = ''claude-3-haiku''"
    by code_simp
  moreover have "fr_usage (prepared_result sample_charge_env sample_input) = fr_usage sample_result"
    "fr_image_count (prepared_result sample_charge_env sample_input) = 0"
    by code_simp+
  ultimately show ?thesis
    by (simp add: input_cost_of_def record_usage_cost_def record_token_cost_def channel_pricing_def usage_of_result_def
        calculate_cost_def sample_charge_env_def sample_input_def sample_result_def ten_tokens_def no_tokens_def or_free_def)
qed

lemma sample_actual: "co_actual (token_breakdown haiku_price ten_tokens 2 [] True) = 5"
  by code_simp

lemma sample_untouched: "usage_key (command_of ''x'' sample_charge_env sample_input [] 2 c) \<notin> claimed sample_tables"
  by (simp add: usage_key_def claimed_def sample_tables_def)


definition sample_usage_store :: usage_store where
  "sample_usage_store = \<lparr>st_tabs = sample_tables, st_base = None, st_world = []\<rparr>"

lemma sample_recorded:
  "\<exists>acts s'. run_state (record_usage ''x'' sample_charge_env sample_input [] 2 0 0 haiku_heap) sample_usage_store = (Inr acts, s')"
proof -
  let ?c = "token_breakdown haiku_price ten_tokens 2 [] True"
  let ?cmd = "command_of ''x'' sample_charge_env sample_input [] 2 ?c"
  have c: "sound_cost ?c"
    using recorded_cost_sound [OF sample_world, of 2 0 0] by (simp only: sample_cost)
  have "missing_row ?cmd sample_tables = None"
    using command_costs [OF c refl, where fresh = "''x''" and e = sample_charge_env and i = sample_input and platform = "[]" and rate = 2]
    by (simp add: missing_row_def charges_account_def sample_input_def subscription_billing_def sample_tables_def has_rate_limits_def
        api_key_or_bedrock_def command_fields)
  then have "\<exists>r t. apply_spec sample_env ?cmd sample_tables = Inr (r, t)"
    using sample_untouched claim_of_None [of ?cmd sample_tables] by (simp add: apply_spec_def)
  moreover have "quiet sample_usage_store" "st_base sample_usage_store = None" "\<not> ce_simple_mode sample_charge_env"
    by (simp_all add: sample_usage_store_def quiet_def sample_charge_env_def)
  ultimately show ?thesis
    using record_usage_quiet [OF _ _ _ sample_world sample_cost [symmetric] refl, of sample_usage_store "''x''" "[]"]
    by (auto simp: sample_usage_store_def sample_charge_env_def)
qed

text \<open>
  C5.  Undisturbed, a request recorded for the first time costs its user exactly the cost computed from its
  usage: it is taken from the balance, or added to the usage of the subscription where the group is a
  subscription, never both and never a negative amount; no other user's balance and no other subscription
  changes.  Recorded again it costs nothing.
\<close>

theorem recorded_request_paid:
  assumes "quiet s" and "st_base s = None" and "\<not> ce_simple_mode e" and "sound_world e i h"
    and "c = fst (input_cost_of e i rate limit extra h)" and "cmd = command_of fresh e i platform rate c"
    and "run_state (record_usage fresh e i platform rate limit extra h) s = (Inr acts, s')"
  shows "0 \<le> co_actual c \<and> usage_key cmd \<in> claimed (st_tabs s') \<and>
    (if usage_key cmd \<in> claimed (st_tabs s) then st_tabs s' = st_tabs s else paid i (co_actual c) (st_tabs s) (st_tabs s'))"
proof -
  have c: "sound_cost c"
    using recorded_cost_sound [OF assms(4)] by (simp add: assms(5))
  note k = command_costs [OF c assms(6)]
  obtain r where r: "apply_spec (ce_usage e) cmd (st_tabs s) = Inr (r, st_tabs s')"
    using assms(7) unfolding record_usage_quiet [OF assms(1-6)] by (auto split: sum.splits)
  show ?thesis
  proof (cases "usage_key cmd \<in> claimed (st_tabs s)")
    case True
    then have "claim_of cmd (st_tabs s) \<noteq> None"
      by (simp add: claim_of_None)
    with r True c show ?thesis
      by (auto simp: apply_spec_def sound_cost_def split: option.splits if_splits)
  next
    case False
    then have "st_tabs s' = charge (ce_usage e) cmd (st_tabs s)"
      using r claim_of_None [of cmd "st_tabs s"] by (auto simp: apply_spec_def split: option.splits)
    moreover have "usage_key cmd \<in> claimed (charge (ce_usage e) cmd (st_tabs s))"
      using claimed_as_charge [OF False] by (simp add: claimed_as_def)
    moreover have "paid i (co_actual c) (st_tabs s) (charge (ce_usage e) cmd (st_tabs s))"
    proof (cases "subscription_billing i")
      case True
      then obtain n where "ui_subscription i = Some n"
        by (auto simp: subscription_billing_def)
      with k(9) [OF True] have "ui_subscription i = Some n" "uc_subscription_id cmd = Some n"
        by simp_all
      with True k(1-3) show ?thesis
        by (simp add: paid_def charge_def paying_def)
    next
      case False
      with k(1-3) show ?thesis
        by (simp add: paid_def charge_def paying_def split: option.split)
    qed
    ultimately show ?thesis
      using c False by (simp add: sound_cost_def)
  qed
qed



theorem recorded_request_paid_witness:
  "\<exists>acts s'. run_state (record_usage ''x'' sample_charge_env sample_input [] 2 0 0 haiku_heap) sample_usage_store = (Inr acts, s') \<and>
     ut_balance (st_tabs s') 2 = Some (- 3)"
proof -
  have "quiet sample_usage_store" "st_base sample_usage_store = None" "\<not> ce_simple_mode sample_charge_env"
    by (simp_all add: sample_usage_store_def quiet_def sample_charge_env_def)
  moreover obtain acts s' where
    "run_state (record_usage ''x'' sample_charge_env sample_input [] 2 0 0 haiku_heap) sample_usage_store = (Inr acts, s')"
    using sample_recorded by blast
  moreover have "numeric 8 (- 3) = - 3" "\<not> subscription_billing sample_input" "ui_user_id sample_input = 2"
    by code_simp+
  ultimately show ?thesis
    using recorded_request_paid [OF _ _ _ sample_world sample_cost [symmetric] refl, of sample_usage_store "''x''" "[]" acts s']
      sample_untouched
    by (auto simp: sample_actual paid_def paying_def upd_at_def sample_usage_store_def sample_tables_def)
qed

end
