(* ===== verification/SchedAccounts.thy ===== *)
theory SchedAccounts
  imports ModelNames UsageBilling
begin

section \<open>Upstream accounts as the scheduler sees them\<close>

text \<open>
  \<open>service/account.go\<close>, \<open>service/model_rate_limit.go\<close>, \<open>service/antigravity_quota_scope.go\<close> and the name
  functions they call: whether an account may serve a request, for which models, and within which limits.
  A value of the \<open>extra\<close> and \<open>credentials\<close> maps is held as its reader decodes it, \<open>None\<close> when the key is missing;
  the quota is the record the usage statements of \<open>UsageBilling\<close> write.  Time zones are offsets.
\<close>

record sched_account =
  sa_id :: int64
  sa_platform :: string
  sa_type :: string
  sa_concurrency :: int
  sa_priority :: int
  sa_load_factor :: "int option"
  sa_status :: string
  sa_schedulable :: bool
  sa_last_used :: "time option"
  sa_expires :: "time option"
  sa_auto_pause :: bool
  sa_rate_limit_reset :: "time option"
  sa_overload_until :: "time option"
  sa_temp_until :: "time option"
  sa_window_start :: "time option"
  sa_window_end :: "time option"
  sa_credentials :: "string \<Rightarrow> string"
  sa_raw_mapping :: "(string \<times> string option) list"
  sa_mixed :: bool
  sa_overages :: bool
  sa_passthrough :: "bool option"
  sa_oauth_passthrough :: "bool option"
  sa_window_cost_limit :: "rat option"
  sa_sticky_reserve :: "rat option"
  sa_max_sessions :: "int option"
  sa_idle_minutes :: "int option"
  sa_base_rpm :: "int option"
  sa_rpm_strategy :: "string option"
  sa_rpm_buffer :: "int option"
  sa_limits :: "(string \<times> time) list"
  sa_groups :: "int64 list"
  sa_privacy :: string
  sa_quota :: account_quota

definition is_api_key_or_bedrock :: "sched_account \<Rightarrow> bool" where
  "is_api_key_or_bedrock a \<longleftrightarrow> sa_type a = ''apikey'' \<or> sa_type a = ''bedrock''"

definition is_bedrock :: "sched_account \<Rightarrow> bool" where
  "is_bedrock a \<longleftrightarrow> sa_platform a = ''anthropic'' \<and> sa_type a = ''bedrock''"

definition is_anthropic_oauth :: "sched_account \<Rightarrow> bool" where
  "is_anthropic_oauth a \<longleftrightarrow> sa_platform a = ''anthropic'' \<and> (sa_type a = ''oauth'' \<or> sa_type a = ''setup-token'')"

definition is_privacy_set :: "sched_account \<Rightarrow> bool" where
  "is_privacy_set a \<longleftrightarrow>
     (if sa_platform a = ''openai'' then sa_privacy a = ''training_off''
      else sa_platform a = ''antigravity'' \<longrightarrow> sa_privacy a = ''privacy_set'')"

definition effective_load_factor :: "sched_account \<Rightarrow> int" where
  "effective_load_factor a = (case sa_load_factor a of
     Some f \<Rightarrow> if 0 < f then f else if 0 < sa_concurrency a then sa_concurrency a else 1
   | None \<Rightarrow> if 0 < sa_concurrency a then sa_concurrency a else 1)"

subsection \<open>Quotas\<close>

definition go_rem :: "int \<Rightarrow> int \<Rightarrow> int" where
  "go_rem a b = a - go_div a b * b"

definition reset_of_day :: "int \<Rightarrow> duration \<Rightarrow> time \<Rightarrow> time" where
  "reset_of_day h off t = start_of_day off t + h * hour"

definition next_fixed_daily_reset :: "int \<Rightarrow> duration \<Rightarrow> time \<Rightarrow> time" where
  "next_fixed_daily_reset h off t =
     (let today = reset_of_day h off t in if today \<le> t then today + day else today)"

definition last_fixed_daily_reset :: "int \<Rightarrow> duration \<Rightarrow> time \<Rightarrow> time" where
  "last_fixed_daily_reset h off n =
     (let today = reset_of_day h off n in if n < today then today - day else today)"

definition next_fixed_weekly_reset :: "int \<Rightarrow> int \<Rightarrow> duration \<Rightarrow> time \<Rightarrow> time" where
  "next_fixed_weekly_reset d h off t =
     (let today = reset_of_day h off t; ahead = go_rem (d - day_of_week off today + 7) 7
      in today + (if ahead = 0 \<and> today \<le> t then 7 else ahead) * day)"

definition last_fixed_weekly_reset :: "int \<Rightarrow> int \<Rightarrow> duration \<Rightarrow> time \<Rightarrow> time" where
  "last_fixed_weekly_reset d h off n =
     (let today = reset_of_day h off n; back = go_rem (day_of_week off today - d + 7) 7
      in today - (if back = 0 \<and> n < today then 7 else back) * day)"

definition quota_hour :: "quota_window \<Rightarrow> int" where
  "quota_hour w = (case qw_reset_hour w of None \<Rightarrow> 0 | Some h \<Rightarrow> h)"

definition quota_weekly_day :: "account_quota \<Rightarrow> int" where
  "quota_weekly_day q = (case aq_weekly_day q of None \<Rightarrow> 1 | Some d \<Rightarrow> d)"

text \<open>The zone of the resets, UTC when it has no name or an unknown one.\<close>

definition quota_zone :: "(string \<Rightarrow> duration option) \<Rightarrow> account_quota \<Rightarrow> duration" where
  "quota_zone zones q = (case aq_timezone q of
     None \<Rightarrow> (case zones ''UTC'' of None \<Rightarrow> 0 | Some off \<Rightarrow> off)
   | Some z \<Rightarrow> (case zones (if z = [] then ''UTC'' else z) of None \<Rightarrow> 0 | Some off \<Rightarrow> off))"

definition fixed_daily_expired :: "duration \<Rightarrow> time \<Rightarrow> quota_window \<Rightarrow> bool" where
  "fixed_daily_expired off n w = (case qw_start w of
     None \<Rightarrow> True
   | Some s \<Rightarrow> s < last_fixed_daily_reset (quota_hour w) off n)"

definition fixed_weekly_expired :: "duration \<Rightarrow> int \<Rightarrow> time \<Rightarrow> quota_window \<Rightarrow> bool" where
  "fixed_weekly_expired off d n w = (case qw_start w of
     None \<Rightarrow> True
   | Some s \<Rightarrow> s < last_fixed_weekly_reset d (quota_hour w) off n)"

definition period_expired :: "time \<Rightarrow> duration \<Rightarrow> time option \<Rightarrow> bool" where
  "period_expired n period start = (case start of None \<Rightarrow> True | Some s \<Rightarrow> period \<le> n - s)"

definition daily_quota_expired :: "(string \<Rightarrow> duration option) \<Rightarrow> time \<Rightarrow> account_quota \<Rightarrow> bool" where
  "daily_quota_expired zones n q =
     (if fixed_mode (aq_daily q) then fixed_daily_expired (quota_zone zones q) n (aq_daily q)
      else period_expired n day (qw_start (aq_daily q)))"

definition weekly_quota_expired :: "(string \<Rightarrow> duration option) \<Rightarrow> time \<Rightarrow> account_quota \<Rightarrow> bool" where
  "weekly_quota_expired zones n q =
     (if fixed_mode (aq_weekly q) then fixed_weekly_expired (quota_zone zones q) (quota_weekly_day q) n (aq_weekly q)
      else period_expired n (7 * day) (qw_start (aq_weekly q)))"

definition used_up :: "quota_window \<Rightarrow> bool" where
  "used_up w \<longleftrightarrow> 0 < or_zero (qw_limit w) \<and> or_zero (qw_limit w) \<le> or_zero (qw_used w)"

definition is_quota_exceeded :: "(string \<Rightarrow> duration option) \<Rightarrow> time \<Rightarrow> account_quota \<Rightarrow> bool" where
  "is_quota_exceeded zones n q \<longleftrightarrow>
     (0 < or_zero (aq_limit q) \<and> or_zero (aq_limit q) \<le> or_zero (aq_used q)) \<or>
     (used_up (aq_daily q) \<and> \<not> daily_quota_expired zones n q) \<or>
     (used_up (aq_weekly q) \<and> \<not> weekly_quota_expired zones n q)"

text \<open>What saving the settings of an account does to its fixed windows.\<close>

definition in_range :: "int \<Rightarrow> int \<Rightarrow> int \<Rightarrow> int" where
  "in_range hi dflt x = (if x < 0 \<or> hi < x then dflt else x)"

definition realign :: "time \<Rightarrow> quota_window \<Rightarrow> quota_window" where
  "realign reset w =
     (if fixed_mode w \<and> 0 < or_zero (qw_limit w) \<and> (case qw_start w of None \<Rightarrow> True | Some s \<Rightarrow> s < reset)
      then w\<lparr>qw_used := Some 0, qw_start := Some reset\<rparr> else w)"

definition normalize_fixed_windows :: "(string \<Rightarrow> duration option) \<Rightarrow> time \<Rightarrow> account_quota \<Rightarrow> account_quota" where
  "normalize_fixed_windows zones n q =
     (let off = quota_zone zones q in
      q\<lparr>aq_daily := realign (last_fixed_daily_reset (in_range 23 0 (quota_hour (aq_daily q))) off n) (aq_daily q),
        aq_weekly := realign (last_fixed_weekly_reset (in_range 6 1 (quota_weekly_day q))
           (in_range 23 0 (quota_hour (aq_weekly q))) off n) (aq_weekly q)\<rparr>)"

definition compute_reset_at :: "(string \<Rightarrow> duration option) \<Rightarrow> time \<Rightarrow> account_quota \<Rightarrow> account_quota" where
  "compute_reset_at zones n q =
     (let off = quota_zone zones q in
      q\<lparr>aq_daily := (aq_daily q)\<lparr>qw_reset_at := (if fixed_mode (aq_daily q)
           then Some (next_fixed_daily_reset (in_range 23 0 (quota_hour (aq_daily q))) off n) else None)\<rparr>,
        aq_weekly := (aq_weekly q)\<lparr>qw_reset_at := (if fixed_mode (aq_weekly q)
           then Some (next_fixed_weekly_reset (in_range 6 1 (quota_weekly_day q))
                        (in_range 23 0 (quota_hour (aq_weekly q))) off n) else None)\<rparr>\<rparr>)"

text \<open>The configuration an account may be saved with.\<close>

definition bad_mode :: "string option \<Rightarrow> bool" where
  "bad_mode m \<longleftrightarrow> (case m of None \<Rightarrow> False | Some s \<Rightarrow> s \<noteq> ''rolling'' \<and> s \<noteq> ''fixed'')"

definition out_of :: "int \<Rightarrow> int option \<Rightarrow> bool" where
  "out_of hi x \<longleftrightarrow> (case x of None \<Rightarrow> False | Some v \<Rightarrow> v < 0 \<or> hi < v)"

definition validate_quota_reset :: "(string \<Rightarrow> duration option) \<Rightarrow> account_quota \<Rightarrow> string option" where
  "validate_quota_reset zones q =
     (if (case aq_timezone q of None \<Rightarrow> False | Some z \<Rightarrow> z \<noteq> [] \<and> zones z = None)
        then Some ''invalid quota_reset_timezone: must be a valid IANA timezone name''
      else if bad_mode (qw_mode (aq_daily q)) then Some (''quota_daily_reset_mode must be '' @ [CHR 0x27] @ ''rolling'' @ [CHR 0x27] @ '' or '' @ [CHR 0x27] @ ''fixed'' @ [CHR 0x27])
      else if out_of 23 (qw_reset_hour (aq_daily q)) then Some ''quota_daily_reset_hour must be between 0 and 23''
      else if bad_mode (qw_mode (aq_weekly q)) then Some (''quota_weekly_reset_mode must be '' @ [CHR 0x27] @ ''rolling'' @ [CHR 0x27] @ '' or '' @ [CHR 0x27] @ ''fixed'' @ [CHR 0x27])
      else if out_of 6 (aq_weekly_day q) then Some ''quota_weekly_reset_day must be between 0 (Sunday) and 6 (Saturday)''
      else if out_of 23 (qw_reset_hour (aq_weekly q)) then Some ''quota_weekly_reset_hour must be between 0 and 23''
      else None)"

end
