(* ===== verification/QuotaWindows.thy ===== *)
theory QuotaWindows
  imports SchedAccounts
begin

section \<open>The windows of an account's quota\<close>

text \<open>
  Saving an account (\<open>service/admin_service.go\<close>, \<open>service/account.go\<close>) and charging it (\<open>UsageBilling\<close>) keep the
  stored reset of a fixed window where the scheduler computes it.  Lemmas: the resets of a window are a grid
  (\<open>next_on\<close>, \<open>last_on\<close>), saving establishes \<open>quota_synced\<close>, charging keeps it, and under it the two views agree.
\<close>

subsection \<open>The grid of the resets\<close>

text \<open>
  The instants of a reset are a grid of period \<open>p\<close>; the next one after a moment and the latest one before it are
  given by where they lie.
\<close>

definition next_on :: "int \<Rightarrow> int \<Rightarrow> time \<Rightarrow> time \<Rightarrow> bool" where
  "next_on c p t r \<longleftrightarrow> (\<exists>k. r = c + k * p) \<and> t < r \<and> r \<le> t + p"

definition last_on :: "int \<Rightarrow> int \<Rightarrow> time \<Rightarrow> time \<Rightarrow> bool" where
  "last_on c p t r \<longleftrightarrow> (\<exists>k. r = c + k * p) \<and> r \<le> t \<and> t < r + p"

lemma grid_order: "0 < p \<Longrightarrow> c + k * p < c + j * p + p \<Longrightarrow> c + k * p \<le> c + j * (p::int)"
proof -
  assume "0 < p" "c + k * p < c + j * p + p"
  then have "k * p < (j + 1) * p" by (simp add: algebra_simps)
  then have "k \<le> j" using \<open>0 < p\<close> by (simp add: mult_less_cancel_right)
  then show ?thesis using \<open>0 < p\<close> by (simp add: mult_right_mono)
qed

lemma next_last_agree:
  assumes "0 < p" "next_on c p s r" "last_on c p n l"
  shows "r \<le> n \<longleftrightarrow> s < l"
proof -
  obtain k j where "r = c + k * p" "l = c + j * p" using assms by (auto simp: next_on_def last_on_def)
  then have "r < l + p \<Longrightarrow> r \<le> l" using grid_order [OF \<open>0 < p\<close>] by blast
  then show ?thesis using assms(2,3) unfolding next_on_def last_on_def by linarith
qed

lemma next_on_unique: "0 < p \<Longrightarrow> next_on c p s r \<Longrightarrow> next_on c p s r' \<Longrightarrow> r = r'"
proof -
  assume a: "0 < p" "next_on c p s r" "next_on c p s r'"
  then obtain k j where "r = c + k * p" "r' = c + j * p" by (auto simp: next_on_def)
  then have "r < r' + p \<Longrightarrow> r \<le> r'" "r' < r + p \<Longrightarrow> r' \<le> r" using grid_order [OF a(1)] by blast+
  then show ?thesis using a(2,3) unfolding next_on_def by linarith
qed

lemma last_next: "0 < p \<Longrightarrow> last_on c p t l \<Longrightarrow> l \<le> s \<Longrightarrow> s \<le> t \<Longrightarrow> next_on c p s (l + p)"
proof -
  assume a: "last_on c p t l" "l \<le> s" "s \<le> t"
  then obtain k where "l = c + k * p" by (auto simp: last_on_def)
  then have "l + p = c + (k + 1) * p" by (simp add: algebra_simps)
  then show ?thesis using a by (auto simp: next_on_def last_on_def)
qed

lemma same_next:
  assumes "0 < p" "last_on c p t l" "l \<le> s" "s \<le> t" "next_on c p s r" "next_on c p t r'"
  shows "r' = r"
  using next_on_unique [OF assms(1)] last_next [OF assms(1,2)] assms last_on_def by blast

abbreviation valid_hour :: "int \<Rightarrow> bool" where
  "valid_hour h \<equiv> 0 \<le> h \<and> h \<le> 23"

abbreviation valid_weekday :: "int \<Rightarrow> bool" where
  "valid_weekday d \<equiv> 0 \<le> d \<and> d \<le> 6"

lemma reset_of_day_near:
  assumes "valid_hour h"
  shows "t - day < reset_of_day h off t" "reset_of_day h off t < t + day"
proof -
  have "0 \<le> (t + off) mod day" "(t + off) mod day < day" by simp_all
  moreover have "0 \<le> h * hour" "h * hour < day" using assms by simp_all
  ultimately show "t - day < reset_of_day h off t" "reset_of_day h off t < t + day"
    unfolding reset_of_day_def start_of_day_def by linarith+
qed

lemma reset_of_day_grid: "reset_of_day h off t = (h * hour - off) + ((t + off) div day) * day"
proof -
  have "(t + off) div day * day + (t + off) mod day = t + off" by (rule div_mult_mod_eq)
  then show ?thesis unfolding reset_of_day_def start_of_day_def by linarith
qed

lemma next_daily_on:
  assumes "valid_hour h"
  shows "next_on (h * hour - off) day t (next_fixed_daily_reset h off t)"
proof -
  let ?r = "reset_of_day h off t" and ?j = "(t + off) div day"
  have "?r = (h * hour - off) + ?j * day" "?r + day = (h * hour - off) + (?j + 1) * day"
    by (simp_all add: reset_of_day_grid)
  then have "\<exists>k. ?r = (h * hour - off) + k * day" "\<exists>k. ?r + day = (h * hour - off) + k * day" by blast+
  then show ?thesis
    using reset_of_day_near [OF assms, where t = t and off = off] by (simp add: next_on_def next_fixed_daily_reset_def Let_def)
qed

lemma last_daily_on:
  assumes "valid_hour h"
  shows "last_on (h * hour - off) day t (last_fixed_daily_reset h off t)"
proof -
  let ?r = "reset_of_day h off t" and ?j = "(t + off) div day"
  have "?r = (h * hour - off) + ?j * day" "?r - day = (h * hour - off) + (?j - 1) * day"
    by (simp_all add: reset_of_day_grid)
  then have "\<exists>k. ?r = (h * hour - off) + k * day" "\<exists>k. ?r - day = (h * hour - off) + k * day" by blast+
  then show ?thesis
    using reset_of_day_near [OF assms, where t = t and off = off] by (simp add: last_on_def last_fixed_daily_reset_def Let_def)
qed

lemma day_of_reset:
  assumes "valid_hour h"
  shows "day_of_week off (reset_of_day h off t) = ((t + off) div day + 4) mod 7"
proof -
  have "reset_of_day h off t + off = h * hour + ((t + off) div day) * day" by (simp add: reset_of_day_grid)
  moreover have "(h * hour + ((t + off) div day) * day) div day = (t + off) div day + h * hour div day" by simp
  moreover have "h * hour div day = 0" using assms by simp
  ultimately show ?thesis by (simp add: day_of_week_def)
qed

lemma go_rem_7: "0 \<le> a \<Longrightarrow> go_rem a 7 = a mod 7"
  by (simp add: go_rem_def minus_div_mult_eq_mod)

lemma week_grid: "(x + 4 + m) mod 7 = d mod (7::int) \<Longrightarrow> \<exists>k. x + m = d - 4 + k * 7"
proof -
  assume "(x + 4 + m) mod 7 = d mod 7"
  then have "7 dvd x + 4 + m - d" by (simp add: mod_eq_dvd_iff)
  then obtain k where "x + 4 + m - d = 7 * k" ..
  then show ?thesis by (intro exI [of _ k]) simp
qed

lemma week_shift:
  assumes "x + a = d - 4 + k * (7::int)"
  shows "\<exists>j. g + x * day + (a + i * 7) * day = g + (d - 4) * day + j * (7 * day)"
proof -
  have "x * day + (a + i * 7) * day = (x + a + i * 7) * day" by (simp add: distrib_right)
  also have "x + a + i * 7 = d - 4 + (k + i) * 7" using assms by simp
  also have "\<dots> * day = (d - 4) * day + (k + i) * (7 * day)" by (simp add: distrib_right)
  finally show ?thesis by (intro exI [of _ "k + i"]) simp
qed

lemma next_weekly_on:
  assumes "valid_hour h" "valid_weekday d"
  shows "next_on ((d - 4) * day + h * hour - off) (7 * day) t (next_fixed_weekly_reset d h off t)"
proof -
  let ?x = "(t + off) div day" and ?r = "reset_of_day h off t"
  define a where "a = (d - (?x + 4) mod 7 + 7) mod 7"
  have w: "0 \<le> (?x + 4) mod 7" "(?x + 4) mod 7 < 7" by simp_all
  have a: "go_rem (d - day_of_week off ?r + 7) 7 = a"
    unfolding a_def day_of_reset [OF assms(1)] by (rule go_rem_7) (use w assms in linarith)
  have a7: "0 \<le> a" "a \<le> 6" unfolding a_def by simp_all
  have "(?x + 4 + a) mod 7 = d mod 7" unfolding a_def by (simp add: mod_simps)
  then obtain k where k: "?x + a = d - 4 + k * 7" using week_grid by blast
  have grid: "\<exists>j. ?r + (a + i * 7) * day = ((d - 4) * day + h * hour - off) + j * (7 * day)" for i
    unfolding reset_of_day_grid using week_shift [OF k, of "h * hour - off" i] by (simp only: ac_simps diff_conv_add_uminus)
  show ?thesis
    using reset_of_day_near [OF assms(1), where t = t and off = off] a7 grid [of 0] grid [of 1]
    by (cases "a = 0"; cases "?r \<le> t") (auto simp: next_on_def next_fixed_weekly_reset_def Let_def a)
qed

lemma last_weekly_on:
  assumes "valid_hour h" "valid_weekday d"
  shows "last_on ((d - 4) * day + h * hour - off) (7 * day) t (last_fixed_weekly_reset d h off t)"
proof -
  let ?x = "(t + off) div day" and ?r = "reset_of_day h off t"
  define a where "a = ((?x + 4) mod 7 - d + 7) mod 7"
  have w: "0 \<le> (?x + 4) mod 7" "(?x + 4) mod 7 < 7" by simp_all
  have a: "go_rem (day_of_week off ?r - d + 7) 7 = a"
    unfolding a_def day_of_reset [OF assms(1)] by (rule go_rem_7) (use w assms in linarith)
  have a7: "0 \<le> a" "a \<le> 6" unfolding a_def by simp_all
  have "(?x + 4 + - a) mod 7 = d mod 7" unfolding a_def by (simp add: mod_simps)
  then obtain k where k: "?x + - a = d - 4 + k * 7" using week_grid by blast
  have grid: "\<exists>j. ?r + (- a + i * 7) * day = ((d - 4) * day + h * hour - off) + j * (7 * day)" for i
    unfolding reset_of_day_grid using week_shift [OF k, of "h * hour - off" i] by (simp only: ac_simps diff_conv_add_uminus)
  show ?thesis
    using reset_of_day_near [OF assms(1), where t = t and off = off] a7 grid [of 0] grid [of "- 1"]
    by (cases "a = 0"; cases "t < ?r") (auto simp: last_on_def last_fixed_weekly_reset_def Let_def a)
qed


definition save_quota :: "(string \<Rightarrow> duration option) \<Rightarrow> time \<Rightarrow> account_quota \<Rightarrow> string + account_quota" where
  "save_quota zones n q = (case validate_quota_reset zones q of
     Some e \<Rightarrow> Inl e
   | None \<Rightarrow> Inr (normalize_fixed_windows zones n (compute_reset_at zones n q)))"

definition valid_config :: "account_quota \<Rightarrow> bool" where
  "valid_config q \<longleftrightarrow> valid_hour (quota_hour (aq_daily q)) \<and> valid_hour (quota_hour (aq_weekly q)) \<and>
     valid_weekday (quota_weekly_day q)"

definition synced :: "(time \<Rightarrow> time) \<Rightarrow> quota_window \<Rightarrow> bool" where
  "synced next w \<longleftrightarrow> (fixed_mode w \<and> 0 < or_zero (qw_limit w) \<longrightarrow>
     (\<exists>s. qw_start w = Some s \<and> qw_reset_at w = Some (next s)))"

definition quota_synced :: "(string \<Rightarrow> duration option) \<Rightarrow> account_quota \<Rightarrow> bool" where
  "quota_synced zones q \<longleftrightarrow> valid_config q \<and>
     synced (next_fixed_daily_reset (quota_hour (aq_daily q)) (quota_zone zones q)) (aq_daily q) \<and>
     synced (next_fixed_weekly_reset (quota_weekly_day q) (quota_hour (aq_weekly q)) (quota_zone zones q)) (aq_weekly q)"

text \<open>The zones of the process and those of the database.\<close>

definition same_zones :: "(string \<Rightarrow> duration option) \<Rightarrow> usage_env \<Rightarrow> account_quota \<Rightarrow> bool" where
  "same_zones zones env q \<longleftrightarrow> ue_zone env (case aq_timezone q of None \<Rightarrow> ''UTC'' | Some z \<Rightarrow> z) = quota_zone zones q"

definition started_by :: "time \<Rightarrow> account_quota \<Rightarrow> bool" where
  "started_by n q \<longleftrightarrow> (\<forall>w \<in> {aq_daily q, aq_weekly q}. case qw_start w of None \<Rightarrow> True | Some s \<Rightarrow> s \<le> n)"

lemma valid_config_iff: "validate_quota_reset zones q = None \<Longrightarrow> valid_config q"
  by (auto simp: validate_quota_reset_def valid_config_def out_of_def quota_hour_def quota_weekly_day_def
      split: if_splits option.splits)

subsection \<open>Saving\<close>

lemma synced_realign:
  assumes "0 < p" "\<And>t. next_on c p t (nxt t)" "last_on c p n l"
    and "\<And>s. qw_start w = Some s \<Longrightarrow> s \<le> n" "fixed_mode w \<Longrightarrow> qw_reset_at w = Some (nxt n)"
  shows "synced nxt (realign l w)"
proof -
  have n: "nxt n = nxt s" if "l \<le> s" "s \<le> n" for s
    using same_next [OF assms(1,3) that assms(2) assms(2)] .
  have l: "nxt n = nxt l" using n assms(3) by (simp add: last_on_def)
  show ?thesis
  proof (cases "qw_start w")
    case None
    then show ?thesis using assms(5) l by (simp add: synced_def realign_def fixed_mode_def)
  next
    case (Some s)
    show ?thesis
    proof (cases "s < l")
      case True
      then show ?thesis using Some assms(5) l by (auto simp: synced_def realign_def fixed_mode_def)
    next
      case False
      then have "nxt n = nxt s" using n assms(4) Some by simp
      then show ?thesis using Some False assms(5) by (simp add: synced_def realign_def fixed_mode_def)
    qed
  qed
qed

lemma save_synced:
  assumes "save_quota zones n q = Inr q'" "started_by n q"
  shows "quota_synced zones q'"
proof -
  have v: "valid_config q" and q': "q' = normalize_fixed_windows zones n (compute_reset_at zones n q)"
    using assms(1) valid_config_iff by (auto simp: save_quota_def split: option.splits)
  let ?off = "quota_zone zones q" and ?h = "quota_hour (aq_daily q)" and ?hw = "quota_hour (aq_weekly q)"
    and ?d = "quota_weekly_day q"
  have z: "quota_zone zones (compute_reset_at zones n q) = ?off" "quota_zone zones q' = ?off"
    "quota_weekly_day (compute_reset_at zones n q) = ?d" "quota_weekly_day q' = ?d"
    "quota_hour (aq_daily (compute_reset_at zones n q)) = ?h" "quota_hour (aq_daily q') = ?h"
    "quota_hour (aq_weekly (compute_reset_at zones n q)) = ?hw" "quota_hour (aq_weekly q') = ?hw"
    by (simp_all add: q' quota_zone_def quota_weekly_day_def quota_hour_def compute_reset_at_def
        normalize_fixed_windows_def realign_def Let_def)
  have r: "in_range 23 0 ?h = ?h" "in_range 23 0 ?hw = ?hw" "in_range 6 1 ?d = ?d"
    using v by (simp_all add: in_range_def valid_config_def)
  have vs: "valid_hour ?h" "valid_hour ?hw" "valid_weekday ?d" using v by (simp_all add: valid_config_def)
  have "synced (next_fixed_daily_reset ?h ?off) (aq_daily q')"
    unfolding q' normalize_fixed_windows_def Let_def z r account_quota.simps
    by (simp, rule synced_realign [OF _ next_daily_on [OF vs(1)] last_daily_on [OF vs(1)]])
      (use assms(2) in \<open>auto simp: compute_reset_at_def Let_def r started_by_def fixed_mode_def\<close>)
  moreover have "synced (next_fixed_weekly_reset ?d ?hw ?off) (aq_weekly q')"
    unfolding q' normalize_fixed_windows_def Let_def z r account_quota.simps
    by (simp, rule synced_realign [OF _ next_weekly_on [OF vs(2,3)] last_weekly_on [OF vs(2,3)]])
      (use assms(2) in \<open>auto simp: compute_reset_at_def Let_def r started_by_def fixed_mode_def\<close>)
  moreover have "valid_config q'" using v by (simp add: valid_config_def z)
  ultimately show ?thesis by (simp add: quota_synced_def z)
qed

subsection \<open>Spending\<close>

lemma sql_daily_reset: "fixed_mode w \<Longrightarrow> next_daily_reset_at off w n = Some (next_fixed_daily_reset (quota_hour w) off n)"
  by (simp add: next_daily_reset_at_def next_fixed_daily_reset_def todays_reset_def reset_of_day_def quota_hour_def Let_def)

lemma sql_weekly_reset:
  assumes "fixed_mode w" "valid_hour (quota_hour w)"
  shows "next_weekly_reset_at off target w n =
    Some (next_fixed_weekly_reset (case target of None \<Rightarrow> 1 | Some d \<Rightarrow> d) (quota_hour w) off n)"
proof -
  have "todays_reset off w n = reset_of_day (quota_hour w) off n"
    by (simp add: todays_reset_def reset_of_day_def quota_hour_def)
  moreover have "day_of_week off (reset_of_day (quota_hour w) off n) = day_of_week off n"
    by (subst day_of_reset [OF assms(2)]) (simp only: day_of_week_def)
  ultimately show ?thesis using assms(1)
    by (simp add: next_weekly_reset_at_def next_fixed_weekly_reset_def go_rem_def Let_def)
qed

lemma spend_window_synced:
  assumes "synced nxt w" "fixed_mode w \<Longrightarrow> r = Some (nxt n)"
  shows "synced nxt (spend_window n period r amount w)"
  using assms by (auto simp: synced_def spend_window_def Let_def fixed_mode_def)

lemma spend_window_config [simp]:
  "fixed_mode (spend_window n period r amount w) = fixed_mode w"
  "quota_hour (spend_window n period r amount w) = quota_hour w"
  "qw_limit (spend_window n period r amount w) = qw_limit w"
  by (simp_all add: spend_window_def fixed_mode_def quota_hour_def Let_def)

lemma spend_quota_config [simp]:
  "aq_timezone (spend_quota env n amount q) = aq_timezone q" "aq_weekly_day (spend_quota env n amount q) = aq_weekly_day q"
  by (simp_all add: spend_quota_def Let_def)

lemma spend_synced:
  assumes "quota_synced zones q" "same_zones zones env q"
  shows "quota_synced zones (spend_quota env n amount q) \<and> same_zones zones env (spend_quota env n amount q)"
proof -
  let ?q = "spend_quota env n amount q"
  have z: "quota_zone zones ?q = quota_zone zones q" "quota_weekly_day ?q = quota_weekly_day q"
    by (simp_all add: quota_zone_def quota_weekly_day_def)
  have w: "aq_daily ?q = spend_window n day (next_daily_reset_at (quota_zone zones q) (aq_daily q) n) amount (aq_daily q)"
    "aq_weekly ?q = spend_window n (7 * day) (next_weekly_reset_at (quota_zone zones q) (aq_weekly_day q) (aq_weekly q) n)
       amount (aq_weekly q)"
    using assms(2) by (simp_all add: spend_quota_def same_zones_def Let_def)
  show ?thesis using assms
    by (auto simp: quota_synced_def same_zones_def z w valid_config_def sql_daily_reset sql_weekly_reset quota_weekly_day_def
        intro!: spend_window_synced)
qed

definition spend_all :: "usage_env \<Rightarrow> (time \<times> rat) list \<Rightarrow> account_quota \<Rightarrow> account_quota" where
  "spend_all env = fold (\<lambda>(n, amount). spend_quota env n amount)"

lemma spend_all_synced:
  "quota_synced zones q \<Longrightarrow> same_zones zones env q \<Longrightarrow>
   quota_synced zones (spend_all env us q) \<and> same_zones zones env (spend_all env us q)"
proof (induction us arbitrary: q)
  case (Cons u us)
  obtain n amount where u: "u = (n, amount)" by (cases u)
  show ?case using Cons.IH spend_synced [OF Cons.prems] by (simp add: spend_all_def u)
qed (simp add: spend_all_def)

subsection \<open>The two views\<close>

lemma synced_views:
  assumes "0 < p" "\<And>t. next_on c p t (nxt t)" "last_on c p n l" "synced nxt w" "fixed_mode w" "0 < or_zero (qw_limit w)"
  shows "(case qw_start w of None \<Rightarrow> True | Some s \<Rightarrow> s < l) = quota_expired n p w"
proof -
  obtain s where s: "qw_start w = Some s" "qw_reset_at w = Some (nxt s)" using assms(4-6) by (auto simp: synced_def)
  have "nxt s \<le> n \<longleftrightarrow> s < l" by (rule next_last_agree [OF assms(1) assms(2) assms(3)])
  then show ?thesis using s assms(5) by (simp add: quota_expired_def)
qed

lemma rolling_views: "\<not> fixed_mode w \<Longrightarrow> p \<le> n \<Longrightarrow> period_expired n p (qw_start w) = quota_expired n p w"
  by (cases "qw_start w") (auto simp: period_expired_def quota_expired_def)

lemma synced_daily:
  assumes "quota_synced zones q" "0 < or_zero (qw_limit (aq_daily q))" "day \<le> n"
  shows "daily_quota_expired zones n q = quota_expired n day (aq_daily q)"
proof (cases "fixed_mode (aq_daily q)")
  case True
  have v: "valid_hour (quota_hour (aq_daily q))" and s: "synced (next_fixed_daily_reset (quota_hour (aq_daily q)) (quota_zone zones q)) (aq_daily q)"
    using assms(1) by (simp_all add: quota_synced_def valid_config_def)
  show ?thesis
    using synced_views [OF _ next_daily_on [OF v] last_daily_on [OF v] s True assms(2)] True
    by (simp add: daily_quota_expired_def fixed_daily_expired_def)
next
  case False then show ?thesis using rolling_views [OF False assms(3)] by (simp add: daily_quota_expired_def)
qed

lemma synced_weekly:
  assumes "quota_synced zones q" "0 < or_zero (qw_limit (aq_weekly q))" "7 * day \<le> n"
  shows "weekly_quota_expired zones n q = quota_expired n (7 * day) (aq_weekly q)"
proof (cases "fixed_mode (aq_weekly q)")
  case True
  have v: "valid_hour (quota_hour (aq_weekly q))" "valid_weekday (quota_weekly_day q)"
    and s: "synced (next_fixed_weekly_reset (quota_weekly_day q) (quota_hour (aq_weekly q)) (quota_zone zones q)) (aq_weekly q)"
    using assms(1) by (simp_all add: quota_synced_def valid_config_def)
  show ?thesis
    using synced_views [OF _ next_weekly_on [OF v] last_weekly_on [OF v] s True assms(2)] True
    by (simp add: weekly_quota_expired_def fixed_weekly_expired_def)
next
  case False then show ?thesis using rolling_views [OF False assms(3)] by (simp add: weekly_quota_expired_def)
qed



text \<open>An account whose day starts at eight, saved with yesterday's start, then charged before and after the next reset.\<close>

definition morning_quota :: account_quota where
  "morning_quota = \<lparr>aq_used = Some 3, aq_limit = None, aq_timezone = Some ''Asia/Shanghai'',
     aq_daily = \<lparr>qw_limit = Some 5, qw_used = Some 4, qw_start = Some (20000 * day), qw_mode = Some ''fixed'',
       qw_reset_at = None, qw_reset_hour = Some 8\<rparr>,
     aq_weekly = \<lparr>qw_limit = None, qw_used = None, qw_start = None, qw_mode = None, qw_reset_at = None, qw_reset_hour = None\<rparr>,
     aq_weekly_day = None\<rparr>"

definition shanghai_zones :: "string \<Rightarrow> duration option" where
  "shanghai_zones z = (if z = ''UTC'' then Some 0 else if z = ''Asia/Shanghai'' then Some (8 * hour) else None)"

definition shanghai_env :: usage_env where
  "shanghai_env = \<lparr>ue_hash = (\<lambda>s. s), ue_tz = 0, ue_zone = (\<lambda>z. if z = ''UTC'' then 0 else 8 * hour)\<rparr>"

definition saved_quota :: account_quota where
  "saved_quota = morning_quota\<lparr>aq_daily := (aq_daily morning_quota)\<lparr>qw_used := Some 0, qw_start := Some (20001 * day),
     qw_reset_at := Some (20002 * day)\<rparr>\<rparr>"

lemma save_morning: "save_quota shanghai_zones (20001 * day + hour) morning_quota = Inr saved_quota"
  by code_simp

lemma morning_setting: "started_by (20001 * day + hour) morning_quota" "same_zones shanghai_zones shanghai_env saved_quota"
  by (simp_all add: started_by_def morning_quota_def saved_quota_def same_zones_def quota_zone_def shanghai_zones_def shanghai_env_def)


end
