(* ===== verification/AccountModels.thy ===== *)
theory AccountModels
  imports SchedAccounts Float64
begin

section \<open>The models of an account\<close>

text \<open>
  The model mapping of an account (\<open>service/account.go\<close>), the names the platforms give a model
  (\<open>service/antigravity_gateway_service.go\<close>, \<open>service/bedrock_request.go\<close>, \<open>pkg/claude\<close>,
  \<open>service/vertex_service_account.go\<close>), the limits set per model (\<open>service/model_rate_limit.go\<close>) and whether an
  account may be scheduled.  A map is the list of its entries in the order in which Go visits it, each key once.
\<close>

subsection \<open>Mappings\<close>

type_synonym mapping_table = "(string \<times> string) list"

definition default_antigravity_mapping :: mapping_table where
  "default_antigravity_mapping =
     [(''claude-fable-5'', ''claude-fable-5''), (''claude-opus-4-8'', ''claude-opus-4-8''),
      (''claude-opus-4-7'', ''claude-opus-4-7''), (''claude-opus-4-6-thinking'', ''claude-opus-4-6-thinking''),
      (''claude-opus-4-6'', ''claude-opus-4-6-thinking''), (''claude-opus-4-5-thinking'', ''claude-opus-4-6-thinking''),
      (''claude-sonnet-4-6'', ''claude-sonnet-4-6''), (''claude-sonnet-4-5'', ''claude-sonnet-4-5''),
      (''claude-sonnet-4-5-thinking'', ''claude-sonnet-4-5-thinking''),
      (''claude-opus-4-5-20251101'', ''claude-opus-4-6-thinking''),
      (''claude-sonnet-4-5-20250929'', ''claude-sonnet-4-5''), (''claude-haiku-4-5'', ''claude-sonnet-4-6''),
      (''claude-haiku-4-5-20251001'', ''claude-sonnet-4-6''), (''gemini-2.5-flash'', ''gemini-2.5-flash''),
      (''gemini-2.5-flash-image'', ''gemini-2.5-flash-image''),
      (''gemini-2.5-flash-image-preview'', ''gemini-2.5-flash-image''),
      (''gemini-2.5-flash-lite'', ''gemini-2.5-flash-lite''),
      (''gemini-2.5-flash-thinking'', ''gemini-2.5-flash-thinking''), (''gemini-2.5-pro'', ''gemini-2.5-pro''),
      (''gemini-3-flash'', ''gemini-3-flash''), (''gemini-3-pro-high'', ''gemini-3-pro-high''),
      (''gemini-3-pro-low'', ''gemini-3-pro-low''), (''gemini-3-flash-preview'', ''gemini-3-flash''),
      (''gemini-3-pro-preview'', ''gemini-3-pro-high''), (''gemini-3.1-pro-high'', ''gemini-3.1-pro-high''),
      (''gemini-3.1-pro-low'', ''gemini-3.1-pro-low''), (''gemini-3.1-pro-preview'', ''gemini-3.1-pro-high''),
      (''gemini-3.1-flash-image'', ''gemini-3.1-flash-image''),
      (''gemini-3.1-flash-image-preview'', ''gemini-3.1-flash-image''),
      (''gemini-3-pro-image'', ''gemini-3.1-flash-image''), (''gemini-3-pro-image-preview'', ''gemini-3.1-flash-image''),
      (''gpt-oss-120b-medium'', ''gpt-oss-120b-medium''), (''tab_flash_lite_preview'', ''tab_flash_lite_preview'')]"

definition default_bedrock_mapping :: mapping_table where
  "default_bedrock_mapping =
     [(''claude-fable-5'', ''anthropic.claude-fable-5''), (''claude-opus-4-8'', ''us.anthropic.claude-opus-4-8-v1''),
      (''claude-opus-4-7'', ''us.anthropic.claude-opus-4-7-v1''),
      (''claude-opus-4-6-thinking'', ''us.anthropic.claude-opus-4-6-v1''),
      (''claude-opus-4-6'', ''us.anthropic.claude-opus-4-6-v1''),
      (''claude-opus-4-5-thinking'', ''us.anthropic.claude-opus-4-5-20251101-v1:0''),
      (''claude-opus-4-5-20251101'', ''us.anthropic.claude-opus-4-5-20251101-v1:0''),
      (''claude-opus-4-1'', ''us.anthropic.claude-opus-4-1-20250805-v1:0''),
      (''claude-opus-4-20250514'', ''us.anthropic.claude-opus-4-20250514-v1:0''),
      (''claude-sonnet-4-6-thinking'', ''us.anthropic.claude-sonnet-4-6''),
      (''claude-sonnet-4-6'', ''us.anthropic.claude-sonnet-4-6''),
      (''claude-sonnet-4-5'', ''us.anthropic.claude-sonnet-4-5-20250929-v1:0''),
      (''claude-sonnet-4-5-thinking'', ''us.anthropic.claude-sonnet-4-5-20250929-v1:0''),
      (''claude-sonnet-4-5-20250929'', ''us.anthropic.claude-sonnet-4-5-20250929-v1:0''),
      (''claude-sonnet-4-20250514'', ''us.anthropic.claude-sonnet-4-20250514-v1:0''),
      (''claude-haiku-4-5'', ''us.anthropic.claude-haiku-4-5-20251001-v1:0''),
      (''claude-haiku-4-5-20251001'', ''us.anthropic.claude-haiku-4-5-20251001-v1:0'')]"

definition xai_models :: "string list" where
  "xai_models = [''grok-4.3'', ''grok-build-0.1'', ''grok-4.20-0309-reasoning'', ''grok-4.20-0309-non-reasoning'',
     ''grok-4.20-multi-agent-0309'']"

definition default_xai_mapping :: mapping_table where
  "default_xai_mapping = map (\<lambda>m. (m, m)) xai_models @
     [(''grok'', ''grok-4.3''), (''grok-latest'', ''grok-4.3''), (''grok-build'', ''grok-build-0.1''),
      (''grok-4.20-reasoning'', ''grok-4.20-0309-reasoning''), (''grok-4.20-non-reasoning'', ''grok-4.20-0309-non-reasoning'')]"

text \<open>A pattern matches by its prefix when it ends with a star.\<close>

definition match_wildcard :: "string \<Rightarrow> string \<Rightarrow> bool" where
  "match_wildcard pattern s = (if has_suffix pattern ''*'' then has_prefix s (butlast pattern) else pattern = s)"

definition ensure_passthrough :: "string \<Rightarrow> mapping_table \<Rightarrow> mapping_table" where
  "ensure_passthrough model m =
     (if model = [] \<or> map_of m model \<noteq> None \<or> list_ex (\<lambda>e. match_wildcard (fst e) model) m then m else m @ [(model, model)])"

definition ensure_passthroughs :: "string list \<Rightarrow> mapping_table \<Rightarrow> mapping_table" where
  "ensure_passthroughs models m = fold ensure_passthrough models m"

definition string_entries :: "(string \<times> string option) list \<Rightarrow> mapping_table" where
  "string_entries raw = List.map_filter (\<lambda>(k, v). map_option (\<lambda>t. (k, t)) v) raw"

definition platform_mapping :: "string \<Rightarrow> mapping_table" where
  "platform_mapping p = (if p = ''antigravity'' then default_antigravity_mapping
     else if p = ''grok'' then default_xai_mapping else [])"

definition model_mapping :: "sched_account \<Rightarrow> mapping_table" where
  "model_mapping a = (let m = string_entries (sa_raw_mapping a) in
     if m = [] then platform_mapping (sa_platform a)
     else if sa_platform a = ''antigravity''
       then ensure_passthroughs [''gemini-3-flash'', ''gemini-3.1-pro-high'', ''gemini-3.1-pro-low''] m
     else m)"

text \<open>Of the patterns that match, the longest, and of those the first in the order of bytes.\<close>

fun bytes_less :: "string \<Rightarrow> string \<Rightarrow> bool" where
  "bytes_less _ [] = False"
| "bytes_less [] (_ # _) = True"
| "bytes_less (a # s) (b # t) = (of_char a < (of_char b :: nat) \<or> a = b \<and> bytes_less s t)"

definition pattern_before :: "string \<Rightarrow> string \<Rightarrow> bool" where
  "pattern_before p q \<longleftrightarrow> length q < length p \<or> length p = length q \<and> bytes_less p q"

fun first_match :: "mapping_table \<Rightarrow> (string \<times> string) option" where
  "first_match [] = None"
| "first_match (e # es) = (case first_match es of
     None \<Rightarrow> Some e
   | Some f \<Rightarrow> Some (if pattern_before (fst f) (fst e) then f else e))"

definition match_wildcard_mapping :: "mapping_table \<Rightarrow> string \<Rightarrow> string \<times> bool" where
  "match_wildcard_mapping m r = (case first_match (filter (\<lambda>e. match_wildcard (fst e) r) m) of
     None \<Rightarrow> (r, False) | Some e \<Rightarrow> (snd e, True))"

definition normalize_requested :: "string \<Rightarrow> string \<Rightarrow> string" where
  "normalize_requested platform r = (let t = trim_space r in
     if t = [] then []
     else if platform \<noteq> ''gemini'' \<and> platform \<noteq> ''antigravity'' then t
     else if t = ''gemini-3.1-pro-preview-customtools'' then ''gemini-3.1-pro-preview'' else t)"

definition mapping_supports :: "mapping_table \<Rightarrow> string \<Rightarrow> bool" where
  "mapping_supports m r \<longleftrightarrow> r \<noteq> [] \<and> (map_of m r \<noteq> None \<or> list_ex (\<lambda>e. match_wildcard (fst e) r) m)"

definition resolve_in_mapping :: "mapping_table \<Rightarrow> string \<Rightarrow> string \<times> bool" where
  "resolve_in_mapping m r = (if r = [] then ([], False) else
     case map_of m r of Some t \<Rightarrow> (t, True) | None \<Rightarrow> match_wildcard_mapping m r)"

definition is_model_supported :: "sched_account \<Rightarrow> string \<Rightarrow> bool" where
  "is_model_supported a r = (let m = model_mapping a; n = normalize_requested (sa_platform a) r in
     m = [] \<or> mapping_supports m r \<or> (n \<noteq> r \<and> mapping_supports m n))"

definition resolve_mapped_model :: "sched_account \<Rightarrow> string \<Rightarrow> string \<times> bool" where
  "resolve_mapped_model a r = (let m = model_mapping a; n = normalize_requested (sa_platform a) r in
     if m = [] then (r, False)
     else if snd (resolve_in_mapping m r) then resolve_in_mapping m r
     else if n \<noteq> r \<and> snd (resolve_in_mapping m n) then resolve_in_mapping m n
     else (r, False))"

definition mapped_model :: "sched_account \<Rightarrow> string \<Rightarrow> string" where
  "mapped_model a r = fst (resolve_mapped_model a r)"

subsection \<open>Names of the platforms\<close>

definition map_antigravity_model :: "sched_account \<Rightarrow> string \<Rightarrow> string" where
  "map_antigravity_model a requested = (let r = trim_prefix requested ''models/''; t = mapped_model a r in
     if model_mapping a = [] then []
     else if t \<noteq> r then t
     else if is_model_supported a r then r else [])"

definition apply_thinking_suffix :: "string \<Rightarrow> bool \<Rightarrow> string" where
  "apply_thinking_suffix m thinking =
     (if thinking \<and> m = ''claude-sonnet-4-5'' then ''claude-sonnet-4-5-thinking'' else m)"

definition normalize_claude_id :: "string \<Rightarrow> string" where
  "normalize_claude_id m = (case map_of
     [(''claude-sonnet-4-5'', ''claude-sonnet-4-5-20250929''), (''claude-opus-4-5'', ''claude-opus-4-5-20251101''),
      (''claude-haiku-4-5'', ''claude-haiku-4-5-20251001'')] m of None \<Rightarrow> m | Some t \<Rightarrow> t)"

text \<open>A name, a separator and eight digits.\<close>

definition dated :: "char \<Rightarrow> string \<Rightarrow> bool" where
  "dated sep m \<longleftrightarrow> (let n = length m - 9 in
     10 \<le> length m \<and> list_all is_digit (drop (n + 1) m) \<and> m ! n = sep \<and> list_all (\<lambda>c. c \<noteq> CHR 0x0A) (take n m))"

definition normalize_vertex_id :: "string \<Rightarrow> string" where
  "normalize_vertex_id model = (let m = trim_space model in
     if m = [] \<or> dated CHR ''@'' m then m
     else if dated CHR ''-'' m then take (length m - 9) m @ ''@'' @ drop (length m - 8) m
     else m)"

definition bedrock_prefixes :: "string list" where
  "bedrock_prefixes = [''us.'', ''eu.'', ''apac.'', ''jp.'', ''au.'', ''us-gov.'', ''global.'']"

definition bedrock_cross_region :: "string \<Rightarrow> string" where
  "bedrock_cross_region r =
     (if has_prefix r ''us-gov'' then ''us-gov'' else if has_prefix r ''us-'' then ''us''
      else if has_prefix r ''eu-'' then ''eu'' else if r = ''ap-northeast-1'' then ''jp''
      else if r = ''ap-southeast-2'' then ''au'' else if has_prefix r ''ap-'' then ''apac''
      else if has_prefix r ''ca-'' then ''us'' else if has_prefix r ''sa-'' then ''us'' else ''us'')"

definition adjust_bedrock_region :: "string \<Rightarrow> string \<Rightarrow> string" where
  "adjust_bedrock_region m region = (let t = (if region = ''global'' then ''global'' else bedrock_cross_region region) in
     case List.find (has_prefix m) bedrock_prefixes of
       None \<Rightarrow> m
     | Some p \<Rightarrow> if p = t @ ''.'' then m else t @ ''.'' @ drop (length p) m)"

definition is_regional_bedrock :: "string \<Rightarrow> bool" where
  "is_regional_bedrock m \<longleftrightarrow> list_ex (has_prefix m) bedrock_prefixes"

definition is_likely_bedrock :: "string \<Rightarrow> bool" where
  "is_likely_bedrock m \<longleftrightarrow> (let l = to_lower (trim_space m) in
     l \<noteq> [] \<and> (has_prefix l ''arn:'' \<or>
       list_ex (has_prefix l) [''anthropic.'', ''amazon.'', ''meta.'', ''mistral.'', ''cohere.'', ''ai21.'', ''deepseek.'',
         ''stability.'', ''writer.'', ''nova.''] \<or>
       is_regional_bedrock l))"

definition normalize_bedrock_id :: "string \<Rightarrow> (string \<times> bool) option" where
  "normalize_bedrock_id model = (let m = trim_space model in
     if m = [] then None
     else case map_of default_bedrock_mapping m of
       Some t \<Rightarrow> Some (t, True)
     | None \<Rightarrow> if is_regional_bedrock m then Some (m, True) else if is_likely_bedrock m then Some (m, False) else None)"

definition resolve_bedrock_model :: "sched_account \<Rightarrow> string \<Rightarrow> string option" where
  "resolve_bedrock_model a r = (case normalize_bedrock_id (mapped_model a r) of
     None \<Rightarrow> None
   | Some (m, adjust) \<Rightarrow> Some (if adjust then adjust_bedrock_region m
       (if sa_credentials a ''aws_force_global'' = ''true'' then ''global''
        else if sa_credentials a ''aws_region'' \<noteq> [] then sa_credentials a ''aws_region'' else ''us-east-1'') else m))"

subsection \<open>Limits per model\<close>

text \<open>What the context of the request carries.\<close>

record request_ctx =
  rc_thinking :: "bool option"
  rc_image_intent :: bool
  rc_force_platform :: string
  rc_claude_code :: bool
  rc_prefetched_group :: "int64 option"
  rc_prefetched_account :: "int64 option"

definition background_ctx :: request_ctx where
  "background_ctx = \<lparr>rc_thinking = None, rc_image_intent = False, rc_force_platform = [], rc_claude_code = False,
     rc_prefetched_group = None, rc_prefetched_account = None\<rparr>"

definition normalize_antigravity_name :: "string \<Rightarrow> string" where
  "normalize_antigravity_name model = (let n = to_lower (trim_space model) in
     case after_last ''/publishers/google/models/'' n of Some r \<Rightarrow> r
   | None \<Rightarrow> (case after_last ''/publishers/anthropic/models/'' n of Some r \<Rightarrow> r
   | None \<Rightarrow> (case after_last ''/models/'' n of Some r \<Rightarrow> r
   | None \<Rightarrow> trim_prefix (trim_prefix (trim_prefix n ''publishers/google/models/'') ''publishers/anthropic/models/'') ''models/'')))"

definition is_antigravity_gemini :: "string \<Rightarrow> bool" where
  "is_antigravity_gemini m \<longleftrightarrow> has_prefix (normalize_antigravity_name m) ''gemini-''"

definition is_image_generation_model :: "string \<Rightarrow> bool" where
  "is_image_generation_model m \<longleftrightarrow> has_prefix (to_lower (trim_space m)) ''gpt-image-''"

definition final_antigravity_key :: "request_ctx \<Rightarrow> sched_account \<Rightarrow> string \<Rightarrow> string" where
  "final_antigravity_key c a r = (let k = map_antigravity_model a r in
     if k = [] then [] else case rc_thinking c of None \<Rightarrow> k | Some t \<Rightarrow> apply_thinking_suffix k t)"

definition rate_limit_keys :: "request_ctx \<Rightarrow> sched_account \<Rightarrow> string \<Rightarrow> string list" where
  "rate_limit_keys c a r =
     (let k = trim_space (if sa_platform a = ''antigravity'' then final_antigravity_key c a r else mapped_model a r) in
      if k = [] then []
      else k # (if sa_platform a = ''antigravity'' \<and> is_antigravity_gemini k \<and> k \<noteq> ''antigravity:gemini''
                  then [''antigravity:gemini'']
                else if sa_platform a = ''openai'' \<and> k \<noteq> ''openai:image_generation'' \<and>
                    (is_image_generation_model r \<or> is_image_generation_model k \<or> rc_image_intent c)
                  then [''openai:image_generation''] else []))"

definition limit_reset_at :: "sched_account \<Rightarrow> string \<Rightarrow> time option" where
  "limit_reset_at a key = (if key = [] then None else map_of (sa_limits a) key)"

definition limit_active :: "time \<Rightarrow> sched_account \<Rightarrow> string \<Rightarrow> bool" where
  "limit_active n a key \<longleftrightarrow> (case limit_reset_at a key of None \<Rightarrow> False | Some t \<Rightarrow> n < t)"

definition limit_remaining :: "time \<Rightarrow> sched_account \<Rightarrow> string \<Rightarrow> duration" where
  "limit_remaining n a key = (case limit_reset_at a key of None \<Rightarrow> 0 | Some t \<Rightarrow> max 0 (t - n))"

definition is_model_limited :: "request_ctx \<Rightarrow> time \<Rightarrow> sched_account \<Rightarrow> string \<Rightarrow> bool" where
  "is_model_limited c n a r \<longleftrightarrow> list_ex (limit_active n a) (rate_limit_keys c a r)"

definition model_limit_remaining :: "request_ctx \<Rightarrow> time \<Rightarrow> sched_account \<Rightarrow> string \<Rightarrow> duration" where
  "model_limit_remaining c n a r = fold (\<lambda>k d. max d (limit_remaining n a k)) (rate_limit_keys c a r) 0"

subsection \<open>Whether an account may be scheduled\<close>

definition before_opt :: "time \<Rightarrow> time option \<Rightarrow> bool" where
  "before_opt n t \<longleftrightarrow> (case t of None \<Rightarrow> False | Some u \<Rightarrow> n < u)"

definition is_schedulable :: "(string \<Rightarrow> duration option) \<Rightarrow> time \<Rightarrow> sched_account \<Rightarrow> bool" where
  "is_schedulable zones n a \<longleftrightarrow>
     sa_status a = ''active'' \<and> sa_schedulable a \<and>
     \<not> (sa_auto_pause a \<and> (case sa_expires a of None \<Rightarrow> False | Some t \<Rightarrow> t \<le> n)) \<and>
     \<not> before_opt n (sa_overload_until a) \<and> \<not> before_opt n (sa_rate_limit_reset a) \<and> \<not> before_opt n (sa_temp_until a) \<and>
     \<not> (is_api_key_or_bedrock a \<and> is_quota_exceeded zones n (sa_quota a))"

definition mixed_scheduling :: "sched_account \<Rightarrow> bool" where
  "mixed_scheduling a \<longleftrightarrow> sa_platform a = ''antigravity'' \<and> sa_mixed a"

definition overages_enabled :: "sched_account \<Rightarrow> bool" where
  "overages_enabled a \<longleftrightarrow> sa_platform a = ''antigravity'' \<and> sa_overages a"

definition credits_exhausted :: "time \<Rightarrow> sched_account \<Rightarrow> bool" where
  "credits_exhausted n a \<longleftrightarrow> limit_active n a ''AICredits''"

definition is_schedulable_for_model ::
  "(string \<Rightarrow> duration option) \<Rightarrow> request_ctx \<Rightarrow> time \<Rightarrow> sched_account \<Rightarrow> string \<Rightarrow> bool" where
  "is_schedulable_for_model zones c n a r \<longleftrightarrow> is_schedulable zones n a \<and>
     (is_model_limited c n a r \<longrightarrow>
        sa_platform a = ''antigravity'' \<and> overages_enabled a \<and> \<not> credits_exhausted n a)"

definition should_clear_sticky :: "(string \<Rightarrow> duration option) \<Rightarrow> time \<Rightarrow> sched_account \<Rightarrow> string \<Rightarrow> bool" where
  "should_clear_sticky zones n a r \<longleftrightarrow>
     \<not> is_schedulable zones n a \<or> 0 < model_limit_remaining background_ctx n a r"

definition allowed_for_platform :: "string \<Rightarrow> bool \<Rightarrow> sched_account \<Rightarrow> bool" where
  "allowed_for_platform platform mixed a \<longleftrightarrow>
     (if mixed then sa_platform a = platform \<or> (sa_platform a = ''antigravity'' \<and> mixed_scheduling a)
      else sa_platform a = platform)"

definition schedulable_for_quota :: "(string \<Rightarrow> duration option) \<Rightarrow> time \<Rightarrow> sched_account \<Rightarrow> bool" where
  "schedulable_for_quota zones n a \<longleftrightarrow> \<not> is_api_key_or_bedrock a \<or> \<not> is_quota_exceeded zones n (sa_quota a)"

definition passthrough_enabled :: "sched_account \<Rightarrow> bool" where
  "passthrough_enabled a \<longleftrightarrow> sa_platform a = ''openai'' \<and>
     (case sa_passthrough a of Some b \<Rightarrow> b
      | None \<Rightarrow> (case sa_oauth_passthrough a of Some b \<Rightarrow> b | None \<Rightarrow> False))"

definition model_supported_by_account :: "sched_account \<Rightarrow> string \<Rightarrow> bool" where
  "model_supported_by_account a r =
     (if sa_platform a = ''antigravity'' then trim_space r = [] \<or> map_antigravity_model a r \<noteq> []
      else if is_bedrock a then resolve_bedrock_model a r \<noteq> None
      else if sa_platform a = ''openai'' \<and> passthrough_enabled a then True
      else is_model_supported a
        (if sa_platform a = ''anthropic'' \<and> sa_type a \<noteq> ''apikey''
         then (if sa_type a = ''service_account'' then normalize_vertex_id (normalize_claude_id r) else normalize_claude_id r)
         else r))"

definition model_supported :: "request_ctx \<Rightarrow> sched_account \<Rightarrow> string \<Rightarrow> bool" where
  "model_supported c a r =
     (if sa_platform a = ''antigravity'' then
        (if trim_space r = [] then True
         else let m = map_antigravity_model a r in
           if m = [] then False
           else case rc_thinking c of
             None \<Rightarrow> True
           | Some t \<Rightarrow> (let f = apply_thinking_suffix m t in f = m \<or> is_model_supported a f))
      else model_supported_by_account a r)"

subsection \<open>Requests per minute and the cost of a window\<close>

datatype schedulability = Schedulable | Sticky_Only | Not_Schedulable

definition positive_or :: "int \<Rightarrow> int option \<Rightarrow> int" where
  "positive_or d v = (case v of None \<Rightarrow> d | Some x \<Rightarrow> if 0 < x then x else d)"

definition max_sessions :: "sched_account \<Rightarrow> int" where
  "max_sessions a = (case sa_max_sessions a of None \<Rightarrow> 0 | Some n \<Rightarrow> n)"

definition idle_timeout_minutes :: "sched_account \<Rightarrow> int" where
  "idle_timeout_minutes a = positive_or 5 (sa_idle_minutes a)"

definition base_rpm :: "sched_account \<Rightarrow> int" where
  "base_rpm a = positive_or 0 (sa_base_rpm a)"

definition rpm_sticky_exempt :: "sched_account \<Rightarrow> bool" where
  "rpm_sticky_exempt a \<longleftrightarrow> sa_rpm_strategy a = Some ''sticky_exempt''"

definition rpm_sticky_buffer :: "sched_account \<Rightarrow> int" where
  "rpm_sticky_buffer a = (let v = positive_or 0 (sa_rpm_buffer a); base = base_rpm a in
     if 0 < v then v
     else if base \<le> 0 then 0
     else max (max 0 (sa_concurrency a) + max 0 (max_sessions a)) (max 1 (go_div base 5)))"

definition check_rpm :: "sched_account \<Rightarrow> int \<Rightarrow> schedulability" where
  "check_rpm a current = (let base = base_rpm a in
     if base \<le> 0 \<or> current < base then Schedulable
     else if rpm_sticky_exempt a then Sticky_Only
     else if current < base + rpm_sticky_buffer a then Sticky_Only else Not_Schedulable)"

definition window_cost_limit :: "sched_account \<Rightarrow> rat" where
  "window_cost_limit a = (case sa_window_cost_limit a of None \<Rightarrow> 0 | Some l \<Rightarrow> l)"

definition window_cost_reserve :: "sched_account \<Rightarrow> rat" where
  "window_cost_reserve a = (case sa_sticky_reserve a of None \<Rightarrow> 10 | Some r \<Rightarrow> if 0 < r then r else 10)"

definition check_window_cost :: "sched_account \<Rightarrow> rat \<Rightarrow> schedulability" where
  "check_window_cost a current = (let l = window_cost_limit a in
     if l \<le> 0 \<or> current < l then Schedulable
     else if current < double (l + window_cost_reserve a) then Sticky_Only else Not_Schedulable)"

definition current_window_start :: "duration \<Rightarrow> time \<Rightarrow> sched_account \<Rightarrow> time" where
  "current_window_start tz n a = (case (sa_window_start a, sa_window_end a) of
     (Some s, Some e) \<Rightarrow> if n < e then s else n - (n + tz) mod hour
   | _ \<Rightarrow> n - (n + tz) mod hour)"

definition admits :: "bool \<Rightarrow> schedulability \<Rightarrow> bool" where
  "admits sticky v = (case v of Schedulable \<Rightarrow> True | Sticky_Only \<Rightarrow> sticky | Not_Schedulable \<Rightarrow> False)"

end
