(* ===== verification/SchedOrder.thy ===== *)
theory SchedOrder
  imports AccountModels "HOL-Library.Product_Lexorder" "HOL-Library.Multiset"
begin

section \<open>The order in which accounts are tried\<close>

text \<open>
  The filters, sorts and shuffles of \<open>service/gateway_service.go\<close>.  An account comes with its load rate where the
  code pairs the two.  \<open>math/rand\<close> is a list of draws, each reduced to the range asked for; a theorem for every
  list is a theorem for every run.  \<open>sort.SliceStable\<close> with a comparison of tuples is \<open>sort_key\<close>.
  Lemmas: what a filter or a shuffle keeps, and that \<open>pick\<close> takes an account that is least in priority, then in
  (if so configured) the end of its window, then in load, then in last use.
\<close>

type_synonym loaded = "sched_account \<times> int"
type_synonym draws = "nat list"

definition draw :: "nat \<Rightarrow> draws \<Rightarrow> nat \<times> draws" where
  "draw n d = (case d of [] \<Rightarrow> (0, []) | x # xs \<Rightarrow> (x mod n, xs))"

definition is_oauth_type :: "sched_account \<Rightarrow> bool" where
  "is_oauth_type a \<longleftrightarrow> sa_type a = ''oauth''"

subsection \<open>Filters\<close>

definition least_of :: "('a \<Rightarrow> int) \<Rightarrow> 'a \<Rightarrow> 'a list \<Rightarrow> int" where
  "least_of f x xs = fold (\<lambda>y m. if f y < m then f y else m) xs (f x)"

definition filter_least :: "('a \<Rightarrow> int) \<Rightarrow> 'a list \<Rightarrow> 'a list" where
  "filter_least f xs = (case xs of [] \<Rightarrow> [] | x # ys \<Rightarrow> filter (\<lambda>y. f y = least_of f x ys) xs)"

definition filter_by_min_priority :: "loaded list \<Rightarrow> loaded list" where
  "filter_by_min_priority = filter_least (\<lambda>x. sa_priority (fst x))"

definition filter_by_min_load :: "loaded list \<Rightarrow> loaded list" where
  "filter_by_min_load = filter_least snd"

definition active_end :: "time \<Rightarrow> loaded \<Rightarrow> time option" where
  "active_end n x = (case sa_window_end (fst x) of None \<Rightarrow> None | Some e \<Rightarrow> if n < e then Some e else None)"

definition sooner :: "time \<Rightarrow> loaded \<Rightarrow> time option \<Rightarrow> time option" where
  "sooner n x m = (case active_end n x of
     None \<Rightarrow> m
   | Some e \<Rightarrow> (case m of None \<Rightarrow> Some e | Some t \<Rightarrow> if e < t then Some e else Some t))"

definition filter_by_soonest_reset :: "time \<Rightarrow> loaded list \<Rightarrow> loaded list" where
  "filter_by_soonest_reset n xs =
     (if length xs \<le> 1 then xs
      else case fold (sooner n) xs None of
        None \<Rightarrow> xs
      | Some t \<Rightarrow> filter (\<lambda>x. active_end n x = Some t) xs)"

definition earlier :: "loaded \<Rightarrow> time option \<Rightarrow> time option" where
  "earlier x m = (case (sa_last_used (fst x), m) of
     (Some t, Some u) \<Rightarrow> if t < u then Some t else Some u
   | (Some t, None) \<Rightarrow> Some t
   | (None, _) \<Rightarrow> m)"

definition least_recent :: "loaded list \<Rightarrow> loaded list" where
  "least_recent xs =
     (if list_ex (\<lambda>x. sa_last_used (fst x) = None) xs then filter (\<lambda>x. sa_last_used (fst x) = None) xs
      else filter (\<lambda>x. sa_last_used (fst x) = fold earlier xs None) xs)"

definition select_by_lru :: "bool \<Rightarrow> loaded list \<Rightarrow> draws \<Rightarrow> loaded option \<times> draws" where
  "select_by_lru oauth_first xs d = (case xs of
     [] \<Rightarrow> (None, d)
   | [x] \<Rightarrow> (Some x, d)
   | _ \<Rightarrow> (case least_recent xs of
        [c] \<Rightarrow> (Some c, d)
      | cs \<Rightarrow>
          let os = filter (\<lambda>x. is_oauth_type (fst x)) cs; ds = (if oauth_first \<and> os \<noteq> [] then os else cs) in
          (case draw (length ds) d of (k, d') \<Rightarrow> (Some (ds ! k), d'))))"

definition pick :: "time \<Rightarrow> bool \<Rightarrow> bool \<Rightarrow> loaded list \<Rightarrow> draws \<Rightarrow> loaded option \<times> draws" where
  "pick n soonest oauth_first xs d =
     (let c1 = filter_by_min_priority xs; c2 = (if soonest then filter_by_soonest_reset n c1 else c1)
      in select_by_lru oauth_first (filter_by_min_load c2) d)"

subsection \<open>Shuffles\<close>

definition swap :: "nat \<Rightarrow> nat \<Rightarrow> 'a list \<Rightarrow> 'a list" where
  "swap i j xs = xs[i := xs ! j, j := xs ! i]"

fun shuffle_from :: "nat \<Rightarrow> 'a list \<Rightarrow> draws \<Rightarrow> 'a list \<times> draws" where
  "shuffle_from 0 xs d = (xs, d)"
| "shuffle_from (Suc i) xs d = (case draw (i + 2) d of (j, d') \<Rightarrow> shuffle_from i (swap (Suc i) j xs) d')"

definition shuffle :: "'a list \<Rightarrow> draws \<Rightarrow> 'a list \<times> draws" where
  "shuffle xs d = (if length xs \<le> 1 then (xs, d) else shuffle_from (length xs - 1) xs d)"

text \<open>Each run of elements of the same group as its first is passed to \<open>f\<close>.\<close>

function shuffle_groups ::
  "('a \<Rightarrow> 'a \<Rightarrow> bool) \<Rightarrow> ('a list \<Rightarrow> draws \<Rightarrow> 'a list \<times> draws) \<Rightarrow> 'a list \<Rightarrow> draws \<Rightarrow> 'a list \<times> draws" where
  "shuffle_groups same f [] d = ([], d)"
| "shuffle_groups same f (x # xs) d =
     (case f (x # takeWhile (same x) xs) d of (g, d1) \<Rightarrow>
      case shuffle_groups same f (dropWhile (same x) xs) d1 of (r, d2) \<Rightarrow> (g @ r, d2))"
  by pat_completeness auto
termination
  by (relation "measure (\<lambda>(_, _, xs, _). length xs)") (auto simp: le_imp_less_Suc length_dropWhile_le)

definition same_last_used :: "time option \<Rightarrow> time option \<Rightarrow> bool" where
  "same_last_used a b = (case (a, b) of
     (None, None) \<Rightarrow> True
   | (Some t, Some u) \<Rightarrow> t div second = u div second
   | _ \<Rightarrow> False)"

definition same_load_group :: "loaded \<Rightarrow> loaded \<Rightarrow> bool" where
  "same_load_group x y \<longleftrightarrow> sa_priority (fst x) = sa_priority (fst y) \<and> snd x = snd y \<and>
     same_last_used (sa_last_used (fst x)) (sa_last_used (fst y))"

definition same_account_group :: "sched_account \<Rightarrow> sched_account \<Rightarrow> bool" where
  "same_account_group a b \<longleftrightarrow> sa_priority a = sa_priority b \<and> same_last_used (sa_last_used a) (sa_last_used b)"

definition shuffle_within_sort_groups :: "loaded list \<Rightarrow> draws \<Rightarrow> loaded list \<times> draws" where
  "shuffle_within_sort_groups = shuffle_groups same_load_group shuffle"

text \<open>The OAuth accounts of a group stay in front, each part shuffled on its own.\<close>

definition shuffle_parts :: "bool \<Rightarrow> sched_account list \<Rightarrow> draws \<Rightarrow> sched_account list \<times> draws" where
  "shuffle_parts oauth_first g d =
     (if oauth_first \<and> 1 < length g then
        (case shuffle (filter is_oauth_type g) d of (os, d1) \<Rightarrow>
         case shuffle (filter (\<lambda>a. \<not> is_oauth_type a) g) d1 of (rest, d2) \<Rightarrow> (os @ rest, d2))
      else shuffle g d)"

definition shuffle_within_priority_and_use :: "bool \<Rightarrow> sched_account list \<Rightarrow> draws \<Rightarrow> sched_account list \<times> draws" where
  "shuffle_within_priority_and_use oauth_first = shuffle_groups same_account_group (shuffle_parts oauth_first)"

definition shuffle_within_priority :: "sched_account list \<Rightarrow> draws \<Rightarrow> sched_account list \<times> draws" where
  "shuffle_within_priority = shuffle_groups (\<lambda>a b. sa_priority a = sa_priority b) shuffle"

subsection \<open>Sorts\<close>

definition used_key :: "sched_account \<Rightarrow> int \<times> time" where
  "used_key a = (case sa_last_used a of None \<Rightarrow> (0, 0) | Some t \<Rightarrow> (1, t))"

definition load_order :: "loaded \<Rightarrow> int \<times> int \<times> int \<times> time" where
  "load_order x = (sa_priority (fst x), snd x, used_key (fst x))"

definition use_order :: "bool \<Rightarrow> sched_account \<Rightarrow> int \<times> (int \<times> time) \<times> int" where
  "use_order oauth_first a = (sa_priority a, used_key a,
     if oauth_first \<and> sa_last_used a = None \<and> \<not> is_oauth_type a then 1 else 0)"

definition priority_order :: "bool \<Rightarrow> sched_account \<Rightarrow> int \<times> int" where
  "priority_order oauth_first a = (sa_priority a, if oauth_first \<and> \<not> is_oauth_type a then 1 else 0)"

definition sort_by_priority_and_use :: "bool \<Rightarrow> sched_account list \<Rightarrow> draws \<Rightarrow> sched_account list \<times> draws" where
  "sort_by_priority_and_use oauth_first xs d =
     shuffle_within_priority_and_use oauth_first (sort_key (use_order oauth_first) xs) d"

definition sort_for_fallback :: "bool \<Rightarrow> string \<Rightarrow> sched_account list \<Rightarrow> draws \<Rightarrow> sched_account list \<times> draws" where
  "sort_for_fallback oauth_first mode xs d =
     (if mode = ''random'' then shuffle_within_priority (sort_key (priority_order oauth_first) xs) d
      else sort_by_priority_and_use oauth_first xs d)"

definition sort_by_load :: "loaded list \<Rightarrow> draws \<Rightarrow> loaded list \<times> draws" where
  "sort_by_load xs d = shuffle_within_sort_groups (sort_key load_order xs) d"

subsection \<open>What they keep\<close>

lemma fold_min:
  fixes f :: "'a \<Rightarrow> int"
  shows "fold (\<lambda>y m. if f y < m then f y else m) xs m \<le> m \<and>
    (\<forall>y \<in> set xs. fold (\<lambda>y m. if f y < m then f y else m) xs m \<le> f y) \<and>
    fold (\<lambda>y m. if f y < m then f y else m) xs m \<in> insert m (f ` set xs)"
proof (induction xs arbitrary: m)
  case (Cons x xs)
  show ?case
  proof (cases "f x < m")
    case True
    then show ?thesis using Cons.IH [of "f x"] by auto
  next
    case False
    then show ?thesis using Cons.IH [of m] by auto
  qed
qed simp

lemma least_of_le: "least_of f x xs \<le> f x" "y \<in> set xs \<Longrightarrow> least_of f x xs \<le> f y" "least_of f x xs \<in> f ` set (x # xs)"
  using fold_min [where f = f and xs = xs and m = "f x"] by (simp_all add: least_of_def)

lemma filter_least:
  assumes "y \<in> set (filter_least f xs)"
  shows "y \<in> set xs" "x \<in> set xs \<Longrightarrow> f y \<le> f x"
proof -
  obtain h t where xs: "xs = h # t" using assms by (cases xs) (simp_all add: filter_least_def)
  then have "filter_least f xs = filter (\<lambda>y. f y = least_of f h t) xs" by (simp add: filter_least_def)
  then have "y \<in> set xs" "f y = least_of f h t" using assms by simp_all
  then show "y \<in> set xs" "x \<in> set xs \<Longrightarrow> f y \<le> f x" using least_of_le(1) [where f = f and x = h and xs = t] least_of_le(2) [where f = f and x = h and xs = t] xs by auto
qed

lemma filter_least_nonempty: "xs \<noteq> [] \<Longrightarrow> filter_least f xs \<noteq> []"
proof -
  assume "xs \<noteq> []"
  then obtain h t where xs: "xs = h # t" by (cases xs) auto
  obtain y where y: "y \<in> set (h # t)" "least_of f h t = f y"
    using least_of_le(3) [where f = f and x = h and xs = t] by blast
  have "y \<in> set (filter (\<lambda>y. f y = least_of f h t) (h # t))" using y by auto
  then show ?thesis unfolding filter_least_def xs list.case by (metis empty_iff empty_set)
qed

lemma sooner_fold: "fold (sooner n) xs m = Some t \<Longrightarrow>
    (m = Some t \<or> (\<exists>x \<in> set xs. active_end n x = Some t)) \<and>
    (\<forall>u. m = Some u \<longrightarrow> t \<le> u) \<and> (\<forall>x \<in> set xs. \<forall>u. active_end n x = Some u \<longrightarrow> t \<le> u)"
proof (induction xs arbitrary: m)
  case (Cons x xs)
  then have "fold (sooner n) xs (sooner n x m) = Some t" by simp
  from Cons.IH [OF this] show ?case
    by (auto simp: sooner_def split: option.splits if_splits)
qed auto

lemma filter_soonest:
  assumes "y \<in> set (filter_by_soonest_reset n xs)"
  shows "y \<in> set xs" "x \<in> set xs \<Longrightarrow> active_end n x = Some u \<Longrightarrow> length xs \<noteq> 1 \<Longrightarrow> \<exists>t. active_end n y = Some t \<and> t \<le> u"
proof -
  show "y \<in> set xs" using assms by (auto simp: filter_by_soonest_reset_def split: if_splits option.splits)
  assume x: "x \<in> set xs" "active_end n x = Some u" "length xs \<noteq> 1"
  then have l: "\<not> length xs \<le> 1" by (cases xs) auto
  have some: "fold (sooner n) zs (Some v) \<noteq> None" for zs v
  proof (induction zs arbitrary: v)
    case (Cons z zs)
    have "\<exists>w. sooner n z (Some v) = Some w" by (auto simp: sooner_def split: option.splits)
    then show ?case using Cons.IH by auto
  qed simp
  have "fold (sooner n) xs m \<noteq> None" if "x \<in> set xs" for m
    using that
  proof (induction xs arbitrary: m)
    case (Cons z zs)
    show ?case
    proof (cases "x = z")
      case True
      then have "sooner n z m \<noteq> None" using x(2) by (auto simp: sooner_def split: option.splits)
      then obtain w where "sooner n z m = Some w" by blast
      then show ?thesis using some by simp
    next
      case False then show ?thesis using Cons by simp
    qed
  qed simp
  then obtain t where t: "fold (sooner n) xs None = Some t" using x(1) by fastforce
  then have "active_end n y = Some t" using assms l by (simp add: filter_by_soonest_reset_def)
  then show "\<exists>t. active_end n y = Some t \<and> t \<le> u" using sooner_fold [OF t] x by blast
qed

lemma filter_soonest_nonempty:
  assumes "xs \<noteq> []"
  shows "filter_by_soonest_reset n xs \<noteq> []"
proof (cases "fold (sooner n) xs None")
  case (Some t)
  then show ?thesis
    using assms sooner_fold [OF Some] by (auto simp: filter_by_soonest_reset_def filter_empty_conv)
qed (simp add: filter_by_soonest_reset_def assms)

lemma earlier_fold:
  assumes "\<forall>x \<in> set xs. sa_last_used (fst x) \<noteq> None" "xs \<noteq> [] \<or> m \<noteq> None"
  shows "\<exists>t. fold earlier xs m = Some t \<and> (m = Some t \<or> (\<exists>x \<in> set xs. sa_last_used (fst x) = Some t)) \<and>
    (\<forall>u. m = Some u \<longrightarrow> t \<le> u) \<and> (\<forall>x \<in> set xs. \<forall>u. sa_last_used (fst x) = Some u \<longrightarrow> t \<le> u)"
  using assms
proof (induction xs arbitrary: m)
  case (Cons x xs)
  obtain v where v: "sa_last_used (fst x) = Some v" using Cons.prems by auto
  then have "earlier x m \<noteq> None" by (auto simp: earlier_def split: option.splits)
  then obtain w where w: "earlier x m = Some w" by blast
  have m: "w \<le> v" "\<forall>u. m = Some u \<longrightarrow> w \<le> u" "m = Some w \<or> w = v"
    using v w by (auto simp: earlier_def split: option.splits if_splits)
  obtain t where "fold earlier xs (Some w) = Some t" "Some w = Some t \<or> (\<exists>x \<in> set xs. sa_last_used (fst x) = Some t)"
    "t \<le> w" "\<forall>x \<in> set xs. \<forall>u. sa_last_used (fst x) = Some u \<longrightarrow> t \<le> u"
    using Cons.IH [of "Some w"] Cons.prems(1) by auto
  then show ?case using m v w by (intro exI [of _ t]) auto
qed auto

text \<open>An account never used comes first.\<close>

definition used_before :: "sched_account \<Rightarrow> sched_account \<Rightarrow> bool" where
  "used_before a b \<longleftrightarrow> (case (sa_last_used a, sa_last_used b) of
     (None, _) \<Rightarrow> True | (Some t, None) \<Rightarrow> False | (Some t, Some u) \<Rightarrow> t \<le> u)"

lemma least_recent:
  assumes "xs \<noteq> []"
  shows "least_recent xs \<noteq> []" "y \<in> set (least_recent xs) \<Longrightarrow> y \<in> set xs"
    "y \<in> set (least_recent xs) \<Longrightarrow> x \<in> set xs \<Longrightarrow> used_before (fst y) (fst x)"
proof -
  show "y \<in> set (least_recent xs) \<Longrightarrow> y \<in> set xs" by (auto simp: least_recent_def split: if_splits)
  show ne: "least_recent xs \<noteq> []"
  proof (cases "list_ex (\<lambda>x. sa_last_used (fst x) = None) xs")
    case True
    then show ?thesis by (auto simp: least_recent_def filter_empty_conv list_ex_iff)
  next
    case False
    then obtain t where "fold earlier xs None = Some t" "\<exists>x \<in> set xs. sa_last_used (fst x) = Some t"
      using earlier_fold [of xs None] assms by (auto simp: list_ex_iff)
    then show ?thesis using False by (auto simp: least_recent_def filter_empty_conv)
  qed
  assume y: "y \<in> set (least_recent xs)" and x: "x \<in> set xs"
  show "used_before (fst y) (fst x)"
  proof (cases "list_ex (\<lambda>x. sa_last_used (fst x) = None) xs")
    case True
    then show ?thesis using y by (simp add: least_recent_def used_before_def)
  next
    case False
    then obtain t where "fold earlier xs None = Some t" "\<forall>x \<in> set xs. \<forall>u. sa_last_used (fst x) = Some u \<longrightarrow> t \<le> u"
      using earlier_fold [of xs None] assms by (auto simp: list_ex_iff)
    moreover have "sa_last_used (fst y) = fold earlier xs None" using False y by (simp add: least_recent_def)
    moreover have "sa_last_used (fst x) \<noteq> None" using False x by (auto simp: list_ex_iff)
    ultimately show ?thesis using x by (auto simp: used_before_def split: option.splits)
  qed
qed

lemma draw_less: "0 < n \<Longrightarrow> fst (draw n d) < n"
  by (cases d) (simp_all add: draw_def)

lemma select_by_lru_cases:
  assumes "xs \<noteq> []"
  shows "\<exists>x. fst (select_by_lru p xs d) = Some x \<and> x \<in> set (least_recent xs)"
proof -
  let ?cs = "least_recent xs" and ?os = "filter (\<lambda>x. is_oauth_type (fst x)) (least_recent xs)"
  let ?ds = "if p \<and> ?os \<noteq> [] then ?os else ?cs"
  have cs: "?cs \<noteq> []" by (rule least_recent(1) [OF assms])
  consider x where "xs = [x]" | x y zs where "xs = x # y # zs" using assms by (metis neq_Nil_conv)
  then show ?thesis
  proof cases
    case 1
    then have "?cs = [x]" using cs least_recent(2) [OF assms] by (cases ?cs; cases "tl ?cs") (auto simp: least_recent_def split: if_splits)
    then show ?thesis using 1 by (simp add: select_by_lru_def)
  next
    case 2
    have ds: "?ds \<noteq> []" "set ?ds \<subseteq> set ?cs" using cs by auto
    have "fst (draw (length ?ds) d) < length ?ds" 
      by (rule draw_less) (unfold length_greater_0_conv, rule ds(1))
    then have k: "?ds ! fst (draw (length ?ds) d) \<in> set ?cs" using ds(2) nth_mem by blast
    consider c where "?cs = [c]" | c e es where "?cs = c # e # es" using cs by (metis neq_Nil_conv)
    then show ?thesis
    proof cases
      case 1
      then show ?thesis using 2 by (simp add: select_by_lru_def)
    next
      case cs2: 2
      have "fst (select_by_lru p xs d) = Some (?ds ! fst (draw (length ?ds) d))"
        unfolding select_by_lru_def 2 cs2 [unfolded 2] by (simp add: Let_def split_def)
      then show ?thesis using k by blast
    qed
  qed
qed

lemma pick_none: "fst (pick n s p xs d) = None \<longleftrightarrow> xs = []"
proof (cases "xs = []")
  case True
  then show ?thesis
    by (simp add: pick_def filter_by_min_priority_def filter_least_def filter_by_soonest_reset_def filter_by_min_load_def
        select_by_lru_def Let_def)
next
  case False
  let ?c1 = "filter_by_min_priority xs"
  let ?c2 = "if s then filter_by_soonest_reset n ?c1 else ?c1"
  have "?c1 \<noteq> []" unfolding filter_by_min_priority_def by (rule filter_least_nonempty [OF False])
  then have "?c2 \<noteq> []" using filter_soonest_nonempty by simp
  then have "filter_by_min_load ?c2 \<noteq> []" unfolding filter_by_min_load_def by (rule filter_least_nonempty)
  then have "\<exists>x. fst (pick n s p xs d) = Some x"
    unfolding pick_def Let_def using select_by_lru_cases by blast
  then show ?thesis using False by auto
qed

lemma pick_stages:
  assumes "fst (pick n s p xs d) = Some x"
  shows "x \<in> set (least_recent (filter_by_min_load (if s then filter_by_soonest_reset n (filter_by_min_priority xs)
           else filter_by_min_priority xs)))"
    and "filter_by_min_load (if s then filter_by_soonest_reset n (filter_by_min_priority xs) else filter_by_min_priority xs) \<noteq> []"
proof -
  let ?ys = "filter_by_min_load (if s then filter_by_soonest_reset n (filter_by_min_priority xs) else filter_by_min_priority xs)"
  have p: "pick n s p xs d = select_by_lru p ?ys d" by (simp only: pick_def Let_def)
  show ne: "?ys \<noteq> []"
  proof
    assume "?ys = []"
    then have "pick n s p xs d = (None, d)" unfolding p by (simp only: select_by_lru_def list.case)
    then show False using assms by simp
  qed
  show "x \<in> set (least_recent ?ys)" using select_by_lru_cases [OF ne, of p d] assms unfolding p by auto
qed

lemma pick_in:
  assumes "fst (pick n s p xs d) = Some x"
  shows "x \<in> set xs"
proof -
  let ?c1 = "filter_by_min_priority xs"
  let ?c2 = "if s then filter_by_soonest_reset n ?c1 else ?c1"
  have "x \<in> set (filter_by_min_load ?c2)" using pick_stages [OF assms] least_recent(2) by blast
  then have "x \<in> set ?c2" unfolding filter_by_min_load_def by (rule filter_least(1))
  then have "x \<in> set ?c1" using filter_soonest(1) by (auto split: if_splits)
  then show ?thesis unfolding filter_by_min_priority_def by (rule filter_least(1))
qed

lemma swap_mset: "i < length xs \<Longrightarrow> j < length xs \<Longrightarrow> mset (swap i j xs) = mset xs"
  by (simp add: swap_def mset_swap)

lemma length_swap [simp]: "length (swap i j xs) = length xs"
  by (simp add: swap_def)

lemma shuffle_from_mset: "i < length xs \<Longrightarrow> mset (fst (shuffle_from i xs d)) = mset xs"
proof (induction i arbitrary: xs d)
  case (Suc i)
  obtain j d' where j: "draw (i + 2) d = (j, d')" by (cases "draw (i + 2) d")
  then have "j < i + 2" using draw_less [of "i + 2" d] by simp
  then show ?case using Suc j by (simp add: swap_mset)
qed simp

lemma shuffle_mset: "mset (fst (shuffle xs d)) = mset xs"
  by (simp add: shuffle_def shuffle_from_mset)

lemma shuffle_groups_mset:
  assumes "\<And>g d. mset (fst (f g d)) = mset g"
  shows "mset (fst (shuffle_groups same f xs d)) = mset xs"
  using assms
proof (induction same f xs d rule: shuffle_groups.induct)
  case (2 same f x xs d)
  obtain g d1 where g: "f (x # takeWhile (same x) xs) d = (g, d1)" by (cases "f (x # takeWhile (same x) xs) d")
  obtain r d2 where r: "shuffle_groups same f (dropWhile (same x) xs) d1 = (r, d2)"
    by (cases "shuffle_groups same f (dropWhile (same x) xs) d1")
  have gm: "mset g = mset (x # takeWhile (same x) xs)"
    using "2.prems" [of "x # takeWhile (same x) xs" d] g by (metis fst_conv)
  moreover have "mset r = mset (dropWhile (same x) xs)" using "2.IH" [OF g [symmetric] "2.prems"] r by simp
  moreover have "mset xs = mset (takeWhile (same x) xs) + mset (dropWhile (same x) xs)"
    by (metis mset_append takeWhile_dropWhile_id)
  ultimately show ?case using g r by simp
qed simp

lemma shuffle_parts_mset: "mset (fst (shuffle_parts p g d)) = mset g"
proof -
  have "mset (filter is_oauth_type g) + mset (filter (\<lambda>a. \<not> is_oauth_type a) g) = mset g"
    by (metis mset_append mset_filter multiset_partition)
  then show ?thesis
    using shuffle_mset [of "filter is_oauth_type g" d]
      shuffle_mset [of "filter (\<lambda>a. \<not> is_oauth_type a) g" "snd (shuffle (filter is_oauth_type g) d)"]
    by (simp add: shuffle_parts_def shuffle_mset split_def)
qed

lemma sort_by_load_mset: "mset (fst (sort_by_load xs d)) = mset xs"
  by (simp add: sort_by_load_def shuffle_within_sort_groups_def shuffle_groups_mset shuffle_mset)

lemma sort_by_use_mset: "mset (fst (sort_by_priority_and_use p xs d)) = mset xs"
  by (simp add: sort_by_priority_and_use_def shuffle_within_priority_and_use_def shuffle_groups_mset shuffle_parts_mset)

lemma sort_for_fallback_mset: "mset (fst (sort_for_fallback p mode xs d)) = mset xs"
  by (simp add: sort_for_fallback_def sort_by_use_mset shuffle_within_priority_def shuffle_groups_mset shuffle_mset)

lemmas order_sets = sort_by_load_mset [THEN mset_eq_setD] sort_by_use_mset [THEN mset_eq_setD]
  sort_for_fallback_mset [THEN mset_eq_setD]

end
