(* ===== verification/SessionCaches.thy ===== *)
theory SessionCaches
  imports Concurrency Float64
begin

section \<open>Sessions, requests per minute and sticky bindings\<close>

text \<open>
  \<open>repository/session_limit_cache.go\<close>, \<open>repository/rpm_cache.go\<close> and \<open>repository/gateway_cache.go\<close> on the model of
  Redis: the sessions of an account are a sorted set scored with their last use, its requests of a minute a
  counter, the cost of its window and the account a session is bound to a value with a deadline.
  \<open>session_limit_kept\<close> is the bound the sessions keep.
\<close>

subsection \<open>Keys\<close>

definition session_limit_key :: "int64 \<Rightarrow> string" where
  "session_limit_key i = ''session_limit:account:'' @ itoa i"
definition window_cost_key :: "int64 \<Rightarrow> string" where
  "window_cost_key i = ''window_cost:account:'' @ itoa i"
definition sticky_key :: "int64 \<Rightarrow> string \<Rightarrow> string" where
  "sticky_key g h = ''sticky_session:'' @ itoa g @ '':'' @ h"
definition rpm_key :: "int64 \<Rightarrow> int \<Rightarrow> string" where
  "rpm_key i minutes = ''rpm:'' @ itoa i @ '':'' @ itoa minutes"

text \<open>\<open>SET key v EX ttl\<close>, the deadline in milliseconds from now.\<close>

definition set_ex :: "string \<Rightarrow> redis_value \<Rightarrow> int \<Rightarrow> redis \<Rightarrow> redis" where
  "set_ex k v ttl s = s\<lparr>rd_keys := (rd_keys s)(k \<mapsto> (v, Some (rd_ms s + ttl * 1000)))\<rparr>"

definition dget :: "string \<Rightarrow> redis \<Rightarrow> go_error + rat option" where
  "dget k s = (case entry k s of
     None \<Rightarrow> Inr None
   | Some (Decimal x, _) \<Rightarrow> Inr (Some x)
   | Some (Counter n, _) \<Rightarrow> Inr (Some (double (of_int n)))
   | Some (ZSet _, _) \<Rightarrow> Inl wrongtype)"

subsection \<open>The sessions of an account\<close>

definition register_session_script :: "string \<Rightarrow> int \<Rightarrow> int \<Rightarrow> string \<Rightarrow> redis \<Rightarrow> int redis_reply" where
  "register_session_script key limit idle uuid s =
     (let now = seconds s in
      case zrem_below key (now - idle) s of
        (Inl e, s1) \<Rightarrow> (Inl e, s1)
      | (Inr _, s1) \<Rightarrow>
          (case zget key s1 of
             Inl e \<Rightarrow> (Inl e, s1)
           | Inr z \<Rightarrow>
               if map_of z uuid \<noteq> None then (Inr 1, expire key (idle + 60) (zput key (zset_add uuid now z) s1))
               else if int (length z) < limit then (Inr 1, expire key (idle + 60) (zput key (zset_add uuid now z) s1))
               else (Inr 0, s1)))"

definition refresh_session_script :: "string \<Rightarrow> int \<Rightarrow> string \<Rightarrow> redis \<Rightarrow> int redis_reply" where
  "refresh_session_script key idle uuid s =
     (case zget key s of
        Inl e \<Rightarrow> (Inl e, s)
      | Inr z \<Rightarrow>
          if map_of z uuid \<noteq> None then (Inr 1, expire key (idle + 60) (zput key (zset_add uuid (seconds s) z) s))
          else (Inr 1, s))"

definition active_session_count_script :: "string \<Rightarrow> int \<Rightarrow> redis \<Rightarrow> int redis_reply" where
  "active_session_count_script key idle s =
     (case zrem_below key (seconds s - idle) s of
        (Inl e, s1) \<Rightarrow> (Inl e, s1)
      | (Inr _, s1) \<Rightarrow> (zcard key s1, s1))"

definition is_session_active_script :: "string \<Rightarrow> int \<Rightarrow> string \<Rightarrow> redis \<Rightarrow> int redis_reply" where
  "is_session_active_script key idle uuid s =
     (case zget key s of
        Inl e \<Rightarrow> (Inl e, s)
      | Inr z \<Rightarrow> (Inr (case map_of z uuid of
            None \<Rightarrow> 0
          | Some score \<Rightarrow> if score \<le> seconds s - idle then 0 else 1), s))"

text \<open>The default idle timeout, in seconds, and the one a call uses.\<close>

definition new_session_limit_cache :: "int \<Rightarrow> int" where
  "new_session_limit_cache minutes = (if minutes \<le> 0 then 5 else minutes) * 60"

definition idle_seconds :: "int \<Rightarrow> duration \<Rightarrow> int" where
  "idle_seconds dflt idle = (let n = go_div idle second in if n \<le> 0 then dflt else n)"

definition register_session ::
  "int \<Rightarrow> int64 \<Rightarrow> string \<Rightarrow> int \<Rightarrow> duration \<Rightarrow> (redis_store, bool) fallible" where
  "register_session dflt account uuid limit idle =
     (if uuid = [] \<or> limit \<le> 0 then okM True
      else tryM (\<lambda>e. e) (stmt (register_session_script (session_limit_key account) limit (idle_seconds dflt idle) uuid))
        (\<lambda>n. okM (n = 1)))"

definition refresh_session :: "int \<Rightarrow> int64 \<Rightarrow> string \<Rightarrow> duration \<Rightarrow> (redis_store, unit) fallible" where
  "refresh_session dflt account uuid idle =
     (if uuid = [] then okM ()
      else tryM (\<lambda>e. e) (stmt (refresh_session_script (session_limit_key account) (idle_seconds dflt idle) uuid))
        (\<lambda>_. okM ()))"

definition active_session_count :: "int \<Rightarrow> int64 \<Rightarrow> (redis_store, int) fallible" where
  "active_session_count dflt account = stmt (active_session_count_script (session_limit_key account) dflt)"

definition is_session_active :: "int \<Rightarrow> int64 \<Rightarrow> string \<Rightarrow> (redis_store, bool) fallible" where
  "is_session_active dflt account uuid =
     (if uuid = [] then okM False
      else tryM (\<lambda>e. e) (stmt (is_session_active_script (session_limit_key account) dflt uuid)) (\<lambda>n. okM (n = 1)))"

text \<open>One pipeline; an account whose command failed has no count, and a lost connection gives no counts.\<close>

fun session_count_pipeline :: "int \<Rightarrow> (int64 \<rightharpoonup> duration) \<Rightarrow> int64 list \<Rightarrow> redis \<Rightarrow> (int64 \<times> int) list redis_reply" where
  "session_count_pipeline dflt idles [] s = (Inr [], s)"
| "session_count_pipeline dflt idles (i # is) s =
     (let idle = (case idles i of None \<Rightarrow> dflt | Some t \<Rightarrow> if 0 < t then go_div t second else dflt) in
      case active_session_count_script (session_limit_key i) idle s of
        (r, s1) \<Rightarrow> (case session_count_pipeline dflt idles is s1 of
          (Inl e, s2) \<Rightarrow> (Inl e, s2)
        | (Inr cs, s2) \<Rightarrow> (Inr ((case r of Inl _ \<Rightarrow> [] | Inr n \<Rightarrow> [(i, n)]) @ cs), s2)))"

definition active_session_counts ::
  "int \<Rightarrow> (int64 \<rightharpoonup> duration) \<Rightarrow> int64 list \<Rightarrow> (redis_store, (int64 \<times> int) list) state" where
  "active_session_counts dflt idles ids =
     (if ids = [] then State_Monad.return []
      else do { r \<leftarrow> stmt (session_count_pipeline dflt idles ids);
        State_Monad.return (case r of Inl _ \<Rightarrow> [] | Inr cs \<Rightarrow> cs) })"

subsection \<open>The cost of a window\<close>

definition get_window_cost :: "int64 \<Rightarrow> (redis_store, rat option) fallible" where
  "get_window_cost account = stmt (\<lambda>s. (dget (window_cost_key account) s, s))"

definition set_window_cost :: "int64 \<Rightarrow> rat \<Rightarrow> (redis_store, unit) fallible" where
  "set_window_cost account cost = stmt (\<lambda>s. (Inr (), set_ex (window_cost_key account) (Decimal cost) 30 s))"

text \<open>\<open>MGET\<close>: a key of another type is as if missing.\<close>

definition window_costs :: "int64 list \<Rightarrow> redis \<Rightarrow> (int64 \<times> rat) list" where
  "window_costs ids s = List.map_filter (\<lambda>i. case dget (window_cost_key i) s of Inr (Some c) \<Rightarrow> Some (i, c) | _ \<Rightarrow> None) ids"

definition get_window_cost_batch :: "int64 list \<Rightarrow> (redis_store, (int64 \<times> rat) list) fallible" where
  "get_window_cost_batch ids = (if ids = [] then okM [] else stmt (\<lambda>s. (Inr (window_costs ids s), s)))"

subsection \<open>Requests per minute\<close>

definition server_minute :: "(redis_store, int) fallible" where
  "server_minute = stmt (\<lambda>s. (Inr (seconds s div 60), s))"

definition incr :: "string \<Rightarrow> redis \<Rightarrow> int redis_reply" where
  "incr k s = (case cget k s of
     Inl e \<Rightarrow> (Inl e, s)
   | Inr c \<Rightarrow> let n = (case c of None \<Rightarrow> 0 | Some m \<Rightarrow> m) + 1 in (Inr n, put k (Counter n) s))"

definition increment_rpm :: "int64 \<Rightarrow> (redis_store, int) fallible" where
  "increment_rpm account = tryM (Wrapped ''rpm increment'' \<circ> Wrapped ''redis TIME'') server_minute (\<lambda>m.
     tryM (Wrapped ''rpm increment'') (stmt (\<lambda>s. case incr (rpm_key account m) s of
         (Inl e, s1) \<Rightarrow> (Inl e, expire (rpm_key account m) 120 s1)
       | (Inr n, s1) \<Rightarrow> (Inr n, expire (rpm_key account m) 120 s1))) okM)"

definition get_rpm :: "int64 \<Rightarrow> (redis_store, int) fallible" where
  "get_rpm account = tryM (Wrapped ''rpm get'' \<circ> Wrapped ''redis TIME'') server_minute (\<lambda>m.
     tryM (Wrapped ''rpm get'') (stmt (\<lambda>s. (cget (rpm_key account m) s, s))) (\<lambda>c.
       okM (case c of None \<Rightarrow> 0 | Some n \<Rightarrow> n)))"

text \<open>
  A pipeline reports the error of its first command that failed; a counter that does not exist is no failure
  when it comes first, but then hides the failure of a later one.
\<close>

fun first_failure :: "(go_error + int option) list \<Rightarrow> go_error option" where
  "first_failure [] = None"
| "first_failure (Inr (Some _) # rs) = first_failure rs"
| "first_failure (Inr None # rs) = None"
| "first_failure (Inl e # rs) = Some e"

definition rpm_counts :: "int \<Rightarrow> int64 list \<Rightarrow> redis \<Rightarrow> go_error + (int64 \<times> int) list" where
  "rpm_counts m ids s = (let rs = map (\<lambda>i. cget (rpm_key i m) s) ids in
     case first_failure rs of
       Some e \<Rightarrow> Inl e
     | None \<Rightarrow> Inr (map (\<lambda>(i, r). (i, case r of Inr (Some n) \<Rightarrow> n | _ \<Rightarrow> 0)) (zip ids rs)))"

definition get_rpm_batch :: "int64 list \<Rightarrow> (redis_store, (int64 \<times> int) list) fallible" where
  "get_rpm_batch ids = (if ids = [] then okM []
     else tryM (Wrapped ''rpm batch get'' \<circ> Wrapped ''redis TIME'') server_minute (\<lambda>m.
       tryM (Wrapped ''rpm batch get'') (stmt (\<lambda>s. (rpm_counts m ids s, s))) okM))"

subsection \<open>Sticky sessions\<close>

definition get_session_account :: "int64 \<Rightarrow> string \<Rightarrow> (redis_store, int64) fallible" where
  "get_session_account g h = tryM (\<lambda>e. e) (stmt (\<lambda>s. (cget (sticky_key g h) s, s))) (\<lambda>c. case c of
     None \<Rightarrow> failM (Plain ''redis: nil'') | Some n \<Rightarrow> okM n)"

definition set_session_account :: "int64 \<Rightarrow> string \<Rightarrow> int64 \<Rightarrow> int \<Rightarrow> (redis_store, unit) fallible" where
  "set_session_account g h account ttl = stmt (\<lambda>s. (Inr (), set_ex (sticky_key g h) (Counter account) ttl s))"

definition refresh_session_ttl :: "int64 \<Rightarrow> string \<Rightarrow> int \<Rightarrow> (redis_store, unit) fallible" where
  "refresh_session_ttl g h ttl = stmt (\<lambda>s. (Inr (), expire (sticky_key g h) ttl s))"

definition delete_session_account :: "int64 \<Rightarrow> string \<Rightarrow> (redis_store, unit) fallible" where
  "delete_session_account g h = stmt (\<lambda>s. (Inr (), del (sticky_key g h) s))"

definition cyber_block_key :: "string \<Rightarrow> string" where
  "cyber_block_key k = ''cyber_session_block:'' @ k"

definition set_cyber_session_blocked :: "string \<Rightarrow> int \<Rightarrow> (redis_store, unit) fallible" where
  "set_cyber_session_blocked k ttl = stmt (\<lambda>s. (Inr (), set_ex (cyber_block_key k) (Counter 1) ttl s))"

definition is_cyber_session_blocked :: "string \<Rightarrow> (redis_store, bool) fallible" where
  "is_cyber_session_blocked k = stmt (\<lambda>s. (Inr (entry (cyber_block_key k) s \<noteq> None), s))"

subsection \<open>The bound on the sessions of an account\<close>

datatype session_op =
    Register int int string
  | Refresh int string
  | Sessions int
  | Is_Active int string
  | Wait int

fun run_session_op :: "string \<Rightarrow> session_op \<Rightarrow> redis \<Rightarrow> int redis_reply" where
  "run_session_op k (Register limit idle u) s = register_session_script k limit idle u s"
| "run_session_op k (Refresh idle u) s = refresh_session_script k idle u s"
| "run_session_op k (Sessions idle) s = active_session_count_script k idle s"
| "run_session_op k (Is_Active idle u) s = is_session_active_script k idle u s"
| "run_session_op k (Wait d) s = (Inr 0, s\<lparr>rd_ms := rd_ms s + d\<rparr>)"

fun run_session_ops :: "string \<Rightarrow> session_op list \<Rightarrow> redis \<Rightarrow> redis" where
  "run_session_ops k [] s = s"
| "run_session_ops k (x # xs) s = run_session_ops k xs (snd (run_session_op k x s))"

fun op_within :: "int \<Rightarrow> session_op \<Rightarrow> bool" where
  "op_within m (Register limit idle u) \<longleftrightarrow> limit \<le> m \<and> 0 < idle"
| "op_within m (Refresh idle u) \<longleftrightarrow> 0 < idle"
| "op_within m (Sessions idle) \<longleftrightarrow> 0 < idle"
| "op_within m (Is_Active idle u) \<longleftrightarrow> 0 < idle"
| "op_within m (Wait d) \<longleftrightarrow> 0 \<le> d"

definition at_most :: "string \<Rightarrow> int \<Rightarrow> redis \<Rightarrow> bool" where
  "at_most k m s \<longleftrightarrow> (case zget k s of Inl _ \<Rightarrow> False | Inr z \<Rightarrow> int (length z) \<le> m)"

lemma zrem_below_zget: "zget k s = Inr z \<Longrightarrow>
    \<exists>s'. zrem_below k c s = (Inr (), s') \<and> zget k s' = Inr (zset_above c z)"
  by (simp add: zrem_below_def)

lemma length_zset_above: "length (zset_above c z) \<le> length z"
  by (simp add: zset_above_def)

lemma length_zset_add: "length (zset_add u x z) = (if map_of z u = None then Suc (length z) else length z)"
proof (induction z)
  case (Cons e z)
  then show ?case by (cases e) (auto simp: zset_add_def)
qed (simp add: zset_add_def)

lemma zget_added: "0 < t \<Longrightarrow> zget k (expire k t (zput k z s)) = Inr z"
  by (simp add: zget_expire)

lemma at_mostD: "at_most k m s \<Longrightarrow> \<exists>z. zget k s = Inr z \<and> int (length z) \<le> m"
  by (auto simp: at_most_def split: sum.splits)

lemma register_at_most:
  assumes "at_most k m s" "limit \<le> m" "0 < idle"
  shows "at_most k m (snd (register_session_script k limit idle u s))"
proof -
  obtain z where z: "zget k s = Inr z" "int (length z) \<le> m" using at_mostD [OF assms(1)] by blast
  obtain s1 where s1: "zrem_below k (seconds s - idle) s = (Inr (), s1)" "zget k s1 = Inr (zset_above (seconds s - idle) z)"
    using zrem_below_zget [OF z(1)] by blast
  have l: "int (length (zset_above (seconds s - idle) z)) \<le> m"
    using length_zset_above [of "seconds s - idle" z] z(2) by linarith
  show ?thesis
    using assms(2,3) l
    by (auto simp: register_session_script_def Let_def s1 at_most_def zget_added length_zset_add)
qed

lemma zget_later: "0 \<le> d \<Longrightarrow> zget k s = Inr z \<Longrightarrow> zget k (s\<lparr>rd_ms := rd_ms s + d\<rparr>) = Inr z \<or>
    zget k (s\<lparr>rd_ms := rd_ms s + d\<rparr>) = Inr []"
  by (auto simp: zget_def entry_def live_entry_def split: option.splits if_splits redis_value.splits)

lemma session_op_at_most:
  assumes "at_most k m s" "op_within m x"
  shows "at_most k m (snd (run_session_op k x s))"
proof -
  obtain z where z: "zget k s = Inr z" "int (length z) \<le> m" using at_mostD [OF assms(1)] by blast
  show ?thesis
  proof (cases x)
    case (Register limit idle u)
    then show ?thesis using register_at_most [OF assms(1)] assms(2) by simp
  next
    case (Refresh idle u)
    then show ?thesis using assms z
      by (auto simp: refresh_session_script_def at_most_def zget_added length_zset_add)
  next
    case (Sessions idle)
    obtain s1 where "zrem_below k (seconds s - idle) s = (Inr (), s1)" "zget k s1 = Inr (zset_above (seconds s - idle) z)"
      using zrem_below_zget [OF z(1)] by blast
    then show ?thesis using Sessions z(2) length_zset_above [of "seconds s - idle" z]
      by (simp add: active_session_count_script_def at_most_def)
  next
    case (Is_Active idle u)
    then show ?thesis using assms z by (simp add: is_session_active_script_def)
  next
    case (Wait d)
    then show ?thesis using zget_later [OF _ z(1), of d] assms(2) z(2) by (auto simp: at_most_def)
  qed
qed

text \<open>
  C37.  However the requests of many processes interleave, and whatever idle timeouts they pass, the sorted set of
  an account's sessions never holds more members than the largest limit asked for.
\<close>

theorem session_limit_kept:
  assumes "at_most k m s" "\<forall>x \<in> set xs. op_within m x"
  shows "at_most k m (run_session_ops k xs s)"
  using assms by (induction xs arbitrary: s) (simp_all add: session_op_at_most)

definition session_trace :: "session_op list" where
  "session_trace = [Register 2 300 ''a'', Register 2 300 ''b'', Register 2 300 ''c'', Wait 299000, Refresh 300 ''a'',
     Wait 2000, Register 2 300 ''c'', Sessions 300]"

theorem session_limit_kept_witness:
  "at_most (session_limit_key 7) 2 (run_session_ops (session_limit_key 7) session_trace quiet_redis)"
proof (rule session_limit_kept)
  show "at_most (session_limit_key 7) 2 quiet_redis" by (simp add: at_most_def zget_def entry_def quiet_redis_def)
  show "\<forall>x \<in> set session_trace. op_within 2 x" by (simp add: session_trace_def)
qed

lemma session_trace_run: "zget (session_limit_key 7) (run_session_ops (session_limit_key 7) session_trace quiet_redis) =
    Inr [(''a'', 1299), (''c'', 1301)]"
  by code_simp

text \<open>
  \<open>GetActiveSessionCount\<close> counts with the default timeout of the process, and the count removes what it does not
  count: the sessions of an account with a longer timeout are forgotten, and its next sessions are let in.
\<close>

lemma default_count_forgets_sessions:
  "let k = session_limit_key 7; s = run_session_ops k [Register 1 3600 ''a'', Wait 301000] quiet_redis in
     fst (run_session_op k (Register 1 3600 ''b'') s) = Inr 0 \<and>
     fst (run_session_op k (Register 1 3600 ''b'') (snd (run_session_op k (Sessions 300) s))) = Inr 1"
  by code_simp

end
