(* ===== verification/Channels.thy ===== *)
theory Channels
  imports Cost BillingTables
begin

section \<open>Channels\<close>

text \<open>
  \<open>service/channel.go\<close> and \<open>service/channel_service.go\<close>: a channel gives the groups it is linked to prices for
  models, names to send upstream instead of the requested ones, and may refuse models without a price.  Its
  configuration is validated, stored (\<open>repository/channel_repo.go\<close>) and expanded into a cache that every request
  reads.  A Go map is a list of entries without repeated keys, in the order in which Go happens to visit it.
  Descriptions, features and timestamps are left out.  A price is what the column gives back.
\<close>

subsection \<open>Data\<close>

record price_row =
  pw_id :: int64
  pw_platform :: string
  pw_models :: "string list"
  pw_price :: channel_price

record channel =
  ch_id :: int64
  ch_name :: string
  ch_status :: string
  ch_source :: string
  ch_restrict :: bool
  ch_groups :: "int64 list"
  ch_pricing :: "price_row list"
  ch_mapping :: "(string \<times> (string \<times> string) list) list"
  ch_rules :: "price_row list list"

definition is_active :: "channel \<Rightarrow> bool" where
  "is_active c \<longleftrightarrow> ch_status c = ''active''"

definition normalize_source :: "channel \<Rightarrow> channel" where
  "normalize_source c = (if ch_source c = [] then c\<lparr>ch_source := ''channel_mapped''\<rparr> else c)"

text \<open>A name pattern without its star, and whether it had one.\<close>

definition split_wildcard :: "string \<Rightarrow> string \<times> bool" where
  "split_wildcard p = (if has_suffix p ''*'' then (trim_suffix p ''*'', True) else (p, False))"

subsection \<open>Validation\<close>

record model_entry =
  me_pattern :: string
  me_prefix :: string
  me_wildcard :: bool

definition to_model_entry :: "string \<Rightarrow> model_entry" where
  "to_model_entry p = (case split_wildcard (to_lower p) of (x, w) \<Rightarrow> \<lparr>me_pattern = p, me_prefix = x, me_wildcard = w\<rparr>)"

definition conflicts_between :: "model_entry \<Rightarrow> model_entry \<Rightarrow> bool" where
  "conflicts_between a b =
     (case (me_wildcard a, me_wildcard b) of
        (False, False) \<Rightarrow> me_prefix a = me_prefix b
      | (True, False) \<Rightarrow> has_prefix (me_prefix b) (me_prefix a)
      | (False, True) \<Rightarrow> has_prefix (me_prefix a) (me_prefix b)
      | (True, True) \<Rightarrow> has_prefix (me_prefix a) (me_prefix b) \<or> has_prefix (me_prefix b) (me_prefix a))"

definition quoted :: "string \<Rightarrow> string" where
  "quoted s = [CHR 0x27] @ s @ [CHR 0x27]"

definition conflict_message :: "string \<Rightarrow> string \<Rightarrow> model_entry \<Rightarrow> model_entry \<Rightarrow> string" where
  "conflict_message label platform a b = label @ '' '' @ quoted (me_pattern a) @ '' and '' @ quoted (me_pattern b) @
     '' conflict in platform '' @ quoted platform @ '': overlapping match range '' @
     ''(model names are matched case-insensitively, so an existing entry already covers all case variants)''"

fun detect_conflicts :: "string \<Rightarrow> string \<Rightarrow> string \<Rightarrow> model_entry list \<Rightarrow> app_error option" where
  "detect_conflicts platform code label [] = None"
| "detect_conflicts platform code label (a # es) = (case List.find (conflicts_between a) es of
     Some b \<Rightarrow> Some (bad_request code (conflict_message label platform a b))
   | None \<Rightarrow> detect_conflicts platform code label es)"

text \<open>The first platform, in the order of the rows, whose patterns conflict; Go visits them in any order.\<close>

definition platform_entries :: "price_row list \<Rightarrow> string \<Rightarrow> model_entry list" where
  "platform_entries ps p = concat (map (\<lambda>r. map to_model_entry (pw_models r)) (filter (\<lambda>r. pw_platform r = p) ps))"

definition row_platforms :: "price_row list \<Rightarrow> string list" where
  "row_platforms ps = remdups (map pw_platform (filter (\<lambda>r. pw_models r \<noteq> []) ps))"

fun first_error :: "('a \<Rightarrow> 'e option) \<Rightarrow> 'a list \<Rightarrow> 'e option" where
  "first_error f [] = None"
| "first_error f (x # xs) = (case f x of Some e \<Rightarrow> Some e | None \<Rightarrow> first_error f xs)"

definition validate_models :: "price_row list \<Rightarrow> app_error option" where
  "validate_models ps = first_error (\<lambda>p. detect_conflicts p ''MODEL_PATTERN_CONFLICT'' ''model patterns'' (platform_entries ps p))
     (row_platforms ps)"

definition validate_mappings :: "(string \<times> (string \<times> string) list) list \<Rightarrow> app_error option" where
  "validate_mappings m = first_error (\<lambda>(p, es). detect_conflicts p ''MAPPING_PATTERN_CONFLICT'' ''mapping source patterns''
     (map (\<lambda>e. to_model_entry (fst e)) es)) m"

definition interval_no :: "nat \<Rightarrow> string" where
  "interval_no i = ''interval #'' @ itoa (int i + 1)"

definition negative :: "rat option \<Rightarrow> bool" where
  "negative v = (case v of None \<Rightarrow> False | Some x \<Rightarrow> x < 0)"

definition validate_interval_prices :: "nat \<Rightarrow> price_interval \<Rightarrow> string option" where
  "validate_interval_prices i iv = first_error (\<lambda>(n, v). if negative v then Some (interval_no i @ '': '' @ n @ '' must be >= 0'') else None)
     [(''input_price'', pi_input iv), (''output_price'', pi_output iv), (''cache_write_price'', pi_cache_write iv),
      (''cache_read_price'', pi_cache_read iv), (''per_request_price'', pi_request iv)]"

definition validate_single_interval :: "nat \<Rightarrow> price_interval \<Rightarrow> string option" where
  "validate_single_interval i iv =
     (if pi_min iv < 0 then Some (interval_no i @ '': min_tokens ('' @ itoa (pi_min iv) @ '') must be >= 0'')
      else case pi_max iv of
        None \<Rightarrow> validate_interval_prices i iv
      | Some m \<Rightarrow>
          if m \<le> 0 then Some (interval_no i @ '': max_tokens ('' @ itoa m @ '') must be > 0'')
          else if m \<le> pi_min iv then Some (interval_no i @ '': max_tokens ('' @ itoa m @ '') must be > min_tokens ('' @ itoa (pi_min iv) @ '')'')
          else validate_interval_prices i iv)"

definition max_label :: "int option \<Rightarrow> string" where
  "max_label m = (case m of None \<Rightarrow> [CHR 0xE2, CHR 0x88, CHR 0x9E] | Some n \<Rightarrow> itoa n)"

fun validate_overlap :: "nat \<Rightarrow> price_interval option \<Rightarrow> price_interval list \<Rightarrow> string option" where
  "validate_overlap i prev [] = None"
| "validate_overlap i prev (iv # ivs) =
     (if pi_max iv = None \<and> ivs \<noteq> []
      then Some (interval_no i @ '': unbounded interval (max_tokens=null) must be the last one'')
      else case prev of
        None \<Rightarrow> validate_overlap (i + 1) (Some iv) ivs
      | Some p \<Rightarrow>
          if (case pi_max p of None \<Rightarrow> True | Some m \<Rightarrow> pi_min iv < m)
          then Some (''interval #'' @ itoa (int i) @ '' and #'' @ itoa (int i + 1) @ '' overlap: prev max='' @ max_label (pi_max p) @
            '' > cur min='' @ itoa (pi_min iv))
          else validate_overlap (i + 1) (Some iv) ivs)"

definition validate_intervals :: "price_interval list \<Rightarrow> string \<Rightarrow> string option" where
  "validate_intervals ivs mode = (let sorted_ivs = sort_key pi_min ivs in
     case first_error (\<lambda>(i, iv). validate_single_interval i iv) (enumerate 0 sorted_ivs) of
       Some e \<Rightarrow> Some e
     | None \<Rightarrow> if mode = ''per_request'' \<or> mode = ''image'' then None else validate_overlap 0 None sorted_ivs)"

definition models_text :: "string list \<Rightarrow> string" where
  "models_text ms = ''['' @ join_with '' '' ms @ '']''"

definition validate_pricing_intervals :: "price_row list \<Rightarrow> app_error option" where
  "validate_pricing_intervals ps = first_error (\<lambda>r.
     map_option (\<lambda>e. bad_request ''INVALID_PRICING_INTERVALS''
       (''invalid pricing intervals for platform '' @ quoted (pw_platform r) @ '' models '' @ models_text (pw_models r) @ '': '' @ e))
     (validate_intervals (cp_intervals (pw_price r)) (cp_mode (pw_price r)))) ps"

definition check_mode :: "price_row \<Rightarrow> app_error option" where
  "check_mode r = (let p = pw_price r in
     if (cp_mode p = ''per_request'' \<or> cp_mode p = ''image'') \<and> cp_request p = None \<and> cp_intervals p = []
     then Some (bad_request ''BILLING_MODE_MISSING_PRICE''
       ''per-request price or intervals required for per_request/image billing mode'')
     else None)"

definition check_not_negative :: "price_row \<Rightarrow> app_error option" where
  "check_not_negative r = (let p = pw_price r in
     first_error (\<lambda>(n, v). if negative v then Some (bad_request ''NEGATIVE_PRICE'' (n @ '' must be >= 0'')) else None)
     [(''input_price'', cp_input p), (''output_price'', cp_output p), (''cache_write_price'', cp_cache_write p),
      (''cache_read_price'', cp_cache_read p), (''image_output_price'', cp_image_output p), (''per_request_price'', cp_request p)])"

definition check_interval_prices :: "price_row \<Rightarrow> app_error option" where
  "check_interval_prices r = first_error (\<lambda>iv.
     if valid_interval iv then None
     else Some (bad_request ''INTERVAL_MISSING_PRICE'' (''interval ['' @ itoa (pi_min iv) @ '', '' @ max_label (pi_max iv) @
       ''] has no price fields set for model '' @ models_text (pw_models r)))) (cp_intervals (pw_price r))"

definition or_error :: "'e option \<Rightarrow> 'e option \<Rightarrow> 'e option" where
  "or_error a b = (case a of Some e \<Rightarrow> Some e | None \<Rightarrow> b)"

definition validate_billing_mode :: "price_row list \<Rightarrow> app_error option" where
  "validate_billing_mode ps = first_error (\<lambda>r. or_error (check_mode r) (or_error (check_not_negative r) (check_interval_prices r))) ps"

definition validate_pricing_entries :: "price_row list \<Rightarrow> app_error option" where
  "validate_pricing_entries ps = or_error (validate_models ps) (or_error (validate_pricing_intervals ps) (validate_billing_mode ps))"

definition validate_config :: "price_row list \<Rightarrow> (string \<times> (string \<times> string) list) list \<Rightarrow> app_error option" where
  "validate_config ps m = or_error (validate_pricing_entries ps) (validate_mappings m)"

subsection \<open>The cache\<close>

record channel_cache =
  cc_pricing :: "int64 \<times> string \<times> string \<Rightarrow> price_row option"
  cc_wild_pricing :: "int64 \<times> string \<Rightarrow> (string \<times> price_row) list"
  cc_mapping :: "int64 \<times> string \<times> string \<Rightarrow> string option"
  cc_wild_mapping :: "int64 \<times> string \<Rightarrow> (string \<times> string) list"
  cc_channel :: "int64 \<Rightarrow> channel option"
  cc_platform :: "int64 \<Rightarrow> string option"
  cc_loaded :: time

definition empty_cache :: "time \<Rightarrow> channel_cache" where
  "empty_cache n = \<lparr>cc_pricing = (\<lambda>_. None), cc_wild_pricing = (\<lambda>_. []), cc_mapping = (\<lambda>_. None), cc_wild_mapping = (\<lambda>_. []),
     cc_channel = (\<lambda>_. None), cc_platform = (\<lambda>_. None), cc_loaded = n\<rparr>"

definition add_price :: "int64 \<Rightarrow> price_row \<Rightarrow> string \<Rightarrow> channel_cache \<Rightarrow> channel_cache" where
  "add_price g r model c = (let k = (g, pw_platform r) in
     if has_suffix model ''*''
     then c\<lparr>cc_wild_pricing := (cc_wild_pricing c)(k := cc_wild_pricing c k @ [(to_lower (trim_suffix model ''*''), r)])\<rparr>
     else c\<lparr>cc_pricing := (cc_pricing c)((g, pw_platform r, to_lower model) \<mapsto> r)\<rparr>)"

definition expand_pricing :: "channel \<Rightarrow> int64 \<Rightarrow> string \<Rightarrow> channel_cache \<Rightarrow> channel_cache" where
  "expand_pricing ch g platform =
     fold (\<lambda>r c. if platform = pw_platform r then fold (add_price g r) (pw_models r) c else c) (ch_pricing ch)"

definition add_mapping :: "int64 \<Rightarrow> string \<Rightarrow> string \<times> string \<Rightarrow> channel_cache \<Rightarrow> channel_cache" where
  "add_mapping g p e c = (let k = (g, p) in
     if has_suffix (fst e) ''*''
     then c\<lparr>cc_wild_mapping := (cc_wild_mapping c)(k := cc_wild_mapping c k @ [(to_lower (trim_suffix (fst e) ''*''), snd e)])\<rparr>
     else c\<lparr>cc_mapping := (cc_mapping c)((g, p, to_lower (fst e)) \<mapsto> snd e)\<rparr>)"

definition expand_mapping :: "channel \<Rightarrow> int64 \<Rightarrow> string \<Rightarrow> channel_cache \<Rightarrow> channel_cache" where
  "expand_mapping ch g platform c = (case map_of (ch_mapping ch) platform of
     None \<Rightarrow> c | Some es \<Rightarrow> fold (add_mapping g platform) es c)"

definition platform_of :: "(int64 \<Rightarrow> string option) \<Rightarrow> int64 \<Rightarrow> string" where
  "platform_of ps g = (case ps g of None \<Rightarrow> [] | Some p \<Rightarrow> p)"

definition add_group :: "(int64 \<Rightarrow> string option) \<Rightarrow> channel \<Rightarrow> int64 \<Rightarrow> channel_cache \<Rightarrow> channel_cache" where
  "add_group ps ch g c = expand_mapping ch g (platform_of ps g) (expand_pricing ch g (platform_of ps g)
     (c\<lparr>cc_channel := (cc_channel c)(g \<mapsto> ch)\<rparr>))"

definition populate_cache :: "time \<Rightarrow> channel list \<Rightarrow> (int64 \<Rightarrow> string option) \<Rightarrow> channel_cache" where
  "populate_cache n chs ps =
     fold (\<lambda>ch c. let ch' = normalize_source ch in fold (add_group ps ch') (ch_groups ch') c) chs ((empty_cache n)\<lparr>cc_platform := ps\<rparr>)"

definition first_prefix :: "(string \<times> 'a) list \<Rightarrow> string \<Rightarrow> 'a option" where
  "first_prefix es m = map_option snd (List.find (\<lambda>e. has_prefix m (fst e)) es)"

definition lookup_pricing :: "channel_cache \<Rightarrow> int64 \<Rightarrow> string \<Rightarrow> string \<Rightarrow> price_row option" where
  "lookup_pricing c g p m = (case cc_pricing c (g, p, m) of
     Some r \<Rightarrow> Some r | None \<Rightarrow> first_prefix (cc_wild_pricing c (g, p)) m)"

definition lookup_mapping :: "channel_cache \<Rightarrow> int64 \<Rightarrow> string \<Rightarrow> string \<Rightarrow> string" where
  "lookup_mapping c g p m = (case cc_mapping c (g, p, m) of
     Some t \<Rightarrow> t
   | None \<Rightarrow> (case first_prefix (cc_wild_mapping c (g, p)) m of None \<Rightarrow> [] | Some t \<Rightarrow> t))"

text \<open>The active channel of a group with the platform of the group.\<close>

definition lookup_channel :: "channel_cache \<Rightarrow> int64 \<Rightarrow> (channel \<times> string) option" where
  "lookup_channel c g = (case cc_channel c g of
     None \<Rightarrow> None | Some ch \<Rightarrow> if is_active ch then Some (ch, platform_of (cc_platform c) g) else None)"

definition channel_model_pricing :: "go_error + channel_cache \<Rightarrow> int64 \<Rightarrow> string \<Rightarrow> price_row option" where
  "channel_model_pricing cache g model = (case cache of
     Inl _ \<Rightarrow> None
   | Inr c \<Rightarrow> (case lookup_channel c g of
       None \<Rightarrow> None | Some (ch, p) \<Rightarrow> lookup_pricing c g p (to_lower model)))"

record mapping_result =
  mg_model :: string
  mg_channel :: int64
  mg_mapped :: bool
  mg_source :: string

definition unmapped :: "string \<Rightarrow> mapping_result" where
  "unmapped model = \<lparr>mg_model = model, mg_channel = 0, mg_mapped = False, mg_source = []\<rparr>"

definition resolve_channel_mapping :: "go_error + channel_cache \<Rightarrow> int64 \<Rightarrow> string \<Rightarrow> mapping_result" where
  "resolve_channel_mapping cache g model = (case cache of
     Inl _ \<Rightarrow> unmapped model
   | Inr c \<Rightarrow> (case lookup_channel c g of
       None \<Rightarrow> unmapped model
     | Some (ch, p) \<Rightarrow>
         let t = lookup_mapping c g p (to_lower model); r = (unmapped model)\<lparr>mg_channel := ch_id ch, mg_source := ch_source ch\<rparr> in
         if t \<noteq> [] then r\<lparr>mg_model := t, mg_mapped := True\<rparr> else r))"

definition is_model_restricted :: "go_error + channel_cache \<Rightarrow> int64 \<Rightarrow> string \<Rightarrow> bool" where
  "is_model_restricted cache g model = (case cache of
     Inl _ \<Rightarrow> False
   | Inr c \<Rightarrow> (case lookup_channel c g of
       None \<Rightarrow> False
     | Some (ch, p) \<Rightarrow> ch_restrict ch \<and> lookup_pricing c g p (to_lower model) = None))"

definition channel_for_group :: "go_error + channel_cache \<Rightarrow> int64 \<Rightarrow> go_error + channel option" where
  "channel_for_group cache g = map_sum (\<lambda>e. e) (\<lambda>c. map_option fst (lookup_channel c g)) cache"

text \<open>What a usage record keeps of a mapping; the arrow is U+2192.\<close>

definition arrow :: string where
  "arrow = [CHR 0xE2, CHR 0x86, CHR 0x92]"

definition mapping_chain :: "mapping_result \<Rightarrow> string \<Rightarrow> string \<Rightarrow> string" where
  "mapping_chain r req up =
     (if \<not> mg_mapped r then if up \<noteq> [] \<and> up \<noteq> req then req @ arrow @ up else []
      else if up \<noteq> [] \<and> up \<noteq> mg_model r then req @ arrow @ mg_model r @ arrow @ up
      else req @ arrow @ mg_model r)"

end
