(* ===== verification/Selection.thy ===== *)
theory Selection
  imports SchedOrder SessionCaches Channels
begin

section \<open>The choice of an account\<close>

text \<open>
  \<open>SelectAccountWithLoadAwareness\<close> of \<open>service/gateway_service.go\<close> as the server wires it (every cache, the
  concurrency service and the scheduler's snapshot are there), and \<open>ListSchedulableAccounts\<close> of
  \<open>service/scheduler_snapshot_service.go\<close>.  The state is Redis, whose statements may fail and between which other
  requests run, the cache of loads, the draws of \<open>math/rand\<close>, the counter of request ids and the errors set on accounts.  What the
  database and the cache of channels answer is a parameter; the clock is read once.  Log lines are left out.
\<close>

subsection \<open>Data\<close>

record schedule_config =
  sg_sticky_max_waiting :: int
  sg_sticky_timeout :: duration
  sg_fallback_timeout :: duration
  sg_fallback_max_waiting :: int
  sg_fallback_mode :: string
  sg_prefer_soonest :: bool
  sg_load_batch :: bool

record group =
  gr_id :: int64
  gr_name :: string
  gr_platform :: string
  gr_status :: string
  gr_hydrated :: bool
  gr_claude_only :: bool
  gr_fallback :: "int64 option"
  gr_routing_enabled :: bool
  gr_routing :: "(string \<times> int64 list) list"
  gr_require_privacy :: bool

record wait_plan =
  wp_account :: int64
  wp_max_concurrency :: int
  wp_timeout :: duration
  wp_max_waiting :: int

text \<open>A selection; its release function gives back the slot of an account under a request id.\<close>

record selection =
  sl_account :: sched_account
  sl_acquired :: bool
  sl_release :: "(int64 \<times> acquire_result) option"
  sl_wait :: "wait_plan option"

datatype account_query =
    By_Group int64 "string list"
  | By_Platforms "string list"
  | Ungrouped "string list"

record bucket =
  bk_group :: int64
  bk_platform :: string
  bk_mode :: string

record sched_env =
  se_now :: time
  se_tz :: duration
  se_zones :: "string \<Rightarrow> duration option"
  se_ctx :: request_ctx
  se_config :: schedule_config
  se_simple_mode :: bool
  se_context_group :: "group option"
  se_group_by_id :: "int64 \<Rightarrow> go_error + group"
  se_channels :: "go_error + channel_cache"
  se_snapshot :: "bucket \<Rightarrow> go_error + sched_account list option"
  se_fallback_refused :: "go_error option"
  se_query :: "account_query \<Rightarrow> go_error + sched_account list"
  se_account :: "int64 \<Rightarrow> go_error + sched_account option"
  se_window_stats :: "int64 \<Rightarrow> time \<Rightarrow> go_error + rat"
  se_window_stats_batch :: "int64 list \<Rightarrow> time \<Rightarrow> go_error + (int64 \<rightharpoonup> rat)"
  se_slots :: slot_config
  se_prefix :: string
  se_idle :: int
  se_load_ttl :: duration
  se_load_key :: "(int64 \<times> int) list \<Rightarrow> string"
  se_load_order :: "string list"

record sched_state =
  ss_redis :: redis_store
  ss_loads :: load_cache
  ss_dice :: draws
  ss_seq :: "64 word"
  ss_errors :: "(int64 \<times> string) list"

definition no_available :: go_error where
  "no_available = Plain ''no available accounts''"

definition sticky_ttl :: int where
  "sticky_ttl = 3600"

definition on_redis :: "(redis_store, 'a) state \<Rightarrow> (sched_state, 'a) state" where
  "on_redis m = State (\<lambda>s. case run_state m (ss_redis s) of (a, r) \<Rightarrow> (a, s\<lparr>ss_redis := r\<rparr>))"

definition roll :: "(draws \<Rightarrow> 'a \<times> draws) \<Rightarrow> (sched_state, 'a) state" where
  "roll f = State (\<lambda>s. case f (ss_dice s) of (a, d) \<Rightarrow> (a, s\<lparr>ss_dice := d\<rparr>))"

definition next_request_id :: "sched_env \<Rightarrow> (sched_state, string) state" where
  "next_request_id env = State (\<lambda>s. case generate_request_id (se_prefix env) (ss_seq s) of (r, c) \<Rightarrow> (r, s\<lparr>ss_seq := c\<rparr>))"

fun keep_if :: "('a \<Rightarrow> ('s, bool) state) \<Rightarrow> 'a list \<Rightarrow> ('s, 'a list) state" where
  "keep_if f [] = State_Monad.return []"
| "keep_if f (x # xs) = do { b \<leftarrow> f x; ys \<leftarrow> keep_if f xs; State_Monad.return (if b then x # ys else ys) }"

text \<open>The first element that gives a result.\<close>

fun first_some :: "('a \<Rightarrow> ('s, 'b option) state) \<Rightarrow> 'a list \<Rightarrow> ('s, 'b option) state" where
  "first_some f [] = State_Monad.return None"
| "first_some f (x # xs) = do { r \<leftarrow> f x; case r of None \<Rightarrow> first_some f xs | Some b \<Rightarrow> State_Monad.return (Some b) }"

definition or_else :: "('s, 'a option) state \<Rightarrow> ('s, 'a option) state \<Rightarrow> ('s, 'a option) state" where
  "or_else m k = do { r \<leftarrow> m; case r of None \<Rightarrow> k | Some b \<Rightarrow> State_Monad.return (Some b) }"

subsection \<open>The accounts the scheduler knows\<close>

definition empty_window :: quota_window where
  "empty_window = \<lparr>qw_limit = None, qw_used = None, qw_start = None, qw_mode = None, qw_reset_at = None, qw_reset_hour = None\<rparr>"

definition empty_quota :: account_quota where
  "empty_quota = \<lparr>aq_used = None, aq_limit = None, aq_timezone = None, aq_daily = empty_window, aq_weekly = empty_window,
     aq_weekly_day = None\<rparr>"

text \<open>What the snapshot in Redis keeps of an account: the keys of \<open>extra\<close> and \<open>credentials\<close> that are listed.\<close>

definition scheduler_metadata :: "sched_account \<Rightarrow> sched_account" where
  "scheduler_metadata a = a\<lparr>
     sa_credentials := (\<lambda>k. if k \<in> {''model_mapping'', ''api_key'', ''project_id'', ''oauth_type''} then sa_credentials a k else []),
     sa_overages := False, sa_passthrough := None, sa_oauth_passthrough := None,
     sa_base_rpm := None, sa_rpm_strategy := None, sa_rpm_buffer := None, sa_groups := filter (\<lambda>g. 0 < g) (sa_groups a), sa_privacy := [], sa_quota := empty_quota\<rparr>"

definition get_snapshot :: "sched_env \<Rightarrow> bucket \<Rightarrow> go_error + sched_account list option" where
  "get_snapshot env b = (case se_snapshot env b of
     Inl e \<Rightarrow> Inl e
   | Inr None \<Rightarrow> Inr None
   | Inr (Some as) \<Rightarrow> Inr (if as = [] then None else Some (map scheduler_metadata as)))"

definition mixed_platform :: "string \<Rightarrow> bool \<Rightarrow> bool" where
  "mixed_platform platform forced \<longleftrightarrow> (platform = ''anthropic'' \<or> platform = ''gemini'') \<and> \<not> forced"

definition bucket_for :: "sched_env \<Rightarrow> int64 option \<Rightarrow> string \<Rightarrow> bool \<Rightarrow> bucket" where
  "bucket_for env gid platform forced =
     \<lparr>bk_group = (if se_simple_mode env then 0 else case gid of None \<Rightarrow> 0 | Some g \<Rightarrow> if g \<le> 0 then 0 else g),
      bk_platform = platform,
      bk_mode = (if forced then ''forced'' else if platform = ''anthropic'' \<or> platform = ''gemini'' then ''mixed'' else ''single'')\<rparr>"

definition load_accounts :: "sched_env \<Rightarrow> bucket \<Rightarrow> bool \<Rightarrow> go_error + sched_account list" where
  "load_accounts env b mixed =
     (let g = (if se_simple_mode env then 0 else bk_group b);
          ps = (if mixed then [bk_platform b, ''antigravity''] else [bk_platform b]);
          q = (if 0 < g then By_Group g ps else if se_simple_mode env then By_Platforms ps else Ungrouped ps)
      in case se_query env q of
        Inl e \<Rightarrow> Inl e
      | Inr as \<Rightarrow> Inr (if mixed then filter (\<lambda>a. \<not> (sa_platform a = ''antigravity'' \<and> \<not> mixed_scheduling a)) as else as))"

definition list_schedulable :: "sched_env \<Rightarrow> int64 option \<Rightarrow> string \<Rightarrow> bool \<Rightarrow> (go_error + sched_account list) \<times> bool" where
  "list_schedulable env gid platform forced =
     (let mixed = mixed_platform platform forced; b = bucket_for env gid platform forced;
          from_db = (case se_fallback_refused env of Some e \<Rightarrow> Inl e | None \<Rightarrow> load_accounts env b mixed)
      in (case get_snapshot env b of
            Inl _ \<Rightarrow> from_db
          | Inr None \<Rightarrow> from_db
          | Inr (Some as) \<Rightarrow> Inr as, mixed))"

text \<open>The account as \<open>GetAccount\<close> reads it, in full.\<close>

definition snapshot_account :: "sched_env \<Rightarrow> int64 \<Rightarrow> go_error + sched_account option" where
  "snapshot_account env i = (if i \<le> 0 then Inr None else se_account env i)"

definition hydrate :: "sched_env \<Rightarrow> sched_account \<Rightarrow> go_error + sched_account" where
  "hydrate env a = (case snapshot_account env (sa_id a) of
     Inl e \<Rightarrow> Inl e
   | Inr None \<Rightarrow> Inl (Plain (''selected gateway account '' @ itoa (sa_id a) @ '' not found during hydration''))
   | Inr (Some h) \<Rightarrow> Inr h)"

definition new_selection ::
  "sched_env \<Rightarrow> sched_account \<Rightarrow> acquire_result option \<Rightarrow> wait_plan option \<Rightarrow> go_error + selection" where
  "new_selection env a slot plan = (case hydrate env a of
     Inl e \<Rightarrow> Inl e
   | Inr h \<Rightarrow> Inr \<lparr>sl_account = h, sl_acquired = (slot \<noteq> None), sl_release = map_option (\<lambda>q. (sa_id a, q)) slot, sl_wait = plan\<rparr>)"

definition sticky_plan :: "sched_env \<Rightarrow> sched_account \<Rightarrow> wait_plan" where
  "sticky_plan env a = \<lparr>wp_account = sa_id a, wp_max_concurrency = sa_concurrency a,
     wp_timeout = sg_sticky_timeout (se_config env), wp_max_waiting = sg_sticky_max_waiting (se_config env)\<rparr>"

definition fallback_plan :: "sched_env \<Rightarrow> sched_account \<Rightarrow> wait_plan" where
  "fallback_plan env a = \<lparr>wp_account = sa_id a, wp_max_concurrency = sa_concurrency a,
     wp_timeout = sg_fallback_timeout (se_config env), wp_max_waiting = sg_fallback_max_waiting (se_config env)\<rparr>"

subsection \<open>Groups\<close>

definition is_group_context_valid :: "group \<Rightarrow> bool" where
  "is_group_context_valid g \<longleftrightarrow> 0 < gr_id g \<and> gr_hydrated g \<and> gr_platform g \<noteq> [] \<and> gr_status g \<noteq> []"

definition group_from_context :: "sched_env \<Rightarrow> int64 \<Rightarrow> group option" where
  "group_from_context env i = (case se_context_group env of
     None \<Rightarrow> None | Some g \<Rightarrow> if is_group_context_valid g \<and> gr_id g = i then Some g else None)"

definition resolve_group_by_id :: "sched_env \<Rightarrow> int64 \<Rightarrow> go_error + group" where
  "resolve_group_by_id env i = (case group_from_context env i of
     Some g \<Rightarrow> Inr g
   | None \<Rightarrow> (case se_group_by_id env i of Inl e \<Rightarrow> Inl (Wrapped ''get group failed'' e) | Inr g \<Rightarrow> Inr g))"

text \<open>The chain of fallback groups; a group already visited ends it.  \<open>None\<close> is a chain without end.\<close>

partial_function (option) walk_groups ::
  "sched_env \<Rightarrow> int64 list \<Rightarrow> int64 \<Rightarrow> (go_error + group \<times> int64) option" where
  "walk_groups env visited i =
     (if i \<in> set visited then Some (Inl (Plain ''fallback group cycle detected''))
      else case resolve_group_by_id env i of
        Inl e \<Rightarrow> Some (Inl e)
      | Inr g \<Rightarrow>
          if \<not> gr_claude_only g \<or> rc_claude_code (se_ctx env) then Some (Inr (g, i))
          else case gr_fallback g of
            None \<Rightarrow> Some (Inl (Plain ''this group only allows Claude Code clients''))
          | Some j \<Rightarrow> walk_groups env (i # visited) j)"

definition claude_code_restriction ::
  "sched_env \<Rightarrow> int64 option \<Rightarrow> (go_error + group option \<times> int64 option) option" where
  "claude_code_restriction env gid = (case gid of
     None \<Rightarrow> Some (Inr (None, None))
   | Some i \<Rightarrow>
       if rc_force_platform (se_ctx env) \<noteq> [] then Some (Inr (None, Some i))
       else map_option (map_sum (\<lambda>e. e) (\<lambda>(g, j). (Some g, Some j))) (walk_groups env [] i))"

definition resolve_platform :: "sched_env \<Rightarrow> int64 option \<Rightarrow> group option \<Rightarrow> go_error + string \<times> bool" where
  "resolve_platform env gid g =
     (if rc_force_platform (se_ctx env) \<noteq> [] then Inr (rc_force_platform (se_ctx env), True)
      else case g of
        Some h \<Rightarrow> Inr (gr_platform h, False)
      | None \<Rightarrow> (case gid of
          Some i \<Rightarrow> (case resolve_group_by_id env i of Inl e \<Rightarrow> Inl e | Inr h \<Rightarrow> Inr (gr_platform h, False))
        | None \<Rightarrow> Inr (''anthropic'', False)))"

definition match_model_pattern :: "string \<Rightarrow> string \<Rightarrow> bool" where
  "match_model_pattern p m \<longleftrightarrow> p = m \<or> (has_suffix p ''*'' \<and> has_prefix m (butlast p))"

text \<open>The exact rule, else the first pattern that matches, in the order in which Go visits the map.\<close>

definition routing_account_ids :: "group \<Rightarrow> string \<Rightarrow> int64 list" where
  "routing_account_ids g m =
     (if \<not> gr_routing_enabled g \<or> m = [] then []
      else case map_of (gr_routing g) m of
        Some (i # is) \<Rightarrow> i # is
      | _ \<Rightarrow> (case List.find (\<lambda>(p, is). match_model_pattern p m \<and> is \<noteq> []) (gr_routing g) of
          None \<Rightarrow> [] | Some (_, is) \<Rightarrow> is))"

subsection \<open>What an account passes\<close>

definition fits :: "sched_env \<Rightarrow> string \<Rightarrow> bool \<Rightarrow> string \<Rightarrow> sched_account \<Rightarrow> bool" where
  "fits env platform mixed model a \<longleftrightarrow>
     is_schedulable (se_zones env) (se_now env) a \<and> allowed_for_platform platform mixed a \<and>
     (model = [] \<or> model_supported (se_ctx env) a model) \<and>
     is_schedulable_for_model (se_zones env) (se_ctx env) (se_now env) a model \<and>
     schedulable_for_quota (se_zones env) (se_now env) a"

record prefetched =
  pf_costs :: "(int64 \<times> rat) list"
  pf_rpms :: "(int64 \<times> int) list"

definition start_of_window :: "sched_env \<Rightarrow> sched_account \<Rightarrow> time" where
  "start_of_window env a = current_window_start (se_tz env) (se_now env) a"

text \<open>Accounts without a cached cost, grouped by the second in which their window began.\<close>

definition start_groups :: "sched_env \<Rightarrow> sched_account list \<Rightarrow> (time \<times> int64 list) list" where
  "start_groups env as = (let key = (\<lambda>a. start_of_window env a div second) in
     map (\<lambda>k. let g = filter (\<lambda>a. key a = k) as in (start_of_window env (last g), map sa_id g)) (remdups (map key as)))"

definition group_costs :: "sched_env \<Rightarrow> time \<times> int64 list \<Rightarrow> (int64 \<times> rat) list" where
  "group_costs env g = (case g of (start, ids) \<Rightarrow>
     (case se_window_stats_batch env ids start of
        Inr f \<Rightarrow> map (\<lambda>i. (i, case f i of None \<Rightarrow> 0 | Some c \<Rightarrow> c)) ids
      | Inl _ \<Rightarrow> List.map_filter (\<lambda>i. case se_window_stats env i start of Inl _ \<Rightarrow> None | Inr c \<Rightarrow> Some (i, c)) ids))"

definition prefetch_costs :: "sched_env \<Rightarrow> sched_account list \<Rightarrow> (sched_state, (int64 \<times> rat) list) state" where
  "prefetch_costs env accounts =
     (let limited = filter (\<lambda>a. is_anthropic_oauth a \<and> 0 < window_cost_limit a) accounts in
      if limited = [] then State_Monad.return []
      else do {
        r \<leftarrow> on_redis (get_window_cost_batch (map sa_id limited));
        let cached = (case r of Inl _ \<Rightarrow> [] | Inr cs \<Rightarrow> cs);
        let fetched = concat (map (group_costs env) (start_groups env (filter (\<lambda>a. map_of cached (sa_id a) = None) limited)));
        _ \<leftarrow> each (\<lambda>(i, c). on_redis (set_window_cost i c)) fetched;
        State_Monad.return (cached @ fetched) })"

definition prefetch_rpms :: "sched_env \<Rightarrow> sched_account list \<Rightarrow> (sched_state, (int64 \<times> int) list) state" where
  "prefetch_rpms env accounts =
     (let ids = map sa_id (filter (\<lambda>a. is_anthropic_oauth a \<and> 0 < base_rpm a) accounts) in
      if ids = [] then State_Monad.return []
      else do { r \<leftarrow> on_redis (get_rpm_batch ids); State_Monad.return (case r of Inl _ \<Rightarrow> [] | Inr cs \<Rightarrow> cs) })"

text \<open>The cost a check is made with, if it can be known.\<close>

definition known_window_cost :: "sched_env \<Rightarrow> prefetched \<Rightarrow> sched_account \<Rightarrow> (sched_state, rat option) state" where
  "known_window_cost env pf a =
     (case (if 0 < sa_id a then map_of (pf_costs pf) (sa_id a) else None) of
        Some c \<Rightarrow> State_Monad.return (Some c)
      | None \<Rightarrow> do {
          r \<leftarrow> on_redis (get_window_cost (sa_id a));
          (case r of
             Inr (Some c) \<Rightarrow> State_Monad.return (Some c)
           | _ \<Rightarrow> (case se_window_stats env (sa_id a) (start_of_window env a) of
               Inl _ \<Rightarrow> State_Monad.return None
             | Inr c \<Rightarrow> do { _ \<leftarrow> on_redis (set_window_cost (sa_id a) c); State_Monad.return (Some c) })) })"

definition window_cost_ok :: "sched_env \<Rightarrow> prefetched \<Rightarrow> bool \<Rightarrow> sched_account \<Rightarrow> (sched_state, bool) state" where
  "window_cost_ok env pf sticky a =
     (if \<not> is_anthropic_oauth a \<or> window_cost_limit a \<le> 0 then State_Monad.return True
      else do { c \<leftarrow> known_window_cost env pf a;
        State_Monad.return (case c of None \<Rightarrow> True | Some x \<Rightarrow> admits sticky (check_window_cost a x)) })"

definition rpm_ok :: "sched_env \<Rightarrow> prefetched \<Rightarrow> bool \<Rightarrow> sched_account \<Rightarrow> (sched_state, bool) state" where
  "rpm_ok env pf sticky a =
     (if \<not> is_anthropic_oauth a \<or> base_rpm a \<le> 0 then State_Monad.return True
      else do {
        n \<leftarrow> (case map_of (pf_rpms pf) (sa_id a) of
          Some n \<Rightarrow> State_Monad.return n
        | None \<Rightarrow> do { r \<leftarrow> on_redis (get_rpm (sa_id a)); State_Monad.return (case r of Inl _ \<Rightarrow> 0 | Inr n \<Rightarrow> n) });
        State_Monad.return (admits sticky (check_rpm a n)) })"

definition passes :: "sched_env \<Rightarrow> prefetched \<Rightarrow> string \<Rightarrow> bool \<Rightarrow> string \<Rightarrow> bool \<Rightarrow> sched_account \<Rightarrow> (sched_state, bool) state" where
  "passes env pf platform mixed model sticky a =
     (if \<not> fits env platform mixed model a then State_Monad.return False
      else do { w \<leftarrow> window_cost_ok env pf sticky a;
        if w then rpm_ok env pf sticky a else State_Monad.return False })"

text \<open>Without a binding all checks are made before the first is looked at.\<close>

definition sticky_checks :: "sched_env \<Rightarrow> prefetched \<Rightarrow> string \<Rightarrow> bool \<Rightarrow> string \<Rightarrow> sched_account \<Rightarrow> (sched_state, bool) state" where
  "sticky_checks env pf platform mixed model a = do {
     w \<leftarrow> window_cost_ok env pf True a;
     r \<leftarrow> rpm_ok env pf True a;
     State_Monad.return (fits env platform mixed model a \<and> w \<and> r) }"

subsection \<open>Slots, sessions, bindings\<close>

definition try_acquire :: "sched_env \<Rightarrow> sched_account \<Rightarrow> (sched_state, acquire_result) fallible" where
  "try_acquire env a =
     (if sa_concurrency a \<le> 0 then okM \<lparr>aq_acquired = True, aq_release = None\<rparr>
      else do { r \<leftarrow> next_request_id env;
        on_redis (acquire_account_slot (se_slots env) (sa_id a) (sa_concurrency a) r) })"

definition check_and_register :: "sched_env \<Rightarrow> string \<Rightarrow> sched_account \<Rightarrow> (sched_state, bool) state" where
  "check_and_register env hash a =
     (if \<not> is_anthropic_oauth a \<or> max_sessions a \<le> 0 \<or> hash = [] then State_Monad.return True
      else do {
        r \<leftarrow> on_redis (register_session (se_idle env) (sa_id a) hash (max_sessions a) (idle_timeout_minutes a * minute));
        State_Monad.return (case r of Inl _ \<Rightarrow> True | Inr b \<Rightarrow> b) })"

datatype attempt = Taken acquire_result | Session_Full | Busy

text \<open>A slot, given back when the account has no session left.\<close>

definition take_slot :: "sched_env \<Rightarrow> string \<Rightarrow> sched_account \<Rightarrow> (sched_state, attempt) state" where
  "take_slot env hash a = do {
     r \<leftarrow> try_acquire env a;
     (case r of
        Inl _ \<Rightarrow> State_Monad.return Busy
      | Inr q \<Rightarrow>
          if \<not> aq_acquired q then State_Monad.return Busy
          else do { ok \<leftarrow> check_and_register env hash a;
            if ok then State_Monad.return (Taken q)
            else do { _ \<leftarrow> on_redis (release_with (account_slot_key (sa_id a)) q); State_Monad.return Session_Full } }) }"

definition group_or_zero :: "int64 option \<Rightarrow> int64" where
  "group_or_zero gid = (case gid of None \<Rightarrow> 0 | Some g \<Rightarrow> g)"

definition bind_session :: "int64 option \<Rightarrow> string \<Rightarrow> sched_account \<Rightarrow> (sched_state, unit) state" where
  "bind_session gid hash a =
     (if hash = [] then State_Monad.return ()
      else do { _ \<leftarrow> on_redis (set_session_account (group_or_zero gid) hash (sa_id a) sticky_ttl); State_Monad.return () })"

definition unbind_session :: "int64 option \<Rightarrow> string \<Rightarrow> (sched_state, unit) state" where
  "unbind_session gid hash = do { _ \<leftarrow> on_redis (delete_session_account (group_or_zero gid) hash); State_Monad.return () }"

definition waiting_count :: "sched_account \<Rightarrow> (sched_state, int) state" where
  "waiting_count a = do { r \<leftarrow> on_redis (get_account_waiting_count (sa_id a));
     State_Monad.return (case r of Inl _ \<Rightarrow> 0 | Inr n \<Rightarrow> n) }"

definition loads_of :: "sched_env \<Rightarrow> sched_account list \<Rightarrow> (sched_state, go_error + load_info list) state" where
  "loads_of env as = State (\<lambda>s. let items = map (\<lambda>a. (sa_id a, effective_load_factor a)) as in
     case run_state (get_loads (se_slots env) (se_load_ttl env) True (se_load_order env) (se_now env) (se_load_key env items)
            items (ss_loads s)) (ss_redis s) of
       ((r, c), t) \<Rightarrow> (r, s\<lparr>ss_redis := t, ss_loads := c\<rparr>))"

text \<open>The accounts that are not full, with their load; one without an entry counts as idle.\<close>

definition with_load :: "load_info list \<Rightarrow> sched_account list \<Rightarrow> loaded list" where
  "with_load ls as = filter (\<lambda>x. snd x < 100)
     (map (\<lambda>a. (a, case List.find (\<lambda>l. li_id l = sa_id a) ls of None \<Rightarrow> 0 | Some l \<Rightarrow> li_rate l)) as)"

subsection \<open>The layers\<close>

type_synonym answer = "go_error + selection"

text \<open>A waiting plan for the account, if it may have one more session.\<close>

definition wait_for :: "sched_env \<Rightarrow> string \<Rightarrow> (sched_account \<Rightarrow> wait_plan) \<Rightarrow> sched_account \<Rightarrow> (sched_state, answer option) state" where
  "wait_for env hash plan a = do { ok \<leftarrow> check_and_register env hash a;
     State_Monad.return (if ok then Some (new_selection env a None (Some (plan a))) else None) }"

definition take_and_bind :: "sched_env \<Rightarrow> int64 option \<Rightarrow> string \<Rightarrow> sched_account \<Rightarrow> (sched_state, answer option) state" where
  "take_and_bind env gid hash a = do { t \<leftarrow> take_slot env hash a;
     (case t of
        Taken q \<Rightarrow> do { _ \<leftarrow> bind_session gid hash a; State_Monad.return (Some (new_selection env a (Some q) None)) }
      | _ \<Rightarrow> State_Monad.return None) }"

record request =
  rq_gid :: "int64 option"
  rq_hash :: string
  rq_model :: string
  rq_excluded :: "int64 list"
  rq_sticky :: int64
  rq_platform :: string
  rq_mixed :: bool

definition account_by_id :: "sched_account list \<Rightarrow> int64 \<Rightarrow> sched_account option" where
  "account_by_id as i = List.find (\<lambda>a. sa_id a = i) (rev as)"

definition candidates :: "sched_env \<Rightarrow> prefetched \<Rightarrow> request \<Rightarrow> sched_account list \<Rightarrow> (sched_state, sched_account list) state" where
  "candidates env pf q as = keep_if (\<lambda>a.
     if sa_id a \<in> set (rq_excluded q) then State_Monad.return False
     else passes env pf (rq_platform q) (rq_mixed q) (rq_model q) False a) as"

text \<open>A session bound to one of the routed accounts.  The waiting plan is made without reading the account in full.\<close>

definition routed_sticky ::
  "sched_env \<Rightarrow> prefetched \<Rightarrow> request \<Rightarrow> sched_account list \<Rightarrow> int64 list \<Rightarrow> (sched_state, answer option) state" where
  "routed_sticky env pf q accounts ids =
     (if rq_hash q = [] \<or> rq_sticky q \<le> 0 \<or> rq_sticky q \<notin> set ids \<or> rq_sticky q \<in> set (rq_excluded q)
      then State_Monad.return None
      else case account_by_id accounts (rq_sticky q) of
        None \<Rightarrow> do { _ \<leftarrow> unbind_session (rq_gid q) (rq_hash q); State_Monad.return None }
      | Some a \<Rightarrow> do {
          ok \<leftarrow> passes env pf (rq_platform q) (rq_mixed q) (rq_model q) True a;
          if \<not> ok then State_Monad.return None
          else do { t \<leftarrow> take_slot env (rq_hash q) a;
            (case t of
               Taken r \<Rightarrow> State_Monad.return (Some (new_selection env a (Some r) None))
             | Session_Full \<Rightarrow> State_Monad.return None
             | Busy \<Rightarrow> do { w \<leftarrow> waiting_count a;
                 if w < sg_sticky_max_waiting (se_config env) then do {
                   ok \<leftarrow> check_and_register env (rq_hash q) a;
                   State_Monad.return (if ok then Some (Inr \<lparr>sl_account = a, sl_acquired = False, sl_release = None,
                     sl_wait = Some (sticky_plan env a)\<rparr>) else None) }
                 else State_Monad.return None }) } })"

definition routed_by_load ::
  "sched_env \<Rightarrow> request \<Rightarrow> sched_account list \<Rightarrow> (sched_state, answer option) state" where
  "routed_by_load env q cs = do {
     r \<leftarrow> loads_of env cs;
     xs \<leftarrow> roll (sort_by_load (with_load (case r of Inl _ \<Rightarrow> [] | Inr ls \<Rightarrow> ls) cs));
     or_else (first_some (take_and_bind env (rq_gid q) (rq_hash q)) (map fst xs))
       (first_some (wait_for env (rq_hash q) (sticky_plan env)) (map fst xs)) }"

definition routed_layer ::
  "sched_env \<Rightarrow> prefetched \<Rightarrow> request \<Rightarrow> sched_account list \<Rightarrow> int64 list \<Rightarrow> (sched_state, answer option) state" where
  "routed_layer env pf q accounts ids =
     (if ids = [] then State_Monad.return None
      else do {
        cs \<leftarrow> candidates env pf q (List.map_filter (account_by_id accounts) ids);
        if cs = [] then State_Monad.return None
        else or_else (routed_sticky env pf q accounts ids) (routed_by_load env q cs) })"

definition sticky_layer ::
  "sched_env \<Rightarrow> prefetched \<Rightarrow> request \<Rightarrow> sched_account list \<Rightarrow> int64 list \<Rightarrow> (sched_state, answer option) state" where
  "sticky_layer env pf q accounts ids =
     (if ids \<noteq> [] \<or> rq_hash q = [] \<or> rq_sticky q \<le> 0 \<or> rq_sticky q \<in> set (rq_excluded q) then State_Monad.return None
      else case account_by_id accounts (rq_sticky q) of
        None \<Rightarrow> State_Monad.return None
      | Some a \<Rightarrow> do {
          let clear = should_clear_sticky (se_zones env) (se_now env) a (rq_model q);
          _ \<leftarrow> (if clear then unbind_session (rq_gid q) (rq_hash q) else State_Monad.return ());
          ok \<leftarrow> sticky_checks env pf (rq_platform q) (rq_mixed q) (rq_model q) a;
          if clear \<or> \<not> ok then State_Monad.return None
          else do { t \<leftarrow> take_slot env (rq_hash q) a;
            (case t of
               Taken r \<Rightarrow> do {
                 _ \<leftarrow> on_redis (refresh_session_ttl (group_or_zero (rq_gid q)) (rq_hash q) sticky_ttl);
                 State_Monad.return (Some (new_selection env a (Some r) None)) }
             | _ \<Rightarrow> do { w \<leftarrow> waiting_count a;
                 if w < sg_sticky_max_waiting (se_config env) then wait_for env (rq_hash q) (sticky_plan env) a
                 else State_Monad.return None }) } })"

lemma picked_shorter:
  assumes "(Some (x, l), d') = pick n s p xs d"
  shows "length (filter (\<lambda>y. sa_id (fst y) \<noteq> sa_id x) xs) < length xs"
proof -
  have "(x, l) \<in> set xs" using assms pick_in by (metis fst_conv)
  then show ?thesis using length_filter_less by force
qed

text \<open>The layered choice: each account tried leaves the list.\<close>

function by_layers :: "sched_env \<Rightarrow> request \<Rightarrow> bool \<Rightarrow> loaded list \<Rightarrow> sched_state \<Rightarrow> answer option \<times> sched_state" where
  "by_layers env q oauth_first xs s =
     (case pick (se_now env) (sg_prefer_soonest (se_config env)) oauth_first xs (ss_dice s) of
        (None, d) \<Rightarrow> (None, s\<lparr>ss_dice := d\<rparr>)
      | (Some x, d) \<Rightarrow>
          (case run_state (take_and_bind env (rq_gid q) (rq_hash q) (fst x)) (s\<lparr>ss_dice := d\<rparr>) of
             (Some a, t) \<Rightarrow> (Some a, t)
           | (None, t) \<Rightarrow> by_layers env q oauth_first (filter (\<lambda>y. sa_id (fst y) \<noteq> sa_id (fst x)) xs) t))"
  by pat_completeness auto
termination
  by (relation "measure (\<lambda>(_, _, _, xs, _). length xs)") (auto dest: picked_shorter)

declare by_layers.simps [simp del]

definition in_legacy_order ::
  "sched_env \<Rightarrow> request \<Rightarrow> bool \<Rightarrow> sched_account list \<Rightarrow> (sched_state, answer option) state" where
  "in_legacy_order env q oauth_first cs = do {
     xs \<leftarrow> roll (sort_by_priority_and_use oauth_first cs);
     first_some (take_and_bind env (rq_gid q) (rq_hash q)) xs }"

definition load_layer :: "sched_env \<Rightarrow> request \<Rightarrow> bool \<Rightarrow> sched_account list \<Rightarrow> (sched_state, answer option) state" where
  "load_layer env q oauth_first cs = do {
     r \<leftarrow> loads_of env cs;
     (case r of
        Inl _ \<Rightarrow> in_legacy_order env q oauth_first cs
      | Inr ls \<Rightarrow> State (by_layers env q oauth_first (with_load ls cs))) }"

definition fallback_layer :: "sched_env \<Rightarrow> request \<Rightarrow> bool \<Rightarrow> sched_account list \<Rightarrow> (sched_state, answer) state" where
  "fallback_layer env q oauth_first cs = do {
     xs \<leftarrow> roll (sort_for_fallback oauth_first (sg_fallback_mode (se_config env)) cs);
     r \<leftarrow> first_some (wait_for env (rq_hash q) (fallback_plan env)) xs;
     State_Monad.return (case r of None \<Rightarrow> Inl no_available | Some a \<Rightarrow> a) }"

definition select_by_load ::
  "sched_env \<Rightarrow> request \<Rightarrow> sched_account list \<Rightarrow> int64 list \<Rightarrow> (sched_state, answer) state" where
  "select_by_load env q accounts ids = do {
     costs \<leftarrow> prefetch_costs env accounts;
     rpms \<leftarrow> prefetch_rpms env accounts;
     let pf = \<lparr>pf_costs = costs, pf_rpms = rpms\<rparr>; let oauth_first = (rq_platform q = ''gemini'');
     r \<leftarrow> or_else (routed_layer env pf q accounts ids) (sticky_layer env pf q accounts ids);
     (case r of
        Some a \<Rightarrow> State_Monad.return a
      | None \<Rightarrow> do {
          cs \<leftarrow> candidates env pf q accounts;
          if cs = [] then State_Monad.return (Inl no_available)
          else do { r \<leftarrow> load_layer env q oauth_first cs;
            (case r of Some a \<Rightarrow> State_Monad.return a | None \<Rightarrow> fallback_layer env q oauth_first cs) } }) }"

subsection \<open>The request\<close>

definition prefetched_sticky :: "sched_env \<Rightarrow> int64 option \<Rightarrow> int64" where
  "prefetched_sticky env gid =
     (if rc_prefetched_group (se_ctx env) \<noteq> Some (group_or_zero gid) then 0
      else case rc_prefetched_account (se_ctx env) of None \<Rightarrow> 0 | Some i \<Rightarrow> if 0 < i then i else 0)"

definition sticky_account :: "sched_env \<Rightarrow> int64 option \<Rightarrow> string \<Rightarrow> (sched_state, int64) state" where
  "sticky_account env gid hash =
     (if 0 < prefetched_sticky env gid then State_Monad.return (prefetched_sticky env gid)
      else if hash = [] then State_Monad.return 0
      else do { r \<leftarrow> on_redis (get_session_account (group_or_zero gid) hash);
        State_Monad.return (case r of Inl _ \<Rightarrow> 0 | Inr i \<Rightarrow> i) })"

definition no_available_for :: "string \<Rightarrow> go_error" where
  "no_available_for model = Wrapped (''supporting model: '' @ model @ '' (channel pricing restriction)'') no_available"

definition load_aware_selection ::
  "sched_env \<Rightarrow> group option \<Rightarrow> int64 option \<Rightarrow> string \<Rightarrow> string \<Rightarrow> int64 list \<Rightarrow> int64 \<Rightarrow> (sched_state, answer) state" where
  "load_aware_selection env g gid hash model excluded sticky =
     (case resolve_platform env gid g of
        Inl e \<Rightarrow> State_Monad.return (Inl e)
      | Inr (platform, forced) \<Rightarrow>
          (case list_schedulable env gid platform forced of
             (Inl e, _) \<Rightarrow> State_Monad.return (Inl e)
           | (Inr accounts, mixed) \<Rightarrow>
               if accounts = [] then State_Monad.return (Inl no_available)
               else select_by_load env
                 \<lparr>rq_gid = gid, rq_hash = hash, rq_model = model, rq_excluded = excluded, rq_sticky = sticky,
                   rq_platform = platform, rq_mixed = mixed\<rparr> accounts
                 (case g of None \<Rightarrow> []
                  | Some h \<Rightarrow> if model \<noteq> [] \<and> gr_platform h = ''anthropic'' then routing_account_ids h model else [])))"

end
