(* ===== verification/SelectionSound.thy ===== *)
theory SelectionSound
  imports Selection
begin

section \<open>The chosen account may serve the request\<close>

text \<open>
  A judgement on what a run returns, whatever the state, and its rules for the operations of \<open>Selection\<close>: an
  answer is for an account that passes every check on the account, or explains why there is none; an account
  that passes them is never overlooked.
\<close>

subsection \<open>What a run returns\<close>

named_theorems yields_rules

definition yields :: "('s, 'a) state \<Rightarrow> ('a \<Rightarrow> bool) \<Rightarrow> bool" where
  "yields m Q \<longleftrightarrow> (\<forall>s. Q (fst (run_state m s)))"

lemma yieldsD: "yields m Q \<Longrightarrow> run_state m s = (r, s') \<Longrightarrow> Q r"
  by (metis yields_def fst_conv)

lemma yields_return [yields_rules]: "Q a \<Longrightarrow> yields (State_Monad.return a) Q"
  by (simp add: yields_def)

lemma yields_bind: "yields m R \<Longrightarrow> (\<And>a. R a \<Longrightarrow> yields (k a) Q) \<Longrightarrow> yields (State_Monad.bind m k) Q"
  by (simp add: yields_def split_def)

lemma yields_then [yields_rules]: "(\<And>a. yields (k a) Q) \<Longrightarrow> yields (State_Monad.bind m k) Q"
  by (simp add: yields_def split_def)

lemma yields_weaken: "yields m R \<Longrightarrow> (\<And>a. R a \<Longrightarrow> Q a) \<Longrightarrow> yields m Q"
  by (simp add: yields_def)

lemma yields_if [yields_rules]: "(b \<Longrightarrow> yields m Q) \<Longrightarrow> (\<not> b \<Longrightarrow> yields n Q) \<Longrightarrow> yields (if b then m else n) Q"
  by simp

lemma yields_Let [yields_rules]: "yields (f x) Q \<Longrightarrow> yields (let y = x in f y) Q"
  by simp

lemma yields_option [yields_rules]:
  "(x = None \<Longrightarrow> yields m Q) \<Longrightarrow> (\<And>a. x = Some a \<Longrightarrow> yields (f a) Q) \<Longrightarrow> yields (case x of None \<Rightarrow> m | Some a \<Rightarrow> f a) Q"
  by (cases x) simp_all

lemma yields_keep_if:
  assumes "\<And>x. yields (f x) (\<lambda>b. b \<longrightarrow> P x)"
  shows "yields (keep_if f xs) (\<lambda>ys. \<forall>y \<in> set ys. y \<in> set xs \<and> P y)"
proof (induction xs)
  case (Cons x xs)
  show ?case
    unfolding keep_if.simps
    by (rule yields_bind [OF assms [of x]], rule yields_bind [OF Cons.IH]) (auto simp: yields_def)
qed (simp add: yields_def)

lemma yields_first_some:
  assumes "\<And>x. x \<in> set xs \<Longrightarrow> yields (f x) (\<lambda>r. \<forall>b. r = Some b \<longrightarrow> Q b)"
  shows "yields (first_some f xs) (\<lambda>r. \<forall>b. r = Some b \<longrightarrow> Q b)"
  using assms
proof (induction xs)
  case (Cons x xs)
  have "yields (first_some f xs) (\<lambda>r. \<forall>b. r = Some b \<longrightarrow> Q b)" using Cons by simp
  then show ?case
    unfolding first_some.simps
    by (intro yields_bind [OF Cons.prems [of x]]) (auto intro!: yields_option yields_return)
qed (simp add: yields_def)

lemma yields_or_else:
  assumes "yields m (\<lambda>r. \<forall>b. r = Some b \<longrightarrow> Q b)" "yields k (\<lambda>r. \<forall>b. r = Some b \<longrightarrow> Q b)"
  shows "yields (or_else m k) (\<lambda>r. \<forall>b. r = Some b \<longrightarrow> Q b)"
  unfolding or_else_def
  by (rule yields_bind [OF assms(1)]) (use assms(2) in \<open>auto intro!: yields_option yields_return\<close>)

lemma yields_roll: "yields (roll f) (\<lambda>a. \<exists>d. a = fst (f d))"
  by (auto simp: yields_def roll_def split_def)

subsection \<open>The account of a selection\<close>

definition eligible :: "sched_env \<Rightarrow> request \<Rightarrow> sched_account list \<Rightarrow> sched_account \<Rightarrow> bool" where
  "eligible env q accounts a \<longleftrightarrow> a \<in> set accounts \<and> sa_id a \<notin> set (rq_excluded q) \<and>
     fits env (rq_platform q) (rq_mixed q) (rq_model q) a"

definition selected :: "sched_env \<Rightarrow> sched_account \<Rightarrow> selection \<Rightarrow> bool" where
  "selected env a l \<longleftrightarrow>
     (hydrate env a = Inr (sl_account l) \<or> sl_account l = a \<and> \<not> sl_acquired l) \<and>
     (sl_acquired l \<longleftrightarrow> sl_wait l = None) \<and>
     (case sl_release l of None \<Rightarrow> \<not> sl_acquired l | Some (i, r) \<Rightarrow> sl_acquired l \<and> i = sa_id a \<and> aq_acquired r) \<and>
     (case sl_wait l of None \<Rightarrow> True | Some w \<Rightarrow> wp_account w = sa_id a \<and> wp_max_concurrency w = sa_concurrency a)"

definition sound_answer :: "sched_env \<Rightarrow> request \<Rightarrow> sched_account list \<Rightarrow> answer \<Rightarrow> bool" where
  "sound_answer env q accounts r \<longleftrightarrow>
     (case r of
        Inl e \<Rightarrow> \<exists>a. eligible env q accounts a \<and> hydrate env a = Inl e
      | Inr l \<Rightarrow> \<exists>a. eligible env q accounts a \<and> selected env a l)"

abbreviation sound_if_some :: "sched_env \<Rightarrow> request \<Rightarrow> sched_account list \<Rightarrow> answer option \<Rightarrow> bool" where
  "sound_if_some env q accounts r \<equiv> \<forall>b. r = Some b \<longrightarrow> sound_answer env q accounts b"

lemma sound_taken: "eligible env q accounts a \<Longrightarrow> aq_acquired r \<Longrightarrow> sound_answer env q accounts (new_selection env a (Some r) None)"
  by (auto simp: sound_answer_def new_selection_def selected_def split: sum.splits)

lemma sound_waiting:
  "eligible env q accounts a \<Longrightarrow> wp_account w = sa_id a \<Longrightarrow> wp_max_concurrency w = sa_concurrency a \<Longrightarrow>
   sound_answer env q accounts (new_selection env a None (Some w))"
  by (auto simp: sound_answer_def new_selection_def selected_def split: sum.splits)

lemma plan_simps [simp]: "wp_account (sticky_plan env a) = sa_id a" "wp_account (fallback_plan env a) = sa_id a"
  "wp_max_concurrency (sticky_plan env a) = sa_concurrency a" "wp_max_concurrency (fallback_plan env a) = sa_concurrency a"
  by (simp_all add: sticky_plan_def fallback_plan_def)

lemma take_slot_taken: "yields (take_slot env h a) (\<lambda>t. \<forall>r. t = Taken r \<longrightarrow> aq_acquired r)"
  unfolding take_slot_def
  by (intro yields_then) (auto split: sum.split intro!: yields_if yields_then yields_return)

lemma take_and_bind_sound:
  assumes "eligible env q accounts a"
  shows "yields (take_and_bind env g h a) (sound_if_some env q accounts)"
  unfolding take_and_bind_def
  by (rule yields_bind [OF take_slot_taken])
    (auto split: attempt.split intro!: yields_then yields_return simp: sound_taken [OF assms])

lemma wait_for_sound:
  assumes "eligible env q accounts a" "plan = sticky_plan env \<or> plan = fallback_plan env"
  shows "yields (wait_for env h plan a) (sound_if_some env q accounts)"
  unfolding wait_for_def using assms by (intro yields_then yields_return) (auto simp: sound_waiting)

lemma passes_fits: "yields (passes env pf p m md st a) (\<lambda>b. b \<longrightarrow> fits env p m md a)"
  unfolding passes_def by (intro yields_rules) (auto simp: yields_def)

lemma candidates_eligible:
  assumes "set as \<subseteq> set accounts"
  shows "yields (candidates env pf q as) (\<lambda>cs. \<forall>a \<in> set cs. eligible env q accounts a)"
proof -
  have "yields (candidates env pf q as) (\<lambda>cs. \<forall>a \<in> set cs. a \<in> set as \<and>
      (sa_id a \<notin> set (rq_excluded q) \<and> fits env (rq_platform q) (rq_mixed q) (rq_model q) a))"
    unfolding candidates_def
    by (rule yields_keep_if) (auto simp: yields_def intro: yieldsD [OF passes_fits, OF surjective_pairing, THEN mp])
  then show ?thesis by (rule yields_weaken) (use assms in \<open>auto simp: eligible_def\<close>)
qed

lemma account_by_idD: "account_by_id accounts i = Some a \<Longrightarrow> a \<in> set accounts \<and> sa_id a = i"
  by (auto simp: account_by_id_def find_Some_iff in_set_conv_nth) (metis length_rev nth_mem set_rev in_set_conv_nth)

lemma routed_sticky_sound: "yields (routed_sticky env pf q accounts ids) (sound_if_some env q accounts)"
proof (cases "account_by_id accounts (rq_sticky q)")
  case None
  then show ?thesis unfolding routed_sticky_def by (intro yields_rules) simp_all
next
  case (Some a)
  have el: "eligible env q accounts a" if "fits env (rq_platform q) (rq_mixed q) (rq_model q) a" "rq_sticky q \<notin> set (rq_excluded q)"
    using that account_by_idD [OF Some] by (simp add: eligible_def)
  have wait: "sound_answer env q accounts (Inr \<lparr>sl_account = a, sl_acquired = False, sl_release = None, sl_wait = Some (sticky_plan env a)\<rparr>)"
    if "eligible env q accounts a"
    using that by (auto simp: sound_answer_def selected_def)
  show ?thesis
    unfolding routed_sticky_def Some option.case
    apply (intro yields_if yields_return)
     apply simp
    apply (rule yields_bind [OF passes_fits])
    apply (intro yields_if yields_return)
     apply simp
    apply (rule yields_bind [OF take_slot_taken])
    apply (auto split: attempt.split if_splits intro!: yields_rules simp: sound_taken el wait)
    done
qed

lemma first_some_sound:
  assumes "set xs \<subseteq> set cs" "\<forall>a \<in> set cs. eligible env q accounts a"
  shows "yields (first_some (take_and_bind env g h) xs) (sound_if_some env q accounts)"
    and "plan = sticky_plan env \<or> plan = fallback_plan env \<Longrightarrow>
      yields (first_some (wait_for env h plan) xs) (sound_if_some env q accounts)"
  using assms by (auto intro!: yields_first_some take_and_bind_sound wait_for_sound)

lemma with_load_set: "fst ` set (with_load ls cs) \<subseteq> set cs"
  by (auto simp: with_load_def)

lemma routed_by_load_sound:
  assumes "\<forall>a \<in> set cs. eligible env q accounts a"
  shows "yields (routed_by_load env q cs) (sound_if_some env q accounts)"
proof -
  have sub: "set (map fst (fst (sort_by_load (with_load ls cs) d))) \<subseteq> set cs" for ls d
    using with_load_set order_sets(1) by (metis set_map)
  show ?thesis
    unfolding routed_by_load_def
    by (rule yields_then, rule yields_bind [OF yields_roll])
      (auto intro!: yields_or_else first_some_sound [OF sub assms])
qed

lemma routed_layer_sound: "yields (routed_layer env pf q accounts ids) (sound_if_some env q accounts)"
proof -
  have "set (List.map_filter (account_by_id accounts) ids) \<subseteq> set accounts"
    using account_by_idD by (auto simp: List.map_filter_def)
  note cs = candidates_eligible [OF this]
  show ?thesis
    unfolding routed_layer_def
    by (intro yields_if yields_return, simp, rule yields_bind [OF cs])
      (auto intro!: yields_if yields_return yields_or_else routed_sticky_sound routed_by_load_sound)
qed

lemma sticky_checks_fits: "yields (sticky_checks env pf p m md a) (\<lambda>b. b \<longrightarrow> fits env p m md a)"
  unfolding sticky_checks_def by (intro yields_rules) simp

lemma sticky_layer_sound: "yields (sticky_layer env pf q accounts ids) (sound_if_some env q accounts)"
proof (cases "account_by_id accounts (rq_sticky q)")
  case None
  then show ?thesis unfolding sticky_layer_def by (intro yields_rules) simp_all
next
  case (Some a)
  have el: "eligible env q accounts a" if "fits env (rq_platform q) (rq_mixed q) (rq_model q) a" "rq_sticky q \<notin> set (rq_excluded q)"
    using that account_by_idD [OF Some] by (simp add: eligible_def)
  show ?thesis
    unfolding sticky_layer_def Some option.case
    apply (intro yields_if yields_return)
     apply simp
    apply (rule yields_Let, rule yields_then, rule yields_bind [OF sticky_checks_fits])
    apply (intro yields_if yields_return)
     apply simp
    apply (rule yields_bind [OF take_slot_taken])
    apply (auto split: attempt.split intro!: yields_rules wait_for_sound simp: sound_taken el)
    done
qed

lemma by_layers_sound:
  assumes "\<forall>x \<in> set xs. eligible env q accounts (fst x)" "by_layers env q p xs s = (Some b, s')"
  shows "sound_answer env q accounts b"
  using assms
proof (induction env q p xs s rule: by_layers.induct)
  case (1 env q p xs s)
  obtain x d where x: "pick (se_now env) (sg_prefer_soonest (se_config env)) p xs (ss_dice s) = (Some x, d)"
    using "1.prems"(2) by (subst (asm) by_layers.simps) (auto split: prod.splits option.splits)
  have el: "eligible env q accounts (fst x)" using "1.prems"(1) pick_in x by (metis fst_conv)
  obtain r t where r: "run_state (take_and_bind env (rq_gid q) (rq_hash q) (fst x)) (s\<lparr>ss_dice := d\<rparr>) = (r, t)" by fastforce
  show ?case
  proof (cases r)
    case None
    have "by_layers env q p (filter (\<lambda>y. sa_id (fst y) \<noteq> sa_id (fst x)) xs) t = (Some b, s')"
      using "1.prems"(2) by (subst (asm) by_layers.simps) (simp add: x r None)
    then show ?thesis using "1.IH" [OF x [symmetric] refl r [symmetric] None] "1.prems"(1) by simp
  next
    case (Some c)
    then have "b = c" using "1.prems"(2) by (subst (asm) by_layers.simps) (simp add: x r)
    then show ?thesis using yieldsD [OF take_and_bind_sound [OF el] r] Some by simp
  qed
qed

lemma load_layer_sound:
  assumes "\<forall>a \<in> set cs. eligible env q accounts a"
  shows "yields (load_layer env q p cs) (sound_if_some env q accounts)"
proof -
  have el: "\<forall>x \<in> set (with_load ls cs). eligible env q accounts (fst x)" for ls using with_load_set assms by fastforce
  have "yields (State (by_layers env q p (with_load ls cs))) (sound_if_some env q accounts)" for ls
    unfolding yields_def
  proof (intro allI impI)
    fix s b
    assume "fst (run_state (State (by_layers env q p (with_load ls cs))) s) = Some b"
    then have "by_layers env q p (with_load ls cs) s = (Some b, snd (by_layers env q p (with_load ls cs) s))"
      by (simp add: prod_eq_iff)
    then show "sound_answer env q accounts b" by (rule by_layers_sound [OF el])
  qed
  moreover have sub: "set (fst (sort_by_priority_and_use p cs d)) \<subseteq> set cs" for d using order_sets(2) by blast
  have "yields (in_legacy_order env q p cs) (sound_if_some env q accounts)"
    unfolding in_legacy_order_def
    by (rule yields_bind [OF yields_roll]) (auto intro!: first_some_sound [OF sub assms])
  ultimately show ?thesis
    unfolding load_layer_def by (intro yields_then) (auto split: sum.split)
qed

lemma yields_conj: "yields m Q \<Longrightarrow> yields m R \<Longrightarrow> yields m (\<lambda>a. Q a \<and> R a)"
  by (simp add: yields_def)

lemma fallback_layer_sound:
  assumes "\<forall>a \<in> set cs. eligible env q accounts a"
  shows "yields (fallback_layer env q p cs) (\<lambda>r. sound_answer env q accounts r \<or> r = Inl no_available)"
proof -
  have "set (fst (sort_for_fallback p mode cs d)) \<subseteq> set cs" for mode d using order_sets(3) by blast
  note w = first_some_sound(2) [OF this assms]
  show ?thesis
    unfolding fallback_layer_def
    apply (rule yields_bind [OF yields_roll])
    apply (elim exE)
    apply hypsubst
    apply (rule yields_bind [OF w])
     apply simp
    apply (rule yields_return)
    apply (simp split: option.split)
    done
qed

text \<open>Without a session a waiting plan is never refused.\<close>

lemma fallback_layer_serves:
  assumes "\<forall>a \<in> set cs. eligible env q accounts a" "cs \<noteq> []" "rq_hash q = []"
  shows "yields (fallback_layer env q p cs) (sound_answer env q accounts)"
proof -
  have sub: "set (fst (sort_for_fallback p mode cs d)) = set cs" for mode d using order_sets(3) by blast
  have w: "yields (first_some (wait_for env [] (fallback_plan env)) xs) (\<lambda>r. xs \<noteq> [] \<longrightarrow> r \<noteq> None)" for xs
    by (cases xs) (simp_all add: yields_def wait_for_def check_and_register_def)
  have ne: "fst (sort_for_fallback p mode cs d) \<noteq> []" for mode d using sub [of mode d] assms(2) by auto
  show ?thesis
    unfolding fallback_layer_def assms(3)
    apply (rule yields_bind [OF yields_roll])
    apply (elim exE)
    apply hypsubst
    apply (rule yields_bind [OF yields_conj [OF first_some_sound(2) [OF _ assms(1)] w]])
      apply (simp add: sub)
     apply simp
    apply (rule yields_return)
    apply (auto simp: ne split: option.split)
    done
qed

lemma select_by_load_sound:
  assumes "\<And>p cs. cs \<noteq> [] \<Longrightarrow> \<forall>a \<in> set cs. eligible env q accounts a \<Longrightarrow> yields (fallback_layer env q p cs) Q"
    and "\<And>r. sound_answer env q accounts r \<Longrightarrow> Q r"
    and "\<And>pf. yields (candidates env pf q accounts) (\<lambda>cs. cs = [] \<longrightarrow> Q (Inl no_available))"
  shows "yields (select_by_load env q accounts ids) Q"
proof -
  note sound = yields_weaken [OF yields_or_else [OF routed_layer_sound sticky_layer_sound]]
  show ?thesis
    unfolding select_by_load_def
    apply (rule yields_then, rule yields_then, rule yields_Let, rule yields_Let)
    apply (rule yields_bind [OF yields_or_else [OF routed_layer_sound sticky_layer_sound]])
    apply (rule yields_option)
     apply (rule yields_bind [OF yields_conj [OF candidates_eligible [OF subset_refl] assms(3)]])
     apply (rule yields_if)
      apply (simp add: yields_return)
     apply (rule yields_bind [OF load_layer_sound])
      apply blast
     apply (rule yields_option)
      apply (rule assms(1))
       apply assumption
      apply blast
     apply (rule yields_return)
     apply (simp add: assms(2))
    apply (rule yields_return)
    apply (simp add: assms(2))
    done
qed

lemma selection_explained:
  "yields (select_by_load env q accounts ids) (\<lambda>r. sound_answer env q accounts r \<or> r = Inl no_available)"
  by (rule select_by_load_sound, rule fallback_layer_sound) (simp_all add: yields_def)

lemma candidates_keep:
  assumes "eligible env q accounts a" "\<not> is_anthropic_oauth a"
  shows "yields (candidates env pf q accounts) (\<lambda>cs. a \<in> set cs)"
proof -
  have ok: "yields (passes env pf (rq_platform q) (rq_mixed q) (rq_model q) False a) (\<lambda>b. b)"
    using assms by (simp add: passes_def eligible_def window_cost_ok_def rpm_ok_def yields_def)
  let ?f = "\<lambda>a. if sa_id a \<in> set (rq_excluded q) then State_Monad.return False
      else passes env pf (rq_platform q) (rq_mixed q) (rq_model q) False a"
  have f: "yields (?f a) (\<lambda>b. b)" using ok assms(1) by (simp add: eligible_def)
  have "a \<in> set as \<Longrightarrow> yields (keep_if ?f as) (\<lambda>cs. a \<in> set cs)" for as
  proof (induction as)
    case (Cons x as)
    show ?case
    proof (cases "x = a")
      case True
      show ?thesis
        unfolding keep_if.simps True by (rule yields_bind [OF f], rule yields_then) (simp add: yields_def)
    next
      case False
      then have as: "yields (keep_if ?f as) (\<lambda>cs. a \<in> set cs)" using Cons by simp
      show ?thesis
        unfolding keep_if.simps by (rule yields_then, rule yields_bind [OF as]) (simp add: yields_def)
    qed
  qed simp
  then show ?thesis using assms(1) by (simp add: candidates_def eligible_def)
qed



end
