(* ===== verification/SelectionSlots.thy ===== *)
theory SelectionSlots
  imports SelectionSound
begin

section \<open>No slot is lost\<close>

text \<open>
  The slots in Redis that the ids of one process hold, and a triple for the operations of \<open>Selection\<close>: each gives back
  what it took, except the slot its answer carries.
\<close>

subsection \<open>Slots held under the ids of the process\<close>

definition own_ids :: "sched_env \<Rightarrow> string set" where
  "own_ids env = range (request_id (se_prefix env))"

definition held :: "string set \<Rightarrow> redis \<Rightarrow> (string \<times> string) set" where
  "held own s = {(k, i). slot_key k \<and> i \<in> own \<and> (\<exists>z. zget k s = Inr z \<and> i \<in> fst ` set z)}"

text \<open>No statement fails, and the other processes take no slot under these ids.\<close>

definition undisturbed :: "string set \<Rightarrow> redis_store \<Rightarrow> bool" where
  "undisturbed own r \<longleftrightarrow> st_base r = None \<and> (\<forall>e \<in> set (st_world r). snd e = None \<and> (\<forall>t. held own (fst e t) \<subseteq> held own t))"

definition holds_only :: "string set \<Rightarrow> (string \<times> string) set \<Rightarrow> sched_state \<Rightarrow> bool" where
  "holds_only own X s \<longleftrightarrow> undisturbed own (ss_redis s) \<and> held own (st_tabs (ss_redis s)) \<subseteq> X"

lemma stmt_held:
  assumes "undisturbed own r" "held own (st_tabs r) \<subseteq> X" "run_state (stmt f) r = (a, r')"
    and "\<And>t. held own t \<subseteq> X \<Longrightarrow> held own (snd (f t)) \<subseteq> Y (fst (f t))"
  shows "undisturbed own r' \<and> held own (st_tabs r') \<subseteq> Y a"
proof -
  obtain flt r1 where t: "run_state tick r = (flt, r1)" by fastforce
  have "flt = None \<and> undisturbed own r1 \<and> held own (st_tabs r1) \<subseteq> X"
  proof (cases "st_world r")
    case Nil
    then show ?thesis using t assms(1,2) by (auto simp: tick_def)
  next
    case (Cons e w)
    then have "r1 = r\<lparr>st_world := w, st_tabs := fst e (st_tabs r)\<rparr>" "flt = snd e"
      using t assms(1) by (auto simp: tick_def undisturbed_def)
    moreover have "held own (fst e (st_tabs r)) \<subseteq> held own (st_tabs r)" "snd e = None"
      using assms(1) Cons by (simp_all add: undisturbed_def)
    ultimately show ?thesis using assms(1,2) Cons by (auto simp: undisturbed_def)
  qed
  moreover from this have "a = fst (f (st_tabs r1))" "r' = r1\<lparr>st_tabs := snd (f (st_tabs r1))\<rparr>"
    using assms(3) t by (simp_all add: run_stmt)
  ultimately show ?thesis using assms(4) [of "st_tabs r1"] by (simp add: undisturbed_def)
qed

definition keeps_slots :: "string set \<Rightarrow> (sched_state, 'a) state \<Rightarrow> bool" where
  "keeps_slots own m \<longleftrightarrow> (\<forall>X. hoare (holds_only own X) m (\<lambda>_. holds_only own X))"

named_theorems kept_rules

lemma kept_return [kept_rules]: "keeps_slots own (State_Monad.return a)"
  by (simp add: keeps_slots_def hoare_def)

lemma kept_bind [kept_rules]: "keeps_slots own m \<Longrightarrow> (\<And>a. keeps_slots own (k a)) \<Longrightarrow> keeps_slots own (State_Monad.bind m k)"
  unfolding keeps_slots_def by (auto intro: hoare_bind)

lemma kept_if [kept_rules]: "(b \<Longrightarrow> keeps_slots own m) \<Longrightarrow> (\<not> b \<Longrightarrow> keeps_slots own n) \<Longrightarrow> keeps_slots own (if b then m else n)"
  by simp

lemma kept_Let [kept_rules]: "keeps_slots own (f x) \<Longrightarrow> keeps_slots own (let y = x in f y)"
  by simp

lemma kept_option [kept_rules]:
  "(x = None \<Longrightarrow> keeps_slots own m) \<Longrightarrow> (\<And>a. x = Some a \<Longrightarrow> keeps_slots own (f a)) \<Longrightarrow>
   keeps_slots own (case x of None \<Rightarrow> m | Some a \<Rightarrow> f a)"
  by (cases x) simp_all

lemma kept_sum [kept_rules]:
  "(\<And>e. x = Inl e \<Longrightarrow> keeps_slots own (f e)) \<Longrightarrow> (\<And>a. x = Inr a \<Longrightarrow> keeps_slots own (g a)) \<Longrightarrow>
   keeps_slots own (case x of Inl e \<Rightarrow> f e | Inr a \<Rightarrow> g a)"
  by (cases x) simp_all

lemma kept_prod [kept_rules]:
  "(\<And>a b. x = (a, b) \<Longrightarrow> keeps_slots own (f a b)) \<Longrightarrow> keeps_slots own (case x of (a, b) \<Rightarrow> f a b)"
  by (cases x) simp_all

lemma kept_each [kept_rules]: "(\<And>x. keeps_slots own (f x)) \<Longrightarrow> keeps_slots own (each f xs)"
  by (induction xs) (simp_all add: kept_return kept_bind)

lemma kept_keep_if [kept_rules]: "(\<And>x. keeps_slots own (f x)) \<Longrightarrow> keeps_slots own (keep_if f xs)"
  by (induction xs) (simp_all add: kept_return kept_bind)

lemma kept_roll [kept_rules]: "keeps_slots own (roll f)"
  by (auto simp: keeps_slots_def hoare_def roll_def holds_only_def split: prod.split)

lemma kept_next_id [kept_rules]: "keeps_slots own (next_request_id env)"
  by (auto simp: keeps_slots_def hoare_def next_request_id_def holds_only_def split: prod.split)

lemma holds_on_redis:
  assumes "\<And>r a r'. undisturbed own r \<Longrightarrow> held own (st_tabs r) \<subseteq> X \<Longrightarrow> run_state m r = (a, r') \<Longrightarrow>
     undisturbed own r' \<and> held own (st_tabs r') \<subseteq> Y a"
  shows "hoare (holds_only own X) (on_redis m) (\<lambda>a. holds_only own (Y a))"
  unfolding hoare_def holds_only_def on_redis_def
proof (intro allI impI, elim conjE)
  fix s assume "undisturbed own (ss_redis s)" "held own (st_tabs (ss_redis s)) \<subseteq> X"
  then show "case run_state (State (\<lambda>s. case run_state m (ss_redis s) of (a, r) \<Rightarrow> (a, s\<lparr>ss_redis := r\<rparr>))) s of
      (a, s') \<Rightarrow> undisturbed own (ss_redis s') \<and> held own (st_tabs (ss_redis s')) \<subseteq> Y a"
    using assms [of "ss_redis s"] by (cases "run_state m (ss_redis s)") auto
qed

text \<open>Redis operations that take no slot.\<close>

definition takes_none :: "string set \<Rightarrow> (redis_store, 'a) state \<Rightarrow> bool" where
  "takes_none own m \<longleftrightarrow> (\<forall>X r a r'. undisturbed own r \<longrightarrow> held own (st_tabs r) \<subseteq> X \<longrightarrow> run_state m r = (a, r') \<longrightarrow>
     undisturbed own r' \<and> held own (st_tabs r') \<subseteq> X)"

lemma kept_on_redis [kept_rules]: "takes_none own m \<Longrightarrow> keeps_slots own (on_redis m)"
  unfolding keeps_slots_def takes_none_def by (intro allI holds_on_redis) blast

lemma none_stmt: "(\<And>t. held own (snd (f t)) \<subseteq> held own t) \<Longrightarrow> takes_none own (stmt f)"
  unfolding takes_none_def
  by (intro allI impI, rule stmt_held [where Y = "\<lambda>_. X" for X], assumption+) blast

lemma none_return: "takes_none own (State_Monad.return a)"
  by (simp add: takes_none_def)

lemma none_bind: "takes_none own m \<Longrightarrow> (\<And>a. takes_none own (k a)) \<Longrightarrow> takes_none own (State_Monad.bind m k)"
proof -
  assume m: "takes_none own m" and k: "\<And>a. takes_none own (k a)"
  show ?thesis unfolding takes_none_def
  proof (intro allI impI)
    fix X r a r' assume r: "undisturbed own r" "held own (st_tabs r) \<subseteq> X" "run_state (State_Monad.bind m k) r = (a, r')"
    obtain b r1 where 1: "run_state m r = (b, r1)" by fastforce
    then have "undisturbed own r1" "held own (st_tabs r1) \<subseteq> X" using m r unfolding takes_none_def by blast+
    moreover have "run_state (k b) r1 = (a, r')" using r(3) 1 by simp
    ultimately show "undisturbed own r' \<and> held own (st_tabs r') \<subseteq> X" using k unfolding takes_none_def by blast
  qed
qed

lemma none_tryM: "takes_none own m \<Longrightarrow> (\<And>a. takes_none own (k a)) \<Longrightarrow> takes_none own (tryM w m k)"
  unfolding tryM_def by (intro none_bind) (auto split: sum.split intro: none_return)

lemmas none_rules = none_return none_tryM none_bind none_stmt

lemma held_same: "(\<And>k. slot_key k \<Longrightarrow> zget k t = zget k s) \<Longrightarrow> held own t = held own s"
  by (auto simp: held_def)

lemma held_shrink:
  assumes "\<And>k z. slot_key k \<Longrightarrow> zget k t = Inr z \<Longrightarrow> \<exists>y. zget k s = Inr y \<and> fst ` set z \<subseteq> fst ` set y"
  shows "held own t \<subseteq> held own s"
proof (rule subsetI)
  fix e assume "e \<in> held own t"
  then obtain k i z where e: "e = (k, i)" "slot_key k" "i \<in> own" "zget k t = Inr z" "i \<in> fst ` set z"
    by (auto simp: held_def)
  then obtain y where "zget k s = Inr y" "fst ` set z \<subseteq> fst ` set y" using assms by blast
  then show "e \<in> held own s" using e by (auto simp: held_def)
qed

lemma zget_set_ex: "j \<noteq> k \<Longrightarrow> zget j (set_ex k v t s) = zget j s"
proof -
  assume "j \<noteq> k"
  then have "entry j (set_ex k v t s) = entry j s"
    by (auto simp: entry_def set_ex_def live_entry_def split: option.splits)
  then show ?thesis by (simp add: zget_def)
qed

lemma held_set_ex: "\<not> slot_key k \<Longrightarrow> held own (set_ex k v t s) = held own s"
  by (rule held_same) (metis zget_set_ex)

lemma held_del: "\<not> slot_key k \<Longrightarrow> held own (del k s) = held own s"
  by (rule held_same) (metis zget_other(3))

lemma held_put: "\<not> slot_key k \<Longrightarrow> held own (put k v s) = held own s"
  by (rule held_same) (metis zget_other(2))

lemma held_zput: "\<not> slot_key k \<Longrightarrow> held own (zput k z s) = held own s"
  by (rule held_same) (metis zget_other(1))

lemma held_expire: "0 < t \<Longrightarrow> held own (expire k t s) = held own s"
  by (rule held_same) (simp add: zget_expire)

lemma other_keys [simp]: "\<not> slot_key (session_limit_key i)" "\<not> slot_key (window_cost_key i)" "\<not> slot_key (sticky_key i h)"
  "\<not> slot_key (rpm_key i n)" "\<not> slot_key (account_wait_key i)"
  by (simp_all add: slot_key_def session_limit_key_def window_cost_key_def sticky_key_def rpm_key_def account_wait_key_def
      account_wait_prefix_def account_slot_prefix_def user_slot_prefix_def)

lemma none_window_cost: "takes_none own (get_window_cost i)" "takes_none own (get_window_cost_batch is)"
  "takes_none own (set_window_cost i c)"
  unfolding get_window_cost_def get_window_cost_batch_def set_window_cost_def
  by (auto intro!: none_rules simp: held_set_ex)

lemma none_rpm: "takes_none own (get_rpm i)" "takes_none own (get_rpm_batch is)"
  unfolding get_rpm_def get_rpm_batch_def server_minute_def by (auto intro!: none_rules)

lemma none_sticky: "takes_none own (get_session_account g h)" "takes_none own (set_session_account g h i sticky_ttl)"
  "takes_none own (refresh_session_ttl g h sticky_ttl)" "takes_none own (delete_session_account g h)"
  unfolding get_session_account_def set_session_account_def refresh_session_ttl_def delete_session_account_def
  by (auto intro!: none_rules simp: held_set_ex held_del held_expire sticky_ttl_def split: option.split)

lemma none_waiting: "takes_none own (get_account_waiting_count i)"
  unfolding get_account_waiting_count_def get_wait_count_def
  by (rule none_stmt) (simp split: sum.split option.split)

lemma held_zrem_below: "\<not> slot_key k \<Longrightarrow> held own (snd (zrem_below k c s)) = held own s"
  by (auto simp: zrem_below_def held_zput split: sum.split)

lemma held_zrem_below_any: "held own (snd (zrem_below k c s)) \<subseteq> held own s"
proof (cases "zget k s")
  case (Inr z)
  have "zget j (zput k (zset_above c z) s) = (if j = k then Inr (zset_above c z) else zget j s)" for j
    by (simp add: zget_other)
  then show ?thesis
    using Inr by (intro held_shrink) (auto simp: zrem_below_def zset_above_def split: if_splits)
qed (simp add: zrem_below_def)

lemma idle_positive: "0 < d \<Longrightarrow> 0 < idle_seconds d x"
  by (simp add: idle_seconds_def Let_def)

lemma none_register: "0 < d \<Longrightarrow> takes_none own (register_session d i u l x)"
proof -
  assume "0 < d"
  then have p: "0 < idle_seconds d x + 60" using idle_positive [of d x] by simp
  have "held own (snd (register_session_script (session_limit_key i) l (idle_seconds d x) u s)) \<subseteq> held own s" for s
  proof -
    obtain r s1 where r: "zrem_below (session_limit_key i) (seconds s - idle_seconds d x) s = (r, s1)" by fastforce
    then have "held own s1 = held own s" using held_zrem_below [of "session_limit_key i" own] by (metis other_keys(1) snd_conv)
    then show ?thesis
      by (auto simp: register_session_script_def Let_def r held_expire [OF p] held_zput split: sum.splits)
  qed
  then show ?thesis unfolding register_session_def by (auto intro!: none_rules)
qed

subsection \<open>Slots and answers\<close>


definition request_slots :: "int64 \<Rightarrow> acquire_result \<Rightarrow> (string \<times> string) set" where
  "request_slots i q = (case aq_release q of None \<Rightarrow> {} | Some r \<Rightarrow> {(account_slot_key i, r)})"

definition answer_slots :: "answer \<Rightarrow> (string \<times> string) set" where
  "answer_slots r = (case r of
     Inl _ \<Rightarrow> {}
   | Inr l \<Rightarrow> (case sl_release l of None \<Rightarrow> {} | Some (i, q) \<Rightarrow> request_slots i q))"

definition some_slots :: "answer option \<Rightarrow> (string \<times> string) set" where
  "some_slots r = (case r of None \<Rightarrow> {} | Some a \<Rightarrow> answer_slots a)"

lemma slots_simps [simp]: "answer_slots (Inl e) = {}" "some_slots None = {}" "some_slots (Some a) = answer_slots a"
  by (simp_all add: answer_slots_def some_slots_def)

lemma held_zput_any:
  "(j, i) \<in> held own (zput k y s) \<longleftrightarrow>
    (if j = k then slot_key k \<and> i \<in> own \<and> i \<in> fst ` set y else (j, i) \<in> held own s)"
proof -
  have "zget j (zput k y s) = (if j = k then Inr y else zget j s)" for j by (simp add: zget_other)
  then show ?thesis by (simp add: held_def)
qed

lemma held_at: "zget k s = Inr z \<Longrightarrow> (k, i) \<in> held own s \<longleftrightarrow> slot_key k \<and> i \<in> own \<and> i \<in> fst ` set z"
  by (auto simp: held_def)

lemma acquire_held:
  assumes "0 < ttl"
  shows "held own (snd (acquire_script k m ttl i s)) \<subseteq>
    (case fst (acquire_script k m ttl i s) of Inr n \<Rightarrow> if n = 1 then insert (k, i) (held own s) else held own s | Inl _ \<Rightarrow> held own s)"
proof -
  obtain r s1 where r: "zrem_below k (seconds s - ttl) s = (r, s1)" by fastforce
  have s1: "held own s1 \<subseteq> held own s" using held_zrem_below_any [of own k "seconds s - ttl" s] by (simp add: r)
  show ?thesis
  proof (cases "zget k s1")
    case (Inl e)
    then show ?thesis using s1 by (auto simp: acquire_script_def Let_def r split: sum.split)
  next
    case (Inr z)
    have "held own (zput k (zset_add i n z) s1) \<subseteq> insert (k, i) (held own s1)" for n
      by (rule subrelI) (auto simp: held_zput_any held_at [OF Inr] zset_add_def dom_update simp del: image_iff split: if_splits)
    then have "held own (expire k ttl (zput k (zset_add i n z) s1)) \<subseteq> insert (k, i) (held own s)" for n
      using s1 by (auto simp: held_expire [OF assms])
    then show ?thesis using s1 by (auto simp: acquire_script_def Let_def r Inr split: sum.split)
  qed
qed

lemma release_held: "held own (snd (release_slot k i s)) \<subseteq> held own s - {(k, i)}"
proof (cases "zget k s")
  case (Inr z)
  have sub: "fst ` set (AList.delete i z) \<subseteq> fst ` set z - {i}"
    using delete_notin_dom [of i z] dom_delete_subset [of i z] by blast
  have "held own (zput k (AList.delete i z) s) \<subseteq> held own s - {(k, i)}"
  proof (rule subrelI)
    fix j x assume "(j, x) \<in> held own (zput k (AList.delete i z) s)"
    then show "(j, x) \<in> held own s - {(k, i)}"
      using sub by (cases "j = k") (use subsetD [OF sub, of x] in \<open>auto simp only: held_zput_any held_at [OF Inr] if_True if_False Diff_iff prod.inject insert_iff empty_iff\<close>)
  qed
  then show ?thesis by (simp add: release_slot_def zrem_def Inr)
qed (auto simp: release_slot_def zrem_def held_def)

lemma keepsD: "keeps_slots own m \<Longrightarrow> hoare (holds_only own X) m (\<lambda>_. holds_only own X)"
  by (simp add: keeps_slots_def)

lemma holds_mono: "holds_only own X s \<Longrightarrow> X \<subseteq> Y \<Longrightarrow> holds_only own Y s"
  by (auto simp: holds_only_def)

lemma try_acquire_slots:
  assumes "0 < sc_slot_ttl (se_slots env)"
  shows "hoare (holds_only own X) (try_acquire env a)
    (\<lambda>r. holds_only own (X \<union> (case r of Inl _ \<Rightarrow> {} | Inr q \<Rightarrow> if aq_acquired q then request_slots (sa_id a) q else {})))"
proof (cases "sa_concurrency a \<le> 0")
  case True
  then show ?thesis by (simp add: try_acquire_def hoare_def request_slots_def)
next
  case False
  let ?k = "account_slot_key (sa_id a)" and ?m = "sa_concurrency a" and ?ttl = "sc_slot_ttl (se_slots env)"
  have "undisturbed own r' \<and> held own (st_tabs r') \<subseteq> X \<union> (case x of Inl _ \<Rightarrow> {} | Inr q \<Rightarrow> if aq_acquired q then request_slots (sa_id a) q else {})"
    if u: "undisturbed own r" "held own (st_tabs r) \<subseteq> X" and run: "run_state (acquire_account_slot (se_slots env) (sa_id a) ?m i) r = (x, r')"
    for i r x r'
  proof -
    obtain y r1 where y: "run_state (stmt (acquire_script ?k ?m ?ttl i)) r = (y, r1)" by fastforce
    have s: "undisturbed own r1 \<and> held own (st_tabs r1) \<subseteq> (case y of Inr n \<Rightarrow> if n = 1 then insert (?k, i) X else X | Inl _ \<Rightarrow> X)"
      by (rule stmt_held [OF u y])
        (use acquire_held [OF assms, of own ?k ?m i] in \<open>fastforce split: sum.splits if_splits\<close>)
    show ?thesis
      using run False y s
      by (auto simp: acquire_account_slot_def acquire_slot_def tryM_def request_slots_def split: sum.splits if_splits)
  qed
  note acq = holds_on_redis [OF this]
  show ?thesis
    unfolding try_acquire_def using False
    by (simp, intro hoare_bind [OF keepsD [OF kept_next_id]] acq)
qed

lemma release_slots:
  "hoare (holds_only own X) (on_redis (release_with (account_slot_key i) q)) (\<lambda>_. holds_only own (X - request_slots i q))"
proof (rule holds_on_redis)
  fix r x r' assume u: "undisturbed own r" "held own (st_tabs r) \<subseteq> X" and run: "run_state (release_with (account_slot_key i) q) r = (x, r')"
  show "undisturbed own r' \<and> held own (st_tabs r') \<subseteq> X - request_slots i q"
  proof (cases "aq_release q")
    case None
    then show ?thesis using u run by (simp add: release_with_def request_slots_def)
  next
    case (Some j)
    obtain y where y: "run_state (stmt (release_slot (account_slot_key i) j)) r = (y, r')"
      using run Some by (auto simp: release_with_def split: prod.splits)
    show ?thesis
      using stmt_held [OF u y, where Y = "\<lambda>_. X - {(account_slot_key i, j)}"] release_held [of own "account_slot_key i" j] Some
      by (fastforce simp: request_slots_def)
  qed
qed

lemma kept_check:
  assumes "0 < se_idle env"
  shows "keeps_slots own (check_and_register env h a)"
  unfolding check_and_register_def by (intro kept_rules none_register assms)

lemma take_slot_slots:
  assumes "0 < sc_slot_ttl (se_slots env)" "0 < se_idle env"
  shows "hoare (holds_only own X) (take_slot env h a)
    (\<lambda>t. holds_only own (X \<union> (case t of Taken q \<Rightarrow> request_slots (sa_id a) q | _ \<Rightarrow> {})))"
proof -
  have gone: "hoare (holds_only own (X \<union> request_slots (sa_id a) q)) (on_redis (release_with (account_slot_key (sa_id a)) q))
      (\<lambda>_. holds_only own X)" for q
    by (rule hoare_conseq [OF release_slots]) (auto intro: holds_mono)
  show ?thesis
    unfolding take_slot_def
    apply (rule hoare_bind [OF try_acquire_slots [OF assms(1)]])
    apply (rule hoare_sum)
     apply (simp add: hoare_return)
    apply (rule hoare_if)
     apply (simp add: hoare_return)
    apply (rule hoare_bind [OF keepsD [OF kept_check [OF assms(2)]]])
    apply (rule hoare_if)
     apply (simp add: hoare_return)
    apply (rule hoare_bind [where R = "\<lambda>_. holds_only own X"])
     apply (simp add: gone)
    apply (simp add: hoare_return)
    done
qed

subsection \<open>What an answer holds\<close>

definition slot_safe :: "string set \<Rightarrow> (sched_state, answer option) state \<Rightarrow> bool" where
  "slot_safe own m \<longleftrightarrow> (\<forall>X. hoare (holds_only own X) m (\<lambda>r. holds_only own (X \<union> some_slots r)))"

lemma safe_none: "keeps_slots own m \<Longrightarrow> yields m (\<lambda>r. some_slots r = {}) \<Longrightarrow> slot_safe own m"
  unfolding slot_safe_def keeps_slots_def hoare_def yields_def by (auto split: prod.splits) (metis fst_conv snd_conv sup_bot_right)

lemma safe_return [kept_rules]: "some_slots r = {} \<Longrightarrow> slot_safe own (State_Monad.return r)"
  by (simp add: slot_safe_def hoare_def)

lemma safe_bind: "keeps_slots own m \<Longrightarrow> (\<And>a. slot_safe own (k a)) \<Longrightarrow> slot_safe own (State_Monad.bind m k)"
  unfolding slot_safe_def keeps_slots_def by (auto intro: hoare_bind)

lemma safe_bind_yields:
  "keeps_slots own m \<Longrightarrow> yields m R \<Longrightarrow> (\<And>a. R a \<Longrightarrow> slot_safe own (k a)) \<Longrightarrow> slot_safe own (State_Monad.bind m k)"
  by (simp add: slot_safe_def keeps_slots_def hoare_def yields_def split_def)

lemma hoare_bind_yields:
  "keeps_slots own m \<Longrightarrow> yields m R \<Longrightarrow> (\<And>a. R a \<Longrightarrow> hoare (holds_only own X) (k a) Q) \<Longrightarrow>
   hoare (holds_only own X) (State_Monad.bind m k) Q"
  by (simp add: keeps_slots_def hoare_def yields_def split_def)

lemma safe_if: "(b \<Longrightarrow> slot_safe own m) \<Longrightarrow> (\<not> b \<Longrightarrow> slot_safe own n) \<Longrightarrow> slot_safe own (if b then m else n)"
  by simp

lemma safe_Let: "slot_safe own (f x) \<Longrightarrow> slot_safe own (let y = x in f y)"
  by simp

lemma safe_or_else:
  assumes "slot_safe own m" "slot_safe own k"
  shows "slot_safe own (or_else m k)"
  unfolding slot_safe_def or_else_def
proof (intro allI hoare_bind [OF assms(1) [unfolded slot_safe_def, rule_format]] hoare_option)
  fix X and r :: "answer option" and b
  show "r = None \<Longrightarrow> hoare (holds_only own (X \<union> some_slots r)) k (\<lambda>r. holds_only own (X \<union> some_slots r))"
    using assms(2) by (simp add: slot_safe_def)
  show "r = Some b \<Longrightarrow> hoare (holds_only own (X \<union> some_slots r)) (State_Monad.return (Some b)) (\<lambda>r. holds_only own (X \<union> some_slots r))"
    by (simp add: hoare_return)
qed

lemma safe_first_some: "(\<And>x. x \<in> set xs \<Longrightarrow> slot_safe own (f x)) \<Longrightarrow> slot_safe own (first_some f xs)"
proof (induction xs)
  case (Cons x xs)
  have "first_some f (x # xs) = or_else (f x) (first_some f xs)" by (simp add: or_else_def)
  then show ?case using Cons safe_or_else by (metis list.set_intros)
qed (simp add: kept_rules)

abbreviation hydrates :: "sched_env \<Rightarrow> sched_account \<Rightarrow> bool" where
  "hydrates env a \<equiv> \<exists>h. hydrate env a = Inr h"

lemma answer_new [simp]:
  "hydrates env a \<Longrightarrow> answer_slots (new_selection env a (Some q) w) = request_slots (sa_id a) q"
  "answer_slots (new_selection env a None w) = {}"
  by (auto simp: answer_slots_def new_selection_def split: sum.split)

lemma safe_attempt:
  assumes "0 < sc_slot_ttl (se_slots env)" "0 < se_idle env"
    and "\<And>q. hoare (holds_only own (X \<union> request_slots (sa_id a) q)) (k (Taken q)) (\<lambda>r. holds_only own (X \<union> some_slots r))"
    and "slot_safe own (k Session_Full)" "slot_safe own (k Busy)"
  shows "hoare (holds_only own X) (State_Monad.bind (take_slot env h a) k) (\<lambda>r. holds_only own (X \<union> some_slots r))"
proof (rule hoare_bind [OF take_slot_slots [OF assms(1,2)]])
  fix t
  show "hoare (holds_only own (X \<union> (case t of Taken q \<Rightarrow> request_slots (sa_id a) q | _ \<Rightarrow> {}))) (k t)
      (\<lambda>r. holds_only own (X \<union> some_slots r))"
    using assms(3-5) by (cases t) (simp_all add: slot_safe_def)
qed

lemma kept_bindings:
  "keeps_slots own (bind_session g h a)" "keeps_slots own (unbind_session g h)" "keeps_slots own (waiting_count a)"
  "keeps_slots own (on_redis (refresh_session_ttl g' h sticky_ttl))"
  unfolding bind_session_def unbind_session_def waiting_count_def by (intro kept_rules none_sticky none_waiting)+

definition configured :: "sched_env \<Rightarrow> bool" where
  "configured env \<longleftrightarrow> 0 < sc_slot_ttl (se_slots env) \<and> 0 < se_idle env"

lemma safe_take: "configured env \<Longrightarrow> hydrates env a \<Longrightarrow> slot_safe own (take_and_bind env g h a)"
  unfolding take_and_bind_def configured_def
  by (subst slot_safe_def, intro allI safe_attempt; (elim conjE)?)
    (auto intro!: hoare_bind [OF keepsD [OF kept_bindings(1)]] hoare_return safe_return)

lemma safe_wait: "configured env \<Longrightarrow> slot_safe own (wait_for env h plan a)"
  unfolding wait_for_def configured_def by (intro safe_bind kept_check safe_return) auto

lemma kept_passes [kept_rules]: "keeps_slots own (passes env pf p x m st a)" "keeps_slots own (sticky_checks env pf p x m a)"
  unfolding passes_def sticky_checks_def window_cost_ok_def rpm_ok_def known_window_cost_def
  by (intro kept_rules none_window_cost none_rpm)+

lemma kept_prefetch: "keeps_slots own (prefetch_costs env as)" "keeps_slots own (prefetch_rpms env as)"
  unfolding prefetch_costs_def prefetch_rpms_def by (intro kept_rules none_window_cost none_rpm)+

lemma kept_candidates: "keeps_slots own (candidates env pf q as)"
  unfolding candidates_def by (intro kept_rules)

lemma load_of_held: "held own (snd (load_of c sk wk a s)) \<subseteq> held own s"
proof -
  have "held own (snd (zrem_below sk c s)) \<subseteq> held own s" by (rule held_zrem_below_any)
  then show ?thesis by (auto simp: load_of_def Let_def split: prod.splits sum.splits)
qed

lemma load_pipeline_held: "held own (snd (load_pipeline c sk wk as s)) \<subseteq> held own s"
proof (induction as arbitrary: s)
  case (Cons a as)
  obtain r t where r: "load_of c (sk (fst a)) (wk (fst a)) a s = (r, t)" by fastforce
  have t: "held own t \<subseteq> held own s" using load_of_held [of own c "sk (fst a)" "wk (fst a)" a s] by (simp add: r)
  obtain r2 t2 where r2: "load_pipeline c sk wk as t = (r2, t2)" by fastforce
  have "held own t2 \<subseteq> held own t" using Cons.IH [of t] by (simp add: r2)
  then show ?case using t by (auto simp: r r2 split: sum.split)
qed simp

lemma kept_loads [kept_rules]: "keeps_slots own (loads_of env as)"
proof -
  have get: "takes_none own (get_loads cfg t b v n k items c)" for cfg t b v n k items c
    unfolding get_loads_def get_accounts_load_batch_def loads_batch_def
    by (auto intro!: none_rules load_pipeline_held split: prod.split option.split)
  show ?thesis
    unfolding keeps_slots_def
  proof (intro allI hoareI)
    fix X s r s' assume s: "holds_only own X s" and run: "run_state (loads_of env as) s = (r, s')"
    let ?items = "map (\<lambda>a. (sa_id a, effective_load_factor a)) as"
    obtain p t where g: "run_state (get_loads (se_slots env) (se_load_ttl env) True (se_load_order env) (se_now env)
        (se_load_key env ?items) ?items (ss_loads s)) (ss_redis s) = (p, t)" by fastforce
    then have "undisturbed own t \<and> held own (st_tabs t) \<subseteq> X"
      using get s unfolding takes_none_def holds_only_def by blast
    moreover have "ss_redis s' = t" using run g by (auto simp: loads_of_def split: prod.splits)
    ultimately show "holds_only own X s'" by (simp add: holds_only_def)
  qed
qed

lemma by_load_in: "fst ` set (fst (sort_by_load (with_load ls cs) d)) \<subseteq> set cs"
  using with_load_set order_sets(1) by metis

lemma safe_routed_sticky:
  assumes "configured env" "\<forall>a \<in> set accounts. hydrates env a"
  shows "slot_safe own (routed_sticky env pf q accounts ids)"
proof (cases "account_by_id accounts (rq_sticky q)")
  case None
  then show ?thesis
    unfolding routed_sticky_def
    by (auto intro!: safe_if safe_return safe_bind kept_bindings)
next
  case (Some a)
  then have a: "hydrates env a" using assms(2) account_by_idD by blast
  have ttl: "0 < sc_slot_ttl (se_slots env)" "0 < se_idle env" using assms(1) by (simp_all add: configured_def)
  show ?thesis
    unfolding routed_sticky_def Some option.case
    apply (rule safe_if, simp add: safe_return)
    apply (rule safe_bind [OF kept_passes(1)])
    apply (rule safe_if, simp add: safe_return)
    apply (subst slot_safe_def, intro allI safe_attempt ttl)
      apply (simp add: a hoare_return)
     apply (simp add: safe_return)
    apply simp
    apply (intro safe_bind kept_bindings safe_if kept_check ttl safe_return)
     apply (auto simp: answer_slots_def)
    done
qed

lemma safe_routed_by_load:
  assumes "configured env" "\<forall>a \<in> set cs. hydrates env a"
  shows "slot_safe own (routed_by_load env q cs)"
proof -
  have "\<forall>x \<in> set (fst (sort_by_load (with_load ls cs) d)). hydrates env (fst x)" for ls d
    using by_load_in [of ls cs d] assms(2) by blast
  then have "slot_safe own (first_some (take_and_bind env g h) (map fst (fst (sort_by_load (with_load ls cs) d))))" for g h ls d
    by (intro safe_first_some safe_take assms(1)) auto
  moreover have "slot_safe own (first_some (wait_for env h p) xs)" for h p xs
    by (intro safe_first_some safe_wait assms(1))
  ultimately show ?thesis
    unfolding routed_by_load_def
    by (intro safe_bind [OF kept_loads] safe_bind_yields [OF kept_roll yields_roll]) (elim exE, simp add: safe_or_else)
qed

lemma safe_routed_layer:
  assumes "configured env" "\<forall>a \<in> set accounts. hydrates env a"
  shows "slot_safe own (routed_layer env pf q accounts ids)"
proof -
  have "set (List.map_filter (account_by_id accounts) ids) \<subseteq> set accounts"
    using account_by_idD by (auto simp: List.map_filter_def)
  note cs = candidates_eligible [OF this]
  show ?thesis
    unfolding routed_layer_def
    apply (rule safe_if, simp add: safe_return)
    apply (rule safe_bind_yields [OF kept_candidates cs])
    apply (rule safe_if, simp add: safe_return)
    apply (intro safe_or_else safe_routed_sticky safe_routed_by_load assms)
    using assms(2) by (auto simp: eligible_def)
qed

lemma safe_sticky_layer:
  assumes "configured env" "\<forall>a \<in> set accounts. hydrates env a"
  shows "slot_safe own (sticky_layer env pf q accounts ids)"
proof (cases "account_by_id accounts (rq_sticky q)")
  case None
  then show ?thesis unfolding sticky_layer_def by (auto intro!: safe_if safe_return)
next
  case (Some a)
  then have a: "hydrates env a" using assms(2) account_by_idD by blast
  have ttl: "0 < sc_slot_ttl (se_slots env)" "0 < se_idle env" using assms(1) by (simp_all add: configured_def)
  have wait: "slot_safe own (do { w \<leftarrow> waiting_count a;
      if w < sg_sticky_max_waiting (se_config env) then wait_for env (rq_hash q) (sticky_plan env) a
      else State_Monad.return None })"
    by (intro safe_bind kept_bindings safe_if safe_wait assms(1) safe_return) simp
  show ?thesis
    unfolding sticky_layer_def Some option.case
    apply (rule safe_if, simp add: safe_return)
    apply (rule safe_Let, rule safe_bind, intro kept_if kept_bindings kept_return)
    apply (rule safe_bind [OF kept_passes(2)])
    apply (rule safe_if, simp add: safe_return)
    apply (subst slot_safe_def, intro allI safe_attempt ttl)
      apply (simp, rule hoare_bind [OF keepsD [OF kept_bindings(4)]])
      apply (simp add: a hoare_return)
     apply (simp_all add: wait)
    done
qed

lemma safeD: "slot_safe own m \<Longrightarrow> holds_only own X s \<Longrightarrow> run_state m s = (r, s') \<Longrightarrow> holds_only own (X \<union> some_slots r) s'"
  unfolding slot_safe_def by (drule spec, drule hoareD)

lemma by_layers_slots:
  assumes "configured env" "\<forall>x \<in> set xs. hydrates env (fst x)" "holds_only own X s" "by_layers env q p xs s = (r, s')"
  shows "holds_only own (X \<union> some_slots r) s'"
  using assms
proof (induction env q p xs s rule: by_layers.induct)
  case (1 env q p xs s)
  obtain c d where c: "pick (se_now env) (sg_prefer_soonest (se_config env)) p xs (ss_dice s) = (c, d)" by fastforce
  have s: "holds_only own X (s\<lparr>ss_dice := d\<rparr>)" using "1.prems"(3) by (simp add: holds_only_def)
  show ?case
  proof (cases c)
    case None
    then show ?thesis using "1.prems"(4) s c by (subst (asm) by_layers.simps) auto
  next
    case (Some x)
    then have "hydrates env (fst x)" using "1.prems"(2) pick_in c by (metis fst_conv)
    note safe = safe_take [OF "1.prems"(1) this]
    obtain b t where b: "run_state (take_and_bind env (rq_gid q) (rq_hash q) (fst x)) (s\<lparr>ss_dice := d\<rparr>) = (b, t)" by fastforce
    have t: "holds_only own (X \<union> some_slots b) t" by (rule safeD [OF safe s b])
    show ?thesis
    proof (cases b)
      case None
      have "by_layers env q p (filter (\<lambda>y. sa_id (fst y) \<noteq> sa_id (fst x)) xs) t = (r, s')"
        using "1.prems"(4) by (subst (asm) by_layers.simps) (simp add: c Some b None)
      then show ?thesis
        using "1.IH" [OF c [unfolded Some, symmetric] refl b [symmetric] None "1.prems"(1)] "1.prems"(2) t None by simp
    next
      case (Some a)
      then have "r = b \<and> s' = t" using "1.prems"(4) \<open>c = Some x\<close> by (subst (asm) by_layers.simps) (simp add: c b)
      then show ?thesis using t by simp
    qed
  qed
qed

lemma safe_load_layer:
  assumes "configured env" "\<forall>a \<in> set cs. hydrates env a"
  shows "slot_safe own (load_layer env q p cs)"
proof -
  have "slot_safe own (State (by_layers env q p (with_load ls cs)))" for ls
  proof -
    have "\<forall>x \<in> set (with_load ls cs). hydrates env (fst x)" using with_load_set assms(2) by fastforce
    from by_layers_slots [OF assms(1) this] show ?thesis unfolding slot_safe_def by (auto intro: hoareI)
  qed
  moreover have "\<forall>a \<in> set (fst (sort_by_priority_and_use p cs d)). hydrates env a" for d
    using order_sets(2) assms(2) by blast
  then have "slot_safe own (in_legacy_order env q p cs)"
    unfolding in_legacy_order_def
    by (intro safe_bind_yields [OF kept_roll yields_roll]) (auto intro!: safe_first_some safe_take assms(1))
  ultimately show ?thesis
    unfolding load_layer_def by (intro safe_bind [OF kept_loads]) (auto split: sum.split)
qed

lemma fallback_slots:
  assumes "configured env"
  shows "hoare (holds_only own X) (fallback_layer env q p cs) (\<lambda>r. holds_only own (X \<union> answer_slots r))"
proof -
  have w: "slot_safe own (first_some (wait_for env (rq_hash q) (fallback_plan env)) xs)" for xs
    by (intro safe_first_some safe_wait assms)
  show ?thesis
    unfolding fallback_layer_def
    apply (rule hoare_bind [OF keepsD [OF kept_roll]])
    apply (rule hoare_bind [OF w [unfolded slot_safe_def, rule_format]])
    apply (rule hoare_return)
    apply (auto split: option.split)
    done
qed


end
