(* ===== verification/SelectionProps.thy ===== *)
theory SelectionProps
  imports SelectionSlots
begin

section \<open>Order, fallback groups and what the snapshot forgets\<close>

text \<open>
  The order in which the layered choice tries the accounts, the chain of fallback groups, and the limits that
  the snapshot in Redis does not carry.  A concrete environment, on which the properties of the choice are applied.
\<close>


lemma filter_least_tie: "x \<in> set (filter_least f xs) \<Longrightarrow> y \<in> set xs \<Longrightarrow> f x = f y \<Longrightarrow> y \<in> set (filter_least f xs)"
  by (cases xs) (auto simp: filter_least_def)

lemma pick_by_soonest:
  assumes x: "x \<in> set (filter_by_soonest_reset n xs)" and y: "y \<in> set xs"
  shows "active_end n y = Some u \<Longrightarrow> \<exists>t. active_end n x = Some t \<and> t \<le> u"
    and "active_end n x = active_end n y \<Longrightarrow> y \<in> set (filter_by_soonest_reset n xs)"
proof -
  show "\<exists>t. active_end n x = Some t \<and> t \<le> u" if "active_end n y = Some u"
  proof (cases "length xs = 1")
    case True
    then have "x = y" using y filter_soonest(1) [OF x] by (cases xs) auto
    then show ?thesis using that by simp
  next
    case False
    then show ?thesis using filter_soonest(2) [OF x y that] by simp
  qed
  show "y \<in> set (filter_by_soonest_reset n xs)" if "active_end n x = active_end n y"
    using x y that by (auto simp: filter_by_soonest_reset_def split: if_splits option.splits)
qed

text \<open>
  C38.  The account the layered choice picks is before every other candidate in this order: smaller priority number, then
  (where so configured) the window that ends soonest, then the smaller load, then the longer time since it was used.
\<close>

theorem pick_least:
  assumes "fst (pick n soonest p xs d) = Some x" "y \<in> set xs"
  shows "sa_priority (fst x) < sa_priority (fst y) \<or> sa_priority (fst x) = sa_priority (fst y) \<and>
    (soonest \<and> (\<exists>t. active_end n x = Some t \<and> (case active_end n y of None \<Rightarrow> True | Some u \<Rightarrow> t < u)) \<or>
     (soonest \<longrightarrow> active_end n x = active_end n y) \<and>
       (snd x < snd y \<or> snd x = snd y \<and> used_before (fst x) (fst y)))"
proof -
  let ?c1 = "filter_by_min_priority xs"
  let ?c2 = "if soonest then filter_by_soonest_reset n ?c1 else ?c1"
  let ?c3 = "filter_by_min_load ?c2"
  note st = pick_stages [OF assms(1)]
  have x3: "x \<in> set ?c3" using st least_recent(2) by blast
  then have x2: "x \<in> set ?c2" unfolding filter_by_min_load_def by (rule filter_least(1))
  then have x1: "x \<in> set ?c1" using filter_soonest(1) by (auto split: if_splits)
  have le: "sa_priority (fst x) \<le> sa_priority (fst y)"
    using filter_least(2) [OF x1 [unfolded filter_by_min_priority_def] assms(2)] .
  show ?thesis
  proof (cases "sa_priority (fst x) = sa_priority (fst y)")
    case True
    have y1: "y \<in> set ?c1"
      using filter_least_tie [OF x1 [unfolded filter_by_min_priority_def] assms(2) True] unfolding filter_by_min_priority_def .
    have y2: "y \<in> set ?c2" if "soonest \<longrightarrow> active_end n x = active_end n y"
      using that x2 y1 pick_by_soonest(2) by (auto split: if_splits)
    have load: "snd x < snd y \<or> snd x = snd y \<and> used_before (fst x) (fst y)" if "y \<in> set ?c2"
    proof -
      have "snd x \<le> snd y" using filter_least(2) [OF x3 [unfolded filter_by_min_load_def] that] .
      moreover have "y \<in> set ?c3" if "snd x = snd y"
        using filter_least_tie [OF x3 [unfolded filter_by_min_load_def] \<open>y \<in> set ?c2\<close> that] unfolding filter_by_min_load_def .
      ultimately show ?thesis using least_recent(3) [OF st(2,1)] by fastforce
    qed
    have soon: "active_end n y = Some u \<Longrightarrow> \<exists>t. active_end n x = Some t \<and> t \<le> u" if soonest for u
      using pick_by_soonest(1) x2 y1 that by simp
    show ?thesis
    proof (cases "soonest \<longrightarrow> active_end n x = active_end n y")
      case same: True
      then show ?thesis using True load [OF y2] by blast
    next
      case False
      then show ?thesis using True soon by (cases "active_end n y"; cases "active_end n x") force+
    qed
  qed (use le in simp)
qed

lemma walk_groups_returns:
  assumes "finite {i. \<exists>g. resolve_group_by_id env i = Inr g}"
  shows "\<exists>r. walk_groups env visited i = Some r"
proof -
  let ?R = "{i. \<exists>g. resolve_group_by_id env i = Inr g}"
  show ?thesis
  proof (induction "card (?R - set visited)" arbitrary: visited i rule: less_induct)
    case less
    show ?case
    proof (cases "i \<notin> set visited \<and> i \<in> ?R")
      case True
      then obtain g where g: "resolve_group_by_id env i = Inr g" by blast
      have "card (?R - set (i # visited)) < card (?R - set visited)"
        using True assms by (intro psubset_card_mono) auto
      from less [OF this] show ?thesis
        by (subst walk_groups.simps) (simp add: True g split: option.split)
    next
      case False
      then show ?thesis by (subst walk_groups.simps) (auto split: sum.split)
    qed
  qed
qed

definition allowed_in :: "sched_env \<Rightarrow> go_error + group \<times> int64 \<Rightarrow> bool" where
  "allowed_in env r \<longleftrightarrow> (case r of Inl _ \<Rightarrow> True
     | Inr (g, j) \<Rightarrow> resolve_group_by_id env j = Inr g \<and> (\<not> gr_claude_only g \<or> rc_claude_code (se_ctx env)))"

lemma walk_groups_allowed: "walk_groups env visited i = Some r \<Longrightarrow> allowed_in env r"
proof (rule walk_groups.raw_induct [of "\<lambda>env visited i r. allowed_in env r"], goal_cases)
  case (1 f env visited i r)
  then show ?case
    by (cases "resolve_group_by_id env i") (auto simp: allowed_in_def split: if_splits option.splits)
qed

text \<open>
  C39.  The chain of fallback groups of a group that only serves Claude Code ends, also when the groups refer to each
  other in a circle, if finitely many groups can be resolved; a group it ends in can be resolved and serves the client.
\<close>

theorem walk_groups_ends:
  assumes "finite {i. \<exists>g. resolve_group_by_id env i = Inr g}"
  shows "\<exists>r. walk_groups env [] i = Some r \<and>
    (case r of Inl _ \<Rightarrow> True
     | Inr (g, j) \<Rightarrow> resolve_group_by_id env j = Inr g \<and> (\<not> gr_claude_only g \<or> rc_claude_code (se_ctx env)))"
proof -
  obtain r where "walk_groups env [] i = Some r" using walk_groups_returns [OF assms] by blast
  then show ?thesis using walk_groups_allowed unfolding allowed_in_def by blast
qed

text \<open>
  The record of an account that the snapshot keeps forgets its limits: no quota of it is exceeded and no number of
  requests per minute is too high, whatever the account's settings say.
\<close>

theorem snapshot_forgets_limits:
  "\<not> is_quota_exceeded z n (sa_quota (scheduler_metadata a))"
  "check_rpm (scheduler_metadata a) r = Schedulable"
  by (simp_all add: scheduler_metadata_def empty_quota_def empty_window_def is_quota_exceeded_def used_up_def
      check_rpm_def base_rpm_def positive_or_def Let_def)

subsection \<open>A concrete environment\<close>

definition plain_account :: "int64 \<Rightarrow> int \<Rightarrow> sched_account" where
  "plain_account i prio = \<lparr>sa_id = i, sa_platform = ''anthropic'', sa_type = ''apikey'', sa_concurrency = 1, sa_priority = prio,
     sa_load_factor = None, sa_status = ''active'', sa_schedulable = True, sa_last_used = None, sa_expires = None,
     sa_auto_pause = False, sa_rate_limit_reset = None, sa_overload_until = None, sa_temp_until = None,
     sa_window_start = None, sa_window_end = None, sa_credentials = (\<lambda>_. []), sa_raw_mapping = [], sa_mixed = False,
     sa_overages = False, sa_passthrough = None, sa_oauth_passthrough = None, sa_window_cost_limit = None,
     sa_sticky_reserve = None, sa_max_sessions = None, sa_idle_minutes = None, sa_base_rpm = None, sa_rpm_strategy = None,
     sa_rpm_buffer = None, sa_limits = [], sa_groups = [3], sa_privacy = [], sa_quota = empty_quota\<rparr>"

definition two_accounts :: "sched_account list" where
  "two_accounts = [plain_account 1 50, plain_account 2 10]"

definition demo_config :: schedule_config where
  "demo_config = \<lparr>sg_sticky_max_waiting = 3, sg_sticky_timeout = 120, sg_fallback_timeout = 30, sg_fallback_max_waiting = 100,
     sg_fallback_mode = ''last_used'', sg_prefer_soonest = True, sg_load_batch = True\<rparr>"

definition demo_env :: sched_env where
  "demo_env = \<lparr>se_now = 0, se_tz = 0, se_zones = (\<lambda>_. None), se_ctx = background_ctx, se_config = demo_config,
     se_simple_mode = False, se_context_group = None, se_group_by_id = (\<lambda>_. Inl (Plain ''not found'')),
     se_channels = Inr (empty_cache 0), se_snapshot = (\<lambda>_. Inr (Some two_accounts)), se_fallback_refused = None,
     se_query = (\<lambda>_. Inr two_accounts),
     se_account = (\<lambda>i. Inr (List.find (\<lambda>a. sa_id a = i) two_accounts)), se_window_stats = (\<lambda>_ _. Inr 0),
     se_window_stats_batch = (\<lambda>_ _. Inr (\<lambda>_. None)), se_slots = new_concurrency_cache 15 60, se_prefix = ''pa'', se_idle = 300,
     se_load_ttl = 1000, se_load_key = (\<lambda>_. ''load''), se_load_order = [''load'']\<rparr>"

definition demo_request :: request where
  "demo_request = \<lparr>rq_gid = Some 3, rq_hash = ''session'', rq_model = [], rq_excluded = [], rq_sticky = 0,
     rq_platform = ''anthropic'', rq_mixed = True\<rparr>"

definition demo_state :: sched_state where
  "demo_state = \<lparr>ss_redis = \<lparr>st_tabs = quiet_redis, st_base = None, st_world = []\<rparr>, ss_loads = Map.empty, ss_dice = [], ss_seq = 0, ss_errors = []\<rparr>"

definition demo_run :: "answer \<times> sched_state" where
  "demo_run = run_state (select_by_load demo_env demo_request two_accounts []) demo_state"

lemma demo_hydrates: "\<forall>a \<in> set two_accounts. \<exists>h. hydrate demo_env a = Inr h"
  by (simp add: two_accounts_def plain_account_def hydrate_def snapshot_account_def demo_env_def)

lemma demo_eligible: "eligible demo_env demo_request two_accounts (plain_account 1 50)"
proof -
  have "fits demo_env (rq_platform demo_request) (rq_mixed demo_request) (rq_model demo_request) (plain_account 1 50)"
    by code_simp
  then show ?thesis by (simp add: eligible_def two_accounts_def demo_request_def)
qed

lemma demo_taken: "(case fst demo_run of Inl _ \<Rightarrow> None | Inr l \<Rightarrow> Some (sa_id (sl_account l), sl_release l)) =
    Some (2, Some (2, \<lparr>aq_acquired = True, aq_release = Some ''pa-1''\<rparr>))"
  by code_simp





theorem pick_least_witness:
  "case fst (pick 0 True False [(plain_account 1 50, 10), (plain_account 2 10, 90), (plain_account 3 10, 20)] []) of
     None \<Rightarrow> False | Some x \<Rightarrow> sa_id (fst x) = 3 \<and> snd x < 90"
proof -
  let ?xs = "[(plain_account 1 50, 10), (plain_account 2 10, 90), (plain_account 3 10, 20)]"
  have "map_option (\<lambda>x. (sa_id (fst x), sa_priority (fst x), snd x, active_end 0 x)) (fst (pick 0 True False ?xs [])) =
      Some (3, 10, 20, None)" by code_simp
  then obtain x where x: "fst (pick 0 True False ?xs []) = Some x" "sa_id (fst x) = 3" "sa_priority (fst x) = 10" "snd x = 20"
      "active_end 0 x = None" by auto
  have y: "sa_priority (fst (plain_account 2 10, 90::int)) = 10" "active_end 0 (plain_account 2 10, 90) = None"
    by (simp_all add: active_end_def plain_account_def)
  have "snd x \<le> 90" using pick_least [OF x(1), of "(plain_account 2 10, 90)"] unfolding x(3,5) y by auto
  then show ?thesis unfolding x(1) using x by simp
qed

definition circle :: "int64 \<Rightarrow> go_error + group" where
  "circle i = (if i = 1 \<or> i = 2 then Inr \<lparr>gr_id = i, gr_name = [], gr_platform = ''anthropic'', gr_status = ''active'', gr_hydrated = True,
      gr_claude_only = True, gr_fallback = Some (3 - i), gr_routing_enabled = False, gr_routing = [], gr_require_privacy = False\<rparr>
     else Inl (Plain ''not found''))"

theorem walk_groups_ends_witness: "\<exists>r. walk_groups (demo_env\<lparr>se_group_by_id := circle\<rparr>) [] 1 = Some r"
proof -
  have "{i. \<exists>g. resolve_group_by_id (demo_env\<lparr>se_group_by_id := circle\<rparr>) i = Inr g} \<subseteq> {1, 2}"
    by (auto simp: resolve_group_by_id_def group_from_context_def demo_env_def circle_def split: if_splits)
  then have "finite {i. \<exists>g. resolve_group_by_id (demo_env\<lparr>se_group_by_id := circle\<rparr>) i = Inr g}"
    by (rule finite_subset) simp
  then show ?thesis using walk_groups_ends by blast
qed

lemma circle_detected: "walk_groups (demo_env\<lparr>se_group_by_id := circle\<rparr>) [] 1 = Some (Inl (Plain ''fallback group cycle detected''))"
  by (simp add: walk_groups.simps resolve_group_by_id_def group_from_context_def demo_env_def circle_def background_ctx_def)

end
