(* ===== verification/ChannelLookup.thy ===== *)
theory ChannelLookup
  imports Channels
begin

section \<open>What the cache of channels answers\<close>

text \<open>
  The cache as the channels see it: a lookup for a group reads only the rules of its channel for its platform, and
  since no two patterns of a valid channel match one model, the answer does not depend on the order in which the
  cache was filled.
\<close>


subsection \<open>A valid configuration is unambiguous\<close>

definition entry_matches :: "model_entry \<Rightarrow> string \<Rightarrow> bool" where
  "entry_matches e m \<longleftrightarrow> (if me_wildcard e then has_prefix m (me_prefix e) else me_prefix e = m)"

text \<open>A pattern matches a model whatever the case of either.\<close>

definition pattern_matches :: "string \<Rightarrow> string \<Rightarrow> bool" where
  "pattern_matches p model \<longleftrightarrow> entry_matches (to_model_entry p) (to_lower model)"

lemma conflicts_sym: "conflicts_between a b = conflicts_between b a"
  by (auto simp: conflicts_between_def split: bool.split)

lemma prefixes_comparable: "has_prefix m p \<Longrightarrow> has_prefix m q \<Longrightarrow> has_prefix p q \<or> has_prefix q p"
  by (auto simp: has_prefix_iff append_eq_append_conv2)

lemma both_match_conflict: "entry_matches a m \<Longrightarrow> entry_matches b m \<Longrightarrow> conflicts_between a b"
  using prefixes_comparable by (auto simp: conflicts_between_def entry_matches_def split: bool.split if_splits)

lemma detect_none: "detect_conflicts p code label es = None \<Longrightarrow> sorted_wrt (\<lambda>a b. \<not> conflicts_between a b) es"
  by (induction es) (auto simp: find_None_iff split: option.splits)

definition exact_part :: "(model_entry \<times> 'a) list \<Rightarrow> (string \<times> 'a) list" where
  "exact_part E = map (\<lambda>(e, v). (me_prefix e, v)) (filter (\<lambda>(e, v). \<not> me_wildcard e) E)"

definition wild_part :: "(model_entry \<times> 'a) list \<Rightarrow> (string \<times> 'a) list" where
  "wild_part E = map (\<lambda>(e, v). (me_prefix e, v)) (filter (\<lambda>(e, v). me_wildcard e) E)"

definition looked_up :: "(model_entry \<times> 'a) list \<Rightarrow> string \<Rightarrow> 'a option" where
  "looked_up E m = (case map_of (rev (exact_part E)) m of Some v \<Rightarrow> Some v | None \<Rightarrow> first_prefix (wild_part E) m)"

lemma looked_up_some: "looked_up E m = Some v \<Longrightarrow> \<exists>e. (e, v) \<in> set E \<and> entry_matches e m"
  by (fastforce simp: looked_up_def exact_part_def wild_part_def first_prefix_def entry_matches_def find_Some_iff set_conv_nth [symmetric]
      dest: map_of_SomeD nth_mem split: option.splits)

lemma looked_up_none:
  assumes "looked_up E m = None" "(e, v) \<in> set E"
  shows "\<not> entry_matches e m"
proof
  assume m: "entry_matches e m"
  show False
  proof (cases "me_wildcard e")
    case True
    then have "(me_prefix e, v) \<in> set (wild_part E)" using assms(2) by (force simp: wild_part_def)
    then show False
      using assms(1) m True by (fastforce simp: looked_up_def first_prefix_def find_None_iff entry_matches_def split: option.splits)
  next
    case False
    then have "(m, v) \<in> set (rev (exact_part E))" using assms(2) m by (force simp: exact_part_def entry_matches_def)
    then have "map_of (rev (exact_part E)) m \<noteq> None" by (metis map_of_eq_None_iff fst_conv image_eqI)
    then show False using assms(1) by (auto simp: looked_up_def)
  qed
qed

lemma one_match:
  assumes "sorted_wrt (\<lambda>a b. \<not> conflicts_between (fst a) (fst b)) E"
    and "x \<in> set E" "y \<in> set E" "entry_matches (fst x) m" "entry_matches (fst y) m"
  shows "x = y"
proof -
  obtain i j where ij: "i < length E" "j < length E" "x = E ! i" "y = E ! j" using assms(2,3) by (metis in_set_conv_nth)
  have "conflicts_between (fst x) (fst y)" using both_match_conflict assms(4,5) .
  then have "\<not> i < j" "\<not> j < i"
    using assms(1) ij conflicts_sym unfolding sorted_wrt_iff_nth_less by blast+
  then show ?thesis using ij by (metis linorder_neqE_nat)
qed

lemma looked_up_iff:
  assumes "sorted_wrt (\<lambda>a b. \<not> conflicts_between (fst a) (fst b)) E"
  shows "looked_up E m = Some v \<longleftrightarrow> (\<exists>e. (e, v) \<in> set E \<and> entry_matches e m)"
proof
  assume "\<exists>e. (e, v) \<in> set E \<and> entry_matches e m"
  then obtain e where e: "(e, v) \<in> set E" "entry_matches e m" by blast
  show "looked_up E m = Some v"
  proof (cases "looked_up E m")
    case None
    from looked_up_none [OF this e(1)] e(2) show ?thesis by simp
  next
    case (Some w)
    from looked_up_some [OF this] obtain e' where e': "(e', w) \<in> set E" "entry_matches e' m" by blast
    have "(e, v) = (e', w)" by (rule one_match [OF assms e(1) e'(1), where m = m]) (simp_all add: e(2) e'(2))
    then show ?thesis using Some by simp
  qed
qed (rule looked_up_some)

subsection \<open>What the cache holds for a group\<close>

definition price_rules :: "channel \<Rightarrow> string \<Rightarrow> (model_entry \<times> price_row) list" where
  "price_rules ch p = concat (map (\<lambda>r. map (\<lambda>m. (to_model_entry m, r)) (pw_models r)) (filter (\<lambda>r. pw_platform r = p) (ch_pricing ch)))"

definition mapping_rules :: "channel \<Rightarrow> string \<Rightarrow> (model_entry \<times> string) list" where
  "mapping_rules ch p = (case map_of (ch_mapping ch) p of None \<Rightarrow> [] | Some es \<Rightarrow> map (\<lambda>e. (to_model_entry (fst e), snd e)) es)"

lemma lower_char_star: "lower_char c = CHR ''*'' \<longleftrightarrow> c = CHR ''*''"
proof
  assume l: "lower_char c = CHR ''*''"
  show "c = CHR ''*''"
  proof (rule ccontr)
    assume c: "c \<noteq> CHR ''*''"
    then have r: "65 \<le> (of_char c :: nat)" "(of_char c :: nat) \<le> 90" using l by (auto simp: lower_char_def split: if_splits)
    then have "char_of ((of_char c :: nat) + 32) = CHR ''*''" using l by (simp add: lower_char_def)
    then have "of_char (char_of ((of_char c :: nat) + 32) :: char) = (42 :: nat)" by simp
    then show False using r by simp
  qed
qed (simp add: lower_char_def)

lemma has_star: "has_suffix s ''*'' \<longleftrightarrow> s \<noteq> [] \<and> last s = CHR ''*''"
  by (cases s rule: rev_cases) (auto simp: has_suffix_def)

lemma lower_star [simp]: "has_suffix (to_lower s) ''*'' = has_suffix s ''*''"
  "to_lower (trim_suffix s ''*'') = trim_suffix (to_lower s) ''*''"
proof -
  show h: "has_suffix (to_lower s) ''*'' = has_suffix s ''*''" for s
    by (auto simp: has_star to_lower_def last_map lower_char_star)
  show "to_lower (trim_suffix s ''*'') = trim_suffix (to_lower s) ''*''"
    unfolding trim_suffix_def h by (simp add: to_lower_def take_map)
qed

lemma entry_of [simp]:
  "me_wildcard (to_model_entry m) = has_suffix m ''*''"
  "me_prefix (to_model_entry m) = (if has_suffix m ''*'' then to_lower (trim_suffix m ''*'') else to_lower m)"
  by (simp_all add: to_model_entry_def split_wildcard_def)

text \<open>The entries of the cache that a lookup for a group of a platform reads.\<close>

definition group_view :: "int64 \<Rightarrow> string \<Rightarrow> channel_cache \<Rightarrow>
    channel option \<times> (string \<Rightarrow> price_row option) \<times> (string \<times> price_row) list \<times> (string \<Rightarrow> string option) \<times> (string \<times> string) list" where
  "group_view g p c = (cc_channel c g, (\<lambda>m. cc_pricing c (g, p, m)), cc_wild_pricing c (g, p),
     (\<lambda>m. cc_mapping c (g, p, m)), cc_wild_mapping c (g, p))"

lemma pattern_parts_append [simp]:
  "exact_part (E @ F) = exact_part E @ exact_part F" "wild_part (E @ F) = wild_part E @ wild_part F"
  "exact_part [] = []" "wild_part [] = []"
  by (simp_all add: exact_part_def wild_part_def)

lemma parts_cons:
  "exact_part ((e, v) # E) = (if me_wildcard e then [] else [(me_prefix e, v)]) @ exact_part E"
  "wild_part ((e, v) # E) = (if me_wildcard e then [(me_prefix e, v)] else []) @ wild_part E"
  by (simp_all add: exact_part_def wild_part_def)

definition over :: "(string \<Rightarrow> 'a option) \<Rightarrow> (model_entry \<times> 'a) list \<Rightarrow> string \<Rightarrow> 'a option" where
  "over f E = f ++ map_of (rev (exact_part E))"

lemma over_simps [simp]: "over f [] = f" "over (over f E) F = over f (E @ F)"
  by (simp_all add: over_def map_add_assoc)

lemma over_cons: "over f ((e, v) # E) = over (if me_wildcard e then f else f(me_prefix e \<mapsto> v)) E"
  by (auto simp: over_def parts_cons map_add_def fun_eq_iff split: option.split)

lemma fold_prices:
  "group_view g p (fold (add_price h r) ms c) =
    (if h = g \<and> pw_platform r = p
     then (case group_view g p c of (ch, ex, wi, nm, pt) \<Rightarrow>
       let E = map (\<lambda>m. (to_model_entry m, r)) ms in (ch, over ex E, wi @ wild_part E, nm, pt))
     else group_view g p c)"
proof (induction ms arbitrary: c)
  case (Cons m ms)
  have one: "group_view g p (add_price h r m c) =
      (if h = g \<and> pw_platform r = p
       then (case group_view g p c of (ch, ex, wi, nm, pt) \<Rightarrow>
         let E = [(to_model_entry m, r)] in (ch, over ex E, wi @ wild_part E, nm, pt))
       else group_view g p c)"
    by (auto simp: group_view_def add_price_def Let_def over_cons parts_cons fun_eq_iff)
  show ?case
    by (simp only: fold_Cons o_apply Cons.IH one) (simp add: group_view_def Let_def over_cons parts_cons)
qed (simp add: group_view_def Let_def)

lemma expand_pricing_view:
  "group_view g p (expand_pricing ch h q c) =
    (if h = g \<and> q = p
     then (case group_view g p c of (x, ex, wi, nm, pt) \<Rightarrow>
       (x, over ex (price_rules ch p), wi @ wild_part (price_rules ch p), nm, pt))
     else group_view g p c)"
proof -
  have "group_view g p (fold (\<lambda>r c. if q = pw_platform r then fold (add_price h r) (pw_models r) c else c) rs c) =
    (if h = g \<and> q = p
     then (case group_view g p c of (x, ex, wi, nm, pt) \<Rightarrow>
       let E = concat (map (\<lambda>r. map (\<lambda>m. (to_model_entry m, r)) (pw_models r)) (filter (\<lambda>r. pw_platform r = p) rs)) in
       (x, over ex E, wi @ wild_part E, nm, pt))
     else group_view g p c)" for rs
  proof (induction rs arbitrary: c)
    case (Cons r rs)
    show ?case
      by (simp only: fold_Cons o_apply Cons.IH) (auto simp: fold_prices Let_def split: prod.split)
  qed (simp add: group_view_def Let_def)
  from this [of "ch_pricing ch", unfolded Let_def] show ?thesis unfolding expand_pricing_def price_rules_def .
qed

lemma expand_mapping_view:
  "group_view g p (expand_mapping ch h q c) =
    (if h = g \<and> q = p
     then (case group_view g p c of (x, ex, wi, nm, pt) \<Rightarrow>
       (x, ex, wi, over nm (mapping_rules ch p), pt @ wild_part (mapping_rules ch p)))
     else group_view g p c)"
proof -
  have "group_view g p (fold (add_mapping h q) es c) =
    (if h = g \<and> q = p
     then (case group_view g p c of (x, ex, wi, nm, pt) \<Rightarrow>
       let E = map (\<lambda>e. (to_model_entry (fst e), snd e)) es in (x, ex, wi, over nm E, pt @ wild_part E))
     else group_view g p c)" for es
  proof (induction es arbitrary: c)
    case (Cons e es)
    have one: "group_view g p (add_mapping h q e c) =
      (if h = g \<and> q = p
       then (case group_view g p c of (x, ex, wi, nm, pt) \<Rightarrow>
         let E = [(to_model_entry (fst e), snd e)] in (x, ex, wi, over nm E, pt @ wild_part E))
       else group_view g p c)"
      by (auto simp: group_view_def add_mapping_def Let_def over_cons parts_cons fun_eq_iff)
    show ?case
      by (simp only: fold_Cons o_apply Cons.IH one) (simp add: group_view_def Let_def over_cons parts_cons)
  qed (simp add: group_view_def Let_def)
  then show ?thesis by (auto simp: expand_mapping_def mapping_rules_def Let_def group_view_def split: option.split)
qed

text \<open>What a channel contributes to each of its groups.\<close>

definition channel_view :: "channel \<Rightarrow> string \<Rightarrow>
    channel option \<times> (string \<Rightarrow> price_row option) \<times> (string \<times> price_row) list \<times> (string \<Rightarrow> string option) \<times> (string \<times> string) list" where
  "channel_view ch p = (Some ch, over Map.empty (price_rules ch p), wild_part (price_rules ch p),
     over Map.empty (mapping_rules ch p), wild_part (mapping_rules ch p))"

definition no_view :: "channel option \<times> (string \<Rightarrow> price_row option) \<times> (string \<times> price_row) list \<times> (string \<Rightarrow> string option) \<times> (string \<times> string) list" where
  "no_view = (None, Map.empty, [], Map.empty, [])"

lemma add_group_view:
  assumes "p = platform_of ps g"
  shows "h \<noteq> g \<Longrightarrow> group_view g p (add_group ps ch h c) = group_view g p c"
    and "group_view g p c = no_view \<Longrightarrow> group_view g p (add_group ps ch g c) = channel_view ch p"
proof -
  have set: "group_view g p (c\<lparr>cc_channel := f\<rparr>) = (f g, snd (group_view g p c))" for f
    by (simp add: group_view_def)
  have same: "(cc_channel c g, snd (group_view g p c)) = group_view g p c" by (simp add: group_view_def)
  show "h \<noteq> g \<Longrightarrow> group_view g p (add_group ps ch h c) = group_view g p c"
    by (simp add: add_group_def expand_mapping_view expand_pricing_view set same)
  show "group_view g p c = no_view \<Longrightarrow> group_view g p (add_group ps ch g c) = channel_view ch p"
    by (simp only: add_group_def expand_mapping_view expand_pricing_view set assms [symmetric] no_view_def channel_view_def) simp
qed

lemma add_groups_view:
  assumes "p = platform_of ps g" "distinct gs" "group_view g p c = no_view"
  shows "group_view g p (fold (add_group ps ch) gs c) = (if g \<in> set gs then channel_view ch p else no_view)"
  using assms(2,3)
proof (induction gs arbitrary: c)
  case (Cons h gs)
  show ?case
  proof (cases "h = g")
    case True
    have "g \<notin> set gs \<Longrightarrow> group_view g p (fold (add_group ps ch) gs d) = group_view g p d" for d
      by (induction gs arbitrary: d) (auto simp: add_group_view(1) [OF assms(1)])
    then show ?thesis using Cons.prems True add_group_view(2) [OF assms(1)] by simp
  next
    case False
    then show ?thesis using Cons add_group_view(1) [OF assms(1)] by auto
  qed
qed simp

text \<open>A group belongs to one channel.\<close>

definition groups_apart :: "channel list \<Rightarrow> bool" where
  "groups_apart chs \<longleftrightarrow> distinct (concat (map ch_groups chs))"

lemma populate_view:
  assumes "groups_apart chs" "ch \<in> set chs" "g \<in> set (ch_groups ch)" "p = platform_of ps g"
  shows "group_view g p (populate_cache n chs ps) = channel_view (normalize_source ch) p"
proof -
  let ?F = "\<lambda>ch c. let ch' = normalize_source ch in fold (add_group ps ch') (ch_groups ch') c"
  have gs: "ch_groups (normalize_source x) = ch_groups x" for x by (simp add: normalize_source_def)
  have other: "group_view g p (fold ?F xs c) = group_view g p c" if "\<forall>x \<in> set xs. g \<notin> set (ch_groups x)" for xs c
    using that
  proof (induction xs arbitrary: c)
    case (Cons x xs)
    have "group_view g p (fold (add_group ps y) hs d) = group_view g p d" if "g \<notin> set hs" for y hs d
      using that by (induction hs arbitrary: d) (auto simp: add_group_view(1) [OF assms(4)])
    then show ?case using Cons by (simp add: Let_def gs)
  qed simp
  have "group_view g p (fold ?F chs c) = channel_view (normalize_source ch) p" if "group_view g p c = no_view" for c
    using assms(1,2) that
  proof (induction chs arbitrary: c)
    case (Cons x xs)
    have d: "distinct (ch_groups x)" "groups_apart xs" using Cons.prems(1) by (simp_all add: groups_apart_def)
    have x: "group_view g p (?F x c) = (if g \<in> set (ch_groups x) then channel_view (normalize_source x) p else no_view)"
      using add_groups_view [OF assms(4), of "ch_groups x" c "normalize_source x"] d(1) Cons.prems(3) by (simp add: gs)
    show ?case
    proof (cases "ch = x")
      case True
      have "\<forall>y \<in> set xs. g \<notin> set (ch_groups y)"
        using Cons.prems(1) assms(3) True by (auto simp: groups_apart_def)
      then have "group_view g p (fold ?F xs (?F x c)) = group_view g p (?F x c)" by (rule other)
      then show ?thesis unfolding fold_Cons o_apply x using True assms(3) by simp
    next
      case False
      then have ch: "ch \<in> set xs" using Cons.prems(2) by simp
      then have "g \<notin> set (ch_groups x)" using Cons.prems(1) assms(3) by (auto simp: groups_apart_def)
      then have "group_view g p (?F x c) = no_view" unfolding x by simp
      from Cons.IH [OF d(2) ch this] show ?thesis unfolding fold_Cons o_apply .
    qed
  qed simp
  then show ?thesis
    unfolding populate_cache_def by (simp add: group_view_def empty_cache_def no_view_def)
qed

lemma fold_same: "(\<And>x c. f (F x c) = f c) \<Longrightarrow> f (fold F xs c) = f c"
  by (induction xs arbitrary: c) simp_all

lemma populate_platform: "cc_platform (populate_cache n chs ps) = ps"
proof -
  have p: "cc_platform (fold (add_price h r) ms c) = cc_platform c" for h r ms c
    by (rule fold_same) (simp add: add_price_def Let_def)
  have e: "cc_platform (expand_pricing x h q c) = cc_platform c" for x h q c
    unfolding expand_pricing_def by (rule fold_same) (simp add: p)
  have m: "cc_platform (fold (add_mapping h q) es c) = cc_platform c" for h q es c
    by (rule fold_same) (simp add: add_mapping_def Let_def)
  have g: "cc_platform (fold (add_group ps x) gs c) = cc_platform c" for x gs c
    by (rule fold_same) (simp add: add_group_def expand_mapping_def e m split: option.split)
  have "cc_platform (fold (\<lambda>ch c. let ch' = normalize_source ch in fold (add_group ps ch') (ch_groups ch') c) chs c) = cc_platform c" for c
    by (rule fold_same) (simp add: Let_def g)
  then show ?thesis by (simp add: populate_cache_def)
qed

text \<open>A configuration that \<open>validateChannelConfig\<close> accepts.\<close>

definition valid_channel :: "channel \<Rightarrow> bool" where
  "valid_channel ch \<longleftrightarrow> validate_config (ch_pricing ch) (ch_mapping ch) = None"

lemma or_error_none [simp]: "or_error a b = None \<longleftrightarrow> a = None \<and> b = None"
  by (simp add: or_error_def split: option.split)

lemma first_error_none: "first_error f xs = None \<longleftrightarrow> (\<forall>x \<in> set xs. f x = None)"
  by (induction xs) (auto split: option.split)

text \<open>No two patterns of the channel match the same model.\<close>

definition unambiguous :: "channel \<Rightarrow> bool" where
  "unambiguous c \<longleftrightarrow> validate_models (ch_pricing c) = None \<and> validate_mappings (ch_mapping c) = None"

lemma valid_unambiguous: "valid_channel c \<Longrightarrow> unambiguous c"
  unfolding valid_channel_def validate_config_def validate_pricing_entries_def unambiguous_def or_error_none by blast

lemma valid_price_rules:
  assumes "unambiguous ch"
  shows "sorted_wrt (\<lambda>a b. \<not> conflicts_between (fst a) (fst b)) (price_rules ch p)"
proof (cases "p \<in> set (row_platforms (ch_pricing ch))")
  case True
  have "map fst (price_rules ch p) = platform_entries (ch_pricing ch) p"
    by (simp add: price_rules_def platform_entries_def map_concat comp_def)
  moreover have "sorted_wrt (\<lambda>a b. \<not> conflicts_between a b) (platform_entries (ch_pricing ch) p)"
  proof (rule detect_none)
    have "validate_models (ch_pricing ch) = None"
      using assms by (simp add: unambiguous_def)
    then show "detect_conflicts p ''MODEL_PATTERN_CONFLICT'' ''model patterns'' (platform_entries (ch_pricing ch) p) = None"
      using True unfolding validate_models_def first_error_none by blast
  qed
  ultimately show ?thesis using sorted_wrt_map [of "\<lambda>a b. \<not> conflicts_between a b" fst "price_rules ch p"] by simp
next
  case False
  then have "price_rules ch p = []"
    by (auto simp: price_rules_def row_platforms_def filter_empty_conv)
  then show ?thesis by simp
qed

lemma valid_mapping_rules:
  assumes "unambiguous ch"
  shows "sorted_wrt (\<lambda>a b. \<not> conflicts_between (fst a) (fst b)) (mapping_rules ch p)"
proof (cases "map_of (ch_mapping ch) p")
  case (Some es)
  then have "(p, es) \<in> set (ch_mapping ch)" by (rule map_of_SomeD)
  then have "sorted_wrt (\<lambda>a b. \<not> conflicts_between a b) (map (\<lambda>e. to_model_entry (fst e)) es)"
  proof (intro detect_none)
    have "validate_mappings (ch_mapping ch) = None" using assms by (simp add: unambiguous_def)
    then show "detect_conflicts p ''MAPPING_PATTERN_CONFLICT'' ''mapping source patterns'' (map (\<lambda>e. to_model_entry (fst e)) es) = None"
      using \<open>(p, es) \<in> set (ch_mapping ch)\<close> unfolding validate_mappings_def first_error_none by fastforce
  qed
  then show ?thesis using Some by (simp add: mapping_rules_def sorted_wrt_map)
qed (simp add: mapping_rules_def)

lemma normalize_rules [simp]:
  "price_rules (normalize_source ch) p = price_rules ch p" "mapping_rules (normalize_source ch) p = mapping_rules ch p"
  "is_active (normalize_source ch) = is_active ch" "ch_id (normalize_source ch) = ch_id ch"
  "ch_restrict (normalize_source ch) = ch_restrict ch"
  by (simp_all add: price_rules_def mapping_rules_def normalize_source_def is_active_def)

text \<open>The channel of a group, and the platform of the group.\<close>

definition linked :: "channel list \<Rightarrow> (int64 \<Rightarrow> string option) \<Rightarrow> int64 \<Rightarrow> channel \<Rightarrow> string \<Rightarrow> bool" where
  "linked chs ps g ch p \<longleftrightarrow> groups_apart chs \<and> ch \<in> set chs \<and> g \<in> set (ch_groups ch) \<and> ps g = Some p"

lemma cached:
  assumes "linked chs ps g ch p"
  shows "lookup_channel (populate_cache n chs ps) g = (if is_active ch then Some (normalize_source ch, p) else None)"
    and "lookup_pricing (populate_cache n chs ps) g p m = looked_up (price_rules ch p) m"
    and "lookup_mapping (populate_cache n chs ps) g p m = (case looked_up (mapping_rules ch p) m of None \<Rightarrow> [] | Some t \<Rightarrow> t)"
proof -
  have l: "groups_apart chs" "ch \<in> set chs" "g \<in> set (ch_groups ch)" "ps g = Some p" using assms by (simp_all add: linked_def)
  then have "platform_of ps g = p" by (simp add: platform_of_def)
  note v = populate_view [OF l(1-3) this [symmetric], of n]
  show "lookup_channel (populate_cache n chs ps) g = (if is_active ch then Some (normalize_source ch, p) else None)"
    using v l(4) by (simp add: group_view_def channel_view_def lookup_channel_def populate_platform platform_of_def)
  show "lookup_pricing (populate_cache n chs ps) g p m = looked_up (price_rules ch p) m"
    using v by (simp add: group_view_def channel_view_def lookup_pricing_def looked_up_def fun_eq_iff over_def split: option.split)
  show "lookup_mapping (populate_cache n chs ps) g p m = (case looked_up (mapping_rules ch p) m of None \<Rightarrow> [] | Some t \<Rightarrow> t)"
    using v by (simp add: group_view_def channel_view_def lookup_mapping_def looked_up_def fun_eq_iff over_def split: option.split)
qed

lemma priced_by_row:
  assumes "linked chs ps g ch p" "unambiguous ch"
  shows "channel_model_pricing (Inr (populate_cache n chs ps)) g model = Some r \<longleftrightarrow>
    is_active ch \<and> r \<in> set (ch_pricing ch) \<and> pw_platform r = p \<and> (\<exists>pat \<in> set (pw_models r). pattern_matches pat model)"
proof -
  have "looked_up (price_rules ch p) (to_lower model) = Some r \<longleftrightarrow>
      r \<in> set (ch_pricing ch) \<and> pw_platform r = p \<and> (\<exists>pat \<in> set (pw_models r). pattern_matches pat model)"
    unfolding looked_up_iff [OF valid_price_rules [OF assms(2)]]
    by (auto simp: price_rules_def pattern_matches_def)
  then show ?thesis by (simp add: channel_model_pricing_def cached [OF assms(1)])
qed

text \<open>
  C26.  The price of a channel for a model, read through the cache: for a group linked to the channel it is the row
  of the group's platform one of whose patterns matches the model, upper and lower case alike, if the channel is active;
  without such a row there is none.
\<close>

theorem channel_price_is_the_matching_row:
  assumes "linked chs ps g ch p" "unambiguous ch"
  shows "channel_model_pricing (Inr (populate_cache n chs ps)) g model = Some r \<longleftrightarrow>
    is_active ch \<and> r \<in> set (ch_pricing ch) \<and> pw_platform r = p \<and> (\<exists>pat \<in> set (pw_models r). pattern_matches pat model)"
  by (rule priced_by_row [OF assms])

lemma channel_restriction_means_no_price:
  assumes "linked chs ps g ch p" "unambiguous ch"
  shows "is_model_restricted (Inr (populate_cache n chs ps)) g model \<longleftrightarrow>
    is_active ch \<and> ch_restrict ch \<and> channel_model_pricing (Inr (populate_cache n chs ps)) g model = None"
  by (simp add: is_model_restricted_def channel_model_pricing_def cached [OF assms(1)])

text \<open>
  The name sent upstream: when a rule of an active channel for the group's platform matches the model, its target
  is sent, and the result names the channel; an empty target maps nothing.
\<close>

theorem channel_mapping_is_the_matching_rule:
  assumes "linked chs ps g ch p" "unambiguous ch"
    and "is_active ch" "distinct (map fst (ch_mapping ch))" "(p, rules) \<in> set (ch_mapping ch)" "(pat, target) \<in> set rules"
    and "pattern_matches pat model"
  shows "resolve_channel_mapping (Inr (populate_cache n chs ps)) g model =
    \<lparr>mg_model = (if target = [] then model else target), mg_channel = ch_id ch, mg_mapped = (target \<noteq> []),
     mg_source = (if ch_source ch = [] then ''channel_mapped'' else ch_source ch)\<rparr>"
proof -
  have "map_of (ch_mapping ch) p = Some rules" using assms(4,5) by simp
  then have "(to_model_entry pat, target) \<in> set (mapping_rules ch p)" using assms(6) by (force simp: mapping_rules_def)
  then have "looked_up (mapping_rules ch p) (to_lower model) = Some target"
    using assms(7) looked_up_iff [OF valid_mapping_rules [OF assms(2)]] by (auto simp: pattern_matches_def)
  then show ?thesis
    using assms(3) by (simp add: resolve_channel_mapping_def cached [OF assms(1)] unmapped_def Let_def normalize_source_def)
qed

subsection \<open>Intervals\<close>

lemma overlap_none:
  assumes "validate_overlap i prev ivs = None" "sorted_wrt (\<lambda>a b. pi_min a \<le> pi_min b) ivs"
  shows "sorted_wrt (\<lambda>a b. \<exists>m. pi_max a = Some m \<and> m \<le> pi_min b) ivs \<and>
    (case prev of None \<Rightarrow> True | Some p \<Rightarrow> \<forall>b \<in> set ivs. \<exists>m. pi_max p = Some m \<and> m \<le> pi_min b)"
  using assms
proof (induction i prev ivs rule: validate_overlap.induct)
  case (2 i prev iv ivs)
  then show ?case by (auto split: if_splits option.splits)
qed (simp split: option.split)


end
