(* ===== verification/ChannelStore.thy ===== *)
theory ChannelStore
  imports ChannelLookup Store
begin

section \<open>Stored channels and their cache\<close>

text \<open>
  The tables of \<open>repository/channel_repo.go\<close> and the calls of \<open>service/channel_service.go\<close> on them, statement by
  statement: other requests run between two statements, and each may fail.  The cache is the process's own
  memory, kept beside the tables; the others may replace it too.  Columns hold prices exactly, a row of prices is
  written with its intervals, a rule of the statistics is one row.  Sharing one load among requests
  (\<open>singleflight\<close>) and the invalidation of cached keys are left out.
\<close>

subsection \<open>Tables\<close>

record channel_tables =
  ct_channels :: "channel list"
  ct_groups :: "(int64 \<times> string) list"
  ct_next :: int64
  ct_next_row :: int64
  ct_cache :: "channel_cache option"

type_synonym channel_db = "channel_tables store"

definition channel_exists :: app_error where
  "channel_exists = conflict_error ''CHANNEL_EXISTS'' ''channel name already exists''"

definition channel_not_found :: app_error where
  "channel_not_found = not_found ''CHANNEL_NOT_FOUND'' ''channel not found''"

definition group_already_in_channel :: app_error where
  "group_already_in_channel = conflict_error ''GROUP_ALREADY_IN_CHANNEL'' ''one or more groups already belong to another channel''"

definition unique_violation :: go_error where
  "unique_violation = Plain ''duplicate key value violates unique constraint''"

definition query :: "(channel_tables \<Rightarrow> 'a) \<Rightarrow> (channel_db, 'a) fallible" where
  "query f = stmt (\<lambda>t. (Inr (f t), t))"

definition row_of :: "channel \<Rightarrow> channel" where
  "row_of c = c\<lparr>ch_groups := [], ch_pricing := [], ch_rules := []\<rparr>"

definition find_channel :: "int64 \<Rightarrow> channel_tables \<Rightarrow> channel option" where
  "find_channel i t = List.find (\<lambda>c. ch_id c = i) (ct_channels t)"

definition on_channel :: "int64 \<Rightarrow> (channel \<Rightarrow> channel) \<Rightarrow> channel_tables \<Rightarrow> channel_tables" where
  "on_channel i f t = t\<lparr>ct_channels := map (\<lambda>c. if ch_id c = i then f c else c) (ct_channels t)\<rparr>"

definition without_intervals :: "price_row \<Rightarrow> price_row" where
  "without_intervals r = r\<lparr>pw_price := (pw_price r)\<lparr>cp_intervals := []\<rparr>\<rparr>"

definition sql_rows :: "channel_tables \<Rightarrow> channel list" where
  "sql_rows t = map row_of (ct_channels t)"

definition sql_group_ids :: "int64 list \<Rightarrow> channel_tables \<Rightarrow> (int64 \<times> int64 list) list" where
  "sql_group_ids is t = map (\<lambda>c. (ch_id c, sort (ch_groups c))) (filter (\<lambda>c. ch_id c \<in> set is) (ct_channels t))"

definition sql_price_rows :: "int64 list \<Rightarrow> channel_tables \<Rightarrow> (int64 \<times> price_row list) list" where
  "sql_price_rows is t = map (\<lambda>c. (ch_id c, map without_intervals (ch_pricing c))) (filter (\<lambda>c. ch_id c \<in> set is) (ct_channels t))"

definition sql_intervals :: "int64 list \<Rightarrow> channel_tables \<Rightarrow> (int64 \<times> price_interval list) list" where
  "sql_intervals is t = map (\<lambda>r. (pw_id r, cp_intervals (pw_price r)))
     (filter (\<lambda>r. pw_id r \<in> set is) (concat (map ch_pricing (ct_channels t))))"

definition sql_rules :: "int64 list \<Rightarrow> channel_tables \<Rightarrow> (int64 \<times> price_row list list) list" where
  "sql_rules is t = map (\<lambda>c. (ch_id c, ch_rules c)) (filter (\<lambda>c. ch_id c \<in> set is) (ct_channels t))"

definition sql_group_platforms :: "int64 list \<Rightarrow> channel_tables \<Rightarrow> (int64 \<times> string) list" where
  "sql_group_platforms is t = filter (\<lambda>g. fst g \<in> set is) (ct_groups t)"

definition entries_of :: "(int64 \<times> 'a list) list \<Rightarrow> int64 \<Rightarrow> 'a list" where
  "entries_of m i = (case map_of m i of None \<Rightarrow> [] | Some xs \<Rightarrow> xs)"

text \<open>Rows of prices, then their intervals.\<close>

definition load_pricing :: "string \<Rightarrow> int64 list \<Rightarrow> (channel_db, (int64 \<times> price_row list) list) fallible" where
  "load_pricing what is = tryM (Wrapped what) (query (sql_price_rows is)) (\<lambda>ps.
     let ids = concat (map (\<lambda>e. map pw_id (snd e)) ps) in
     if ids = [] then okM ps
     else tryM (Wrapped ''batch load intervals'') (query (sql_intervals ids)) (\<lambda>ivs.
       okM (map (\<lambda>(i, rs). (i, map (\<lambda>r. r\<lparr>pw_price := (pw_price r)\<lparr>cp_intervals := entries_of ivs (pw_id r)\<rparr>\<rparr>) rs)) ps)))"

definition list_all_channels :: "(channel_db, channel list) fallible" where
  "list_all_channels = tryM (Wrapped ''query all channels'') (query sql_rows) (\<lambda>rows.
     let is = map ch_id rows in
     if is = [] then okM rows
     else tryM (Wrapped ''batch load group ids'') (query (sql_group_ids is)) (\<lambda>gs.
       tryM (\<lambda>e. e) (load_pricing ''batch load model pricing'' is) (\<lambda>ps.
       tryM (Wrapped ''batch load account stats pricing rules'') (query (sql_rules is)) (\<lambda>rs.
         okM (map (\<lambda>c. c\<lparr>ch_groups := entries_of gs (ch_id c), ch_pricing := entries_of ps (ch_id c),
           ch_rules := entries_of rs (ch_id c)\<rparr>) rows)))))"

definition get_channel :: "int64 \<Rightarrow> (channel_db, channel) fallible" where
  "get_channel i = tryM (Wrapped ''get channel'') (query (\<lambda>t. map_option row_of (find_channel i t))) (\<lambda>r.
     case r of
       None \<Rightarrow> failM (App channel_not_found)
     | Some c \<Rightarrow> tryM (Wrapped ''get group ids'') (query (sql_group_ids [i])) (\<lambda>gs.
         tryM (\<lambda>e. e) (load_pricing ''list model pricing'' [i]) (\<lambda>ps.
         tryM (Wrapped ''batch load account stats pricing rules'') (query (sql_rules [i])) (\<lambda>rs.
           okM (c\<lparr>ch_groups := entries_of gs i, ch_pricing := entries_of ps i, ch_rules := entries_of rs i\<rparr>)))))"

subsection \<open>Writing\<close>

definition sql_insert_channel :: "channel \<Rightarrow> channel_tables \<Rightarrow> (go_error + int64) \<times> channel_tables" where
  "sql_insert_channel c t =
     (if \<exists>d \<in> set (ct_channels t). ch_name d = ch_name c then (Inl (App channel_exists), t)
      else (Inr (ct_next t), t\<lparr>ct_channels := ct_channels t @ [(row_of c)\<lparr>ch_id := ct_next t\<rparr>], ct_next := ct_next t + 1\<rparr>))"

definition sql_update_channel :: "channel \<Rightarrow> channel_tables \<Rightarrow> (go_error + bool) \<times> channel_tables" where
  "sql_update_channel c t =
     (if \<exists>d \<in> set (ct_channels t). ch_id d \<noteq> ch_id c \<and> ch_name d = ch_name c \<and> find_channel (ch_id c) t \<noteq> None
      then (Inl (App channel_exists), t)
      else (Inr (find_channel (ch_id c) t \<noteq> None), on_channel (ch_id c) (\<lambda>d. c\<lparr>ch_groups := ch_groups d,
        ch_pricing := ch_pricing d, ch_rules := ch_rules d\<rparr>) t))"

definition sql_insert_groups :: "int64 \<Rightarrow> int64 list \<Rightarrow> channel_tables \<Rightarrow> (go_error + unit) \<times> channel_tables" where
  "sql_insert_groups i gs t =
     (if \<not> distinct gs \<or> (\<exists>g \<in> set gs. g \<in> set (concat (map ch_groups (ct_channels t)))) then (Inl unique_violation, t)
      else if \<exists>g \<in> set gs. map_of (ct_groups t) g = None then (Inl (Plain ''violates foreign key constraint''), t)
      else (Inr (), on_channel i (\<lambda>c. c\<lparr>ch_groups := ch_groups c @ gs\<rparr>) t))"

definition stored_row :: "int64 \<Rightarrow> price_row \<Rightarrow> price_row" where
  "stored_row i r = r\<lparr>pw_id := i, pw_platform := (if pw_platform r = [] then ''anthropic'' else pw_platform r),
     pw_price := (pw_price r)\<lparr>cp_mode := (if cp_mode (pw_price r) = [] then ''token'' else cp_mode (pw_price r))\<rparr>\<rparr>"

definition sql_insert_price :: "int64 \<Rightarrow> price_row \<Rightarrow> channel_tables \<Rightarrow> (go_error + unit) \<times> channel_tables" where
  "sql_insert_price i r t = (Inr (), (on_channel i (\<lambda>c. c\<lparr>ch_pricing := ch_pricing c @ [stored_row (ct_next_row t) r]\<rparr>) t)
     \<lparr>ct_next_row := ct_next_row t + 1\<rparr>)"

fun each_try :: "(go_error \<Rightarrow> go_error) \<Rightarrow> ('a \<Rightarrow> ('s, unit) fallible) \<Rightarrow> 'a list \<Rightarrow> ('s, unit) fallible" where
  "each_try w f [] = okM ()"
| "each_try w f (x # xs) = tryM w (f x) (\<lambda>_. each_try w f xs)"

definition set_group_ids :: "int64 \<Rightarrow> int64 list \<Rightarrow> (channel_db, unit) fallible" where
  "set_group_ids i gs = tryM (Wrapped ''delete old group associations'')
     (stmt (\<lambda>t. (Inr (), on_channel i (\<lambda>c. c\<lparr>ch_groups := []\<rparr>) t))) (\<lambda>_.
     if gs = [] then okM ()
     else tryM (Wrapped ''insert group associations'') (stmt (sql_insert_groups i gs)) okM)"

definition replace_pricing :: "int64 \<Rightarrow> price_row list \<Rightarrow> (channel_db, unit) fallible" where
  "replace_pricing i ps = tryM (Wrapped ''delete old model pricing'')
     (stmt (\<lambda>t. (Inr (), on_channel i (\<lambda>c. c\<lparr>ch_pricing := []\<rparr>) t))) (\<lambda>_.
     each_try (\<lambda>e. Wrapped ''insert model pricing'' (Wrapped ''insert model pricing'' e)) (\<lambda>r. stmt (sql_insert_price i r)) ps)"

definition replace_rules :: "int64 \<Rightarrow> price_row list list \<Rightarrow> (channel_db, unit) fallible" where
  "replace_rules i rs = tryM (Wrapped ''delete old account stats pricing rules'')
     (stmt (\<lambda>t. (Inr (), on_channel i (\<lambda>c. c\<lparr>ch_rules := []\<rparr>) t))) (\<lambda>_.
     each_try (Wrapped ''insert account stats pricing rule'')
       (\<lambda>r. stmt (\<lambda>t. (Inr (), on_channel i (\<lambda>c. c\<lparr>ch_rules := ch_rules c @ [r]\<rparr>) t))) rs)"

definition unless_empty :: "'a list \<Rightarrow> (channel_db, unit) fallible \<Rightarrow> (channel_db, unit) fallible" where
  "unless_empty xs m = (if xs = [] then okM () else m)"

definition not_app :: "(go_error \<Rightarrow> go_error) \<Rightarrow> go_error \<Rightarrow> go_error" where
  "not_app w e = (case e of App a \<Rightarrow> App a | _ \<Rightarrow> w e)"

definition repo_create :: "channel \<Rightarrow> (channel_db, int64) fallible" where
  "repo_create c = in_tx (Wrapped ''begin tx'') (\<lambda>e. e)
     (tryM (not_app (Wrapped ''insert channel'')) (stmt (sql_insert_channel c)) (\<lambda>i.
       tryM (\<lambda>e. e) (unless_empty (ch_groups c) (set_group_ids i (ch_groups c))) (\<lambda>_.
       tryM (\<lambda>e. e) (unless_empty (ch_pricing c) (replace_pricing i (ch_pricing c))) (\<lambda>_.
       tryM (\<lambda>e. e) (unless_empty (ch_rules c) (replace_rules i (ch_rules c))) (\<lambda>_. okM i)))))"

text \<open>A slice that is \<open>nil\<close>, here \<open>None\<close>, leaves what is stored.\<close>

definition when_set :: "'a list option \<Rightarrow> ('a list \<Rightarrow> (channel_db, unit) fallible) \<Rightarrow> (channel_db, unit) fallible" where
  "when_set x f = (case x of None \<Rightarrow> okM () | Some v \<Rightarrow> f v)"

definition repo_update ::
  "channel \<Rightarrow> int64 list option \<Rightarrow> price_row list option \<Rightarrow> price_row list list option \<Rightarrow> (channel_db, unit) fallible" where
  "repo_update c gs ps rs = in_tx (Wrapped ''begin tx'') (\<lambda>e. e)
     (tryM (not_app (Wrapped ''update channel'')) (stmt (sql_update_channel c)) (\<lambda>found.
       if \<not> found then failM (App channel_not_found)
       else tryM (\<lambda>e. e) (when_set gs (set_group_ids (ch_id c))) (\<lambda>_.
         tryM (\<lambda>e. e) (when_set ps (replace_pricing (ch_id c))) (\<lambda>_.
         tryM (\<lambda>e. e) (when_set rs (replace_rules (ch_id c))) (\<lambda>_. okM ())))))"

definition repo_delete :: "int64 \<Rightarrow> (channel_db, unit) fallible" where
  "repo_delete i = tryM (Wrapped ''delete channel'')
     (stmt (\<lambda>t. (Inr (find_channel i t \<noteq> None), t\<lparr>ct_channels := filter (\<lambda>c. ch_id c \<noteq> i) (ct_channels t)\<rparr>)))
     (\<lambda>found. if found then okM () else failM (App channel_not_found))"

subsection \<open>The cache\<close>

definition cache_ttl :: duration where
  "cache_ttl = 10 * minute"

definition error_ttl :: duration where
  "error_ttl = 5 * second"

definition set_cache :: "channel_cache option \<Rightarrow> (channel_db, unit) state" where
  "set_cache c = State (\<lambda>s. ((), s\<lparr>st_tabs := (st_tabs s)\<lparr>ct_cache := c\<rparr>\<rparr>))"

definition store_error_cache :: "time \<Rightarrow> (channel_db, unit) state" where
  "store_error_cache n = set_cache (Some (empty_cache (n - (cache_ttl - error_ttl))))"

definition fetch_channel_data :: "time \<Rightarrow> (channel_db, channel list \<times> (int64 \<times> string) list) fallible" where
  "fetch_channel_data n = do {
     r \<leftarrow> list_all_channels;
     (case r of
        Inl e \<Rightarrow> do { _ \<leftarrow> store_error_cache n; failM (Wrapped ''list all channels'' e) }
      | Inr chs \<Rightarrow>
          let is = concat (map ch_groups chs) in
          if is = [] then okM (chs, [])
          else do { p \<leftarrow> query (sql_group_platforms is);
            (case p of
               Inl e \<Rightarrow> do { _ \<leftarrow> store_error_cache n;
                 failM (Wrapped ''get group platforms'' (Wrapped ''get group platforms'' e)) }
             | Inr ps \<Rightarrow> okM (chs, ps)) }) }"

definition build_cache :: "time \<Rightarrow> (channel_db, channel_cache) fallible" where
  "build_cache n = tryM (\<lambda>e. e) (fetch_channel_data n) (\<lambda>(chs, ps).
     let c = populate_cache n chs (map_of ps) in do { _ \<leftarrow> set_cache (Some c); okM c })"

definition load_cache :: "time \<Rightarrow> (channel_db, channel_cache) fallible" where
  "load_cache n = do {
     cached \<leftarrow> peek ct_cache;
     (case cached of
        Some c \<Rightarrow> if n - cc_loaded c < cache_ttl then okM c else build_cache n
      | None \<Rightarrow> build_cache n) }"

definition invalidate_cache :: "time \<Rightarrow> (channel_db, unit) state" where
  "invalidate_cache n = do { _ \<leftarrow> set_cache None; _ \<leftarrow> build_cache n; State_Monad.return () }"

subsection \<open>Operations\<close>

definition check_group_conflicts :: "int64 \<Rightarrow> int64 list \<Rightarrow> (channel_db, unit) fallible" where
  "check_group_conflicts i gs =
     (if gs = [] then okM ()
      else tryM (\<lambda>e. Wrapped ''check group conflicts'' (Wrapped ''get groups in other channels'' e))
        (query (\<lambda>t. filter (\<lambda>g. g \<in> set gs) (concat (map ch_groups (filter (\<lambda>c. ch_id c \<noteq> i) (ct_channels t))))))
        (\<lambda>xs. if xs = [] then okM () else failM (App group_already_in_channel)))"

fun validate_rules :: "nat \<Rightarrow> price_row list list \<Rightarrow> go_error option" where
  "validate_rules i [] = None"
| "validate_rules i (r # rs) = (case validate_pricing_entries r of
     Some e \<Rightarrow> Some (Wrapped (''account stats pricing rule #'' @ itoa (int i + 1)) (App e))
   | None \<Rightarrow> validate_rules (i + 1) rs)"

definition validate_channel :: "channel \<Rightarrow> go_error option" where
  "validate_channel c = (case validate_config (ch_pricing c) (ch_mapping c) of
     Some e \<Rightarrow> Some (App e) | None \<Rightarrow> validate_rules 0 (ch_rules c))"

definition create_channel :: "time \<Rightarrow> channel \<Rightarrow> (channel_db, channel) fallible" where
  "create_channel n input = tryM (Wrapped ''check channel exists'')
     (query (\<lambda>t. \<exists>c \<in> set (ct_channels t). ch_name c = ch_name input)) (\<lambda>taken.
     if taken then failM (App channel_exists)
     else tryM (\<lambda>e. e) (check_group_conflicts 0 (ch_groups input)) (\<lambda>_.
       let c = normalize_source (input\<lparr>ch_status := ''active''\<rparr>) in
       case validate_channel c of
         Some e \<Rightarrow> failM e
       | None \<Rightarrow> tryM (Wrapped ''create channel'') (repo_create c) (\<lambda>i. do {
           _ \<leftarrow> invalidate_cache n;
           tryM (\<lambda>e. e) (get_channel i) (\<lambda>c. okM (normalize_source c)) })))"

record channel_update =
  cu_name :: string
  cu_status :: string
  cu_restrict :: "bool option"
  cu_groups :: "int64 list option"
  cu_pricing :: "price_row list option"
  cu_mapping :: "(string \<times> (string \<times> string) list) list option"
  cu_source :: string
  cu_rules :: "price_row list list option"

definition given :: "'a \<Rightarrow> 'a option \<Rightarrow> 'a" where
  "given x v = (case v of None \<Rightarrow> x | Some y \<Rightarrow> y)"

definition apply_update :: "channel \<Rightarrow> channel_update \<Rightarrow> (channel_db, channel) fallible" where
  "apply_update c u =
     tryM (\<lambda>e. e)
       (if cu_name u \<noteq> [] \<and> cu_name u \<noteq> ch_name c
        then tryM (Wrapped ''check channel exists'')
          (query (\<lambda>t. \<exists>d \<in> set (ct_channels t). ch_name d = cu_name u \<and> ch_id d \<noteq> ch_id c))
          (\<lambda>taken. if taken then failM (App channel_exists) else okM (c\<lparr>ch_name := cu_name u\<rparr>))
        else okM c)
       (\<lambda>c. tryM (\<lambda>e. e) (case cu_groups u of None \<Rightarrow> okM () | Some gs \<Rightarrow> check_group_conflicts (ch_id c) gs) (\<lambda>_.
         okM (c\<lparr>ch_status := (if cu_status u = [] then ch_status c else cu_status u),
           ch_restrict := given (ch_restrict c) (cu_restrict u),
           ch_groups := given (ch_groups c) (cu_groups u),
           ch_pricing := given (ch_pricing c) (cu_pricing u),
           ch_mapping := given (ch_mapping c) (cu_mapping u),
           ch_source := (if cu_source u = [] then ch_source c else cu_source u),
           ch_rules := given (ch_rules c) (cu_rules u)\<rparr>)))"

definition slice :: "'a list option \<Rightarrow> 'a list \<Rightarrow> 'a list option" where
  "slice given_value stored = (case given_value of Some v \<Rightarrow> Some v | None \<Rightarrow> if stored = [] then None else Some stored)"

definition update_channel :: "time \<Rightarrow> int64 \<Rightarrow> channel_update \<Rightarrow> (channel_db, channel) fallible" where
  "update_channel n i u = tryM (Wrapped ''get channel'') (get_channel i) (\<lambda>old.
     tryM (\<lambda>e. e) (apply_update old u) (\<lambda>c.
       case validate_channel c of
         Some e \<Rightarrow> failM e
       | None \<Rightarrow> do {
           _ \<leftarrow> query (sql_group_ids [i]);
           tryM (Wrapped ''update channel'') (repo_update c (slice (cu_groups u) (ch_groups old))
               (slice (cu_pricing u) (ch_pricing old)) (slice (cu_rules u) (ch_rules old))) (\<lambda>_. do {
             _ \<leftarrow> invalidate_cache n;
             tryM (\<lambda>e. e) (get_channel i) (\<lambda>c. okM (normalize_source c)) }) }))"

definition delete_channel :: "time \<Rightarrow> int64 \<Rightarrow> (channel_db, unit) fallible" where
  "delete_channel n i = do {
     _ \<leftarrow> query (sql_group_ids [i]);
     tryM (Wrapped ''delete channel'') (repo_delete i) (\<lambda>_. do { _ \<leftarrow> invalidate_cache n; okM () }) }"

end
