(* ===== verification/ChannelInvariant.thy ===== *)
theory ChannelInvariant
  imports ChannelStore
begin

section \<open>Stored channels stay in order\<close>

text \<open>
  The invariant of the tables and of the cache, and a rule for each piece of the calls: reads in several
  statements between which others write, transactions that replace the rows of a channel one by one, and the cache that
  is built from what was read.
\<close>


subsection \<open>What every call keeps\<close>

definition platforms_set :: "price_row list \<Rightarrow> bool" where
  "platforms_set ps \<longleftrightarrow> (\<forall>r \<in> set ps. pw_platform r \<noteq> [])"

definition tables_ok :: "channel_tables \<Rightarrow> bool" where
  "tables_ok t \<longleftrightarrow> distinct (map ch_id (ct_channels t)) \<and>
     (\<forall>c \<in> set (ct_channels t). ch_id c < ct_next t \<and> valid_channel c \<and> platforms_set (ch_pricing c)) \<and>
     groups_apart (ct_channels t)"

definition cache_ok :: "channel_cache \<Rightarrow> bool" where
  "cache_ok c \<longleftrightarrow> (\<exists>n chs ps. c = populate_cache n chs ps \<and> groups_apart chs \<and> (\<forall>ch \<in> set chs. unambiguous ch))"

definition channels_ok :: "channel_tables \<Rightarrow> bool" where
  "channels_ok t \<longleftrightarrow> tables_ok t \<and> (case ct_cache t of None \<Rightarrow> True | Some c \<Rightarrow> cache_ok c)"

definition keeps_channels :: "channel_tables \<Rightarrow> channel_tables \<Rightarrow> bool" where
  "keeps_channels t u \<longleftrightarrow> (channels_ok t \<longrightarrow> channels_ok u)"

interpretation chan: rely_guarantee keeps_channels
  by unfold_locales (auto simp: keeps_channels_def)

lemma stable_ok: "stable keeps_channels channels_ok"
  by (simp add: stable_def keeps_channels_def)

lemma stable_ok_and: "stable keeps_channels (\<lambda>t. channels_ok t \<and> K)"
  by (simp add: stable_def keeps_channels_def)

subsection \<open>Reading\<close>

text \<open>Code that keeps the tables and whose answers satisfy \<open>F\<close>.\<close>

definition answers :: "('a \<Rightarrow> bool) \<Rightarrow> (channel_db, 'a) fallible \<Rightarrow> bool" where
  "answers F m \<longleftrightarrow> rg keeps_channels channels_ok m
     (\<lambda>r t. channels_ok t \<and> (case r of Inl _ \<Rightarrow> True | Inr a \<Rightarrow> F a))"

lemma answers_return: "F a \<Longrightarrow> answers F (okM a)"
  unfolding answers_def by (rule chan.return_rule) simp

lemma answers_fail: "answers F (failM e)"
  unfolding answers_def by (rule chan.return_rule) simp

lemma answers_query: "(\<And>t. channels_ok t \<Longrightarrow> F (f t)) \<Longrightarrow> answers F (query f)"
  unfolding answers_def query_def by (rule chan.stmt_rule [OF stable_ok]) (auto simp: keeps_channels_def)

lemma answers_try:
  assumes "answers G m" and "\<And>a. G a \<Longrightarrow> answers F (k a)"
  shows "answers F (tryM w m k)"
  unfolding answers_def
proof (rule chan.try_rule [where S = "\<lambda>a t. channels_ok t \<and> G a"])
  show "rg keeps_channels channels_ok m
      (\<lambda>r t. case r of Inl e \<Rightarrow> channels_ok t \<and> (case Inl (w e) of Inl _ \<Rightarrow> True | Inr a \<Rightarrow> F a) | Inr a \<Rightarrow> channels_ok t \<and> G a)"
    by (rule rg_conseq [OF assms(1) [unfolded answers_def]]) (auto split: sum.splits)
  show "rg keeps_channels (\<lambda>t. channels_ok t \<and> G a) (k a) (\<lambda>r t. channels_ok t \<and> (case r of Inl _ \<Rightarrow> True | Inr a \<Rightarrow> F a))" for a
    by (rule rg_pre [where b = "G a"]) (auto intro: rg_conseq [OF assms(2) [unfolded answers_def]])
qed

lemma answers_bind:
  assumes "answers G m" and "\<And>r. (\<And>a. r = Inr a \<Longrightarrow> G a) \<Longrightarrow> answers F (k r)"
  shows "answers F (State_Monad.bind m k)"
  unfolding answers_def
  apply (rule chan.bind_rule [OF assms(1) [unfolded answers_def]])
  subgoal for r
    apply (rule rg_pre [where b = "case r of Inl _ \<Rightarrow> True | Inr a \<Rightarrow> G a"], erule conjunct2)
    apply (rule rg_conseq [OF assms(2) [unfolded answers_def]])
      apply (auto split: sum.splits)
    done
  done

lemma answers_if: "(b \<Longrightarrow> answers F m) \<Longrightarrow> (\<not> b \<Longrightarrow> answers F n) \<Longrightarrow> answers F (if b then m else n)"
  by simp

lemma answers_sum:
  "(\<And>e. r = Inl e \<Longrightarrow> answers F (f e)) \<Longrightarrow> (\<And>a. r = Inr a \<Longrightarrow> answers F (g a)) \<Longrightarrow>
   answers F (case r of Inl e \<Rightarrow> f e | Inr a \<Rightarrow> g a)"
  by (cases r) simp_all

lemma answers_weaken: "answers G m \<Longrightarrow> (\<And>a. G a \<Longrightarrow> F a) \<Longrightarrow> answers F m"
  unfolding answers_def by (erule rg_conseq) (auto split: sum.splits)

lemma apart_two:
  assumes "groups_apart chs" "c \<in> set chs" "d \<in> set chs"
  shows "distinct (ch_groups c)" "c \<noteq> d \<Longrightarrow> set (ch_groups c) \<inter> set (ch_groups d) = {}"
proof -
  show "distinct (ch_groups c)" using assms(1,2) by (induction chs) (auto simp: groups_apart_def)
  show "c \<noteq> d \<Longrightarrow> set (ch_groups c) \<inter> set (ch_groups d) = {}"
    using assms by (induction chs) (auto simp: groups_apart_def)
qed

lemma apartI:
  assumes "distinct (map ch_id chs)" "\<And>c. c \<in> set chs \<Longrightarrow> distinct (ch_groups c)"
    and "\<And>c d. c \<in> set chs \<Longrightarrow> d \<in> set chs \<Longrightarrow> ch_id c \<noteq> ch_id d \<Longrightarrow> set (ch_groups c) \<inter> set (ch_groups d) = {}"
  shows "groups_apart chs"
  using assms
proof (induction chs)
  case (Cons c chs)
  have "groups_apart chs" using Cons by simp
  moreover have "set (ch_groups c) \<inter> set (ch_groups d) = {}" if "d \<in> set chs" for d
    using that Cons.prems by (metis distinct.simps(2) list.set_intros list.set_map list.simps(9) image_eqI)
  ultimately show ?case using Cons.prems(2) by (auto simp: groups_apart_def)
qed (simp add: groups_apart_def)

lemma entries_of_some: "x \<in> set (entries_of m i) \<Longrightarrow> \<exists>xs. (i, xs) \<in> set m \<and> entries_of m i = xs"
  by (auto simp: entries_of_def dest: map_of_SomeD split: option.splits)

lemma entries_cases: "entries_of m i = [] \<or> (i, entries_of m i) \<in> set m"
  by (auto simp: entries_of_def dest: map_of_SomeD split: option.splits)

definition groups_read :: "(int64 \<times> int64 list) list \<Rightarrow> bool" where
  "groups_read gs \<longleftrightarrow> (\<forall>i. distinct (entries_of gs i)) \<and> (\<forall>i j. i \<noteq> j \<longrightarrow> set (entries_of gs i) \<inter> set (entries_of gs j) = {})"

definition prices_read :: "(int64 \<times> price_row list) list \<Rightarrow> bool" where
  "prices_read ps \<longleftrightarrow> (\<forall>(i, rs) \<in> set ps. validate_models rs = None)"

definition rows_read :: "channel list \<Rightarrow> bool" where
  "rows_read rows \<longleftrightarrow> distinct (map ch_id rows) \<and> (\<forall>c \<in> set rows. validate_mappings (ch_mapping c) = None)"

lemma ok_tables:
  assumes "channels_ok t"
  shows "distinct (map ch_id (ct_channels t))" "groups_apart (ct_channels t)" "c \<in> set (ct_channels t) \<Longrightarrow> unambiguous c"
  using assms by (auto simp: channels_ok_def tables_ok_def intro: valid_unambiguous)

lemma read_rows: "channels_ok t \<Longrightarrow> rows_read (sql_rows t)"
  using ok_tables by (auto simp: rows_read_def sql_rows_def row_of_def unambiguous_def comp_def)

lemma read_groups:
  assumes "channels_ok t"
  shows "groups_read (sql_group_ids is t)"
proof -
  note ok = ok_tables [OF assms]
  have mem: "\<exists>c \<in> set (ct_channels t). ch_id c = i \<and> entries_of (sql_group_ids is t) i = sort (ch_groups c)"
    if "entries_of (sql_group_ids is t) i \<noteq> []" for i
    using that entries_cases [of "sql_group_ids is t" i] by (auto simp: sql_group_ids_def)
  show ?thesis
    unfolding groups_read_def
  proof (intro conjI allI impI)
    show "distinct (entries_of (sql_group_ids is t) i)" for i
      using mem [of i] apart_two(1) [OF ok(2)] by (cases "entries_of (sql_group_ids is t) i = []") auto
    show "set (entries_of (sql_group_ids is t) i) \<inter> set (entries_of (sql_group_ids is t) j) = {}" if "i \<noteq> j" for i j
    proof (cases "entries_of (sql_group_ids is t) i = [] \<or> entries_of (sql_group_ids is t) j = []")
      case False
      then obtain c d where "c \<in> set (ct_channels t)" "d \<in> set (ct_channels t)" "ch_id c = i" "ch_id d = j"
        "entries_of (sql_group_ids is t) i = sort (ch_groups c)" "entries_of (sql_group_ids is t) j = sort (ch_groups d)"
        using mem by meson
      then show ?thesis using apart_two(2) [OF ok(2), of c d] that by auto
    qed auto
  qed
qed

lemma models_map:
  assumes "\<And>r. pw_platform (f r) = pw_platform r \<and> pw_models (f r) = pw_models r"
  shows "validate_models (map f rs) = validate_models rs"
proof -
  have "platform_entries (map f rs) p = platform_entries rs p" for p
    by (simp add: platform_entries_def filter_map comp_def assms)
  moreover have "row_platforms (map f rs) = row_platforms rs"
    by (simp add: row_platforms_def filter_map comp_def assms)
  ultimately show ?thesis by (simp add: validate_models_def)
qed

lemma read_prices: "channels_ok t \<Longrightarrow> prices_read (sql_price_rows is t)"
  using ok_tables(3) by (auto simp: prices_read_def sql_price_rows_def unambiguous_def without_intervals_def models_map)

lemma load_pricing_answers: "answers prices_read (load_pricing what is)"
proof -
  have "prices_read (map (\<lambda>(i, rs). (i, map (\<lambda>r. r\<lparr>pw_price := f r\<rparr>) rs)) ps) = prices_read ps" for f ps
    by (auto simp: prices_read_def models_map)
  then show ?thesis
    unfolding load_pricing_def Let_def
    by (intro answers_try [OF answers_query [where F = prices_read]] answers_if answers_return
        answers_try [OF answers_query [where F = "\<lambda>_. True"]] read_prices) simp_all
qed

lemma entries_valid: "prices_read ps \<Longrightarrow> validate_models (entries_of ps i) = None"
  using entries_cases [of ps i] by (auto simp: prices_read_def validate_models_def row_platforms_def)

definition loaded_ok :: "channel list \<Rightarrow> bool" where
  "loaded_ok chs \<longleftrightarrow> groups_apart chs \<and> (\<forall>c \<in> set chs. unambiguous c)"

lemma assembled:
  assumes "rows_read rows" "groups_read gs" "prices_read ps"
  shows "loaded_ok (map (\<lambda>c. c\<lparr>ch_groups := entries_of gs (ch_id c), ch_pricing := entries_of ps (ch_id c),
    ch_rules := entries_of rs (ch_id c)\<rparr>) rows)" (is "loaded_ok (map ?f rows)")
proof -
  have "groups_apart (map ?f rows)"
  proof (rule apartI)
    fix c d assume "c \<in> set (map ?f rows)" "d \<in> set (map ?f rows)" "ch_id c \<noteq> ch_id d"
    then have "ch_groups c = entries_of gs (ch_id c)" "ch_groups d = entries_of gs (ch_id d)" by auto
    then show "set (ch_groups c) \<inter> set (ch_groups d) = {}"
      using assms(2) \<open>ch_id c \<noteq> ch_id d\<close> unfolding groups_read_def by metis
  qed (use assms(1,2) in \<open>auto simp: rows_read_def groups_read_def comp_def\<close>)
  moreover have "\<forall>c \<in> set (map ?f rows). unambiguous c"
    using assms(1) entries_valid [OF assms(3)] by (auto simp: unambiguous_def rows_read_def)
  ultimately show ?thesis by (simp add: loaded_ok_def)
qed

lemma list_all_answers: "answers loaded_ok list_all_channels"
  unfolding list_all_channels_def Let_def
  apply (rule answers_try [OF answers_query [where F = rows_read and f = sql_rows]], erule read_rows)
  apply (rule answers_if)
   apply (rule answers_return, simp add: loaded_ok_def groups_apart_def)
  apply (rule answers_try [OF answers_query [where F = groups_read]], erule read_groups)
  apply (rule answers_try [OF load_pricing_answers])
  apply (rule answers_try [OF answers_query [where F = "\<lambda>_. True"]], simp)
  apply (rule answers_return, rule assembled; assumption)
  done

lemma get_channel_answers: "answers (\<lambda>c. ch_id c = i) (get_channel i)"
  unfolding get_channel_def
  by (rule answers_try [OF answers_query [where F = "\<lambda>r. \<forall>c. r = Some c \<longrightarrow> ch_id c = i"]])
    (auto simp: find_channel_def find_Some_iff row_of_def split: option.split intro!: answers_fail answers_return
       answers_try [OF load_pricing_answers] answers_try [OF answers_query [where F = "\<lambda>_. True"]])

subsection \<open>The cache\<close>

lemma set_cache_answers:
  assumes "case c of None \<Rightarrow> True | Some d \<Rightarrow> cache_ok d"
  shows "rg keeps_channels channels_ok (set_cache c) (\<lambda>_. channels_ok)"
  using assms by (auto simp: rg_def set_cache_def keeps_channels_def channels_ok_def tables_ok_def split: option.split)

lemma empty_ok: "cache_ok (empty_cache n)"
  unfolding cache_ok_def
  by (rule exI [of _ n], rule exI [of _ "[]"], rule exI [of _ "\<lambda>_. None"])
    (simp add: populate_cache_def empty_cache_def groups_apart_def)

lemma after_set:
  assumes "case c of None \<Rightarrow> True | Some d \<Rightarrow> cache_ok d" "answers F m"
  shows "answers F (do { _ \<leftarrow> set_cache c; m })"
  unfolding answers_def
  by (rule chan.bind_rule [OF set_cache_answers [OF assms(1)]]) (use assms(2) in \<open>simp add: answers_def\<close>)

lemma fetch_answers: "answers (\<lambda>(chs, ps). loaded_ok chs) (fetch_channel_data n)"
  unfolding fetch_channel_data_def store_error_cache_def Let_def
  apply (rule answers_bind [OF list_all_answers])
  apply (rule answers_sum)
   apply (rule after_set, simp add: empty_ok, rule answers_fail)
  apply (rule answers_if)
   apply (rule answers_return, simp)
  apply (rule answers_bind [OF answers_query [where F = "\<lambda>_. True"]], simp)
  apply (rule answers_sum)
   apply (rule after_set, simp add: empty_ok, rule answers_fail)
  apply (rule answers_return, simp)
  done

lemma build_answers: "answers cache_ok (build_cache n)"
proof -
  have "cache_ok (populate_cache n chs ps)" if "loaded_ok chs" for chs ps
    using that by (auto simp: cache_ok_def loaded_ok_def)
  then show ?thesis
    unfolding build_cache_def Let_def
    by (intro answers_try [OF fetch_answers]) (auto intro!: after_set answers_return)
qed

lemma load_cache_answers: "answers cache_ok (load_cache n)"
proof -
  have "rg keeps_channels channels_ok (peek ct_cache)
      (\<lambda>c t. channels_ok t \<and> (case c of None \<Rightarrow> True | Some d \<Rightarrow> cache_ok d))"
    by (rule chan.peek_rule) (auto simp: channels_ok_def)
  then show ?thesis
    unfolding load_cache_def answers_def
  proof (rule chan.bind_rule)
    fix c
    let ?G = "case c of None \<Rightarrow> True | Some d \<Rightarrow> cache_ok d"
    have "answers cache_ok (case c of Some c \<Rightarrow> if n - cc_loaded c < cache_ttl then okM c else build_cache n | None \<Rightarrow> build_cache n)"
      if "?G"
      using that by (auto split: option.split intro!: answers_return build_answers)
    note go = rg_conseq [OF this [unfolded answers_def]]
    show "rg keeps_channels (\<lambda>t. channels_ok t \<and> ?G)
      (case c of None \<Rightarrow> build_cache n | Some c \<Rightarrow> if n - cc_loaded c < cache_ttl then okM c else build_cache n)
      (\<lambda>r t. channels_ok t \<and> (case r of Inl _ \<Rightarrow> True | Inr a \<Rightarrow> cache_ok a))"
      by (rule rg_pre [where b = ?G], erule conjunct2, rule go) simp_all
  qed
qed

lemma invalidate_keeps: "rg keeps_channels channels_ok (invalidate_cache n) (\<lambda>_. channels_ok)"
  unfolding invalidate_cache_def
  apply (rule chan.bind_rule [OF set_cache_answers], simp)
  apply (rule chan.bind_rule [OF rg_conseq [OF build_answers [unfolded answers_def]]])
    apply assumption
   apply (erule conjunct1)
  apply (rule chan.return_rule, assumption)
  done


subsection \<open>Writing\<close>

text \<open>A row as it is stored, its number apart.\<close>

definition canon :: "price_row \<Rightarrow> price_row" where
  "canon r = r\<lparr>pw_id := 0, pw_price := (pw_price r)\<lparr>cp_mode := (if cp_mode (pw_price r) = [] then ''token'' else cp_mode (pw_price r))\<rparr>\<rparr>"

lemma first_error_map: "first_error f (map g xs) = first_error (f \<circ> g) xs"
  by (induction xs) (auto split: option.split)

lemma canon_simps [simp]:
  "pw_models (canon r) = pw_models r" "pw_platform (canon r) = pw_platform r"
  "cp_intervals (pw_price (canon r)) = cp_intervals (pw_price r)" "cp_request (pw_price (canon r)) = cp_request (pw_price r)"
  "cp_mode (pw_price (canon r)) = (if cp_mode (pw_price r) = [] then ''token'' else cp_mode (pw_price r))"
  by (simp_all add: canon_def)

lemma canon_intervals: "validate_intervals ivs (if m = [] then ''token'' else m) = validate_intervals ivs m"
  by (cases "m = []") (auto simp: validate_intervals_def Let_def split: option.split)

lemma canon_checks: "check_mode (canon r) = check_mode r" "check_not_negative (canon r) = check_not_negative r"
    "check_interval_prices (canon r) = check_interval_prices r"
  by (auto simp: canon_def check_mode_def check_not_negative_def check_interval_prices_def Let_def cong: if_cong)

lemma canon_valid: "validate_pricing_entries (map canon ps) = validate_pricing_entries ps"
proof -
  have "validate_models (map canon ps) = validate_models ps" by (rule models_map) simp
  moreover have "validate_pricing_intervals (map canon ps) = validate_pricing_intervals ps"
    by (simp add: validate_pricing_intervals_def first_error_map comp_def canon_intervals)
  moreover have "validate_billing_mode (map canon ps) = validate_billing_mode ps"
    by (simp only: validate_billing_mode_def first_error_map comp_def canon_checks)
  ultimately show ?thesis by (simp add: validate_pricing_entries_def)
qed

lemma canon_stored: "pw_platform r \<noteq> [] \<Longrightarrow> canon (stored_row k r) = canon r"
  by (simp add: canon_def stored_row_def)

lemma stored_valid:
  "pw_platform r \<noteq> [] \<Longrightarrow> validate_pricing_entries (xs @ stored_row k r # ys) = validate_pricing_entries (xs @ r # ys)"
  by (subst (1 2) canon_valid [symmetric]) (simp add: canon_stored)

text \<open>The tables while the channel \<open>i\<close> still lacks the rows \<open>rest\<close>.\<close>

definition row_ok :: "channel \<Rightarrow> price_row list \<Rightarrow> bool" where
  "row_ok c rest \<longleftrightarrow> validate_pricing_entries (ch_pricing c @ rest) = None \<and> validate_mappings (ch_mapping c) = None \<and>
     platforms_set (ch_pricing c @ rest)"

definition wip :: "int64 \<Rightarrow> price_row list \<Rightarrow> channel_tables \<Rightarrow> bool" where
  "wip i rest t \<longleftrightarrow> distinct (map ch_id (ct_channels t)) \<and>
     (\<forall>c \<in> set (ct_channels t). ch_id c < ct_next t \<and> row_ok c (if ch_id c = i then rest else [])) \<and>
     groups_apart (ct_channels t) \<and> (case ct_cache t of None \<Rightarrow> True | Some c \<Rightarrow> cache_ok c)"

lemma wip_done: "wip i [] t \<longleftrightarrow> channels_ok t"
  by (auto simp: wip_def channels_ok_def tables_ok_def row_ok_def valid_channel_def validate_config_def)

lemma on_channel_simps [simp]:
  "ct_next (on_channel i f t) = ct_next t" "ct_cache (on_channel i f t) = ct_cache t" "ct_groups (on_channel i f t) = ct_groups t"
  by (simp_all add: on_channel_def)

lemma on_channel_wip:
  assumes "wip i rest t" "\<And>c. ch_id c = i \<Longrightarrow> ch_id (f c) = i"
    and "\<And>c. c \<in> set (ct_channels t) \<Longrightarrow> ch_id c = i \<Longrightarrow> row_ok c rest \<Longrightarrow> row_ok (f c) rest'"
    and "groups_apart (ct_channels (on_channel i f t))"
  shows "wip i rest' (on_channel i f t)"
proof -
  have "map ch_id (ct_channels (on_channel i f t)) = map ch_id (ct_channels t)"
    using assms(2) by (auto simp: on_channel_def)
  moreover have "\<forall>c \<in> set (ct_channels (on_channel i f t)). ch_id c < ct_next t \<and> row_ok c (if ch_id c = i then rest' else [])"
    using assms(1-3) by (auto simp: wip_def on_channel_def)
  ultimately show ?thesis using assms(1,4) by (simp add: wip_def)
qed

lemma same_groups: "(\<And>c. ch_groups (f c) = ch_groups c) \<Longrightarrow> groups_apart (ct_channels (on_channel i f t)) = groups_apart (ct_channels t)"
  by (simp add: groups_apart_def on_channel_def comp_def if_distrib cong: if_cong)

lemma apart_on_channel:
  assumes "distinct (map ch_id (ct_channels t))" "groups_apart (ct_channels t)" "\<And>c. ch_id (f c) = ch_id c"
    and "\<And>c. c \<in> set (ct_channels t) \<Longrightarrow> distinct (ch_groups (f c)) \<and> set (ch_groups (f c)) \<subseteq> set (ch_groups c) \<union> G"
    and "\<And>c. c \<in> set (ct_channels t) \<Longrightarrow> G \<inter> set (ch_groups c) = {}"
  shows "groups_apart (ct_channels (on_channel i f t))"
proof (rule apartI)
  let ?f = "\<lambda>c. if ch_id c = i then f c else c"
  have cs: "ct_channels (on_channel i f t) = map ?f (ct_channels t)" by (simp add: on_channel_def)
  show "distinct (map ch_id (ct_channels (on_channel i f t)))"
    using assms(1) by (simp add: cs comp_def if_distrib assms(3) cong: if_cong)
  show "distinct (ch_groups c)" if "c \<in> set (ct_channels (on_channel i f t))" for c
    using that assms(4) apart_two(1) [OF assms(2)] by (auto simp: cs)
  fix c d assume cd: "c \<in> set (ct_channels (on_channel i f t))" "d \<in> set (ct_channels (on_channel i f t))" "ch_id c \<noteq> ch_id d"
  then obtain c' d' where o: "c' \<in> set (ct_channels t)" "d' \<in> set (ct_channels t)" "c = ?f c'" "d = ?f d'" by (auto simp: cs)
  then have ne: "ch_id c' \<noteq> ch_id d'" "c' \<noteq> d'" using cd(3) assms(3) by (auto split: if_splits)
  then have dis: "set (ch_groups c') \<inter> set (ch_groups d') = {}" using apart_two(2) [OF assms(2)] o by blast
  have "ch_id c' \<noteq> i \<or> ch_id d' \<noteq> i" using ne by auto
  then show "set (ch_groups c) \<inter> set (ch_groups d) = {}"
    using dis o assms(4,5) by (auto split: if_splits) blast+
qed

text \<open>A step of a transaction begun on \<open>t0\<close>.\<close>

definition tx_step :: "channel_tables \<Rightarrow> (channel_tables \<Rightarrow> bool) \<Rightarrow> (channel_db, 'a) fallible \<Rightarrow> ('a \<Rightarrow> channel_tables \<Rightarrow> bool) \<Rightarrow> bool" where
  "tx_step t0 P m Q \<longleftrightarrow> txr (\<lambda>t b. b = t0 \<and> P t) m (\<lambda>r t b. b = t0 \<and> (case r of Inl _ \<Rightarrow> True | Inr a \<Rightarrow> Q a t))"

lemma tx_step_stmt:
  assumes "\<And>t. P t \<Longrightarrow> case fst (f t) of Inl _ \<Rightarrow> True | Inr a \<Rightarrow> Q a (snd (f t))"
  shows "tx_step t0 P (stmt f) Q"
  unfolding tx_step_def by (rule txr_stmt) (use assms in auto)

lemma tx_step_try:
  assumes "tx_step t0 P m S" "\<And>a. tx_step t0 (S a) (k a) Q"
  shows "tx_step t0 P (tryM w m k) Q"
  unfolding tx_step_def
proof (rule txr_try [where S = "\<lambda>a t b. b = t0 \<and> S a t"])
  show "txr (\<lambda>t b. b = t0 \<and> P t) m (\<lambda>r t b. case r of Inl e \<Rightarrow> b = t0 \<and> (case Inl (w e) of Inl _ \<Rightarrow> True | Inr a \<Rightarrow> Q a t)
      | Inr a \<Rightarrow> b = t0 \<and> S a t)"
    by (rule txr_conseq [OF assms(1) [unfolded tx_step_def]]) (auto split: sum.splits)
qed (rule assms(2) [unfolded tx_step_def])

lemma tx_step_return: "(\<And>t. P t \<Longrightarrow> Q a t) \<Longrightarrow> tx_step t0 P (okM a) Q"
  unfolding tx_step_def by (rule txr_return) auto

lemma tx_step_fail: "tx_step t0 P (failM e) Q"
  unfolding tx_step_def by (rule txr_return) auto

lemma tx_step_pre: "tx_step t0 P m Q \<Longrightarrow> (\<And>t. P' t \<Longrightarrow> P t) \<Longrightarrow> tx_step t0 P' m Q"
  unfolding tx_step_def by (erule txr_conseq) auto

lemma set_groups_step: "tx_step t0 (wip i rest) (set_group_ids i gs) (\<lambda>_. wip i rest)"
proof -
  have del: "wip i rest (on_channel i (\<lambda>c. c\<lparr>ch_groups := []\<rparr>) t)" if "wip i rest t" for t
  proof (rule on_channel_wip [OF that])
    show "groups_apart (ct_channels (on_channel i (\<lambda>c. c\<lparr>ch_groups := []\<rparr>) t))"
      by (rule apart_on_channel [where G = "{}"]) (use that in \<open>auto simp: wip_def\<close>)
  qed (auto simp: row_ok_def)
  have ins: "wip i rest (on_channel i (\<lambda>c. c\<lparr>ch_groups := ch_groups c @ gs\<rparr>) t)"
    if t: "wip i rest t" and gs: "distinct gs" "\<forall>g \<in> set gs. g \<notin> set (concat (map ch_groups (ct_channels t)))" for t
  proof (rule on_channel_wip [OF t])
    have "groups_apart (ct_channels t)" using t by (simp add: wip_def)
    note two = apart_two(1) [OF this]
    show "groups_apart (ct_channels (on_channel i (\<lambda>c. c\<lparr>ch_groups := ch_groups c @ gs\<rparr>) t))"
      by (rule apart_on_channel [where G = "set gs"]) (use t gs two in \<open>auto simp: wip_def\<close>)
  qed (auto simp: row_ok_def)
  show ?thesis
    unfolding set_group_ids_def
    apply (rule tx_step_try [where S = "\<lambda>_. wip i rest"])
     apply (rule tx_step_stmt, simp add: del)
    apply (cases "gs = []")
     apply (simp add: tx_step_return)
    apply simp
    apply (rule tx_step_try [where S = "\<lambda>_. wip i rest"])
     apply (rule tx_step_stmt)
     apply (auto simp: sql_insert_groups_def intro: ins tx_step_return)
    done
qed

lemma insert_prices_step:
  "tx_step t0 (wip i ps) (each_try w (\<lambda>r. stmt (sql_insert_price i r)) ps) (\<lambda>_. wip i [])"
proof (induction ps)
  case (Cons r ps)
  have "wip i ps (snd (sql_insert_price i r t))" if "wip i (r # ps) t" for t
  proof -
    have "wip i ps (on_channel i (\<lambda>c. c\<lparr>ch_pricing := ch_pricing c @ [stored_row (ct_next_row t) r]\<rparr>) t)"
    proof (rule on_channel_wip [OF that])
      fix c assume "row_ok c (r # ps)"
      then show "row_ok (c\<lparr>ch_pricing := ch_pricing c @ [stored_row (ct_next_row t) r]\<rparr>) ps"
        by (auto simp: row_ok_def stored_valid platforms_set_def) (simp add: stored_row_def)
    qed (use that in \<open>simp_all add: same_groups wip_def\<close>)
    then show ?thesis by (simp add: sql_insert_price_def wip_def)
  qed
  then show ?case
    unfolding each_try.simps
    by (intro tx_step_try [where S = "\<lambda>_. wip i ps"] tx_step_stmt Cons.IH) (simp add: sql_insert_price_def)
qed (simp add: tx_step_return)

lemma replace_pricing_step:
  assumes "validate_pricing_entries ps = None" "platforms_set ps"
  shows "tx_step t0 (wip i rest) (replace_pricing i ps) (\<lambda>_. wip i [])"
proof -
  have "wip i ps (on_channel i (\<lambda>c. c\<lparr>ch_pricing := []\<rparr>) t)" if "wip i rest t" for t
    by (rule on_channel_wip [OF that]) (use that assms in \<open>simp_all add: same_groups wip_def row_ok_def\<close>)
  then show ?thesis
    unfolding replace_pricing_def
    by (intro tx_step_try [where S = "\<lambda>_. wip i ps"] tx_step_stmt insert_prices_step) simp
qed

lemma replace_rules_step: "tx_step t0 (wip i rest) (replace_rules i rs) (\<lambda>_. wip i rest)"
proof -
  have keep: "wip i rest (on_channel i f t)"
    if "wip i rest t" "\<And>c. ch_id (f c) = ch_id c \<and> ch_groups (f c) = ch_groups c \<and> ch_pricing (f c) = ch_pricing c \<and> ch_mapping (f c) = ch_mapping c" for f t
    by (rule on_channel_wip [OF that(1)]) (use that in \<open>simp_all add: same_groups wip_def row_ok_def\<close>)
  have "tx_step t0 (wip i rest) (each_try w (\<lambda>r. stmt (\<lambda>t. (Inr (), on_channel i (\<lambda>c. c\<lparr>ch_rules := ch_rules c @ [r]\<rparr>) t))) rs) (\<lambda>_. wip i rest)" for w
    by (induction rs) (auto intro!: tx_step_return tx_step_try [where S = "\<lambda>_. wip i rest"] tx_step_stmt keep)
  then show ?thesis
    unfolding replace_rules_def
    by (intro tx_step_try [where S = "\<lambda>_. wip i rest"] tx_step_stmt) (auto intro: keep)
qed

subsection \<open>The calls\<close>

lemma tx_answers:
  assumes "\<And>t0. tx_step t0 channels_ok body (\<lambda>_. channels_ok)"
  shows "answers (\<lambda>_. True) (in_tx wb wc body)"
  unfolding answers_def
proof (rule chan.in_tx_rule [OF stable_ok])
  fix t0 assume "channels_ok t0"
  then show "txr (\<lambda>t b. t = t0 \<and> b = t0) body
      (\<lambda>r t b. keeps_channels t0 b \<and> (case r of Inl e \<Rightarrow> channels_ok b \<and> (case Inl e of Inl _ \<Rightarrow> True | Inr a \<Rightarrow> True)
        | Inr a \<Rightarrow> keeps_channels t0 t \<and> (channels_ok t \<and> (case Inr a of Inl _ \<Rightarrow> True | Inr a \<Rightarrow> True)) \<and>
          (\<forall>e. (channels_ok t \<and> (case Inl (wc (Plain e)) of Inl _ \<Rightarrow> True | Inr a \<Rightarrow> True)) \<and>
            (channels_ok b \<and> (case Inl (wc (Plain e)) of Inl _ \<Rightarrow> True | Inr a \<Rightarrow> True)))))"
    by (intro txr_conseq [OF assms [of t0, unfolded tx_step_def]]) (auto simp: keeps_channels_def split: sum.splits)
qed simp

lemma insert_step:
  assumes "validate_pricing_entries (ch_pricing c) = None" "validate_mappings (ch_mapping c) = None" "platforms_set (ch_pricing c)"
  shows "tx_step t0 channels_ok (stmt (sql_insert_channel c)) (\<lambda>i. wip i (ch_pricing c))"
proof (rule tx_step_stmt)
  fix t assume "channels_ok t"
  then have ok: "tables_ok t" "case ct_cache t of None \<Rightarrow> True | Some c \<Rightarrow> cache_ok c" by (simp_all add: channels_ok_def)
  let ?n = "(row_of c)\<lparr>ch_id := ct_next t\<rparr>"
  have n: "ch_id ?n = ct_next t" "ch_groups ?n = []" "ch_pricing ?n = []" "ch_mapping ?n = ch_mapping c" by (simp_all add: row_of_def)
  have "row_ok ?n (ch_pricing c)" using assms by (simp add: row_ok_def n)
  moreover have "row_ok d []" if "d \<in> set (ct_channels t)" for d
    using ok(1) that by (auto simp: tables_ok_def row_ok_def valid_channel_def validate_config_def)
  ultimately have "wip (ct_next t) (ch_pricing c) (t\<lparr>ct_channels := ct_channels t @ [?n], ct_next := ct_next t + 1\<rparr>)"
    using ok by (fastforce simp: wip_def tables_ok_def groups_apart_def n)
  then show "case fst (sql_insert_channel c t) of Inl _ \<Rightarrow> True | Inr i \<Rightarrow> wip i (ch_pricing c) (snd (sql_insert_channel c t))"
    by (simp add: sql_insert_channel_def)
qed

lemma repo_create_answers:
  assumes "validate_pricing_entries (ch_pricing c) = None" "validate_mappings (ch_mapping c) = None" "platforms_set (ch_pricing c)"
  shows "answers (\<lambda>_. True) (repo_create c)"
  unfolding repo_create_def
proof (rule tx_answers, rule tx_step_try [OF insert_step [OF assms]])
  fix t0 i
  let ?ps = "ch_pricing c"
  have opt: "tx_step t0 (wip i rest) (unless_empty xs m) (\<lambda>_. wip i rest)"
    if "tx_step t0 (wip i rest) m (\<lambda>_. wip i rest)" for rest m and xs :: "'a list"
    using that by (simp add: unless_empty_def tx_step_return)
  have prices: "tx_step t0 (wip i ?ps) (unless_empty ?ps (replace_pricing i ?ps)) (\<lambda>_. wip i [])"
    using replace_pricing_step [OF assms(1,3), of t0 i ?ps] by (cases ?ps) (simp_all add: unless_empty_def tx_step_return)
  show "tx_step t0 (wip i ?ps) (tryM (\<lambda>e. e) (unless_empty (ch_groups c) (set_group_ids i (ch_groups c))) (\<lambda>_.
       tryM (\<lambda>e. e) (unless_empty ?ps (replace_pricing i ?ps)) (\<lambda>_.
       tryM (\<lambda>e. e) (unless_empty (ch_rules c) (replace_rules i (ch_rules c))) (\<lambda>_. okM i)))) (\<lambda>_. channels_ok)"
    apply (rule tx_step_try [OF opt [OF set_groups_step]])
    apply (rule tx_step_try [OF prices])
    apply (rule tx_step_try [OF opt [OF replace_rules_step]])
    apply (rule tx_step_return, simp add: wip_done)
    done
qed

lemma update_step:
  assumes "validate_mappings (ch_mapping c) = None"
  shows "tx_step t0 channels_ok (stmt (sql_update_channel c)) (\<lambda>_. channels_ok)"
proof (rule tx_step_stmt)
  fix t assume t: "channels_ok t"
  let ?f = "\<lambda>d. c\<lparr>ch_groups := ch_groups d, ch_pricing := ch_pricing d, ch_rules := ch_rules d\<rparr>"
  have "wip (ch_id c) [] (on_channel (ch_id c) ?f t)"
    by (rule on_channel_wip [where rest = "[]"])
      (use t assms in \<open>simp_all add: wip_done row_ok_def same_groups ok_tables\<close>)
  then show "case fst (sql_update_channel c t) of Inl _ \<Rightarrow> True | Inr i \<Rightarrow> channels_ok (snd (sql_update_channel c t))"
    using t by (auto simp: sql_update_channel_def wip_done)
qed

lemma repo_update_answers:
  assumes "validate_pricing_entries (ch_pricing c) = None" "validate_mappings (ch_mapping c) = None" "platforms_set (ch_pricing c)"
    and "ps = None \<or> ps = Some (ch_pricing c)"
  shows "answers (\<lambda>_. True) (repo_update c gs ps rs)"
  unfolding repo_update_def
proof (rule tx_answers, rule tx_step_try [OF update_step [OF assms(2)]])
  fix t0 found
  have opt: "tx_step t0 channels_ok (when_set x f) (\<lambda>_. channels_ok)"
    if "\<And>v. x = Some v \<Longrightarrow> tx_step t0 channels_ok (f v) (\<lambda>_. channels_ok)" for x :: "'a list option" and f
    using that by (cases x) (simp_all add: when_set_def tx_step_return)
  note steps = set_groups_step [of t0 "ch_id c" "[]", unfolded wip_done]
    replace_pricing_step [of "ch_pricing c" t0 "ch_id c" "[]", unfolded wip_done]
    replace_rules_step [of t0 "ch_id c" "[]", unfolded wip_done]
  have prices: "tx_step t0 channels_ok (replace_pricing (ch_id c) v) (\<lambda>_. channels_ok)" if "ps = Some v" for v
    using steps(2) [OF assms(1,3)] assms(4) that by auto
  show "tx_step t0 channels_ok (if \<not> found then failM (App channel_not_found)
       else tryM (\<lambda>e. e) (when_set gs (set_group_ids (ch_id c))) (\<lambda>_.
         tryM (\<lambda>e. e) (when_set ps (replace_pricing (ch_id c))) (\<lambda>_.
         tryM (\<lambda>e. e) (when_set rs (replace_rules (ch_id c))) (\<lambda>_. okM ())))) (\<lambda>_. channels_ok)"
    apply (cases found; simp add: tx_step_fail)
    apply (rule tx_step_try [OF opt [OF steps(1)]])
    apply (rule tx_step_try [OF opt [OF prices]], assumption)
    apply (rule tx_step_try [OF opt [OF steps(3)]])
    apply (rule tx_step_return, assumption)
    done
qed

lemma repo_delete_answers: "answers (\<lambda>_. True) (repo_delete i)"
proof -
  have "channels_ok (t\<lparr>ct_channels := filter (\<lambda>c. ch_id c \<noteq> i) (ct_channels t)\<rparr>)" if "channels_ok t" for t
  proof -
    have "groups_apart (filter P cs)" if "groups_apart cs" for P cs
      using that by (induction cs) (auto simp: groups_apart_def)
    then show ?thesis using that by (simp add: channels_ok_def tables_ok_def distinct_map_filter)
  qed
  then have "answers (\<lambda>_. True) (stmt (\<lambda>t. (Inr (find_channel i t \<noteq> None), t\<lparr>ct_channels := filter (\<lambda>c. ch_id c \<noteq> i) (ct_channels t)\<rparr>)))"
    unfolding answers_def by (intro chan.stmt_rule [OF stable_ok]) (auto simp: keeps_channels_def)
  then show ?thesis
    unfolding repo_delete_def by (rule answers_try) (simp add: answers_return answers_fail)
qed

lemma after_invalidate: "answers F m \<Longrightarrow> answers F (do { _ \<leftarrow> invalidate_cache n; m })"
  unfolding answers_def by (rule chan.bind_rule [OF invalidate_keeps])

lemma validated:
  assumes "validate_channel c = None"
  shows "validate_pricing_entries (ch_pricing c) = None" "validate_mappings (ch_mapping c) = None"
proof -
  have "validate_config (ch_pricing c) (ch_mapping c) = None" using assms by (simp add: validate_channel_def split: option.splits)
  then show "validate_pricing_entries (ch_pricing c) = None" "validate_mappings (ch_mapping c) = None"
    unfolding validate_config_def or_error_none by blast+
qed

lemma conflicts_answers: "answers (\<lambda>_. True) (check_group_conflicts i gs)"
  unfolding check_group_conflicts_def
  by (auto intro!: answers_if answers_return answers_fail answers_try [OF answers_query [where F = "\<lambda>_. True"]])

lemma create_answers:
  assumes "platforms_set (ch_pricing input)"
  shows "answers (\<lambda>_. True) (create_channel n input)"
proof -
  let ?c = "normalize_source (input\<lparr>ch_status := ''active''\<rparr>)"
  have p: "ch_pricing ?c = ch_pricing input" by (simp add: normalize_source_def)
  have "answers (\<lambda>_. True) (case validate_channel ?c of Some e \<Rightarrow> failM e
      | None \<Rightarrow> tryM (Wrapped ''create channel'') (repo_create ?c) (\<lambda>i. do {
           _ \<leftarrow> invalidate_cache n; tryM (\<lambda>e. e) (get_channel i) (\<lambda>c. okM (normalize_source c)) }))"
  proof (cases "validate_channel ?c")
    case None
    have ok: "answers (\<lambda>_. True) (repo_create ?c)"
      by (rule repo_create_answers [OF validated [OF None]]) (simp only: p assms)
    show ?thesis
      unfolding None option.case
      by (rule answers_try [OF ok], rule after_invalidate, rule answers_try [OF get_channel_answers], rule answers_return, rule TrueI)
  qed (simp add: answers_fail)
  then show ?thesis
    unfolding create_channel_def Let_def
    by (auto intro!: answers_try [OF answers_query [where F = "\<lambda>_. True"]] answers_if answers_fail answers_try [OF conflicts_answers])
qed

text \<open>A channel read back has a platform in every row.\<close>

definition platforms_read :: "(int64 \<times> price_row list) list \<Rightarrow> bool" where
  "platforms_read ps \<longleftrightarrow> (\<forall>(i, rs) \<in> set ps. platforms_set rs)"

lemma read_platforms: "channels_ok t \<Longrightarrow> platforms_read (sql_price_rows is t)"
  by (auto simp: platforms_read_def sql_price_rows_def channels_ok_def tables_ok_def platforms_set_def without_intervals_def)

lemma load_platforms: "answers platforms_read (load_pricing what is)"
proof -
  have "platforms_read (map (\<lambda>(i, rs). (i, map (\<lambda>r. r\<lparr>pw_price := f r\<rparr>) rs)) ps) = platforms_read ps" for f ps
    by (fastforce simp: platforms_read_def platforms_set_def)
  then show ?thesis
    unfolding load_pricing_def Let_def
    by (intro answers_try [OF answers_query [where F = platforms_read]] answers_if answers_return
        answers_try [OF answers_query [where F = "\<lambda>_. True"]] read_platforms) simp_all
qed

lemma entries_platforms: "platforms_read ps \<Longrightarrow> platforms_set (entries_of ps i)"
  using entries_cases [of ps i] by (auto simp: platforms_read_def platforms_set_def)

lemma get_channel_read: "answers (\<lambda>c. ch_id c = i \<and> platforms_set (ch_pricing c)) (get_channel i)"
  unfolding get_channel_def
  by (rule answers_try [OF answers_query [where F = "\<lambda>r. \<forall>c. r = Some c \<longrightarrow> ch_id c = i"]])
    (auto simp: find_channel_def find_Some_iff row_of_def entries_platforms split: option.split intro!: answers_fail answers_return
       answers_try [OF load_platforms] answers_try [OF answers_query [where F = "\<lambda>_. True"]])

lemma apply_update_answers:
  "answers (\<lambda>d. ch_id d = ch_id c \<and> ch_pricing d = given (ch_pricing c) (cu_pricing u)) (apply_update c u)"
proof -
  let ?F = "\<lambda>d. ch_id d = ch_id c \<and> ch_pricing d = ch_pricing c"
  have first: "answers ?F (if cu_name u \<noteq> [] \<and> cu_name u \<noteq> ch_name c
      then tryM (Wrapped ''check channel exists'')
          (query (\<lambda>t. \<exists>d \<in> set (ct_channels t). ch_name d = cu_name u \<and> ch_id d \<noteq> ch_id c))
          (\<lambda>taken. if taken then failM (App channel_exists) else okM (c\<lparr>ch_name := cu_name u\<rparr>))
      else okM c)"
    by (intro answers_if answers_try [OF answers_query [where F = "\<lambda>_. True"]] answers_fail answers_return) simp_all
  have conflicts: "answers (\<lambda>_. True) (case cu_groups u of None \<Rightarrow> okM () | Some gs \<Rightarrow> check_group_conflicts k gs)" for k
    by (cases "cu_groups u") (simp_all add: answers_return conflicts_answers)
  show ?thesis
    unfolding apply_update_def
    by (rule answers_try [OF first], rule answers_try [OF conflicts], rule answers_return) simp
qed

lemma update_answers:
  assumes "\<And>ps. cu_pricing u = Some ps \<Longrightarrow> platforms_set ps"
  shows "answers (\<lambda>_. True) (update_channel n i u)"
proof -
  have reread: "answers (\<lambda>_. True) (do { _ \<leftarrow> invalidate_cache n; tryM (\<lambda>e. e) (get_channel i) (\<lambda>c. okM (normalize_source c)) })"
    by (rule after_invalidate, rule answers_try [OF get_channel_answers], rule answers_return, rule TrueI)
  have stored: "answers (\<lambda>_. True) (case validate_channel c of Some e \<Rightarrow> failM e
      | None \<Rightarrow> do { _ \<leftarrow> query (sql_group_ids [i]);
           tryM (Wrapped ''update channel'') (repo_update c (slice (cu_groups u) (ch_groups old))
               (slice (cu_pricing u) (ch_pricing old)) (slice (cu_rules u) (ch_rules old))) (\<lambda>_. do {
             _ \<leftarrow> invalidate_cache n; tryM (\<lambda>e. e) (get_channel i) (\<lambda>c. okM (normalize_source c)) }) })"
    if old: "platforms_set (ch_pricing old)" and c: "ch_pricing c = given (ch_pricing old) (cu_pricing u)" for old c
  proof (cases "validate_channel c")
    case None
    have "platforms_set (ch_pricing c)" using old assms by (cases "cu_pricing u") (simp_all add: c given_def)
    moreover have "slice (cu_pricing u) (ch_pricing old) = None \<or> slice (cu_pricing u) (ch_pricing old) = Some (ch_pricing c)"
      by (cases "cu_pricing u") (simp_all add: c given_def slice_def)
    ultimately have "answers (\<lambda>_. True) (repo_update c gs (slice (cu_pricing u) (ch_pricing old)) rs)" for gs rs
      by (intro repo_update_answers validated [OF None])
    then show ?thesis
      unfolding None option.case
      by (intro answers_bind [OF answers_query [where F = "\<lambda>_. True"]] answers_try reread) simp_all
  qed (simp add: answers_fail)
  show ?thesis
    unfolding update_channel_def
    by (rule answers_try [OF get_channel_read], rule answers_try [OF apply_update_answers], rule stored) auto
qed

lemma delete_answers: "answers (\<lambda>_. True) (delete_channel n i)"
  unfolding delete_channel_def
  by (rule answers_bind [OF answers_query [where F = "\<lambda>_. True"]], simp,
      rule answers_try [OF repo_delete_answers], rule after_invalidate, rule answers_return, simp)

text \<open>A sequence of calls, each at its time, the answers of which the callers take and drop.\<close>

datatype channel_call = Create channel | Update int64 channel_update | Delete int64 | Lookup

fun run_call :: "time \<Rightarrow> channel_call \<Rightarrow> (channel_db, unit) state" where
  "run_call n (Create c) = do { _ \<leftarrow> create_channel n c; State_Monad.return () }"
| "run_call n (Update i u) = do { _ \<leftarrow> update_channel n i u; State_Monad.return () }"
| "run_call n (Delete i) = do { _ \<leftarrow> delete_channel n i; State_Monad.return () }"
| "run_call n Lookup = do { _ \<leftarrow> load_cache n; State_Monad.return () }"

fun run_calls :: "(time \<times> channel_call) list \<Rightarrow> (channel_db, unit) state" where
  "run_calls [] = State_Monad.return ()"
| "run_calls (x # xs) = do { _ \<leftarrow> run_call (fst x) (snd x); run_calls xs }"

fun call_ok :: "channel_call \<Rightarrow> bool" where
  "call_ok (Create c) \<longleftrightarrow> platforms_set (ch_pricing c)"
| "call_ok (Update i u) \<longleftrightarrow> (case cu_pricing u of None \<Rightarrow> True | Some ps \<Rightarrow> platforms_set ps)"
| "call_ok _ \<longleftrightarrow> True"

lemma dropped: "answers F m \<Longrightarrow> rg keeps_channels channels_ok (do { _ \<leftarrow> m; State_Monad.return () }) (\<lambda>_. channels_ok)"
  unfolding answers_def by (erule chan.bind_rule) (rule chan.return_rule, simp)

lemma run_call_keeps: "call_ok x \<Longrightarrow> rg keeps_channels channels_ok (run_call n x) (\<lambda>_. channels_ok)"
  by (cases x) (auto intro!: dropped create_answers update_answers delete_answers load_cache_answers)

lemma run_calls_keep: "\<forall>x \<in> set xs. call_ok (snd x) \<Longrightarrow> rg keeps_channels channels_ok (run_calls xs) (\<lambda>_. channels_ok)"
proof (induction xs)
  case (Cons x xs)
  then show ?case by (auto intro: chan.bind_rule [OF run_call_keeps])
qed (simp add: chan.return_rule)

text \<open>
  C11.  Whatever channels are created, changed and deleted, whatever statement fails and whatever other processes that keep
  the tables in order do between two statements: the tables stay in order (every channel valid, no group in two
  channels), and the cache a request loads is built from channels with distinct groups in none of which two
  patterns for one platform match the same model.  Rows of prices name their platform, as the handler sees to.
\<close>

theorem cached_channels_unambiguous:
  assumes "calm keeps_channels s" "channels_ok (st_tabs s)" "\<forall>x \<in> set xs. call_ok (snd x)"
    and "run_state (do { _ \<leftarrow> run_calls xs; load_cache n }) s = (r, s')"
  shows "tables_ok (st_tabs s') \<and> (case r of Inl _ \<Rightarrow> True
    | Inr c \<Rightarrow> \<exists>m chs ps. c = populate_cache m chs ps \<and> groups_apart chs \<and> (\<forall>ch \<in> set chs. unambiguous ch))"
proof -
  have "answers cache_ok (load_cache n)" by (rule load_cache_answers)
  then have "rg keeps_channels channels_ok (do { _ \<leftarrow> run_calls xs; load_cache n })
      (\<lambda>r t. channels_ok t \<and> (case r of Inl _ \<Rightarrow> True | Inr a \<Rightarrow> cache_ok a))"
    unfolding answers_def by (rule chan.bind_rule [OF run_calls_keep [OF assms(3)]])
  from rgD [OF this assms(1,2,4)] show ?thesis by (auto simp: channels_ok_def cache_ok_def split: sum.splits)
qed

end
