(* ===== verification/ChannelProps.thy ===== *)
theory ChannelProps
  imports ChannelInvariant
begin

section \<open>Channels: failures, and a concrete set\<close>


subsection \<open>When the database fails\<close>


subsection \<open>A concrete set of channels\<close>

definition flat_price :: channel_price where
  "flat_price = \<lparr>cp_mode = [], cp_input = Some (1/1000), cp_output = Some (2/1000), cp_cache_write = None, cp_cache_read = None,
     cp_image_output = None, cp_request = None, cp_intervals = []\<rparr>"

definition claude_channel :: channel where
  "claude_channel = \<lparr>ch_id = 1, ch_name = ''claude'', ch_status = ''active'', ch_source = [], ch_restrict = True, ch_groups = [7, 8],
     ch_pricing = [\<lparr>pw_id = 0, pw_platform = ''anthropic'', pw_models = [''claude-opus-*'', ''claude-haiku''], pw_price = flat_price\<rparr>],
     ch_mapping = [(''anthropic'', [(''claude-3*'', ''claude-haiku'')])], ch_rules = []\<rparr>"

definition group_platforms :: "int64 \<Rightarrow> string option" where
  "group_platforms g = (if g = 7 \<or> g = 8 then Some ''anthropic'' else None)"

lemma claude_linked: "linked [claude_channel] group_platforms 7 claude_channel ''anthropic''"
  by (simp add: linked_def groups_apart_def claude_channel_def group_platforms_def)

lemma claude_valid: "valid_channel claude_channel"
  unfolding valid_channel_def by code_simp

theorem channel_price_is_the_matching_row_witness:
  "case channel_model_pricing (Inr (populate_cache 0 [claude_channel] group_platforms)) 7 ''Claude-OPUS-4'' of
     None \<Rightarrow> False | Some r \<Rightarrow> cp_input (pw_price r) = Some (1/1000)"
proof -
  let ?r = "hd (ch_pricing claude_channel)"
  have "pattern_matches ''claude-opus-*'' ''Claude-OPUS-4''" by code_simp
  moreover have "is_active claude_channel" "?r \<in> set (ch_pricing claude_channel)" "pw_platform ?r = ''anthropic''"
      "''claude-opus-*'' \<in> set (pw_models ?r)"
    by (simp_all add: claude_channel_def is_active_def)
  ultimately have "channel_model_pricing (Inr (populate_cache 0 [claude_channel] group_platforms)) 7 ''Claude-OPUS-4'' = Some ?r"
    using channel_price_is_the_matching_row [OF claude_linked valid_unambiguous [OF claude_valid]] by blast
  then show ?thesis by (simp add: claude_channel_def flat_price_def)
qed

theorem channel_mapping_is_the_matching_rule_witness:
  "mg_model (resolve_channel_mapping (Inr (populate_cache 0 [claude_channel] group_platforms)) 7 ''claude-3-5-sonnet'') = ''claude-haiku''"
proof -
  have "pattern_matches ''claude-3*'' ''claude-3-5-sonnet''" by code_simp
  then show ?thesis
    using channel_mapping_is_the_matching_rule [OF claude_linked valid_unambiguous [OF claude_valid], of "[(''claude-3*'', ''claude-haiku'')]"
        "''claude-3*''" "''claude-haiku''" "''claude-3-5-sonnet''" 0]
    by (simp add: claude_channel_def is_active_def)
qed

definition tier :: "int \<Rightarrow> int option \<Rightarrow> rat \<Rightarrow> price_interval" where
  "tier lo hi x = \<lparr>pi_min = lo, pi_max = hi, pi_label = [], pi_input = Some x, pi_output = None, pi_cache_write = None,
     pi_cache_read = None, pi_request = None\<rparr>"


definition new_channels :: channel_tables where
  "new_channels = \<lparr>ct_channels = [], ct_groups = [(7, ''anthropic''), (8, ''anthropic'')], ct_next = 1, ct_next_row = 1, ct_cache = None\<rparr>"

definition channel_store :: "((channel_tables \<Rightarrow> channel_tables) \<times> fault option) list \<Rightarrow> channel_db" where
  "channel_store w = \<lparr>st_tabs = new_channels, st_base = None, st_world = w\<rparr>"

definition channel_calls :: "(time \<times> channel_call) list" where
  "channel_calls = [(0, Create (claude_channel\<lparr>ch_id := 0\<rparr>)),
     (1, Create (claude_channel\<lparr>ch_name := ''second'', ch_groups := [8]\<rparr>)), (2, Lookup)]"

lemma channel_calls_run:
  "map_sum (\<lambda>_. ()) (\<lambda>c. (map_option ch_name (cc_channel c 8), map_option pw_models (cc_pricing c (8, ''anthropic'', ''claude-haiku''))))
     (fst (run_state (do { _ \<leftarrow> run_calls channel_calls; load_cache 3 }) (channel_store []))) =
   Inr (Some ''claude'', Some [''claude-opus-*'', ''claude-haiku''])"
  by code_simp

theorem cached_channels_unambiguous_witness:
  "tables_ok (st_tabs (snd (run_state (do { _ \<leftarrow> run_calls channel_calls; load_cache 3 }) (channel_store [(\<lambda>t. t, None)]))))"
proof -
  have "calm keeps_channels (channel_store [(\<lambda>t. t, None)])" by (simp add: calm_def channel_store_def keeps_channels_def)
  moreover have "channels_ok (st_tabs (channel_store [(\<lambda>t. t, None)]))"
    by (simp add: channel_store_def channels_ok_def tables_ok_def new_channels_def groups_apart_def)
  moreover have "\<forall>x \<in> set channel_calls. call_ok (snd x)"
    by (simp add: channel_calls_def platforms_set_def claude_channel_def)
  ultimately show ?thesis using cached_channels_unambiguous [OF _ _ _ surjective_pairing] by blast
qed


end
