(* ===== verification/SelectEntry.thy ===== *)
theory SelectEntry
  imports SelectionProps ChannelProps
begin

section \<open>The whole selection\<close>

text \<open>
  The entry of \<open>SelectAccountWithLoadAwareness\<close> and the older selection it falls back to when load batches are
  switched off (\<open>SelectAccountForModelWithExclusions\<close>, which \<open>count_tokens\<close> calls directly): restriction by the price
  list of a channel, routing, the bound session, the first account in order, slots and sessions.  The chain of
  groups and the loop over accounts may in principle not end; their result is an option.
\<close>

subsection \<open>Restriction by the prices of a channel\<close>

definition billing_model_for_restriction :: "string \<Rightarrow> string \<Rightarrow> string \<Rightarrow> string" where
  "billing_model_for_restriction source requested mapped =
     (if source = ''requested'' then requested else if source = ''upstream'' then [] else mapped)"

definition channel_refuses :: "sched_env \<Rightarrow> int64 option \<Rightarrow> string \<Rightarrow> bool" where
  "channel_refuses env gid model = (case gid of
     None \<Rightarrow> False
   | Some g \<Rightarrow> model \<noteq> [] \<and>
       (let m = resolve_channel_mapping (se_channels env) g model;
            b = billing_model_for_restriction (mg_source m) model (mg_model m)
        in b \<noteq> [] \<and> is_model_restricted (se_channels env) g b))"

definition upstream_model :: "sched_account \<Rightarrow> string \<Rightarrow> string" where
  "upstream_model a r = (if sa_platform a = ''antigravity'' then map_antigravity_model a r else mapped_model a r)"

definition upstream_restricted :: "sched_env \<Rightarrow> int64 \<Rightarrow> sched_account \<Rightarrow> string \<Rightarrow> bool" where
  "upstream_restricted env g a r \<longleftrightarrow> (let m = upstream_model a r in m \<noteq> [] \<and> is_model_restricted (se_channels env) g m)"

definition needs_upstream_check :: "sched_env \<Rightarrow> int64 option \<Rightarrow> bool" where
  "needs_upstream_check env gid \<longleftrightarrow> (case gid of
     None \<Rightarrow> False
   | Some g \<Rightarrow> (case channel_for_group (se_channels env) g of
       Inr (Some ch) \<Rightarrow> ch_restrict ch \<and> ch_source ch = ''upstream''
     | _ \<Rightarrow> False))"

definition account_upstream_restricted :: "sched_env \<Rightarrow> int64 option \<Rightarrow> sched_account \<Rightarrow> string \<Rightarrow> bool" where
  "account_upstream_restricted env gid a r \<longleftrightarrow> needs_upstream_check env gid \<and> upstream_restricted env (group_or_zero gid) a r"

subsection \<open>The older selection\<close>

definition in_group :: "sched_account \<Rightarrow> int64 option \<Rightarrow> bool" where
  "in_group a gid \<longleftrightarrow> (case gid of None \<Rightarrow> sa_groups a = [] | Some g \<Rightarrow> g \<in> set (sa_groups a))"

definition routing_ids_for :: "sched_env \<Rightarrow> int64 option \<Rightarrow> string \<Rightarrow> string \<Rightarrow> int64 list" where
  "routing_ids_for env gid model platform = (case gid of
     None \<Rightarrow> []
   | Some i \<Rightarrow>
       if model = [] \<or> platform \<noteq> ''anthropic'' then []
       else (case resolve_group_by_id env i of
         Inl _ \<Rightarrow> []
       | Inr g \<Rightarrow> if gr_platform g \<noteq> ''anthropic'' then [] else routing_account_ids g model))"

definition sched_group :: "sched_env \<Rightarrow> int64 option \<Rightarrow> group option" where
  "sched_group env gid = (case gid of
     None \<Rightarrow> None | Some i \<Rightarrow> (case se_group_by_id env i of Inl _ \<Rightarrow> None | Inr g \<Rightarrow> Some g))"

definition set_error :: "int64 \<Rightarrow> string \<Rightarrow> (sched_state, unit) state" where
  "set_error i message = State (\<lambda>s. ((), s\<lparr>ss_errors := ss_errors s @ [(i, message)]\<rparr>))"

definition supports :: "sched_env \<Rightarrow> request \<Rightarrow> sched_account \<Rightarrow> bool" where
  "supports env q a \<longleftrightarrow> (rq_model q = [] \<or> model_supported (se_ctx env) a (rq_model q)) \<and>
     is_schedulable_for_model (se_zones env) (se_ctx env) (se_now env) a (rq_model q) \<and>
     schedulable_for_quota (se_zones env) (se_now env) a"

definition within_limits :: "sched_env \<Rightarrow> prefetched \<Rightarrow> bool \<Rightarrow> sched_account \<Rightarrow> (sched_state, bool) state" where
  "within_limits env pf sticky a = do { w \<leftarrow> window_cost_ok env pf sticky a;
     if w then rpm_ok env pf sticky a else State_Monad.return False }"

text \<open>The account a session is bound to, read in full.\<close>

definition legacy_sticky :: "sched_env \<Rightarrow> prefetched \<Rightarrow> request \<Rightarrow> bool \<Rightarrow> int64 \<Rightarrow> (sched_state, sched_account option) state" where
  "legacy_sticky env pf q upstream i = (case snapshot_account env i of
     Inr (Some a) \<Rightarrow> do {
       let clear = should_clear_sticky (se_zones env) (se_now env) a (rq_model q);
       _ \<leftarrow> (if clear then unbind_session (rq_gid q) (rq_hash q) else State_Monad.return ());
       if clear \<or> \<not> in_group a (rq_gid q) \<or> (\<not> rq_mixed q \<and> sa_platform a \<noteq> rq_platform q) \<or> \<not> supports env q a
       then State_Monad.return None
       else do { ok \<leftarrow> within_limits env pf True a;
         State_Monad.return
           (if ok \<and> \<not> (upstream \<and> account_upstream_restricted env (rq_gid q) a (rq_model q)) \<and>
               (rq_mixed q \<longrightarrow> allowed_for_platform (rq_platform q) True a) then Some a else None) } }
   | _ \<Rightarrow> State_Monad.return None)"

definition legacy_session ::
  "sched_env \<Rightarrow> prefetched \<Rightarrow> request \<Rightarrow> bool \<Rightarrow> (int64 \<Rightarrow> bool) \<Rightarrow> (sched_state, sched_account option) state" where
  "legacy_session env pf q upstream routed =
     (if rq_hash q = [] then State_Monad.return None
      else do { r \<leftarrow> on_redis (get_session_account (group_or_zero (rq_gid q)) (rq_hash q));
        (case r of
           Inl _ \<Rightarrow> State_Monad.return None
         | Inr i \<Rightarrow> if i \<le> 0 \<or> \<not> routed i \<or> i \<in> set (rq_excluded q) then State_Monad.return None
             else legacy_sticky env pf q upstream i) })"

text \<open>Whether a listed account is a candidate; one without the privacy its group requires is marked.\<close>

definition privacy_missing :: "group option \<Rightarrow> sched_account \<Rightarrow> bool" where
  "privacy_missing g a \<longleftrightarrow> (case g of None \<Rightarrow> False | Some h \<Rightarrow> gr_require_privacy h \<and> \<not> is_privacy_set a)"

definition legacy_keeps ::
  "sched_env \<Rightarrow> prefetched \<Rightarrow> request \<Rightarrow> group option \<Rightarrow> bool \<Rightarrow> sched_account \<Rightarrow> (sched_state, bool) state" where
  "legacy_keeps env pf q g upstream a =
     (if sa_id a \<in> set (rq_excluded q) \<or> \<not> is_schedulable (se_zones env) (se_now env) a then State_Monad.return False
      else if privacy_missing g a then do {
        _ \<leftarrow> set_error (sa_id a) (''Privacy not set, required by group ['' @ (case g of None \<Rightarrow> [] | Some h \<Rightarrow> gr_name h) @ '']'');
        State_Monad.return False }
      else if (rq_mixed q \<and> sa_platform a = ''antigravity'' \<and> \<not> mixed_scheduling a) \<or>
          (upstream \<and> upstream_restricted env (group_or_zero (rq_gid q)) a (rq_model q)) \<or> \<not> supports env q a
      then State_Monad.return False
      else within_limits env pf False a)"

definition better :: "request \<Rightarrow> sched_account \<Rightarrow> sched_account \<Rightarrow> bool" where
  "better q a s \<longleftrightarrow> sa_priority a < sa_priority s \<or> (sa_priority a = sa_priority s \<and>
     (case (sa_last_used a, sa_last_used s) of
        (None, Some _) \<Rightarrow> True
      | (Some _, None) \<Rightarrow> False
      | (None, None) \<Rightarrow> rq_platform q = ''gemini'' \<and>
          (rq_mixed q \<longrightarrow> sa_platform a = ''gemini'' \<and> sa_platform s = ''gemini'') \<and> sa_type a \<noteq> sa_type s \<and> is_oauth_type a
      | (Some t, Some u) \<Rightarrow> t < u))"

fun best_of :: "request \<Rightarrow> sched_account option \<Rightarrow> sched_account list \<Rightarrow> sched_account option" where
  "best_of q s [] = s"
| "best_of q s (a # as) = best_of q (case s of None \<Rightarrow> Some a | Some b \<Rightarrow> if better q a b then Some a else Some b) as"

text \<open>Why no account was found.\<close>

definition platform_filtered :: "string \<Rightarrow> bool \<Rightarrow> sched_account \<Rightarrow> bool" where
  "platform_filtered platform mixed a \<longleftrightarrow>
     (if mixed then if sa_platform a = ''antigravity'' then \<not> mixed_scheduling a else sa_platform a \<noteq> platform
      else trim_space platform \<noteq> [] \<and> sa_platform a \<noteq> platform)"

definition diagnose :: "sched_env \<Rightarrow> request \<Rightarrow> sched_account \<Rightarrow> string" where
  "diagnose env q a =
     (if sa_id a \<in> set (rq_excluded q) then ''excluded''
      else if \<not> is_schedulable (se_zones env) (se_now env) a then ''unschedulable''
      else if platform_filtered (rq_platform q) (rq_mixed q) a then ''platform_filtered''
      else if rq_model q \<noteq> [] \<and> \<not> model_supported (se_ctx env) a (rq_model q) then ''model_unsupported''
      else if \<not> is_schedulable_for_model (se_zones env) (se_ctx env) (se_now env) a (rq_model q) then ''model_rate_limited''
      else ''eligible'')"

definition failure_summary :: "sched_env \<Rightarrow> request \<Rightarrow> sched_account list \<Rightarrow> string" where
  "failure_summary env q as = ''total='' @ itoa (int (length as)) @
     concat (map (\<lambda>c. '' '' @ c @ ''='' @ itoa (int (length (filter (\<lambda>a. diagnose env q a = c) as))))
       [''eligible'', ''excluded'', ''unschedulable'', ''platform_filtered'', ''model_unsupported'', ''model_rate_limited''])"

definition no_candidate :: "sched_env \<Rightarrow> request \<Rightarrow> sched_account list \<Rightarrow> go_error" where
  "no_candidate env q as =
     (if rq_model q = [] then no_available
      else Wrapped (''supporting model: '' @ rq_model q @ '' ('' @ failure_summary env q as @ '')'') no_available)"

definition chosen :: "request \<Rightarrow> sched_account \<Rightarrow> (sched_state, sched_account) state" where
  "chosen q a = do { _ \<leftarrow> bind_session (rq_gid q) (rq_hash q) a; State_Monad.return a }"

definition prefetch :: "sched_env \<Rightarrow> prefetched \<Rightarrow> sched_account list \<Rightarrow> (sched_state, prefetched) state" where
  "prefetch env pf accounts = do { costs \<leftarrow> prefetch_costs env accounts; rpms \<leftarrow> prefetch_rpms env accounts;
     State_Monad.return \<lparr>pf_costs = costs, pf_rpms = (if rpms = [] then pf_rpms pf else rpms)\<rparr> }"

definition nothing_prefetched :: prefetched where
  "nothing_prefetched = \<lparr>pf_costs = [], pf_rpms = []\<rparr>"

definition legacy_list :: "sched_env \<Rightarrow> request \<Rightarrow> go_error + sched_account list" where
  "legacy_list env q = map_sum (Wrapped ''query accounts failed'') (\<lambda>as. as)
     (fst (list_schedulable env (rq_gid q) (rq_platform q) (rc_force_platform (se_ctx env) \<noteq> [])))"

text \<open>Among the routed accounts; otherwise what was prefetched for the list.\<close>

definition legacy_routed ::
  "sched_env \<Rightarrow> request \<Rightarrow> group option \<Rightarrow> int64 list \<Rightarrow> sched_account list \<Rightarrow> (sched_state, sched_account option \<times> prefetched) state" where
  "legacy_routed env q g ids accounts = do {
     pf \<leftarrow> prefetch env nothing_prefetched accounts;
     cs \<leftarrow> keep_if (legacy_keeps env pf q g False) (filter (\<lambda>a. 0 < sa_id a \<and> sa_id a \<in> set ids) accounts);
     (case best_of q None cs of
        None \<Rightarrow> State_Monad.return (None, pf)
      | Some a \<Rightarrow> do { b \<leftarrow> chosen q a; State_Monad.return (Some b, pf) }) }"

definition legacy_unrouted ::
  "sched_env \<Rightarrow> request \<Rightarrow> group option \<Rightarrow> prefetched \<Rightarrow> (sched_state, go_error + sched_account) state" where
  "legacy_unrouted env q g pf = do {
     r \<leftarrow> legacy_session env pf q (rq_mixed q) (\<lambda>_. True);
     (case r of
        Some a \<Rightarrow> State_Monad.return (Inr a)
      | None \<Rightarrow> (case legacy_list env q of
          Inl e \<Rightarrow> State_Monad.return (Inl e)
        | Inr accounts \<Rightarrow> do {
            pf \<leftarrow> prefetch env pf accounts;
            cs \<leftarrow> keep_if (legacy_keeps env pf q g (needs_upstream_check env (rq_gid q))) accounts;
            (case best_of q None cs of
               None \<Rightarrow> State_Monad.return (Inl (no_candidate env q accounts))
             | Some a \<Rightarrow> do { b \<leftarrow> chosen q a; State_Monad.return (Inr b) }) })) }"

definition legacy_select :: "sched_env \<Rightarrow> request \<Rightarrow> (sched_state, go_error + sched_account) state" where
  "legacy_select env q =
     (let ids = routing_ids_for env (rq_gid q) (rq_model q) (rq_platform q); g = sched_group env (rq_gid q) in
      if ids = [] then legacy_unrouted env q g nothing_prefetched
      else do {
        r \<leftarrow> legacy_session env nothing_prefetched q (\<not> rq_mixed q) (\<lambda>i. i \<in> set ids);
        (case r of
           Some a \<Rightarrow> State_Monad.return (Inr a)
         | None \<Rightarrow> (case legacy_list env q of
             Inl e \<Rightarrow> State_Monad.return (Inl e)
           | Inr accounts \<Rightarrow> do {
               (r, pf) \<leftarrow> legacy_routed env q g ids accounts;
               (case r of Some a \<Rightarrow> State_Monad.return (Inr a) | None \<Rightarrow> legacy_unrouted env q g pf) })) })"

definition with_group_context :: "sched_env \<Rightarrow> group \<Rightarrow> sched_env" where
  "with_group_context env g =
     (if \<not> is_group_context_valid g \<or> group_from_context env (gr_id g) \<noteq> None then env else env\<lparr>se_context_group := Some g\<rparr>)"

text \<open>The platform of the request and the group it is served in, through the chain of fallback groups.\<close>

definition request_group :: "sched_env \<Rightarrow> int64 option \<Rightarrow> (go_error + sched_env \<times> int64 option \<times> string) option" where
  "request_group env gid =
     (if rc_force_platform (se_ctx env) \<noteq> [] then Some (Inr (env, gid, rc_force_platform (se_ctx env)))
      else case gid of
        None \<Rightarrow> Some (Inr (env, None, ''anthropic''))
      | Some i \<Rightarrow> map_option (map_sum (\<lambda>e. e) (\<lambda>(g, j). (with_group_context env g, Some j, gr_platform g))) (walk_groups env [] i))"

definition select_in_group ::
  "sched_env \<Rightarrow> int64 option \<Rightarrow> string \<Rightarrow> string \<Rightarrow> string \<Rightarrow> int64 list \<Rightarrow> (sched_state, go_error + sched_account) state" where
  "select_in_group env gid platform hash model excluded =
     (if channel_refuses env gid model then State_Monad.return (Inl (no_available_for model))
      else do {
        r \<leftarrow> legacy_select env \<lparr>rq_gid = gid, rq_hash = hash, rq_model = model, rq_excluded = excluded, rq_sticky = 0,
          rq_platform = platform, rq_mixed = mixed_platform platform (rc_force_platform (se_ctx env) \<noteq> [])\<rparr>;
        State_Monad.return (case r of Inl e \<Rightarrow> Inl e | Inr a \<Rightarrow> hydrate env a) })"

definition select_for_model ::
  "sched_env \<Rightarrow> int64 option \<Rightarrow> string \<Rightarrow> string \<Rightarrow> int64 list \<Rightarrow> (sched_state, go_error + sched_account) state option" where
  "select_for_model env gid hash model excluded =
     map_option (\<lambda>r. case r of
         Inl e \<Rightarrow> State_Monad.return (Inl e)
       | Inr (env', gid', platform) \<Rightarrow> select_in_group env' gid' platform hash model excluded) (request_group env gid)"

subsection \<open>Slots in the older way\<close>

definition place :: "sched_env \<Rightarrow> string \<Rightarrow> int64 \<Rightarrow> sched_account \<Rightarrow> (sched_state, answer option) state" where
  "place env hash sticky a = do {
     t \<leftarrow> take_slot env hash a;
     (case t of
        Taken q \<Rightarrow> State_Monad.return (Some (new_selection env a (Some q) None))
      | Session_Full \<Rightarrow> State_Monad.return None
      | Busy \<Rightarrow> do {
          ok \<leftarrow> check_and_register env hash a;
          if \<not> ok then State_Monad.return None
          else do {
            w \<leftarrow> (if 0 < sticky \<and> sticky = sa_id a then do { w \<leftarrow> waiting_count a; State_Monad.return (Some w) } else State_Monad.return None);
            State_Monad.return (Some (new_selection env a None (Some (case w of
                Some n \<Rightarrow> if n < sg_sticky_max_waiting (se_config env) then sticky_plan env a else fallback_plan env a
              | None \<Rightarrow> fallback_plan env a)))) } }) }"

partial_function (option) slot_loop ::
  "sched_env \<Rightarrow> int64 option \<Rightarrow> string \<Rightarrow> string \<Rightarrow> int64 \<Rightarrow> int64 list \<Rightarrow> sched_state \<Rightarrow> (answer \<times> sched_state) option" where
  "slot_loop env gid hash model sticky excluded s = (case select_for_model env gid hash model excluded of
     None \<Rightarrow> None
   | Some m \<Rightarrow> (case run_state m s of
       (Inl e, s1) \<Rightarrow> Some (Inl e, s1)
     | (Inr a, s1) \<Rightarrow> (case run_state (place env hash sticky a) s1 of
         (Some r, s2) \<Rightarrow> Some (r, s2)
       | (None, s2) \<Rightarrow> slot_loop env gid hash model sticky (sa_id a # excluded) s2)))"

definition select_account ::
  "sched_env \<Rightarrow> int64 option \<Rightarrow> string \<Rightarrow> string \<Rightarrow> int64 list \<Rightarrow> sched_state \<Rightarrow> (answer \<times> sched_state) option" where
  "select_account env gid hash model excluded s = (case claude_code_restriction env gid of
     None \<Rightarrow> None
   | Some (Inl e) \<Rightarrow> Some (Inl e, s)
   | Some (Inr (g, gid')) \<Rightarrow>
       let env' = (case g of None \<Rightarrow> env | Some h \<Rightarrow> with_group_context env h) in
       if channel_refuses env' gid' model then Some (Inl (no_available_for model), s)
       else (case run_state (sticky_account env' gid' hash) s of
         (sticky, s1) \<Rightarrow>
           if sg_load_batch (se_config env) then Some (run_state (load_aware_selection env' g gid' hash model excluded sticky) s1)
           else slot_loop env' gid' hash model sticky excluded s1))"

end
