(* ===== verification/SelectProofs.thy ===== *)
theory SelectProofs
  imports SelectEntry
begin

section \<open>Every selection is for an account that may serve\<close>

text \<open>
  The properties of the whole selection, with load batches or without.  The database gives an account under its number.
\<close>

definition numbered :: "sched_env \<Rightarrow> bool" where
  "numbered env \<longleftrightarrow> (\<forall>i a. se_account env i = Inr (Some a) \<longrightarrow> sa_id a = i)"

definition serves :: "sched_env \<Rightarrow> string \<Rightarrow> sched_account \<Rightarrow> bool" where
  "serves env model a \<longleftrightarrow> is_schedulable (se_zones env) (se_now env) a \<and> (model = [] \<or> model_supported (se_ctx env) a model) \<and>
     is_schedulable_for_model (se_zones env) (se_ctx env) (se_now env) a model \<and> schedulable_for_quota (se_zones env) (se_now env) a"

definition may_serve :: "sched_env \<Rightarrow> string \<Rightarrow> int64 list \<Rightarrow> sched_account \<Rightarrow> bool" where
  "may_serve env model excluded a \<longleftrightarrow> sa_id a \<notin> set excluded \<and> serves env model a"

lemma supports_serves: "supports env q a \<Longrightarrow> serves env (rq_model q) a"
  by (simp add: supports_def serves_def is_schedulable_for_model_def)

lemma best_of_in: "best_of q s as = Some a \<Longrightarrow> a \<in> set as \<or> s = Some a"
  by (induction q s as rule: best_of.induct) (auto split: option.splits if_splits)

abbreviation if_some :: "('a \<Rightarrow> bool) \<Rightarrow> 'a option \<Rightarrow> bool" where
  "if_some P r \<equiv> \<forall>a. r = Some a \<longrightarrow> P a"

abbreviation if_right :: "('a \<Rightarrow> bool) \<Rightarrow> 'e + 'a \<Rightarrow> bool" where
  "if_right P r \<equiv> \<forall>a. r = Inr a \<longrightarrow> P a"

lemma yields_sum: "(\<And>e. x = Inl e \<Longrightarrow> yields (f e) Q) \<Longrightarrow> (\<And>a. x = Inr a \<Longrightarrow> yields (g a) Q) \<Longrightarrow>
    yields (case x of Inl e \<Rightarrow> f e | Inr a \<Rightarrow> g a) Q"
  by (cases x) simp_all

lemma sticky_serves:
  assumes "numbered env" "i \<notin> set (rq_excluded q)"
  shows "yields (legacy_sticky env pf q up i) (if_some (may_serve env (rq_model q) (rq_excluded q)))"
proof (cases "snapshot_account env i")
  case (Inr r)
  show ?thesis
  proof (cases r)
    case (Some a)
    then have id: "sa_id a = i" using Inr assms(1) by (auto simp: snapshot_account_def numbered_def split: if_splits)
    have ok: "may_serve env (rq_model q) (rq_excluded q) a" if "supports env q a"
      using supports_serves [OF that] id assms(2) by (simp add: may_serve_def)
    show ?thesis
      unfolding legacy_sticky_def Inr Some sum.case option.case Let_def
      by (intro yields_then yields_if yields_return) (use ok in auto)
  qed (simp add: legacy_sticky_def Inr yields_return)
qed (simp add: legacy_sticky_def yields_return)

lemma session_serves:
  "numbered env \<Longrightarrow> yields (legacy_session env pf q up routed) (if_some (may_serve env (rq_model q) (rq_excluded q)))"
  unfolding legacy_session_def
  by (intro yields_if yields_then yields_sum yields_return sticky_serves) auto

lemma keeps_serves: "yields (legacy_keeps env pf q g up a) (\<lambda>b. b \<longrightarrow> may_serve env (rq_model q) (rq_excluded q) a)"
  unfolding legacy_keeps_def
  by (intro yields_if yields_then yields_return) (auto simp: yields_def may_serve_def dest: supports_serves)

lemma best_serves:
  assumes "\<And>a. may_serve env (rq_model q) (rq_excluded q) a \<Longrightarrow> yields (f (Some a)) Q" "yields (f None) Q"
  shows "yields (do { cs \<leftarrow> keep_if (legacy_keeps env pf q g up) as; f (best_of q None cs) }) Q"
proof (rule yields_bind [OF yields_keep_if [OF keeps_serves]])
  fix cs assume cs: "\<forall>a \<in> set cs. a \<in> set as \<and> may_serve env (rq_model q) (rq_excluded q) a"
  show "yields (f (best_of q None cs)) Q"
  proof (cases "best_of q None cs")
    case (Some a)
    then have "a \<in> set cs" using best_of_in by fastforce
    then show ?thesis using cs assms(1) Some by auto
  qed (use assms(2) in simp)
qed

lemma yields_chosen: "yields (k a) Q \<Longrightarrow> yields (State_Monad.bind (chosen q a) k) Q"
  by (simp add: yields_def chosen_def split_def)

lemma routed_serves:
  "yields (legacy_routed env q g ids as) (\<lambda>r. if_some (may_serve env (rq_model q) (rq_excluded q)) (fst r))"
  unfolding legacy_routed_def
  apply (rule yields_then)
  apply (rule best_serves [where f = "\<lambda>r. case r of None \<Rightarrow> State_Monad.return (None, pf)
      | Some a \<Rightarrow> do { b \<leftarrow> chosen q a; State_Monad.return (Some b, pf) }" for pf])
   apply (auto intro!: yields_chosen yields_return)
  done

lemma unrouted_serves:
  "numbered env \<Longrightarrow> yields (legacy_unrouted env q g pf) (if_right (may_serve env (rq_model q) (rq_excluded q)))"
  unfolding legacy_unrouted_def
  apply (rule yields_bind [OF session_serves], assumption)
  apply (rule yields_option)
   apply (rule yields_sum)
    apply (rule yields_return, simp)
   apply (rule yields_then)
   apply (rule best_serves [where f = "\<lambda>r. case r of None \<Rightarrow> State_Monad.return (Inl (no_candidate env q as))
      | Some a \<Rightarrow> do { b \<leftarrow> chosen q a; State_Monad.return (Inr b) }" for as])
    apply (auto intro!: yields_chosen yields_return)
  done

lemma legacy_serves:
  assumes "numbered env"
  shows "yields (legacy_select env q) (if_right (may_serve env (rq_model q) (rq_excluded q)))"
  unfolding legacy_select_def Let_def
  apply (rule yields_if)
   apply (rule unrouted_serves [OF assms])
  apply (rule yields_bind [OF session_serves [OF assms]])
  apply (rule yields_option)
   apply (rule yields_sum)
    apply (rule yields_return, simp)
   apply (rule yields_bind [OF routed_serves])
   apply (auto intro!: yields_option yields_return unrouted_serves [OF assms])
  done

text \<open>The environments of one request differ in the group of its context only.\<close>

definition same_view :: "sched_env \<Rightarrow> sched_env \<Rightarrow> bool" where
  "same_view env env' \<longleftrightarrow> env' = env\<lparr>se_context_group := se_context_group env'\<rparr>"

lemma view_refl: "same_view env env"
  by (simp add: same_view_def)

lemma view_context: "same_view env (with_group_context env g)"
  by (simp add: same_view_def with_group_context_def)

lemma view_trans: "same_view a b \<Longrightarrow> same_view b c \<Longrightarrow> same_view a c"
  unfolding same_view_def by (cases a; cases b; cases c) simp

lemma view_simps:
  assumes "same_view env env'"
  shows "serves env' = serves env" "may_serve env' = may_serve env" "numbered env' = numbered env" "hydrate env' = hydrate env"
    "se_channels env' = se_channels env" "se_account env' = se_account env"
proof -
  obtain g where "env' = env\<lparr>se_context_group := g\<rparr>" using assms unfolding same_view_def by blast
  then have v: "se_zones env' = se_zones env" "se_now env' = se_now env" "se_ctx env' = se_ctx env" "se_account env' = se_account env"
    "se_channels env' = se_channels env" by simp_all
  show "serves env' = serves env" by (simp add: fun_eq_iff serves_def v)
  then show "may_serve env' = may_serve env" by (simp add: fun_eq_iff may_serve_def)
  show "numbered env' = numbered env" "hydrate env' = hydrate env" "se_channels env' = se_channels env" "se_account env' = se_account env"
    by (simp_all add: numbered_def hydrate_def snapshot_account_def fun_eq_iff v)
qed

text \<open>An answer for an account that may serve: a slot of it, or a place in the queue for it.\<close>

definition served :: "sched_env \<Rightarrow> string \<Rightarrow> int64 list \<Rightarrow> selection \<Rightarrow> bool" where
  "served env model excluded l \<longleftrightarrow> (\<exists>a. may_serve env model excluded a \<and> sa_id (sl_account l) = sa_id a \<and>
     (sl_acquired l \<longleftrightarrow> sl_wait l = None) \<and>
     (case sl_release l of None \<Rightarrow> \<not> sl_acquired l | Some (i, r) \<Rightarrow> sl_acquired l \<and> i = sa_id a) \<and>
     (case sl_wait l of None \<Rightarrow> True | Some w \<Rightarrow> wp_account w = sa_id a))"

lemma hydrate_id: "numbered env \<Longrightarrow> hydrate env a = Inr b \<Longrightarrow> sa_id b = sa_id a"
  by (auto simp: hydrate_def snapshot_account_def numbered_def split: sum.splits option.splits if_splits)

lemma served_fewer: "served env model excluded l \<Longrightarrow> set ex \<subseteq> set excluded \<Longrightarrow> served env model ex l"
  by (auto simp: served_def may_serve_def)

lemma map_sum_eq_Inr: "map_sum f g x = Inr y \<longleftrightarrow> (\<exists>a. x = Inr a \<and> g a = y)"
  by (cases x) auto

lemma request_group_view: "request_group env gid = Some (Inr (env', g, p)) \<Longrightarrow> same_view env env'"
  by (auto simp: request_group_def view_refl view_context map_sum_eq_Inr split: if_splits option.splits)

lemma select_for_model_serves:
  assumes "numbered env" "select_for_model env gid hash model excluded = Some m"
  shows "yields m (if_right (\<lambda>b. \<exists>a. may_serve env model excluded a \<and> sa_id b = sa_id a \<and> hydrate env a = Inr b))"
proof -
  obtain r where r: "request_group env gid = Some r"
      "m = (case r of Inl e \<Rightarrow> State_Monad.return (Inl e) | Inr (e, g, p) \<Rightarrow> select_in_group e g p hash model excluded)"
    using assms(2) by (auto simp: select_for_model_def)
  show ?thesis
  proof (cases r)
    case (Inr x)
    obtain env' g p where x: "x = (env', g, p)" by (cases x)
    then have v: "same_view env env'" using r Inr request_group_view by blast
    note vs = view_simps [OF v]
    show ?thesis
      unfolding r(2) Inr x sum.case prod.case select_in_group_def
      apply (rule yields_if)
       apply (rule yields_return, simp)
      apply (rule yields_bind [OF legacy_serves])
       apply (simp add: vs assms(1))
      apply (rule yields_return)
      apply (use hydrate_id [OF assms(1)] in \<open>auto simp: vs split: sum.splits\<close>)
      done
  qed (simp add: r(2) yields_return)
qed

lemma new_selection_served:
  assumes "numbered env" "may_serve env model excluded a" "sa_id b = sa_id a" "new_selection env b slot plan = Inr l"
    and "slot = None \<longleftrightarrow> plan \<noteq> None" "case plan of None \<Rightarrow> True | Some w \<Rightarrow> wp_account w = sa_id a"
  shows "served env model excluded l"
proof -
  obtain h where h: "hydrate env b = Inr h" "l = \<lparr>sl_account = h, sl_acquired = (slot \<noteq> None),
      sl_release = map_option (\<lambda>q. (sa_id b, q)) slot, sl_wait = plan\<rparr>"
    using assms(4) by (auto simp: new_selection_def split: sum.splits)
  have "sa_id h = sa_id a" using hydrate_id [OF assms(1) h(1)] assms(3) by simp
  then show ?thesis
    unfolding served_def using assms(2,3,5,6) by (intro exI [of _ a]) (cases slot; auto simp: h(2))
qed

lemma place_serves:
  assumes "numbered env" "may_serve env model excluded a" "sa_id b = sa_id a"
  shows "yields (place env hash sticky b) (\<lambda>r. \<forall>l. r = Some (Inr l) \<longrightarrow> served env model excluded l)"
proof -
  have new: "served env model excluded l" if "new_selection env b slot plan = Inr l" "slot = None \<longleftrightarrow> plan \<noteq> None"
      "case plan of None \<Rightarrow> True | Some w \<Rightarrow> wp_account w = sa_id a" for l slot plan
    using new_selection_served [OF assms that] .
  show ?thesis
    unfolding place_def
    apply (rule yields_then)
    subgoal for t
      by (cases t) (auto intro!: yields_return yields_then yields_if new simp: assms(3) sticky_plan_def fallback_plan_def split: option.split if_split)
    done
qed

lemma slot_loop_serves:
  "slot_loop env gid hash model sticky excluded s = Some r \<Longrightarrow>
    numbered env \<longrightarrow> (\<forall>l. fst r = Inr l \<longrightarrow> served env model excluded l)"
proof (rule slot_loop.raw_induct [of
    "\<lambda>env gid hash model sticky excluded s r. numbered env \<longrightarrow> (\<forall>l. fst r = Inr l \<longrightarrow> served env model excluded l)"], goal_cases)
  case (1 loop env gid hash model sticky excluded s r)
  show ?case
  proof (intro impI allI)
    fix l assume n: "numbered env" and l: "fst r = Inr l"
    obtain m where m: "select_for_model env gid hash model excluded = Some m" using 1(3) by (auto split: option.splits)
    obtain b s1 where b: "run_state m s = (Inr b, s1)" using 1(3) m l by (auto split: prod.splits sum.splits)
    then obtain a where a: "may_serve env model excluded a" "sa_id b = sa_id a"
      using yieldsD [OF select_for_model_serves [OF n m]] by blast
    obtain p s2 where p: "run_state (place env hash sticky b) s1 = (p, s2)" by fastforce
    show "served env model excluded l"
    proof (cases p)
      case None
      then have "loop env gid hash model sticky (sa_id b # excluded) s2 = Some r" using 1(3) m b p by simp
      then have "served env model (sa_id b # excluded) l" using 1(2) n l by blast
      then show ?thesis by (rule served_fewer) auto
    next
      case (Some x)
      then have "p = Some (Inr l)" using 1(3) m b p l by auto
      then show ?thesis using yieldsD [OF place_serves [OF n a] p] by blast
    qed
  qed
qed

lemma load_aware_by_load:
  assumes "run_state (load_aware_selection env g gid hash model excluded sticky) s = (Inr l, s')"
  shows "\<exists>q accounts ids. rq_model q = model \<and> rq_excluded q = excluded \<and> run_state (select_by_load env q accounts ids) s = (Inr l, s')"
proof -
  obtain p forced where p: "resolve_platform env gid g = Inr (p, forced)"
    using assms by (cases "resolve_platform env gid g") (auto simp: load_aware_selection_def)
  obtain r mixed where "list_schedulable env gid p forced = (r, mixed)" by fastforce
  moreover from this obtain accounts where "r = Inr accounts" "accounts \<noteq> []"
    using assms p by (cases r) (auto simp: load_aware_selection_def split: if_splits)
  ultimately show ?thesis
    using assms p unfolding load_aware_selection_def
    by (intro exI conjI) (auto simp: load_aware_selection_def)
qed

text \<open>
  C0.  Whatever Redis answers and however its requests interleave, with load batches or without: an account that is
  selected is not one of those excluded, is schedulable now, supports the model, has no active limit on it and is within its
  quota.  The answer names this account; it holds a slot exactly when it has no waiting plan, its release gives back a
  slot of this account, and its plan is for it.
\<close>

theorem selected_account_may_serve:
  assumes "numbered env" "select_account env gid hash model excluded s = Some (Inr l, s')"
  shows "served env model excluded l"
proof -
  obtain g gid' where r: "claude_code_restriction env gid = Some (Inr (g, gid'))"
    using assms(2) by (auto simp: select_account_def split: option.splits sum.splits)
  define env' where "env' = (case g of None \<Rightarrow> env | Some h \<Rightarrow> with_group_context env h)"
  have v: "same_view env env'" by (simp add: env'_def view_refl view_context split: option.split)
  note vs = view_simps [OF v]
  obtain sticky s1 where st: "run_state (sticky_account env' gid' hash) s = (sticky, s1)" by fastforce
  have run: "(if sg_load_batch (se_config env) then Some (run_state (load_aware_selection env' g gid' hash model excluded sticky) s1)
      else slot_loop env' gid' hash model sticky excluded s1) = Some (Inr l, s')"
    using assms(2) st by (auto simp: select_account_def r env'_def Let_def split: if_splits)
  have "served env' model excluded l"
  proof (cases "sg_load_batch (se_config env)")
    case True
    then obtain q accounts ids where q: "rq_model q = model" "rq_excluded q = excluded"
        and l: "run_state (select_by_load env' q accounts ids) s1 = (Inr l, s')"
      using run load_aware_by_load by (metis option.inject)
    obtain a where a: "eligible env' q accounts a" "selected env' a l"
      using yieldsD [OF selection_explained l] by (auto simp: sound_answer_def)
    have "may_serve env' model excluded a"
      using a(1) by (auto simp: eligible_def fits_def may_serve_def serves_def q)
    moreover have "sa_id (sl_account l) = sa_id a"
      using a(2) hydrate_id [of env' a "sl_account l"] assms(1) by (auto simp: selected_def vs)
    ultimately show ?thesis
      unfolding served_def using a(2) by (intro exI [of _ a]) (auto simp: selected_def split: option.splits)
  next
    case False
    then show ?thesis using run slot_loop_serves [of env' gid' hash model sticky excluded s1 "(Inr l, s')"] assms(1)
      by (simp add: vs)
  qed
  then show ?thesis by (simp add: served_def vs)
qed

text \<open>
  C0.  Where a channel restricts its models, a model without a row of prices is refused before any account, slot or
  session is looked at: the answer says so and nothing is written, with load batches or without.  The model that
  must have a price is the one the channel bills, the requested one or the one it is mapped to.
\<close>

theorem unpriced_model_refused:
  assumes "claude_code_restriction env gid = Some (Inr (h, Some g))"
    and "se_channels env = Inr (populate_cache n chs ps)" "linked chs ps g ch p" "unambiguous ch" "is_active ch" "ch_restrict ch"
    and "mapped = resolve_channel_mapping (se_channels env) g model"
    and "billed = billing_model_for_restriction (mg_source mapped) model (mg_model mapped)" "model \<noteq> []" "billed \<noteq> []"
    and "\<forall>r \<in> set (ch_pricing ch). pw_platform r = p \<longrightarrow> (\<forall>pat \<in> set (pw_models r). \<not> pattern_matches pat billed)"
  shows "select_account env gid hash model excluded s = Some (Inl (no_available_for model), s)"
proof -
  define env' where "env' = (case h of None \<Rightarrow> env | Some h \<Rightarrow> with_group_context env h)"
  have "same_view env env'" by (simp add: env'_def view_refl view_context split: option.split)
  note vs = view_simps [OF this]
  have "channel_model_pricing (Inr (populate_cache n chs ps)) g billed = None"
  proof (cases "channel_model_pricing (Inr (populate_cache n chs ps)) g billed")
    case (Some r)
    then show ?thesis using assms(11) priced_by_row [OF assms(3,4), of n billed r] by blast
  qed
  then have "is_model_restricted (se_channels env) g billed"
    using channel_restriction_means_no_price [OF assms(3,4)] assms(2,5,6) by simp
  then have "channel_refuses env' (Some g) model"
    using assms(7-10) by (simp add: channel_refuses_def vs Let_def)
  then show ?thesis by (simp add: select_account_def assms(1) env'_def [symmetric] Let_def)
qed

subsection \<open>Selections end\<close>

lemma hydrate_stored: "hydrate env a = Inr b \<Longrightarrow> se_account env (sa_id a) = Inr (Some b)"
  by (auto simp: hydrate_def snapshot_account_def split: sum.splits option.splits if_splits)

lemma request_group_returns:
  "finite {i. \<exists>g. resolve_group_by_id env i = Inr g} \<Longrightarrow> \<exists>r. request_group env gid = Some r"
  using walk_groups_returns [of env] by (auto simp: request_group_def split: option.split)

lemma slot_loop_returns:
  assumes "numbered env" "finite {i. \<exists>g. resolve_group_by_id env i = Inr g}"
    and fin: "finite {i. \<exists>a. se_account env i = Inr (Some a)}" (is "finite ?A")
  shows "\<exists>r. slot_loop env gid hash model sticky excluded s = Some r"
proof (induction "card (?A - set excluded)" arbitrary: excluded s rule: less_induct)
  case less
  obtain z where "request_group env gid = Some z" using request_group_returns [OF assms(2)] by blast
  then obtain m where m: "select_for_model env gid hash model excluded = Some m" by (simp add: select_for_model_def)
  obtain r s1 where r: "run_state m s = (r, s1)" by fastforce
  show ?case
  proof (cases r)
    case (Inl e)
    then show ?thesis by (subst slot_loop.simps) (simp add: m r)
  next
    case (Inr b)
    then obtain a where a: "may_serve env model excluded a" "sa_id b = sa_id a" "hydrate env a = Inr b"
      using yieldsD [OF select_for_model_serves [OF assms(1) m] r] by blast
    then have "sa_id b \<in> ?A" "sa_id b \<notin> set excluded" using hydrate_stored [OF a(3)] by (auto simp: may_serve_def)
    then have smaller: "card (?A - set (sa_id b # excluded)) < card (?A - set excluded)"
      using fin by (intro psubset_card_mono) auto
    obtain q s2 where q: "run_state (place env hash sticky b) s1 = (q, s2)" by fastforce
    show ?thesis
    proof (cases q)
      case None
      then show ?thesis using less [OF smaller, of s2] by (subst slot_loop.simps) (simp add: m r Inr q)
    next
      case (Some x)
      then show ?thesis by (subst slot_loop.simps) (simp add: m r Inr q)
    qed
  qed
qed

text \<open>
  C0.  A selection always ends, whatever Redis answers: the chain of fallback groups is followed at most once around, and
  the loop that looks for another account when one has no session left gives up each account at most once.  For finitely
  many groups and accounts.
\<close>

theorem select_account_returns:
  assumes "numbered env" "finite {i. \<exists>g. resolve_group_by_id env i = Inr g}" "finite {i. \<exists>a. se_account env i = Inr (Some a)}"
  shows "\<exists>r. select_account env gid hash model excluded s = Some r"
proof -
  have "\<exists>r. claude_code_restriction env gid = Some r"
    using walk_groups_returns [OF assms(2)] by (auto simp: claude_code_restriction_def split: option.split)
  then obtain r where r: "claude_code_restriction env gid = Some r" by blast
  show ?thesis
  proof (cases r)
    case (Inr x)
    obtain g gid' where x: "x = (g, gid')" by (cases x)
    define env' where "env' = (case g of None \<Rightarrow> env | Some h \<Rightarrow> with_group_context env h)"
    have "same_view env env'" by (simp add: env'_def view_refl view_context split: option.split)
    note vs = view_simps [OF this]
    have "{i. \<exists>g. resolve_group_by_id env' i = Inr g} \<subseteq>
        {i. \<exists>g. resolve_group_by_id env i = Inr g} \<union> (case g of None \<Rightarrow> {} | Some h \<Rightarrow> {gr_id h})"
      by (auto simp: env'_def with_group_context_def resolve_group_by_id_def group_from_context_def split: option.splits if_splits sum.splits)
    then have "finite {i. \<exists>g. resolve_group_by_id env' i = Inr g}"
      by (rule finite_subset) (simp add: assms(2) split: option.split)
    then have "\<exists>r. slot_loop env' gid' hash model sticky excluded s1 = Some r" for sticky s1
      using slot_loop_returns [of env'] assms(1,3) by (simp add: vs)
    then show ?thesis
      by (simp add: select_account_def r Inr x env'_def [symmetric] Let_def split: prod.split)
  qed (simp add: select_account_def r)
qed

subsection \<open>A concrete selection\<close>

declare walk_groups.simps [code] slot_loop.simps [code]

definition plain_env :: sched_env where
  "plain_env = demo_env\<lparr>se_config := demo_config\<lparr>sg_load_batch := False\<rparr>,
     se_channels := Inr (populate_cache 0 [claude_channel] group_platforms),
     se_group_by_id := (\<lambda>i. if i = 7 then Inr \<lparr>gr_id = 7, gr_name = ''claude'', gr_platform = ''anthropic'', gr_status = ''active'', gr_hydrated = True,
       gr_claude_only = False, gr_fallback = None, gr_routing_enabled = False, gr_routing = [], gr_require_privacy = False\<rparr>
       else Inl (Plain ''not found''))\<rparr>"

lemma plain_numbered: "numbered plain_env"
  by (auto simp: numbered_def plain_env_def demo_env_def two_accounts_def plain_account_def split: if_splits)

lemma plain_run: "map_option (\<lambda>r. case fst r of Inl _ \<Rightarrow> None | Inr l \<Rightarrow> Some (sa_id (sl_account l), sl_wait l))
    (select_account plain_env (Some 7) ''session'' ''claude-haiku'' [] demo_state) = Some (Some (2, None))"
  by code_simp

theorem selected_account_may_serve_witness:
  "case select_account plain_env (Some 7) ''session'' ''claude-haiku'' [] demo_state of
     Some (Inr l, _) \<Rightarrow> served plain_env ''claude-haiku'' [] l | _ \<Rightarrow> False"
proof -
  obtain x where x: "select_account plain_env (Some 7) ''session'' ''claude-haiku'' [] demo_state = Some x" using plain_run by auto
  moreover obtain l where "fst x = Inr l" using plain_run x by (cases "fst x") auto
  ultimately have l: "select_account plain_env (Some 7) ''session'' ''claude-haiku'' [] demo_state = Some (Inr l, snd x)"
    by (metis prod.collapse)
  then show ?thesis using selected_account_may_serve [OF plain_numbered l] by simp
qed

lemma plain_finite: "finite {i. \<exists>g. resolve_group_by_id plain_env i = Inr g}" "finite {i. \<exists>a. se_account plain_env i = Inr (Some a)}"
proof -
  have "{i. \<exists>g. resolve_group_by_id plain_env i = Inr g} \<subseteq> {7}"
    by (auto simp: resolve_group_by_id_def group_from_context_def plain_env_def demo_env_def split: if_splits)
  then show "finite {i. \<exists>g. resolve_group_by_id plain_env i = Inr g}" by (rule finite_subset) simp
  have "{i. \<exists>a. se_account plain_env i = Inr (Some a)} \<subseteq> {1, 2}"
    by (auto simp: plain_env_def demo_env_def two_accounts_def plain_account_def split: if_splits)
  then show "finite {i. \<exists>a. se_account plain_env i = Inr (Some a)}" by (rule finite_subset) simp
qed

theorem select_account_returns_witness: "\<exists>r. select_account plain_env (Some 7) ''session'' ''claude-haiku'' [1] demo_state = Some r"
  by (rule select_account_returns [OF plain_numbered plain_finite])

lemma plain_group: "claude_code_restriction plain_env (Some 7) =
    Some (Inr (case se_group_by_id plain_env 7 of Inl _ \<Rightarrow> None | Inr g \<Rightarrow> Some g, Some 7))"
  by (simp add: claude_code_restriction_def walk_groups.simps resolve_group_by_id_def group_from_context_def plain_env_def demo_env_def
      background_ctx_def)

theorem unpriced_model_refused_witness:
  "select_account plain_env (Some 7) ''session'' ''gpt-4'' [] demo_state = Some (Inl (no_available_for ''gpt-4''), demo_state)"
proof (rule unpriced_model_refused [OF plain_group _ claude_linked valid_unambiguous [OF claude_valid] _ _ refl refl])
  have "billing_model_for_restriction (mg_source (resolve_channel_mapping (se_channels plain_env) 7 ''gpt-4'')) ''gpt-4''
      (mg_model (resolve_channel_mapping (se_channels plain_env) 7 ''gpt-4'')) = ''gpt-4''" (is "?b = _")
    by code_simp
  moreover have "\<forall>r \<in> set (ch_pricing claude_channel). pw_platform r = ''anthropic'' \<longrightarrow>
      (\<forall>pat \<in> set (pw_models r). \<not> pattern_matches pat ''gpt-4'')"
    by code_simp
  ultimately show "?b \<noteq> []" "\<forall>r \<in> set (ch_pricing claude_channel). pw_platform r = ''anthropic'' \<longrightarrow>
      (\<forall>pat \<in> set (pw_models r). \<not> pattern_matches pat ?b)" by simp_all
qed (simp_all add: plain_env_def claude_channel_def is_active_def)

end
