(* ===== verification/Spec2Isabelle.thy ===== *)
theory Spec2Isabelle
  imports Sidecar Idempotency SysLock Failover PayProps Concurrency UsageBilling RespToAnth AnthToChat RecordUsage QuotaWindows SelectProofs
begin

text \<open>
  The repository is a gateway that sells access to language models.  A client calls one of three APIs with
  a key; the gateway picks one of its upstream accounts, converts the request and the answer between the
  APIs, counts the tokens and charges the key's user.  Users top up their balance through payment
  providers, redeem codes, or hold a subscription; a sidecar collects usage that clients report themselves.
  This development models the parts of it that move money, exclude each other or transform data:

  Base.  \<open>GoBase\<close> (strings as bytes, \<open>strings\<close>, \<open>strconv\<close> and 64-bit integers), \<open>Utf8\<close>, \<open>Json\<close> (values,
  reader and writer), \<open>Float64\<close> (rounding to \<open>float64\<close>), \<open>AppError\<close> (\<open>pkg/errors\<close>), \<open>Stateful\<close> (the state
  monad with errors, Hoare triples and step relations), \<open>Store\<close> (a database whose statements may fail, lose
  their reply or meet other writers; transactions; the locale \<open>rely_guarantee\<close>), \<open>Atomic\<close> (a
  transaction as a function of the tables), \<open>Redis\<close> (typed keys with deadlines).

  Usage.  \<open>Sidecar\<close> is \<open>sidecar/main.go\<close>: configuration, authorisation, validation of a report, the one
  INSERT it becomes.  \<open>ModelNames\<close>, \<open>PriceTable\<close>, \<open>Cost\<close> and \<open>CostProps\<close> are \<open>service/pricing_service.go\<close>,
  \<open>billing_service.go\<close> and \<open>model_pricing_resolver.go\<close>: from a model's name to its price to the cost of a
  request.  \<open>RecordUsage\<close> is \<open>recordUsageCore\<close> of \<open>gateway_service.go\<close>: from the usage of a request through its
  cost to the command that charges it; \<open>UsageBilling\<close> executes the command (\<open>usage_billing_repo.go\<close>).

  Money.  \<open>Money\<close> is \<open>payment/\<close> (currencies, fees, amounts).  \<open>BillingTables\<close> holds the rows that
  payments, codes, subscriptions and rebates share; \<open>Subscriptions\<close>, \<open>Affiliate\<close>, \<open>Redeem\<close>, \<open>PayOrders\<close>, \<open>PayFulfil\<close>,
  \<open>PayCancel\<close> and \<open>PayRefund\<close> are the services on them; \<open>Accounts\<close> states what every handler keeps whoever
  runs beside it, \<open>PayBooks\<close> and \<open>PayShop\<close> prove it of every call, \<open>PayProps\<close> draws the conclusions.

  Exclusion.  \<open>IdemRepo\<close>, \<open>Idempotency\<close> and \<open>SysLock\<close> are the idempotency records, the coordinator that runs
  an operation once, and the lock built on them.  \<open>Slots\<close> and \<open>Concurrency\<close> are the Redis scripts and the
  service that bound the requests in flight.  \<open>Failover\<close> is the loop over accounts of a request.

  Formats.  \<open>ApiTypes\<close> (the types of the three APIs), \<open>RespToAnth\<close>, \<open>AnthToResp\<close>, \<open>RespToChat\<close> (the converters
  of \<open>pkg/apicompat\<close>, whole answers and streams) and \<open>AnthToChat\<close> (the chain of converters a Chat Completions
  client of an Anthropic account goes through, and the handler that buffers a stream).

  What the lemmas show.  The functional behaviour of each operation is the definitions themselves, tested on
  concrete runs; the properties say what the operations mean together.  A user's recharged total is
  explained by used codes and transfers; a completed order has exactly one used code; orders follow
  their life; a request is charged at most once, whole or not at all, and exactly its cost; an operation
  under an idempotency key runs once while its claim lasts and is replayed afterwards; at most the permitted
  number of slots is live, and the scripts implement leases; the streams a converter emits are well formed
  and carry what the whole answer carries; conversions of money round to the stated side; the loops end.
  Where the code does not do what it means to, the property states what it does, on a concrete run.

  Interference.  A handler is a sequence of statements on one store.  Before each statement the
  environment may take a step of its own (for the billing tables: \<open>fair\<close> or \<open>kept\<close>; for usage: a sequence of
  charges, credits and archivings), and a statement may be refused or lose its reply; inside a transaction
  nothing interferes, and its commit may fail or lose its reply.  The schedule is a list in the state, so
  a run evaluates.  A Redis script and a single SQL statement are one step.  Isolation weaker than
  this (two transactions that interleave under READ COMMITTED without meeting in a row lock) is outside the
  model, except where the code's own guards are conditional updates.

  Loops and fuel.  Loops over data are structural recursions; the account loop, the renewal of a
  lock and the batches of archiving take the number of rounds as an argument, and the properties
  quantify over it or give the number that is enough (\<open>serve_terminates\<close>, \<open>gemini_group_never_ends\<close>).

  Parameters.  Hashes, identifiers, random numbers and the clock; texts that only pass through (raw JSON,
  error messages of libraries); the answers of payment providers and of the upstream; the cache of channel
  prices; the order in which a Go map is visited; the growth of slices.  Hypotheses on them are
  documented behaviour: an encoder and its decoder are inverse, a hash is a function, identifiers are fresh.

  Numbers.  Database columns of type \<open>numeric\<close> and the decimal library are rationals with their roundings
  written out.  The cost computation rounds every operation to \<open>float64\<close> (no overflow, no NaN, no fused
  multiply-add: the code's target is amd64); elsewhere a \<open>float64\<close> amount is the rational it stands for.
  Token counts, lengths and indices are unbounded integers where the code could not overflow them with data
  of any real size; identifiers and counters that wrap are 64 bits wide.  Time zones have a constant offset.

  Not modelled.  The HTTP layer (routes, gin handlers, middleware, DTOs), the forwarding of
  requests to upstreams and their authentication, the WebSocket relays, the clients of payment providers,
  e-mail, backups, monitoring and statistics, administration screens, settings, the code the ORM
  generates, the frontend, the Python reporter: they are input/output around the parts above, calls to
  libraries, or generated.  The choice of an account among those of a group and the request converters are
  program logic that is still to be modelled; the manifest lists every part with its status.
\<close>

end
